(* ===== verification/Prelude.thy ===== *)
theory Prelude
  imports Main "HOL-Library.AList" "HOL-Library.Multiset"
begin

text \<open>
  The prelude of the development: error values, the result type every fallible operation
  returns, database tables as lists of rows in primary-key order, and the generic lemmas
  the components share.

  A Django table is a list of rows. A query set is \<open>filter P\<close>, an update
  \<open>update_where P f\<close>, a delete \<open>delete_where P\<close>, and \<open>.first()\<close> is \<open>first_row\<close>
  (an unordered query set returns its first row by primary key).
\<close>

named_theorems table_simps \<open>rewrite rules for the table operations\<close>
named_theorems frame_simps \<open>facts that an operation leaves a table alone\<close>

section \<open>Errors as values\<close>

text \<open>The exceptions the modelled code raises or lets through, with their message.\<close>

datatype error =
    ValueError string
  | TypeError string
  | KeyError string
  | Http404 string
  | FileNotFound string
  | OSError string
  | RuntimeError string
  | DatabaseError string
  | MultipleRows string
  | HandlerError string
  | IndexError string
  | NoReverseMatch string
  | PlaybackError string
  | SystemExit string
  | OverflowError string
  | AttributeError string

type_synonym 'a result = "error + 'a"

definition bind_result :: "'a result \<Rightarrow> ('a \<Rightarrow> 'b result) \<Rightarrow> 'b result" where
  "bind_result r f = (case r of Inl e \<Rightarrow> Inl e | Inr x \<Rightarrow> f x)"

lemma bind_result_simps [simp]:
  "bind_result (Inl e) f = Inl e"
  "bind_result (Inr x) f = f x"
  by (simp_all add: bind_result_def)

lemma bind_result_Inr:
  "bind_result r f = Inr y \<longleftrightarrow> (\<exists>x. r = Inr x \<and> f x = Inr y)"
  by (cases r) auto

lemma bind_result_Inl:
  "bind_result r f = Inl e \<longleftrightarrow> r = Inl e \<or> (\<exists>x. r = Inr x \<and> f x = Inl e)"
  by (cases r) auto

text \<open>A loop whose body may raise: the first failure ends it.\<close>

fun traverse :: "('a \<Rightarrow> 'b result) \<Rightarrow> 'a list \<Rightarrow> 'b list result" where
  "traverse f [] = Inr []"
| "traverse f (x # xs) = bind_result (f x) (\<lambda>y. bind_result (traverse f xs) (\<lambda>ys. Inr (y # ys)))"

fun filter_result :: "('a \<Rightarrow> bool result) \<Rightarrow> 'a list \<Rightarrow> 'a list result" where
  "filter_result P [] = Inr []"
| "filter_result P (x # xs) = bind_result (P x) (\<lambda>b. bind_result (filter_result P xs) (\<lambda>ys.
     Inr (if b then x # ys else ys)))"

lemma traverse_Inr: "traverse f xs = Inr ys \<longleftrightarrow> list_all2 (\<lambda>x y. f x = Inr y) xs ys"
  by (induction xs arbitrary: ys) (auto simp: bind_result_Inr list_all2_Cons1)

lemma filter_result_Inr:
  "filter_result P xs = Inr ys \<Longrightarrow>
   (\<forall>x \<in> set xs. \<exists>b. P x = Inr b) \<and> ys = filter (\<lambda>x. P x = Inr True) xs"
  by (induction xs arbitrary: ys) (auto simp: bind_result_Inr)

section \<open>Tables\<close>

definition update_where :: "('r \<Rightarrow> bool) \<Rightarrow> ('r \<Rightarrow> 'r) \<Rightarrow> 'r list \<Rightarrow> 'r list" where
  "update_where P f t = map (\<lambda>r. if P r then f r else r) t"

definition delete_where :: "('r \<Rightarrow> bool) \<Rightarrow> 'r list \<Rightarrow> 'r list" where
  "delete_where P t = filter (\<lambda>r. \<not> P r) t"

definition first_row :: "('r \<Rightarrow> bool) \<Rightarrow> 'r list \<Rightarrow> 'r option" where
  "first_row P t = List.find P t"

definition exists_row :: "('r \<Rightarrow> bool) \<Rightarrow> 'r list \<Rightarrow> bool" where
  "exists_row P t = list_ex P t"

definition count_rows :: "('r \<Rightarrow> bool) \<Rightarrow> 'r list \<Rightarrow> nat" where
  "count_rows P t = length (filter P t)"

lemma update_where_simps [simp, table_simps]:
  "update_where P f [] = []"
  "update_where P f (r # t) = (if P r then f r else r) # update_where P f t"
  "update_where P f (t @ t') = update_where P f t @ update_where P f t'"
  by (simp_all add: update_where_def)

lemma length_update_where [simp, table_simps]: "length (update_where P f t) = length t"
  by (simp add: update_where_def)

lemma delete_where_simps [simp, table_simps]:
  "delete_where P [] = []"
  "delete_where P (r # t) = (if P r then delete_where P t else r # delete_where P t)"
  "delete_where P (t @ t') = delete_where P t @ delete_where P t'"
  by (simp_all add: delete_where_def)

lemma set_delete_where [simp, table_simps]: "set (delete_where P t) = {r \<in> set t. \<not> P r}"
  by (auto simp: delete_where_def)

lemma set_update_where:
  "set (update_where P f t) = (\<lambda>r. if P r then f r else r) ` set t"
  by (simp add: update_where_def)

lemma update_where_cong:
  "(\<And>r. r \<in> set t \<Longrightarrow> P r = Q r) \<Longrightarrow> (\<And>r. r \<in> set t \<Longrightarrow> P r \<Longrightarrow> f r = g r) \<Longrightarrow>
   update_where P f t = update_where Q g t"
  by (auto simp: update_where_def)

lemma update_where_none: "(\<And>r. r \<in> set t \<Longrightarrow> \<not> P r) \<Longrightarrow> update_where P f t = t"
  by (simp add: update_where_def map_idI)

lemma map_update_where_frame:
  "(\<And>r. g (f r) = g r) \<Longrightarrow> map g (update_where P f t) = map g t"
  by (simp add: update_where_def)

lemma filter_update_where_frame:
  assumes "\<And>r. r \<in> set t \<Longrightarrow> P r \<Longrightarrow> \<not> Q r" and "\<And>r. r \<in> set t \<Longrightarrow> P r \<Longrightarrow> \<not> Q (f r)"
  shows "filter Q (update_where P f t) = filter Q t"
  using assms by (induction t) auto

lemma first_row_Some:
  "first_row P t = Some r \<Longrightarrow> r \<in> set t \<and> P r"
  by (auto simp: first_row_def find_Some_iff)

lemma first_row_None: "first_row P t = None \<longleftrightarrow> (\<forall>r \<in> set t. \<not> P r)"
  by (auto simp: first_row_def find_None_iff)

lemma first_row_simps [simp, table_simps]:
  "first_row P [] = None"
  "first_row P (r # t) = (if P r then Some r else first_row P t)"
  by (simp_all add: first_row_def)

lemma exists_row_simps [simp, table_simps]:
  "exists_row P [] = False"
  "exists_row P (r # t) = (P r \<or> exists_row P t)"
  by (simp_all add: exists_row_def)

lemma exists_row_iff: "exists_row P t \<longleftrightarrow> (\<exists>r \<in> set t. P r)"
  by (simp add: exists_row_def list_ex_iff)

lemma count_rows_simps [simp, table_simps]:
  "count_rows P [] = 0"
  "count_rows P (r # t) = (if P r then Suc (count_rows P t) else count_rows P t)"
  "count_rows P (t @ t') = count_rows P t + count_rows P t'"
  by (simp_all add: count_rows_def)

lemma count_rows_zero: "count_rows P t = 0 \<longleftrightarrow> (\<forall>r \<in> set t. \<not> P r)"
  by (induction t) auto

lemma count_rows_delete_le: "count_rows P (delete_where Q t) \<le> count_rows P t"
  by (induction t) auto

lemma count_rows_mono: "(\<And>r. r \<in> set t \<Longrightarrow> P r \<Longrightarrow> Q r) \<Longrightarrow> count_rows P t \<le> count_rows Q t"
proof (induction t)
  case (Cons r t)
  have "count_rows P t \<le> count_rows Q t" using Cons.prems by (intro Cons.IH) simp
  then show ?case using Cons.prems [of r] by simp
qed simp

lemma count_rows_update_le:
  assumes "\<And>r. P r \<Longrightarrow> Q (f r) \<Longrightarrow> Q r"
  shows "count_rows Q (update_where P f t) \<le> count_rows Q t"
  using assms by (induction t) auto

lemma distinct_map_delete_where:
  "distinct (map k t) \<Longrightarrow> distinct (map k (delete_where P t))"
  by (simp add: delete_where_def distinct_map_filter)

lemma first_row_key:
  assumes "distinct (map k t)" and "r \<in> set t"
  shows "first_row (\<lambda>x. k x = k r) t = Some r"
  using assms by (induction t) force+

text \<open>The row of a key, and what the table operations do to it.\<close>

abbreviation row_at :: "('r \<Rightarrow> 'k) \<Rightarrow> 'k \<Rightarrow> 'r list \<Rightarrow> 'r option" where
  "row_at k a t \<equiv> first_row (\<lambda>r. k r = a) t"

lemma row_at_update_where:
  "(\<And>r. k (f r) = k r) \<Longrightarrow>
   row_at k a (update_where P f t) = map_option (\<lambda>r. if P r then f r else r) (row_at k a t)"
  by (induction t) auto

lemma row_at_update_key:
  assumes "\<And>r. k (f r) = k r"
  shows "row_at k a (update_where (\<lambda>r. k r = b \<and> P r) f t) =
    (if a = b then map_option (\<lambda>r. if P r then f r else r) (row_at k a t) else row_at k a t)"
    and "row_at k a (update_where (\<lambda>r. k r = b) f t) =
    (if a = b then map_option f (row_at k a t) else row_at k a t)"
  using assms by (induction t) auto

lemma row_at_append:
  "row_at k a (t @ [r]) = (case row_at k a t of None \<Rightarrow> if k r = a then Some r else None
                                             | Some x \<Rightarrow> Some x)"
  by (induction t) auto

lemma row_at_delete_where:
  "distinct (map k t) \<Longrightarrow>
   row_at k a (delete_where P t) = (case row_at k a t of None \<Rightarrow> None
                                   | Some r \<Rightarrow> if P r then None else Some r)"
  by (induction t) (auto simp: first_row_None image_iff split: option.splits dest!: first_row_Some)

lemma row_at_delete_key:
  assumes "distinct (map k t)"
  shows "row_at k a (delete_where (\<lambda>r. k r = b \<and> P r) t) =
    (if a = b then (case row_at k a t of None \<Rightarrow> None | Some r \<Rightarrow> if P r then None else Some r)
     else row_at k a t)"
    and "row_at k a (delete_where (\<lambda>r. k r = b) t) = (if a = b then None else row_at k a t)"
  using assms
  by (auto simp: row_at_delete_where dest!: first_row_Some split: option.split)

lemma exists_row_at:
  "distinct (map k t) \<Longrightarrow>
   exists_row (\<lambda>r. k r = a \<and> P r) t \<longleftrightarrow> (\<exists>r. row_at k a t = Some r \<and> P r)"
  by (induction t) (auto simp: exists_row_iff image_iff)

lemma exists_row_at_key: "exists_row (\<lambda>r. k r = a) t \<longleftrightarrow> row_at k a t \<noteq> None"
  by (induction t) auto

lemma row_at_mem: "distinct (map k t) \<Longrightarrow> row_at k a t = Some r \<longleftrightarrow> r \<in> set t \<and> k r = a"
  by (induction t) (auto simp: image_iff)

lemma count_rows_card:
  assumes "distinct (map k t)"
  shows "count_rows P t = card {a. \<exists>r. row_at k a t = Some r \<and> P r}"
proof -
  have "{a. \<exists>r. row_at k a t = Some r \<and> P r} = set (map k (filter P t))"
    using assms by (auto simp: row_at_mem)
  moreover have "card (set (map k (filter P t))) = length (filter P t)"
    using distinct_map_filter [OF assms] by (metis distinct_card length_map)
  ultimately show ?thesis by (simp add: count_rows_def)
qed

text \<open>A keyed update touches one row only.\<close>

lemma count_rows_update_key_le:
  assumes "distinct (map k t)"
  shows "count_rows Q (update_where (\<lambda>r. k r = a) f t) \<le> Suc (count_rows Q t)"
  using assms
proof (induction t)
  case (Cons r t)
  show ?case
  proof (cases "k r = a")
    case True
    then have "update_where (\<lambda>r. k r = a) f t = t"
      using Cons.prems by (intro update_where_none) (auto simp: image_iff)
    then show ?thesis using True by simp
  next
    case False
    then show ?thesis using Cons by simp
  qed
qed simp

section \<open>Python dictionaries as association lists\<close>

text \<open>
  \<open>AList.update\<close> replaces the value of a key in place and appends a new key at the end,
  which is the insertion order of a Python dictionary; \<open>AList.delete\<close> is \<open>pop\<close>.
\<close>

lemma map_of_alist_update [simp]: "map_of (AList.update k v d) = (map_of d)(k \<mapsto> v)"
  by (rule update_conv')

lemma keys_alist_update: "fst ` set (AList.update k v d) = insert k (fst ` set d)"
  by (induction d) auto

section \<open>Searching for a free name\<close>

text \<open>Of infinitely many names a finite table leaves one free, and there is a first one.\<close>

lemma first_free:
  assumes "inj p" and "finite (dom m)"
  obtains k where "m (p k) = None" and "\<forall>j < (k :: nat). m (p j) \<noteq> None"
proof -
  have "infinite (range p)" using assms(1) finite_imageD infinite_UNIV_nat by blast
  then have "\<not> range p \<subseteq> dom m" using assms(2) finite_subset by blast
  then have ex: "\<exists>k. m (p k) = None" by auto
  have "m (p (LEAST k. m (p k) = None)) = None" using ex by (rule LeastI_ex)
  then show thesis using that not_less_Least by blast
qed

section \<open>Arithmetic shared by the paging and scheduling code\<close>

lemma ceil_div_bounds:
  fixes n s :: int
  assumes "0 < s"
  shows "n \<le> ((n + s - 1) div s) * s" and "((n + s - 1) div s) * s < n + s"
proof -
  have eq: "(n + s - 1) div s * s + (n + s - 1) mod s = n + s - 1" by simp
  have lo: "0 \<le> (n + s - 1) mod s" using assms by simp
  have hi: "(n + s - 1) mod s < s" using assms by (rule pos_mod_bound)
  show "n \<le> ((n + s - 1) div s) * s" using eq hi by linarith
  show "((n + s - 1) div s) * s < n + s" using eq lo by linarith
qed

end
