(* ===== verification/PyText.thy ===== *)
theory PyText
  imports Prelude "HOL-Library.Sublist"
begin

text \<open>
  The string operations of the language that the code uses. A Python string is a list of
  characters, a character standing for the code point below 256 that \<open>of_char\<close> gives, so
  blanks, case and digits are those of Latin-1: the superscript digits count as digits for
  \<open>isdigit\<close> and are refused by \<open>int()\<close>, as in Python.
\<close>

section \<open>Characters\<close>

abbreviation ord :: "char \<Rightarrow> nat" where
  "ord c \<equiv> of_char c"

definition is_space :: "char \<Rightarrow> bool" where
  "is_space c \<longleftrightarrow> (let n = ord c in (9 \<le> n \<and> n \<le> 13) \<or> (28 \<le> n \<and> n \<le> 32) \<or> n = 133 \<or> n = 160)"

definition is_decimal :: "char \<Rightarrow> bool" where
  "is_decimal c \<longleftrightarrow> 48 \<le> ord c \<and> ord c \<le> 57"

definition is_digit :: "char \<Rightarrow> bool" where
  "is_digit c \<longleftrightarrow> is_decimal c \<or> ord c = 178 \<or> ord c = 179 \<or> ord c = 185"

definition lower_char :: "char \<Rightarrow> char" where
  "lower_char c = (let n = ord c in
     if (65 \<le> n \<and> n \<le> 90) \<or> (192 \<le> n \<and> n \<le> 222 \<and> n \<noteq> 215) then char_of (n + 32) else c)"

definition upper_char :: "char \<Rightarrow> string" where
  "upper_char c = (let n = ord c in
     if (97 \<le> n \<and> n \<le> 122) \<or> (224 \<le> n \<and> n \<le> 254 \<and> n \<noteq> 247) then [char_of (n - 32)]
     else if n = 223 then ''SS'' else [c])"

section \<open>Strings\<close>

definition py_lstrip :: "string \<Rightarrow> string" where
  "py_lstrip s = dropWhile is_space s"

definition rstrip_chars :: "(char \<Rightarrow> bool) \<Rightarrow> string \<Rightarrow> string" where
  "rstrip_chars P s = rev (dropWhile P (rev s))"

definition strip_chars :: "(char \<Rightarrow> bool) \<Rightarrow> string \<Rightarrow> string" where
  "strip_chars P s = rstrip_chars P (dropWhile P s)"

definition py_strip :: "string \<Rightarrow> string" where
  "py_strip s = strip_chars is_space s"

definition py_lower :: "string \<Rightarrow> string" where
  "py_lower s = map lower_char s"

definition py_upper :: "string \<Rightarrow> string" where
  "py_upper s = concat (map upper_char s)"

definition py_isdigit :: "string \<Rightarrow> bool" where
  "py_isdigit s \<longleftrightarrow> s \<noteq> [] \<and> list_all is_digit s"

text \<open>\<open>needle in hay\<close>, \<open>startswith\<close> and \<open>endswith\<close>.\<close>

fun contains_sub :: "string \<Rightarrow> string \<Rightarrow> bool" where
  "contains_sub needle [] = (needle = [])"
| "contains_sub needle (c # cs) = (prefix needle (c # cs) \<or> contains_sub needle cs)"

definition icontains :: "string \<Rightarrow> string \<Rightarrow> bool" where
  "icontains needle hay = contains_sub (py_lower needle) (py_lower hay)"

text \<open>\<open>s.partition(c)\<close> for a separator of one character.\<close>

definition py_partition :: "char \<Rightarrow> string \<Rightarrow> string \<times> string \<times> string" where
  "py_partition c s = (let a = takeWhile (\<lambda>x. x \<noteq> c) s; b = dropWhile (\<lambda>x. x \<noteq> c) s
     in (a, take 1 b, drop 1 b))"

definition remove_prefix :: "string \<Rightarrow> string \<Rightarrow> string" where
  "remove_prefix p s = (if prefix p s then drop (length p) s else s)"

fun join_with :: "string \<Rightarrow> string list \<Rightarrow> string" where
  "join_with sep [] = []"
| "join_with sep [x] = x"
| "join_with sep (x # y # xs) = x @ sep @ join_with sep (y # xs)"

text \<open>\<open>re.sub(r"\.{2,}", ".", s)\<close>: a run of dots becomes one dot.\<close>

fun squeeze_dots :: "string \<Rightarrow> string" where
  "squeeze_dots [] = []"
| "squeeze_dots [c] = [c]"
| "squeeze_dots (c # d # cs) =
     (if c = CHR ''.'' \<and> d = CHR ''.'' then squeeze_dots (d # cs) else c # squeeze_dots (d # cs))"

section \<open>Integers in text\<close>

fun str_of_nat :: "nat \<Rightarrow> string" where
  "str_of_nat n = (if n < 10 then [char_of (48 + n)] else str_of_nat (n div 10) @ [char_of (48 + n mod 10)])"

declare str_of_nat.simps [simp del]

definition str_of_int :: "int \<Rightarrow> string" where
  "str_of_int i = (if i < 0 then CHR ''-'' # str_of_nat (nat (- i)) else str_of_nat (nat i))"

text \<open>
  \<open>int(s)\<close>: blanks around, a sign, and decimal digits with single underscores between
  them; anything else is a \<open>ValueError\<close>, here \<open>None\<close>.
\<close>

fun scan_digits :: "int \<Rightarrow> bool \<Rightarrow> string \<Rightarrow> int option" where
  "scan_digits acc prev [] = (if prev then Some acc else None)"
| "scan_digits acc prev (c # cs) =
     (if is_decimal c then scan_digits (acc * 10 + int (ord c - 48)) True cs
      else if c = CHR ''_'' \<and> prev then scan_digits acc False cs
      else None)"

definition py_int :: "string \<Rightarrow> int option" where
  "py_int s = (let t = py_strip s in
     case t of
       [] \<Rightarrow> None
     | c # cs \<Rightarrow> (if c = CHR ''-'' then map_option uminus (scan_digits 0 False cs)
                else if c = CHR ''+'' then scan_digits 0 False cs
                else scan_digits 0 False t))"

section \<open>Facts about case and blanks\<close>

lemma ord_less [simp]: "ord c < (256 :: nat)"
  by (rule nat_of_char_less_256)

lemma lower_char_idem [simp]: "lower_char (lower_char c) = lower_char c"
  by (auto simp: lower_char_def Let_def)

lemma is_space_lower [simp]: "is_space (lower_char c) = is_space c"
proof (cases "(65 \<le> ord c \<and> ord c \<le> 90) \<or> (192 \<le> ord c \<and> ord c \<le> 222 \<and> ord c \<noteq> 215)")
  case True
  then show ?thesis by (auto simp: lower_char_def is_space_def Let_def)
qed (auto simp: lower_char_def Let_def)

lemma py_lower_idem [simp]: "py_lower (py_lower s) = py_lower s"
  by (simp add: py_lower_def)

lemma py_lower_simps [simp]:
  "py_lower [] = []"
  "py_lower (s @ t) = py_lower s @ py_lower t"
  by (simp_all add: py_lower_def)

lemma dropWhile_map_lower: "dropWhile is_space (map lower_char s) = map lower_char (dropWhile is_space s)"
  by (induction s) auto

lemma py_strip_lower: "py_strip (py_lower s) = py_lower (py_strip s)"
  by (simp add: py_strip_def strip_chars_def rstrip_chars_def py_lower_def dropWhile_map_lower
      rev_map)

lemma hd_dropWhile_not: "dropWhile P s \<noteq> [] \<Longrightarrow> \<not> P (hd (dropWhile P s))"
  by (rule hd_dropWhile)

lemma rstrip_chars_prefix: "prefix (rstrip_chars P s) s"
proof -
  have "rev s = takeWhile P (rev s) @ dropWhile P (rev s)" by simp
  then have "s = rev (dropWhile P (rev s)) @ rev (takeWhile P (rev s))"
    by (metis rev_append rev_rev_ident)
  then show ?thesis unfolding rstrip_chars_def by (metis prefixI)
qed

lemma rstrip_chars_last: "rstrip_chars P s \<noteq> [] \<Longrightarrow> \<not> P (last (rstrip_chars P s))"
  unfolding rstrip_chars_def by (metis hd_dropWhile hd_rev rev_is_Nil_conv rev_rev_ident)

lemma rstrip_chars_id: "s = [] \<or> \<not> P (last s) \<Longrightarrow> rstrip_chars P s = s"
  unfolding rstrip_chars_def
  by (metis dropWhile_eq_self_iff hd_rev rev_is_Nil_conv rev_rev_ident)

text \<open>Stripping leaves no strippable character at either end, and is idempotent.\<close>

lemma strip_chars_hd:
  assumes "strip_chars P s \<noteq> []"
  shows "\<not> P (hd (strip_chars P s))"
proof -
  let ?d = "dropWhile P s"
  have p: "prefix (strip_chars P s) ?d"
    unfolding strip_chars_def by (rule rstrip_chars_prefix)
  then have ne: "?d \<noteq> []" using assms by (metis prefix_bot.extremum_uniqueI)
  have "hd (strip_chars P s) = hd ?d"
    using p assms by (metis hd_append2 prefix_def)
  then show ?thesis using hd_dropWhile [OF ne] by simp
qed

lemma strip_chars_last: "strip_chars P s \<noteq> [] \<Longrightarrow> \<not> P (last (strip_chars P s))"
  unfolding strip_chars_def by (rule rstrip_chars_last)

lemma strip_chars_id:
  "s = [] \<or> (\<not> P (hd s) \<and> \<not> P (last s)) \<Longrightarrow> strip_chars P s = s"
  unfolding strip_chars_def by (metis dropWhile_eq_self_iff rstrip_chars_id)

lemma strip_chars_idem [simp]: "strip_chars P (strip_chars P s) = strip_chars P s"
  by (rule strip_chars_id) (use strip_chars_hd strip_chars_last in blast)

lemma py_strip_idem [simp]: "py_strip (py_strip s) = py_strip s"
  by (simp add: py_strip_def)

section \<open>Facts about numbers in text\<close>

lemma digit_char_ord: "n < 10 \<Longrightarrow> ord (char_of (48 + n :: nat)) = 48 + n"
  by simp

lemma str_of_nat_nonempty [simp]: "str_of_nat n \<noteq> []"
  by (subst str_of_nat.simps) simp

lemma str_of_nat_decimal: "c \<in> set (str_of_nat n) \<Longrightarrow> is_decimal c"
proof (induction n rule: str_of_nat.induct)
  case (1 n)
  show ?case
  proof (cases "n < 10")
    case True
    with "1.prems" show ?thesis by (simp add: str_of_nat.simps [of n] is_decimal_def)
  next
    case False
    with "1" show ?thesis by (auto simp: str_of_nat.simps [of n] is_decimal_def)
  qed
qed

lemma decimal_not_special:
  "is_decimal c \<Longrightarrow> \<not> is_space c \<and> c \<noteq> CHR ''-'' \<and> c \<noteq> CHR ''+'' \<and> c \<noteq> CHR ''_''"
  by (auto simp: is_decimal_def is_space_def Let_def)

lemma scan_digits_append:
  "list_all is_decimal s \<Longrightarrow> s \<noteq> [] \<Longrightarrow>
   scan_digits acc p (s @ t) = scan_digits (foldl (\<lambda>a c. a * 10 + int (ord c - 48)) acc s) True t"
proof (induction s arbitrary: acc p)
  case (Cons c s)
  then show ?case by (cases "s = []") auto
qed simp

lemma foldl_str_of_nat:
  "foldl (\<lambda>a c. a * 10 + int (ord c - 48)) 0 (str_of_nat n) = int n"
proof (induction n rule: str_of_nat.induct)
  case (1 n)
  show ?case
  proof (cases "n < 10")
    case True
    then show ?thesis by (simp add: str_of_nat.simps [of n])
  next
    case False
    with "1" show ?thesis by (simp add: str_of_nat.simps [of n] zmod_int zdiv_int)
  qed
qed

lemma scan_str_of_nat: "scan_digits 0 False (str_of_nat n) = Some (int n)"
proof -
  have "list_all is_decimal (str_of_nat n)"
    by (simp add: list_all_iff str_of_nat_decimal)
  from scan_digits_append [OF this, of 0 False "[]"] show ?thesis
    by (simp add: foldl_str_of_nat)
qed

lemma py_strip_str_of_nat: "py_strip (str_of_nat n) = str_of_nat n"
  unfolding py_strip_def
  by (rule strip_chars_id)
    (use str_of_nat_decimal [of _ n] decimal_not_special in
      \<open>metis hd_in_set last_in_set str_of_nat_nonempty\<close>)

lemma py_strip_neg: "py_strip (CHR ''-'' # str_of_nat n) = CHR ''-'' # str_of_nat n"
proof -
  have "\<not> is_space (last (str_of_nat n))"
    using str_of_nat_decimal [of "last (str_of_nat n)" n] decimal_not_special
    by (meson last_in_set str_of_nat_nonempty)
  then show ?thesis
    unfolding py_strip_def by (intro strip_chars_id) (simp add: is_space_def)
qed

lemma py_int_str_of_int: "py_int (str_of_int i) = Some i"
proof (cases "i < 0")
  case True
  then show ?thesis
    by (simp add: str_of_int_def py_int_def py_strip_neg scan_str_of_nat)
next
  case False
  obtain c cs where s: "str_of_nat (nat i) = c # cs"
    by (cases "str_of_nat (nat i)") auto
  have "is_decimal c" using str_of_nat_decimal [of c "nat i"] s by simp
  then have "c \<noteq> CHR ''-''" "c \<noteq> CHR ''+''" using decimal_not_special by blast+
  then have "py_int (str_of_int i) = scan_digits 0 False (str_of_nat (nat i))"
    using False unfolding str_of_int_def py_int_def
    by (simp only: if_False py_strip_str_of_nat Let_def) (simp only: s list.case if_False)
  then show ?thesis using False by (simp add: scan_str_of_nat)
qed

text \<open>
  A text of ASCII digits is a number for \<open>int()\<close>; a text that \<open>isdigit\<close> accepts need
  not be one, because of the superscripts.
\<close>

lemma scan_digits_decimal:
  "list_all is_decimal s \<Longrightarrow> s \<noteq> [] \<or> p \<Longrightarrow> 0 \<le> acc \<Longrightarrow>
   \<exists>n. scan_digits acc p s = Some n \<and> 0 \<le> n"
proof (induction s arbitrary: acc p)
  case (Cons c s)
  have "\<exists>n. scan_digits (acc * 10 + int (ord c - 48)) True s = Some n \<and> 0 \<le> n"
    using Cons.prems by (intro Cons.IH) auto
  then show ?case using Cons.prems by simp
qed simp

lemma py_int_decimal:
  assumes "list_all is_decimal s" and "s \<noteq> []"
  shows "\<exists>n. py_int s = Some n \<and> 0 \<le> n"
proof -
  have ns: "\<And>c. c \<in> set s \<Longrightarrow> \<not> is_space c \<and> c \<noteq> CHR ''-'' \<and> c \<noteq> CHR ''+''"
    using assms(1) decimal_not_special by (auto simp: list_all_iff)
  have st: "py_strip s = s"
    unfolding py_strip_def using ns assms(2) by (intro strip_chars_id) simp
  obtain c cs where s: "s = c # cs" using assms(2) by (cases s) auto
  have "py_int s = scan_digits 0 False s"
    using ns [of c] by (simp add: py_int_def st) (simp add: s)
  then show ?thesis using scan_digits_decimal [of s False 0] assms by simp
qed

end
