(* ===== verification/PyValue.thy ===== *)
theory PyValue
  imports PyText Complex_Main
begin

text \<open>
  Python values as the JSON columns and message bodies hold them, their truth value, their
  text, and floating-point numbers. A float is either finite, then an exact rational (the
  rounding of the hardware is not modelled), or one of the infinities, or not a number; the
  comparisons are Python's, so every comparison with \<open>NaN\<close> is false. Inside a JSON value a
  float is held by its \<open>repr\<close>, which identifies it and is what \<open>str()\<close> prints.
\<close>

section \<open>Floats\<close>

datatype pyfloat = Fin rat | PosInf | NegInf | NaN

fun pf_lt :: "pyfloat \<Rightarrow> pyfloat \<Rightarrow> bool" where
  "pf_lt (Fin a) (Fin b) = (a < b)"
| "pf_lt (Fin _) PosInf = True"
| "pf_lt NegInf (Fin _) = True"
| "pf_lt NegInf PosInf = True"
| "pf_lt _ _ = False"

text \<open>\<open>max(a, b)\<close> keeps its first argument unless the second is greater.\<close>

definition pf_max :: "pyfloat \<Rightarrow> pyfloat \<Rightarrow> pyfloat" where
  "pf_max a b = (if pf_lt a b then b else a)"

fun pf_neg :: "pyfloat \<Rightarrow> pyfloat" where
  "pf_neg (Fin a) = Fin (- a)"
| "pf_neg PosInf = NegInf"
| "pf_neg NegInf = PosInf"
| "pf_neg NaN = NaN"

fun pf_add :: "pyfloat \<Rightarrow> pyfloat \<Rightarrow> pyfloat" where
  "pf_add NaN _ = NaN"
| "pf_add _ NaN = NaN"
| "pf_add (Fin a) (Fin b) = Fin (a + b)"
| "pf_add (Fin _) y = y"
| "pf_add x (Fin _) = x"
| "pf_add PosInf PosInf = PosInf"
| "pf_add NegInf NegInf = NegInf"
| "pf_add _ _ = NaN"

definition pf_sub :: "pyfloat \<Rightarrow> pyfloat \<Rightarrow> pyfloat" where
  "pf_sub a b = pf_add a (pf_neg b)"

definition pf_zero :: pyfloat where
  "pf_zero = Fin 0"

text \<open>\<open>math.isfinite\<close>.\<close>

definition pf_isfinite :: "pyfloat \<Rightarrow> bool" where
  "pf_isfinite x = (case x of Fin _ \<Rightarrow> True | _ \<Rightarrow> False)"

subsection \<open>Reading a float\<close>

definition is_digit_or_us :: "char \<Rightarrow> bool" where
  "is_digit_or_us c \<longleftrightarrow> is_decimal c \<or> c = CHR ''_''"

definition pow10 :: "int \<Rightarrow> rat" where
  "pow10 e = (if 0 \<le> e then 10 ^ nat e else 1 / 10 ^ nat (- e))"

text \<open>
  \<open>float(s)\<close>: blanks around, a sign, then \<open>inf\<close>, \<open>infinity\<close>, \<open>nan\<close> in any case, or
  digits with an optional fraction and exponent; anything else is a \<open>ValueError\<close>.
\<close>

definition scan_exponent :: "string \<Rightarrow> int option" where
  "scan_exponent s = (case s of
      [] \<Rightarrow> Some 0
    | c # cs \<Rightarrow>
        (if c = CHR ''e'' \<or> c = CHR ''E'' then
           (case cs of
              [] \<Rightarrow> None
            | d # ds \<Rightarrow> (if d = CHR ''-'' then map_option uminus (scan_digits 0 False ds)
                       else if d = CHR ''+'' then scan_digits 0 False ds
                       else scan_digits 0 False cs))
         else None))"

definition scan_number :: "string \<Rightarrow> rat option" where
  "scan_number s =
     (let ip = takeWhile is_digit_or_us s; r = dropWhile is_digit_or_us s;
          dot = (r \<noteq> [] \<and> hd r = CHR ''.'');
          fp = (if dot then takeWhile is_digit_or_us (tl r) else []);
          r' = (if dot then dropWhile is_digit_or_us (tl r) else r)
      in if ip = [] \<and> fp = [] then None
         else (case ((if ip = [] then Some 0 else scan_digits 0 False ip),
                     (if fp = [] then Some 0 else scan_digits 0 False fp), scan_exponent r') of
             (Some i, Some f, Some e) \<Rightarrow>
                Some ((of_int i + of_int f / 10 ^ length (filter is_decimal fp)) * pow10 e)
           | _ \<Rightarrow> None))"

definition unsigned_float :: "string \<Rightarrow> pyfloat option" where
  "unsigned_float s =
     (let l = py_lower s in
      if l = ''inf'' \<or> l = ''infinity'' then Some PosInf
      else if l = ''nan'' then Some NaN
      else map_option Fin (scan_number s))"

definition py_float :: "string \<Rightarrow> pyfloat option" where
  "py_float s = (let t = py_strip s in
     case t of
       [] \<Rightarrow> None
     | c # cs \<Rightarrow> (if c = CHR ''-'' then map_option pf_neg (unsigned_float cs)
                else if c = CHR ''+'' then unsigned_float cs
                else unsigned_float t))"

section \<open>JSON values\<close>

datatype pyval =
    PNone
  | PBool bool
  | PInt int
  | PFloat string
  | PStr string
  | PList "pyval list"
  | PDict "(string \<times> pyval) list"

type_synonym pydict = "(string \<times> pyval) list"

fun truthy :: "pyval \<Rightarrow> bool" where
  "truthy PNone = False"
| "truthy (PBool b) = b"
| "truthy (PInt n) = (n \<noteq> 0)"
| "truthy (PFloat s) = (py_float s \<noteq> Some (Fin 0))"
| "truthy (PStr s) = (s \<noteq> [])"
| "truthy (PList xs) = (xs \<noteq> [])"
| "truthy (PDict d) = (d \<noteq> [])"

text \<open>\<open>a or b\<close>.\<close>

definition py_or :: "pyval \<Rightarrow> pyval \<Rightarrow> pyval" where
  "py_or a b = (if truthy a then a else b)"

definition hex_digit :: "nat \<Rightarrow> char" where
  "hex_digit n = (if n < 10 then char_of (48 + n) else char_of (87 + n))"

definition repr_char :: "char \<Rightarrow> char \<Rightarrow> string" where
  "repr_char q c = (let n = ord c in
     if c = q \<or> n = 92 then [char_of (92 :: nat), c]
     else if n = 9 then [char_of (92 :: nat), CHR ''t'']
     else if n = 10 then [char_of (92 :: nat), CHR ''n'']
     else if n = 13 then [char_of (92 :: nat), CHR ''r'']
     else if n < 32 \<or> (127 \<le> n \<and> n \<le> 160) \<or> n = 173
          then [char_of (92 :: nat), CHR ''x'', hex_digit (n div 16), hex_digit (n mod 16)]
     else [c])"

definition repr_str :: "string \<Rightarrow> string" where
  "repr_str s = (let sq = char_of (39 :: nat); dq = char_of (34 :: nat);
                     q = (if sq \<in> set s \<and> dq \<notin> set s then dq else sq)
                 in q # concat (map (repr_char q) s) @ [q])"

fun py_repr :: "pyval \<Rightarrow> string" where
  "py_repr PNone = ''None''"
| "py_repr (PBool b) = (if b then ''True'' else ''False'')"
| "py_repr (PInt n) = str_of_int n"
| "py_repr (PFloat s) = s"
| "py_repr (PStr s) = repr_str s"
| "py_repr (PList xs) = ''['' @ join_with '', '' (map py_repr xs) @ '']''"
| "py_repr (PDict d) =
     ''{'' @ join_with '', '' (map (\<lambda>kv. repr_str (fst kv) @ '': '' @ py_repr (snd kv)) d) @ ''}''"

fun py_str :: "pyval \<Rightarrow> string" where
  "py_str (PStr s) = s"
| "py_str v = py_repr v"

text \<open>\<open>str(exc)\<close>: a \<open>KeyError\<close> shows the representation of its key.\<close>

fun error_text :: "error \<Rightarrow> string" where
  "error_text (ValueError s) = s"
| "error_text (TypeError s) = s"
| "error_text (KeyError s) = repr_str s"
| "error_text (Http404 s) = s"
| "error_text (FileNotFound s) = s"
| "error_text (OSError s) = s"
| "error_text (RuntimeError s) = s"
| "error_text (DatabaseError s) = s"
| "error_text (MultipleRows s) = s"
| "error_text (HandlerError s) = s"
| "error_text (IndexError s) = s"
| "error_text (NoReverseMatch s) = s"
| "error_text (PlaybackError s) = s"
| "error_text (SystemExit s) = s"
| "error_text (OverflowError s) = s"
| "error_text (AttributeError s) = s"

text \<open>\<open>str(value or "")\<close>, the code's usual way of reading an optional text.\<close>

definition str_or_empty :: "pyval \<Rightarrow> string" where
  "str_or_empty v = (if truthy v then py_str v else [])"

text \<open>\<open>payload if isinstance(payload, dict) else {}\<close> and \<open>payload.get(key)\<close>.\<close>

fun as_dict :: "pyval \<Rightarrow> pydict" where
  "as_dict (PDict d) = d"
| "as_dict _ = []"

fun is_dict :: "pyval \<Rightarrow> bool" where
  "is_dict (PDict _) = True"
| "is_dict _ = False"

definition dget :: "pydict \<Rightarrow> string \<Rightarrow> pyval" where
  "dget d k = (case map_of d k of None \<Rightarrow> PNone | Some v \<Rightarrow> v)"

definition dget_default :: "pydict \<Rightarrow> string \<Rightarrow> pyval \<Rightarrow> pyval" where
  "dget_default d k v0 = (case map_of d k of None \<Rightarrow> v0 | Some v \<Rightarrow> v)"

definition dset_default :: "pydict \<Rightarrow> string \<Rightarrow> pyval \<Rightarrow> pydict" where
  "dset_default d k v = (case map_of d k of None \<Rightarrow> d @ [(k, v)] | Some _ \<Rightarrow> d)"

text \<open>\<open>int(v)\<close> on a JSON value: \<open>None\<close> for a \<open>TypeError\<close> or a \<open>ValueError\<close>.\<close>

definition rat_trunc :: "rat \<Rightarrow> int" where
  "rat_trunc q = (if 0 \<le> q then \<lfloor>q\<rfloor> else \<lceil>q\<rceil>)"

fun py_int_val :: "pyval \<Rightarrow> int option" where
  "py_int_val (PInt n) = Some n"
| "py_int_val (PBool b) = Some (if b then 1 else 0)"
| "py_int_val (PStr s) = py_int s"
| "py_int_val (PFloat s) = (case py_float s of Some (Fin q) \<Rightarrow> Some (rat_trunc q) | _ \<Rightarrow> None)"
| "py_int_val _ = None"

text \<open>The exception of an \<open>int()\<close> call that fails.\<close>

fun int_error :: "pyval \<Rightarrow> error" where
  "int_error (PStr s) = ValueError s"
| "int_error (PFloat s) = ValueError s"
| "int_error v = TypeError (py_str v)"

section \<open>Facts\<close>

lemma py_or_simps [simp]:
  "truthy a \<Longrightarrow> py_or a b = a"
  "\<not> truthy a \<Longrightarrow> py_or a b = b"
  by (simp_all add: py_or_def)

lemma str_or_empty_simps [simp]:
  "str_or_empty PNone = []"
  "str_or_empty (PStr s) = s"
  by (auto simp: str_or_empty_def)

lemma as_dict_not_dict [simp]: "\<not> is_dict v \<Longrightarrow> as_dict v = []"
  by (cases v) auto

lemma dget_simps [simp]:
  "dget [] k = PNone"
  "dget ((k', v) # d) k = (if k = k' then v else dget d k)"
  by (simp_all add: dget_def)

lemma dget_update: "dget (AList.update k v d) k' = (if k = k' then v else dget d k')"
  by (simp add: dget_def)

lemma pf_lt_NaN [simp]: "pf_lt x NaN = False"
  by (cases x) auto

lemma pf_max_zero_not_less: "\<not> pf_lt (pf_max pf_zero x) pf_zero"
  by (cases x) (auto simp: pf_max_def pf_zero_def)

lemma pf_max_zero_NaN: "pf_max pf_zero NaN = pf_zero"
  by (simp add: pf_max_def)

end
