(* ===== verification/Domain.thy ===== *)
theory Domain
  imports PyValue
begin

text \<open>
  \<open>src/src/models/domain.py\<close>: the string enumerations shared by the application and the
  workers, and \<open>parse_str_enum\<close>, which reads an enumeration from any value by its
  lower-cased, stripped text. Each enumeration is a datatype with its value function and its
  member list; the laws of parsing are proved once, in the locale \<open>str_enum\<close>, and
  interpreted for every enumeration.
\<close>

section \<open>The enumerations\<close>

datatype source_type = YOUTUBE | PODCAST

primrec source_type_value :: "source_type \<Rightarrow> string" where
  "source_type_value YOUTUBE = ''youtube''"
| "source_type_value PODCAST = ''podcast''"

datatype media_type = AUDIO | VIDEO

primrec media_type_value :: "media_type \<Rightarrow> string" where
  "media_type_value AUDIO = ''audio''"
| "media_type_value VIDEO = ''video''"

datatype download_status = DOWNLOADED | FILTERED | MISSING | RETENTION_DELETED

primrec download_status_value :: "download_status \<Rightarrow> string" where
  "download_status_value DOWNLOADED = ''downloaded''"
| "download_status_value FILTERED = ''filtered''"
| "download_status_value MISSING = ''missing''"
| "download_status_value RETENTION_DELETED = ''retention_deleted''"

datatype job_status = QUEUED | RUNNING | SUCCEEDED | FAILED

primrec job_status_value :: "job_status \<Rightarrow> string" where
  "job_status_value QUEUED = ''queued''"
| "job_status_value RUNNING = ''running''"
| "job_status_value SUCCEEDED = ''succeeded''"
| "job_status_value FAILED = ''failed''"

datatype job_type =
    CHECK_FOR_EPISODES
  | UPDATE_DOWNLOADS
  | DOWNLOAD_EPISODE
  | DOWNLOAD_SINGLE
  | TRANSCODE_MEDIA
  | GENERATE_TRANSCRIPT
  | GENERATE_OCR
  | RETENTION_CLEANUP

primrec job_type_value :: "job_type \<Rightarrow> string" where
  "job_type_value CHECK_FOR_EPISODES = ''check_for_episodes''"
| "job_type_value UPDATE_DOWNLOADS = ''update_downloads''"
| "job_type_value DOWNLOAD_EPISODE = ''download_episode''"
| "job_type_value DOWNLOAD_SINGLE = ''download_single''"
| "job_type_value TRANSCODE_MEDIA = ''transcode_media''"
| "job_type_value GENERATE_TRANSCRIPT = ''generate_transcript''"
| "job_type_value GENERATE_OCR = ''generate_ocr''"
| "job_type_value RETENTION_CLEANUP = ''retention_cleanup''"

datatype queue =
    SERIAL_EPISODE_CHECK_QUEUE
  | YOUTUBE_DOWNLOAD_QUEUE
  | PODCAST_DOWNLOAD_QUEUE
  | TRANSCRIPT_QUEUE
  | FFMPEG_QUEUE
  | CLEANUP_QUEUE

primrec queue_value :: "queue \<Rightarrow> string" where
  "queue_value SERIAL_EPISODE_CHECK_QUEUE = ''getoffline.jobs.updates''"
| "queue_value YOUTUBE_DOWNLOAD_QUEUE = ''getoffline.jobs.downloads.youtube''"
| "queue_value PODCAST_DOWNLOAD_QUEUE = ''getoffline.jobs.downloads.podcast''"
| "queue_value TRANSCRIPT_QUEUE = ''getoffline.jobs.transcripts''"
| "queue_value FFMPEG_QUEUE = ''getoffline.jobs.ffmpeg''"
| "queue_value CLEANUP_QUEUE = ''getoffline.jobs.cleanup''"

datatype slot_status = SLOT_WAITING | SLOT_RUNNING

primrec slot_status_value :: "slot_status \<Rightarrow> string" where
  "slot_status_value SLOT_WAITING = ''waiting''"
| "slot_status_value SLOT_RUNNING = ''running''"

datatype heavy_kind = KIND_FFMPEG | KIND_TRANSCRIPT

primrec heavy_kind_value :: "heavy_kind \<Rightarrow> string" where
  "heavy_kind_value KIND_FFMPEG = ''ffmpeg''"
| "heavy_kind_value KIND_TRANSCRIPT = ''transcript''"

section \<open>Parsing\<close>

text \<open>\<open>str(value or "").strip().lower()\<close>\<close>

definition enum_text :: "pyval \<Rightarrow> string" where
  "enum_text v = py_lower (py_strip (str_or_empty v))"

definition parse_str_enum :: "('e \<Rightarrow> string) \<Rightarrow> 'e list \<Rightarrow> pyval \<Rightarrow> 'e option" where
  "parse_str_enum val members v = List.find (\<lambda>e. val e = enum_text v) members"

definition parse_source_type :: "pyval \<Rightarrow> source_type option" where
  "parse_source_type = parse_str_enum source_type_value [YOUTUBE, PODCAST]"

definition parse_media_type :: "pyval \<Rightarrow> media_type option" where
  "parse_media_type = parse_str_enum media_type_value [AUDIO, VIDEO]"

definition parse_job_type :: "pyval \<Rightarrow> job_type option" where
  "parse_job_type = parse_str_enum job_type_value
     [CHECK_FOR_EPISODES, UPDATE_DOWNLOADS, DOWNLOAD_EPISODE, DOWNLOAD_SINGLE,
      TRANSCODE_MEDIA, GENERATE_TRANSCRIPT, GENERATE_OCR, RETENTION_CLEANUP]"

definition parse_job_status :: "pyval \<Rightarrow> job_status option" where
  "parse_job_status = parse_str_enum job_status_value [QUEUED, RUNNING, SUCCEEDED, FAILED]"

definition parse_heavy_kind :: "pyval \<Rightarrow> heavy_kind option" where
  "parse_heavy_kind = parse_str_enum heavy_kind_value [KIND_FFMPEG, KIND_TRANSCRIPT]"

section \<open>The laws of a string enumeration\<close>

text \<open>
  What a string enumeration promises: its values are distinct, and none of them changes when
  it is stripped and lower-cased, so reading a value gives back its member.
\<close>

locale str_enum =
  fixes val :: "'e \<Rightarrow> string" and members :: "'e list"
  assumes val_inj: "val a = val b \<Longrightarrow> a = b"
    and all_members: "e \<in> set members"
    and val_normal: "py_lower (py_strip (val e)) = val e"
    and val_nonempty: "val e \<noteq> []"
begin

lemma parse_iff: "parse_str_enum val members v = Some e \<longleftrightarrow> enum_text v = val e"
proof
  assume "parse_str_enum val members v = Some e"
  then show "enum_text v = val e"
    by (auto simp: parse_str_enum_def find_Some_iff)
next
  assume eq: "enum_text v = val e"
  then have "parse_str_enum val members v \<noteq> None"
    using all_members [of e] by (auto simp: parse_str_enum_def find_None_iff)
  then obtain e' where e': "parse_str_enum val members v = Some e'" by auto
  then have "val e' = enum_text v"
    by (auto simp: parse_str_enum_def find_Some_iff)
  with eq have "e' = e" by (simp add: val_inj)
  with e' show "parse_str_enum val members v = Some e" by simp
qed

lemma parse_none_iff: "parse_str_enum val members v = None \<longleftrightarrow> (\<forall>e. enum_text v \<noteq> val e)"
  using parse_iff by (metis not_None_eq)

lemma parse_value: "parse_str_enum val members (PStr (val e)) = Some e"
  by (simp add: parse_iff enum_text_def val_normal)

lemma parse_falsy: "\<not> truthy v \<Longrightarrow> parse_str_enum val members v = None"
  using val_nonempty by (auto simp: parse_none_iff enum_text_def str_or_empty_def py_strip_def
      strip_chars_def rstrip_chars_def dest: sym)

text \<open>Blanks around the text and the case of its letters do not matter.\<close>

lemma parse_decorated:
  assumes "py_lower (py_strip s) = val e"
  shows "parse_str_enum val members (PStr s) = Some e"
  using assms by (simp add: parse_iff enum_text_def)

end

lemma normal_ascii:
  assumes "s \<noteq> []" and "list_all (\<lambda>c. \<not> is_space c \<and> lower_char c = c) s"
  shows "py_lower (py_strip s) = s"
proof -
  have "py_strip s = s"
    using assms unfolding py_strip_def
    by (intro strip_chars_id) (auto simp: list_all_iff)
  then show ?thesis using assms(2) by (simp add: py_lower_def list_all_iff map_idI)
qed

lemmas enum_char_simps = is_space_def lower_char_def Let_def

interpretation source_types: str_enum source_type_value "[YOUTUBE, PODCAST]"
proof
  show "source_type_value a = source_type_value b \<Longrightarrow> a = b" for a b
    by (cases a; cases b) simp_all
  show "e \<in> set [YOUTUBE, PODCAST]" for e by (cases e) simp_all
  show "py_lower (py_strip (source_type_value e)) = source_type_value e" for e
    by (rule normal_ascii; cases e) (simp_all add: enum_char_simps)
  show "source_type_value e \<noteq> []" for e by (cases e) simp_all
qed

interpretation media_types: str_enum media_type_value "[AUDIO, VIDEO]"
proof
  show "media_type_value a = media_type_value b \<Longrightarrow> a = b" for a b
    by (cases a; cases b) simp_all
  show "e \<in> set [AUDIO, VIDEO]" for e by (cases e) simp_all
  show "py_lower (py_strip (media_type_value e)) = media_type_value e" for e
    by (rule normal_ascii; cases e) (simp_all add: enum_char_simps)
  show "media_type_value e \<noteq> []" for e by (cases e) simp_all
qed

interpretation job_types: str_enum job_type_value
  "[CHECK_FOR_EPISODES, UPDATE_DOWNLOADS, DOWNLOAD_EPISODE, DOWNLOAD_SINGLE,
    TRANSCODE_MEDIA, GENERATE_TRANSCRIPT, GENERATE_OCR, RETENTION_CLEANUP]"
proof
  show "job_type_value a = job_type_value b \<Longrightarrow> a = b" for a b
    by (cases a; cases b) simp_all
  show "e \<in> set [CHECK_FOR_EPISODES, UPDATE_DOWNLOADS, DOWNLOAD_EPISODE, DOWNLOAD_SINGLE,
    TRANSCODE_MEDIA, GENERATE_TRANSCRIPT, GENERATE_OCR, RETENTION_CLEANUP]" for e
    by (cases e) simp_all
  show "py_lower (py_strip (job_type_value e)) = job_type_value e" for e
    by (rule normal_ascii; cases e) (simp_all add: enum_char_simps)
  show "job_type_value e \<noteq> []" for e by (cases e) simp_all
qed

interpretation job_statuses: str_enum job_status_value "[QUEUED, RUNNING, SUCCEEDED, FAILED]"
proof
  show "job_status_value a = job_status_value b \<Longrightarrow> a = b" for a b
    by (cases a; cases b) simp_all
  show "e \<in> set [QUEUED, RUNNING, SUCCEEDED, FAILED]" for e by (cases e) simp_all
  show "py_lower (py_strip (job_status_value e)) = job_status_value e" for e
    by (rule normal_ascii; cases e) (simp_all add: enum_char_simps)
  show "job_status_value e \<noteq> []" for e by (cases e) simp_all
qed

interpretation heavy_kinds: str_enum heavy_kind_value "[KIND_FFMPEG, KIND_TRANSCRIPT]"
proof
  show "heavy_kind_value a = heavy_kind_value b \<Longrightarrow> a = b" for a b
    by (cases a; cases b) simp_all
  show "e \<in> set [KIND_FFMPEG, KIND_TRANSCRIPT]" for e by (cases e) simp_all
  show "py_lower (py_strip (heavy_kind_value e)) = heavy_kind_value e" for e
    by (rule normal_ascii; cases e) (simp_all add: enum_char_simps)
  show "heavy_kind_value e \<noteq> []" for e by (cases e) simp_all
qed

lemmas parse_values [simp] =
  source_types.parse_value [folded parse_source_type_def]
  media_types.parse_value [folded parse_media_type_def]
  job_types.parse_value [folded parse_job_type_def]
  job_statuses.parse_value [folded parse_job_status_def]
  heavy_kinds.parse_value [folded parse_heavy_kind_def]

lemmas parse_source_type_iff = source_types.parse_iff [folded parse_source_type_def]
lemmas parse_media_type_iff = media_types.parse_iff [folded parse_media_type_def]
lemmas parse_job_type_iff = job_types.parse_iff [folded parse_job_type_def]
lemmas parse_heavy_kind_iff = heavy_kinds.parse_iff [folded parse_heavy_kind_def]

lemma parse_job_type_literal [simp]:
  "parse_job_type (PStr ''check_for_episodes'') = Some CHECK_FOR_EPISODES"
  "parse_job_type (PStr ''update_downloads'') = Some UPDATE_DOWNLOADS"
  "parse_job_type (PStr ''download_episode'') = Some DOWNLOAD_EPISODE"
  "parse_job_type (PStr ''download_single'') = Some DOWNLOAD_SINGLE"
  "parse_job_type (PStr ''transcode_media'') = Some TRANSCODE_MEDIA"
  "parse_job_type (PStr ''generate_transcript'') = Some GENERATE_TRANSCRIPT"
  "parse_job_type (PStr ''generate_ocr'') = Some GENERATE_OCR"
  "parse_job_type (PStr ''retention_cleanup'') = Some RETENTION_CLEANUP"
  using parse_values(3) [of CHECK_FOR_EPISODES] parse_values(3) [of UPDATE_DOWNLOADS]
    parse_values(3) [of DOWNLOAD_EPISODE] parse_values(3) [of DOWNLOAD_SINGLE]
    parse_values(3) [of TRANSCODE_MEDIA] parse_values(3) [of GENERATE_TRANSCRIPT]
    parse_values(3) [of GENERATE_OCR] parse_values(3) [of RETENTION_CLEANUP]
  by simp_all

lemmas parse_falsy [simp] =
  source_types.parse_falsy [folded parse_source_type_def]
  media_types.parse_falsy [folded parse_media_type_def]
  job_types.parse_falsy [folded parse_job_type_def]
  heavy_kinds.parse_falsy [folded parse_heavy_kind_def]

end
