(* ===== verification/Models.thy ===== *)
theory Models
  imports Domain
begin

text \<open>
  \<open>src/src/models/models.py\<close>: one record per Django model, one list of rows per table in
  primary-key order, and the primary-key counters of the tables the modelled code inserts
  into. Times are integers, microseconds since the epoch; \<open>timezone.now()\<close> is an argument of
  the operations that read the clock. A column whose writers only store members of a string
  enumeration (\<open>Job.status\<close>, \<open>Download.download_status\<close>, \<open>CpuSlotRequest.status\<close>) has that
  enumeration as its type; the other text columns are strings.

  \<open>world\<close> adds what lies outside the database: the messages handed to the broker and the
  files the workers and the application see.
\<close>

type_synonym time = int

abbreviation seconds :: "int \<Rightarrow> time" where
  "seconds n \<equiv> n * 1000000"

record app_config_value =
  app_key :: string
  app_value :: string
  app_updated_at :: time

record profile_config_value =
  pc_profile_id :: string
  pc_key :: string
  pc_value :: string
  pc_updated_at :: time

record profile_download_settings =
  pds_profile_id :: string
  pds_cookie_text :: string
  pds_cookie_updated_at :: "time option"
  pds_updated_at :: time

record source_config =
  src_id :: int
  src_profile_id :: string
  src_source_type :: string
  src_position :: int
  src_name :: string
  src_url :: string
  src_media_type :: "string option"
  src_enabled :: bool
  src_subtitles :: bool
  src_subtitle_offset :: "pyfloat option"
  src_max_downloads :: "int option"
  src_delete_explicit :: bool
  src_include_shorts :: bool
  src_include_livestreams :: bool
  src_title_exclude :: string
  src_updated_at :: time

record download =
  dl_id :: int
  dl_profile_id :: string
  dl_source_type :: string
  dl_source_name :: string
  dl_source_url :: "string option"
  dl_item_uid :: "string option"
  dl_item_id :: "string option"
  dl_item_url :: "string option"
  dl_media_url :: "string option"
  dl_title :: "string option"
  dl_description :: "string option"
  dl_uploader :: "string option"
  dl_channel :: "string option"
  dl_upload_date :: "string option"
  dl_duration_seconds :: "int option"
  dl_file_path :: "string option"
  dl_file_path_relative :: "string option"
  dl_file_ext :: "string option"
  dl_file_size_bytes :: "int option"
  dl_subtitle_path :: "string option"
  dl_subtitle_path_relative :: "string option"
  dl_status :: download_status
  dl_profanity_status :: string
  dl_is_censored :: bool
  dl_censored_segments :: pyval
  dl_raw_metadata :: "string option"
  dl_first_seen_at :: time
  dl_last_seen_at :: time
  dl_completed_at :: "time option"
  dl_played :: bool
  dl_favorite :: bool
  dl_played_at :: "time option"
  dl_last_position :: pyfloat
  dl_total_listened :: pyfloat
  dl_last_position_updated_at :: "time option"

record playlist =
  pl_id :: int
  pl_profile_id :: string
  pl_name :: string
  pl_created_at :: time
  pl_updated_at :: time

record playlist_item =
  pi_id :: int
  pi_playlist :: int
  pi_download :: int
  pi_position :: int
  pi_added_at :: time

record transcript_segment =
  seg_download :: int
  seg_subtitle_path :: string
  seg_start_seconds :: pyfloat
  seg_end_seconds :: "pyfloat option"
  seg_text :: string

record slot_request =
  lease_id :: string
  slot_job_type :: string
  slot_state :: slot_status
  slot_created_at :: time
  slot_updated_at :: time
  slot_expires_at :: time

record scheduled_job =
  sch_id :: int
  sch_profile_id :: string
  sch_job_type :: string
  sch_enabled :: bool
  sch_interval_seconds :: int
  sch_payload :: pyval
  sch_template :: string
  sch_next_run_at :: time
  sch_last_run_at :: "time option"
  sch_created_at :: time
  sch_updated_at :: time

record job =
  job_id :: int
  job_profile_id :: string
  job_kind :: string
  job_state :: job_status
  job_payload :: pyval
  job_idempotency_key :: "string option"
  job_error_message :: "string option"
  job_created_at :: time
  job_updated_at :: time
  job_started_at :: "time option"
  job_finished_at :: "time option"

record database =
  app_config :: "app_config_value list"
  profile_config :: "profile_config_value list"
  download_settings :: "profile_download_settings list"
  source_configs :: "source_config list"
  downloads :: "download list"
  playlists :: "playlist list"
  playlist_items :: "playlist_item list"
  transcript_segments :: "transcript_segment list"
  cpu_slot_requests :: "slot_request list"
  scheduled_jobs :: "scheduled_job list"
  jobs :: "job list"
  next_source_id :: int
  next_download_id :: int
  next_playlist_id :: int
  next_playlist_item_id :: int
  next_schedule_id :: int
  next_job_id :: int

definition empty_database :: database where
  "empty_database = \<lparr>app_config = [], profile_config = [], download_settings = [], source_configs = [], downloads = [],
     playlists = [], playlist_items = [], transcript_segments = [], cpu_slot_requests = [],
     scheduled_jobs = [], jobs = [], next_source_id = 1, next_download_id = 1,
     next_playlist_id = 1, next_playlist_item_id = 1, next_schedule_id = 1, next_job_id = 1\<rparr>"

text \<open>A message on the broker: routing key, body without its payload, priority.\<close>

record published =
  pub_routing_key :: string
  pub_body :: pydict
  pub_priority :: int

datatype file_node = RegularFile int | Directory

record world =
  db :: database
  broker :: "published list"
  files :: "string \<Rightarrow> file_node option"

definition is_file :: "(string \<Rightarrow> file_node option) \<Rightarrow> string \<Rightarrow> bool" where
  "is_file fs p = (case fs p of Some (RegularFile _) \<Rightarrow> True | _ \<Rightarrow> False)"

definition path_exists :: "(string \<Rightarrow> file_node option) \<Rightarrow> string \<Rightarrow> bool" where
  "path_exists fs p = (fs p \<noteq> None)"

text \<open>\<open>str(value or "")\<close> of a nullable text column.\<close>

definition text_of :: "string option \<Rightarrow> string" where
  "text_of v = (case v of None \<Rightarrow> [] | Some s \<Rightarrow> s)"

lemma text_of_simps [simp]: "text_of None = []" "text_of (Some s) = s"
  by (simp_all add: text_of_def)

text \<open>Profile settings: \<open>_profile_setting\<close> and the lookups behind it.\<close>

definition profile_value :: "database \<Rightarrow> string \<Rightarrow> string \<Rightarrow> string option" where
  "profile_value d profile key =
     map_option pc_value
       (first_row (\<lambda>r. pc_profile_id r = profile \<and> pc_key r = key) (profile_config d))"

definition app_value_of :: "database \<Rightarrow> string \<Rightarrow> string option" where
  "app_value_of d key = map_option app_value (first_row (\<lambda>r. app_key r = key) (app_config d))"

definition update_downloads_where ::
    "(download \<Rightarrow> bool) \<Rightarrow> (download \<Rightarrow> download) \<Rightarrow> database \<Rightarrow> database" where
  "update_downloads_where P f d = d\<lparr>downloads := update_where P f (downloads d)\<rparr>"

lemma update_downloads_where_frame [simp, frame_simps]:
  "jobs (update_downloads_where P f d) = jobs d"
  "source_configs (update_downloads_where P f d) = source_configs d"
  "transcript_segments (update_downloads_where P f d) = transcript_segments d"
  "downloads (update_downloads_where P f d) = update_where P f (downloads d)"
  by (simp_all add: update_downloads_where_def)

end
