(* ===== verification/Routing.thy ===== *)
theory Routing
  imports Models
begin

text \<open>
  \<open>src/src/frontend/routing.py\<close> and \<open>src/src/frontend/queue.py\<close>: which queue a job goes
  to, its priority, and the publication of a job message. The publisher also reads the job's
  payload from the database when the message does not carry it. Publishing appends to the
  broker's list of messages; the JSON encoding of the body is not modelled, the body is the
  dictionary itself in the key order of \<open>sort_keys=True\<close>.
\<close>

section \<open>Routing\<close>

definition MAX_QUEUE_PRIORITY :: int where
  "MAX_QUEUE_PRIORITY = 10"

definition PRIORITY_QUEUES :: "string list" where
  "PRIORITY_QUEUES = map queue_value
     [YOUTUBE_DOWNLOAD_QUEUE, PODCAST_DOWNLOAD_QUEUE, TRANSCRIPT_QUEUE, FFMPEG_QUEUE]"

definition SERIAL_JOB_TYPES :: "job_type list" where
  "SERIAL_JOB_TYPES = [CHECK_FOR_EPISODES, UPDATE_DOWNLOADS]"

definition DOWNLOAD_JOB_TYPES :: "job_type list" where
  "DOWNLOAD_JOB_TYPES = [DOWNLOAD_EPISODE, DOWNLOAD_SINGLE]"

definition queue_arguments :: "string \<Rightarrow> (string \<times> int) list" where
  "queue_arguments q =
     (if q \<in> set PRIORITY_QUEUES then [(''x-max-priority'', MAX_QUEUE_PRIORITY)] else [])"

definition download_queue_name :: "pyval \<Rightarrow> queue" where
  "download_queue_name payload =
     (let p = as_dict payload;
          source_type = parse_source_type (dget p ''source_type'');
          media_type = parse_media_type (dget p ''media_type'')
      in if source_type = Some PODCAST then PODCAST_DOWNLOAD_QUEUE
         else if source_type = Some YOUTUBE then YOUTUBE_DOWNLOAD_QUEUE
         else if media_type = Some AUDIO then PODCAST_DOWNLOAD_QUEUE
         else YOUTUBE_DOWNLOAD_QUEUE)"

text \<open>An unknown job type gets a queue of its own name.\<close>

definition queue_name :: "string \<Rightarrow> pyval \<Rightarrow> string" where
  "queue_name jt payload =
     (case parse_job_type (PStr jt) of
        Some CHECK_FOR_EPISODES \<Rightarrow> queue_value SERIAL_EPISODE_CHECK_QUEUE
      | Some UPDATE_DOWNLOADS \<Rightarrow> queue_value SERIAL_EPISODE_CHECK_QUEUE
      | Some DOWNLOAD_EPISODE \<Rightarrow> queue_value (download_queue_name payload)
      | Some DOWNLOAD_SINGLE \<Rightarrow> queue_value (download_queue_name payload)
      | Some TRANSCODE_MEDIA \<Rightarrow> queue_value FFMPEG_QUEUE
      | Some GENERATE_TRANSCRIPT \<Rightarrow> queue_value TRANSCRIPT_QUEUE
      | Some GENERATE_OCR \<Rightarrow> queue_value TRANSCRIPT_QUEUE
      | Some RETENTION_CLEANUP \<Rightarrow> queue_value CLEANUP_QUEUE
      | None \<Rightarrow> ''getoffline.jobs.'' @ jt)"

section \<open>Priorities\<close>

definition as_bool :: "pyval \<Rightarrow> bool" where
  "as_bool v \<longleftrightarrow> py_lower (py_strip (py_str v)) \<in> set [''1'', ''true'', ''yes'', ''on'']"

definition job_priority :: "pydict \<Rightarrow> int" where
  "job_priority message =
     (let payload = as_dict (dget message ''payload'') in
      case parse_job_type (dget message ''job_type'') of
        Some DOWNLOAD_SINGLE \<Rightarrow>
          (if as_bool (dget payload ''manual_enqueue'') \<or> as_bool (dget payload ''redownload'')
           then 10 else 9)
      | Some DOWNLOAD_EPISODE \<Rightarrow> (if as_bool (dget payload ''redownload'') then 9 else 5)
      | Some GENERATE_TRANSCRIPT \<Rightarrow>
          (if as_bool (dget payload ''startup_missing_subtitle'') then 2
           else if parse_source_type
                     (py_or (dget payload ''source_type'') (dget payload ''media_source_type''))
                     = Some PODCAST
                  \<or> parse_media_type (dget payload ''media_type'') = Some AUDIO then 8
           else if truthy (dget payload ''download_id'') then 7
           else 3)
      | Some GENERATE_OCR \<Rightarrow> (if truthy (dget payload ''download_id'') then 7 else 3)
      | _ \<Rightarrow> 0)"

section \<open>Publication\<close>

definition stored_payload :: "database \<Rightarrow> int \<Rightarrow> pyval option" where
  "stored_payload d n = map_option job_payload (first_row (\<lambda>j. job_id j = n) (jobs d))"

definition message_with_payload :: "database \<Rightarrow> pydict \<Rightarrow> pydict" where
  "message_with_payload d message =
     (if is_dict (dget message ''payload'') then message
      else let jid = dget message ''job_id'' in
        if \<not> truthy jid then message
        else (case py_int_val jid of
                None \<Rightarrow> message
              | Some n \<Rightarrow>
                  (case stored_payload d n of
                     Some (PDict p) \<Rightarrow> AList.update ''payload'' (PDict p) message
                   | _ \<Rightarrow> message)))"

text \<open>\<open>json.dumps({k: v for k, v in message.items() if k != "payload"}, sort_keys=True)\<close>\<close>

fun str_le :: "string \<Rightarrow> string \<Rightarrow> bool" where
  "str_le [] _ = True"
| "str_le (_ # _) [] = False"
| "str_le (a # s) (b # t) = (ord a < (ord b :: nat) \<or> (a = b \<and> str_le s t))"

fun insert_key :: "string \<times> 'v \<Rightarrow> (string \<times> 'v) list \<Rightarrow> (string \<times> 'v) list" where
  "insert_key x [] = [x]"
| "insert_key x (y # ys) = (if str_le (fst x) (fst y) then x # y # ys else y # insert_key x ys)"

definition sort_keys :: "(string \<times> 'v) list \<Rightarrow> (string \<times> 'v) list" where
  "sort_keys d = foldr insert_key d []"

definition message_body :: "pydict \<Rightarrow> pydict" where
  "message_body message = sort_keys (filter (\<lambda>kv. fst kv \<noteq> ''payload'') message)"

definition publish_job :: "pydict \<Rightarrow> world \<Rightarrow> error + world" where
  "publish_job message0 w =
     (let message = message_with_payload (db w) message0 in
      case map_of message ''job_type'' of
        None \<Rightarrow> Inl (KeyError ''job_type'')
      | Some jt \<Rightarrow>
          (let given = dget_default message ''priority'' (PInt (job_priority message)) in
           case py_int_val given of
             None \<Rightarrow> Inl (int_error given)
           | Some p \<Rightarrow>
               Inr (w\<lparr>broker := broker w @
                 [\<lparr>pub_routing_key = queue_name (py_str jt) (dget message ''payload''),
                   pub_body = message_body message,
                   pub_priority = max 0 (min MAX_QUEUE_PRIORITY p)\<rparr>]\<rparr>)))"

text \<open>
  The message every publisher in the code builds from a job row: its id, type and profile,
  and the attempt number 1.
\<close>

definition job_message :: "job \<Rightarrow> pydict" where
  "job_message j =
     [(''job_id'', PInt (job_id j)), (''job_type'', PStr (job_kind j)),
      (''profile_id'', PStr (job_profile_id j)), (''attempt'', PInt 1)]"

section \<open>Facts\<close>

lemma job_priority_range: "0 \<le> job_priority m \<and> job_priority m \<le> MAX_QUEUE_PRIORITY"
  by (auto simp: job_priority_def MAX_QUEUE_PRIORITY_def Let_def
      split: option.splits job_type.splits)

lemma map_of_insert_key:
  "map_of (insert_key x ys) k = (if k = fst x then Some (snd x) else map_of ys k)"
  if "fst x \<notin> fst ` set ys"
  using that by (induction ys) (auto simp: image_iff)

lemma keys_insert_key: "fst ` set (insert_key x ys) = insert (fst x) (fst ` set ys)"
  by (induction ys) auto

lemma keys_sort_keys: "fst ` set (sort_keys d) = fst ` set d"
  unfolding sort_keys_def by (induction d) (auto simp: keys_insert_key)

lemma map_of_sort_keys:
  assumes "distinct (map fst d)"
  shows "map_of (sort_keys d) = map_of d"
  using assms
proof (induction d)
  case (Cons x d)
  have "fst x \<notin> fst ` set (sort_keys d)"
    using Cons.prems by (simp add: keys_sort_keys)
  then have "map_of (insert_key x (sort_keys d)) k = map_of (x # d) k" for k
    using Cons by (cases x) (simp add: map_of_insert_key)
  then show ?case by (auto simp: sort_keys_def)
qed (simp add: sort_keys_def)

end
