(* ===== verification/Jobs.thy ===== *)
theory Jobs
  imports Routing
begin

text \<open>
  \<open>src/src/models/jobs.py\<close> and the two other writers of the job table's status: the reset of
  stale running jobs (\<open>_make_stale_job_queued\<close> in \<open>src/src/workers/handlers.py\<close>) and the
  superseding of transcript jobs (\<open>src/src/api/services/dashboard_actions.py\<close>). Each function
  is one atomic step on the database; \<open>claim_job\<close> is one in the code as well (a row lock in
  a transaction), \<open>create_job\<close> is not, which \<open>create_lookup\<close> and \<open>create_insert\<close> keep
  visible.
\<close>

section \<open>Operations\<close>

definition is_active :: "job \<Rightarrow> bool" where
  "is_active j \<longleftrightarrow> job_state j = QUEUED \<or> job_state j = RUNNING"

text \<open>\<open>create_job\<close>: the lookup of an active job with the same key, then the insert.\<close>

definition create_lookup :: "string option \<Rightarrow> database \<Rightarrow> job option" where
  "create_lookup key d =
     (if text_of key = [] then None
      else first_row (\<lambda>j. job_idempotency_key j = key \<and> is_active j) (jobs d))"

definition insert_job :: "job \<Rightarrow> database \<Rightarrow> database" where
  "insert_job j d = d\<lparr>jobs := jobs d @ [j], next_job_id := next_job_id d + 1\<rparr>"

definition new_job ::
    "time \<Rightarrow> string \<Rightarrow> string \<Rightarrow> pyval \<Rightarrow> string option \<Rightarrow> database \<Rightarrow> job" where
  "new_job now profile kind payload key d =
     \<lparr>job_id = next_job_id d, job_profile_id = profile, job_kind = kind, job_state = QUEUED,
      job_payload = py_or payload (PDict []), job_idempotency_key = key,
      job_error_message = None, job_created_at = now, job_updated_at = now,
      job_started_at = None, job_finished_at = None\<rparr>"

definition create_insert ::
    "time \<Rightarrow> string \<Rightarrow> string \<Rightarrow> pyval \<Rightarrow> string option \<Rightarrow> database \<Rightarrow> job \<times> database" where
  "create_insert now profile kind payload key d =
     (let j = new_job now profile kind payload key d in (j, insert_job j d))"

definition create_job ::
    "time \<Rightarrow> string \<Rightarrow> string \<Rightarrow> pyval \<Rightarrow> string option \<Rightarrow> database \<Rightarrow> job \<times> database" where
  "create_job now profile kind payload key d =
     (case create_lookup key d of
        Some j \<Rightarrow> (j, d)
      | None \<Rightarrow> create_insert now profile kind payload key d)"

definition update_job :: "int \<Rightarrow> (job \<Rightarrow> job) \<Rightarrow> database \<Rightarrow> database" where
  "update_job n f d = d\<lparr>jobs := update_where (\<lambda>j. job_id j = n) f (jobs d)\<rparr>"

definition claim_job :: "time \<Rightarrow> int \<Rightarrow> database \<Rightarrow> job option \<times> database" where
  "claim_job now n d =
     (case first_row (\<lambda>j. job_id j = n \<and> job_state j = QUEUED) (jobs d) of
        None \<Rightarrow> (None, d)
      | Some j \<Rightarrow>
          let upd = (\<lambda>r. r\<lparr>job_state := RUNNING, job_started_at := Some now, job_updated_at := now\<rparr>)
          in (Some (upd j), update_job n upd d))"

definition finish_job ::
    "time \<Rightarrow> int \<Rightarrow> job_status \<Rightarrow> string option \<Rightarrow> database \<Rightarrow> database" where
  "finish_job now n st err d =
     update_job n (\<lambda>r. r\<lparr>job_state := st, job_error_message := err,
                         job_finished_at := Some now, job_updated_at := now\<rparr>) d"

text \<open>
  The stale cutoff reads a number of seconds from the environment. A text that \<open>isdigit\<close>
  accepts and \<open>int\<close> refuses raises.
\<close>

definition stale_running_job_cutoff :: "string \<Rightarrow> time \<Rightarrow> error + time option" where
  "stale_running_job_cutoff env now =
     (let raw = py_strip env in
      if \<not> py_isdigit raw then Inr None
      else (case py_int raw of
              None \<Rightarrow> Inl (ValueError raw)
            | Some n \<Rightarrow> Inr (if n \<le> 0 then None else Some (now - seconds n))))"

definition stale_reset :: "time \<Rightarrow> job \<Rightarrow> job" where
  "stale_reset now j = j\<lparr>job_state := QUEUED,
     job_error_message := Some ''Reset stale running job so it can be published again.'',
     job_started_at := None, job_finished_at := None, job_updated_at := now\<rparr>"

definition make_stale_job_queued ::
    "string \<Rightarrow> time \<Rightarrow> job \<Rightarrow> database \<Rightarrow> error + bool \<times> job \<times> database" where
  "make_stale_job_queued env now j d =
     (if job_state j \<noteq> RUNNING then Inr (False, j, d)
      else bind_result (stale_running_job_cutoff env now) (\<lambda>cutoff.
        case cutoff of
          None \<Rightarrow> Inr (False, j, d)
        | Some c \<Rightarrow>
            let started = (case job_started_at j of Some t \<Rightarrow> t | None \<Rightarrow> job_updated_at j) in
            if started > c then Inr (False, j, d)
            else Inr (True, stale_reset now j, update_job (job_id j)
              (\<lambda>r. r\<lparr>job_state := QUEUED, job_error_message := job_error_message (stale_reset now j),
                     job_started_at := None, job_finished_at := None, job_updated_at := now\<rparr>) d)))"

definition transcript_key :: "string \<Rightarrow> int \<Rightarrow> string" where
  "transcript_key profile n = ''generate_transcript:'' @ profile @ '':'' @ str_of_int n"

definition supersede_active_transcript_job ::
    "time \<Rightarrow> string \<Rightarrow> int \<Rightarrow> database \<Rightarrow> database" where
  "supersede_active_transcript_job now profile n d =
     d\<lparr>jobs := update_where
        (\<lambda>j. job_profile_id j = profile \<and> job_kind j = ''generate_transcript''
            \<and> job_idempotency_key j = Some (transcript_key profile n) \<and> is_active j)
        (\<lambda>j. j\<lparr>job_state := FAILED,
               job_error_message := Some ''Superseded by a manual transcript regeneration request.'',
               job_finished_at := Some now, job_updated_at := now\<rparr>) (jobs d)\<rparr>"

section \<open>Well-formed job tables\<close>

text \<open>Primary keys are distinct and below the counter.\<close>

definition jobs_wf :: "database \<Rightarrow> bool" where
  "jobs_wf d \<longleftrightarrow> distinct (map job_id (jobs d)) \<and> (\<forall>j \<in> set (jobs d). job_id j < next_job_id d)"

text \<open>No two active jobs share a non-empty idempotency key.\<close>

definition active_count :: "string \<Rightarrow> database \<Rightarrow> nat" where
  "active_count key d =
     count_rows (\<lambda>j. job_idempotency_key j = Some key \<and> is_active j) (jobs d)"

definition unique_active :: "database \<Rightarrow> bool" where
  "unique_active d \<longleftrightarrow> (\<forall>key. key \<noteq> [] \<longrightarrow> active_count key d \<le> 1)"

definition status_of :: "database \<Rightarrow> int \<Rightarrow> job_status option" where
  "status_of d n = map_option job_state (first_row (\<lambda>j. job_id j = n) (jobs d))"

lemma update_job_frame [simp, frame_simps]:
  "downloads (update_job n f d) = downloads d"
  "source_configs (update_job n f d) = source_configs d"
  "profile_config (update_job n f d) = profile_config d"
  "next_job_id (update_job n f d) = next_job_id d"
  "jobs (update_job n f d) = update_where (\<lambda>j. job_id j = n) f (jobs d)"
  by (simp_all add: update_job_def)

lemma create_job_frame [simp, frame_simps]:
  "downloads (snd (create_job now p k v key d)) = downloads d"
  "source_configs (snd (create_job now p k v key d)) = source_configs d"
  "profile_config (snd (create_job now p k v key d)) = profile_config d"
  "transcript_segments (snd (create_job now p k v key d)) = transcript_segments d"
  "app_config (snd (create_job now p k v key d)) = app_config d"
  "cpu_slot_requests (snd (create_job now p k v key d)) = cpu_slot_requests d"
  "scheduled_jobs (snd (create_job now p k v key d)) = scheduled_jobs d"
  by (simp_all add: create_job_def create_insert_def insert_job_def Let_def split: option.split)

lemma jobs_wf_update_job:
  assumes "\<And>j. job_id (f j) = job_id j"
  shows "jobs_wf (update_job n f d) = jobs_wf d"
proof -
  have "map job_id (update_where (\<lambda>j. job_id j = n) f (jobs d)) = map job_id (jobs d)"
    using assms by (rule map_update_where_frame)
  then have "job_id ` set (update_where (\<lambda>j. job_id j = n) f (jobs d)) = job_id ` set (jobs d)"
    by (metis list.set_map)
  then have "(\<forall>j \<in> set (update_where (\<lambda>j. job_id j = n) f (jobs d)). job_id j < next_job_id d)
      = (\<forall>j \<in> set (jobs d). job_id j < next_job_id d)"
    by (metis (no_types, lifting) imageE imageI)
  then show ?thesis
    using \<open>map job_id _ = _\<close> by (simp add: jobs_wf_def)
qed

lemma jobs_wf_claim: "jobs_wf d \<Longrightarrow> jobs_wf (snd (claim_job now n d))"
  by (auto simp: claim_job_def Let_def jobs_wf_update_job split: option.split)

lemma jobs_wf_finish: "jobs_wf d \<Longrightarrow> jobs_wf (finish_job now n st err d)"
  by (simp add: finish_job_def jobs_wf_update_job)

lemma jobs_wf_create: "jobs_wf d \<Longrightarrow> jobs_wf (snd (create_job now p k v key d))"
  by (force simp: create_job_def create_insert_def insert_job_def new_job_def jobs_wf_def Let_def
      split: option.split)

lemma status_of_update_job:
  assumes "\<And>j. job_id (f j) = job_id j"
  shows "status_of (update_job n f d) m =
    (if m = n then map_option (job_state \<circ> f) (first_row (\<lambda>j. job_id j = n) (jobs d))
     else status_of d m)"
proof -
  have "first_row (\<lambda>j. job_id j = m) (update_where (\<lambda>j. job_id j = n) f t) =
    (if m = n then map_option f (first_row (\<lambda>j. job_id j = n) t)
     else first_row (\<lambda>j. job_id j = m) t)" for t
    using assms by (induction t) auto
  then show ?thesis by (simp add: status_of_def option.map_comp)
qed

lemma first_row_queued:
  assumes "jobs_wf d"
  shows "first_row (\<lambda>j. job_id j = n \<and> job_state j = QUEUED) (jobs d) = None
    \<longleftrightarrow> status_of d n \<noteq> Some QUEUED"
proof -
  have "distinct (map job_id t) \<Longrightarrow>
      first_row (\<lambda>j. job_id j = n \<and> job_state j = QUEUED) t = None
      \<longleftrightarrow> map_option job_state (first_row (\<lambda>j. job_id j = n) t) \<noteq> Some QUEUED" for t
    by (induction t) (auto simp: first_row_None image_iff)
  from this [of "jobs d"] show ?thesis using assms by (simp add: jobs_wf_def status_of_def)
qed

section \<open>The claim protocol\<close>

text \<open>
  What the rest of the program does to the job table: it creates jobs, the workers claim them
  and finish them with a final status. \<open>claims_with\<close> counts the successful claims of a job.
\<close>

datatype queue_op =
    Create time string string pyval "string option"
  | Claim time int
  | Finish time int bool "string option"

definition final_status :: "bool \<Rightarrow> job_status" where
  "final_status ok = (if ok then SUCCEEDED else FAILED)"

type_synonym 'd creator =
  "time \<Rightarrow> string \<Rightarrow> string \<Rightarrow> pyval \<Rightarrow> string option \<Rightarrow> 'd \<Rightarrow> job \<times> 'd"
type_synonym 'd claimer = "time \<Rightarrow> int \<Rightarrow> 'd \<Rightarrow> job option \<times> 'd"
type_synonym 'd finisher = "time \<Rightarrow> int \<Rightarrow> job_status \<Rightarrow> string option \<Rightarrow> 'd \<Rightarrow> 'd"

fun step_with :: "'d creator \<Rightarrow> 'd claimer \<Rightarrow> 'd finisher \<Rightarrow> queue_op \<Rightarrow> 'd \<Rightarrow> 'd" where
  "step_with create claim finish (Create now p k v key) d = snd (create now p k v key d)"
| "step_with create claim finish (Claim now m) d = snd (claim now m d)"
| "step_with create claim finish (Finish now m ok err) d = finish now m (final_status ok) err d"

fun grants :: "'d claimer \<Rightarrow> int \<Rightarrow> queue_op \<Rightarrow> 'd \<Rightarrow> bool" where
  "grants claim n (Claim now m) d = (m = n \<and> fst (claim now m d) \<noteq> None)"
| "grants claim n oper d = False"

primrec claims_with ::
    "'d creator \<Rightarrow> 'd claimer \<Rightarrow> 'd finisher \<Rightarrow> int \<Rightarrow> queue_op list \<Rightarrow> 'd \<Rightarrow> nat" where
  "claims_with create claim finish n [] d = 0"
| "claims_with create claim finish n (oper # ops) d =
     (if grants claim n oper d then 1 else 0)
     + claims_with create claim finish n ops (step_with create claim finish oper d)"

text \<open>
  The contract: a claim succeeds only on a queued job, which is then running; a finished job
  has its final status; creating a job changes no existing one; none touches another job.
\<close>

locale job_queue =
  fixes wf :: "'d \<Rightarrow> bool"
    and status :: "'d \<Rightarrow> int \<Rightarrow> job_status option"
    and create :: "'d creator"
    and claim :: "'d claimer"
    and finish :: "'d finisher"
  assumes create_wf: "wf d \<Longrightarrow> wf (snd (create now p k v key d))"
    and claim_wf: "wf d \<Longrightarrow> wf (snd (claim now n d))"
    and finish_wf: "wf d \<Longrightarrow> wf (finish now n st err d)"
    and create_status: "wf d \<Longrightarrow> status d m \<noteq> None \<Longrightarrow>
      status (snd (create now p k v key d)) m = status d m"
    and claim_iff: "wf d \<Longrightarrow> fst (claim now n d) = None \<longleftrightarrow> status d n \<noteq> Some QUEUED"
    and claim_status: "wf d \<Longrightarrow> status (snd (claim now n d)) m =
      (if m = n \<and> status d n = Some QUEUED then Some RUNNING else status d m)"
    and finish_status: "wf d \<Longrightarrow> status (finish now n st err d) m =
      (if m = n \<and> status d n \<noteq> None then Some st else status d m)"
begin

definition past_queue :: "'d \<Rightarrow> int \<Rightarrow> bool" where
  "past_queue d n \<longleftrightarrow> status d n \<noteq> None \<and> status d n \<noteq> Some QUEUED"

lemma step_wf: "wf d \<Longrightarrow> wf (step_with create claim finish oper d)"
  by (cases oper) (auto simp: create_wf claim_wf finish_wf)

lemma step_past_queue:
  "wf d \<Longrightarrow> past_queue d n \<Longrightarrow> past_queue (step_with create claim finish oper d) n"
  by (cases oper) (auto simp: past_queue_def create_status claim_status finish_status
      final_status_def)

lemma not_granted: "wf d \<Longrightarrow> past_queue d n \<Longrightarrow> \<not> grants claim n oper d"
  by (cases oper) (auto simp: past_queue_def claim_iff)

lemma granted_past_queue:
  "wf d \<Longrightarrow> grants claim n oper d \<Longrightarrow> past_queue (step_with create claim finish oper d) n"
  by (cases oper) (auto simp: past_queue_def claim_status, (metis claim_iff option.distinct(1))+)

lemma claims_none:
  "wf d \<Longrightarrow> past_queue d n \<Longrightarrow> claims_with create claim finish n ops d = 0"
  by (induction ops arbitrary: d) (simp_all add: not_granted step_wf step_past_queue)

text \<open>However creations, claims and finishes interleave, a job is claimed once at most.\<close>

lemma claimed_once: "wf d \<Longrightarrow> claims_with create claim finish n ops d \<le> 1"
  by (induction ops arbitrary: d) (simp_all add: step_wf granted_past_queue claims_none)

end

lemma status_of_create:
  assumes "status_of d m \<noteq> None"
  shows "status_of (snd (create_job now p k v key d)) m = status_of d m"
proof -
  have "first_row P t = Some r \<Longrightarrow> first_row P (t @ [x]) = Some r" for P t and r x :: job
    by (induction t) auto
  then show ?thesis
    using assms by (auto simp: status_of_def create_job_def create_insert_def insert_job_def Let_def
        split: option.split)
qed

interpretation job_table: job_queue jobs_wf status_of create_job claim_job finish_job
proof
  fix d :: database and now n m p k v key st err
  assume wf: "jobs_wf d"
  note q = first_row_queued [OF wf, of n]
  show "jobs_wf (snd (create_job now p k v key d))" using wf by (rule jobs_wf_create)
  show "jobs_wf (snd (claim_job now n d))" using wf by (rule jobs_wf_claim)
  show "jobs_wf (finish_job now n st err d)" using wf by (rule jobs_wf_finish)
  show "fst (claim_job now n d) = None \<longleftrightarrow> status_of d n \<noteq> Some QUEUED"
    using q by (auto simp: claim_job_def Let_def split: option.splits)
  show "status_of (snd (claim_job now n d)) m =
      (if m = n \<and> status_of d n = Some QUEUED then Some RUNNING else status_of d m)"
  proof (cases "status_of d n = Some QUEUED")
    case True
    then obtain j where "first_row (\<lambda>j. job_id j = n \<and> job_state j = QUEUED) (jobs d) = Some j"
      using q by auto
    moreover obtain r where "first_row (\<lambda>j. job_id j = n) (jobs d) = Some r"
      using True by (auto simp: status_of_def)
    ultimately show ?thesis
      using True by (simp add: claim_job_def Let_def status_of_update_job)
  next
    case False
    then show ?thesis using q by (simp add: claim_job_def)
  qed
  show "status_of (finish_job now n st err d) m =
      (if m = n \<and> status_of d n \<noteq> None then Some st else status_of d m)"
    by (cases "first_row (\<lambda>j. job_id j = n) (jobs d)")
      (auto simp: finish_job_def status_of_update_job, simp_all add: status_of_def)
next
  fix d :: database and now m p k v key
  assume "status_of d m \<noteq> None"
  then show "status_of (snd (create_job now p k v key d)) m = status_of d m"
    by (rule status_of_create)
qed

section \<open>Publishing a job\<close>

lemma queue_name_as_dict: "as_dict p = as_dict p' \<Longrightarrow> queue_name jt p = queue_name jt p'"
proof -
  assume "as_dict p = as_dict p'"
  then have "download_queue_name p = download_queue_name p'" by (simp add: download_queue_name_def)
  then show ?thesis by (simp add: queue_name_def cong: option.case_cong job_type.case_cong)
qed

text \<open>Publishing the message of a job always succeeds and adds one message that names it.\<close>

lemma publish_job_message:
  obtains m where "publish_job (job_message j) w = Inr (w\<lparr>broker := broker w @ [m]\<rparr>)"
    and "map_of (pub_body m) ''job_id'' = Some (PInt (job_id j))"
    and "0 \<le> pub_priority m" and "pub_priority m \<le> MAX_QUEUE_PRIORITY"
    and "\<And>v. job_id j \<noteq> 0 \<Longrightarrow> stored_payload (db w) (job_id j) = Some v \<Longrightarrow>
      pub_routing_key m = queue_name (job_kind j) v"
proof -
  let ?msg = "message_with_payload (db w) (job_message j)"
  have cases: "?msg = job_message j \<or> (\<exists>p. ?msg = job_message j @ [(''payload'', PDict p)])"
    by (auto simp: message_with_payload_def job_message_def Let_def split: option.split pyval.split)
  have jt: "map_of ?msg ''job_type'' = Some (PStr (job_kind j))"
    and prio: "dget_default ?msg ''priority'' v = v"
    and jid: "map_of (message_body ?msg) ''job_id'' = Some (PInt (job_id j))" for v
    using cases unfolding message_body_def
    by (auto simp: job_message_def dget_default_def map_of_sort_keys)
  have key: "as_dict (dget ?msg ''payload'') = as_dict v"
    if "job_id j \<noteq> 0" "stored_payload (db w) (job_id j) = Some v" for v
    using that by (cases v) (auto simp: message_with_payload_def job_message_def Let_def)
  show thesis
  proof (rule that)
    show "publish_job (job_message j) w = Inr (w\<lparr>broker := broker w @
        [\<lparr>pub_routing_key = queue_name (job_kind j) (dget ?msg ''payload''),
          pub_body = message_body ?msg,
          pub_priority = max 0 (min MAX_QUEUE_PRIORITY (job_priority ?msg))\<rparr>]\<rparr>)"
      using jt prio by (simp add: publish_job_def Let_def)
    show "pub_routing_key \<lparr>pub_routing_key = queue_name (job_kind j) (dget ?msg ''payload''),
          pub_body = message_body ?msg,
          pub_priority = max 0 (min MAX_QUEUE_PRIORITY (job_priority ?msg))\<rparr>
        = queue_name (job_kind j) v"
      if "job_id j \<noteq> 0" "stored_payload (db w) (job_id j) = Some v" for v
      using queue_name_as_dict [OF key [OF that]] by simp
  qed (use jid in \<open>simp_all add: MAX_QUEUE_PRIORITY_def\<close>)
qed

section \<open>Properties\<close>

text \<open>C1: However job creations, claims by any number of workers and finishes are interleaved,
  no job is handed to a worker twice: the claims of one job that return it number at most one.\<close>

theorem job_claimed_once:
  "jobs_wf d \<Longrightarrow> claims_with create_job claim_job finish_job n ops d \<le> 1"
  by (rule job_table.claimed_once)

definition sample_job :: job where
  "sample_job = new_job 0 ''default'' ''check_feeds'' (PDict []) (Some ''feeds'') empty_database"

theorem job_claimed_once_witness:
  "claims_with create_job claim_job finish_job 1
     [Create 0 ''default'' ''check_feeds'' (PDict []) None, Claim 1 1, Claim 2 1,
      Finish 3 1 True None, Claim 4 1] empty_database \<le> 1"
  by (rule job_claimed_once) (simp add: jobs_wf_def empty_database_def)

lemma create_lookup_Some:
  assumes "create_lookup (Some key) d = Some j"
  shows "job_idempotency_key j = Some key \<and> is_active j \<and> j \<in> set (jobs d) \<and> key \<noteq> []"
  using assms by (auto simp: create_lookup_def dest: first_row_Some split: if_splits)

lemma create_lookup_None:
  "key \<noteq> [] \<Longrightarrow> create_lookup (Some key) d = None \<longleftrightarrow> active_count key d = 0"
  by (auto simp: create_lookup_def active_count_def count_rows_zero first_row_None)

lemma active_count_insert:
  "active_count key (insert_job j d) =
     active_count key d + (if job_idempotency_key j = Some key \<and> is_active j then 1 else 0)"
  by (simp add: active_count_def insert_job_def)

lemma new_job_fields [simp]:
  "job_idempotency_key (new_job now p k v key d) = key"
  "is_active (new_job now p k v key d)"
  "job_state (new_job now p k v key d) = QUEUED"
  "job_id (new_job now p k v key d) = next_job_id d"
  by (simp_all add: new_job_def is_active_def)

lemma create_job_unique_active:
  assumes "unique_active d"
  shows "unique_active (snd (create_job now p k v key d))"
proof (cases "create_lookup key d")
  case None
  have "active_count x (insert_job (new_job now p k v key d) d) \<le> 1" if "x \<noteq> []" for x
    using assms None that create_lookup_None [of x d]
    by (cases key) (auto simp: active_count_insert unique_active_def)
  then show ?thesis using None by (simp add: create_job_def create_insert_def unique_active_def Let_def)
qed (use assms in \<open>simp add: create_job_def\<close>)

lemma create_job_active:
  assumes "key \<noteq> []"
  shows "create_lookup (Some key) (snd (create_job now p k v (Some key) d))
    = Some (fst (create_job now p k v (Some key) d))"
proof (cases "create_lookup (Some key) d")
  case None
  have "first_row P t = None \<Longrightarrow> P r \<Longrightarrow> first_row P (t @ [r]) = Some r" for P t and r :: job
    by (induction t) (auto split: if_splits)
  then show ?thesis
    using None assms
    by (auto simp: create_job_def create_insert_def insert_job_def create_lookup_def Let_def)
qed (simp add: create_job_def)

text \<open>C14: Creating a job with an idempotency key keeps at most one active job per key, and is
  idempotent: a second call with the key returns the job of the first and writes nothing, and
  that job is active and carries the key.\<close>

theorem create_job_idempotent:
  assumes "unique_active d" and "key \<noteq> []"
    and "create_job now p k v (Some key) d = (j, d1)"
  shows "unique_active d1 \<and> active_count key d1 = 1
    \<and> j \<in> set (jobs d1) \<and> is_active j \<and> job_idempotency_key j = Some key
    \<and> create_job now2 p2 k2 v2 (Some key) d1 = (j, d1)"
proof -
  have u: "unique_active d1" using create_job_unique_active assms(1,3) by (metis snd_conv)
  have l: "create_lookup (Some key) d1 = Some j"
    using create_job_active assms(2,3) by (metis fst_conv snd_conv)
  then have "active_count key d1 \<noteq> 0" using create_lookup_None assms(2) by force
  then have "active_count key d1 = 1" using u assms(2) by (force simp: unique_active_def)
  then show ?thesis using u l create_lookup_Some [OF l] by (simp add: create_job_def)
qed

theorem create_job_idempotent_witness:
  "\<exists>j d1. create_job 5 ''default'' ''check_feeds'' (PDict []) (Some ''feeds'') empty_database
      = (j, d1) \<and> active_count ''feeds'' d1 = 1
    \<and> create_job 9 ''default'' ''check_feeds'' (PDict []) (Some ''feeds'') d1 = (j, d1)"
proof -
  obtain j d1 where
    c: "create_job 5 ''default'' ''check_feeds'' (PDict []) (Some ''feeds'') empty_database = (j, d1)"
    by (cases "create_job 5 ''default'' ''check_feeds'' (PDict []) (Some ''feeds'') empty_database")
  have "unique_active empty_database"
    by (simp add: unique_active_def active_count_def empty_database_def)
  from create_job_idempotent [OF this _ c] show ?thesis using c by auto
qed

text \<open>The lookup and the insert of \<open>create_job\<close> are two database calls with no transaction
  around them. When two callers both look up before either inserts, the table ends with two
  active jobs under one key, so the guarantee above holds only for calls that do not overlap.\<close>

theorem create_job_race:
  assumes "key \<noteq> []" and "create_lookup (Some key) d = None"
    and "snd (create_insert now1 p k v (Some key) d) = d1"
    and "snd (create_insert now2 p k v (Some key) d1) = d2"
  shows "active_count key d2 = 2 \<and> \<not> unique_active d2"
proof -
  have "active_count key d = 0" using assms(1,2) by (simp add: create_lookup_None)
  then have "active_count key d2 = 2"
    using assms(3,4) by (auto simp: create_insert_def active_count_insert Let_def)
  then show ?thesis using assms(1) by (force simp: unique_active_def)
qed

theorem create_job_race_witness:
  "active_count ''feeds'' (snd (create_insert 2 ''default'' ''check_feeds'' (PDict []) (Some ''feeds'')
     (snd (create_insert 1 ''default'' ''check_feeds'' (PDict []) (Some ''feeds'') empty_database)))) = 2"
proof -
  have "''feeds'' \<noteq> []" "create_lookup (Some ''feeds'') empty_database = None"
    by (simp_all add: create_lookup_def empty_database_def)
  from create_job_race [OF this refl refl] show ?thesis by blast
qed

text \<open>The stale-job reset touches a job only when it is running and was started (or last
  updated, when it has no start) at or before the cutoff; it then puts that job, and no other,
  back in the queue, where a worker can claim it again.\<close>

theorem make_stale_job_queued_reset:
  assumes "jobs_wf d" and "j \<in> set (jobs d)"
    and "make_stale_job_queued env now j d = Inr (True, j', d')"
  shows "job_state j = RUNNING
    \<and> (\<exists>n. py_int (py_strip env) = Some n \<and> 0 < n
         \<and> (case job_started_at j of Some t \<Rightarrow> t | None \<Rightarrow> job_updated_at j) \<le> now - seconds n)
    \<and> (\<forall>m. status_of d' m = (if m = job_id j then Some QUEUED else status_of d m))
    \<and> fst (claim_job later (job_id j) d') \<noteq> None"
proof -
  let ?started = "case job_started_at j of Some t \<Rightarrow> t | None \<Rightarrow> job_updated_at j"
  let ?f = "\<lambda>r. r\<lparr>job_state := QUEUED, job_error_message := job_error_message (stale_reset now j),
                  job_started_at := None, job_finished_at := None, job_updated_at := now\<rparr>"
  obtain c where run: "job_state j = RUNNING" and cut: "stale_running_job_cutoff env now = Inr (Some c)"
    and le: "?started \<le> c" and d': "d' = update_job (job_id j) ?f d"
    using assms(3)
    by (auto simp: make_stale_job_queued_def bind_result_Inr Let_def not_less
        split: if_splits option.splits)
  have row: "first_row (\<lambda>r. job_id r = job_id j) (jobs d) = Some j"
    using assms(1,2) first_row_key by (auto simp: jobs_wf_def)
  have st: "status_of d' m = (if m = job_id j then Some QUEUED else status_of d m)" for m
    unfolding d' by (simp add: status_of_update_job row)
  have "jobs_wf d'" unfolding d' using assms(1) by (simp add: jobs_wf_update_job)
  then have "fst (claim_job later (job_id j) d') \<noteq> None"
    using st job_table.claim_iff by simp
  then show ?thesis
    using run cut le st
    by (auto simp: stale_running_job_cutoff_def Let_def split: if_splits option.splits)
qed

definition running_job :: job where
  "running_job = sample_job\<lparr>job_state := RUNNING, job_started_at := Some 0\<rparr>"

definition running_db :: database where
  "running_db = empty_database\<lparr>jobs := [running_job], next_job_id := 2\<rparr>"

theorem make_stale_job_queued_reset_witness:
  "\<exists>j' d'. make_stale_job_queued ''60'' (seconds 90) running_job running_db = Inr (True, j', d')
     \<and> status_of d' 1 = Some QUEUED"
proof -
  have wf: "jobs_wf running_db" and mem: "running_job \<in> set (jobs running_db)"
    and id1: "job_id running_job = 1" and run: "job_state running_job = RUNNING"
    and st: "job_started_at running_job = Some 0"
    by (simp_all add: jobs_wf_def running_db_def running_job_def sample_job_def empty_database_def
        new_job_def)
  have "stale_running_job_cutoff ''60'' (seconds 90) = Inr (Some (seconds 30))" by code_simp
  then obtain j' d' where
    r: "make_stale_job_queued ''60'' (seconds 90) running_job running_db = Inr (True, j', d')"
    using run st by (simp add: make_stale_job_queued_def Let_def)
  from make_stale_job_queued_reset [OF wf mem r] show ?thesis using r id1 by auto
qed

text \<open>A stale cutoff set to a text of digits that Python's \<open>int\<close> refuses, such as a
  superscript two, makes every reset of a running job raise.\<close>

theorem stale_cutoff_superscript_raises:
  assumes "job_state j = RUNNING"
  shows "make_stale_job_queued [CHR 0xB2] now j d = Inl (ValueError [CHR 0xB2])"
proof -
  have "py_strip [CHR 0xB2] = [CHR 0xB2]" "py_isdigit [CHR 0xB2]" "py_int [CHR 0xB2] = None"
    by code_simp+
  then show ?thesis
    using assms by (simp add: make_stale_job_queued_def stale_running_job_cutoff_def)
qed

theorem stale_cutoff_superscript_raises_witness:
  "make_stale_job_queued [CHR 0xB2] 7 running_job running_db = Inl (ValueError [CHR 0xB2])"
  by (rule stale_cutoff_superscript_raises) (simp add: running_job_def)

end
