(* ===== verification/DateTime.thy ===== *)
theory DateTime
  imports PyText
begin

text \<open>
  The part of \<open>datetime\<close> the program uses: a UTC time, in microseconds since the epoch, as its
  calendar fields (proleptic Gregorian calendar) and its ISO 8601 text.
\<close>

record civil =
  cv_year :: int
  cv_month :: int
  cv_day :: int

text \<open>
  Days since the epoch to a date, counting years from March so that the leap day is the last
  day of its year.
\<close>

definition civil_of_days :: "int \<Rightarrow> civil" where
  "civil_of_days days =
     (let z = days + 719468;
          era = z div 146097;
          doe = z mod 146097;
          yoe = (doe - doe div 1460 + doe div 36524 - doe div 146096) div 365;
          doy = doe - (365 * yoe + yoe div 4 - yoe div 100);
          mp = (5 * doy + 2) div 153;
          month = (if mp < 10 then mp + 3 else mp - 9)
      in \<lparr>cv_year = yoe + era * 400 + (if month \<le> 2 then 1 else 0),
          cv_month = month, cv_day = doy - (153 * mp + 2) div 5 + 1\<rparr>)"

definition days_of_civil :: "civil \<Rightarrow> int" where
  "days_of_civil c =
     (let y = cv_year c - (if cv_month c \<le> 2 then 1 else 0);
          era = y div 400;
          yoe = y mod 400;
          mp = (if cv_month c > 2 then cv_month c - 3 else cv_month c + 9);
          doy = (153 * mp + 2) div 5 + cv_day c - 1;
          doe = yoe * 365 + yoe div 4 - yoe div 100 + doy
      in era * 146097 + doe - 719468)"

definition pad :: "nat \<Rightarrow> int \<Rightarrow> string" where
  "pad width n = (let s = str_of_int n in replicate (width - length s) CHR ''0'' @ s)"

abbreviation microseconds_per_day :: int where
  "microseconds_per_day \<equiv> 86400000000"

definition iso_date :: "int \<Rightarrow> string" where
  "iso_date t =
     (let c = civil_of_days (t div microseconds_per_day)
      in pad 4 (cv_year c) @ ''-'' @ pad 2 (cv_month c) @ ''-'' @ pad 2 (cv_day c))"

text \<open>\<open>strftime("%Y-%m-%dT%H")\<close>\<close>

definition iso_hour :: "int \<Rightarrow> string" where
  "iso_hour t = iso_date t @ ''T'' @ pad 2 (t mod microseconds_per_day div 3600000000)"

text \<open>\<open>isoformat()\<close> of an aware UTC time; the fraction is left out when it is zero.\<close>

definition iso_format :: "int \<Rightarrow> string" where
  "iso_format t =
     (let r = t mod microseconds_per_day; us = r mod 1000000 in
      iso_hour t @ '':'' @ pad 2 (r div 60000000 mod 60) @ '':'' @ pad 2 (r div 1000000 mod 60)
      @ (if us = 0 then [] else ''.'' @ pad 6 us) @ ''+00:00'')"

lemma iso_format_epoch: "iso_format 0 = ''1970-01-01T00:00:00+00:00''"
  by code_simp

end
