(* ===== verification/ScheduledJobs.thy ===== *)
theory ScheduledJobs
  imports Jobs DateTime
begin

text \<open>
  \<open>src/src/models/scheduler.py\<close>: turning due schedules into queued jobs. \<open>now\<close> is the instant
  the pass is run for, \<open>clock\<close> the later readings of \<open>timezone.now()\<close> inside it. A schedule is
  read again inside its transaction before it is used; the message of its job is published
  after the transaction, and a failure to publish ends the pass.
\<close>

section \<open>Idempotency keys\<close>

text \<open>
  \<open>string.Template.safe_substitute\<close>: \<open>$$\<close> is a dollar, \<open>$name\<close> and \<open>${name}\<close> are replaced when
  the name is known, and anything else stays as written.
\<close>

definition ident_start :: "char \<Rightarrow> bool" where
  "ident_start c \<longleftrightarrow>
     (let n = of_char c :: nat in (97 \<le> n \<and> n \<le> 122) \<or> (65 \<le> n \<and> n \<le> 90) \<or> n = 95)"

definition ident_char :: "char \<Rightarrow> bool" where
  "ident_char c \<longleftrightarrow> ident_start c \<or> is_decimal c"

text \<open>The text at a dollar sign: what it becomes, and what is left to read.\<close>

definition substitute_at :: "(string \<times> string) list \<Rightarrow> string \<Rightarrow> string \<times> string" where
  "substitute_at env s =
     (case s of
        [] \<Rightarrow> (''$'', [])
      | c # s' \<Rightarrow>
          if c = CHR ''$'' then (''$'', s')
          else if c = CHR ''{'' then
            (let name = takeWhile ident_char s'; rest = dropWhile ident_char s' in
             if name \<noteq> [] \<and> ident_start (hd name) \<and> rest \<noteq> [] \<and> hd rest = CHR ''}''
             then (case map_of env name of Some v \<Rightarrow> v | None \<Rightarrow> ''${'' @ name @ ''}'', tl rest)
             else (''$'', s))
          else if ident_start c then
            (let name = takeWhile ident_char s in
             (case map_of env name of Some v \<Rightarrow> v | None \<Rightarrow> CHR ''$'' # name,
              dropWhile ident_char s))
          else (''$'', s))"

lemma substitute_at_length: "length (snd (substitute_at env s)) \<le> length s"
proof (cases s)
  case (Cons c s')
  have "length (dropWhile ident_char s') \<le> length s'" "length (dropWhile ident_char s) \<le> length s"
    by (rule length_dropWhile_le)+
  then show ?thesis using Cons by (auto simp: substitute_at_def Let_def split del: option.split)
qed (simp add: substitute_at_def)

function safe_substitute :: "(string \<times> string) list \<Rightarrow> string \<Rightarrow> string" where
  "safe_substitute env [] = []"
| "safe_substitute env (c # s) =
     (if c = CHR ''$''
      then fst (substitute_at env s) @ safe_substitute env (snd (substitute_at env s))
      else c # safe_substitute env s)"
  by pat_completeness auto
termination
  by (relation "measure (length \<circ> snd)") (auto simp: less_Suc_eq_le substitute_at_length)

definition render_idempotency_key :: "scheduled_job \<Rightarrow> time \<Rightarrow> string" where
  "render_idempotency_key s due_at =
     (if sch_template s \<noteq> [] then
        safe_substitute
          [(''schedule_id'', str_of_int (sch_id s)), (''profile_id'', sch_profile_id s),
           (''job_type'', sch_job_type s), (''due_at'', iso_format due_at),
           (''due_date'', iso_date due_at), (''due_hour'', iso_hour due_at)] (sch_template s)
      else ''scheduled:'' @ str_of_int (sch_id s) @ '':'' @ sch_job_type s @ '':'' @ iso_format due_at)"

section \<open>The next run\<close>

definition interval_of :: "scheduled_job \<Rightarrow> int" where
  "interval_of s = max 60 (if sch_interval_seconds s = 0 then 60 else sch_interval_seconds s)"

text \<open>The catch-up loop; the interval is never below a minute, which is what ends it.\<close>

function catch_up :: "scheduled_job \<Rightarrow> time \<Rightarrow> time \<Rightarrow> time" where
  "catch_up s clock next_run =
     (if next_run \<le> clock then catch_up s clock (next_run + seconds (interval_of s)) else next_run)"
  by pat_completeness auto
termination
  by (relation "measure (\<lambda>(s, clock, next_run). nat (clock - next_run + 1))")
    (auto simp: interval_of_def)

declare catch_up.simps [simp del]

definition next_run_after :: "time \<Rightarrow> scheduled_job \<Rightarrow> time \<Rightarrow> time" where
  "next_run_after clock s due_at = catch_up s clock (due_at + seconds (interval_of s))"

section \<open>One pass\<close>

definition is_due :: "time \<Rightarrow> scheduled_job \<Rightarrow> bool" where
  "is_due now s \<longleftrightarrow> sch_enabled s \<and> sch_next_run_at s \<le> now"

text \<open>\<open>dict(payload or {})\<close>; a list is read as key and value pairs.\<close>

fun pairs_of :: "pyval list \<Rightarrow> error + pydict" where
  "pairs_of [] = Inr []"
| "pairs_of (PList [PStr k, v] # xs) = bind_result (pairs_of xs) (\<lambda>d. Inr ((k, v) # d))"
| "pairs_of (x # xs) = Inl (TypeError ''dict'')"

definition dict_of :: "pyval \<Rightarrow> error + pydict" where
  "dict_of v =
     (if \<not> truthy v then Inr []
      else case v of
        PDict d \<Rightarrow> Inr d
      | PList xs \<Rightarrow> bind_result (pairs_of xs) (\<lambda>d. Inr (foldl (\<lambda>acc (k, x). AList.update k x acc) [] d))
      | PStr s \<Rightarrow> Inl (ValueError ''dict'')
      | _ \<Rightarrow> Inl (TypeError ''dict''))"

definition scheduled_payload :: "scheduled_job \<Rightarrow> error + pydict" where
  "scheduled_payload s =
     bind_result (dict_of (sch_payload s)) (\<lambda>p.
       Inr (dset_default (dset_default p ''scheduled_job_id'' (PInt (sch_id s)))
              ''scheduled_due_at'' (PStr (iso_format (sch_next_run_at s)))))"

definition update_schedule ::
    "int \<Rightarrow> (scheduled_job \<Rightarrow> scheduled_job) \<Rightarrow> database \<Rightarrow> database" where
  "update_schedule n f d = d\<lparr>scheduled_jobs := update_where (\<lambda>s. sch_id s = n) f (scheduled_jobs d)\<rparr>"

text \<open>One iteration of the loop; \<open>None\<close> is a schedule skipped or disabled.\<close>

definition run_schedule ::
    "time \<Rightarrow> time \<Rightarrow> int \<Rightarrow> world \<Rightarrow> error + (int option \<times> world)" where
  "run_schedule now clock n w =
     (case row_at sch_id n (scheduled_jobs (db w)) of
        None \<Rightarrow> Inl (KeyError ''ScheduledJob'')
      | Some s \<Rightarrow>
          if \<not> is_due now s then Inr (None, w)
          else if parse_job_type (PStr (sch_job_type s)) = None then
            Inr (None, w\<lparr>db := update_schedule n
              (\<lambda>r. r\<lparr>sch_enabled := False, sch_updated_at := now\<rparr>) (db w)\<rparr>)
          else
            let due_at = sch_next_run_at s in
            bind_result (scheduled_payload s) (\<lambda>payload.
              let (j, d1) = create_job clock (sch_profile_id s) (sch_job_type s) (PDict payload)
                              (Some (render_idempotency_key s due_at)) (db w);
                  d2 = update_schedule n
                    (\<lambda>r. r\<lparr>sch_last_run_at := Some now,
                           sch_next_run_at := next_run_after clock s due_at,
                           sch_updated_at := now\<rparr>) d1
              in bind_result (publish_job (job_message j) (w\<lparr>db := d2\<rparr>)) (\<lambda>w'.
                   Inr (Some (job_id j), w'))))"

fun run_schedules ::
    "time \<Rightarrow> time \<Rightarrow> int list \<Rightarrow> world \<Rightarrow> error + (int list \<times> world)" where
  "run_schedules now clock [] w = Inr ([], w)"
| "run_schedules now clock (n # ns) w =
     bind_result (run_schedule now clock n w) (\<lambda>(r, w1).
       bind_result (run_schedules now clock ns w1) (\<lambda>(ids, w2).
         Inr ((case r of None \<Rightarrow> ids | Some i \<Rightarrow> i # ids), w2)))"

definition due_ids :: "time \<Rightarrow> int \<Rightarrow> database \<Rightarrow> int list" where
  "due_ids now limit d =
     map sch_id (take (nat (max 1 limit))
       (sort_key sch_next_run_at (filter (is_due now) (scheduled_jobs d))))"

definition enqueue_due_scheduled_jobs ::
    "time \<Rightarrow> time \<Rightarrow> int \<Rightarrow> world \<Rightarrow> error + (int list \<times> world)" where
  "enqueue_due_scheduled_jobs now clock limit w =
     run_schedules now clock (due_ids now limit (db w)) w"

section \<open>Facts\<close>

lemma interval_pos: "0 < seconds (interval_of s)"
  by (auto simp: interval_of_def)

lemma catch_up_facts:
  "clock < catch_up s clock r \<and>
   (\<exists>k\<ge>0. catch_up s clock r = r + k * seconds (interval_of s)) \<and>
   (catch_up s clock r = r \<or> catch_up s clock r - seconds (interval_of s) \<le> clock)"
proof (induction s clock r rule: catch_up.induct)
  case (1 s clock r)
  show ?case
  proof (cases "r \<le> clock")
    case True
    from "1.IH" [OF True] obtain k where k: "0 \<le> k"
      "catch_up s clock (r + seconds (interval_of s))
        = r + seconds (interval_of s) + k * seconds (interval_of s)" by blast
    then have "catch_up s clock (r + seconds (interval_of s)) = r + (k + 1) * seconds (interval_of s)"
      by (simp add: algebra_simps)
    then have "\<exists>k\<ge>0. catch_up s clock (r + seconds (interval_of s)) = r + k * seconds (interval_of s)"
      using k(1) by (intro exI [of _ "k + 1"]) simp
    then show ?thesis
      using "1.IH" [OF True] True by (subst (1 2 3 4) catch_up.simps) auto
  next
    case False
    then show ?thesis by (subst (1 2 3 4) catch_up.simps) (auto intro: exI [of _ 0])
  qed
qed

lemma update_schedule_frame [simp, frame_simps]:
  "jobs (update_schedule n f d) = jobs d"
  "next_job_id (update_schedule n f d) = next_job_id d"
  "scheduled_jobs (update_schedule n f d) = update_where (\<lambda>s. sch_id s = n) f (scheduled_jobs d)"
  by (simp_all add: update_schedule_def)

lemma create_job_row:
  assumes "jobs_wf d" and "create_job now p k v key d = (j, d1)"
  shows "row_at job_id (job_id j) (jobs d1) = Some j \<and> is_active j"
proof (cases "create_lookup key d")
  case None
  then have d1: "j = new_job now p k v key d" "d1 = insert_job j d"
    using assms(2) by (auto simp: create_job_def create_insert_def Let_def)
  then have "row_at job_id (job_id j) (jobs d) = None"
    using assms(1) by (force simp: jobs_wf_def first_row_None)
  then show ?thesis using d1 by (simp add: insert_job_def row_at_append)
next
  case (Some x)
  then have "x = j" "d1 = d" "j \<in> set (jobs d)" "is_active j"
    using assms(2) by (auto simp: create_job_def create_lookup_def dest!: first_row_Some split: if_splits)
  then show ?thesis using assms(1) row_at_mem [of job_id "jobs d" "job_id j" j] by (simp add: jobs_wf_def)
qed

definition active_status :: "database \<Rightarrow> int \<Rightarrow> bool" where
  "active_status d n \<longleftrightarrow> status_of d n = Some QUEUED \<or> status_of d n = Some RUNNING"

text \<open>What one iteration does to the schedules, the jobs and the broker.\<close>

definition pass_step :: "time \<Rightarrow> int list \<Rightarrow> world \<Rightarrow> int list \<Rightarrow> world \<Rightarrow> bool" where
  "pass_step now ns w ids w' \<longleftrightarrow>
     map sch_id (scheduled_jobs (db w')) = map sch_id (scheduled_jobs (db w))
     \<and> (\<forall>m. m \<notin> set ns \<longrightarrow>
          row_at sch_id m (scheduled_jobs (db w')) = row_at sch_id m (scheduled_jobs (db w)))
     \<and> (\<forall>m \<in> set ns. \<forall>s. row_at sch_id m (scheduled_jobs (db w')) = Some s \<longrightarrow> \<not> is_due now s)
     \<and> (\<exists>ms. broker w' = broker w @ ms
          \<and> map (\<lambda>m. map_of (pub_body m) ''job_id'') ms = map (\<lambda>i. Some (PInt i)) ids)
     \<and> jobs_wf (db w')
     \<and> (\<forall>m. status_of (db w) m \<noteq> None \<longrightarrow> status_of (db w') m = status_of (db w) m)
     \<and> (\<forall>i \<in> set ids. active_status (db w') i)"

lemma run_schedule_step:
  assumes "run_schedule now clock n w = Inr (r, w')" and "now \<le> clock" and "jobs_wf (db w)"
  shows "pass_step now [n] w (case r of None \<Rightarrow> [] | Some i \<Rightarrow> [i]) w'"
proof -
  obtain s where s: "row_at sch_id n (scheduled_jobs (db w)) = Some s"
    using assms(1) by (auto simp: run_schedule_def split: option.splits)
  show ?thesis
  proof (cases "is_due now s \<and> parse_job_type (PStr (sch_job_type s)) \<noteq> None")
    case False
    then show ?thesis
      using assms s
      by (auto simp: run_schedule_def pass_step_def row_at_update_key map_update_where_frame is_due_def
          jobs_wf_def status_of_def split: if_splits)
  next
    case True
    define due where "due = sch_next_run_at s"
    obtain payload where p: "scheduled_payload s = Inr payload"
      using assms(1) s True by (auto simp: run_schedule_def bind_result_Inr Let_def)
    obtain j d1 where c: "create_job clock (sch_profile_id s) (sch_job_type s) (PDict payload)
        (Some (render_idempotency_key s due)) (db w) = (j, d1)"
      by (cases "create_job clock (sch_profile_id s) (sch_job_type s) (PDict payload)
        (Some (render_idempotency_key s due)) (db w)")
    define f :: "scheduled_job \<Rightarrow> scheduled_job" where "f = (\<lambda>r. r\<lparr>sch_last_run_at := Some now,
        sch_next_run_at := next_run_after clock s due, sch_updated_at := now\<rparr>)"
    define w1 where "w1 = w\<lparr>db := update_schedule n f d1\<rparr>"
    obtain m where m: "publish_job (job_message j) w1 = Inr (w1\<lparr>broker := broker w1 @ [m]\<rparr>)"
      "map_of (pub_body m) ''job_id'' = Some (PInt (job_id j))"
      by (rule publish_job_message)
    have w': "r = Some (job_id j)" "w' = w1\<lparr>broker := broker w1 @ [m]\<rparr>"
      using assms(1) s True p c m(1)
      by (auto simp: run_schedule_def Let_def due_def [symmetric] f_def [symmetric] w1_def)
    have sch: "scheduled_jobs d1 = scheduled_jobs (db w)"
      using create_job_frame(7) c by (metis snd_conv)
    have wf1: "jobs_wf d1" using jobs_wf_create [OF assms(3)] c by (metis snd_conv)
    have st: "status_of (db w) x \<noteq> None \<Longrightarrow> status_of d1 x = status_of (db w) x" for x
      using status_of_create c by (metis snd_conv)
    have "active_status d1 (job_id j)"
      using create_job_row [OF assms(3) c] by (auto simp: active_status_def status_of_def is_active_def)
    then show ?thesis
      using w' m(2) sch wf1 st s
        catch_up_facts [of clock s "due + seconds (interval_of s)"] assms(2)
      by (auto simp: pass_step_def w1_def f_def row_at_update_key map_update_where_frame is_due_def
          next_run_after_def jobs_wf_def status_of_def active_status_def)
  qed
qed

lemma pass_step_trans:
  assumes "pass_step now ns w ids w1" and "pass_step now ns' w1 ids' w2"
    and "set ns \<inter> set ns' = {}"
  shows "pass_step now (ns @ ns') w (ids @ ids') w2"
  using assms unfolding pass_step_def active_status_def
  by (auto simp: disjoint_iff)

lemma run_schedules_step:
  "run_schedules now clock ns w = Inr (ids, w') \<Longrightarrow> now \<le> clock \<Longrightarrow> jobs_wf (db w) \<Longrightarrow>
   distinct ns \<Longrightarrow> pass_step now ns w ids w'"
proof (induction ns arbitrary: w ids)
  case (Cons n ns)
  obtain r w1 ids1 where step: "run_schedule now clock n w = Inr (r, w1)"
    and rest: "run_schedules now clock ns w1 = Inr (ids1, w')"
    and ids: "ids = (case r of None \<Rightarrow> [] | Some i \<Rightarrow> [i]) @ ids1"
    using Cons.prems(1) by (auto simp: bind_result_Inr split: prod.splits option.splits)
  have p1: "pass_step now [n] w (case r of None \<Rightarrow> [] | Some i \<Rightarrow> [i]) w1"
    using step Cons.prems(2,3) by (rule run_schedule_step)
  then have "pass_step now ns w1 ids1 w'"
    using Cons.IH [OF rest] Cons.prems by (simp add: pass_step_def)
  from pass_step_trans [OF p1 this] show ?case using ids Cons.prems(4) by simp
qed (simp add: pass_step_def)

section \<open>Properties\<close>

text \<open>The next run of a schedule is in the future, a whole number of intervals after the run
  just taken, and the first such instant: missed runs are skipped, never queued up.\<close>

theorem next_run_after_first_future:
  "clock < next_run_after clock s due
   \<and> (\<exists>k\<ge>1. next_run_after clock s due = due + k * seconds (interval_of s))
   \<and> (next_run_after clock s due = due + seconds (interval_of s)
      \<or> next_run_after clock s due - seconds (interval_of s) \<le> clock)"
proof -
  note f = catch_up_facts [of clock s "due + seconds (interval_of s)"]
  then obtain k where "0 \<le> k" "next_run_after clock s due
      = due + seconds (interval_of s) + k * seconds (interval_of s)"
    unfolding next_run_after_def by blast
  then have "next_run_after clock s due = due + (k + 1) * seconds (interval_of s)"
    by (simp add: algebra_simps)
  then have "\<exists>k\<ge>1. next_run_after clock s due = due + k * seconds (interval_of s)"
    using \<open>0 \<le> k\<close> by (intro exI [of _ "k + 1"]) simp
  then show ?thesis using f by (simp add: next_run_after_def)
qed

lemma due_ids_set: "set (due_ids now limit d) \<subseteq> sch_id ` {s \<in> set (scheduled_jobs d). is_due now s}"
  unfolding due_ids_def by (auto dest!: in_set_takeD)

lemma distinct_due_ids:
  assumes "distinct (map sch_id (scheduled_jobs d))"
  shows "distinct (due_ids now limit d)"
proof -
  have inj: "inj_on sch_id (set (scheduled_jobs d))" and dist: "distinct (scheduled_jobs d)"
    using assms by (simp_all add: distinct_map)
  let ?due = "take (nat (max 1 limit)) (sort_key sch_next_run_at (filter (is_due now) (scheduled_jobs d)))"
  have "set ?due \<subseteq> set (scheduled_jobs d)" by (auto dest!: in_set_takeD)
  then have "inj_on sch_id (set ?due)" using inj inj_on_subset by blast
  moreover have "distinct ?due" using dist by (simp add: distinct_take)
  ultimately show ?thesis unfolding due_ids_def by (simp only: distinct_map simp_thms)
qed

lemma run_schedules_length:
  "run_schedules now clock ns w = Inr (ids, w') \<Longrightarrow> length ids \<le> length ns"
  by (induction ns arbitrary: w ids)
    (fastforce simp: bind_result_Inr split: prod.splits option.splits)+

text \<open>C34: A pass over the schedules enqueues at most the limit, publishes one message per job it
  reports, in that order, each naming a job that is queued or running; it leaves no schedule it
  took due, and touches no other schedule.\<close>

theorem enqueue_due_pass:
  assumes "enqueue_due_scheduled_jobs now clock limit w = Inr (ids, w')"
    and "now \<le> clock" and "jobs_wf (db w)" and "distinct (map sch_id (scheduled_jobs (db w)))"
  shows "int (length ids) \<le> max 1 limit
    \<and> (\<exists>ms. broker w' = broker w @ ms
         \<and> map (\<lambda>m. map_of (pub_body m) ''job_id'') ms = map (\<lambda>i. Some (PInt i)) ids)
    \<and> (\<forall>i \<in> set ids. active_status (db w') i)
    \<and> (\<forall>n \<in> set (due_ids now limit (db w)). \<forall>s.
         row_at sch_id n (scheduled_jobs (db w')) = Some s \<longrightarrow> \<not> is_due now s)
    \<and> (\<forall>n. n \<notin> set (due_ids now limit (db w)) \<longrightarrow>
         row_at sch_id n (scheduled_jobs (db w')) = row_at sch_id n (scheduled_jobs (db w)))"
proof -
  let ?ns = "due_ids now limit (db w)"
  have run: "run_schedules now clock ?ns w = Inr (ids, w')"
    using assms(1) by (simp add: enqueue_due_scheduled_jobs_def)
  have "pass_step now ?ns w ids w'"
    using run assms(2,3) distinct_due_ids [OF assms(4)] by (rule run_schedules_step)
  moreover have "length ids \<le> length ?ns" using run by (rule run_schedules_length)
  moreover have "length ?ns \<le> nat (max 1 limit)" by (simp add: due_ids_def)
  ultimately show ?thesis unfolding pass_step_def by auto
qed

definition hourly_schedule :: scheduled_job where
  "hourly_schedule = \<lparr>sch_id = 1, sch_profile_id = ''default'', sch_job_type = ''update_downloads'',
     sch_enabled = True, sch_interval_seconds = 3600, sch_payload = PDict [],
     sch_template = ''key:$schedule_id'', sch_next_run_at = 0, sch_last_run_at = None,
     sch_created_at = 0, sch_updated_at = 0\<rparr>"

definition schedule_world :: world where
  "schedule_world = \<lparr>db = empty_database\<lparr>scheduled_jobs := [hourly_schedule], next_schedule_id := 2\<rparr>,
     broker = [], files = (\<lambda>_. None)\<rparr>"

lemma hourly_pass:
  "\<exists>i w'. enqueue_due_scheduled_jobs 5 5 100 schedule_world = Inr ([i], w')"
proof -
  have p: "scheduled_payload hourly_schedule
      = Inr [(''scheduled_job_id'', PInt 1), (''scheduled_due_at'', PStr (iso_format 0))]"
    by (simp add: scheduled_payload_def dict_of_def hourly_schedule_def dset_default_def)
  obtain j d1 where c: "create_job 5 ''default'' ''update_downloads''
      (PDict [(''scheduled_job_id'', PInt 1), (''scheduled_due_at'', PStr (iso_format 0))])
      (Some (render_idempotency_key hourly_schedule 0)) (db schedule_world) = (j, d1)"
    by (metis prod.collapse)
  obtain m where m: "publish_job (job_message j) (schedule_world\<lparr>db := update_schedule 1
      (\<lambda>r. r\<lparr>sch_last_run_at := Some 5, sch_next_run_at := next_run_after 5 hourly_schedule 0,
             sch_updated_at := 5\<rparr>) d1\<rparr>) = Inr m"
    by (metis publish_job_message)
  have "due_ids 5 100 (db schedule_world) = [1]"
    by (simp add: due_ids_def schedule_world_def hourly_schedule_def is_due_def)
  moreover have "run_schedule 5 5 1 schedule_world = Inr (Some (job_id j), m)"
  proof -
    have f: "row_at sch_id 1 (scheduled_jobs (db schedule_world)) = Some hourly_schedule"
      "is_due 5 hourly_schedule" "sch_next_run_at hourly_schedule = 0"
      "sch_job_type hourly_schedule = ''update_downloads''"
      "sch_profile_id hourly_schedule = ''default''"
      by (simp_all add: schedule_world_def hourly_schedule_def is_due_def)
    show ?thesis using m by (simp add: run_schedule_def f p c Let_def)
  qed
  ultimately show ?thesis by (simp add: enqueue_due_scheduled_jobs_def)
qed

lemma schedule_world_wf:
  "jobs_wf (db schedule_world)" "distinct (map sch_id (scheduled_jobs (db schedule_world)))"
  by (simp_all add: schedule_world_def jobs_wf_def empty_database_def)

theorem enqueue_due_pass_witness:
  "\<exists>i w'. enqueue_due_scheduled_jobs 5 5 100 schedule_world = Inr ([i], w')
     \<and> active_status (db w') i \<and> length (broker w') = 1"
proof -
  obtain i w' where r: "enqueue_due_scheduled_jobs 5 5 100 schedule_world = Inr ([i], w')"
    using hourly_pass by blast
  have "(5::int) \<le> 5" by simp
  note p = enqueue_due_pass [OF r this schedule_world_wf]
  then obtain ms where "broker w' = broker schedule_world @ ms"
    "map (\<lambda>m. map_of (pub_body m) ''job_id'') ms = [Some (PInt i)]" by auto
  then have "length (broker w') = 1" by (auto simp: schedule_world_def)
  then show ?thesis using r p by auto
qed

text \<open>When no more schedules are due than the limit, one pass clears them all: a second pass for
  the same instant enqueues nothing and changes nothing.\<close>

theorem enqueue_due_idempotent:
  assumes "enqueue_due_scheduled_jobs now clock limit w = Inr (ids, w')"
    and "now \<le> clock" and "jobs_wf (db w)" and "distinct (map sch_id (scheduled_jobs (db w)))"
    and "int (length (filter (is_due now) (scheduled_jobs (db w)))) \<le> max 1 limit"
  shows "enqueue_due_scheduled_jobs now clock' limit w' = Inr ([], w')"
proof -
  let ?ns = "due_ids now limit (db w)"
  have step: "pass_step now ?ns w ids w'"
    using assms(1) unfolding enqueue_due_scheduled_jobs_def
    by (rule run_schedules_step [OF _ assms(2,3) distinct_due_ids [OF assms(4)]])
  have "set ?ns = sch_id ` set (filter (is_due now) (scheduled_jobs (db w)))"
    unfolding due_ids_def using assms(5) by simp
  then have ns: "m \<notin> set ?ns \<Longrightarrow> row_at sch_id m (scheduled_jobs (db w)) = Some s \<Longrightarrow> \<not> is_due now s"
    for m s by (auto dest!: first_row_Some)
  have dist: "distinct (map sch_id (scheduled_jobs (db w')))"
    using step assms(4) by (simp add: pass_step_def)
  have "\<not> is_due now s" if "s \<in> set (scheduled_jobs (db w'))" for s
  proof -
    have "row_at sch_id (sch_id s) (scheduled_jobs (db w')) = Some s"
      using dist that by (rule first_row_key)
    then show ?thesis using step ns by (cases "sch_id s \<in> set ?ns") (auto simp: pass_step_def)
  qed
  then have "filter (is_due now) (scheduled_jobs (db w')) = []" by (simp add: filter_empty_conv)
  then show ?thesis by (simp add: enqueue_due_scheduled_jobs_def due_ids_def)
qed

theorem enqueue_due_idempotent_witness:
  "\<exists>i w'. enqueue_due_scheduled_jobs 5 5 100 schedule_world = Inr ([i], w')
     \<and> enqueue_due_scheduled_jobs 5 9 100 w' = Inr ([], w')"
proof -
  obtain i w' where r: "enqueue_due_scheduled_jobs 5 5 100 schedule_world = Inr ([i], w')"
    using hourly_pass by blast
  have le: "(5::int) \<le> 5" by simp
  have "int (length (filter (is_due 5) (scheduled_jobs (db schedule_world)))) \<le> max 1 100"
    by (simp add: schedule_world_def)
  from enqueue_due_idempotent [OF r le schedule_world_wf this] show ?thesis using r by blast
qed

end
