(* ===== verification/Paths.thy ===== *)
theory Paths
  imports PyText
begin

text \<open>
  The part of \<open>pathlib\<close> the program uses, on POSIX paths: a path is absolute or not and has a
  list of components, empty ones and \<open>.\<close> dropped. What depends on the file system and the
  user (\<open>resolve\<close>, \<open>expanduser\<close>) is an argument of the operations that call it.
\<close>

datatype path = Path bool "string list"

primrec path_parts :: "path \<Rightarrow> string list" where
  "path_parts (Path a ps) = ps"

primrec is_absolute :: "path \<Rightarrow> bool" where
  "is_absolute (Path a ps) = a"

fun split_on :: "char \<Rightarrow> string \<Rightarrow> string list" where
  "split_on c [] = [[]]"
| "split_on c (x # xs) =
     (if x = c then [] # split_on c xs
      else case split_on c xs of [] \<Rightarrow> [[x]] | w # ws \<Rightarrow> (x # w) # ws)"

definition kept_part :: "string \<Rightarrow> bool" where
  "kept_part p \<longleftrightarrow> p \<noteq> [] \<and> p \<noteq> ''.''"

definition path_of :: "string \<Rightarrow> path" where
  "path_of s = Path (take 1 s = ''/'') (filter kept_part (split_on CHR ''/'' s))"

primrec path_str :: "path \<Rightarrow> string" where
  "path_str (Path a ps) =
     (if a then CHR ''/'' # join_with ''/'' ps else if ps = [] then ''.'' else join_with ''/'' ps)"

text \<open>\<open>p / q\<close>: an absolute right side replaces the left.\<close>

definition path_join :: "path \<Rightarrow> path \<Rightarrow> path" where
  "path_join p q = (if is_absolute q then q else Path (is_absolute p) (path_parts p @ path_parts q))"

definition path_name :: "path \<Rightarrow> string" where
  "path_name p = (if path_parts p = [] then [] else last (path_parts p))"

definition path_parent :: "path \<Rightarrow> path" where
  "path_parent p = Path (is_absolute p) (butlast (path_parts p))"

text \<open>
  The suffix starts at the last dot of the name, unless that is its first or last character.
\<close>

definition dot_split :: "string \<Rightarrow> string \<times> string" where
  "dot_split name =
     (let r = rev name;
          ext = takeWhile (\<lambda>c. c \<noteq> CHR ''.'') r;
          rest = dropWhile (\<lambda>c. c \<noteq> CHR ''.'') r
      in if rest = [] \<or> tl rest = [] \<or> ext = [] then (name, [])
         else (rev (tl rest), CHR ''.'' # rev ext))"

definition path_suffix :: "path \<Rightarrow> string" where
  "path_suffix p = snd (dot_split (path_name p))"

definition path_stem :: "path \<Rightarrow> string" where
  "path_stem p = fst (dot_split (path_name p))"

definition with_name :: "path \<Rightarrow> string \<Rightarrow> path" where
  "with_name p name = Path (is_absolute p) (butlast (path_parts p) @ [name])"

definition with_suffix :: "path \<Rightarrow> string \<Rightarrow> path" where
  "with_suffix p suf = with_name p (path_stem p @ suf)"

text \<open>\<open>p.relative_to(root)\<close>; \<open>None\<close> is its \<open>ValueError\<close>.\<close>

definition relative_to :: "path \<Rightarrow> path \<Rightarrow> path option" where
  "relative_to p root =
     (if is_absolute p = is_absolute root \<and> prefix (path_parts root) (path_parts p)
      then Some (Path False (drop (length (path_parts root)) (path_parts p))) else None)"

definition endswith :: "string \<Rightarrow> string \<Rightarrow> bool" where
  "endswith suf s \<longleftrightarrow> suffix suf s"

section \<open>Facts\<close>

lemma split_on_nonempty [simp]: "split_on c s \<noteq> []"
  by (induction s) (auto split: list.split)

lemma split_on_no_sep: "c \<notin> set w \<Longrightarrow> split_on c w = [w]"
  by (induction w) auto

lemma split_on_append: "c \<notin> set w \<Longrightarrow> split_on c (w @ c # s) = w # split_on c s"
  by (induction w) auto

lemma split_join:
  "ps \<noteq> [] \<Longrightarrow> \<forall>p \<in> set ps. c \<notin> set p \<Longrightarrow> split_on c (join_with [c] ps) = ps"
  by (induction ps rule: induct_list012) (simp_all add: split_on_no_sep split_on_append)

text \<open>Components of a path that was read: not empty, not a dot, without a slash.\<close>

definition good_part :: "string \<Rightarrow> bool" where
  "good_part p \<longleftrightarrow> kept_part p \<and> CHR ''/'' \<notin> set p"

lemma join_with_hd:
  "ps \<noteq> [] \<Longrightarrow> hd ps \<noteq> [] \<Longrightarrow> take 1 (join_with sep ps) = take 1 (hd ps)"
  by (cases ps rule: remdups_adj.cases) (auto simp: neq_Nil_conv)

lemma path_of_str:
  assumes "\<forall>p \<in> set (path_parts q). good_part p"
  shows "path_of (path_str q) = q"
proof -
  obtain a ps where q: "q = Path a ps" by (cases q)
  have good: "\<forall>p \<in> set ps. kept_part p" "\<forall>p \<in> set ps. CHR ''/'' \<notin> set p"
    using assms q by (auto simp: good_part_def)
  then have keep: "filter kept_part ps = ps" by simp
  show ?thesis
  proof (cases "ps = []")
    case True
    then show ?thesis by (simp add: q path_of_def kept_part_def)
  next
    case False
    then have sp: "split_on CHR ''/'' (join_with ''/'' ps) = ps"
      using good by (intro split_join) auto
    have h: "hd ps \<noteq> []" "CHR ''/'' \<notin> set (hd ps)"
      using good False by (auto simp: kept_part_def)
    then have "take 1 (join_with ''/'' ps) \<noteq> ''/''"
      using join_with_hd [OF False, of "''/''"] by (cases "hd ps") auto
    then show ?thesis
      using False sp keep by (auto simp: q path_of_def kept_part_def)
  qed
qed

lemma relative_to_join:
  "\<not> is_absolute q \<Longrightarrow> relative_to (path_join root q) root = Some q"
  by (cases q) (auto simp: relative_to_def path_join_def)

lemma join_relative_to:
  "relative_to p root = Some q \<Longrightarrow> path_join root q = p"
  by (cases p) (auto simp: relative_to_def path_join_def prefix_def split: if_splits)

lemma dot_split_concat: "fst (dot_split n) @ snd (dot_split n) = n"
proof -
  let ?P = "\<lambda>c. c \<noteq> CHR ''.''"
  show ?thesis
  proof (cases "dropWhile ?P (rev n)")
    case (Cons d rest)
    then have "d = CHR ''.''" using hd_dropWhile [of ?P "rev n"] by force
    then have "rev n = takeWhile ?P (rev n) @ CHR ''.'' # rest"
      using Cons takeWhile_dropWhile_id [of ?P "rev n"] by metis
    then have "n = rev rest @ CHR ''.'' # rev (takeWhile ?P (rev n))"
      by (metis append.assoc append_Cons append_Nil rev.simps(2) rev_append rev_rev_ident)
    then show ?thesis using Cons by (auto simp: dot_split_def Let_def)
  qed (simp add: dot_split_def Let_def)
qed

end
