(* ===== verification/Settings.thy ===== *)
theory Settings
  imports Models Paths
begin

text \<open>\<open>src/src/api/services/settings.py\<close>: the settings of a profile and its output directory.\<close>

definition PROFILE_DEFAULTS :: "(string \<times> string) list" where
  "PROFILE_DEFAULTS =
     [(''output_root'', ''./downloads/default''), (''processing_workers'', ''2''),
      (''auto_update_minutes'', ''20''), (''auto_delete_content_days'', ''0''),
      (''manual_upload_delete_explicit_content'', ''0''), (''audio_format'', ''mp3''),
      (''video_format'', ''mp4''), (''video_codec'', ''h264''), (''ffmpeg_path'', ''ffmpeg''),
      (''audio_quality'', ''0''), (''ffmpeg_audio_filter'', ''loudnorm=I=-14:TP=-1.5:LRA=11''),
      (''ytdlp_video_max_height'', ''720''), (''max_downloads'', ''3''),
      (''js_runtime_path'', ''qjs'')]"

definition dict_update :: "(string \<times> 'v) list \<Rightarrow> (string \<times> 'v) list \<Rightarrow> (string \<times> 'v) list" where
  "dict_update d kvs = foldl (\<lambda>acc (k, v). AList.update k v acc) d kvs"

definition profile_settings :: "database \<Rightarrow> string \<Rightarrow> (string \<times> string) list" where
  "profile_settings d profile =
     dict_update (dict_update (AList.update ''output_root'' (''./downloads/'' @ profile) PROFILE_DEFAULTS)
         (map (\<lambda>r. (app_key r, app_value r)) (app_config d)))
       (map (\<lambda>r. (pc_key r, pc_value r)) (filter (\<lambda>r. pc_profile_id r = profile) (profile_config d)))"

text \<open>The text of the output root before \<open>expanduser\<close> and \<open>resolve\<close>.\<close>

definition output_root_text :: "database \<Rightarrow> string \<Rightarrow> string" where
  "output_root_text d profile =
     (let own = text_of (profile_value d profile ''output_root'');
          app = text_of (app_value_of d ''output_root'')
      in if own \<noteq> [] then own else if app \<noteq> [] then app else ''./downloads/default'')"

definition profile_output_root :: "(path \<Rightarrow> path) \<Rightarrow> database \<Rightarrow> string \<Rightarrow> path" where
  "profile_output_root resolve d profile = resolve (path_of (output_root_text d profile))"

section \<open>Facts\<close>

lemma map_of_dict_update:
  "map_of (dict_update d kvs) k = (case map_of (rev kvs) k of Some v \<Rightarrow> Some v | None \<Rightarrow> map_of d k)"
  unfolding dict_update_def
  by (induction kvs arbitrary: d) (auto simp: map_add_def split: option.splits)

lemma settings_precedence:
  assumes "distinct (map app_key (app_config d))"
    and "distinct (map (\<lambda>r. (pc_profile_id r, pc_key r)) (profile_config d))"
  shows "map_of (profile_settings d profile) k =
    (case profile_value d profile k of
       Some v \<Rightarrow> Some v
     | None \<Rightarrow>
         (case app_value_of d k of
            Some v \<Rightarrow> Some v
          | None \<Rightarrow> if k = ''output_root'' then Some (''./downloads/'' @ profile)
                    else map_of PROFILE_DEFAULTS k))"
proof -
  have app: "map_of (rev (map (\<lambda>r. (app_key r, app_value r)) t)) k =
      map_option app_value (row_at app_key k t)"
    if "distinct (map app_key t)" for t
    using that by (induction t) (auto simp: map_add_def first_row_None image_iff split: option.splits dest!: first_row_Some)
  have own: "map_of (rev (map (\<lambda>r. (pc_key r, pc_value r)) (filter (\<lambda>r. pc_profile_id r = profile) t))) k =
      map_option pc_value (first_row (\<lambda>r. pc_profile_id r = profile \<and> pc_key r = k) t)"
    if "distinct (map (\<lambda>r. (pc_profile_id r, pc_key r)) t)" for t
    using that
    by (induction t) (auto simp: map_add_def first_row_None image_iff split: option.splits dest!: first_row_Some)
  show ?thesis
    using app [OF assms(1)] own [OF assms(2)]
    by (auto simp: profile_settings_def map_of_dict_update profile_value_def app_value_of_def
        split: option.split)
qed

text \<open>A profile's own value of a setting wins over the application-wide value, which wins over
  the default; other profiles' values have no influence.\<close>

theorem profile_settings_precedence:
  assumes "distinct (map app_key (app_config d))"
    and "distinct (map (\<lambda>r. (pc_profile_id r, pc_key r)) (profile_config d))"
  shows "map_of (profile_settings d profile) k =
    (case profile_value d profile k of
       Some v \<Rightarrow> Some v
     | None \<Rightarrow>
         (case app_value_of d k of
            Some v \<Rightarrow> Some v
          | None \<Rightarrow> if k = ''output_root'' then Some (''./downloads/'' @ profile)
                    else map_of PROFILE_DEFAULTS k))"
  using assms by (rule settings_precedence)

theorem profile_settings_precedence_witness:
  "map_of (profile_settings empty_database ''kids'') ''output_root'' = Some ''./downloads/kids''"
proof -
  have "distinct (map app_key (app_config empty_database))"
    "distinct (map (\<lambda>r. (pc_profile_id r, pc_key r)) (profile_config empty_database))"
    by (simp_all add: empty_database_def)
  from profile_settings_precedence [OF this] show ?thesis
    by (simp add: profile_value_def app_value_of_def empty_database_def)
qed

text \<open>The settings shown for a profile and the directory its files are served from disagree for
  a profile with no configured root, when there is no application-wide one either: the settings
  say \<open>./downloads/\<close> and the profile, the streaming code uses \<open>./downloads/default\<close>, which is
  the directory the settings give to the default profile.\<close>

theorem output_root_divergence:
  assumes "profile_value d profile ''output_root'' = None"
    and "app_value_of d ''output_root'' = None"
    and "distinct (map app_key (app_config d))"
    and "distinct (map (\<lambda>r. (pc_profile_id r, pc_key r)) (profile_config d))"
  shows "map_of (profile_settings d profile) ''output_root'' = Some (''./downloads/'' @ profile)
    \<and> output_root_text d profile = ''./downloads/default''"
  using assms settings_precedence [OF assms(3,4), of profile "''output_root''"]
  by (simp add: output_root_text_def)

theorem output_root_divergence_witness:
  "map_of (profile_settings empty_database ''kids'') ''output_root''
   \<noteq> Some (output_root_text empty_database ''kids'')"
proof -
  have "profile_value empty_database ''kids'' ''output_root'' = None"
    "app_value_of empty_database ''output_root'' = None"
    "distinct (map app_key (app_config empty_database))"
    "distinct (map (\<lambda>r. (pc_profile_id r, pc_key r)) (profile_config empty_database))"
    by (simp_all add: empty_database_def profile_value_def app_value_of_def)
  from output_root_divergence [OF this] show ?thesis by simp
qed

end
