(* ===== verification/Library.thy ===== *)
theory Library
  imports Settings DateTime "HOL-Library.Product_Lexorder"
begin

text \<open>
  \<open>src/src/api/services/library.py\<close> and \<open>src/src/api/playback/service.py\<close>: what a profile's
  library shows, page by page, which episode plays next, and the playback progress of an
  episode. A query set is a filtered list of rows; \<open>order_by("-last_seen_at", "-id")\<close> sorts by
  the negated columns.
\<close>

section \<open>Decoration\<close>

definition round_half_even :: "rat \<Rightarrow> int" where
  "round_half_even q =
     (let f = \<lfloor>q\<rfloor>; r = q - of_int f in
      if r < 1 / 2 then f else if 1 / 2 < r then f + 1 else if even f then f else f + 1)"

text \<open>\<open>f"{value:.2f}"\<close>\<close>

definition fmt2 :: "rat \<Rightarrow> string" where
  "fmt2 q = (let n = round_half_even (q * 100)
     in (if n < 0 then ''-'' else []) @ str_of_int (\<bar>n\<bar> div 100) @ ''.'' @ pad 2 (\<bar>n\<bar> mod 100))"

text \<open>\<open>f"{x:.3f}"\<close>.\<close>

definition fixed3 :: "rat \<Rightarrow> string" where
  "fixed3 q =
     (let n = round_half_even (q * 1000); m = \<bar>n\<bar> in
      (if q < 0 then ''-'' else []) @ str_of_int (m div 1000) @ ''.'' @ pad 3 (m mod 1000))"

text \<open>\<open>human_size\<close>; \<open>None\<close> is the dash shown for no sz.\<close>

fun size_in_units :: "string list \<Rightarrow> rat \<Rightarrow> string" where
  "size_in_units [] v = fmt2 v @ '' GB''"
| "size_in_units (u # us) v =
     (if v < 1024 \<or> u = ''GB''
      then (if u \<noteq> ''B'' then fmt2 v @ '' '' @ u else str_of_int \<lfloor>v\<rfloor> @ '' B'')
      else size_in_units us (v / 1024))"

definition human_size :: "int option \<Rightarrow> string option" where
  "human_size sz =
     (case sz of
        None \<Rightarrow> None
      | Some n \<Rightarrow> if n = 0 then None
                   else Some (size_in_units [''B'', ''KB'', ''MB'', ''GB''] (of_int n)))"

definition human_duration :: "rat \<Rightarrow> string" where
  "human_duration s =
     (let tot = rat_trunc s; hours = tot div 3600; minutes = tot mod 3600 div 60 in
      if hours \<noteq> 0 then str_of_int hours @ ''h '' @ str_of_int minutes @ ''m''
      else str_of_int minutes @ ''m'')"

record display =
  display_size :: "string option"
  display_type :: string
  display_kind :: string
  status_label :: string
  status_class :: string
  has_subtitles :: bool

definition path_ext :: "string \<Rightarrow> string" where
  "path_ext s = dropWhile (\<lambda>c. c = CHR ''.'') (path_suffix (path_of s))"

definition media_ext :: "download \<Rightarrow> string" where
  "media_ext r = (if text_of (dl_file_ext r) \<noteq> [] then text_of (dl_file_ext r)
                  else path_ext (text_of (dl_file_path r)))"

definition video_exts :: "string list" where
  "video_exts = [''mp4'', ''mkv'', ''webm'', ''mov'']"

definition kind_of_ext :: "string \<Rightarrow> string" where
  "kind_of_ext e = (if e \<in> set video_exts then ''video''
                    else if e = ''pdf'' then ''document'' else ''audio'')"

definition decorate_download :: "download \<Rightarrow> display" where
  "decorate_download r =
     (let dtype = py_upper (if media_ext r \<noteq> [] then media_ext r else ''?'');
          kind = kind_of_ext (py_lower dtype);
          gone = dl_status r \<in> {MISSING, RETENTION_DELETED};
          label = (if dl_status r = RETENTION_DELETED then ''REMOVED''
                   else if dl_status r = MISSING then ''MISSING''
                   else if kind = ''document'' then (if dl_played r then ''VIEWED'' else ''VIEWING'')
                   else if dl_played r then ''PLAYED''
                   else if pf_lt pf_zero (dl_last_position r) then ''STARTED'' else ''UNPLAYED'');
          cls = (if gone then ''status-missing''
                 else if kind = ''document'' then (if dl_played r then ''status-viewed'' else ''status-viewing'')
                 else if dl_played r then ''status-played''
                 else if pf_lt pf_zero (dl_last_position r) then ''status-started''
                 else ''status-unplayed'')
      in \<lparr>display_size = human_size (dl_file_size_bytes r), display_type = dtype,
          display_kind = kind, status_label = label, status_class = cls,
          has_subtitles = (text_of (dl_subtitle_path r) \<noteq> [] \<or> text_of (dl_subtitle_path_relative r) \<noteq> [])\<rparr>)"

section \<open>Queries\<close>

definition DOWNLOAD_STATUSES :: "download_status list" where
  "DOWNLOAD_STATUSES = [DOWNLOADED, MISSING, RETENTION_DELETED]"

definition LIBRARY_PREVIEW_LIMIT :: nat where
  "LIBRARY_PREVIEW_LIMIT = 100"

definition LIBRARY_PAGE_SIZE :: int where
  "LIBRARY_PAGE_SIZE = 100"

definition library_download_query :: "database \<Rightarrow> string \<Rightarrow> download list" where
  "library_download_query d profile =
     filter (\<lambda>r. dl_profile_id r = profile \<and> dl_status r \<in> set DOWNLOAD_STATUSES) (downloads d)"

definition normalize_library_filter :: "pyval \<Rightarrow> string" where
  "normalize_library_filter v =
     (let mode = py_lower (py_strip (py_str (py_or v (PStr ''unplayed'')))) in
      if mode \<in> set [''all'', ''played'', ''favorites'', ''unplayed''] then mode else ''unplayed'')"

definition in_mode :: "string \<Rightarrow> download \<Rightarrow> bool" where
  "in_mode mode r =
     (if mode = ''unplayed'' then \<not> dl_played r \<and> dl_status r = DOWNLOADED
      else if mode = ''played'' then dl_played r \<and> dl_status r = DOWNLOADED
      else if mode = ''favorites'' then dl_favorite r \<and> dl_status r = DOWNLOADED
      else True)"

definition library_key :: "download \<Rightarrow> int \<times> int" where
  "library_key r = (- dl_last_seen_at r, - dl_id r)"

definition library_order :: "download list \<Rightarrow> download list" where
  "library_order rows = sort_key library_key rows"

definition list_downloads :: "database \<Rightarrow> string \<Rightarrow> pyval \<Rightarrow> bool \<Rightarrow> download list" where
  "list_downloads d profile filter_mode show_all =
     (let mode = (if show_all then ''all'' else normalize_library_filter filter_mode);
          rows = library_order (filter (in_mode mode) (library_download_query d profile))
      in if mode \<noteq> ''all'' then take LIBRARY_PREVIEW_LIMIT rows else rows)"

definition matches_search :: "string \<Rightarrow> download \<Rightarrow> bool" where
  "matches_search s r \<longleftrightarrow> s = [] \<or> (dl_title r \<noteq> None \<and> icontains s (text_of (dl_title r)))
     \<or> icontains s (dl_source_name r)"

definition library_matches :: "database \<Rightarrow> string \<Rightarrow> pyval \<Rightarrow> string \<Rightarrow> download list" where
  "library_matches d profile filter_mode search =
     library_order (filter (matches_search (py_strip search))
       (filter (in_mode (normalize_library_filter filter_mode)) (library_download_query d profile)))"

definition page_count :: "int \<Rightarrow> int \<Rightarrow> int" where
  "page_count tot sz = max 1 ((tot + sz - 1) div sz)"

definition page_slice :: "int \<Rightarrow> int \<Rightarrow> 'r list \<Rightarrow> 'r list" where
  "page_slice page sz rows = take (nat sz) (drop (nat ((page - 1) * sz)) rows)"

definition paginated_downloads ::
    "database \<Rightarrow> string \<Rightarrow> pyval \<Rightarrow> string \<Rightarrow> int \<Rightarrow> int \<Rightarrow> download list \<times> int" where
  "paginated_downloads d profile filter_mode search page0 size0 =
     (let page1 = max 1 page0;
          sz = max 1 (min size0 LIBRARY_PAGE_SIZE);
          rows = library_matches d profile filter_mode search;
          tot = int (length rows);
          page = min page1 (page_count tot sz)
      in (page_slice page sz rows, tot))"

definition is_pdf_row :: "download \<Rightarrow> bool" where
  "is_pdf_row r \<longleftrightarrow> py_lower (text_of (dl_file_ext r)) = ''pdf''
     \<or> suffix ''.pdf'' (py_lower (text_of (dl_file_path r)))"

definition playable_after :: "download \<Rightarrow> download \<Rightarrow> bool" where
  "playable_after cur r \<longleftrightarrow> dl_status r = DOWNLOADED \<and> \<not> is_pdf_row r
     \<and> (dl_last_seen_at r < dl_last_seen_at cur
        \<or> (dl_last_seen_at r = dl_last_seen_at cur \<and> dl_id r < dl_id cur))"

definition next_library_download :: "database \<Rightarrow> string \<Rightarrow> int \<Rightarrow> download option" where
  "next_library_download d profile n =
     (case first_row (\<lambda>r. dl_id r = n \<and> dl_profile_id r = profile) (downloads d) of
        None \<Rightarrow> None
      | Some cur \<Rightarrow>
          (case library_order (filter (playable_after cur) (library_download_query d profile)) of
             [] \<Rightarrow> None
           | r # _ \<Rightarrow> Some r))"

record filter_counts =
  fc_all :: nat
  fc_downloaded :: nat
  fc_unplayed :: nat
  fc_played :: nat
  fc_favorites :: nat
  fc_missing :: nat
  fc_retention_deleted :: nat

definition library_filter_counts :: "database \<Rightarrow> string \<Rightarrow> filter_counts" where
  "library_filter_counts d profile =
     (let rows = library_download_query d profile;
          downloaded = filter (\<lambda>r. dl_status r = DOWNLOADED) rows
      in \<lparr>fc_all = length rows, fc_downloaded = length downloaded,
          fc_unplayed = count_rows (\<lambda>r. \<not> dl_played r) downloaded,
          fc_played = count_rows dl_played downloaded,
          fc_favorites = count_rows dl_favorite downloaded,
          fc_missing = count_rows (\<lambda>r. dl_status r = MISSING) rows,
          fc_retention_deleted = count_rows (\<lambda>r. dl_status r = RETENTION_DELETED) rows\<rparr>)"

definition listened_seconds :: "database \<Rightarrow> string \<Rightarrow> pyfloat" where
  "listened_seconds d profile =
     foldl pf_add pf_zero (map dl_total_listened (library_download_query d profile))"

definition recent_jobs :: "database \<Rightarrow> string \<Rightarrow> job list" where
  "recent_jobs d profile =
     take 10 (sort_key (\<lambda>j. (- job_created_at j, - job_id j))
       (filter (\<lambda>j. job_profile_id j = profile) (jobs d)))"

record episode_summary =
  es_id :: int
  es_title :: string
  es_source_name :: string
  es_source_type :: string
  es_description :: string
  es_duration :: "int option"
  es_played :: bool
  es_favorite :: bool
  es_last_position :: pyfloat
  es_total_listened :: pyfloat
  es_download_status :: string
  es_has_subtitles_url :: bool

definition or_else :: "string \<Rightarrow> string \<Rightarrow> string" where
  "or_else a b = (if a = [] then b else a)"

definition episode_to_summary :: "download \<Rightarrow> episode_summary" where
  "episode_to_summary r =
     \<lparr>es_id = dl_id r, es_title = or_else (text_of (dl_title r)) ''Untitled'',
      es_source_name = or_else (dl_source_name r) (dl_source_type r),
      es_source_type = dl_source_type r, es_description = text_of (dl_description r),
      es_duration = dl_duration_seconds r, es_played = dl_played r, es_favorite = dl_favorite r,
      es_last_position = dl_last_position r, es_total_listened = dl_total_listened r,
      es_download_status = download_status_value (dl_status r),
      es_has_subtitles_url =
        (text_of (dl_subtitle_path r) \<noteq> [] \<or> text_of (dl_subtitle_path_relative r) \<noteq> [])\<rparr>"

section \<open>Playback\<close>

record playback_update =
  pu_position :: pyfloat
  pu_reason :: string
  pu_completed :: bool
  pu_listened_delta :: pyfloat

record playback_state =
  ps_episode_id :: int
  ps_position :: pyfloat
  ps_played :: bool
  ps_total :: pyfloat

definition build_update :: "pyval \<Rightarrow> pyval \<Rightarrow> download \<Rightarrow> playback_update option" where
  "build_update position_seconds reason_value r =
     (case py_float (py_str (py_or position_seconds (PFloat ''0.0''))) of
        None \<Rightarrow> None
      | Some f \<Rightarrow>
          let position = pf_max pf_zero f;
              reason = py_lower (py_strip (str_or_empty reason_value))
          in Some \<lparr>pu_position = position, pu_reason = reason,
                   pu_completed = (reason \<in> set [''ended'', ''mini-ended'', ''complete'', ''completed'']),
                   pu_listened_delta = pf_max pf_zero (pf_sub position (dl_last_position r))\<rparr>)"

definition apply_update :: "time \<Rightarrow> playback_update \<Rightarrow> download \<Rightarrow> download" where
  "apply_update now u r =
     (let r1 = r\<lparr>dl_last_position := (if pu_completed u then pf_zero else pu_position u),
                 dl_total_listened := pf_add (dl_total_listened r) (pu_listened_delta u),
                 dl_last_position_updated_at := Some now, dl_last_seen_at := now\<rparr>
      in if pu_completed u then r1\<lparr>dl_played := True, dl_played_at := Some now\<rparr> else r1)"

definition start :: "download \<Rightarrow> playback_state" where
  "start r = \<lparr>ps_episode_id = dl_id r, ps_position = dl_last_position r, ps_played = dl_played r,
              ps_total = dl_total_listened r\<rparr>"

section \<open>Facts\<close>

lemma set_library_order [simp]: "set (library_order rows) = set rows"
  by (simp add: library_order_def)

lemma length_library_order [simp]: "length (library_order rows) = length rows"
  by (simp add: library_order_def)

text \<open>The slices of a list, page by page, are the list.\<close>

lemma slices_cover:
  "concat (map (\<lambda>i. take n (drop (i * n) xs)) [0..<k]) = take (k * n) xs"
proof (induction k)
  case (Suc k)
  have "take (k * n + n) xs = take (k * n) xs @ take n (drop (k * n) xs)" by (rule take_add)
  then show ?case using Suc by (simp add: add.commute)
qed simp

lemma page_count_covers:
  assumes "0 < sz"
  shows "tot \<le> page_count tot sz * sz" and "1 \<le> page_count tot sz"
proof -
  have "(tot + sz - 1) div sz * sz \<le> page_count tot sz * sz"
    using assms by (intro mult_right_mono) (simp_all add: page_count_def)
  then show "tot \<le> page_count tot sz * sz"
    using ceil_div_bounds(1) [OF assms, of tot] by linarith
  show "1 \<le> page_count tot sz" by (simp add: page_count_def)
qed

section \<open>Properties\<close>

text \<open>The library pages partition the matching episodes: the pages from the first to the last,
  in order, are exactly the profile's matches in library order, no page is longer than the page
  size, which is at most 100, and asking beyond the last page shows the last page.\<close>

theorem library_pages_cover:
  fixes sz :: int
  defines "s \<equiv> max 1 (min sz LIBRARY_PAGE_SIZE)"
  shows "concat (map (\<lambda>i. fst (paginated_downloads d p m q (int i + 1) sz))
        [0..<nat (page_count (int (length (library_matches d p m q))) s)]) = library_matches d p m q
    \<and> (\<forall>page. length (fst (paginated_downloads d p m q page sz)) \<le> 100
        \<and> snd (paginated_downloads d p m q page sz) = int (length (library_matches d p m q)))
    \<and> (\<forall>k. paginated_downloads d p m q (page_count (int (length (library_matches d p m q))) s + int k) sz
        = paginated_downloads d p m q (page_count (int (length (library_matches d p m q))) s) sz)"
proof -
  let ?rows = "library_matches d p m q"
  let ?n = "page_count (int (length ?rows)) s"
  have s: "0 < s" "s \<le> 100" by (simp_all add: s_def LIBRARY_PAGE_SIZE_def)
  note cover = page_count_covers [OF s(1), of "int (length ?rows)"]
  have eq: "paginated_downloads d p m q page sz
      = (page_slice (min (max 1 page) ?n) s ?rows, int (length ?rows))" for page
    by (simp add: paginated_downloads_def Let_def s_def)
  have slice: "fst (paginated_downloads d p m q (int i + 1) sz) = take (nat s) (drop (i * nat s) ?rows)"
    if "i < nat ?n" for i
    using that s(1) by (simp add: eq page_slice_def nat_mult_distrib min_def)
  have "concat (map (\<lambda>i. fst (paginated_downloads d p m q (int i + 1) sz)) [0..<nat ?n])
      = concat (map (\<lambda>i. take (nat s) (drop (i * nat s) ?rows)) [0..<nat ?n])"
    by (intro arg_cong [of _ _ concat] map_cong refl slice) simp
  also have "\<dots> = take (nat ?n * nat s) ?rows" by (rule slices_cover)
  also have "\<dots> = ?rows"
  proof -
    have "int (length ?rows) \<le> int (nat ?n * nat s)"
      using cover s(1) by simp
    then show ?thesis by (simp only: of_nat_le_iff take_all_iff)
  qed
  finally have "concat (map (\<lambda>i. fst (paginated_downloads d p m q (int i + 1) sz)) [0..<nat ?n]) = ?rows" .
  moreover have "length (fst (paginated_downloads d p m q page sz)) \<le> 100" for page
    using s by (simp add: eq page_slice_def)
  ultimately show ?thesis using cover(2) by (simp add: eq)
qed

text \<open>The counts of the library filters add up: every listed episode is downloaded, missing or
  deleted by retention, and every downloaded one is played or unplayed; the count of a filter is
  the total of its unsearched listing.\<close>

theorem library_counts_consistent:
  "fc_all (library_filter_counts d p) = fc_downloaded (library_filter_counts d p)
     + fc_missing (library_filter_counts d p) + fc_retention_deleted (library_filter_counts d p)
   \<and> fc_downloaded (library_filter_counts d p)
     = fc_played (library_filter_counts d p) + fc_unplayed (library_filter_counts d p)
   \<and> fc_unplayed (library_filter_counts d p) = length (library_matches d p (PStr ''unplayed'') [])
   \<and> fc_played (library_filter_counts d p) = length (library_matches d p (PStr ''played'') [])
   \<and> fc_favorites (library_filter_counts d p) = length (library_matches d p (PStr ''favorites'') [])"
proof -
  let ?rows = "library_download_query d p"
  have st: "dl_status r = DOWNLOADED \<or> dl_status r = MISSING \<or> dl_status r = RETENTION_DELETED"
    if "r \<in> set ?rows" for r
    using that by (auto simp: library_download_query_def DOWNLOAD_STATUSES_def)
  have all: "(\<forall>r \<in> set xs. dl_status r = DOWNLOADED \<or> dl_status r = MISSING \<or> dl_status r = RETENTION_DELETED) \<Longrightarrow>
      length xs = length (filter (\<lambda>r. dl_status r = DOWNLOADED) xs)
        + count_rows (\<lambda>r. dl_status r = MISSING) xs + count_rows (\<lambda>r. dl_status r = RETENTION_DELETED) xs" for xs
    by (induction xs) auto
  have split: "length xs = count_rows dl_played xs + count_rows (\<lambda>r. \<not> dl_played r) xs" for xs
    by (induction xs) auto
  have modes: "normalize_library_filter (PStr ''unplayed'') = ''unplayed''"
    "normalize_library_filter (PStr ''played'') = ''played''"
    "normalize_library_filter (PStr ''favorites'') = ''favorites''"
    by code_simp+
  have search: "matches_search (py_strip []) x" for x
    by (simp add: matches_search_def py_strip_def strip_chars_def rstrip_chars_def)
  show ?thesis
    using all [of ?rows] st split [of "filter (\<lambda>r. dl_status r = DOWNLOADED) ?rows"]
    by (simp add: library_filter_counts_def Let_def library_matches_def modes search in_mode_def
        count_rows_def conj_commute)
qed

lemma hd_sort_key_le:
  assumes "sort_key f xs = y # ys" and "x \<in> set xs"
  shows "f y \<le> f x"
proof -
  have "sorted (map f (y # ys))" using sorted_sort_key [of f xs] assms(1) by simp
  moreover have "x \<in> set (y # ys)" using assms by (metis set_sort)
  ultimately show ?thesis by auto
qed

text \<open>The next episode of the library is the playable episode that follows the current one most
  closely in library order: it belongs to the profile, is downloaded and no document, comes
  strictly later, and no other such episode lies between; there is none exactly when no playable
  episode follows.\<close>

theorem next_library_download_adjacent:
  assumes "first_row (\<lambda>r. dl_id r = n \<and> dl_profile_id r = p) (downloads d) = Some cur"
  shows "(case next_library_download d p n of
      Some x \<Rightarrow> x \<in> set (downloads d) \<and> dl_profile_id x = p \<and> playable_after cur x
        \<and> library_key cur < library_key x
        \<and> (\<forall>y \<in> set (library_download_query d p). playable_after cur y \<longrightarrow> library_key x \<le> library_key y)
    | None \<Rightarrow> (\<forall>y \<in> set (library_download_query d p). \<not> playable_after cur y))"
proof (cases "library_order (filter (playable_after cur) (library_download_query d p))")
  case Nil
  then have "set (filter (playable_after cur) (library_download_query d p)) = {}"
    by (metis set_library_order set_empty)
  then show ?thesis using assms Nil by (auto simp: next_library_download_def)
next
  case (Cons x xs)
  then have x: "x \<in> set (library_download_query d p)" "playable_after cur x"
    using set_library_order [of "filter (playable_after cur) (library_download_query d p)"] by auto
  have "library_key x \<le> library_key y"
    if "y \<in> set (library_download_query d p)" "playable_after cur y" for y
    using hd_sort_key_le [of library_key "filter (playable_after cur) (library_download_query d p)" x xs y]
      Cons that by (simp add: library_order_def)
  moreover have "library_key cur < library_key x"
    using x(2) by (auto simp: playable_after_def library_key_def)
  ultimately show ?thesis
    using assms Cons x by (auto simp: next_library_download_def library_download_query_def)
qed

definition sample_download :: download where
  "sample_download = \<lparr>dl_id = 1, dl_profile_id = ''default'', dl_source_type = ''podcast'',
     dl_source_name = ''News'', dl_source_url = None, dl_item_uid = None, dl_item_id = None,
     dl_item_url = None, dl_media_url = None, dl_title = Some ''One'', dl_description = None, dl_uploader = None, dl_channel = None, dl_upload_date = None,
     dl_duration_seconds = None, dl_file_path = Some ''/media/one.mp3'',
     dl_file_path_relative = None, dl_file_ext = Some ''mp3'', dl_file_size_bytes = None,
     dl_subtitle_path = None, dl_subtitle_path_relative = None, dl_status = DOWNLOADED,
     dl_profanity_status = ''clean'', dl_is_censored = False, dl_censored_segments = PList [],
     dl_raw_metadata = None,
     dl_first_seen_at = 0, dl_last_seen_at = 100, dl_completed_at = None, dl_played = False,
     dl_favorite = False, dl_played_at = None, dl_last_position = pf_zero,
     dl_total_listened = pf_zero, dl_last_position_updated_at = None\<rparr>"

definition library_db :: database where
  "library_db = empty_database\<lparr>downloads :=
     [sample_download, sample_download\<lparr>dl_id := 2, dl_last_seen_at := 50\<rparr>,
      sample_download\<lparr>dl_id := 3, dl_last_seen_at := 70\<rparr>]\<rparr>"

theorem next_library_download_adjacent_witness:
  "\<exists>x. next_library_download library_db ''default'' 1 = Some x \<and> dl_id x = 3"
proof -
  have "first_row (\<lambda>r. dl_id r = 1 \<and> dl_profile_id r = ''default'') (downloads library_db)
      = Some sample_download"
    by (simp add: library_db_def sample_download_def)
  note p = next_library_download_adjacent [OF this]
  let ?three = "sample_download\<lparr>dl_id := 3, dl_last_seen_at := 70\<rparr>"
  have three: "?three \<in> set (library_download_query library_db ''default'')"
    "playable_after sample_download ?three"
  proof -
    show "?three \<in> set (library_download_query library_db ''default'')"
      by (simp add: library_db_def library_download_query_def sample_download_def DOWNLOAD_STATUSES_def)
    have "\<not> is_pdf_row ?three" unfolding sample_download_def by code_simp
    then show "playable_after sample_download ?three"
      by (simp add: playable_after_def sample_download_def)
  qed
  then obtain x where x: "next_library_download library_db ''default'' 1 = Some x"
    "x \<in> set (downloads library_db)" "library_key sample_download < library_key x"
    "library_key x \<le> library_key ?three"
    using p by (auto split: option.splits)
  then have "dl_id x = 3"
    by (auto simp: library_db_def library_key_def sample_download_def)
  then show ?thesis using x(1) by blast
qed

text \<open>A progress report never records a negative position, adds the seconds moved forward and
  nothing when the listener moved back, marks the episode played exactly when the reason says it
  ended (then the position restarts at zero), and reporting the same position again adds
  nothing.\<close>

theorem playback_progress_counts_once:
  assumes "build_update pos reason r = Some u"
    and "dl_last_position r = Fin old" and "pu_position u = Fin new" and "dl_total_listened r = Fin t"
  shows "\<not> pf_lt (dl_last_position (apply_update now u r)) pf_zero
    \<and> dl_total_listened (apply_update now u r) = Fin (t + max 0 (new - old))
    \<and> dl_played (apply_update now u r) = (dl_played r \<or> pu_completed u)
    \<and> (pu_completed u \<longrightarrow> dl_last_position (apply_update now u r) = pf_zero)
    \<and> (\<not> pu_completed u \<longrightarrow>
        (\<exists>u'. build_update pos reason (apply_update now u r) = Some u'
           \<and> dl_total_listened (apply_update now2 u' (apply_update now u r))
             = dl_total_listened (apply_update now u r)))"
proof -
  obtain f where f: "py_float (py_str (py_or pos (PFloat ''0.0''))) = Some f"
    and pos: "pu_position u = pf_max pf_zero f"
    and delta: "pu_listened_delta u = pf_max pf_zero (pf_sub (pu_position u) (dl_last_position r))"
    using assms(1) by (auto simp: build_update_def Let_def split: option.splits)
  have "pu_listened_delta u = Fin (max 0 (new - old))"
    using delta assms by (auto simp: pf_sub_def pf_max_def pf_zero_def)
  moreover have "pf_max pf_zero f = Fin new" using pos assms(3) by simp
  moreover have "0 \<le> new" using pf_max_zero_not_less [of f] \<open>pf_max pf_zero f = Fin new\<close>
    by (simp add: pf_zero_def)
  ultimately show ?thesis
    using f assms(3,4)
    by (auto simp: apply_update_def build_update_def Let_def pf_zero_def pf_sub_def pf_max_def)
qed

theorem playback_progress_counts_once_witness:
  "\<exists>u. build_update (PInt 30) (PStr ''pause'') sample_download = Some u
     \<and> dl_total_listened (apply_update 500 u sample_download) = Fin 30"
proof -
  have f: "py_float (py_str (py_or (PInt 30) (PFloat ''0.0''))) = Some (Fin 30)" by code_simp
  then obtain u where u: "build_update (PInt 30) (PStr ''pause'') sample_download = Some u"
    and pos: "pu_position u = Fin 30"
    by (simp add: build_update_def Let_def pf_max_def pf_zero_def)
  have "dl_last_position sample_download = Fin 0" "dl_total_listened sample_download = Fin 0"
    by (simp_all add: sample_download_def pf_zero_def)
  from playback_progress_counts_once [OF u this(1) pos this(2), of 500] show ?thesis
    using u by auto
qed

end
