(* ===== verification/Subtitles.thy ===== *)
theory Subtitles
  imports Library
begin

text \<open>
  \<open>src/src/workers/subtitles.py\<close>, its text: SRT timestamps, shifting the cues of a file, and
  the file written from transcription segments. Times are exact rationals. A file's text is a
  string; the cue pattern of the regular expressions is \<open>match_cue\<close>.
\<close>

section \<open>Lines\<close>

definition is_line_break :: "char \<Rightarrow> bool" where
  "is_line_break c \<longleftrightarrow> (let n = of_char c :: nat in (10 \<le> n \<and> n \<le> 13) \<or> (28 \<le> n \<and> n \<le> 30) \<or> n = 133)"

text \<open>\<open>splitlines\<close>: a carriage return and a line feed together are one break, and a break at the
  end starts no further line.\<close>

fun split_lines_from :: "string \<Rightarrow> string \<Rightarrow> string list" where
  "split_lines_from acc [] = (if acc = [] then [] else [rev acc])"
| "split_lines_from acc [c] = (if is_line_break c then [rev acc] else [rev (c # acc)])"
| "split_lines_from acc (c # d # s) =
     (if is_line_break c
      then rev acc # (if of_char c = (13 :: nat) \<and> of_char d = (10 :: nat)
                      then split_lines_from [] s else split_lines_from [] (d # s))
      else split_lines_from (c # acc) (d # s))"

definition split_lines :: "string \<Rightarrow> string list" where
  "split_lines s = split_lines_from [] s"

section \<open>Timestamps\<close>

definition digits :: "nat \<Rightarrow> string \<Rightarrow> bool" where
  "digits n s \<longleftrightarrow> length s = n \<and> list_all is_decimal s"

text \<open>\<open>\d{2}:\d{2}:\d{2},\d{3}\<close> at the start of a text: the clock, the milliseconds, the rest.\<close>

definition match_stamp :: "string \<Rightarrow> (string \<times> string \<times> string) option" where
  "match_stamp s =
     (if digits 2 (take 2 s) \<and> take 1 (drop 2 s) = '':'' \<and> digits 2 (take 2 (drop 3 s))
         \<and> take 1 (drop 5 s) = '':'' \<and> digits 2 (take 2 (drop 6 s)) \<and> take 1 (drop 8 s) = '',''
         \<and> digits 3 (take 3 (drop 9 s))
      then Some (take 8 s, take 3 (drop 9 s), drop 12 s) else None)"

text \<open>\<open>^stamp\s+-->\s+stamp(.*)$\<close>\<close>

definition match_cue :: "string \<Rightarrow> ((string \<times> string) \<times> (string \<times> string) \<times> string) option" where
  "match_cue line =
     (case match_stamp line of
        None \<Rightarrow> None
      | Some (clock1, ms1, rest1) \<Rightarrow>
          (let rest2 = dropWhile is_space rest1 in
           if rest2 = rest1 \<or> take 3 rest2 \<noteq> ''-->'' then None
           else let rest3 = drop 3 rest2; rest4 = dropWhile is_space rest3 in
             if rest4 = rest3 then None
             else (case match_stamp rest4 of
                     None \<Rightarrow> None
                   | Some (clock2, ms2, tail) \<Rightarrow> Some ((clock1, ms1), (clock2, ms2), tail))))"

text \<open>\<open>_parse_srt_timestamp\<close>: three fields, the last with a comma; each read by \<open>int\<close>.\<close>

definition parse_srt_timestamp :: "string \<Rightarrow> rat option" where
  "parse_srt_timestamp value =
     (case split_on CHR '':'' value of
        [h, m, sm] \<Rightarrow>
          (case split_on CHR '','' sm of
             [s, ms] \<Rightarrow>
               (case (py_int h, py_int m, py_int s, py_int ms) of
                  (Some h', Some m', Some s', Some ms') \<Rightarrow>
                    Some (of_int (h' * 3600 + m' * 60 + s') + of_int ms' / 1000)
                | _ \<Rightarrow> None)
           | _ \<Rightarrow> None)
      | _ \<Rightarrow> None)"

record srt_time =
  st_hours :: int
  st_minutes :: int
  st_seconds :: int
  st_millis :: int

text \<open>The carries of \<open>_format_srt_timestamp\<close>, in the order of the code.\<close>

definition srt_carry :: "int \<Rightarrow> int \<Rightarrow> int \<Rightarrow> int \<Rightarrow> srt_time" where
  "srt_carry hours minutes secs millis =
     (let (millis, secs) = (if millis = 1000 then (0, secs + 1) else (millis, secs));
          (secs, minutes) = (if secs = 60 then (0, minutes + 1) else (secs, minutes));
          (minutes, hours) = (if minutes = 60 then (0, hours + 1) else (minutes, hours))
      in \<lparr>st_hours = hours, st_minutes = minutes, st_seconds = secs, st_millis = millis\<rparr>)"

definition srt_fields :: "rat \<Rightarrow> srt_time" where
  "srt_fields value0 =
     (let v0 = max 0 value0;
          hours = \<lfloor>v0 / 3600\<rfloor>;
          v1 = v0 - of_int hours * 3600;
          minutes = \<lfloor>v1 / 60\<rfloor>;
          v2 = v1 - of_int minutes * 60;
          secs = \<lfloor>v2\<rfloor>
      in srt_carry hours minutes secs (round_half_even ((v2 - of_int secs) * 1000)))"

definition format_srt_timestamp :: "rat \<Rightarrow> string" where
  "format_srt_timestamp v =
     (let t = srt_fields v in
      pad 2 (st_hours t) @ '':'' @ pad 2 (st_minutes t) @ '':'' @ pad 2 (st_seconds t) @ '',''
      @ pad 3 (st_millis t))"

section \<open>Shifting a file\<close>

definition shift_line :: "rat \<Rightarrow> string \<Rightarrow> string" where
  "shift_line offset line =
     (case match_cue line of
        None \<Rightarrow> line
      | Some ((c1, m1), (c2, m2), tail) \<Rightarrow>
          (case (parse_srt_timestamp (c1 @ '','' @ m1), parse_srt_timestamp (c2 @ '','' @ m2)) of
             (Some t1, Some t2) \<Rightarrow>
               (let start = max 0 (t1 + offset); end_time = max (start + 1 / 100) (t2 + offset)
                in format_srt_timestamp start @ '' --> '' @ format_srt_timestamp end_time @ tail)
           | _ \<Rightarrow> line))"

definition shift_srt_timestamps :: "rat \<Rightarrow> string \<Rightarrow> string" where
  "shift_srt_timestamps offset text =
     (if \<bar>offset\<bar> < 1 / 1000000 then text
      else join_with [CHR 0x0A] (map (shift_line offset) (split_lines text)) @ [CHR 0x0A])"

section \<open>Writing segments\<close>

record segment =
  sg_start :: rat
  sg_end :: "rat option"
  sg_text :: string

definition segment_cue :: "nat \<Rightarrow> segment \<Rightarrow> string" where
  "segment_cue index sg =
     (let start = sg_start sg;
          end0 = (case sg_end sg of Some e \<Rightarrow> e | None \<Rightarrow> start + 1 / 100);
          text = py_strip (sg_text sg);
          end_time = (if end0 \<le> start then start + 1 / 100 else end0)
      in if text = [] then []
         else str_of_nat index @ [CHR 0x0A]
              @ format_srt_timestamp start @ '' --> '' @ format_srt_timestamp end_time @ [CHR 0x0A]
              @ text @ [CHR 0x0A, CHR 0x0A])"

fun segment_cues :: "nat \<Rightarrow> segment list \<Rightarrow> string" where
  "segment_cues index [] = []"
| "segment_cues index (sg # sgs) = segment_cue index sg @ segment_cues (Suc index) sgs"

definition srt_file_text :: "segment list \<Rightarrow> string" where
  "srt_file_text sgs = segment_cues 1 sgs"

section \<open>Facts\<close>

lemma round_half_even_bounds: "\<bar>of_int (round_half_even q) - q\<bar> \<le> (1 / 2 :: rat)"
proof -
  have "of_int \<lfloor>q\<rfloor> \<le> q" "q < of_int \<lfloor>q\<rfloor> + 1" using floor_correct [of q] by simp_all
  then show ?thesis by (auto simp: round_half_even_def Let_def)
qed

lemma round_half_even_range:
  assumes "0 \<le> q" and "q \<le> of_int n"
  shows "0 \<le> round_half_even q \<and> round_half_even q \<le> n"
proof -
  have "of_int (round_half_even q) \<le> (of_int n + 1 / 2 :: rat)"
    "- (1 / 2) \<le> (of_int (round_half_even q) :: rat)"
    using round_half_even_bounds [of q] assms by linarith+
  then show ?thesis by linarith
qed

lemma floor_div_bounds:
  fixes v :: rat
  assumes "0 < k"
  shows "0 \<le> v - of_int (\<lfloor>v / k\<rfloor>) * k" and "v - of_int (\<lfloor>v / k\<rfloor>) * k < k"
proof -
  have "of_int \<lfloor>v / k\<rfloor> \<le> v / k" "v / k < of_int \<lfloor>v / k\<rfloor> + 1"
    using floor_correct [of "v / k"] by simp_all
  then have "of_int \<lfloor>v / k\<rfloor> * k \<le> v" "v < (of_int \<lfloor>v / k\<rfloor> + 1) * k"
    by (simp_all only: pos_le_divide_eq [OF assms] pos_divide_less_eq [OF assms])
  then show "0 \<le> v - of_int (\<lfloor>v / k\<rfloor>) * k" and "v - of_int (\<lfloor>v / k\<rfloor>) * k < k"
    by (simp_all add: algebra_simps)
qed

lemma srt_fields_correct:
  fixes v :: rat
  defines "t \<equiv> srt_fields v"
  shows "0 \<le> st_hours t" and "0 \<le> st_minutes t \<and> st_minutes t < 60"
    and "0 \<le> st_seconds t \<and> st_seconds t < 60" and "0 \<le> st_millis t \<and> st_millis t < 1000"
    and "\<bar>of_int (st_hours t * 3600 + st_minutes t * 60 + st_seconds t) + of_int (st_millis t) / 1000
          - max 0 v\<bar> \<le> 1 / 2000"
proof -
  define v0 where "v0 = max 0 v"
  define hours where "hours = \<lfloor>v0 / 3600\<rfloor>"
  define v1 where "v1 = v0 - of_int hours * 3600"
  define minutes where "minutes = \<lfloor>v1 / 60\<rfloor>"
  define v2 where "v2 = v1 - of_int minutes * 60"
  define secs where "secs = \<lfloor>v2\<rfloor>"
  define millis where "millis = round_half_even ((v2 - of_int secs) * 1000)"
  have v0: "0 \<le> v0" by (simp add: v0_def)
  then have h: "0 \<le> hours" by (simp add: hours_def)
  have v1: "0 \<le> v1" "v1 < 3600"
    using floor_div_bounds [of 3600 v0] by (simp_all add: v1_def hours_def)
  then have m: "0 \<le> minutes" "minutes < 60" by (simp_all add: minutes_def floor_less_iff)
  have v2: "0 \<le> v2" "v2 < 60"
    using floor_div_bounds [of 60 v1] by (simp_all add: v2_def minutes_def)
  then have s: "0 \<le> secs" "secs < 60" by (simp_all add: secs_def floor_less_iff)
  have "of_int secs \<le> v2" "v2 < of_int secs + 1"
    using floor_correct [of v2] by (simp_all add: secs_def)
  then have fr: "0 \<le> (v2 - of_int secs) * 1000" "(v2 - of_int secs) * 1000 \<le> of_int 1000"
    by simp_all
  have ms: "0 \<le> millis" "millis \<le> 1000"
    using round_half_even_range [OF fr] by (simp_all add: millis_def)
  have err: "\<bar>of_int millis - (v2 - of_int secs) * 1000\<bar> \<le> 1 / 2"
    unfolding millis_def by (rule round_half_even_bounds)
  have t: "t = srt_carry hours minutes secs millis"
    unfolding t_def srt_fields_def Let_def millis_def secs_def v2_def minutes_def v1_def hours_def v0_def
    by (rule refl)
  show "0 \<le> st_hours t" and "0 \<le> st_minutes t \<and> st_minutes t < 60"
    and "0 \<le> st_seconds t \<and> st_seconds t < 60" and "0 \<le> st_millis t \<and> st_millis t < 1000"
    using h m s ms by (auto simp: t srt_carry_def)
  have sum: "of_int (st_hours t * 3600 + st_minutes t * 60 + st_seconds t) + of_int (st_millis t) / 1000
      = (of_int (hours * 3600 + minutes * 60 + secs) + of_int millis / 1000 :: rat)"
    by (auto simp: t srt_carry_def)
  define e where "e = of_int millis / 1000 - (v2 - of_int secs)"
  have "of_int millis - (v2 - of_int secs) * 1000 = 1000 * e" by (simp add: e_def algebra_simps)
  then have "1000 * \<bar>e\<bar> \<le> 1 / 2" using err by (simp add: abs_mult)
  moreover have "of_int (hours * 3600 + minutes * 60 + secs) + of_int millis / 1000 - max 0 v = e"
    by (simp add: e_def v2_def v1_def v0_def)
  ultimately show "\<bar>of_int (st_hours t * 3600 + st_minutes t * 60 + st_seconds t) + of_int (st_millis t) / 1000
          - max 0 v\<bar> \<le> 1 / 2000"
    unfolding sum by simp
qed

lemma py_int_digits:
  assumes "list_all is_decimal s" and "s \<noteq> []"
  shows "py_int s = Some (foldl (\<lambda>a c. a * 10 + int (of_char c - 48)) 0 s)"
proof -
  have ns: "\<And>c. c \<in> set s \<Longrightarrow> \<not> is_space c \<and> c \<noteq> CHR ''-'' \<and> c \<noteq> CHR ''+''"
    using assms(1) decimal_not_special by (auto simp: list_all_iff)
  have st: "py_strip s = s"
    unfolding py_strip_def using ns assms(2) by (intro strip_chars_id) simp
  obtain c cs where s: "s = c # cs" using assms(2) by (cases s) auto
  have "py_int s = scan_digits 0 False s"
    using ns [of c] by (simp add: py_int_def st) (simp add: s)
  then show ?thesis using scan_digits_append [OF assms, of 0 False "[]"] by simp
qed

lemma pad_decimal: "0 \<le> n \<Longrightarrow> list_all is_decimal (pad w n)"
  by (auto simp: pad_def Let_def str_of_int_def list_all_iff is_decimal_def dest: str_of_nat_decimal)

lemma py_int_pad: "0 \<le> n \<Longrightarrow> py_int (pad w n) = Some n"
proof -
  assume n: "0 \<le> n"
  let ?f = "\<lambda>a c. a * 10 + int (of_char c - 48)"
  have zeros: "foldl ?f 0 (replicate k CHR ''0'') = 0" for k by (induction k) simp_all
  have "pad w n = replicate (w - length (str_of_nat (nat n))) CHR ''0'' @ str_of_nat (nat n)"
    using n by (simp add: pad_def Let_def str_of_int_def)
  then have "foldl ?f 0 (pad w n) = n" and "pad w n \<noteq> []"
    using n zeros foldl_str_of_nat [of "nat n"] by simp_all
  then show ?thesis using py_int_digits [OF pad_decimal [OF n]] by simp
qed

lemma pad_no_sep:
  assumes "0 \<le> n"
  shows "CHR '':'' \<notin> set (pad w n)" and "CHR '','' \<notin> set (pad w n)"
  using pad_decimal [OF assms, of w] by (auto simp: list_all_iff is_decimal_def)

section \<open>Properties\<close>

text \<open>C39: Formatting a time as an SRT timestamp and parsing it back gives the time, negative ones
  clamped to zero, to within half a millisecond; minutes and seconds are below sixty and the
  milliseconds below a thousand even when rounding carries.\<close>

theorem srt_timestamp_roundtrip:
  "\<exists>r. parse_srt_timestamp (format_srt_timestamp v) = Some r \<and> \<bar>r - max 0 v\<bar> \<le> 1 / 2000
   \<and> st_minutes (srt_fields v) < 60 \<and> st_seconds (srt_fields v) < 60
   \<and> st_millis (srt_fields v) < 1000"
proof -
  let ?t = "srt_fields v"
  note c = srt_fields_correct [of v]
  have nn: "0 \<le> st_hours ?t" "0 \<le> st_minutes ?t" "0 \<le> st_seconds ?t" "0 \<le> st_millis ?t"
    using c(1-4) by simp_all
  have "CHR '':'' \<notin> set (pad 2 (st_seconds ?t) @ '','' @ pad 3 (st_millis ?t))"
    using pad_no_sep nn by simp
  then have sp1: "split_on CHR '':'' (format_srt_timestamp v)
      = [pad 2 (st_hours ?t), pad 2 (st_minutes ?t), pad 2 (st_seconds ?t) @ '','' @ pad 3 (st_millis ?t)]"
    using pad_no_sep(1) nn
    by (simp add: format_srt_timestamp_def Let_def split_on_append split_on_no_sep)
  have sp2: "split_on CHR '','' (pad 2 (st_seconds ?t) @ '','' @ pad 3 (st_millis ?t))
      = [pad 2 (st_seconds ?t), pad 3 (st_millis ?t)]"
    using pad_no_sep(2) nn by (simp add: split_on_append split_on_no_sep)
  have "parse_srt_timestamp (format_srt_timestamp v) = Some
      (of_int (st_hours ?t * 3600 + st_minutes ?t * 60 + st_seconds ?t) + of_int (st_millis ?t) / 1000)"
    unfolding parse_srt_timestamp_def sp1 using sp2 nn by (simp add: py_int_pad)
  then show ?thesis using c by simp
qed

lemma stamp_parts:
  assumes "match_stamp s = Some (clock, ms, rest)"
  shows "\<exists>t. parse_srt_timestamp (clock @ '','' @ ms) = Some t"
proof -
  obtain h m sec where hms: "clock = h @ '':'' @ m @ '':'' @ sec"
    and d: "digits 2 h" "digits 2 m" "digits 2 sec" "digits 3 ms"
  proof -
    assume r: "\<And>h m sec. clock = h @ '':'' @ m @ '':'' @ sec \<Longrightarrow> digits 2 h \<Longrightarrow> digits 2 m \<Longrightarrow>
      digits 2 sec \<Longrightarrow> digits 3 ms \<Longrightarrow> thesis"
    have a: "digits 2 (take 2 s)" "take 1 (drop 2 s) = '':''" "digits 2 (take 2 (drop 3 s))"
      "take 1 (drop 5 s) = '':''" "digits 2 (take 2 (drop 6 s))" "digits 3 ms" "clock = take 8 s"
      using assms by (auto simp: match_stamp_def split: if_splits)
    have "take (2 + (1 + (2 + (1 + 2)))) s
        = take 2 s @ take 1 (drop 2 s) @ take 2 (drop 3 s) @ take 1 (drop 5 s) @ take 2 (drop 6 s)"
      by (simp only: take_add drop_drop) (simp add: numeral_eq_Suc)
    then show thesis using a by (intro r [of "take 2 s" "take 2 (drop 3 s)" "take 2 (drop 6 s)"]) simp_all
  qed
  have nosep: "digits n w \<Longrightarrow> CHR '':'' \<notin> set w \<and> CHR '','' \<notin> set w" for n w
    by (auto simp: digits_def list_all_iff is_decimal_def)
  have int: "digits n w \<Longrightarrow> 0 < n \<Longrightarrow> \<exists>k. py_int w = Some k" for n w
    by (auto simp: digits_def dest: py_int_digits)
  have "CHR '':'' \<notin> set (sec @ '','' @ ms)" using d nosep by simp
  then have sp1: "split_on CHR '':'' (clock @ '','' @ ms) = [h, m, sec @ '','' @ ms]"
    using d nosep by (simp add: hms split_on_append split_on_no_sep)
  have sp2: "split_on CHR '','' (sec @ '','' @ ms) = [sec, ms]"
    using d nosep by (simp add: split_on_append split_on_no_sep)
  show ?thesis
    unfolding parse_srt_timestamp_def sp1
    using sp2 int [OF d(1)] int [OF d(2)] int [OF d(3)] int [OF d(4)] by auto
qed

text \<open>Shifting a cue line by any offset writes a line whose start is not negative and whose end
  is at least a hundredth of a second after its start, each within half a millisecond of the
  shifted time; a line that is no cue is left as it is.\<close>

theorem shift_line_keeps_order:
  "(match_cue line = None \<longrightarrow> shift_line offset line = line) \<and>
   (\<forall>c1 m1 c2 m2 tail. match_cue line = Some ((c1, m1), (c2, m2), tail) \<longrightarrow>
     (\<exists>t1 t2 start end_time. parse_srt_timestamp (c1 @ '','' @ m1) = Some t1
        \<and> parse_srt_timestamp (c2 @ '','' @ m2) = Some t2
        \<and> start = max 0 (t1 + offset) \<and> end_time = max (start + 1 / 100) (t2 + offset)
        \<and> shift_line offset line
          = format_srt_timestamp start @ '' --> '' @ format_srt_timestamp end_time @ tail))"
proof -
  have "\<exists>t1 t2. parse_srt_timestamp (c1 @ '','' @ m1) = Some t1
        \<and> parse_srt_timestamp (c2 @ '','' @ m2) = Some t2"
    if "match_cue line = Some ((c1, m1), (c2, m2), tail)" for c1 m1 c2 m2 tail
    using that stamp_parts by (auto simp: match_cue_def Let_def split: option.splits if_splits)
  then show ?thesis by (fastforce simp: shift_line_def Let_def)
qed

theorem shift_line_keeps_order_witness:
  "shift_line 1 ''00:00:01,000 --> 00:00:02,500'' = ''00:00:02,000 --> 00:00:03,500''"
proof -
  have m: "match_cue ''00:00:01,000 --> 00:00:02,500''
      = Some ((''00:00:01'', ''000''), (''00:00:02'', ''500''), [])"
    by code_simp
  have p: "parse_srt_timestamp (''00:00:01'' @ '','' @ ''000'') = Some 1"
    "parse_srt_timestamp (''00:00:02'' @ '','' @ ''500'') = Some (5 / 2)"
    by code_simp+
  have f: "format_srt_timestamp 2 = ''00:00:02,000''" "format_srt_timestamp (7 / 2) = ''00:00:03,500''"
    by code_simp+
  obtain t1 t2 where
    "parse_srt_timestamp (''00:00:01'' @ '','' @ ''000'') = Some t1"
    "parse_srt_timestamp (''00:00:02'' @ '','' @ ''500'') = Some t2"
    and r: "shift_line 1 ''00:00:01,000 --> 00:00:02,500''
      = format_srt_timestamp (max 0 (t1 + 1)) @ '' --> ''
        @ format_srt_timestamp (max (max 0 (t1 + 1) + 1 / 100) (t2 + 1)) @ []"
    using shift_line_keeps_order [of "''00:00:01,000 --> 00:00:02,500''" 1] m by blast
  then have t: "t1 = 1" "t2 = 5 / 2" using p by simp_all
  have e: "max 0 (t1 + 1) = 2" "max (2 + 1 / 100) (t2 + 1) = 7 / 2" by (simp_all add: t)
  show ?thesis using r unfolding e f by simp
qed

end
