(* ===== verification/IsoTime.thy ===== *)
theory IsoTime
  imports Subtitles
begin

text \<open>
  Reading back the times the workers write as text (\<open>datetime.isoformat\<close> into
  \<open>datetime.fromisoformat\<close>): the lock row of a conversion and the times of a deferred download.
  \<open>iso_parse\<close> reads the form \<open>iso_format\<close> writes, an aware UTC time, and refuses every other text;
  no other code writes these values.
\<close>

section \<open>The calendar\<close>

lemma year_core:
  fixes q a b c y u v :: int
  assumes q: "0 \<le> q" "q < 146097"
    and q1: "1460 * a \<le> q" "q < 1460 * a + 1460"
    and q2: "36524 * b \<le> q" "q < 36524 * b + 36524"
    and q3: "146096 * c \<le> q" "q < 146096 * c + 146096"
    and y1: "365 * y \<le> q - a + b - c" "q - a + b - c < 365 * y + 365"
    and u1: "4 * u \<le> y" "y < 4 * u + 4"
    and v1: "100 * v \<le> y" "y < 100 * v + 100"
  shows "0 \<le> q - (365 * y + u - v) \<and> q - (365 * y + u - v) \<le> 366 \<and> 0 \<le> y \<and> y < 400"
proof (cases "c = 0")
  case False
  have "0 \<le> c" "c \<le> 1" using q q3 by linarith+
  then have c: "c = 1" using False by linarith
  then have q0: "q = 146096" using q q3 by simp
  have a: "a = 100" using q1 unfolding q0 by linarith
  have b: "b = 4" using q2 unfolding q0 by linarith
  have y: "y = 399" using y1 unfolding q0 a b c by linarith
  have "u = 99" "v = 3" using u1 v1 unfolding y by linarith+
  then show ?thesis unfolding q0 y by simp
next
  case True
  define e r ru ra where d: "e = a - u" "r = q - a + b - 365 * y" "ru = y - 4 * u" "ra = q - 1460 * a"
  have id: "1460 * e = 365 * ru + r - ra + a - b" unfolding d by (simp add: algebra_simps)
  have rg: "0 \<le> r" "r \<le> 364" "0 \<le> ru" "ru \<le> 3" "0 \<le> ra" "ra \<le> 1459" using q1 y1 u1 True unfolding d by linarith+
  have ab: "0 \<le> b" "b \<le> 4" "a \<le> 100" using q q1 q2 by linarith+
  have "b - 1 < a" using q1 q2 ab by linarith
  then have "- 1460 < 1460 * e" using id rg by linarith
  then have e0: "0 \<le> e" by linarith
  have "1460 * e < 2920" using id rg ab by linarith
  then have e1: "e \<le> 1" by linarith
  have "v < b + 1" using True q1 q2 y1 v1 ab by linarith
  then have vb: "v \<le> b" by linarith
  have "b \<le> v"
  proof (rule ccontr)
    assume "\<not> b \<le> v"
    then have "v + 1 \<le> b" by linarith
    then have n: "q - a + b < 36500 * b" using y1 v1 True by linarith
    then have "25 * b < a" using q2 by linarith
    then have "25 * b + 1 \<le> a" by linarith
    then show False using n q1 ab by linarith
  qed
  then have v: "v = b" using vb by simp
  have "q - (365 * y + u - v) = r + e" unfolding d v by linarith
  moreover have "0 \<le> y" "y < 400"
  proof -
    have "b \<le> 3" using q2 q3 True by linarith
    then show "y < 400" using q q1 q2 q3 y1 True ab by linarith
    show "0 \<le> y" using v v1 ab by linarith
  qed
  ultimately show ?thesis using e0 e1 rg by linarith
qed

lemma div_bounds: "0 < k \<Longrightarrow> k * (n div k) \<le> n \<and> n < k * (n div k) + (k :: int)"
  using pos_mod_bound [of k n] pos_mod_sign [of k n] mult_div_mod_eq [of k n] by linarith

text \<open>The fields of a date, from its year and its day of the year, both counted from March.\<close>

lemma civil_shape:
  obtains era y doy mp where "0 \<le> y" "y < 400" "0 \<le> mp" "mp \<le> 11"
    and "153 * mp \<le> 5 * doy + 2" "5 * doy + 2 < 153 * mp + 153"
    and "n = era * 146097 + (365 * y + y div 4 - y div 100 + doy) - 719468"
    and "civil_of_days n = \<lparr>cv_year = y + era * 400 + (if (if mp < 10 then mp + 3 else mp - 9) \<le> 2 then 1 else 0),
      cv_month = (if mp < 10 then mp + 3 else mp - 9), cv_day = doy - (153 * mp + 2) div 5 + 1\<rparr>"
proof -
  define q where "q = (n + 719468) mod 146097"
  define era where "era = (n + 719468) div 146097"
  define y where "y = (q - q div 1460 + q div 36524 - q div 146096) div 365"
  define doy where "doy = q - (365 * y + y div 4 - y div 100)"
  define mp where "mp = (5 * doy + 2) div 153"
  have q: "0 \<le> q" "q < 146097" by (simp_all add: q_def)
  have c: "0 \<le> q - (365 * y + y div 4 - y div 100) \<and> q - (365 * y + y div 4 - y div 100) \<le> 366 \<and> 0 \<le> y \<and> y < 400"
    unfolding y_def by (intro year_core [of q "q div 1460" "q div 36524" "q div 146096"] q
      div_bounds [THEN conjunct1] div_bounds [THEN conjunct2]) simp_all
  then have doy: "0 \<le> doy" "doy \<le> 366" and y: "0 \<le> y" "y < 400" by (simp_all add: doy_def)
  have m: "153 * mp \<le> 5 * doy + 2" "5 * doy + 2 < 153 * mp + 153"
    unfolding mp_def using div_bounds [of 153 "5 * doy + 2"] by simp_all
  then have mp: "0 \<le> mp" "mp \<le> 11" using doy by linarith+
  have "n = era * 146097 + q - 719468" by (simp add: q_def era_def)
  then have n: "n = era * 146097 + (365 * y + y div 4 - y div 100 + doy) - 719468" by (simp add: doy_def)
  have "civil_of_days n = \<lparr>cv_year = y + era * 400 + (if (if mp < 10 then mp + 3 else mp - 9) \<le> 2 then 1 else 0),
      cv_month = (if mp < 10 then mp + 3 else mp - 9), cv_day = doy - (153 * mp + 2) div 5 + 1\<rparr>"
    by (simp only: civil_of_days_def Let_def q_def [symmetric] era_def [symmetric] y_def [symmetric]
        doy_def [symmetric] mp_def [symmetric])
  then show thesis using that y mp m n by blast
qed

lemma days_of_civil_of_days: "days_of_civil (civil_of_days n) = n"
proof -
  obtain era y doy mp where f: "0 \<le> y" "y < 400" "0 \<le> mp" "mp \<le> 11"
    and n: "n = era * 146097 + (365 * y + y div 4 - y div 100 + doy) - 719468"
    and c: "civil_of_days n = \<lparr>cv_year = y + era * 400 + (if (if mp < 10 then mp + 3 else mp - 9) \<le> 2 then 1 else 0),
      cv_month = (if mp < 10 then mp + 3 else mp - 9), cv_day = doy - (153 * mp + 2) div 5 + 1\<rparr>"
    using civil_shape by metis
  have "(y + era * 400) div 400 = era" "(y + era * 400) mod 400 = y" using f by simp_all
  then have "days_of_civil (civil_of_days n) = era * 146097 + (365 * y + y div 4 - y div 100 + doy) - 719468"
    unfolding c days_of_civil_def Let_def using f by auto
  then show ?thesis using n by simp
qed

lemma civil_ranges:
  "1 \<le> cv_month (civil_of_days n) \<and> cv_month (civil_of_days n) \<le> 12
   \<and> 1 \<le> cv_day (civil_of_days n) \<and> cv_day (civil_of_days n) \<le> 31"
proof -
  obtain era y doy mp where f: "0 \<le> mp" "mp \<le> 11" "153 * mp \<le> 5 * doy + 2" "5 * doy + 2 < 153 * mp + 153"
    and c: "civil_of_days n = \<lparr>cv_year = y + era * 400 + (if (if mp < 10 then mp + 3 else mp - 9) \<le> 2 then 1 else 0),
      cv_month = (if mp < 10 then mp + 3 else mp - 9), cv_day = doy - (153 * mp + 2) div 5 + 1\<rparr>"
    using civil_shape by metis
  have b: "5 * ((153 * mp + 2) div 5) \<le> 153 * mp + 2" "153 * mp + 2 < 5 * ((153 * mp + 2) div 5) + 5"
    using div_bounds [of 5 "153 * mp + 2"] by simp_all
  have "1 \<le> doy - (153 * mp + 2) div 5 + 1" "doy - (153 * mp + 2) div 5 + 1 \<le> 31"
    using f b by linarith+
  then show ?thesis unfolding c using f by auto
qed

section \<open>Reading\<close>

definition scan_fixed :: "nat \<Rightarrow> string \<Rightarrow> (int \<times> string) option" where
  "scan_fixed k s =
     (if length (take k s) = k \<and> list_all is_decimal (take k s)
      then map_option (\<lambda>n. (n, drop k s)) (py_int (take k s)) else None)"

definition expect :: "string \<Rightarrow> string \<Rightarrow> string option" where
  "expect p s = (if prefix p s then Some (drop (length p) s) else None)"

definition field :: "nat \<Rightarrow> string \<Rightarrow> string \<Rightarrow> (int \<times> string) option" where
  "field k sep s = Option.bind (scan_fixed k s) (\<lambda>(n, r). map_option (Pair n) (expect sep r))"

definition iso_clock :: "int \<Rightarrow> int \<Rightarrow> int \<Rightarrow> string \<Rightarrow> int option" where
  "iso_clock h m s rest =
     Option.bind (if prefix ''.'' rest then scan_fixed 6 (drop 1 rest) else Some (0, rest)) (\<lambda>(us, rest').
       if rest' = ''+00:00'' \<and> h < 24 \<and> m < 60 \<and> s < 60
       then Some (((h * 60 + m) * 60 + s) * 1000000 + us) else None)"

definition iso_parse :: "string \<Rightarrow> int option" where
  "iso_parse text =
     Option.bind (field 4 ''-'' text) (\<lambda>(y, t1). Option.bind (field 2 ''-'' t1) (\<lambda>(mo, t2).
     Option.bind (field 2 ''T'' t2) (\<lambda>(d, t3). Option.bind (field 2 '':'' t3) (\<lambda>(h, t4).
     Option.bind (field 2 '':'' t4) (\<lambda>(m, t5). Option.bind (scan_fixed 2 t5) (\<lambda>(s, t6).
       let c = \<lparr>cv_year = y, cv_month = mo, cv_day = d\<rparr>; days = days_of_civil c in
       if civil_of_days days = c
       then map_option (\<lambda>us. days * microseconds_per_day + us) (iso_clock h m s t6) else None))))))"

section \<open>Facts\<close>

lemma length_str_of_nat: "n < 10 ^ k \<Longrightarrow> 0 < k \<Longrightarrow> length (str_of_nat n) \<le> k"
proof (induction n arbitrary: k rule: str_of_nat.induct)
  case (1 n)
  show ?case
  proof (cases "n < 10")
    case True
    then show ?thesis using 1(3) by (subst str_of_nat.simps) simp
  next
    case False
    then obtain j where k: "k = Suc j" "0 < j" using 1(2,3) by (cases k; cases "k - 1") auto
    have "n div 10 < 10 ^ j" using 1(2) k by (simp add: div_less_iff_less_mult mult.commute)
    then have "length (str_of_nat (n div 10)) \<le> j" using 1(1) [OF False] k by simp
    then show ?thesis using False k by (subst str_of_nat.simps) simp
  qed
qed

lemma length_pad:
  assumes "0 \<le> n" and "n < 10 ^ k" and "0 < k"
  shows "length (pad k n) = k"
proof -
  have "nat n < 10 ^ k" using assms by (simp add: nat_less_iff)
  then have "length (str_of_nat (nat n)) \<le> k" using length_str_of_nat assms(3) by blast
  then show ?thesis using assms(1) by (simp add: pad_def str_of_int_def Let_def)
qed

lemma scan_fixed_pad:
  assumes "0 \<le> n" and "n < 10 ^ k" and "0 < k"
  shows "scan_fixed k (pad k n @ s) = Some (n, s)"
  using length_pad [OF assms] pad_decimal [OF assms(1)] py_int_pad [OF assms(1)]
  by (simp add: scan_fixed_def)

lemma field_pad:
  assumes "0 \<le> n" and "n < 10 ^ k" and "0 < k"
  shows "field k [c] (pad k n @ c # s) = Some (n, s)"
  using scan_fixed_pad [OF assms, of "c # s"] by (simp add: field_def expect_def)

lemma clock_sum:
  fixes r :: int
  shows "((r div 3600000000 * 60 + r div 60000000 mod 60) * 60 + r div 1000000 mod 60) * 1000000 + r mod 1000000 = r"
proof -
  have "r div 60000000 = r div 1000000 div 60" "r div 3600000000 = r div 1000000 div 60 div 60"
    by (simp_all add: zdiv_zmult2_eq [symmetric])
  then show ?thesis by (simp add: div_mult_mod_eq)
qed

lemma iso_clock_text:
  assumes "0 \<le> us" "us < 1000000" "h < 24" "m < 60" "s < 60"
  shows "iso_clock h m s ((if us = 0 then [] else ''.'' @ pad 6 us) @ ''+00:00'')
    = Some (((h * 60 + m) * 60 + s) * 1000000 + us)"
  using assms scan_fixed_pad [of us 6 "''+00:00''"] by (cases "us = 0") (simp_all add: iso_clock_def)

lemma iso_parse_text:
  assumes "0 \<le> y" "y < 10000" "0 \<le> mo" "mo < 100" "0 \<le> d" "d < 100" "0 \<le> h" "h < 24" "0 \<le> m" "m < 60"
    "0 \<le> s" "s < 60" "0 \<le> us" "us < 1000000"
    and "\<lparr>cv_year = y, cv_month = mo, cv_day = d\<rparr> = civil_of_days days"
  shows "iso_parse (pad 4 y @ CHR ''-'' # pad 2 mo @ CHR ''-'' # pad 2 d @ CHR ''T'' # pad 2 h @ CHR '':'' # pad 2 m
      @ CHR '':'' # pad 2 s @ (if us = 0 then [] else ''.'' @ pad 6 us) @ ''+00:00'')
    = Some (days * microseconds_per_day + (((h * 60 + m) * 60 + s) * 1000000 + us))"
proof -
  have f: "field 4 ''-'' (pad 4 y @ CHR ''-'' # r) = Some (y, r)"
    "field 2 ''-'' (pad 2 mo @ CHR ''-'' # r) = Some (mo, r)"
    "field 2 ''T'' (pad 2 d @ CHR ''T'' # r) = Some (d, r)"
    "field 2 '':'' (pad 2 h @ CHR '':'' # r) = Some (h, r)"
    "field 2 '':'' (pad 2 m @ CHR '':'' # r) = Some (m, r)"
    "scan_fixed 2 (pad 2 s @ r) = Some (s, r)" for r
    by (intro field_pad scan_fixed_pad; use assms in simp)+
  show ?thesis
    unfolding iso_parse_def f bind.simps(2) prod.case Let_def assms(15) days_of_civil_of_days
      iso_clock_text [OF assms(13,14,8,10,12)] by simp
qed

text \<open>A time written as ISO text and read back is the same time, for every time of the years 0 to
  9999, whether or not it has a fraction of a second.\<close>

theorem iso_roundtrip:
  assumes "0 \<le> cv_year (civil_of_days (t div microseconds_per_day))"
    and "cv_year (civil_of_days (t div microseconds_per_day)) < 10000"
  shows "iso_parse (iso_format t) = Some t"
proof -
  define c r where "c = civil_of_days (t div microseconds_per_day)" and "r = t mod microseconds_per_day"
  have r: "0 \<le> r" "r < microseconds_per_day" by (simp_all add: r_def)
  have "1 \<le> cv_month c" "cv_month c \<le> 12" "1 \<le> cv_day c" "cv_day c \<le> 31" "0 \<le> cv_year c" "cv_year c < 10000"
    using assms civil_ranges [of "t div microseconds_per_day"] by (simp_all add: c_def)
  moreover have "0 \<le> r div 3600000000" "r div 3600000000 < 24" using div_bounds [of 3600000000 r] r by linarith+
  ultimately have "iso_parse (pad 4 (cv_year c) @ CHR ''-'' # pad 2 (cv_month c) @ CHR ''-'' # pad 2 (cv_day c)
      @ CHR ''T'' # pad 2 (r div 3600000000) @ CHR '':'' # pad 2 (r div 60000000 mod 60)
      @ CHR '':'' # pad 2 (r div 1000000 mod 60)
      @ (if r mod 1000000 = 0 then [] else ''.'' @ pad 6 (r mod 1000000)) @ ''+00:00'')
    = Some (t div microseconds_per_day * microseconds_per_day
        + (((r div 3600000000 * 60 + r div 60000000 mod 60) * 60 + r div 1000000 mod 60) * 1000000 + r mod 1000000))"
    by (intro iso_parse_text) (simp_all add: c_def)
  also have "\<dots> = Some t" unfolding clock_sum by (simp add: r_def)
  finally show ?thesis
    by (simp only: iso_format_def iso_hour_def iso_date_def Let_def c_def [symmetric] r_def [symmetric]
        append_assoc append_Cons append_Nil)
qed

theorem iso_roundtrip_witness: "iso_parse (iso_format 1700000000000001) = Some 1700000000000001"
proof -
  have "cv_year (civil_of_days (1700000000000001 div microseconds_per_day)) = 2023" by code_simp
  then show ?thesis by (intro iso_roundtrip) simp_all
qed

end
