(* ===== verification/Sources.thy ===== *)
theory Sources
  imports ScheduledJobs Settings
begin

text \<open>
  The settings forms of \<open>src/src/api/services/dashboard_actions.py\<close>: the sources a profile
  follows and its configuration values. A posted form is the list of its fields in order; a
  field may repeat, and reading one value takes the last. A handler answers with a redirect,
  a refusal and its text, a missing row, or the exception it raises.
\<close>

section \<open>Forms\<close>

type_synonym form = "(string \<times> string) list"

definition post_get :: "form \<Rightarrow> string \<Rightarrow> string option" where
  "post_get post k = map_of (rev post) k"

definition post_list :: "form \<Rightarrow> string \<Rightarrow> string list" where
  "post_list post k = map snd (filter (\<lambda>kv. fst kv = k) post)"

definition post_text :: "form \<Rightarrow> string \<Rightarrow> string" where
  "post_text post k = text_of (post_get post k)"

text \<open>The dictionary view of a form: each field once, with its last value.\<close>

definition post_items :: "form \<Rightarrow> (string \<times> string) list" where
  "post_items post = foldl (\<lambda>acc (k, v). AList.update k v acc) [] post"

datatype 'a reply =
    Done 'a
  | Refused string
  | NotFound
  | Raised error

definition optional_int :: "string option \<Rightarrow> error + int option" where
  "optional_int v =
     (let raw = py_strip (text_of v) in
      if py_isdigit raw
      then (case py_int raw of None \<Rightarrow> Inl (ValueError raw) | Some n \<Rightarrow> Inr (Some n))
      else Inr None)"

definition optional_float :: "string option \<Rightarrow> pyfloat option" where
  "optional_float v = (let raw = py_strip (text_of v) in if raw = [] then None else py_float raw)"

definition true_words :: "string list" where
  "true_words = [''1'', ''true'', ''yes'', ''on'']"

definition posted_bool :: "form \<Rightarrow> string \<Rightarrow> string \<Rightarrow> bool" where
  "posted_bool post key dflt \<longleftrightarrow>
     (case post_get post key of None \<Rightarrow> dflt | Some v \<Rightarrow> v) \<in> set true_words"

section \<open>Reading a URL\<close>

text \<open>
  Scheme and network location as \<open>urllib.parse.urlparse\<close> finds them: blanks and control
  characters before the text and tabs and line breaks inside it are dropped.
\<close>

definition scheme_char :: "char \<Rightarrow> bool" where
  "scheme_char c \<longleftrightarrow> is_decimal c \<or> c \<in> set ''+-.''
     \<or> (let n = of_char c :: nat in (65 \<le> n \<and> n \<le> 90) \<or> (97 \<le> n \<and> n \<le> 122))"

definition clean_url :: "string \<Rightarrow> string" where
  "clean_url s = filter (\<lambda>c. of_char c \<notin> {9, 10, 13 :: nat})
     (dropWhile (\<lambda>c. of_char c \<le> (32 :: nat)) s)"

definition url_scheme_rest :: "string \<Rightarrow> string \<times> string" where
  "url_scheme_rest s =
     (let (a, sep, b) = py_partition CHR '':'' s in
      if sep \<noteq> [] \<and> a \<noteq> [] \<and> scheme_char (hd a) \<and> \<not> is_decimal (hd a) \<and> hd a \<notin> set ''+-.''
         \<and> list_all scheme_char a
      then (py_lower a, b) else ([], s))"

definition url_parts :: "string \<Rightarrow> string \<times> string" where
  "url_parts url =
     (let (scheme, rest) = url_scheme_rest (clean_url url) in
      (scheme, if take 2 rest = ''//''
               then takeWhile (\<lambda>c. c \<notin> set ''/?#'') (drop 2 rest) else []))"

section \<open>Source forms\<close>

record source_form =
  sf_name :: string
  sf_url :: string
  sf_media_type :: "string option"
  sf_enabled :: bool
  sf_subtitles :: bool
  sf_offset :: "pyfloat option"
  sf_max_downloads :: "int option"
  sf_delete_explicit :: bool
  sf_include_shorts :: bool
  sf_include_livestreams :: bool
  sf_title_exclude :: string

definition source_form_data :: "form \<Rightarrow> pyval \<Rightarrow> string \<Rightarrow> error + source_form" where
  "source_form_data post source_type pre =
     (let is_youtube = (parse_source_type source_type = Some YOUTUBE);
          media0 = post_text post (pre @ ''media_type'')
      in bind_result (optional_int (post_get post (pre @ ''max_downloads''))) (\<lambda>max_downloads.
        Inr \<lparr>sf_name = py_strip (post_text post (pre @ ''name'')),
             sf_url = py_strip (post_text post (pre @ ''url'')),
             sf_media_type = (if is_youtube
               then Some (py_lower (py_strip (if media0 = [] then ''audio'' else media0))) else None),
             sf_enabled = posted_bool post (pre @ ''enabled'') ''1'',
             sf_subtitles = posted_bool post (pre @ ''subtitles'') ''1'',
             sf_offset = optional_float (post_get post (pre @ ''subtitle_offset_seconds'')),
             sf_max_downloads = max_downloads,
             sf_delete_explicit = posted_bool post (pre @ ''delete_explicit_content'') [],
             sf_include_shorts = (is_youtube \<and> posted_bool post (pre @ ''include_shorts'') []),
             sf_include_livestreams = (is_youtube \<and> posted_bool post (pre @ ''include_livestreams'') []),
             sf_title_exclude = py_strip (post_text post (pre @ ''title_exclude''))\<rparr>))"

text \<open>
  The raw offset and limit are looked up under their plain names, whatever prefix the form's
  values were read with.
\<close>

definition source_form_errors :: "form \<Rightarrow> source_form \<Rightarrow> source_type \<Rightarrow> string list" where
  "source_form_errors post f st =
     (if sf_name f = [] then [''name is required'']
      else if length (sf_name f) > 255 then [''name must be 255 characters or fewer''] else [])
     @ (if sf_url f = [] then [''url is required'']
        else if fst (url_parts (sf_url f)) \<notin> {''http'', ''https''} \<or> snd (url_parts (sf_url f)) = []
        then [''url must be an absolute http(s) URL''] else [])
     @ (if st = YOUTUBE \<and> sf_media_type f \<notin> {Some ''audio'', Some ''video''}
        then [''media_type is invalid''] else [])
     @ (if py_strip (post_text post ''subtitle_offset_seconds'') \<noteq> []
           \<and> (case sf_offset f of None \<Rightarrow> True | Some x \<Rightarrow> \<not> pf_isfinite x)
        then [''subtitle_offset_seconds is invalid''] else [])
     @ (if py_strip (post_text post ''max_downloads'') \<noteq> []
           \<and> (case sf_max_downloads f of None \<Rightarrow> True | Some n \<Rightarrow> n < 1)
        then [''max_downloads is invalid''] else [])"

definition apply_source_form :: "time \<Rightarrow> bool \<Rightarrow> source_form \<Rightarrow> source_config \<Rightarrow> source_config" where
  "apply_source_form now include_enabled f s =
     (let s1 = s\<lparr>src_name := (if sf_name f = [] then src_name s else sf_name f),
                 src_url := (if sf_url f = [] then src_url s else sf_url f)\<rparr>;
          keep = text_of (src_media_type s);
          given = text_of (sf_media_type f);
          s2 = (if parse_source_type (PStr (src_source_type s)) = Some YOUTUBE
                then s1\<lparr>src_media_type := Some (if given \<noteq> [] then given
                           else if keep \<noteq> [] then keep else ''audio''),
                        src_include_shorts := sf_include_shorts f,
                        src_include_livestreams := sf_include_livestreams f\<rparr>
                else s1);
          s3 = (if include_enabled then s2\<lparr>src_enabled := sf_enabled f\<rparr> else s2)
      in s3\<lparr>src_subtitles := sf_subtitles f, src_subtitle_offset := sf_offset f,
            src_max_downloads := sf_max_downloads f, src_delete_explicit := sf_delete_explicit f,
            src_title_exclude := sf_title_exclude f, src_updated_at := now\<rparr>)"

section \<open>Source handlers\<close>

definition update_sources ::
    "(source_config \<Rightarrow> bool) \<Rightarrow> (source_config \<Rightarrow> source_config) \<Rightarrow> database \<Rightarrow> database" where
  "update_sources P f d = d\<lparr>source_configs := update_where P f (source_configs d)\<rparr>"

definition delete_sources :: "(source_config \<Rightarrow> bool) \<Rightarrow> database \<Rightarrow> database" where
  "delete_sources P d = d\<lparr>source_configs := delete_where P (source_configs d)\<rparr>"

definition max_position :: "int list \<Rightarrow> int option" where
  "max_position xs = (if xs = [] then None else Some (Max (set xs)))"

text \<open>\<open>(\<dots>.first() or -1) + 1\<close>: a highest position of 0 counts as none.\<close>

definition next_source_position :: "string \<Rightarrow> source_type \<Rightarrow> database \<Rightarrow> int" where
  "next_source_position profile st d =
     (case max_position (map src_position (filter (\<lambda>s. src_profile_id s = profile
             \<and> src_source_type s = source_type_value st) (source_configs d))) of
        None \<Rightarrow> -1
      | Some p \<Rightarrow> if p = 0 then -1 else p) + 1"

definition new_source ::
    "time \<Rightarrow> string \<Rightarrow> source_type \<Rightarrow> source_form \<Rightarrow> database \<Rightarrow> source_config" where
  "new_source now profile st f d =
     \<lparr>src_id = next_source_id d, src_profile_id = profile, src_source_type = source_type_value st,
      src_position = next_source_position profile st d, src_name = sf_name f, src_url = sf_url f,
      src_media_type = sf_media_type f, src_enabled = True, src_subtitles = sf_subtitles f,
      src_subtitle_offset = sf_offset f, src_max_downloads = sf_max_downloads f,
      src_delete_explicit = sf_delete_explicit f, src_include_shorts = sf_include_shorts f,
      src_include_livestreams = sf_include_livestreams f, src_title_exclude = sf_title_exclude f,
      src_updated_at = now\<rparr>"

definition add_source :: "time \<Rightarrow> string \<Rightarrow> form \<Rightarrow> database \<Rightarrow> unit reply \<times> database" where
  "add_source now profile post d =
     (case parse_source_type (case post_get post ''source_type'' of None \<Rightarrow> PNone | Some s \<Rightarrow> PStr s) of
        None \<Rightarrow> (Refused ''Invalid source_type'', d)
      | Some st \<Rightarrow>
          (case source_form_data post (PStr (source_type_value st)) [] of
             Inl e \<Rightarrow> (Raised e, d)
           | Inr f \<Rightarrow>
               let errors = source_form_errors post f st in
               if errors \<noteq> [] then (Refused (''Invalid source: '' @ join_with ''; '' errors), d)
               else (Done (), d\<lparr>source_configs := source_configs d @ [new_source now profile st f d],
                                next_source_id := next_source_id d + 1\<rparr>)))"

definition own_source :: "string \<Rightarrow> int \<Rightarrow> database \<Rightarrow> source_config option" where
  "own_source profile n d =
     first_row (\<lambda>s. src_id s = n \<and> src_profile_id s = profile) (source_configs d)"

definition source_kind :: "source_config \<Rightarrow> source_type" where
  "source_kind s = (case parse_source_type (PStr (src_source_type s)) of Some st \<Rightarrow> st | None \<Rightarrow> PODCAST)"

definition update_source :: "time \<Rightarrow> string \<Rightarrow> int \<Rightarrow> form \<Rightarrow> database \<Rightarrow> unit reply \<times> database" where
  "update_source now profile n post d =
     (case own_source profile n d of
        None \<Rightarrow> (NotFound, d)
      | Some s \<Rightarrow>
          (case source_form_data post (PStr (src_source_type s)) [] of
             Inl e \<Rightarrow> (Raised e, d)
           | Inr f \<Rightarrow>
               let errors = source_form_errors post f (source_kind s) in
               if errors \<noteq> [] then (Refused (''Invalid source: '' @ join_with ''; '' errors), d)
               else (Done (), update_sources (\<lambda>r. src_id r = n) (apply_source_form now False f) d)))"

definition toggle_source :: "time \<Rightarrow> string \<Rightarrow> int \<Rightarrow> database \<Rightarrow> unit reply \<times> database" where
  "toggle_source now profile n d =
     (case own_source profile n d of
        None \<Rightarrow> (NotFound, d)
      | Some s \<Rightarrow> (Done (), update_sources (\<lambda>r. src_id r = n)
          (\<lambda>r. r\<lparr>src_enabled := \<not> src_enabled r, src_updated_at := now\<rparr>) d))"

definition delete_source :: "string \<Rightarrow> int \<Rightarrow> database \<Rightarrow> unit reply \<times> database" where
  "delete_source profile n d =
     (case own_source profile n d of
        None \<Rightarrow> (NotFound, d)
      | Some s \<Rightarrow> (Done (), delete_sources (\<lambda>r. src_id r = n) d))"

fun posted_ints :: "string list \<Rightarrow> error + int list" where
  "posted_ints [] = Inr []"
| "posted_ints (v # vs) =
     (if py_isdigit v
      then (case py_int v of
              None \<Rightarrow> Inl (ValueError v)
            | Some n \<Rightarrow> bind_result (posted_ints vs) (\<lambda>ns. Inr (n # ns)))
      else posted_ints vs)"

definition editable_source :: "string \<Rightarrow> string \<Rightarrow> int \<Rightarrow> database \<Rightarrow> source_config option" where
  "editable_source profile st n d =
     first_row (\<lambda>s. src_id s = n \<and> src_profile_id s = profile \<and> src_source_type s = st) (source_configs d)"

definition source_prefix :: "int \<Rightarrow> string" where
  "source_prefix n = ''source_'' @ str_of_int n @ ''__''"

text \<open>First the whole form is validated, row by row.\<close>

fun validate_sources ::
    "form \<Rightarrow> string \<Rightarrow> string \<Rightarrow> database \<Rightarrow> int list \<Rightarrow> error + string list" where
  "validate_sources post profile st d [] = Inr []"
| "validate_sources post profile st d (n # ns) =
     (case editable_source profile st n d of
        None \<Rightarrow> validate_sources post profile st d ns
      | Some s \<Rightarrow>
          if posted_bool post (source_prefix n @ ''delete'') [] then validate_sources post profile st d ns
          else bind_result (source_form_data post (PStr (src_source_type s)) (source_prefix n)) (\<lambda>f.
            bind_result (validate_sources post profile st d ns) (\<lambda>rest.
              Inr (map (\<lambda>e. ''source '' @ str_of_int n @ '': '' @ e)
                     (source_form_errors post f (source_kind s)) @ rest))))"

text \<open>Then each row is deleted or saved; the rows were loaded before the first is written.\<close>

definition save_source_row :: "time \<Rightarrow> form \<Rightarrow> source_config \<Rightarrow> database \<Rightarrow> error + database" where
  "save_source_row now post s d =
     (if posted_bool post (source_prefix (src_id s) @ ''delete'') []
      then Inr (delete_sources (\<lambda>r. src_id r = src_id s) d)
      else bind_result (source_form_data post (PStr (src_source_type s)) (source_prefix (src_id s))) (\<lambda>f.
        Inr (update_sources (\<lambda>r. src_id r = src_id s) (apply_source_form now True f) d)))"

fun save_source_rows ::
    "time \<Rightarrow> form \<Rightarrow> source_config list \<Rightarrow> database \<Rightarrow> error + database" where
  "save_source_rows now post [] d = Inr d"
| "save_source_rows now post (s # ss) d =
     bind_result (save_source_row now post s d) (save_source_rows now post ss)"

definition save_sources ::
    "time \<Rightarrow> string \<Rightarrow> string \<Rightarrow> form \<Rightarrow> database \<Rightarrow> unit reply \<times> database" where
  "save_sources now profile st0 post d =
     (let st = py_lower (py_strip st0) in
      if st \<notin> {source_type_value YOUTUBE, source_type_value PODCAST}
      then (Refused ''Invalid source_type'', d)
      else (case posted_ints (post_list post ''source_ids'') of
              Inl e \<Rightarrow> (Raised e, d)
            | Inr ids \<Rightarrow>
                (case validate_sources post profile st d ids of
                   Inl e \<Rightarrow> (Raised e, d)
                 | Inr (e # es) \<Rightarrow> (Refused (''Invalid source: '' @ join_with ''; '' (e # es)), d)
                 | Inr [] \<Rightarrow>
                     (case save_source_rows now post
                             (List.map_filter (\<lambda>n. editable_source profile st n d) ids) d of
                        Inl e \<Rightarrow> (Raised e, d)
                      | Inr d' \<Rightarrow> (Done (), d')))))"

section \<open>Facts\<close>

text \<open>What the forms promise of a source row.\<close>

definition source_ok :: "source_config \<Rightarrow> bool" where
  "source_ok s \<longleftrightarrow> src_name s \<noteq> [] \<and> length (src_name s) \<le> 255
     \<and> fst (url_parts (src_url s)) \<in> {''http'', ''https''} \<and> snd (url_parts (src_url s)) \<noteq> []
     \<and> (parse_source_type (PStr (src_source_type s)) = Some YOUTUBE \<longrightarrow>
          src_media_type s \<in> {Some ''audio'', Some ''video''})
     \<and> (case src_max_downloads s of None \<Rightarrow> True | Some n \<Rightarrow> 1 \<le> n)
     \<and> (case src_subtitle_offset s of None \<Rightarrow> True | Some x \<Rightarrow> pf_isfinite x)"

definition form_ok :: "source_form \<Rightarrow> source_type \<Rightarrow> bool" where
  "form_ok f st \<longleftrightarrow> sf_name f \<noteq> [] \<and> length (sf_name f) \<le> 255
     \<and> sf_url f \<noteq> [] \<and> fst (url_parts (sf_url f)) \<in> {''http'', ''https''} \<and> snd (url_parts (sf_url f)) \<noteq> []
     \<and> (st = YOUTUBE \<longrightarrow> sf_media_type f \<in> {Some ''audio'', Some ''video''})
     \<and> (case sf_max_downloads f of None \<Rightarrow> True | Some n \<Rightarrow> 1 \<le> n)
     \<and> (case sf_offset f of None \<Rightarrow> True | Some x \<Rightarrow> pf_isfinite x)"

lemma optional_int_blank: "py_strip (text_of v) = [] \<Longrightarrow> optional_int v = Inr None"
  by (simp add: optional_int_def py_isdigit_def)

lemma plain_form_ok:
  assumes "source_form_data post v [] = Inr f" and "source_form_errors post f st = []"
  shows "form_ok f st"
proof -
  have off: "sf_offset f = optional_float (post_get post ''subtitle_offset_seconds'')"
    and mx: "optional_int (post_get post ''max_downloads'') = Inr (sf_max_downloads f)"
    using assms(1) by (auto simp: source_form_data_def Let_def bind_result_Inr)
  have "case sf_offset f of None \<Rightarrow> True | Some x \<Rightarrow> pf_isfinite x"
  proof (cases "py_strip (post_text post ''subtitle_offset_seconds'') = []")
    case True
    then show ?thesis by (simp add: off optional_float_def post_text_def)
  next
    case False
    then show ?thesis
      using assms(2) by (auto simp: source_form_errors_def split: if_splits option.splits)
  qed
  moreover have "case sf_max_downloads f of None \<Rightarrow> True | Some n \<Rightarrow> 1 \<le> n"
  proof (cases "py_strip (post_text post ''max_downloads'') = []")
    case True
    then show ?thesis using mx optional_int_blank by (simp add: post_text_def)
  next
    case False
    then show ?thesis
      using assms(2) by (auto simp: source_form_errors_def split: if_splits option.splits)
  qed
  ultimately show ?thesis
    using assms(2) by (auto simp: source_form_errors_def form_ok_def split: if_splits)
qed

lemma new_source_ok:
  assumes "form_ok f st"
  shows "source_ok (new_source now profile st f d)"
  using assms parse_values(1) [of st]
  by (auto simp: source_ok_def form_ok_def new_source_def)

lemma apply_source_form_ok:
  assumes "form_ok f (source_kind s)"
  shows "source_ok (apply_source_form now inc f s)"
  using assms
  by (auto simp: source_ok_def form_ok_def apply_source_form_def Let_def source_kind_def
      split: option.splits source_type.splits)

definition sources_wf :: "database \<Rightarrow> bool" where
  "sources_wf d \<longleftrightarrow> distinct (map src_id (source_configs d))
     \<and> (\<forall>s \<in> set (source_configs d). src_id s < next_source_id d)"

lemma own_source_only:
  assumes "sources_wf d" and "own_source profile n d = Some s"
  shows "s \<in> set (source_configs d) \<and> src_id s = n \<and> src_profile_id s = profile
    \<and> (\<forall>r \<in> set (source_configs d). src_id r = n \<longrightarrow> r = s)"
  using assms by (auto simp: own_source_def sources_wf_def distinct_map inj_on_def dest!: first_row_Some)

lemma apply_source_form_keys [simp]:
  "src_id (apply_source_form now inc f s) = src_id s"
  "src_profile_id (apply_source_form now inc f s) = src_profile_id s"
  "src_source_type (apply_source_form now inc f s) = src_source_type s"
  by (simp_all add: apply_source_form_def Let_def)

lemma update_sources_wf:
  assumes "\<And>r. src_id (f r) = src_id r"
  shows "sources_wf (update_sources P f d) = sources_wf d"
proof -
  have m: "map src_id (update_where P f (source_configs d)) = map src_id (source_configs d)"
    using assms by (rule map_update_where_frame)
  then have "src_id ` set (update_where P f (source_configs d)) = src_id ` set (source_configs d)"
    by (metis list.set_map)
  then have "(\<forall>s \<in> set (update_where P f (source_configs d)). src_id s < next_source_id d)
      = (\<forall>s \<in> set (source_configs d). src_id s < next_source_id d)"
    by (metis (no_types, lifting) imageE imageI)
  then show ?thesis using m by (simp add: sources_wf_def update_sources_def)
qed

lemma delete_sources_wf: "sources_wf d \<Longrightarrow> sources_wf (delete_sources P d)"
  by (auto simp: sources_wf_def delete_sources_def distinct_map_delete_where)

section \<open>Properties\<close>

text \<open>C40: Adding, updating, toggling and deleting a source keep every stored source well formed: a
  name of 1 to 255 characters, an absolute http or https URL, a media type a YouTube source can
  have, a positive limit and a finite offset; whatever is posted, the refused and the failing
  requests write nothing.\<close>

theorem source_handlers_keep_ok:
  assumes "sources_wf d" and "\<forall>s \<in> set (source_configs d). source_ok s"
    and "(r, d') = add_source now profile post d \<or> (r, d') = update_source now profile n post d
      \<or> (r, d') = toggle_source now profile n d \<or> (r, d') = delete_source profile n d"
  shows "sources_wf d' \<and> (\<forall>s \<in> set (source_configs d'). source_ok s) \<and> (r \<noteq> Done () \<longrightarrow> d' = d)"
  using assms(3)
proof (elim disjE)
  assume r: "(r, d') = add_source now profile post d"
  show ?thesis
    using r assms(1,2)
    by (auto simp: add_source_def Let_def sources_wf_def new_source_def split: option.splits sum.splits if_splits)
      (auto simp: new_source_def [symmetric] intro!: new_source_ok plain_form_ok)
next
  assume r: "(r, d') = update_source now profile n post d"
  show ?thesis
  proof (cases "own_source profile n d")
    case (Some s)
    note own = own_source_only [OF assms(1) Some]
    show ?thesis
    proof (cases "source_form_data post (PStr (src_source_type s)) []")
      case (Inr f)
      show ?thesis
      proof (cases "source_form_errors post f (source_kind s) = []")
        case True
        then have f: "form_ok f (source_kind s)" using plain_form_ok Inr by blast
        have d': "r = Done ()" "d' = update_sources (\<lambda>r. src_id r = n) (apply_source_form now False f) d"
          using r Some Inr True by (simp_all add: update_source_def)
        have "source_ok x" if "x \<in> set (source_configs d')" for x
          using that own assms(2) apply_source_form_ok [OF f]
          by (auto simp: d' update_sources_def set_update_where)
        then show ?thesis using assms(1) d' by (simp add: update_sources_wf)
      qed (use r Some Inr assms in \<open>auto simp: update_source_def Let_def\<close>)
    qed (use r Some assms in \<open>auto simp: update_source_def\<close>)
  qed (use r assms in \<open>auto simp: update_source_def\<close>)
next
  assume r: "(r, d') = toggle_source now profile n d"
  let ?t = "\<lambda>r. r\<lparr>src_enabled := \<not> src_enabled r, src_updated_at := now\<rparr>"
  have "sources_wf (update_sources (\<lambda>r. src_id r = n) ?t d)"
    using assms(1) by (simp add: update_sources_wf)
  moreover have "source_ok (?t x) = source_ok x" for x by (simp add: source_ok_def)
  ultimately show ?thesis
    using r assms(1,2)
    by (auto simp: toggle_source_def split: option.splits)
      (auto simp: update_sources_def set_update_where)
next
  assume r: "(r, d') = delete_source profile n d"
  then show ?thesis
    using assms(1,2) delete_sources_wf
    by (auto simp: delete_source_def delete_sources_def split: option.splits)
qed

definition sample_form :: form where
  "sample_form = [(''source_type'', ''podcast''), (''name'', ''News''), (''url'', ''https://a.example/feed''),
     (''max_downloads'', ''5'')]"

theorem source_handlers_keep_ok_witness:
  "list_all source_ok (source_configs (snd (add_source 7 ''default'' sample_form empty_database)))
   \<and> map src_name (source_configs (snd (add_source 7 ''default'' sample_form empty_database))) = [''News'']"
proof -
  have "sources_wf empty_database" "\<forall>s \<in> set (source_configs empty_database). source_ok s"
    by (simp_all add: sources_wf_def empty_database_def)
  from source_handlers_keep_ok [OF this, of "fst (add_source 7 ''default'' sample_form empty_database)"
      "snd (add_source 7 ''default'' sample_form empty_database)" 7 "''default''" sample_form 0]
  have "list_all source_ok (source_configs (snd (add_source 7 ''default'' sample_form empty_database)))"
    by (simp add: list_all_iff)
  moreover have "map src_name (source_configs (snd (add_source 7 ''default'' sample_form empty_database))) = [''News'']"
    by code_simp
  ultimately show ?thesis by blast
qed

text \<open>The bulk save checks the offset and the limit under field names its form does not have:
  when the plain fields are absent, no error about them is ever reported, so a row is saved with
  whatever was posted, a limit of 0 included.\<close>

theorem bulk_save_skips_limits:
  assumes "post_get post ''max_downloads'' = None" and "post_get post ''subtitle_offset_seconds'' = None"
  shows "''max_downloads is invalid'' \<notin> set (source_form_errors post f st)
    \<and> ''subtitle_offset_seconds is invalid'' \<notin> set (source_form_errors post f st)"
  using assms
  by (auto simp: source_form_errors_def post_text_def py_strip_def strip_chars_def rstrip_chars_def)

definition zero_limit_form :: form where
  "zero_limit_form = [(''source_ids'', ''1''), (''source_1__name'', ''News''),
     (''source_1__url'', ''https://a.example/feed''), (''source_1__max_downloads'', ''0'')]"

definition news_source :: source_config where
  "news_source = \<lparr>src_id = 1, src_profile_id = ''default'', src_source_type = ''podcast'',
     src_position = 0, src_name = ''News'', src_url = ''https://a.example/feed'', src_media_type = None,
     src_enabled = True, src_subtitles = True, src_subtitle_offset = None, src_max_downloads = Some 5,
     src_delete_explicit = False, src_include_shorts = False, src_include_livestreams = False,
     src_title_exclude = [], src_updated_at = 0\<rparr>"

theorem bulk_save_skips_limits_witness:
  "''max_downloads is invalid'' \<notin> set (source_form_errors zero_limit_form f PODCAST)
   \<and> (\<exists>g. source_form_data zero_limit_form (PStr ''podcast'') (source_prefix 1) = Inr g
        \<and> sf_max_downloads g = Some 0)"
proof -
  have a: "post_get zero_limit_form ''max_downloads'' = None"
    "post_get zero_limit_form ''subtitle_offset_seconds'' = None"
    by code_simp+
  have "optional_int (post_get zero_limit_form (source_prefix 1 @ ''max_downloads'')) = Inr (Some 0)"
    by code_simp
  then show ?thesis
    using bulk_save_skips_limits [OF a] by (auto simp: source_form_data_def Let_def)
qed

text \<open>Source positions never advance: as long as every source of the kind stands at position 0,
  the next one is put at 0 as well, so adding sources one after another gives all of them the
  same position.\<close>

theorem source_positions_stuck:
  assumes "\<forall>s \<in> set (source_configs d). src_profile_id s = profile \<and> src_source_type s = source_type_value st
      \<longrightarrow> src_position s = 0"
  shows "next_source_position profile st d = 0"
proof -
  let ?ps = "map src_position (filter (\<lambda>s. src_profile_id s = profile
    \<and> src_source_type s = source_type_value st) (source_configs d))"
  show ?thesis
  proof (cases "?ps = []")
    case False
    have "set ?ps \<subseteq> {0}" using assms by auto
    then have "set ?ps = {0}" using False by (metis set_empty subset_singletonD)
    then have "Max (set ?ps) = 0" by simp
    then show ?thesis using False by (simp add: next_source_position_def max_position_def)
  qed (simp add: next_source_position_def max_position_def)
qed

theorem source_positions_stuck_witness:
  "next_source_position ''default'' PODCAST (empty_database\<lparr>source_configs := [news_source]\<rparr>) = 0"
  by (rule source_positions_stuck) (simp add: news_source_def)

text \<open>Rows the bulk save of a profile and kind may not touch, and the keys it may not change.\<close>

definition outside :: "string \<Rightarrow> string \<Rightarrow> database \<Rightarrow> source_config list" where
  "outside profile st d =
     filter (\<lambda>r. src_profile_id r \<noteq> profile \<or> src_source_type r \<noteq> st) (source_configs d)"

definition owns :: "string \<Rightarrow> string \<Rightarrow> database \<Rightarrow> int \<Rightarrow> bool" where
  "owns profile st d n \<longleftrightarrow>
     (\<forall>r \<in> set (source_configs d). src_id r = n \<longrightarrow> src_profile_id r = profile \<and> src_source_type r = st)"

lemma save_source_row_outside:
  assumes "save_source_row now post s d = Inr d'" and "owns profile st d (src_id s)"
  shows "outside profile st d' = outside profile st d \<and> (\<forall>n. owns profile st d n \<longrightarrow> owns profile st d' n)"
proof (cases "posted_bool post (source_prefix (src_id s) @ ''delete'') []")
  case True
  then have d': "d' = delete_sources (\<lambda>r. src_id r = src_id s) d"
    using assms(1) by (simp add: save_source_row_def)
  have "outside profile st d' = outside profile st d"
    unfolding outside_def d' delete_sources_def delete_where_def
    using assms(2) by (auto simp: owns_def intro!: filter_cong)
  then show ?thesis by (auto simp: owns_def d' delete_sources_def)
next
  case False
  then obtain f where d': "d' = update_sources (\<lambda>r. src_id r = src_id s) (apply_source_form now True f) d"
    using assms(1) by (auto simp: save_source_row_def bind_result_Inr)
  have "outside profile st d' = outside profile st d"
    unfolding outside_def d' update_sources_def
    using assms(2) by (auto simp: owns_def intro!: filter_update_where_frame)
  then show ?thesis by (auto simp: owns_def d' update_sources_def set_update_where)
qed

lemma save_source_rows_outside:
  "save_source_rows now post ss d = Inr d' \<Longrightarrow> \<forall>s \<in> set ss. owns profile st d (src_id s) \<Longrightarrow>
   outside profile st d' = outside profile st d"
proof (induction ss arbitrary: d)
  case (Cons s ss)
  obtain d1 where d1: "save_source_row now post s d = Inr d1" "save_source_rows now post ss d1 = Inr d'"
    using Cons.prems(1) by (auto simp: bind_result_Inr)
  have o: "outside profile st d1 = outside profile st d" "\<forall>n. owns profile st d n \<longrightarrow> owns profile st d1 n"
    using save_source_row_outside [OF d1(1)] Cons.prems(2) by auto
  then show ?case using Cons.IH [OF d1(2)] Cons.prems(2) by simp
qed simp

text \<open>The bulk save of one kind of source never touches a source of another profile or of the
  other kind, whatever ids are posted, and a refused form writes nothing.\<close>

theorem save_sources_isolated:
  assumes "sources_wf d" and "save_sources now profile kind post d = (r, d')"
  shows "outside profile (py_lower (py_strip kind)) d' = outside profile (py_lower (py_strip kind)) d
    \<and> (r \<noteq> Done () \<longrightarrow> d' = d)"
proof -
  let ?st = "py_lower (py_strip kind)"
  have own: "owns profile ?st d (src_id s)" if "editable_source profile ?st n d = Some s" for n s
    using that assms(1)
    by (auto simp: editable_source_def owns_def sources_wf_def distinct_map inj_on_def dest!: first_row_Some)
  have "outside profile ?st x = outside profile ?st d"
    if "save_source_rows now post (List.map_filter (\<lambda>n. editable_source profile ?st n d) ids) d = Inr x" for ids x
    using that own by (intro save_source_rows_outside) (auto simp: map_filter_def)
  then show ?thesis
    using assms(2)
    by (auto simp: save_sources_def Let_def split: if_splits sum.splits list.splits)
qed

theorem save_sources_isolated_witness:
  "outside ''kids'' ''podcast'' (snd (save_sources 9 ''kids'' ''podcast'' zero_limit_form
     (empty_database\<lparr>source_configs := [news_source], next_source_id := 2\<rparr>))) = [news_source]"
proof -
  let ?d = "empty_database\<lparr>source_configs := [news_source], next_source_id := 2\<rparr>"
  have wf: "sources_wf ?d" by (simp add: sources_wf_def news_source_def)
  have n: "py_lower (py_strip ''podcast'') = ''podcast''" by code_simp
  obtain r d' where s: "save_sources 9 ''kids'' ''podcast'' zero_limit_form ?d = (r, d')"
    by (metis prod.collapse)
  from save_sources_isolated [OF wf s] n show ?thesis
    using s by (simp add: outside_def news_source_def)
qed

end
