(* ===== verification/Streaming.thy ===== *)
theory Streaming
  imports Subtitles
begin

text \<open>
  \<open>src/src/api/streaming/media.py\<close>: finding the file behind an episode, serving it whole or in
  part, and turning SRT subtitles into WebVTT. The files are the world's; \<open>resolve\<close> stands for
  \<open>expanduser\<close> and \<open>resolve\<close>, which depend on the machine, and \<open>guess\<close> for the table of
  \<open>mimetypes\<close>. A file's content is a list of bytes of any type.
\<close>

type_synonym file_system = "string \<Rightarrow> file_node option"

definition MEDIA_RANGE_CHUNK_SIZE :: nat where
  "MEDIA_RANGE_CHUNK_SIZE = 64 * 1024"

section \<open>Finding files\<close>

definition safe_path :: "(path \<Rightarrow> path) \<Rightarrow> file_system \<Rightarrow> string \<Rightarrow> error + path" where
  "safe_path resolve fs raw =
     (if raw = [] then Inl (Http404 ''File unavailable'')
      else let p = resolve (path_of raw) in
        if \<not> path_exists fs (path_str p) \<or> \<not> is_file fs (path_str p)
        then Inl (Http404 ''File unavailable'') else Inr p)"

definition media_candidates :: "(path \<Rightarrow> path) \<Rightarrow> database \<Rightarrow> download \<Rightarrow> path list" where
  "media_candidates resolve d r =
     (if text_of (dl_file_path_relative r) \<noteq> []
      then [path_join (profile_output_root resolve d (dl_profile_id r))
              (path_of (text_of (dl_file_path_relative r)))] else [])
     @ (if text_of (dl_file_path r) \<noteq> [] then [path_of (text_of (dl_file_path r))] else [])"

fun first_safe :: "(path \<Rightarrow> path) \<Rightarrow> file_system \<Rightarrow> path list \<Rightarrow> error + path" where
  "first_safe resolve fs [] = Inl (Http404 ''File unavailable'')"
| "first_safe resolve fs (c # cs) =
     (case safe_path resolve fs (path_str c) of
        Inr p \<Rightarrow> Inr p
      | Inl (Http404 _) \<Rightarrow> first_safe resolve fs cs
      | Inl e \<Rightarrow> Inl e)"

definition resolve_media_path ::
    "(path \<Rightarrow> path) \<Rightarrow> file_system \<Rightarrow> database \<Rightarrow> download \<Rightarrow> error + path" where
  "resolve_media_path resolve fs d r = first_safe resolve fs (media_candidates resolve d r)"

definition subtitle_candidates ::
    "(path \<Rightarrow> path) \<Rightarrow> database \<Rightarrow> download \<Rightarrow> path \<Rightarrow> path list" where
  "subtitle_candidates resolve d r media =
     (if text_of (dl_subtitle_path r) \<noteq> [] then [path_of (text_of (dl_subtitle_path r))] else [])
     @ (if text_of (dl_subtitle_path_relative r) \<noteq> []
        then [path_join (profile_output_root resolve d (dl_profile_id r))
                (path_of (text_of (dl_subtitle_path_relative r)))] else [])
     @ [with_suffix media ''.srt'', with_suffix media ''.vtt'']"

definition acceptable_subtitle :: "file_system \<Rightarrow> path \<Rightarrow> path \<Rightarrow> bool" where
  "acceptable_subtitle fs base p \<longleftrightarrow>
     relative_to p base \<noteq> None \<and> is_file fs (path_str p)
     \<and> py_lower (path_suffix p) \<in> set [''.srt'', ''.vtt'']"

definition resolve_subtitle_path ::
    "(path \<Rightarrow> path) \<Rightarrow> file_system \<Rightarrow> database \<Rightarrow> download \<Rightarrow> error + path option" where
  "resolve_subtitle_path resolve fs d r =
     bind_result (resolve_media_path resolve fs d r) (\<lambda>media.
       Inr (List.find (acceptable_subtitle fs (profile_output_root resolve d (dl_profile_id r)))
              (map resolve (subtitle_candidates resolve d r media))))"

section \<open>Ranges\<close>

text \<open>The chunks \<open>file_range_iterator\<close> yields, from the bytes left in the file.\<close>

function read_chunks :: "nat \<Rightarrow> 'b list \<Rightarrow> 'b list list" where
  "read_chunks remaining rest =
     (if remaining = 0 then []
      else let chunk = take (min MEDIA_RANGE_CHUNK_SIZE remaining) rest in
        if chunk = [] then []
        else chunk # read_chunks (remaining - length chunk) (drop (length chunk) rest))"
  by pat_completeness auto
termination by (relation "measure fst") (auto simp: MEDIA_RANGE_CHUNK_SIZE_def)

declare read_chunks.simps [simp del]

definition file_range_iterator :: "'b list \<Rightarrow> int \<Rightarrow> int \<Rightarrow> 'b list list" where
  "file_range_iterator content first len = read_chunks (nat len) (drop (nat first) content)"

text \<open>The first and last byte a \<open>Range\<close> header asks for; an unreadable number means the whole.\<close>

definition requested_range :: "int \<Rightarrow> string \<Rightarrow> int \<times> int option" where
  "requested_range file_size header =
     (let (start_text, _, end_text) = py_partition CHR ''-'' (remove_prefix ''bytes='' header) in
      if start_text \<noteq> [] then
        (case py_int start_text of
           None \<Rightarrow> (0, None)
         | Some s \<Rightarrow>
             if end_text = [] then (s, None)
             else (case py_int end_text of None \<Rightarrow> (0, None) | Some e \<Rightarrow> (s, Some e)))
      else if end_text = [] then (0, Some (file_size - 1))
      else (case py_int end_text of
              None \<Rightarrow> (0, None)
            | Some n \<Rightarrow> (max (file_size - n) 0, Some (file_size - 1))))"

definition clamp_range :: "int \<Rightarrow> int \<times> int option \<Rightarrow> int \<times> int" where
  "clamp_range file_size req =
     (let start = max 0 (min (fst req) (file_size - 1));
          last = (case snd req of None \<Rightarrow> file_size - 1
                                | Some e \<Rightarrow> max start (min e (file_size - 1)))
      in (start, last))"

record 'b media_reply =
  mr_status :: int
  mr_content_type :: string
  mr_content_range :: "string option"
  mr_content_length :: int
  mr_body :: "'b list list"
  mr_frame_allowed :: bool

definition media_response ::
    "(string \<Rightarrow> string option) \<Rightarrow> path \<Rightarrow> 'b list \<Rightarrow> string \<Rightarrow> 'b media_reply" where
  "media_response guess p content range_header =
     (let content_type = (case guess (path_name p) of Some t \<Rightarrow> t | None \<Rightarrow> ''application/octet-stream'');
          file_size = int (length content);
          framed = (content_type = ''application/pdf'')
      in if prefix ''bytes='' range_header then
           let (start, last) = clamp_range file_size (requested_range file_size range_header);
               len = last - start + 1
           in \<lparr>mr_status = 206, mr_content_type = content_type,
               mr_content_range = Some (''bytes '' @ str_of_int start @ ''-'' @ str_of_int last @ ''/''
                                        @ str_of_int file_size),
               mr_content_length = len, mr_body = file_range_iterator content start len,
               mr_frame_allowed = framed\<rparr>
         else \<lparr>mr_status = 200, mr_content_type = content_type, mr_content_range = None,
               mr_content_length = file_size, mr_body = [content], mr_frame_allowed = framed\<rparr>)"

section \<open>Subtitles\<close>

definition vtt_line :: "string \<Rightarrow> string option" where
  "vtt_line line =
     (case match_cue line of
        Some ((c1, m1), (c2, m2), tail) \<Rightarrow> Some (c1 @ ''.'' @ m1 @ '' --> '' @ c2 @ ''.'' @ m2 @ tail)
      | None \<Rightarrow> if py_isdigit (py_strip line) then None else Some line)"

definition srt_to_vtt :: "string \<Rightarrow> string" where
  "srt_to_vtt content =
     py_strip (join_with [CHR 0x0A] ([''WEBVTT'', []] @ List.map_filter vtt_line (split_lines content)))
     @ [CHR 0x0A]"

definition subtitle_response :: "path \<Rightarrow> string \<Rightarrow> string" where
  "subtitle_response p text =
     (if py_lower (path_suffix p) = ''.srt'' then srt_to_vtt text
      else if \<not> prefix ''WEBVTT'' (py_lstrip text) then ''WEBVTT'' @ [CHR 0x0A, CHR 0x0A] @ text
      else text)"

section \<open>Facts\<close>

lemma concat_read_chunks: "concat (read_chunks n bs) = take n bs"
proof (induction n bs rule: read_chunks.induct)
  case (1 n bs)
  let ?chunk = "take (min MEDIA_RANGE_CHUNK_SIZE n) bs"
  show ?case
  proof (cases "n = 0 \<or> ?chunk = []")
    case True
    then show ?thesis by (subst read_chunks.simps) (auto simp: MEDIA_RANGE_CHUNK_SIZE_def)
  next
    case False
    then have "concat (read_chunks n bs)
        = ?chunk @ concat (read_chunks (n - length ?chunk) (drop (length ?chunk) bs))"
      by (subst read_chunks.simps) (simp add: Let_def min_def split: if_splits)
    also have "\<dots> = ?chunk @ take (n - length ?chunk) (drop (length ?chunk) bs)"
      using 1 False by simp
    also have "\<dots> = take n bs"
    proof -
      have "length ?chunk \<le> n" by simp
      moreover have "?chunk = take (length ?chunk) bs" by (simp add: min_def)
      ultimately show ?thesis by (metis le_add_diff_inverse take_add)
    qed
    finally show ?thesis .
  qed
qed

lemma read_chunks_small: "c \<in> set (read_chunks n bs) \<Longrightarrow> c \<noteq> [] \<and> length c \<le> MEDIA_RANGE_CHUNK_SIZE"
proof (induction n bs rule: read_chunks.induct)
  case (1 n bs)
  then show ?case by (subst (asm) (2) read_chunks.simps) (auto simp: Let_def split: if_splits)
qed

section \<open>Properties\<close>

text \<open>C38: A range reply on a file that is not empty stays inside the file whatever the header says,
  its length header is the number of bytes its body has, and the body, read in chunks of at most
  64 KiB, is exactly that stretch of the file.\<close>

theorem media_range_reply:
  assumes "prefix ''bytes='' header" and "content \<noteq> []"
  shows "\<exists>start last. clamp_range (int (length content)) (requested_range (int (length content)) header)
      = (start, last)
    \<and> 0 \<le> start \<and> start \<le> last \<and> last < int (length content)
    \<and> mr_status (media_response guess p content header) = 206
    \<and> mr_content_length (media_response guess p content header) = last - start + 1
    \<and> concat (mr_body (media_response guess p content header))
      = take (nat (last - start + 1)) (drop (nat start) content)
    \<and> int (length (concat (mr_body (media_response guess p content header))))
      = mr_content_length (media_response guess p content header)
    \<and> (\<forall>c \<in> set (mr_body (media_response guess p content header)).
        length c \<le> MEDIA_RANGE_CHUNK_SIZE)"
proof -
  let ?n = "int (length content)"
  obtain start last where sl: "clamp_range ?n (requested_range ?n header) = (start, last)"
    by (metis prod.collapse)
  have n: "0 < ?n" using assms(2) by simp
  have r: "0 \<le> start" "start \<le> last" "last < ?n"
    using sl n by (auto simp: clamp_range_def Let_def split: option.splits)
  have m: "mr_status (media_response guess p content header) = 206"
    "mr_content_length (media_response guess p content header) = last - start + 1"
    "mr_body (media_response guess p content header) = file_range_iterator content start (last - start + 1)"
    using sl assms(1) by (simp_all add: media_response_def Let_def)
  show ?thesis
    using sl r m read_chunks_small
    by (auto simp: file_range_iterator_def concat_read_chunks)
qed

theorem media_range_reply_witness:
  "concat (mr_body (media_response (\<lambda>_. None) (path_of ''/m/a.mp3'') [1::int, 2, 3, 4, 5] ''bytes=-2''))
   = [4, 5]"
proof -
  have "prefix ''bytes='' ''bytes=-2''" by simp
  moreover have "clamp_range 5 (requested_range 5 ''bytes=-2'') = (3, 4)" by code_simp
  ultimately show ?thesis
    using media_range_reply [of "''bytes=-2''" "[1::int, 2, 3, 4, 5]" "\<lambda>_. None" "path_of ''/m/a.mp3''"]
    by auto
qed

lemma partition_number:
  "0 \<le> a \<Longrightarrow> py_partition CHR ''-'' (str_of_int a @ ''-'' @ t) = (str_of_int a, ''-'', t)"
proof -
  assume "0 \<le> a"
  then have "\<And>c. c \<in> set (str_of_int a) \<Longrightarrow> c \<noteq> CHR ''-''"
    using str_of_nat_decimal decimal_not_special by (auto simp: str_of_int_def)
  then show ?thesis by (simp add: py_partition_def Let_def)
qed

lemma str_of_int_nonempty [simp]: "str_of_int a \<noteq> []"
  by (simp add: str_of_int_def)

text \<open>The three forms of a byte range mean what HTTP says: from a first to a last byte, from a
  first byte to the end, and the last bytes of the file.\<close>

theorem range_forms:
  assumes "0 \<le> a" and "a \<le> b" and "b < n" and "0 < k" and "k \<le> n"
  shows "clamp_range n (requested_range n (''bytes='' @ str_of_int a @ ''-'' @ str_of_int b)) = (a, b)
    \<and> clamp_range n (requested_range n (''bytes='' @ str_of_int a @ ''-'')) = (a, n - 1)
    \<and> clamp_range n (requested_range n (''bytes=-'' @ str_of_int k)) = (n - k, n - 1)"
proof -
  have "remove_prefix ''bytes='' (''bytes='' @ s) = s" for s by (simp add: remove_prefix_def)
  from this [of "str_of_int a @ ''-'' @ str_of_int b"] this [of "str_of_int a @ ''-''"]
    this [of "''-'' @ str_of_int k"]
  have p: "remove_prefix ''bytes='' (''bytes='' @ str_of_int a @ ''-'' @ str_of_int b)
      = str_of_int a @ ''-'' @ str_of_int b"
    "remove_prefix ''bytes='' (''bytes='' @ str_of_int a @ ''-'') = str_of_int a @ ''-'' @ []"
    "remove_prefix ''bytes='' (''bytes=-'' @ str_of_int k) = ''-'' @ str_of_int k"
    by simp_all
  have "py_partition CHR ''-'' (''-'' @ str_of_int k) = ([], ''-'', str_of_int k)"
    by (simp add: py_partition_def Let_def)
  then show ?thesis
    unfolding requested_range_def p
    using assms partition_number [OF assms(1)]
    by (simp add: py_int_str_of_int clamp_range_def)
qed

theorem range_forms_witness:
  "clamp_range 10 (requested_range 10 (''bytes='' @ str_of_int 2 @ ''-'' @ str_of_int 5)) = (2, 5)"
  using range_forms [of 2 5 10 1] by simp

text \<open>On an empty file a range request announces one byte and sends none, so the length header
  is wrong.\<close>

theorem empty_file_range_length:
  "mr_content_length (media_response guess p [] ''bytes=0-5'') = 1
   \<and> concat (mr_body (media_response guess p ([] :: 'b list) ''bytes=0-5'')) = []"
proof -
  have "clamp_range 0 (requested_range 0 ''bytes=0-5'') = (0, 0)" by code_simp
  then show ?thesis
    by (simp add: media_response_def Let_def file_range_iterator_def concat_read_chunks)
qed

text \<open>A subtitle file is only ever served from inside the profile's output directory, and only
  when it is a regular file with a subtitle suffix, whatever paths the episode's row holds.\<close>

theorem subtitle_path_confined:
  assumes "resolve_subtitle_path resolve fs d r = Inr (Some p)"
  shows "(\<exists>q. relative_to p (profile_output_root resolve d (dl_profile_id r)) = Some q
       \<and> path_join (profile_output_root resolve d (dl_profile_id r)) q = p)
    \<and> is_file fs (path_str p) \<and> py_lower (path_suffix p) \<in> {''.srt'', ''.vtt''}"
proof -
  have "acceptable_subtitle fs (profile_output_root resolve d (dl_profile_id r)) p"
    using assms by (auto simp: resolve_subtitle_path_def bind_result_Inr find_Some_iff)
  then show ?thesis using join_relative_to by (auto simp: acceptable_subtitle_def)
qed

definition sample_fs :: file_system where
  "sample_fs = (\<lambda>_. None)(''/media/one.mp3'' \<mapsto> RegularFile 10, ''/media/one.srt'' \<mapsto> RegularFile 5)"

definition media_root_db :: database where
  "media_root_db = empty_database\<lparr>app_config := [\<lparr>app_key = ''output_root'', app_value = ''/media'', app_updated_at = 0\<rparr>]\<rparr>"

theorem subtitle_path_confined_witness:
  "\<exists>q. relative_to (path_of ''/media/one.srt'') (path_of ''/media'') = Some q"
proof -
  have root: "profile_output_root id media_root_db (dl_profile_id sample_download) = path_of ''/media''"
    by (simp add: profile_output_root_def output_root_text_def media_root_db_def profile_value_def
        app_value_of_def empty_database_def)
  have p: "path_str (path_of ''/media/one.mp3'') = ''/media/one.mp3''"
    "path_str (path_of ''/media/one.srt'') = ''/media/one.srt''"
    "path_of ''/media/one.mp3'' = Path True [''media'', ''one.mp3'']"
    "with_suffix (path_of ''/media/one.mp3'') ''.srt'' = path_of ''/media/one.srt''"
    "py_lower (path_suffix (path_of ''/media/one.srt'')) = ''.srt''"
    "relative_to (path_of ''/media/one.srt'') (path_of ''/media'') = Some (Path False [''one.srt''])"
    by code_simp+
  have "resolve_media_path id sample_fs media_root_db sample_download = Inr (path_of ''/media/one.mp3'')"
    using p(1) by (simp add: resolve_media_path_def media_candidates_def sample_download_def safe_path_def
        sample_fs_def path_exists_def is_file_def)
  then have "resolve_subtitle_path id sample_fs media_root_db sample_download
      = Inr (Some (path_of ''/media/one.srt''))"
    using p(2,4-6) root
    by (simp add: resolve_subtitle_path_def subtitle_candidates_def sample_download_def
        acceptable_subtitle_def sample_fs_def is_file_def)
  from subtitle_path_confined [OF this] root show ?thesis by auto
qed

end
