(* ===== verification/Pipeline.thy ===== *)
theory Pipeline
  imports Sources Streaming
begin

text \<open>
  The pipeline panel of the dashboard (\<open>src/src/api/services/dashboard_actions.py\<close>): the queued
  and running jobs of a profile that still have work to do, each with the title, source and stage
  the panel shows. The clock and the environment variable with the staleness limit are arguments.
\<close>

section \<open>Titles\<close>

definition is_cased :: "char \<Rightarrow> bool" where
  "is_cased c \<longleftrightarrow> (let n = ord c in
     (65 \<le> n \<and> n \<le> 90) \<or> (97 \<le> n \<and> n \<le> 122) \<or> n \<in> {170, 181, 186}
     \<or> (192 \<le> n \<and> n \<noteq> 215 \<and> n \<noteq> 247))"

definition title_char :: "char \<Rightarrow> string" where
  "title_char c = (if ord c = (223 :: nat) then ''Ss'' else upper_char c)"

fun title_from :: "bool \<Rightarrow> string \<Rightarrow> string" where
  "title_from prev [] = []"
| "title_from prev (c # cs) = (if prev then [lower_char c] else title_char c) @ title_from (is_cased c) cs"

definition job_type_title :: "string \<Rightarrow> string" where
  "job_type_title s = title_from False (map (\<lambda>c. if c = CHR ''_'' then CHR '' '' else c) s)"

text \<open>The first key whose value, stripped, is not empty.\<close>

fun first_text :: "pydict \<Rightarrow> string list \<Rightarrow> string option" where
  "first_text payload [] = None"
| "first_text payload (k # ks) =
     (let v = py_strip (str_or_empty (dget payload k)) in if v \<noteq> [] then Some v else first_text payload ks)"

fun first_defaults_title :: "pydict \<Rightarrow> string list \<Rightarrow> string option" where
  "first_defaults_title payload [] = None"
| "first_defaults_title payload (k # ks) =
     (let dflt = dget payload k; v = py_strip (str_or_empty (dget (as_dict dflt) ''title'')) in
      if is_dict dflt \<and> v \<noteq> [] then Some v else first_defaults_title payload ks)"

definition own_download :: "string \<Rightarrow> int \<Rightarrow> database \<Rightarrow> download option" where
  "own_download profile n d =
     first_row (\<lambda>r. dl_id r = n \<and> dl_profile_id r = profile) (downloads d)"

definition stored_title :: "job \<Rightarrow> pyval \<Rightarrow> database \<Rightarrow> error + string" where
  "stored_title j download_id d =
     (if \<not> truthy download_id then Inr []
      else (case py_int_val download_id of
              None \<Rightarrow> Inl (int_error download_id)
            | Some n \<Rightarrow> Inr (case own_download (job_profile_id j) n d of
                               None \<Rightarrow> [] | Some r \<Rightarrow> text_of (dl_title r))))"

definition job_display_title :: "database \<Rightarrow> job \<Rightarrow> error + string" where
  "job_display_title d j =
     (let payload = as_dict (job_payload j) in
      bind_result (stored_title j (dget payload ''download_id'') d) (\<lambda>title.
        Inr (if title \<noteq> [] then title
             else case first_text payload
                    [''active_title'', ''title'', ''episode_title'', ''item_title'', ''url''] of
               Some v \<Rightarrow> v
             | None \<Rightarrow>
                 (case first_defaults_title payload [''download_defaults'', ''deferred_download_defaults''] of
                    Some v \<Rightarrow> v
                  | None \<Rightarrow> job_type_title (job_kind j)))))"

section \<open>Stage and source\<close>

record job_stage =
  stage_name :: string
  stage_label :: string

definition stage :: "string \<Rightarrow> string \<Rightarrow> job_stage" where
  "stage name label = \<lparr>stage_name = name, stage_label = label\<rparr>"

definition stage_of_job :: "job \<Rightarrow> job_stage" where
  "stage_of_job j =
     (let active_stage = py_strip (str_or_empty (dget (as_dict (job_payload j)) ''active_stage'')) in
      if job_state j = QUEUED then stage ''queued'' ''Queued''
      else if active_stage = ''downloading'' then stage ''downloading'' ''Downloading''
      else if active_stage = ''transcript_generation''
        then stage ''transcript_generation'' ''Transcript generation''
      else if active_stage = ''pdf_ocr'' then stage ''pdf_ocr'' ''PDF OCR''
      else if job_kind j \<in> {''download_episode'', ''download_single''} then stage ''downloading'' ''Downloading''
      else if job_kind j = ''generate_ocr'' then stage ''pdf_ocr'' ''PDF OCR''
      else if job_kind j = ''transcode_media'' then stage ''transcoding'' ''Transcoding''
      else if job_kind j = ''generate_transcript'' then stage ''transcribing'' ''Transcribing''
      else stage ''queued'' (job_type_title (job_kind j)))"

definition payload_download_id :: "job \<Rightarrow> error + int option" where
  "payload_download_id j = optional_int (Some (str_or_empty (dget (as_dict (job_payload j)) ''download_id'')))"

definition job_download :: "database \<Rightarrow> job \<Rightarrow> error + download option" where
  "job_download d j =
     bind_result (payload_download_id j) (\<lambda>v. Inr (case v of
         None \<Rightarrow> None
       | Some n \<Rightarrow> if n = 0 then None else own_download (job_profile_id j) n d))"

text \<open>Source name, source type and media type.\<close>

fun lookup_source :: "pydict \<Rightarrow> string list \<Rightarrow> string \<times> string \<times> string" where
  "lookup_source payload [] =
     (str_or_empty (dget payload ''source_name''), str_or_empty (dget payload ''source_type''),
      str_or_empty (dget payload ''media_type''))"
| "lookup_source payload (k # ks) =
     (if is_dict (dget payload k)
      then let lookup = as_dict (dget payload k) in
        (str_or_empty (py_or (dget lookup ''source_name'') (dget payload ''source_name'')),
         str_or_empty (py_or (dget lookup ''source_type'') (dget payload ''source_type'')),
         str_or_empty (dget payload ''media_type''))
      else lookup_source payload ks)"

definition job_source_details :: "job \<Rightarrow> download option \<Rightarrow> string \<times> string \<times> string" where
  "job_source_details j item =
     (let payload = as_dict (job_payload j) in
      case item of
        Some r \<Rightarrow>
          (let media_type = py_lower (py_strip (str_or_empty (dget payload ''media_type''))) in
           (dl_source_name r, dl_source_type r,
            if media_type \<in> {''audio'', ''video''} then media_type
            else if py_lower (py_strip (text_of (dl_file_ext r))) \<in> set video_exts then ''video'' else ''audio''))
      | None \<Rightarrow> lookup_source payload [''download_lookup'', ''deferred_download_lookup''])"

section \<open>Which jobs are shown\<close>

definition active_pipeline_cutoff :: "string \<Rightarrow> time \<Rightarrow> error + time option" where
  "active_pipeline_cutoff env now =
     (let raw = py_strip env in
      if \<not> py_isdigit raw then Inr None
      else (case py_int raw of
              None \<Rightarrow> Inl (ValueError raw)
            | Some n \<Rightarrow> Inr (if n \<le> 0 then None else Some (now - seconds n))))"

definition job_is_fresh :: "string \<Rightarrow> time \<Rightarrow> job \<Rightarrow> error + bool" where
  "job_is_fresh env now j =
     bind_result (active_pipeline_cutoff env now) (\<lambda>cutoff.
       Inr (case cutoff of None \<Rightarrow> True | Some c \<Rightarrow> c \<le> job_updated_at j))"

definition download_kinds :: "string list" where
  "download_kinds = [''download_episode'', ''download_single'']"

definition processing_kinds :: "string list" where
  "processing_kinds = [''generate_transcript'', ''generate_ocr'', ''transcode_media'']"

definition job_still_needs_work :: "database \<Rightarrow> job \<Rightarrow> error + bool" where
  "job_still_needs_work d j =
     bind_result (payload_download_id j) (\<lambda>v.
       Inr (case v of
              None \<Rightarrow> True
            | Some n \<Rightarrow>
                if n = 0 then True
                else (case own_download (job_profile_id j) n d of
                   None \<Rightarrow> job_kind j \<in> set download_kinds
                 | Some r \<Rightarrow>
                     if job_kind j \<in> set processing_kinds then
                       \<not> (exists_row (\<lambda>s. seg_download s = n) (transcript_segments d)
                          \<or> text_of (dl_subtitle_path r) \<noteq> [] \<or> text_of (dl_subtitle_path_relative r) \<noteq> [])
                     else if job_kind j \<in> set download_kinds then dl_status r \<noteq> DOWNLOADED
                     else True)))"

record pipeline_item =
  item_job :: int
  item_download :: "int option"
  item_title :: string
  item_source_name :: string
  item_source_type :: string
  item_media_type :: string
  item_status :: string
  item_stage :: job_stage
  item_updated_at :: string

definition pipeline_item_of :: "database \<Rightarrow> job \<Rightarrow> error + pipeline_item" where
  "pipeline_item_of d j =
     bind_result (job_download d j) (\<lambda>r.
       bind_result (job_display_title d j) (\<lambda>title.
         let (source_name, source_type, media_type) = job_source_details j r in
         Inr \<lparr>item_job = job_id j, item_download = map_option dl_id r, item_title = title,
              item_source_name = source_name, item_source_type = source_type,
              item_media_type = media_type, item_status = job_status_value (job_state j),
              item_stage = stage_of_job j, item_updated_at = iso_format (job_updated_at j)\<rparr>))"

definition pipeline_candidates :: "string \<Rightarrow> database \<Rightarrow> job list" where
  "pipeline_candidates profile d =
     take 80 (sort_key (\<lambda>j. (job_created_at j, job_id j))
       (filter (\<lambda>j. job_profile_id j = profile \<and> job_kind j \<in> set (download_kinds @ processing_kinds)
            \<and> is_active j) (jobs d)))"

definition shows_job :: "string \<Rightarrow> time \<Rightarrow> database \<Rightarrow> job \<Rightarrow> error + bool" where
  "shows_job env now d j =
     bind_result (job_is_fresh env now j) (\<lambda>fresh. if fresh then job_still_needs_work d j else Inr False)"

definition active_pipeline_items ::
    "string \<Rightarrow> time \<Rightarrow> string \<Rightarrow> database \<Rightarrow> error + pipeline_item list" where
  "active_pipeline_items env now profile d =
     bind_result (filter_result (shows_job env now d) (pipeline_candidates profile d)) (\<lambda>active.
       traverse (pipeline_item_of d) (take 20 active))"

section \<open>Facts\<close>

lemma traverse_mem: "list_all2 P xs ys \<Longrightarrow> y \<in> set ys \<Longrightarrow> \<exists>x \<in> set xs. P x y"
  by (induction rule: list_all2_induct) auto

lemma own_download_Some:
  "own_download p n d = Some r \<Longrightarrow> r \<in> set (downloads d) \<and> dl_id r = n \<and> dl_profile_id r = p"
  by (auto simp: own_download_def dest!: first_row_Some)

lemma pipeline_item_of_fields:
  assumes "pipeline_item_of d j = Inr it"
  shows "item_job it = job_id j"
    and "item_status it = job_status_value (job_state j)"
    and "\<forall>n. item_download it = Some n \<longrightarrow>
      (\<exists>r \<in> set (downloads d). dl_id r = n \<and> dl_profile_id r = job_profile_id j
        \<and> item_source_name it = dl_source_name r \<and> item_source_type it = dl_source_type r)"
proof -
  obtain r title where r: "job_download d j = Inr r" and t: "job_display_title d j = Inr title"
    and it: "Inr it = (let (source_name, source_type, media_type) = job_source_details j r in
         Inr \<lparr>item_job = job_id j, item_download = map_option dl_id r, item_title = title,
              item_source_name = source_name, item_source_type = source_type,
              item_media_type = media_type, item_status = job_status_value (job_state j),
              item_stage = stage_of_job j, item_updated_at = iso_format (job_updated_at j)\<rparr> :: error + pipeline_item)"
    using assms by (auto simp: pipeline_item_of_def bind_result_Inr)
  then show "item_job it = job_id j" "item_status it = job_status_value (job_state j)"
    by (auto split: prod.splits)
  show "\<forall>n. item_download it = Some n \<longrightarrow>
      (\<exists>r \<in> set (downloads d). dl_id r = n \<and> dl_profile_id r = job_profile_id j
        \<and> item_source_name it = dl_source_name r \<and> item_source_type it = dl_source_type r)"
  proof (cases r)
    case None
    then show ?thesis using it by (auto split: prod.splits)
  next
    case (Some x)
    then have "x \<in> set (downloads d) \<and> dl_profile_id x = job_profile_id j"
      using r by (auto simp: job_download_def bind_result_Inr split: option.splits if_splits
          dest!: own_download_Some)
    then show ?thesis using it Some by (auto simp: job_source_details_def Let_def)
  qed
qed

section \<open>Properties\<close>

text \<open>The pipeline panel lists at most twenty jobs, each once and oldest first; every one of them
  is a queued or running job of the profile with work left to do and recent enough, and the episode
  it names, with its source, is an episode of the same profile.\<close>

theorem active_pipeline_lists_own_work:
  assumes "active_pipeline_items env now profile d = Inr items" and "distinct (map job_id (jobs d))"
  shows "length items \<le> 20 \<and> distinct (map item_job items)
    \<and> (\<exists>shown. map item_job items = map job_id shown
        \<and> sorted (map (\<lambda>j. (job_created_at j, job_id j)) shown)
        \<and> (\<forall>j \<in> set shown. j \<in> set (jobs d) \<and> job_profile_id j = profile \<and> is_active j
             \<and> job_is_fresh env now j = Inr True \<and> job_still_needs_work d j = Inr True))
    \<and> (\<forall>it \<in> set items. \<forall>n. item_download it = Some n \<longrightarrow>
         (\<exists>r \<in> set (downloads d). dl_id r = n \<and> dl_profile_id r = profile
            \<and> item_source_name it = dl_source_name r))"
proof -
  let ?cand = "pipeline_candidates profile d"
  obtain active where a: "filter_result (shows_job env now d) ?cand = Inr active"
    and items: "list_all2 (\<lambda>j it. pipeline_item_of d j = Inr it) (take 20 active) items"
    using assms(1) by (auto simp: active_pipeline_items_def bind_result_Inr traverse_Inr)
  have active: "active = filter (\<lambda>j. shows_job env now d j = Inr True) ?cand"
    using filter_result_Inr [OF a] by simp
  let ?shown = "take 20 active" and ?key = "\<lambda>j. (job_created_at j, job_id j)"
  have ids: "map item_job items = map job_id ?shown"
    using items by (induction rule: list_all2_induct) (auto dest: pipeline_item_of_fields(1))
  have "distinct (map job_id (filter P (jobs d)))" for P
    using assms(2) by (rule distinct_map_filter)
  then have "distinct (map job_id (sort_key ?key (filter P (jobs d))))" for P
    by (simp add: distinct_map)
  then have "distinct (map job_id ?cand)"
    unfolding pipeline_candidates_def by (simp add: take_map [symmetric])
  then have dist: "distinct (map job_id ?shown)"
    by (simp add: active take_map [symmetric] distinct_map_filter)
  have "sorted (map ?key ?cand)"
    unfolding pipeline_candidates_def take_map [symmetric] by (intro sorted_wrt_take) simp
  then have srt: "sorted (map ?key ?shown)"
    unfolding active take_map [symmetric] by (intro sorted_wrt_take sorted_filter)
  have jobs: "j \<in> set (jobs d) \<and> job_profile_id j = profile \<and> is_active j
      \<and> job_is_fresh env now j = Inr True \<and> job_still_needs_work d j = Inr True"
    if "j \<in> set ?shown" for j
    using in_set_takeD [OF that]
    by (auto simp: active pipeline_candidates_def shows_job_def bind_result_Inr
        dest!: in_set_takeD split: if_splits)
  have own: "\<exists>r \<in> set (downloads d). dl_id r = n \<and> dl_profile_id r = profile
      \<and> item_source_name it = dl_source_name r"
    if it: "it \<in> set items" "item_download it = Some n" for it n
  proof -
    obtain j where j: "j \<in> set ?shown" "pipeline_item_of d j = Inr it"
      using traverse_mem [OF items it(1)] by blast
    then show ?thesis
      using pipeline_item_of_fields(3) [OF j(2)] jobs [OF j(1)] it(2) by blast
  qed
  have "length items = length ?shown" using list_all2_lengthD [OF items] by (rule sym)
  then have "length items \<le> 20" by simp
  then show ?thesis using ids dist srt jobs own by (metis (no_types, lifting))
qed

definition pipeline_database :: database where
  "pipeline_database = snd (create_job 5 ''kids'' ''download_single''
     (PDict [(''url'', PStr ''https://a.example/1'')]) (Some ''k'') empty_database)"

lemma pipeline_database_items:
  "active_pipeline_items ''3600'' 9 ''kids'' pipeline_database =
     Inr [\<lparr>item_job = 1, item_download = None, item_title = ''https://a.example/1'',
           item_source_name = [], item_source_type = [], item_media_type = [],
           item_status = ''queued'', item_stage = stage ''queued'' ''Queued'',
           item_updated_at = iso_format 5\<rparr>]"
  by code_simp

theorem active_pipeline_lists_own_work_witness:
  "\<exists>items. active_pipeline_items ''3600'' 9 ''kids'' pipeline_database = Inr items
     \<and> items \<noteq> [] \<and> length items \<le> 20"
proof -
  have "distinct (map job_id (jobs pipeline_database))"
    by (simp add: pipeline_database_def create_job_def create_lookup_def create_insert_def
        insert_job_def empty_database_def Let_def)
  from active_pipeline_lists_own_work [OF pipeline_database_items this]
  show ?thesis using pipeline_database_items by simp
qed

end
