(* ===== verification/Episodes.thy ===== *)
theory Episodes
  imports Pipeline
begin

text \<open>
  The episode actions of \<open>src/src/api/services/dashboard_actions.py\<close>: played and favourite
  marks, saving the playback position, editing the metadata, deleting files, the batch actions
  and the transcript search. \<open>expand\<close> stands for \<open>expanduser\<close>, \<open>denied\<close> for the paths whose
  removal the operating system refuses; symbolic links are not modelled, nor is the clean-up of
  the \<open>media_summaries\<close> table, which no model of the program declares.
\<close>

section \<open>Marks\<close>

definition on_own_download ::
    "string \<Rightarrow> int \<Rightarrow> (download \<Rightarrow> download) \<Rightarrow> database \<Rightarrow> unit reply \<times> database" where
  "on_own_download profile n f d =
     (case own_download profile n d of
        None \<Rightarrow> (NotFound, d)
      | Some _ \<Rightarrow> (Done (), update_downloads_where (\<lambda>r. dl_id r = n) f d))"

definition mark_played :: "time \<Rightarrow> string \<Rightarrow> int \<Rightarrow> database \<Rightarrow> unit reply \<times> database" where
  "mark_played now profile n d = on_own_download profile n
     (\<lambda>r. r\<lparr>dl_played := True, dl_played_at := Some now, dl_last_seen_at := now\<rparr>) d"

definition mark_unplayed :: "time \<Rightarrow> string \<Rightarrow> int \<Rightarrow> database \<Rightarrow> unit reply \<times> database" where
  "mark_unplayed now profile n d = on_own_download profile n
     (\<lambda>r. r\<lparr>dl_played := False, dl_played_at := None, dl_last_seen_at := now\<rparr>) d"

definition favorite :: "time \<Rightarrow> string \<Rightarrow> int \<Rightarrow> database \<Rightarrow> unit reply \<times> database" where
  "favorite now profile n d = on_own_download profile n
     (\<lambda>r. r\<lparr>dl_favorite := True, dl_last_seen_at := now\<rparr>) d"

definition unfavorite :: "time \<Rightarrow> string \<Rightarrow> int \<Rightarrow> database \<Rightarrow> unit reply \<times> database" where
  "unfavorite now profile n d = on_own_download profile n
     (\<lambda>r. r\<lparr>dl_favorite := False, dl_last_seen_at := now\<rparr>) d"

section \<open>The playback position\<close>

definition form_playback_update :: "form \<Rightarrow> download \<Rightarrow> playback_update option" where
  "form_playback_update post r =
     (let raw = post_text post ''position_seconds'' in
      case (if raw = [] then Some pf_zero else py_float raw) of
        None \<Rightarrow> None
      | Some f \<Rightarrow>
          let position = pf_max pf_zero f;
              reason = py_lower (py_strip (post_text post ''reason''))
          in Some \<lparr>pu_position = position, pu_reason = reason,
                   pu_completed = (reason \<in> {''ended'', ''mini-ended''}),
                   pu_listened_delta = pf_max pf_zero (pf_sub position (dl_last_position r))\<rparr>)"

definition apply_position :: "time \<Rightarrow> playback_update \<Rightarrow> download \<Rightarrow> download" where
  "apply_position now u r =
     r\<lparr>dl_last_position := (if pu_completed u then pf_zero else pu_position u),
       dl_total_listened := pf_add (dl_total_listened r) (pu_listened_delta u),
       dl_last_position_updated_at := Some now, dl_last_seen_at := now,
       dl_played := (pu_completed u \<or> dl_played r),
       dl_played_at := (if pu_completed u then Some now else dl_played_at r)\<rparr>"

definition save_position :: "time \<Rightarrow> string \<Rightarrow> int \<Rightarrow> form \<Rightarrow> database \<Rightarrow> unit reply \<times> database" where
  "save_position now profile n post d =
     (case own_download profile n d of
        None \<Rightarrow> (NotFound, d)
      | Some r \<Rightarrow>
          (case form_playback_update post r of
             None \<Rightarrow> (Refused [], d)
           | Some u \<Rightarrow> (Done (), update_downloads_where (\<lambda>x. dl_id x = n) (apply_position now u) d)))"

definition edit_metadata :: "time \<Rightarrow> string \<Rightarrow> form \<Rightarrow> database \<Rightarrow> unit reply \<times> database" where
  "edit_metadata now profile post d =
     (let raw_id = py_strip (post_text post ''id'');
          title = py_strip (post_text post ''title'');
          source_name = py_strip (post_text post ''source_name'')
      in if \<not> py_isdigit raw_id then (Refused ''Invalid id'', d)
         else (case py_int raw_id of
             None \<Rightarrow> (Raised (ValueError raw_id), d)
           | Some n \<Rightarrow>
               (case own_download profile n d of
                  None \<Rightarrow> (NotFound, d)
                | Some _ \<Rightarrow>
                    if title = [] \<or> source_name = []
                    then (Refused ''Title and source name are required'', d)
                    else (Done (), update_downloads_where (\<lambda>r. dl_id r = n)
                      (\<lambda>r. r\<lparr>dl_title := Some title, dl_source_name := source_name,
                             dl_last_seen_at := now\<rparr>) d))))"

section \<open>Deleting files\<close>

record file_env =
  expand :: "path \<Rightarrow> path"
  denied :: "string \<Rightarrow> bool"

definition media_file_of :: "file_env \<Rightarrow> download \<Rightarrow> string" where
  "media_file_of env r = path_str (expand env (path_of (text_of (dl_file_path r))))"

definition delete_download_media_file :: "file_env \<Rightarrow> download \<Rightarrow> file_system \<Rightarrow> file_system" where
  "delete_download_media_file env r fs =
     (if text_of (dl_file_path r) = [] then fs
      else let p = media_file_of env r in
        if fs p = Some Directory then fs
        else if denied env p then fs
        else fs(p := None))"

definition delete_file :: "file_env \<Rightarrow> time \<Rightarrow> string \<Rightarrow> int \<Rightarrow> world \<Rightarrow> unit reply \<times> world" where
  "delete_file env now profile n w =
     (case own_download profile n (db w) of
        None \<Rightarrow> (NotFound, w)
      | Some r \<Rightarrow>
          (Done (), w\<lparr>files := delete_download_media_file env r (files w),
             db := update_downloads_where (\<lambda>x. dl_id x = n)
                     (\<lambda>x. x\<lparr>dl_status := MISSING, dl_last_seen_at := now\<rparr>) (db w)\<rparr>))"

text \<open>
  Deleting download rows: the items and segments that refer to them go with them.
\<close>

definition delete_downloads :: "(download \<Rightarrow> bool) \<Rightarrow> database \<Rightarrow> database" where
  "delete_downloads P d =
     (let gone = map dl_id (filter P (downloads d)) in
      d\<lparr>downloads := delete_where P (downloads d),
        playlist_items := delete_where (\<lambda>i. pi_download i \<in> set gone) (playlist_items d),
        transcript_segments := delete_where (\<lambda>s. seg_download s \<in> set gone) (transcript_segments d)\<rparr>)"

section \<open>Batch actions\<close>

text \<open>A job is created and its message published, as every enqueuing handler does.\<close>

definition create_and_publish ::
    "time \<Rightarrow> string \<Rightarrow> string \<Rightarrow> pyval \<Rightarrow> string option \<Rightarrow> world \<Rightarrow> (error + job) \<times> world" where
  "create_and_publish now profile kind payload key w =
     (let (j, d1) = create_job now profile kind payload key (db w); w1 = w\<lparr>db := d1\<rparr> in
      case publish_job (job_message j) w1 of
        Inl e \<Rightarrow> (Inl e, w1)
      | Inr w2 \<Rightarrow> (Inr j, w2))"

definition opt_text :: "string option \<Rightarrow> pyval" where
  "opt_text v = (case v of None \<Rightarrow> PNone | Some s \<Rightarrow> PStr s)"

definition redownload_payload :: "download \<Rightarrow> pydict" where
  "redownload_payload r =
     [(''source'', PStr ''django_app''),
      (''url'', py_or (py_or (opt_text (dl_item_url r)) (opt_text (dl_media_url r))) (opt_text (dl_source_url r))),
      (''source_type'', PStr (dl_source_type r)), (''source_name'', PStr (dl_source_name r)),
      (''item_uid'', opt_text (dl_item_uid r)), (''item_id'', opt_text (dl_item_id r)),
      (''title'', opt_text (dl_title r)),
      (''media_type'', PStr (if dl_source_type r = ''podcast'' then ''audio'' else ''video'')),
      (''subtitles'', PBool True), (''redownload'', PBool True)]"

definition redownload_key :: "string \<Rightarrow> int \<Rightarrow> string" where
  "redownload_key profile n = ''download_single:'' @ profile @ '':'' @ str_of_int n"

fun redownload_all :: "time \<Rightarrow> string \<Rightarrow> download list \<Rightarrow> world \<Rightarrow> error option \<times> world" where
  "redownload_all now profile [] w = (None, w)"
| "redownload_all now profile (r # rs) w =
     (case create_and_publish now profile ''download_single'' (PDict (redownload_payload r))
             (Some (redownload_key profile (dl_id r))) w of
        (Inl e, w1) \<Rightarrow> (Some e, w1)
      | (Inr _, w1) \<Rightarrow> redownload_all now profile rs w1)"

definition selected :: "string \<Rightarrow> int list \<Rightarrow> download \<Rightarrow> bool" where
  "selected profile ids r \<longleftrightarrow> dl_id r \<in> set ids \<and> dl_profile_id r = profile"

definition delete_media_files :: "file_env \<Rightarrow> download list \<Rightarrow> file_system \<Rightarrow> file_system" where
  "delete_media_files env rs fs = fold (delete_download_media_file env) rs fs"

definition batch_rows ::
    "file_env \<Rightarrow> time \<Rightarrow> string \<Rightarrow> string \<Rightarrow> int list \<Rightarrow> world \<Rightarrow> unit reply \<times> world" where
  "batch_rows env now profile action ids w =
     (let P = selected profile ids; rows = filter P (downloads (db w));
          upd = (\<lambda>f. (Done (), w\<lparr>db := update_downloads_where P f (db w)\<rparr>))
      in if action = ''played'' then
           upd (\<lambda>r. r\<lparr>dl_played := True, dl_played_at := Some now, dl_last_seen_at := now\<rparr>)
         else if action = ''unplayed'' then
           upd (\<lambda>r. r\<lparr>dl_played := False, dl_played_at := None, dl_last_seen_at := now\<rparr>)
         else if action = ''favorite'' then
           upd (\<lambda>r. r\<lparr>dl_favorite := True, dl_last_seen_at := now\<rparr>)
         else if action = ''unfavorite'' then
           upd (\<lambda>r. r\<lparr>dl_favorite := False, dl_last_seen_at := now\<rparr>)
         else if action = ''delete'' then
           (Done (), w\<lparr>files := delete_media_files env rows (files w),
              db := update_downloads_where P
                      (\<lambda>r. r\<lparr>dl_status := MISSING, dl_last_seen_at := now\<rparr>) (db w)\<rparr>)
         else if action = ''purge'' then
           (Done (), w\<lparr>files := delete_media_files env rows (files w), db := delete_downloads P (db w)\<rparr>)
         else if action = ''download'' then
           (case redownload_all now profile rows w of
              (Some e, w1) \<Rightarrow> (Raised e, w1)
            | (None, w1) \<Rightarrow> (Done (), w1))
         else (Done (), w))"

definition batch_update :: "file_env \<Rightarrow> time \<Rightarrow> string \<Rightarrow> form \<Rightarrow> world \<Rightarrow> unit reply \<times> world" where
  "batch_update env now profile post w =
     (case posted_ints (post_list post ''ids'') of
        Inl e \<Rightarrow> (Raised e, w)
      | Inr ids \<Rightarrow> batch_rows env now profile (py_strip (post_text post ''batch_action'')) ids w)"

section \<open>Transcript search\<close>

text \<open>The order of the database's floating-point column, extended to all floats.\<close>

fun pf_key :: "pyfloat \<Rightarrow> int \<times> rat" where
  "pf_key NegInf = (-1, 0)"
| "pf_key (Fin q) = (0, q)"
| "pf_key PosInf = (1, 0)"
| "pf_key NaN = (2, 0)"

lemma pf_key_inject: "pf_key x = pf_key y \<Longrightarrow> x = y"
  by (cases x; cases y) simp_all

instantiation pyfloat :: linorder
begin

definition less_eq_pyfloat :: "pyfloat \<Rightarrow> pyfloat \<Rightarrow> bool" where
  "less_eq_pyfloat a b \<longleftrightarrow> pf_key a \<le> pf_key b"

definition less_pyfloat :: "pyfloat \<Rightarrow> pyfloat \<Rightarrow> bool" where
  "less_pyfloat a b \<longleftrightarrow> pf_key a < pf_key b"

instance
proof
  fix x y z :: pyfloat
  show "x < y \<longleftrightarrow> x \<le> y \<and> \<not> y \<le> x"
    unfolding less_eq_pyfloat_def less_pyfloat_def by (rule less_le_not_le)
  show "x \<le> x" by (simp add: less_eq_pyfloat_def)
  show "x \<le> y \<or> y \<le> x" unfolding less_eq_pyfloat_def by (rule linear)
  show "x \<le> y \<Longrightarrow> y \<le> z \<Longrightarrow> x \<le> z" unfolding less_eq_pyfloat_def by (rule order_trans)
  show "x \<le> y \<Longrightarrow> y \<le> x \<Longrightarrow> x = y"
    unfolding less_eq_pyfloat_def by (intro pf_key_inject antisym)
qed

end

definition pf_int :: "pyfloat \<Rightarrow> error + int" where
  "pf_int f = (case f of Fin q \<Rightarrow> Inr (rat_trunc q)
                       | _ \<Rightarrow> Inl (ValueError ''cannot convert float to integer''))"

record search_result =
  sr_id :: int
  sr_title :: string
  sr_source_name :: string
  sr_start :: pyfloat
  sr_text :: string
  sr_position_label :: string
  sr_url :: string

definition search_result_of ::
    "(int \<Rightarrow> string) \<Rightarrow> transcript_segment \<times> download \<Rightarrow> error + search_result" where
  "search_result_of player_url sr =
     (let (s, r) = sr in
      bind_result (pf_int (seg_start_seconds s)) (\<lambda>t.
        Inr \<lparr>sr_id = seg_download s, sr_title = or_else (text_of (dl_title r)) ''Untitled'',
             sr_source_name = or_else (dl_source_name r) (dl_source_type r),
             sr_start = seg_start_seconds s, sr_text = seg_text s,
             sr_position_label = (if prefix ''ocr://'' (seg_subtitle_path s)
                                  then ''Page '' @ str_of_int (t + 1) else []),
             sr_url = player_url (seg_download s) @ ''?t='' @ str_of_int t\<rparr>))"

definition segments_with_download :: "database \<Rightarrow> (transcript_segment \<times> download) list" where
  "segments_with_download d =
     List.map_filter (\<lambda>s. map_option (Pair s) (row_at dl_id (seg_download s) (downloads d)))
       (transcript_segments d)"

definition search_matches :: "string \<Rightarrow> string \<Rightarrow> database \<Rightarrow> (transcript_segment \<times> download) list" where
  "search_matches profile query d =
     sort_key (\<lambda>(s, r). (seg_download s, seg_start_seconds s))
       (filter (\<lambda>(s, r). dl_profile_id r = profile \<and> icontains query (seg_text s)
            \<and> dl_status r \<in> set DOWNLOAD_STATUSES) (segments_with_download d))"

definition transcript_search ::
    "(int \<Rightarrow> string) \<Rightarrow> string \<Rightarrow> string \<Rightarrow> database \<Rightarrow> error + search_result list" where
  "transcript_search player_url profile q d =
     (let query = py_strip q in
      if length query < 2 then Inr []
      else traverse (search_result_of player_url) (take 50 (search_matches profile query d)))"

section \<open>Facts\<close>

lemma set_map_filter: "y \<in> set (List.map_filter f xs) \<longleftrightarrow> (\<exists>x \<in> set xs. f x = Some y)"
  by (induction xs) (auto split: option.split)

lemma apply_position_update: "apply_position now u r = apply_update now u r"
  by (simp add: apply_position_def apply_update_def Let_def)

lemma create_and_publish_world:
  obtains m where
    "create_and_publish now profile kind payload key w =
       (Inr (fst (create_job now profile kind payload key (db w))),
        w\<lparr>db := snd (create_job now profile kind payload key (db w)), broker := broker w @ [m]\<rparr>)"
    and "map_of (pub_body m) ''job_id''
      = Some (PInt (job_id (fst (create_job now profile kind payload key (db w)))))"
proof -
  obtain j d1 where c: "create_job now profile kind payload key (db w) = (j, d1)" by fastforce
  obtain m where "publish_job (job_message j) (w\<lparr>db := d1\<rparr>)
      = Inr ((w\<lparr>db := d1\<rparr>)\<lparr>broker := broker (w\<lparr>db := d1\<rparr>) @ [m]\<rparr>)"
    "map_of (pub_body m) ''job_id'' = Some (PInt (job_id j))"
    by (rule publish_job_message)
  then show thesis using that [of m] c by (simp add: create_and_publish_def Let_def)
qed

lemma redownload_all_world:
  "redownload_all now profile rs w = (e, w') \<Longrightarrow>
   e = None \<and> files w' = files w \<and> downloads (db w') = downloads (db w)
   \<and> playlists (db w') = playlists (db w) \<and> playlist_items (db w') = playlist_items (db w)
   \<and> transcript_segments (db w') = transcript_segments (db w)
   \<and> length (broker w') = length (broker w) + length rs"
proof (induction rs arbitrary: w)
  case (Cons r rs)
  obtain m where m: "create_and_publish now profile ''download_single'' (PDict (redownload_payload r))
      (Some (redownload_key profile (dl_id r))) w
    = (Inr (fst (create_job now profile ''download_single'' (PDict (redownload_payload r))
         (Some (redownload_key profile (dl_id r))) (db w))),
       w\<lparr>db := snd (create_job now profile ''download_single'' (PDict (redownload_payload r))
         (Some (redownload_key profile (dl_id r))) (db w)), broker := broker w @ [m]\<rparr>)"
    by (rule create_and_publish_world)
  have keeps: "playlists (snd (create_job now p k v key d)) = playlists d"
    "playlist_items (snd (create_job now p k v key d)) = playlist_items d" for p k v key d
    by (simp_all add: create_job_def create_insert_def insert_job_def Let_def split: option.split)
  show ?case using Cons.IH Cons.prems by (auto simp: m keeps)
qed simp

text \<open>References between tables: playlist items and transcript segments point to rows that exist.\<close>

definition refs_wf :: "database \<Rightarrow> bool" where
  "refs_wf d \<longleftrightarrow> distinct (map dl_id (downloads d))
     \<and> (\<forall>i \<in> set (playlist_items d). pi_download i \<in> dl_id ` set (downloads d)
          \<and> pi_playlist i \<in> pl_id ` set (playlists d))
     \<and> (\<forall>s \<in> set (transcript_segments d). seg_download s \<in> dl_id ` set (downloads d))"

lemma refs_wf_update:
  assumes "\<And>r. dl_id (f r) = dl_id r" and "refs_wf d"
  shows "refs_wf (update_downloads_where P f d)"
proof -
  have m: "map dl_id (update_where P f (downloads d)) = map dl_id (downloads d)"
    using assms(1) by (rule map_update_where_frame)
  then have "dl_id ` set (update_where P f (downloads d)) = dl_id ` set (downloads d)"
    by (metis list.set_map)
  then show ?thesis using assms(2) m by (simp add: refs_wf_def update_downloads_where_def)
qed

lemma refs_wf_delete:
  assumes "refs_wf d"
  shows "refs_wf (delete_downloads P d)"
proof -
  have keep: "n \<in> dl_id ` {r \<in> set (downloads d). \<not> P r}"
    if "n \<in> dl_id ` set (downloads d)" "n \<notin> dl_id ` {r \<in> set (downloads d). P r}" for n
    using that by auto
  show ?thesis
    using assms keep
    by (auto simp: refs_wf_def delete_downloads_def Let_def distinct_map_delete_where)
qed

lemma delete_media_file_only:
  assumes "delete_download_media_file env r fs p \<noteq> fs p"
  shows "p = media_file_of env r \<and> text_of (dl_file_path r) \<noteq> [] \<and> fs p \<noteq> Some Directory
    \<and> \<not> denied env p \<and> delete_download_media_file env r fs p = None"
  using assms by (auto simp: delete_download_media_file_def Let_def split: if_splits)

lemma delete_media_files_only:
  assumes "delete_media_files env rs fs p \<noteq> fs p"
  shows "(\<exists>r \<in> set rs. p = media_file_of env r \<and> text_of (dl_file_path r) \<noteq> [])
    \<and> fs p \<noteq> Some Directory \<and> delete_media_files env rs fs p = None"
  using assms
proof (induction rs arbitrary: fs)
  case (Cons r rs)
  let ?fs = "delete_download_media_file env r fs"
  have step: "delete_media_files env (r # rs) fs = delete_media_files env rs ?fs"
    by (simp add: delete_media_files_def)
  show ?case
  proof (cases "delete_media_files env rs ?fs p = ?fs p")
    case True
    then show ?thesis
      using delete_media_file_only [of env r fs p] Cons.prems by (simp add: step) blast
  next
    case False
    note ih = Cons.IH [OF False]
    have "fs p \<noteq> Some Directory"
    proof
      assume "fs p = Some Directory"
      moreover from this have "?fs p = fs p" using delete_media_file_only by metis
      ultimately show False using ih by simp
    qed
    then show ?thesis using ih by (auto simp: step)
  qed
qed (simp add: delete_media_files_def)

lemma batch_rows_cases:
  assumes "batch_rows env now profile action ids w = (r, w')"
  obtains (marks) f where "db w' = update_downloads_where (selected profile ids) f (db w)"
      "\<And>x. dl_id (f x) = dl_id x" "\<And>x. dl_profile_id (f x) = dl_profile_id x"
      "files w' = files w \<or> files w' = delete_media_files env
         (filter (selected profile ids) (downloads (db w))) (files w)"
      "action \<noteq> ''purge''" "broker w' = broker w"
    | (purge) "action = ''purge''" "db w' = delete_downloads (selected profile ids) (db w)"
      "files w' = delete_media_files env (filter (selected profile ids) (downloads (db w))) (files w)"
      "broker w' = broker w"
    | (fetch) e where "redownload_all now profile (filter (selected profile ids) (downloads (db w))) w = (e, w')"
      "action \<noteq> ''purge''"
    | (other) "w' = w" "action \<noteq> ''purge''"
  using assms unfolding batch_rows_def Let_def
  by (auto split: if_splits prod.splits option.splits)

section \<open>Properties\<close>



text \<open>The single-episode handler of each batch mark.\<close>

definition mark_handlers :: "(string \<times> (time \<Rightarrow> string \<Rightarrow> int \<Rightarrow> database \<Rightarrow> unit reply \<times> database)) list" where
  "mark_handlers = [(''played'', mark_played), (''unplayed'', mark_unplayed), (''favorite'', favorite),
     (''unfavorite'', unfavorite)]"

lemma on_own_download_where:
  assumes "distinct (map dl_id (downloads d))"
  shows "snd (on_own_download profile n f d)
    = update_downloads_where (\<lambda>r. dl_id r = n \<and> dl_profile_id r = profile) f d"
proof (cases "own_download profile n d")
  case None
  then have "update_where (\<lambda>r. dl_id r = n \<and> dl_profile_id r = profile) f (downloads d) = downloads d"
    by (intro update_where_none) (auto simp: own_download_def first_row_None)
  then show ?thesis using None by (simp add: on_own_download_def update_downloads_where_def)
next
  case (Some x)
  then have x: "x \<in> set (downloads d)" "dl_id x = n" "dl_profile_id x = profile"
    using own_download_Some by blast+
  then have "dl_profile_id r = profile" if "r \<in> set (downloads d)" "dl_id r = n" for r
    using that assms by (metis distinct_map inj_onD)
  then have "update_where (\<lambda>r. dl_id r = n) f (downloads d)
      = update_where (\<lambda>r. dl_id r = n \<and> dl_profile_id r = profile) f (downloads d)"
    by (intro update_where_cong) auto
  then show ?thesis using Some by (simp add: on_own_download_def update_downloads_where_def)
qed

lemma fold_marks:
  assumes "\<And>r. dl_id (f r) = dl_id r" and "\<And>r. dl_profile_id (f r) = dl_profile_id r"
    and "\<And>r. f (f r) = f r" and "distinct (map dl_id (downloads d))"
  shows "fold (\<lambda>n d. snd (on_own_download profile n f d)) ids d
    = update_downloads_where (selected profile ids) f d"
  using assms(4)
proof (induction ids arbitrary: d)
  case Nil
  have "update_where (selected profile []) f (downloads d) = downloads d"
    by (intro update_where_none) (simp add: selected_def)
  then show ?case by (simp add: update_downloads_where_def)
next
  case (Cons n ids)
  let ?d = "snd (on_own_download profile n f d)"
  have d: "?d = update_downloads_where (\<lambda>r. dl_id r = n \<and> dl_profile_id r = profile) f d"
    using Cons.prems by (rule on_own_download_where)
  have "map dl_id (downloads ?d) = map dl_id (downloads d)"
    unfolding d update_downloads_where_frame using assms(1) by (rule map_update_where_frame)
  then have ih: "fold (\<lambda>n d. snd (on_own_download profile n f d)) ids ?d
      = update_downloads_where (selected profile ids) f ?d"
    using Cons.prems by (intro Cons.IH) simp
  have "update_where (selected profile ids) f
      (update_where (\<lambda>r. dl_id r = n \<and> dl_profile_id r = profile) f t)
    = update_where (selected profile (n # ids)) f t" for t
    using assms(1-3) by (induction t) (auto simp: selected_def)
  then show ?case using ih by (simp add: d update_downloads_where_def)
qed

text \<open>A batch mark does exactly what the single action does when it is applied to the posted
  episodes one after another, ids of other profiles and repeated ids included.\<close>

theorem batch_mark_equals_singles:
  assumes "(action, handler) \<in> set mark_handlers" and "distinct (map dl_id (downloads (db w)))"
    and "posted_ints (post_list post ''ids'') = Inr ids"
    and "py_strip (post_text post ''batch_action'') = action"
  shows "db (snd (batch_update env now profile post w))
    = fold (\<lambda>n d. snd (handler now profile n d)) ids (db w)"
proof -
  have run: "batch_update env now profile post w = batch_rows env now profile action ids w"
    using assms(3,4) by (simp add: batch_update_def)
  consider "action = ''played''" "handler = mark_played" | "action = ''unplayed''" "handler = mark_unplayed"
    | "action = ''favorite''" "handler = favorite" | "action = ''unfavorite''" "handler = unfavorite"
    using assms(1) by (auto simp: mark_handlers_def)
  then show ?thesis
  proof cases
    case 1
    then show ?thesis unfolding run 1 mark_played_def
      by (subst fold_marks) (simp_all add: assms(2) batch_rows_def Let_def)
  next
    case 2
    then show ?thesis unfolding run 2 mark_unplayed_def
      by (subst fold_marks) (simp_all add: assms(2) batch_rows_def Let_def)
  next
    case 3
    then show ?thesis unfolding run 3 favorite_def
      by (subst fold_marks) (simp_all add: assms(2) batch_rows_def Let_def)
  next
    case 4
    then show ?thesis unfolding run 4 unfavorite_def
      by (subst fold_marks) (simp_all add: assms(2) batch_rows_def Let_def)
  qed
qed

theorem batch_mark_equals_singles_witness:
  "db (snd (batch_update \<lparr>expand = id, denied = (\<lambda>_. False)\<rparr> 5 ''kids''
      [(''ids'', ''4''), (''ids'', ''4''), (''batch_action'', ''played'')]
      \<lparr>db = empty_database, broker = [], files = Map.empty\<rparr>))
    = fold (\<lambda>n d. snd (mark_played 5 ''kids'' n d)) [4, 4] empty_database"
proof -
  have "posted_ints (post_list [(''ids'', ''4''), (''ids'', ''4''), (''batch_action'', ''played'')] ''ids'')
      = Inr [4, 4]"
    "py_strip (post_text [(''ids'', ''4''), (''ids'', ''4''), (''batch_action'', ''played'')] ''batch_action'')
      = ''played''" by code_simp+
  moreover have "(''played'', mark_played) \<in> set mark_handlers" by (simp add: mark_handlers_def)
  ultimately show ?thesis
    using batch_mark_equals_singles [of "''played''" mark_played
        "\<lparr>db = empty_database, broker = [], files = Map.empty\<rparr>"]
    by (simp add: empty_database_def)
qed

text \<open>Purging removes exactly the selected episodes of the profile together with every playlist
  item and transcript segment that refers to them, and keeps all other rows in their order.\<close>

theorem purge_removes_selection:
  assumes "batch_rows env now profile ''purge'' ids w = (r, w')"
  shows "downloads (db w') = filter (\<lambda>x. \<not> selected profile ids x) (downloads (db w))
    \<and> playlist_items (db w') = filter (\<lambda>i. \<not> (\<exists>x \<in> set (downloads (db w)).
          selected profile ids x \<and> dl_id x = pi_download i)) (playlist_items (db w))
    \<and> transcript_segments (db w') = filter (\<lambda>s. \<not> (\<exists>x \<in> set (downloads (db w)).
          selected profile ids x \<and> dl_id x = seg_download s)) (transcript_segments (db w))
    \<and> jobs (db w') = jobs (db w) \<and> r = Done ()"
proof -
  have "n \<in> dl_id ` {x \<in> set (downloads (db w)). selected profile ids x}
      \<longleftrightarrow> (\<exists>x \<in> set (downloads (db w)). selected profile ids x \<and> dl_id x = n)" for n
    by auto
  moreover have "db w' = delete_downloads (selected profile ids) (db w)" "r = Done ()"
    using assms by (auto simp: batch_rows_def Let_def)
  ultimately show ?thesis by (simp add: delete_downloads_def Let_def delete_where_def)
qed

theorem purge_removes_selection_witness:
  "downloads (db (snd (batch_rows \<lparr>expand = id, denied = (\<lambda>_. False)\<rparr> 5 ''kids'' ''purge'' [1]
     \<lparr>db = empty_database, broker = [], files = Map.empty\<rparr>))) = []"
proof -
  obtain r w' where "batch_rows \<lparr>expand = id, denied = (\<lambda>_. False)\<rparr> 5 ''kids'' ''purge'' [1]
     \<lparr>db = empty_database, broker = [], files = Map.empty\<rparr> = (r, w')" by fastforce
  from purge_removes_selection [OF this] this show ?thesis by (simp add: empty_database_def)
qed

text \<open>A transcript search answers at most fifty places, all in listed episodes of the profile and
  all containing the stripped query, in the order of episode and time; a query of fewer than two
  characters finds nothing.\<close>

theorem transcript_search_own_matches:
  assumes "transcript_search player_url profile q d = Inr results"
  shows "length results \<le> 50
    \<and> (length (py_strip q) < 2 \<longrightarrow> results = [])
    \<and> sorted (map (\<lambda>x. (sr_id x, sr_start x)) results)
    \<and> (\<forall>x \<in> set results. icontains (py_strip q) (sr_text x)
         \<and> (\<exists>r \<in> set (downloads d). dl_id r = sr_id x \<and> dl_profile_id r = profile
              \<and> dl_status r \<in> set DOWNLOAD_STATUSES))"
proof (cases "length (py_strip q) < 2")
  case True
  then show ?thesis using assms by (simp add: transcript_search_def)
next
  case False
  let ?m = "search_matches profile (py_strip q) d"
  have l: "list_all2 (\<lambda>sr x. search_result_of player_url sr = Inr x) (take 50 ?m) results"
    using assms False by (simp add: transcript_search_def traverse_Inr)
  have fields: "sr_id x = seg_download (fst sr) \<and> sr_start x = seg_start_seconds (fst sr)
      \<and> sr_text x = seg_text (fst sr)" if "search_result_of player_url sr = Inr x" for sr x
    using that by (auto simp: search_result_of_def bind_result_Inr split: prod.splits)
  have "map (\<lambda>x. (sr_id x, sr_start x)) results
      = map (\<lambda>(s, r). (seg_download s, seg_start_seconds s)) (take 50 ?m)"
    using l by (induction rule: list_all2_induct) (auto dest: fields)
  moreover have "sorted (map (\<lambda>(s, r). (seg_download s, seg_start_seconds s)) (take 50 ?m))"
    unfolding search_matches_def take_map [symmetric] by (intro sorted_wrt_take) simp
  moreover have "length results \<le> 50" using list_all2_lengthD [OF l] by simp
  moreover have "icontains (py_strip q) (sr_text x)
         \<and> (\<exists>r \<in> set (downloads d). dl_id r = sr_id x \<and> dl_profile_id r = profile
              \<and> dl_status r \<in> set DOWNLOAD_STATUSES)" if x: "x \<in> set results" for x
  proof -
    obtain s r where sr: "(s, r) \<in> set (take 50 ?m)" "search_result_of player_url (s, r) = Inr x"
      using traverse_mem [OF l x] by (metis prod.collapse)
    then have "(s, r) \<in> set (segments_with_download d)" "dl_profile_id r = profile"
      "icontains (py_strip q) (seg_text s)" "dl_status r \<in> set DOWNLOAD_STATUSES"
      using in_set_takeD [OF sr(1)] by (auto simp: search_matches_def)
    moreover from this(1) have "r \<in> set (downloads d) \<and> dl_id r = seg_download s"
      by (auto simp: segments_with_download_def set_map_filter dest!: first_row_Some)
    ultimately show ?thesis using fields [OF sr(2)] by auto
  qed
  ultimately show ?thesis using False by metis
qed

theorem transcript_search_own_matches_witness:
  "\<exists>results. transcript_search (\<lambda>_. []) ''kids'' ''moon'' empty_database = Inr results \<and> length results \<le> 50"
proof -
  have "transcript_search (\<lambda>_. []) ''kids'' ''moon'' empty_database = Inr []"
    by (simp add: transcript_search_def search_matches_def segments_with_download_def empty_database_def Let_def)
  from transcript_search_own_matches [OF this] this show ?thesis by blast
qed

end
