(* ===== verification/Uploads.thy ===== *)
theory Uploads
  imports Episodes
begin

text \<open>
  Files that enter the library by hand (\<open>src/src/api/services/dashboard_actions.py\<close>): the browser
  upload and the import of a file that already lies under the downloads directory. The hash, the
  content and whether the database accepts the row are arguments.
\<close>

section \<open>File names\<close>

definition stem_char :: "char \<Rightarrow> bool" where
  "stem_char c \<longleftrightarrow> is_decimal c \<or> (let n = ord c in (65 \<le> n \<and> n \<le> 90) \<or> (97 \<le> n \<and> n \<le> 122))
     \<or> c \<in> set ''._ -''"

text \<open>A run of characters outside the set becomes one dash.\<close>

fun dash_runs :: "(char \<Rightarrow> bool) \<Rightarrow> bool \<Rightarrow> string \<Rightarrow> string" where
  "dash_runs ok inside [] = []"
| "dash_runs ok inside (c # cs) =
     (if ok c then c # dash_runs ok False cs
      else if inside then dash_runs ok True cs else CHR ''-'' # dash_runs ok True cs)"

definition normalize_upload_stem :: "string \<Rightarrow> string" where
  "normalize_upload_stem v =
     (let a = rstrip_chars (\<lambda>c. c \<in> set ''. '') (squeeze_dots v);
          b = strip_chars (\<lambda>c. c \<in> set ''. -'') (dash_runs stem_char False a)
      in if b = [] then ''manual-upload'' else b)"

definition MEDIA_UPLOAD_EXTENSIONS :: "string list" where
  "MEDIA_UPLOAD_EXTENSIONS = [''.mp3'', ''.m4a'', ''.wav'', ''.flac'', ''.aac'', ''.ogg'', ''.mp4'',
     ''.mkv'', ''.webm'', ''.mov'', ''.pdf'']"

definition VIDEO_UPLOAD_EXTENSIONS :: "string list" where
  "VIDEO_UPLOAD_EXTENSIONS = [''.mp4'', ''.mkv'', ''.webm'', ''.mov'']"

definition DOCUMENT_UPLOAD_EXTENSIONS :: "string list" where
  "DOCUMENT_UPLOAD_EXTENSIONS = [''.pdf'']"

definition upload_candidate :: "path \<Rightarrow> string \<Rightarrow> string \<Rightarrow> nat \<Rightarrow> path" where
  "upload_candidate dir stem suf k =
     path_join dir (path_of (if k = 0 then stem @ suf else stem @ ''-'' @ str_of_nat k @ suf))"

text \<open>The loop over the numbered names; \<open>None\<close> is a loop that does not end.\<close>

partial_function (option) free_upload_name ::
    "file_system \<Rightarrow> path \<Rightarrow> string \<Rightarrow> string \<Rightarrow> nat \<Rightarrow> path option" where
  "free_upload_name fs dir stem suf k =
     (let p = upload_candidate dir stem suf k in
      if path_exists fs (path_str p) then free_upload_name fs dir stem suf (Suc k) else Some p)"

text \<open>\<open>mkdir(parents=True, exist_ok=True)\<close>\<close>

fun make_dirs :: "string list \<Rightarrow> file_system \<Rightarrow> error + file_system" where
  "make_dirs [] fs = Inr fs"
| "make_dirs (p # ps) fs =
     (case fs p of
        None \<Rightarrow> make_dirs ps (fs(p \<mapsto> Directory))
      | Some Directory \<Rightarrow> make_dirs ps fs
      | Some (RegularFile _) \<Rightarrow> Inl (OSError p))"

definition ancestors :: "path \<Rightarrow> string list" where
  "ancestors p = map (\<lambda>k. path_str (Path (is_absolute p) (take k (path_parts p))))
     [1..<Suc (length (path_parts p))]"

section \<open>Writing the row\<close>

definition blank_download :: "time \<Rightarrow> string \<Rightarrow> string \<Rightarrow> database \<Rightarrow> download" where
  "blank_download now profile uid d =
     \<lparr>dl_id = next_download_id d, dl_profile_id = profile, dl_source_type = [], dl_source_name = [],
      dl_source_url = None, dl_item_uid = Some uid, dl_item_id = None, dl_item_url = None,
      dl_media_url = None, dl_title = None, dl_description = None, dl_uploader = None,
      dl_channel = None, dl_upload_date = None, dl_duration_seconds = None, dl_file_path = None,
      dl_file_path_relative = None, dl_file_ext = None, dl_file_size_bytes = None,
      dl_subtitle_path = None, dl_subtitle_path_relative = None, dl_status = DOWNLOADED,
      dl_profanity_status = ''clean'', dl_is_censored = False, dl_censored_segments = PList [],
      dl_raw_metadata = None, dl_first_seen_at = now, dl_last_seen_at = now, dl_completed_at = None,
      dl_played = False, dl_favorite = False, dl_played_at = None, dl_last_position = pf_zero,
      dl_total_listened = pf_zero, dl_last_position_updated_at = None\<rparr>"

text \<open>\<open>update_or_create(profile_id=\<dots>, item_uid=\<dots>, defaults=\<dots>)\<close>\<close>

definition update_or_create ::
    "time \<Rightarrow> string \<Rightarrow> string \<Rightarrow> (download \<Rightarrow> download) \<Rightarrow> database \<Rightarrow> error + download \<times> database" where
  "update_or_create now profile uid f d =
     (case filter (\<lambda>r. dl_profile_id r = profile \<and> dl_item_uid r = Some uid) (downloads d) of
        [] \<Rightarrow> (let r = f (blank_download now profile uid d) in
               Inr (r, d\<lparr>downloads := downloads d @ [r], next_download_id := next_download_id d + 1\<rparr>))
      | [r] \<Rightarrow> Inr (f r, update_downloads_where (\<lambda>x. dl_id x = dl_id r) f d)
      | _ \<Rightarrow> Inl (MultipleRows uid))"

record file_facts =
  ff_channel :: string
  ff_uid :: string
  ff_title :: string
  ff_description :: string
  ff_path :: path
  ff_relative :: "string option"
  ff_suffix :: string
  ff_size :: int
  ff_metadata :: string

definition manual_fields :: "time \<Rightarrow> file_facts \<Rightarrow> download \<Rightarrow> download" where
  "manual_fields now ff r =
     r\<lparr>dl_source_type := ''manual'', dl_source_name := ff_channel ff, dl_source_url := None,
       dl_item_id := Some (ff_uid ff), dl_item_url := None, dl_media_url := None,
       dl_title := Some (ff_title ff), dl_description := Some (ff_description ff),
       dl_uploader := Some ''local'', dl_channel := Some (ff_channel ff),
       dl_upload_date := Some (iso_date now), dl_duration_seconds := None,
       dl_file_path := Some (path_str (ff_path ff)), dl_file_path_relative := ff_relative ff,
       dl_file_ext := Some (dropWhile (\<lambda>c. c = CHR ''.'') (ff_suffix ff)),
       dl_file_size_bytes := Some (ff_size ff), dl_subtitle_path := None,
       dl_subtitle_path_relative := None, dl_status := DOWNLOADED, dl_profanity_status := ''clean'',
       dl_is_censored := False, dl_censored_segments := PList [],
       dl_raw_metadata := Some (ff_metadata ff), dl_last_seen_at := now, dl_completed_at := Some now\<rparr>"

section \<open>The browser upload\<close>

record uploaded_file =
  uf_name :: string
  uf_chunks :: "string list"

record upload_env =
  up_absolute :: "path \<Rightarrow> path"
  up_sha1 :: "string \<Rightarrow> string"
  up_saves :: bool

definition drag_and_drop :: string where
  \<open>drag_and_drop = ''{"ingest_method":"drag-and-drop"}''\<close>

definition upload_facts :: "upload_env \<Rightarrow> path \<Rightarrow> path \<Rightarrow> string \<Rightarrow> string \<Rightarrow> file_facts" where
  "upload_facts env base p original_name payload =
     \<lparr>ff_channel = ''Manual Uploads'',
      ff_uid = ''manual-'' @ up_sha1 env payload @ ''-'' @ str_of_nat (length payload),
      ff_title = original_name, ff_description = ''Imported via browser drag-and-drop'', ff_path = p,
      ff_relative = map_option path_str (relative_to p base),
      ff_suffix = py_lower (path_suffix (path_of original_name)), ff_size = int (length payload),
      ff_metadata = drag_and_drop\<rparr>"

definition store_upload ::
    "upload_env \<Rightarrow> time \<Rightarrow> string \<Rightarrow> path \<Rightarrow> path \<Rightarrow> string \<Rightarrow> string \<Rightarrow> world \<Rightarrow>
     (error + download \<times> path) \<times> world" where
  "store_upload env now profile base p original_name payload w =
     (if payload = [] then (Inl (ValueError ''Empty file payload''), w\<lparr>files := (files w)(path_str p := None)\<rparr>)
      else let w1 = w\<lparr>files := (files w)(path_str p \<mapsto> RegularFile (int (length payload)))\<rparr>;
               ff = upload_facts env base p original_name payload
        in if \<not> up_saves env
           then (Inl (DatabaseError []), w1\<lparr>files := (files w1)(path_str p := None)\<rparr>)
           else (case update_or_create now profile (ff_uid ff) (manual_fields now ff) (db w1) of
               Inl e \<Rightarrow> (Inl e, w1)
             | Inr (r, d1) \<Rightarrow> (Inr (r, p), w1\<lparr>db := d1\<rparr>)))"

definition write_manual_upload ::
    "upload_env \<Rightarrow> time \<Rightarrow> string \<Rightarrow> uploaded_file \<Rightarrow> world \<Rightarrow>
     ((error + download \<times> path) \<times> world) option" where
  "write_manual_upload env now profile f w =
     (let original_name = path_name (path_of (uf_name f));
          suf = py_lower (path_suffix (path_of original_name));
          base = profile_output_root (up_absolute env) (db w) profile;
          dir = path_join base (path_of ''manual'')
      in if original_name = [] then Some (Inl (ValueError ''Missing filename''), w)
         else if suf \<notin> set MEDIA_UPLOAD_EXTENSIONS then Some (Inl (ValueError ''Unsupported media type''), w)
         else (case make_dirs (ancestors dir) (files w) of
             Inl e \<Rightarrow> Some (Inl e, w)
           | Inr fs \<Rightarrow>
               (case free_upload_name fs dir (normalize_upload_stem (path_stem (path_of original_name))) suf 0 of
                  None \<Rightarrow> None
                | Some p \<Rightarrow> Some (store_upload env now profile base p original_name (concat (uf_chunks f))
                              (w\<lparr>files := fs\<rparr>)))))"

section \<open>Queueing the new file\<close>

definition ocr_key :: "string \<Rightarrow> int \<Rightarrow> string" where
  "ocr_key profile n = ''generate_ocr:'' @ profile @ '':'' @ str_of_int n"

definition queue_upload ::
    "time \<Rightarrow> string \<Rightarrow> download \<Rightarrow> path \<Rightarrow> world \<Rightarrow> (error + job) \<times> world" where
  "queue_upload now profile r p w =
     (let suf = py_lower (path_suffix p) in
      if suf \<in> set DOCUMENT_UPLOAD_EXTENSIONS then
        create_and_publish now profile ''generate_ocr''
          (PDict [(''download_id'', PInt (dl_id r)), (''source_type'', PStr ''manual''),
                  (''media_type'', PStr ''document''), (''manual_upload'', PBool True)])
          (Some (ocr_key profile (dl_id r))) w
      else
        create_and_publish now profile ''generate_transcript''
          (PDict [(''download_id'', PInt (dl_id r)), (''subtitles'', PBool True),
                  (''source_type'', PStr ''manual''),
                  (''media_type'', PStr (if suf \<in> set VIDEO_UPLOAD_EXTENSIONS then ''video'' else ''audio'')),
                  (''recent_download'', PBool True), (''manual_upload'', PBool True)])
          (Some (transcript_key profile (dl_id r))) w)"

record upload_entry =
  ue_id :: int
  ue_title :: "string option"
  ue_job :: int

definition upload_one ::
    "upload_env \<Rightarrow> time \<Rightarrow> string \<Rightarrow> uploaded_file \<Rightarrow> world \<Rightarrow> ((error + upload_entry) \<times> world) option" where
  "upload_one env now profile f w =
     (case write_manual_upload env now profile f w of
        None \<Rightarrow> None
      | Some (Inl e, w1) \<Rightarrow> Some (Inl e, w1)
      | Some (Inr (r, p), w1) \<Rightarrow>
          (case queue_upload now profile r p w1 of
             (Inl e, w2) \<Rightarrow> Some (Inl e, w2)
           | (Inr j, w2) \<Rightarrow> Some (Inr \<lparr>ue_id = dl_id r, ue_title = dl_title r, ue_job = job_id j\<rparr>, w2)))"

text \<open>A \<open>ValueError\<close> is noted against its file; any other exception ends the request.\<close>

type_synonym upload_lists = "upload_entry list \<times> (string \<times> string) list"

fun upload_all ::
    "upload_env \<Rightarrow> time \<Rightarrow> string \<Rightarrow> uploaded_file list \<Rightarrow> upload_lists \<Rightarrow> world \<Rightarrow>
     ((error + upload_lists) \<times> world) option" where
  "upload_all env now profile [] acc w = Some (Inr acc, w)"
| "upload_all env now profile (f # fs) acc w =
     (case upload_one env now profile f w of
        None \<Rightarrow> None
      | Some (Inr u, w1) \<Rightarrow> upload_all env now profile fs (fst acc @ [u], snd acc) w1
      | Some (Inl (ValueError e), w1) \<Rightarrow>
          upload_all env now profile fs (fst acc, snd acc @ [(uf_name f, e)]) w1
      | Some (Inl e, w1) \<Rightarrow> Some (Inl e, w1))"

record upload_reply =
  ur_http :: int
  ur_ok :: bool
  ur_uploads :: "upload_entry list"
  ur_errors :: "(string \<times> string) list"

definition manual_upload ::
    "upload_env \<Rightarrow> time \<Rightarrow> string \<Rightarrow> uploaded_file list \<Rightarrow> world \<Rightarrow> (upload_reply reply \<times> world) option" where
  "manual_upload env now profile fs w =
     (if fs = [] then Some (Refused ''No files uploaded.'', w)
      else (case upload_all env now profile fs ([], []) w of
          None \<Rightarrow> None
        | Some (Inl e, w1) \<Rightarrow> Some (Raised e, w1)
        | Some (Inr (created, errors), w1) \<Rightarrow>
            Some (Done \<lparr>ur_http = (if created \<noteq> [] then 201 else 400), ur_ok = (created \<noteq> []),
                        ur_uploads = created, ur_errors = errors\<rparr>, w1)))"

section \<open>Importing a file in place\<close>

definition json_char :: "char \<Rightarrow> string" where
  "json_char c = (let n = ord c; bs = char_of (92 :: nat) in
     if n = 34 \<or> n = 92 then [bs, c]
     else if n = 8 then [bs, CHR ''b''] else if n = 9 then [bs, CHR ''t'']
     else if n = 10 then [bs, CHR ''n''] else if n = 12 then [bs, CHR ''f'']
     else if n = 13 then [bs, CHR ''r'']
     else if n < 32 \<or> 127 \<le> n
       then [bs, CHR ''u'', CHR ''0'', CHR ''0'', hex_digit (n div 16), hex_digit (n mod 16)]
     else [c])"

definition json_text :: "string \<Rightarrow> string" where
  "json_text s = char_of (34 :: nat) # concat (map json_char s) @ [char_of (34 :: nat)]"

definition import_metadata :: "string \<Rightarrow> string" where
  \<open>import_metadata rel = ''{"ingest_method": "downloads-directory", "relative_path": '' @ json_text rel @ ''}''\<close>

record import_env =
  im_resolve :: "path \<Rightarrow> path"
  im_absolute :: "path \<Rightarrow> path"
  im_digest :: "string \<Rightarrow> string"

definition import_root :: "import_env \<Rightarrow> string \<Rightarrow> string option \<Rightarrow> database \<Rightarrow> path" where
  "import_root env profile downloads_root d =
     (case downloads_root of
        Some s \<Rightarrow> im_resolve env (path_of s)
      | None \<Rightarrow> im_resolve env (profile_output_root (im_absolute env) d profile))"

definition import_uid :: "string \<Rightarrow> string \<Rightarrow> string \<Rightarrow> int \<Rightarrow> string \<Rightarrow> string" where
  "import_uid profile channel rel sz digest = ''manualdir-'' @ profile @ ''-'' @ channel @ ''-'' @ rel
     @ ''-'' @ str_of_int sz @ ''-'' @ digest"

definition import_facts ::
    "import_env \<Rightarrow> string \<Rightarrow> string option \<Rightarrow> path \<Rightarrow> path \<Rightarrow> int \<Rightarrow> file_facts" where
  "import_facts env profile source_name p q sz =
     (let channel = or_else (or_else (text_of source_name) (path_name (path_parent p))) ''Manual Uploads'' in
      \<lparr>ff_channel = channel,
       ff_uid = import_uid profile channel (path_str q) sz (im_digest env (path_str p)),
       ff_title = path_name p, ff_description = ''Imported from downloads directory'', ff_path = p,
       ff_relative = Some (path_str q), ff_suffix = py_lower (path_suffix p), ff_size = sz,
       ff_metadata = import_metadata (path_str q)\<rparr>)"

definition import_manual_file ::
    "import_env \<Rightarrow> time \<Rightarrow> string \<Rightarrow> string \<Rightarrow> string option \<Rightarrow> string option \<Rightarrow> world \<Rightarrow>
     (error + download \<times> path) \<times> world" where
  "import_manual_file env now profile file_path source_name downloads_root w =
     (let p = im_resolve env (path_of file_path);
          suf = py_lower (path_suffix p);
          base = import_root env profile downloads_root (db w)
      in case files w (path_str p) of
           Some (RegularFile sz) \<Rightarrow>
             if suf \<notin> set MEDIA_UPLOAD_EXTENSIONS
             then (Inl (ValueError (''Unsupported media type: '' @ path_name p)), w)
             else (case relative_to p base of
                 None \<Rightarrow> (Inl (ValueError (''File must live under the downloads root: '' @ path_str base)), w)
               | Some q \<Rightarrow>
                   let ff = import_facts env profile source_name p q sz
                   in case update_or_create now profile (ff_uid ff) (manual_fields now ff) (db w) of
                        Inl e \<Rightarrow> (Inl e, w)
                      | Inr (r, d1) \<Rightarrow> (Inr (r, p), w\<lparr>db := d1\<rparr>))
         | _ \<Rightarrow> (Inl (ValueError (''File unavailable: '' @ path_str p)), w))"


section \<open>Facts about names\<close>

fun two_dots :: "string \<Rightarrow> bool" where
  "two_dots (a # b # s) = ((a = CHR ''.'' \<and> b = CHR ''.'') \<or> two_dots (b # s))"
| "two_dots _ = False"

lemma squeeze_dots_hd: "s \<noteq> [] \<Longrightarrow> squeeze_dots s \<noteq> [] \<and> hd (squeeze_dots s) = hd s"
  by (induction s rule: squeeze_dots.induct) auto

lemma two_dots_Cons: "two_dots (a # s) \<longleftrightarrow> (a = CHR ''.'' \<and> s \<noteq> [] \<and> hd s = CHR ''.'') \<or> two_dots s"
  by (cases s) auto

lemma two_dots_squeeze: "\<not> two_dots (squeeze_dots s)"
proof (induction s rule: squeeze_dots.induct)
  case (3 c d cs)
  then show ?case using squeeze_dots_hd [of "d # cs"] by (auto simp: two_dots_Cons)
qed auto

lemma squeeze_dots_id: "\<not> two_dots s \<Longrightarrow> squeeze_dots s = s"
  by (induction s rule: squeeze_dots.induct) auto

lemma two_dots_append: "two_dots s \<or> two_dots t \<Longrightarrow> two_dots (s @ t)"
  by (induction s rule: two_dots.induct) (auto simp: two_dots_Cons)

lemma dash_runs_hd:
  "dash_runs ok False s \<noteq> [] \<Longrightarrow> hd (dash_runs ok False s) = hd s \<or> hd (dash_runs ok False s) = CHR ''-''"
  by (cases s) auto

lemma two_dots_dash_runs: "\<not> two_dots s \<Longrightarrow> \<not> two_dots (dash_runs ok inside s)"
proof (induction ok inside s rule: dash_runs.induct)
  case (2 ok inside c cs)
  then show ?case
    using dash_runs_hd [of ok cs] by (cases "cs = []") (auto simp: two_dots_Cons)
qed simp

lemma dash_runs_ok: "ok CHR ''-'' \<Longrightarrow> list_all ok (dash_runs ok inside s)"
  by (induction ok inside s rule: dash_runs.induct) auto

lemma dash_runs_id: "list_all ok s \<Longrightarrow> dash_runs ok False s = s"
  by (induction s) auto

lemma strip_chars_sublist: "\<exists>a b. s = a @ strip_chars P s @ b"
proof -
  obtain b where "dropWhile P s = strip_chars P s @ b"
    using rstrip_chars_prefix [of P "dropWhile P s"] by (auto simp: strip_chars_def prefix_def)
  then have "s = takeWhile P s @ strip_chars P s @ b" by (metis takeWhile_dropWhile_id)
  then show ?thesis by blast
qed

text \<open>What a stem that is safe in a file name looks like.\<close>

definition safe_stem :: "string \<Rightarrow> bool" where
  "safe_stem s \<longleftrightarrow> s \<noteq> [] \<and> list_all stem_char s \<and> \<not> two_dots s
     \<and> hd s \<notin> set ''. -'' \<and> last s \<notin> set ''. -''"

lemma safe_stem_normal: "safe_stem (normalize_upload_stem v)"
proof -
  let ?P = "\<lambda>c. c \<in> set ''. -''"
  let ?a = "rstrip_chars (\<lambda>c. c \<in> set ''. '') (squeeze_dots v)"
  let ?d = "dash_runs stem_char False ?a"
  obtain t where "squeeze_dots v = ?a @ t" using rstrip_chars_prefix [of _ "squeeze_dots v"] by (metis prefix_def)
  then have a: "\<not> two_dots ?a" using two_dots_squeeze two_dots_append by metis
  obtain x y where d: "?d = x @ strip_chars ?P ?d @ y" using strip_chars_sublist by blast
  have "stem_char CHR ''-''" by (simp add: stem_char_def)
  then have "list_all stem_char ?d" by (rule dash_runs_ok)
  then have ok: "list_all stem_char (strip_chars ?P ?d)" by (subst (asm) d) simp
  have dots: "\<not> two_dots (strip_chars ?P ?d)"
    using two_dots_dash_runs [OF a] d two_dots_append by metis
  show ?thesis
  proof (cases "strip_chars ?P ?d = []")
    case True
    have "safe_stem ''manual-upload''" by code_simp
    then show ?thesis using True by (simp add: normalize_upload_stem_def)
  next
    case False
    then have "normalize_upload_stem v = strip_chars ?P ?d"
      by (simp add: normalize_upload_stem_def Let_def)
    then show ?thesis
      using False ok dots strip_chars_hd [OF False] strip_chars_last [OF False]
      by (simp only: safe_stem_def) simp
  qed
qed

lemma normalize_safe_stem:
  assumes "safe_stem s"
  shows "normalize_upload_stem s = s"
proof -
  have "rstrip_chars (\<lambda>c. c \<in> set ''. '') s = s"
    using assms by (intro rstrip_chars_id) (auto simp: safe_stem_def)
  moreover have "strip_chars (\<lambda>c. c \<in> set ''. -'') s = s"
    using assms by (intro strip_chars_id) (simp add: safe_stem_def)
  ultimately show ?thesis
    using assms by (simp add: normalize_upload_stem_def squeeze_dots_id dash_runs_id safe_stem_def)
qed

lemma str_of_nat_inject: "str_of_nat m = str_of_nat n \<Longrightarrow> m = n"
  by (metis foldl_str_of_nat of_nat_eq_iff)

lemma join_with_snoc: "ps \<noteq> [] \<Longrightarrow> join_with sep (ps @ [x]) = join_with sep ps @ sep @ x"
  by (induction ps rule: induct_list012) auto

lemma path_str_snoc_inject:
  assumes "path_str (Path a (ps @ [x])) = path_str (Path a (ps @ [y]))"
  shows "x = y"
  using assms by (cases "ps = []"; cases a) (auto simp: join_with_snoc)

definition candidate_name :: "string \<Rightarrow> string \<Rightarrow> nat \<Rightarrow> string" where
  "candidate_name stem suf k = (if k = 0 then stem @ suf else stem @ ''-'' @ str_of_nat k @ suf)"

lemma upload_candidate_path:
  assumes "safe_stem stem" and "suf \<in> set MEDIA_UPLOAD_EXTENSIONS"
  shows "upload_candidate dir stem suf k
    = Path (is_absolute dir) (path_parts dir @ [candidate_name stem suf k])"
proof -
  let ?n = "candidate_name stem suf k"
  have suf: "CHR ''/'' \<notin> set suf" "2 \<le> length suf" "\<forall>s \<in> set MEDIA_UPLOAD_EXTENSIONS. length s \<noteq> 0"
    using assms(2) by (auto simp: MEDIA_UPLOAD_EXTENSIONS_def)
  have no: "\<not> stem_char CHR ''/''" by (simp add: stem_char_def is_decimal_def Let_def)
  have "CHR ''/'' \<notin> set stem" using assms(1) no by (auto simp: safe_stem_def list_all_iff)
  moreover have "CHR ''/'' \<notin> set (str_of_nat k)"
    using str_of_nat_decimal [of "CHR ''/''" k] by (auto simp: is_decimal_def)
  ultimately have ns: "CHR ''/'' \<notin> set ?n" using suf by (simp add: candidate_name_def)
  have len: "2 \<le> length ?n" using suf by (simp add: candidate_name_def)
  then have "kept_part ?n" by (auto simp: kept_part_def)
  moreover have "take 1 ?n \<noteq> ''/''" using ns len by (cases ?n) auto
  ultimately have "path_of ?n = Path False [?n]" using ns by (simp add: path_of_def split_on_no_sep)
  then show ?thesis by (simp add: upload_candidate_def candidate_name_def path_join_def)
qed

lemma upload_candidate_inject:
  assumes "safe_stem stem" and "suf \<in> set MEDIA_UPLOAD_EXTENSIONS"
    and "path_str (upload_candidate dir stem suf i) = path_str (upload_candidate dir stem suf j)"
  shows "i = j"
proof -
  have "candidate_name stem suf i = candidate_name stem suf j"
    using assms(3) unfolding upload_candidate_path [OF assms(1,2)] by (rule path_str_snoc_inject)
  then show ?thesis
    by (auto simp: candidate_name_def dest: arg_cong [where f = length] str_of_nat_inject split: if_splits)
qed

lemma free_upload_name_from:
  assumes "\<not> path_exists fs (path_str (upload_candidate dir stem suf k))" and "i \<le> k"
    and "\<forall>j < k. path_exists fs (path_str (upload_candidate dir stem suf j))"
  shows "free_upload_name fs dir stem suf i = Some (upload_candidate dir stem suf k)"
  using assms(2)
proof (induction i rule: inc_induct)
  case base
  then show ?case using assms(1) by (subst free_upload_name.simps) (simp add: Let_def)
next
  case (step i)
  then show ?case using assms(3) by (subst free_upload_name.simps) (simp add: Let_def)
qed

text \<open>The loop over the numbered names ends, at the first name that is free.\<close>

lemma free_upload_name_found:
  assumes "finite (dom fs)" and "safe_stem stem" and "suf \<in> set MEDIA_UPLOAD_EXTENSIONS"
  obtains k where "free_upload_name fs dir stem suf 0 = Some (upload_candidate dir stem suf k)"
    and "fs (path_str (upload_candidate dir stem suf k)) = None"
    and "\<forall>j < k. fs (path_str (upload_candidate dir stem suf j)) \<noteq> None"
proof -
  let ?p = "\<lambda>k. path_str (upload_candidate dir stem suf k)"
  have "inj ?p" using upload_candidate_inject [OF assms(2,3)] by (auto intro!: injI)
  then obtain k where k: "fs (?p k) = None" and less: "\<forall>j < k. fs (?p j) \<noteq> None"
    using assms(1) by (rule first_free)
  show thesis
    using that [of k] free_upload_name_from [of fs dir stem suf k 0] k less by (simp add: path_exists_def)
qed

lemma make_dirs_keeps:
  "make_dirs ps fs = Inr fs' \<Longrightarrow> (\<forall>p v. fs p = Some v \<longrightarrow> fs' p = Some v) \<and> (finite (dom fs) \<longrightarrow> finite (dom fs'))
   \<and> (\<forall>p. fs p = None \<longrightarrow> fs' p = None \<or> fs' p = Some Directory)"
proof (induction ps arbitrary: fs)
  case (Cons q ps)
  show ?case
  proof (cases "fs q")
    case None
    then have "make_dirs ps (fs(q \<mapsto> Directory)) = Inr fs'" using Cons.prems by simp
    note ih = Cons.IH [OF this]
    have "fs' p = Some v" if "fs p = Some v" for p v
      using ih that None by (metis fun_upd_other option.distinct(1))
    moreover have "fs' p = None \<or> fs' p = Some Directory" if "fs p = None" for p
      using ih that by (metis fun_upd_apply)
    moreover have "dom (fs(q \<mapsto> Directory)) = insert q (dom fs)" by simp
    then have "finite (dom fs) \<longrightarrow> finite (dom fs')" using ih by (metis finite_insert)
    ultimately show ?thesis by blast
  next
    case (Some n)
    then show ?thesis using Cons by (cases n) auto
  qed
qed simp

definition downloads_wf :: "database \<Rightarrow> bool" where
  "downloads_wf d \<longleftrightarrow> distinct (map dl_id (downloads d))
     \<and> (\<forall>r \<in> set (downloads d). dl_id r < next_download_id d)"

lemma update_or_create_row:
  assumes "update_or_create now profile uid f d = Inr (r, d')"
    and "\<And>x. dl_id (f x) = dl_id x" "\<And>x. dl_profile_id (f x) = dl_profile_id x" "\<And>x. dl_item_uid (f x) = dl_item_uid x"
    and "downloads_wf d"
  shows "r \<in> set (downloads d') \<and> downloads_wf d' \<and> dl_profile_id r = profile \<and> dl_item_uid r = Some uid
    \<and> (\<exists>x. r = f x) \<and> jobs d' = jobs d \<and> next_job_id d' = next_job_id d
    \<and> filter (\<lambda>x. dl_profile_id x \<noteq> profile) (downloads d') = filter (\<lambda>x. dl_profile_id x \<noteq> profile) (downloads d)
    \<and> (\<forall>x \<in> set (downloads d'). x = r \<or> x \<in> set (downloads d))
    \<and> (\<forall>x \<in> set (downloads d). \<exists>y \<in> set (downloads d'). dl_id y = dl_id x \<and> dl_profile_id y = dl_profile_id x)"
proof (cases "filter (\<lambda>r. dl_profile_id r = profile \<and> dl_item_uid r = Some uid) (downloads d)")
  case Nil
  let ?b = "f (blank_download now profile uid d)"
  have run: "r = ?b" "d' = d\<lparr>downloads := downloads d @ [?b], next_download_id := next_download_id d + 1\<rparr>"
    using assms(1) Nil by (auto simp: update_or_create_def Let_def)
  have keys: "dl_id ?b = next_download_id d" "dl_profile_id ?b = profile" "dl_item_uid ?b = Some uid"
    by (simp_all add: assms(2-4) blank_download_def)
  have "\<forall>x \<in> set (downloads d). dl_id x < next_download_id d + 1"
    using assms(5) by (auto simp: downloads_wf_def dest!: bspec)
  then have "downloads_wf d'" using assms(5) keys(1) by (auto simp: run downloads_wf_def)
  then show ?thesis using keys run by auto
next
  case (Cons x xs)
  then have xs: "xs = []" using assms(1) by (cases xs) (auto simp: update_or_create_def)
  have "x \<in> set (filter (\<lambda>r. dl_profile_id r = profile \<and> dl_item_uid r = Some uid) (downloads d))"
    using Cons by simp
  then have x: "x \<in> set (downloads d)" "dl_profile_id x = profile" "dl_item_uid x = Some uid" by auto
  have r: "r = f x" "d' = update_downloads_where (\<lambda>y. dl_id y = dl_id x) f d"
    using assms(1) Cons xs by (auto simp: update_or_create_def)
  have only: "y = x" if "y \<in> set (downloads d)" "dl_id y = dl_id x" for y
    using that x(1) assms(5) unfolding downloads_wf_def by (metis distinct_map inj_onD)
  have m: "map dl_id (update_where P f (downloads d)) = map dl_id (downloads d)" for P
    using assms(2) by (rule map_update_where_frame)
  have "downloads_wf d'"
    using assms(5) m by (auto simp: r downloads_wf_def update_downloads_where_def set_update_where assms(2))
  moreover have "filter (\<lambda>y. dl_profile_id y \<noteq> profile) (update_where (\<lambda>y. dl_id y = dl_id x) f (downloads d))
      = filter (\<lambda>y. dl_profile_id y \<noteq> profile) (downloads d)"
    using only x(2) assms(3) by (intro filter_update_where_frame) auto
  moreover have "\<exists>y \<in> set (downloads d'). dl_id y = dl_id z \<and> dl_profile_id y = dl_profile_id z"
    if "z \<in> set (downloads d)" for z
  proof (cases "dl_id z = dl_id x")
    case True
    then have "f z \<in> set (downloads d')" using that by (auto simp: r set_update_where)
    then show ?thesis using assms(2,3) by blast
  next
    case False
    then have "z \<in> set (downloads d')" using that by (auto simp: r set_update_where)
    then show ?thesis by blast
  qed
  ultimately show ?thesis
    using r x only assms(2-4) by (auto simp: set_update_where update_downloads_where_def)
qed

lemma update_or_create_again:
  assumes "update_or_create now profile uid f d = Inr (r, d1)"
    and "\<And>x. dl_id (f x) = dl_id x" "\<And>x. dl_profile_id (f x) = dl_profile_id x" "\<And>x. dl_item_uid (f x) = dl_item_uid x"
    and "downloads_wf d" and "update_or_create now2 profile uid g d1 = Inr (r2, d2)"
  shows "r2 = g r \<and> length (downloads d2) = length (downloads d1)"
proof -
  note row = update_or_create_row [OF assms(1-5)]
  have mem: "r \<in> set (filter (\<lambda>x. dl_profile_id x = profile \<and> dl_item_uid x = Some uid) (downloads d1))"
    using row by simp
  have "filter (\<lambda>x. dl_profile_id x = profile \<and> dl_item_uid x = Some uid) (downloads d1) = [r]"
  proof (cases "filter (\<lambda>x. dl_profile_id x = profile \<and> dl_item_uid x = Some uid) (downloads d1)")
    case (Cons y ys)
    then have "ys = []" using assms(6) by (cases ys) (simp_all add: update_or_create_def)
    then show ?thesis using Cons mem by simp
  qed (use mem in simp)
  then show ?thesis
    using assms(6) by (auto simp: update_or_create_def update_downloads_where_def)
qed

lemma update_or_create_config:
  assumes "update_or_create now profile uid f d = Inr (r, d1)"
  shows "profile_config d1 = profile_config d \<and> app_config d1 = app_config d"
  using assms by (auto simp: update_or_create_def update_downloads_where_def Let_def split: list.splits)

lemma manual_fields_keys [simp]:
  "dl_id (manual_fields now ff r) = dl_id r"
  "dl_profile_id (manual_fields now ff r) = dl_profile_id r"
  "dl_item_uid (manual_fields now ff r) = dl_item_uid r"
  "dl_file_path (manual_fields now ff r) = Some (path_str (ff_path ff))"
  "dl_file_path_relative (manual_fields now ff r) = ff_relative ff"
  "dl_file_size_bytes (manual_fields now ff r) = Some (ff_size ff)"
  "dl_status (manual_fields now ff r) = DOWNLOADED"
  "dl_title (manual_fields now ff r) = Some (ff_title ff)"
  by (simp_all add: manual_fields_def)

text \<open>Everything one upload does to the world.\<close>

definition keeps_others :: "string \<Rightarrow> world \<Rightarrow> world \<Rightarrow> bool" where
  "keeps_others profile w w' \<longleftrightarrow>
     (\<forall>p v. files w p = Some v \<longrightarrow> files w' p = Some v)
     \<and> filter (\<lambda>x. dl_profile_id x \<noteq> profile) (downloads (db w'))
       = filter (\<lambda>x. dl_profile_id x \<noteq> profile) (downloads (db w))
     \<and> (\<forall>x \<in> set (downloads (db w)). \<exists>y \<in> set (downloads (db w')).
          dl_id y = dl_id x \<and> dl_profile_id y = dl_profile_id x)"

definition upload_ready :: "world \<Rightarrow> bool" where
  "upload_ready w \<longleftrightarrow> finite (dom (files w)) \<and> downloads_wf (db w)"

lemma keeps_others_trans: "keeps_others p a b \<Longrightarrow> keeps_others p b c \<Longrightarrow> keeps_others p a c"
  unfolding keeps_others_def by metis

lemma keeps_others_refl: "keeps_others p a a"
  by (auto simp: keeps_others_def)

lemma store_upload_world:
  assumes "store_upload env now profile base p name payload w = (res, w')"
    and "upload_ready w" and "files w (path_str p) = None"
  shows "upload_ready w' \<and> keeps_others profile w w' \<and> jobs (db w') = jobs (db w) \<and> broker w' = broker w
    \<and> (\<forall>r q. res = Inr (r, q) \<longrightarrow> q = p \<and> r \<in> set (downloads (db w')) \<and> dl_profile_id r = profile
         \<and> dl_file_path r = Some (path_str p) \<and> dl_title r = Some name
         \<and> files w' (path_str p) = Some (RegularFile (int (length payload))))"
proof -
  have k: "keeps_others profile w (w\<lparr>files := (files w)(path_str p := x), db := d\<rparr>)"
    if "filter (\<lambda>x. dl_profile_id x \<noteq> profile) (downloads d)
      = filter (\<lambda>x. dl_profile_id x \<noteq> profile) (downloads (db w))"
      and "\<forall>x \<in> set (downloads (db w)). \<exists>y \<in> set (downloads d). dl_id y = dl_id x \<and> dl_profile_id y = dl_profile_id x"
    for x d
    using assms(3) that by (auto simp: keeps_others_def)
  have k0: "keeps_others profile w (w\<lparr>files := (files w)(path_str p := x)\<rparr>)" for x
    using assms(3) by (auto simp: keeps_others_def)
  have f: "finite (dom ((files w)(path_str p := x)))" for x
    using assms(2) by (auto simp: upload_ready_def)
  let ?ff = "upload_facts env base p name payload"
  show ?thesis
  proof (cases "payload = [] \<or> \<not> up_saves env")
    case True
    then show ?thesis
      using assms(1,2) k0 f by (auto simp: store_upload_def Let_def upload_ready_def split: if_splits)
  next
    case False
    show ?thesis
    proof (cases "update_or_create now profile (ff_uid ?ff) (manual_fields now ?ff) (db w)")
      case (Inl e)
      then show ?thesis
        using assms(1,2) k0 f False by (auto simp: store_upload_def Let_def upload_ready_def)
    next
      case (Inr rd)
      obtain r d where rd: "rd = (r, d)" by (cases rd)
      have "downloads_wf (db w)" using assms(2) by (simp add: upload_ready_def)
      note row = update_or_create_row [OF Inr [unfolded rd] manual_fields_keys(1-3) this]
      then obtain x where x: "r = manual_fields now ?ff x" by blast
      have run: "res = Inr (r, p)"
        "w' = w\<lparr>files := (files w)(path_str p \<mapsto> RegularFile (int (length payload))), db := d\<rparr>"
        using assms(1) Inr False rd by (auto simp: store_upload_def Let_def)
      have "finite (dom (files w))" using assms(2) by (simp add: upload_ready_def)
      then have "upload_ready w'" using row by (simp add: run upload_ready_def)
      moreover have "keeps_others profile w w'" unfolding run using row by (intro k) blast+
      moreover have "dl_file_path r = Some (path_str p)" "dl_title r = Some name"
        by (simp_all add: x upload_facts_def)
      ultimately show ?thesis using row by (simp add: run)
    qed
  qed
qed

lemma write_upload_world:
  assumes "upload_ready w"
  obtains res w' where "write_manual_upload env now profile f w = Some (res, w')"
    and "upload_ready w'" "keeps_others profile w w'" "jobs (db w') = jobs (db w)" "broker w' = broker w"
    and "\<And>r p. res = Inr (r, p) \<Longrightarrow> r \<in> set (downloads (db w')) \<and> dl_profile_id r = profile
      \<and> dl_file_path r = Some (path_str p) \<and> files w (path_str p) = None
      \<and> files w' (path_str p) = Some (RegularFile (int (length (concat (uf_chunks f)))))"
proof -
  let ?name = "path_name (path_of (uf_name f))"
  let ?suf = "py_lower (path_suffix (path_of ?name))"
  let ?base = "profile_output_root (up_absolute env) (db w) profile"
  let ?dir = "path_join ?base (path_of ''manual'')"
  let ?stem = "normalize_upload_stem (path_stem (path_of ?name))"
  show thesis
  proof (cases "?name = [] \<or> ?suf \<notin> set MEDIA_UPLOAD_EXTENSIONS \<or> (\<exists>e. make_dirs (ancestors ?dir) (files w) = Inl e)")
    case True
    have "\<exists>e. write_manual_upload env now profile f w = Some (Inl e, w)"
    proof (cases "?name = [] \<or> ?suf \<notin> set MEDIA_UPLOAD_EXTENSIONS")
      case True
      then show ?thesis by (auto simp: write_manual_upload_def Let_def)
    next
      case False
      then obtain e where "make_dirs (ancestors ?dir) (files w) = Inl e" using \<open>_ \<or> _\<close> by blast
      then show ?thesis using False by (auto simp: write_manual_upload_def Let_def)
    qed
    then obtain e where "write_manual_upload env now profile f w = Some (Inl e, w)" by blast
    then show thesis using that [of "Inl e" w] assms by (simp add: keeps_others_refl)
  next
    case False
    then obtain fs where fs: "make_dirs (ancestors ?dir) (files w) = Inr fs"
      by (cases "make_dirs (ancestors ?dir) (files w)") auto
    note md = make_dirs_keeps [OF fs]
    have fin: "finite (dom fs)" using md assms by (simp add: upload_ready_def)
    obtain k where k: "free_upload_name fs ?dir ?stem ?suf 0 = Some (upload_candidate ?dir ?stem ?suf k)"
      "fs (path_str (upload_candidate ?dir ?stem ?suf k)) = None"
      using False free_upload_name_found [OF fin safe_stem_normal, of ?suf] by blast
    let ?p = "upload_candidate ?dir ?stem ?suf k"
    obtain res w' where st: "store_upload env now profile ?base ?p ?name (concat (uf_chunks f)) (w\<lparr>files := fs\<rparr>)
        = (res, w')" by fastforce
    have ready: "upload_ready (w\<lparr>files := fs\<rparr>)" using fin assms by (simp add: upload_ready_def)
    note s = store_upload_world [OF st ready] k(2)
    have none: "files w (path_str ?p) = None" using md k(2) by (cases "files w (path_str ?p)") auto
    have "keeps_others profile w (w\<lparr>files := fs\<rparr>)" using md by (auto simp: keeps_others_def)
    then have keeps: "keeps_others profile w w'" using s by (auto intro: keeps_others_trans)
    show thesis
    proof (rule that)
      show "write_manual_upload env now profile f w = Some (res, w')"
        using False fs k(1) st by (auto simp: write_manual_upload_def Let_def)
      show "keeps_others profile w w'" by (rule keeps)
      fix r p
      assume "res = Inr (r, p)"
      then show "r \<in> set (downloads (db w')) \<and> dl_profile_id r = profile
          \<and> dl_file_path r = Some (path_str p) \<and> files w (path_str p) = None
          \<and> files w' (path_str p) = Some (RegularFile (int (length (concat (uf_chunks f)))))"
        using s none by auto
    qed (use s in simp_all)
  qed
qed

section \<open>Properties\<close>

text \<open>Whatever the browser calls a file, its stem is stored as a name of letters, digits, dots,
  underscores, blanks and dashes that is not empty, has no two dots in a row and neither starts nor
  ends with a dot, a blank or a dash; cleaning a clean name changes nothing.\<close>

theorem upload_stem_safe:
  "safe_stem (normalize_upload_stem v)
   \<and> CHR ''/'' \<notin> set (normalize_upload_stem v)
   \<and> normalize_upload_stem (normalize_upload_stem v) = normalize_upload_stem v"
proof -
  have "\<not> stem_char CHR ''/''" by (simp add: stem_char_def is_decimal_def Let_def)
  then have "CHR ''/'' \<notin> set (normalize_upload_stem v)"
    using safe_stem_normal [of v] by (auto simp: safe_stem_def list_all_iff)
  then show ?thesis using safe_stem_normal normalize_safe_stem by blast
qed


text \<open>The search for a free name ends whenever the disk holds finitely many files: it answers
  the first of the name and its numbered variants that no file or directory has.\<close>

theorem upload_name_terminates:
  assumes "finite (dom fs)" and "suf \<in> set MEDIA_UPLOAD_EXTENSIONS"
  shows "\<exists>k. free_upload_name fs dir (normalize_upload_stem v) suf 0
      = Some (upload_candidate dir (normalize_upload_stem v) suf k)
    \<and> fs (path_str (upload_candidate dir (normalize_upload_stem v) suf k)) = None
    \<and> (\<forall>j < k. fs (path_str (upload_candidate dir (normalize_upload_stem v) suf j)) \<noteq> None)"
  using free_upload_name_found [OF assms(1) safe_stem_normal assms(2), of dir v] by metis

theorem upload_name_terminates_witness:
  "\<exists>p. free_upload_name [''/music/a.mp3'' \<mapsto> RegularFile 3] (path_of ''/music'')
     (normalize_upload_stem ''a'') ''.mp3'' 0 = Some p \<and> path_str p \<noteq> ''/music/a.mp3''"
proof -
  have "finite (dom [''/music/a.mp3'' \<mapsto> RegularFile 3])" by simp
  moreover have "''.mp3'' \<in> set MEDIA_UPLOAD_EXTENSIONS" by (simp add: MEDIA_UPLOAD_EXTENSIONS_def)
  ultimately have "\<exists>k. free_upload_name [''/music/a.mp3'' \<mapsto> RegularFile 3] (path_of ''/music'')
      (normalize_upload_stem ''a'') ''.mp3'' 0
      = Some (upload_candidate (path_of ''/music'') (normalize_upload_stem ''a'') ''.mp3'' k)
    \<and> [''/music/a.mp3'' \<mapsto> RegularFile 3]
        (path_str (upload_candidate (path_of ''/music'') (normalize_upload_stem ''a'') ''.mp3'' k)) = None
    \<and> (\<forall>j < k. [''/music/a.mp3'' \<mapsto> RegularFile 3]
        (path_str (upload_candidate (path_of ''/music'') (normalize_upload_stem ''a'') ''.mp3'' j)) \<noteq> None)"
    by (rule upload_name_terminates)
  then show ?thesis by (auto split: if_splits)
qed

text \<open>Queueing a stored upload.\<close>

definition job_published :: "world \<Rightarrow> int \<Rightarrow> bool" where
  "job_published w n \<longleftrightarrow> (\<exists>j \<in> set (jobs (db w)). job_id j = n \<and> is_active j)
     \<and> (\<exists>m \<in> set (broker w). map_of (pub_body m) ''job_id'' = Some (PInt n))"

definition grows :: "world \<Rightarrow> world \<Rightarrow> bool" where
  "grows w w' \<longleftrightarrow> set (jobs (db w)) \<subseteq> set (jobs (db w')) \<and> set (broker w) \<subseteq> set (broker w')"

lemma grows_trans: "grows a b \<Longrightarrow> grows b c \<Longrightarrow> grows a c"
  by (auto simp: grows_def)

lemma job_published_grows: "job_published w n \<Longrightarrow> grows w w' \<Longrightarrow> job_published w' n"
  by (auto simp: job_published_def grows_def)

lemma create_and_publish_published:
  assumes "key \<noteq> []"
  obtains j w' where "create_and_publish now profile kind payload (Some key) w = (Inr j, w')"
    and "job_published w' (job_id j)" and "grows w w'" and "files w' = files w"
    and "downloads (db w') = downloads (db w)" and "next_download_id (db w') = next_download_id (db w)"
proof -
  let ?c = "create_job now profile kind payload (Some key) (db w)"
  obtain m where m: "create_and_publish now profile kind payload (Some key) w
      = (Inr (fst ?c), w\<lparr>db := snd ?c, broker := broker w @ [m]\<rparr>)"
    "map_of (pub_body m) ''job_id'' = Some (PInt (job_id (fst ?c)))"
    by (rule create_and_publish_world)
  have c: "fst ?c \<in> set (jobs (snd ?c))" "is_active (fst ?c)"
    using create_lookup_Some [OF create_job_active [OF assms]] by blast+
  have g: "set (jobs (db w)) \<subseteq> set (jobs (snd ?c))" "next_download_id (snd ?c) = next_download_id (db w)"
    by (auto simp: create_job_def create_insert_def insert_job_def Let_def split: option.split)
  show thesis
    by (rule that [OF m(1)]) (use m(2) c g in \<open>auto simp: job_published_def grows_def\<close>)
qed

lemma queue_upload_published:
  obtains j w' where "queue_upload now profile r p w = (Inr j, w')"
    and "job_published w' (job_id j)" and "grows w w'" and "files w' = files w"
    and "downloads (db w') = downloads (db w)" and "next_download_id (db w') = next_download_id (db w)"
proof -
  have "ocr_key profile n \<noteq> []" "transcript_key profile n \<noteq> []" for n
    by (simp_all add: ocr_key_def transcript_key_def)
  then have "\<exists>kind payload key. queue_upload now profile r p w
      = create_and_publish now profile kind payload (Some key) w \<and> key \<noteq> []"
    by (cases "py_lower (path_suffix p) \<in> set DOCUMENT_UPLOAD_EXTENSIONS")
      (simp_all add: queue_upload_def Let_def, blast+)
  then obtain kind payload key where q: "queue_upload now profile r p w
      = create_and_publish now profile kind payload (Some key) w" and key: "key \<noteq> []"
    by blast
  obtain j w' where "create_and_publish now profile kind payload (Some key) w = (Inr j, w')"
    "job_published w' (job_id j)" "grows w w'" "files w' = files w"
    "downloads (db w') = downloads (db w)" "next_download_id (db w') = next_download_id (db w)"
    by (rule create_and_publish_published [OF key])
  then show thesis by (intro that [of j w']) (simp_all add: q)
qed

lemma upload_one_world:
  assumes "upload_ready w"
  obtains res w' where "upload_one env now profile f w = Some (res, w')"
    and "upload_ready w'" "keeps_others profile w w'" "grows w w'"
    and "\<And>u. res = Inr u \<Longrightarrow> job_published w' (ue_job u)
      \<and> (\<exists>r \<in> set (downloads (db w')). dl_id r = ue_id u \<and> dl_profile_id r = profile)"
proof -
  obtain res w1 where wr: "write_manual_upload env now profile f w = Some (res, w1)"
    "upload_ready w1" "keeps_others profile w w1" "jobs (db w1) = jobs (db w)" "broker w1 = broker w"
    and row: "\<And>r p. res = Inr (r, p) \<Longrightarrow> r \<in> set (downloads (db w1)) \<and> dl_profile_id r = profile"
    using write_upload_world [OF assms] by metis
  have g1: "grows w w1" using wr by (simp add: grows_def)
  show thesis
  proof (cases res)
    case (Inl e)
    then show thesis using that [of "Inl e" w1] wr g1 by (simp add: upload_one_def)
  next
    case (Inr rp)
    obtain r p where rp: "rp = (r, p)" by (cases rp)
    obtain j w2 where q: "queue_upload now profile r p w1 = (Inr j, w2)" "job_published w2 (job_id j)"
      "grows w1 w2" "files w2 = files w1" "downloads (db w2) = downloads (db w1)"
      "next_download_id (db w2) = next_download_id (db w1)"
      by (rule queue_upload_published)
    show thesis
    proof (rule that)
      show "upload_one env now profile f w
          = Some (Inr \<lparr>ue_id = dl_id r, ue_title = dl_title r, ue_job = job_id j\<rparr>, w2)"
        using wr(1) Inr rp q(1) by (simp add: upload_one_def)
      show "upload_ready w2" using wr(2) q by (simp add: upload_ready_def downloads_wf_def)
      show "keeps_others profile w w2" using wr(3) q by (simp add: keeps_others_def)
      show "grows w w2" using g1 q(3) by (rule grows_trans)
      fix u
      assume "Inr \<lparr>ue_id = dl_id r, ue_title = dl_title r, ue_job = job_id j\<rparr> = (Inr u :: error + upload_entry)"
      then have u: "ue_id u = dl_id r" "ue_job u = job_id j" by auto
      have "r \<in> set (downloads (db w2))" "dl_profile_id r = profile"
        using row [of r p] Inr rp q(5) by simp_all
      then show "job_published w2 (ue_job u)
          \<and> (\<exists>r \<in> set (downloads (db w2)). dl_id r = ue_id u \<and> dl_profile_id r = profile)"
        using u q(2) by auto
    qed
  qed
qed


definition upload_entry_ok :: "string \<Rightarrow> world \<Rightarrow> upload_entry \<Rightarrow> bool" where
  "upload_entry_ok profile w u \<longleftrightarrow> job_published w (ue_job u)
     \<and> (\<exists>r \<in> set (downloads (db w)). dl_id r = ue_id u \<and> dl_profile_id r = profile)"

lemma upload_entry_ok_later:
  "upload_entry_ok profile w u \<Longrightarrow> keeps_others profile w w' \<Longrightarrow> grows w w' \<Longrightarrow> upload_entry_ok profile w' u"
  unfolding upload_entry_ok_def keeps_others_def using job_published_grows by metis

lemma upload_all_world:
  assumes "upload_ready w" and "\<forall>u \<in> set (fst acc). upload_entry_ok profile w u"
  obtains res w' where "upload_all env now profile fs acc w = Some (res, w')"
    and "keeps_others profile w w'"
    and "\<And>acc'. res = Inr acc' \<Longrightarrow> (\<forall>u \<in> set (fst acc'). upload_entry_ok profile w' u)
      \<and> length (fst acc') + length (snd acc') = length (fst acc) + length (snd acc) + length fs"
proof -
  have "\<exists>res w'. upload_all env now profile fs acc w = Some (res, w') \<and> keeps_others profile w w'
    \<and> (\<forall>acc'. res = Inr acc' \<longrightarrow> (\<forall>u \<in> set (fst acc'). upload_entry_ok profile w' u)
      \<and> length (fst acc') + length (snd acc') = length (fst acc) + length (snd acc) + length fs)"
    using assms
  proof (induction fs arbitrary: acc w)
    case Nil
    then show ?case by (simp add: keeps_others_refl)
  next
    case (Cons f fs)
    obtain res w1 where one: "upload_one env now profile f w = Some (res, w1)" "upload_ready w1"
      "keeps_others profile w w1" "grows w w1" "\<And>u. res = Inr u \<Longrightarrow> upload_entry_ok profile w1 u"
      using upload_one_world [OF Cons.prems(1)] unfolding upload_entry_ok_def by metis
    have old: "\<forall>u \<in> set (fst acc). upload_entry_ok profile w1 u"
      using Cons.prems(2) one(3,4) upload_entry_ok_later by blast
    have step: ?case
      if "upload_all env now profile (f # fs) acc w = upload_all env now profile fs acc1 w1"
        and "\<forall>u \<in> set (fst acc1). upload_entry_ok profile w1 u"
        and "length (fst acc1) + length (snd acc1) = Suc (length (fst acc) + length (snd acc))" for acc1
      using Cons.IH [OF one(2) that(2)] that(1,3) keeps_others_trans [OF one(3)] by fastforce
    show ?case
    proof (cases res)
      case (Inr u)
      show ?thesis
        by (rule step [of "(fst acc @ [u], snd acc)"]) (use one(1,5) Inr old in auto)
    next
      case (Inl e)
      show ?thesis
      proof (cases "\<exists>s. e = ValueError s")
        case True
        then obtain s where e: "e = ValueError s" by blast
        show ?thesis
          by (rule step [of "(fst acc, snd acc @ [(uf_name f, s)])"]) (use one(1) Inl e old in auto)
      next
        case False
        then have "upload_all env now profile (f # fs) acc w = Some (Inl e, w1)"
          using one(1) Inl by (cases e) auto
        then show ?thesis using one(3) by simp
      qed
    qed
  qed
  then show thesis using that by blast
qed


definition plain_upload_env :: upload_env where
  "plain_upload_env = \<lparr>up_absolute = id, up_sha1 = (\<lambda>s. ''0''), up_saves = True\<rparr>"

definition empty_world :: world where
  "empty_world = \<lparr>db = empty_database, broker = [], files = Map.empty\<rparr>"


text \<open>Uploading the same content twice keeps one episode and repoints it to the second copy: the
  first copy stays on the disk and the episode that named it does not name it any more.\<close>

theorem reupload_orphans_file:
  assumes "upload_ready w"
    and "store_upload env now profile base p name payload w = (Inr (r, p), w1)"
    and "store_upload env now2 profile base p2 name2 payload w1 = (Inr (r2, p2), w2)"
    and "files w1 (path_str p2) = None" and "files w (path_str p) = None"
  shows "dl_id r2 = dl_id r \<and> dl_file_path r2 = Some (path_str p2) \<and> path_str p2 \<noteq> path_str p
    \<and> files w2 (path_str p) = Some (RegularFile (int (length payload)))
    \<and> (\<forall>x \<in> set (downloads (db w2)). dl_id x = dl_id r \<longrightarrow> x = r2)"
proof -
  note s1 = store_upload_world [OF assms(2,1,5)]
  have ready: "upload_ready w1" using s1 by simp
  note s2 = store_upload_world [OF assms(3) ready assms(4)]
  let ?ff = "upload_facts env base p name payload" and ?ff2 = "upload_facts env base p2 name2 payload"
  have uid: "ff_uid ?ff2 = ff_uid ?ff" by (simp add: upload_facts_def)
  have u1: "update_or_create now profile (ff_uid ?ff) (manual_fields now ?ff) (db w) = Inr (r, db w1)"
    using assms(2) by (auto simp: store_upload_def Let_def split: if_splits sum.splits)
  obtain d2 where u2: "update_or_create now2 profile (ff_uid ?ff) (manual_fields now2 ?ff2) (db w1) = Inr (r2, d2)"
    using assms(3) uid by (auto simp: store_upload_def Let_def split: if_splits sum.splits)
  have r2: "r2 = manual_fields now2 ?ff2 r"
    using update_or_create_again [OF u1 manual_fields_keys(1-3) _ u2] assms(1) by (simp add: upload_ready_def)
  have wf2: "distinct (map dl_id (downloads (db w2)))" "r2 \<in> set (downloads (db w2))"
    using s2 by (simp_all add: upload_ready_def downloads_wf_def)
  have "x = r2" if "x \<in> set (downloads (db w2))" "dl_id x = dl_id r" for x
    using that wf2 r2 by (metis distinct_map inj_onD manual_fields_keys(1))
  moreover have f1: "files w1 (path_str p) = Some (RegularFile (int (length payload)))" using s1 by simp
  moreover have "files w2 (path_str p) = Some (RegularFile (int (length payload)))"
    using f1 s2 by (simp add: keeps_others_def)
  moreover have "dl_id r2 = dl_id r" by (simp add: r2)
  moreover have "dl_file_path r2 = Some (path_str p2)" using s2 by simp
  moreover have "path_str p2 \<noteq> path_str p" using f1 assms(4) by auto
  ultimately show ?thesis by blast
qed

theorem reupload_orphans_file_witness:
  "\<exists>r r2 w1 w2. store_upload plain_upload_env 5 ''kids'' (path_of ''/m'') (path_of ''/m/manual/a.mp3'') ''a.mp3'' ''xy''
       empty_world = (Inr (r, path_of ''/m/manual/a.mp3''), w1)
     \<and> store_upload plain_upload_env 6 ''kids'' (path_of ''/m'') (path_of ''/m/manual/a-1.mp3'') ''a.mp3'' ''xy'' w1
       = (Inr (r2, path_of ''/m/manual/a-1.mp3''), w2)
     \<and> dl_id r2 = dl_id r \<and> files w2 ''/m/manual/a.mp3'' = Some (RegularFile 2)"
proof -
  let ?p = "path_of ''/m/manual/a.mp3''" and ?p2 = "path_of ''/m/manual/a-1.mp3''"
  have ps: "path_str ?p = ''/m/manual/a.mp3''" "path_str ?p2 = ''/m/manual/a-1.mp3''" by code_simp+
  have ready: "upload_ready empty_world"
    by (simp add: upload_ready_def downloads_wf_def empty_world_def empty_database_def)
  obtain r w1 where one: "store_upload plain_upload_env 5 ''kids'' (path_of ''/m'') ?p ''a.mp3'' ''xy'' empty_world
      = (Inr (r, ?p), w1)"
    by (simp add: store_upload_def Let_def plain_upload_env_def update_or_create_def empty_world_def
        empty_database_def)
  have none: "files w1 (path_str ?p2) = None" "files empty_world (path_str ?p) = None"
    using one ps
    by (auto simp: store_upload_def Let_def plain_upload_env_def update_or_create_def empty_world_def
        empty_database_def)
  have row: "downloads (db w1) = [r]" "dl_profile_id r = ''kids''"
    "dl_item_uid r = Some (ff_uid (upload_facts plain_upload_env (path_of ''/m'') ?p ''a.mp3'' ''xy''))"
    using one
    by (auto simp: store_upload_def Let_def plain_upload_env_def update_or_create_def empty_world_def
        empty_database_def blank_download_def)
  have uid: "ff_uid (upload_facts plain_upload_env (path_of ''/m'') ?p2 ''a.mp3'' ''xy'')
      = ff_uid (upload_facts plain_upload_env (path_of ''/m'') ?p ''a.mp3'' ''xy'')"
    by (simp add: upload_facts_def)
  have "up_saves plain_upload_env" by (simp add: plain_upload_env_def)
  then obtain r2 w2 where two: "store_upload plain_upload_env 6 ''kids'' (path_of ''/m'') ?p2 ''a.mp3'' ''xy'' w1
      = (Inr (r2, ?p2), w2)"
    by (simp add: store_upload_def Let_def uid update_or_create_def row)
  from reupload_orphans_file [OF ready one two none] one two ps show ?thesis by auto
qed

lemma import_manual_file_run:
  assumes "import_manual_file env now profile fp channel base_dir w = (Inr (r, p), w')"
  obtains q sz where "p = im_resolve env (path_of fp)" "files w (path_str p) = Some (RegularFile sz)"
    "relative_to p (import_root env profile base_dir (db w)) = Some q"
    "update_or_create now profile (ff_uid (import_facts env profile channel p q sz))
       (manual_fields now (import_facts env profile channel p q sz)) (db w) = Inr (r, db w')"
    "files w' = files w"
  using assms unfolding import_manual_file_def Let_def
  by (auto split: option.splits file_node.splits if_splits sum.splits prod.splits)

text \<open>Importing a file that lies under the downloads directory again does not add an episode: the
  second import updates the row of the first, whose relative path leads from the directory back to
  the file.\<close>

theorem import_manual_file_idempotent:
  assumes "upload_ready w"
    and "import_manual_file env now profile fp channel base_dir w = (Inr (r, p), w1)"
    and "import_manual_file env now2 profile fp channel base_dir w1 = (Inr (r2, p2), w2)"
  shows "p2 = p \<and> dl_id r2 = dl_id r \<and> length (downloads (db w2)) = length (downloads (db w1))
    \<and> dl_file_path r = Some (path_str p)
    \<and> (\<exists>q. dl_file_path_relative r = Some (path_str q)
         \<and> path_join (import_root env profile base_dir (db w)) q = p)"
proof -
  obtain q sz where one: "p = im_resolve env (path_of fp)" "files w (path_str p) = Some (RegularFile sz)"
    "relative_to p (import_root env profile base_dir (db w)) = Some q"
    "update_or_create now profile (ff_uid (import_facts env profile channel p q sz))
       (manual_fields now (import_facts env profile channel p q sz)) (db w) = Inr (r, db w1)"
    "files w1 = files w"
    using assms(2) by (rule import_manual_file_run)
  obtain q2 sz2 where two: "p2 = im_resolve env (path_of fp)" "files w1 (path_str p2) = Some (RegularFile sz2)"
    "relative_to p2 (import_root env profile base_dir (db w1)) = Some q2"
    "update_or_create now2 profile (ff_uid (import_facts env profile channel p2 q2 sz2))
       (manual_fields now2 (import_facts env profile channel p2 q2 sz2)) (db w1) = Inr (r2, db w2)"
    using assms(3) by (rule import_manual_file_run)
  have "import_root env profile base_dir (db w1) = import_root env profile base_dir (db w)"
    using update_or_create_config [OF one(4)]
    by (cases base_dir)
      (simp_all add: import_root_def profile_output_root_def output_root_text_def profile_value_def app_value_of_def)
  then have same: "p2 = p" "sz2 = sz" "q2 = q" using one two by auto
  have again: "r2 = manual_fields now2 (import_facts env profile channel p q sz) r
      \<and> length (downloads (db w2)) = length (downloads (db w1))"
    using update_or_create_again [OF one(4) manual_fields_keys(1-3)] two(4) assms(1) same
    by (auto simp: upload_ready_def)
  obtain x where r: "r = manual_fields now (import_facts env profile channel p q sz) x"
    using update_or_create_row [OF one(4) manual_fields_keys(1-3)] assms(1) by (auto simp: upload_ready_def)
  have "dl_file_path r = Some (path_str p)" "dl_file_path_relative r = Some (path_str q)"
    by (simp_all add: r import_facts_def Let_def)
  then show ?thesis using again same join_relative_to [OF one(3)] by auto
qed

theorem import_manual_file_idempotent_witness:
  "\<exists>r r2 w1 w2. import_manual_file \<lparr>im_resolve = id, im_absolute = id, im_digest = (\<lambda>_. ''0'')\<rparr> 5 ''kids''
       ''/m/a.mp3'' None (Some ''/m'') (empty_world\<lparr>files := [''/m/a.mp3'' \<mapsto> RegularFile 2]\<rparr>)
       = (Inr (r, path_of ''/m/a.mp3''), w1)
     \<and> import_manual_file \<lparr>im_resolve = id, im_absolute = id, im_digest = (\<lambda>_. ''0'')\<rparr> 6 ''kids''
       ''/m/a.mp3'' None (Some ''/m'') w1 = (Inr (r2, path_of ''/m/a.mp3''), w2)
     \<and> dl_id r2 = dl_id r \<and> length (downloads (db w2)) = 1"
proof -
  let ?env = "\<lparr>im_resolve = id, im_absolute = id, im_digest = (\<lambda>_. ''0'')\<rparr>"
  let ?w = "empty_world\<lparr>files := [''/m/a.mp3'' \<mapsto> RegularFile 2]\<rparr>" and ?p = "path_of ''/m/a.mp3''"
  have p: "path_str ?p = ''/m/a.mp3''" "py_lower (path_suffix ?p) = ''.mp3''"
    "relative_to ?p (path_of ''/m'') = Some (path_of ''a.mp3'')" by code_simp+
  have ext: "''.mp3'' \<in> set MEDIA_UPLOAD_EXTENSIONS" by (simp add: MEDIA_UPLOAD_EXTENSIONS_def)
  have ready: "upload_ready ?w"
    by (simp add: upload_ready_def downloads_wf_def empty_world_def empty_database_def)
  let ?ff = "import_facts ?env ''kids'' None ?p (path_of ''a.mp3'') 2"
  obtain r w1 where one: "import_manual_file ?env 5 ''kids'' ''/m/a.mp3'' None (Some ''/m'') ?w = (Inr (r, ?p), w1)"
    by (simp add: import_manual_file_def Let_def p ext import_root_def update_or_create_def empty_world_def
        empty_database_def)
  have w1: "files w1 = files ?w" "downloads (db w1) = [r]" "dl_profile_id r = ''kids''"
    "dl_item_uid r = Some (ff_uid ?ff)"
    using one
    by (auto simp: import_manual_file_def Let_def p ext import_root_def update_or_create_def empty_world_def
        empty_database_def blank_download_def)
  obtain r2 w2 where two: "import_manual_file ?env 6 ''kids'' ''/m/a.mp3'' None (Some ''/m'') w1
      = (Inr (r2, ?p), w2)"
    by (simp add: import_manual_file_def Let_def p ext import_root_def update_or_create_def w1)
  from import_manual_file_idempotent [OF ready one two] one two w1(2) show ?thesis by auto
qed

end
