(* ===== verification/Media.thy ===== *)
theory Media
  imports Uploads
begin

text \<open>
  What the download and FFmpeg workers decide about a media file
  (\<open>src/src/workers/handlers.py\<close>, \<open>src/src/workers/utils.py\<close>): clean file names, the kind and
  extension of a file, whether FFmpeg has to run and with which arguments, the name of its output,
  and the deletion of its inputs. Expanding and resolving paths, the files that cannot be removed
  and SHA-1 are arguments.
\<close>

record media_env =
  md_absolute :: "path \<Rightarrow> path"
  md_resolve :: "path \<Rightarrow> path"
  md_denied :: "string \<Rightarrow> bool"
  md_sha1 :: "string \<Rightarrow> string"

section \<open>Names\<close>

text \<open>The class \<open>[\w.-]\<close> over the modelled characters.\<close>

definition is_word_char :: "char \<Rightarrow> bool" where
  "is_word_char c \<longleftrightarrow> (let n = ord c in
     (48 \<le> n \<and> n \<le> 57) \<or> (65 \<le> n \<and> n \<le> 90) \<or> n = 95 \<or> (97 \<le> n \<and> n \<le> 122)
     \<or> n = 170 \<or> n = 178 \<or> n = 179 \<or> n = 181 \<or> n = 185 \<or> n = 186 \<or> (188 \<le> n \<and> n \<le> 190)
     \<or> (192 \<le> n \<and> n \<noteq> 215 \<and> n \<noteq> 247))"

definition sanitize :: "string \<Rightarrow> string" where
  "sanitize name =
     (let a = map (\<lambda>c. if is_word_char c \<or> c \<in> set ''.-'' then c else CHR ''_'') name in
      or_else (strip_chars (\<lambda>c. c \<in> set ''. '') (squeeze_dots a)) ''item'')"

definition sanitize_channel_name :: "string \<Rightarrow> string" where
  "sanitize_channel_name name = or_else (filter (\<lambda>c. c \<noteq> CHR ''_'') (sanitize name)) ''channel''"

section \<open>Settings\<close>

definition profile_setting :: "database \<Rightarrow> string \<Rightarrow> string \<Rightarrow> string \<Rightarrow> string" where
  "profile_setting d profile key fallback = or_else (text_of (profile_value d profile key)) fallback"

definition download_output_root :: "media_env \<Rightarrow> database \<Rightarrow> string \<Rightarrow> path" where
  "download_output_root env d profile =
     md_absolute env (path_of (profile_setting d profile ''output_root'' (''./downloads/'' @ profile)))"

text \<open>The first source of the episode's name, in the table's default order.\<close>

definition source_of_download :: "database \<Rightarrow> download \<Rightarrow> source_config option" where
  "source_of_download d r =
     (case sort_key (\<lambda>s. (src_position s, src_id s))
             (filter (\<lambda>s. src_profile_id s = dl_profile_id r \<and> src_source_type s = dl_source_type r
                 \<and> src_name s = dl_source_name r) (source_configs d)) of
        [] \<Rightarrow> None | s # _ \<Rightarrow> Some s)"

section \<open>The kind of a file\<close>

definition preferred_media_kind :: "database \<Rightarrow> download \<Rightarrow> pydict \<Rightarrow> string" where
  "preferred_media_kind d r payload =
     (let requested = py_lower (py_strip (str_or_empty (dget payload ''media_type'')));
          configured = (case source_of_download d r of None \<Rightarrow> [] | Some s \<Rightarrow> text_of (src_media_type s));
          source_kind = py_lower (py_strip configured)
      in if requested \<in> {''audio'', ''video''} then requested
         else if source_kind \<in> {''audio'', ''video''} then source_kind
         else if parse_source_type (PStr (dl_source_type r)) = Some PODCAST then ''audio''
         else if py_lower (text_of (dl_file_ext r)) \<in> {''mp4'', ''mkv'', ''webm'', ''mov''} then ''video''
         else ''audio'')"

definition preferred_target_ext :: "database \<Rightarrow> string \<Rightarrow> string \<Rightarrow> string" where
  "preferred_target_ext d profile kind =
     py_lower (py_strip (profile_setting d profile
        (if kind = ''audio'' then ''audio_format'' else ''video_format'')
        (if kind = ''audio'' then ''mp3'' else ''mp4'')))"

definition video_codec :: "database \<Rightarrow> string \<Rightarrow> string" where
  "video_codec d profile = py_lower (py_strip (profile_setting d profile ''video_codec'' ''h264''))"

definition lstrip_dots :: "string \<Rightarrow> string" where
  "lstrip_dots s = dropWhile (\<lambda>c. c = CHR ''.'') s"

record ffmpeg_requirement =
  fr_required :: bool
  fr_kind :: string
  fr_target :: string

definition download_requires_ffmpeg :: "database \<Rightarrow> download \<Rightarrow> pydict \<Rightarrow> ffmpeg_requirement" where
  "download_requires_ffmpeg d r payload =
     (let kind = preferred_media_kind d r payload;
          target = preferred_target_ext d (dl_profile_id r) kind;
          current = py_lower (py_strip (or_else (text_of (dl_file_ext r))
                      (lstrip_dots (path_suffix (path_of (text_of (dl_file_path r)))))))
      in \<lparr>fr_required = (if kind = ''video''
                         then current \<noteq> target \<or> video_codec d (dl_profile_id r) \<notin> {''copy'', []}
                         else current \<noteq> target),
          fr_kind = kind, fr_target = target\<rparr>)"

definition downloaded_media_requires_ffmpeg ::
    "database \<Rightarrow> string \<Rightarrow> string \<Rightarrow> string \<Rightarrow> nat \<Rightarrow> bool \<times> string" where
  "downloaded_media_requires_ffmpeg d profile kind current inputs =
     (let target = (if kind = ''audio'' then ''mp3'' else preferred_target_ext d profile kind);
          normalized = lstrip_dots (py_lower (py_strip current))
      in if kind = ''video''
         then (inputs > 1 \<or> normalized \<noteq> target \<or> video_codec d profile \<notin> {''copy'', []}, target)
         else (normalized \<noteq> target, target))"

section \<open>FFmpeg's arguments\<close>

definition ffmpeg_thread_count :: "database \<Rightarrow> string \<Rightarrow> string" where
  "ffmpeg_thread_count d profile =
     (let raw = or_else (py_strip (profile_setting d profile ''ffmpeg_threads'' ''1'')) ''1'' in
      str_of_int (case py_int raw of None \<Rightarrow> 1 | Some n \<Rightarrow> max 1 n))"

definition ffmpeg_audio_args :: "database \<Rightarrow> string \<Rightarrow> string \<Rightarrow> string list" where
  "ffmpeg_audio_args d profile target =
     (let quality = or_else (py_strip (profile_setting d profile ''audio_quality'' ''0'')) ''0'';
          audio_filter = py_strip (profile_setting d profile ''ffmpeg_audio_filter'' [])
      in [''-vn'', ''-threads'', ffmpeg_thread_count d profile]
         @ (if target = ''mp3'' then [''-codec:a'', ''libmp3lame'', ''-q:a'', quality]
            else if target = ''opus'' then [''-codec:a'', ''libopus'', ''-b:a'', ''96k'']
            else [''-codec:a'', ''aac'', ''-b:a'', ''192k''])
         @ (if audio_filter \<noteq> [] then [''-af'', audio_filter] else []))"

definition ffmpeg_video_args :: "database \<Rightarrow> string \<Rightarrow> string \<Rightarrow> nat \<Rightarrow> string list" where
  "ffmpeg_video_args d profile target inputs =
     (let codec = video_codec d profile in
      [''-map'', ''0:v:0?'', ''-map'', (if inputs > 1 then ''1:a:0?'' else ''0:a:0?''), ''-map'', ''0:s?'',
       ''-c:s'', (if target = ''mp4'' then ''mov_text'' else ''copy'')]
      @ (if codec = ''copy'' then [''-c:v'', ''copy'']
         else if codec \<in> {''h264'', ''avc''} then
           [''-c:v'', ''libx264'', ''-preset'', ''fast'', ''-crf'', ''25'', ''-pix_fmt'', ''yuv420p'']
         else [''-c:v'', ''libx265'', ''-tag:v'', ''hvc1'', ''-crf'', ''28'', ''-preset'', ''medium''])
      @ [''-threads'', ffmpeg_thread_count d profile, ''-c:a'', ''aac'', ''-b:a'', ''128k'', ''-ac'', ''2'',
         ''-ar'', ''48000'']
      @ (if target = ''mp4'' then [''-movflags'', ''+faststart''] else []))"

section \<open>The output's name\<close>

text \<open>
  \<open>with_name\<close> refuses a name with a slash and a path without a name; \<open>None\<close> is a search that
  does not end.
\<close>

definition named_sibling :: "path \<Rightarrow> string \<Rightarrow> error + path" where
  "named_sibling p name =
     (if path_parts p = [] \<or> CHR ''/'' \<in> set name then Inl (ValueError name) else Inr (with_name p name))"

definition converted_name :: "path \<Rightarrow> string \<Rightarrow> nat \<Rightarrow> string" where
  "converted_name source ext k =
     path_stem source @ (if k = 0 then ''.converted.'' else ''.converted-'' @ str_of_nat k @ ''.'') @ ext"

partial_function (option) free_target ::
    "file_system \<Rightarrow> path \<Rightarrow> string \<Rightarrow> nat \<Rightarrow> path option" where
  "free_target fs source ext k =
     (let p = with_name source (converted_name source ext k) in
      if path_exists fs (path_str p) \<and> p \<noteq> source then free_target fs source ext (Suc k) else Some p)"

definition target_path :: "file_system \<Rightarrow> path \<Rightarrow> string \<Rightarrow> (error + path) option" where
  "target_path fs source target_ext =
     (let ext = or_else (lstrip_dots (py_lower target_ext)) (lstrip_dots (path_suffix source)) in
      case named_sibling source (converted_name source ext 0) of
        Inl e \<Rightarrow> Some (Inl e)
      | Inr _ \<Rightarrow> map_option Inr (free_target fs source ext 0))"

section \<open>Deleting the inputs\<close>

fun delete_ffmpeg_source_files ::
    "media_env \<Rightarrow> path list \<Rightarrow> path \<Rightarrow> file_system \<Rightarrow> path list \<times> file_system" where
  "delete_ffmpeg_source_files env [] target fs = ([], fs)"
| "delete_ffmpeg_source_files env (s # ss) target fs =
     (let p = md_resolve env s in
      if p = md_resolve env target \<or> \<not> is_file fs (path_str p) \<or> md_denied env (path_str p)
      then delete_ffmpeg_source_files env ss target fs
      else let (deleted, fs') = delete_ffmpeg_source_files env ss target (fs(path_str p := None))
           in (p # deleted, fs'))"

section \<open>Keys\<close>

definition transcode_idempotency_key :: "media_env \<Rightarrow> string \<Rightarrow> pydict \<Rightarrow> string" where
  "transcode_idempotency_key env profile payload =
     (let download_id = dget payload ''download_id'';
          paths = (case dget payload ''source_file_paths'' of
                     PList xs \<Rightarrow> if xs = [] then [dget payload ''source_file_path''] else xs
                   | _ \<Rightarrow> [dget payload ''source_file_path'']);
          parts = map (\<lambda>v. path_str (md_resolve env (path_of (py_str v)))) (filter truthy paths)
            @ [str_or_empty (dget payload ''target_file_path''), str_or_empty (dget payload ''item_uid'')]
      in if truthy download_id then ''transcode_media:'' @ profile @ '':download:'' @ py_str download_id
         else ''transcode_media:'' @ profile @ '':file:'' @ md_sha1 env (join_with ''|'' parts))"

definition transcode_lock_key :: "media_env \<Rightarrow> string \<Rightarrow> pydict \<Rightarrow> string" where
  "transcode_lock_key env profile payload =
     ''transcode_lock:'' @ md_sha1 env (transcode_idempotency_key env profile payload)"

section \<open>Facts\<close>

lemma strip_chars_ends:
  assumes "strip_chars P s \<noteq> []"
  shows "\<not> P (hd (strip_chars P s)) \<and> \<not> P (last (strip_chars P s))"
proof -
  let ?d = "dropWhile P s" and ?r = "dropWhile P (rev (dropWhile P s))"
  have r: "strip_chars P s = rev ?r" by (simp add: strip_chars_def rstrip_chars_def)
  then have ne: "?r \<noteq> []" using assms by auto
  then have d: "?d \<noteq> []" by (metis dropWhile.simps(1) rev.simps(1))
  have l: "\<not> P (last (strip_chars P s))" using hd_dropWhile [OF ne] r ne by (simp add: last_rev)
  obtain t where t: "rev ?d = t @ ?r" by (metis takeWhile_dropWhile_id)
  then have "?d = rev ?r @ rev t" by (metis rev_append rev_rev_ident)
  then have "hd (rev ?r) = hd ?d" using ne by (metis hd_append2 rev_is_Nil_conv)
  then have "\<not> P (hd (strip_chars P s))" using hd_dropWhile [OF d] r by simp
  then show ?thesis using l by blast
qed

lemma set_squeeze_dots: "set (squeeze_dots s) = set s"
  by (induction s rule: squeeze_dots.induct) auto

lemma strip_chars_subset: "set (strip_chars P s) \<subseteq> set s"
  using strip_chars_sublist [of s P] by (metis set_append Un_upper1 Un_upper2 subset_trans)

lemma converted_name_inject: "converted_name source ext i = converted_name source ext j \<Longrightarrow> i = j"
proof (cases "i = 0 \<or> j = 0")
  case False
  assume "converted_name source ext i = converted_name source ext j"
  then have "str_of_nat i @ ''.'' @ ext = str_of_nat j @ ''.'' @ ext" using False by (simp add: converted_name_def)
  then show ?thesis by (metis append_same_eq str_of_nat_inject)
qed (auto simp: converted_name_def split: if_splits)

lemma dot_split_suffix: "snd (dot_split n) = [] \<or> (\<exists>e. snd (dot_split n) = CHR ''.'' # e \<and> CHR ''.'' \<notin> set e)"
proof -
  have "CHR ''.'' \<notin> set (takeWhile (\<lambda>c. c \<noteq> CHR ''.'') (rev n))" using set_takeWhileD by fastforce
  then show ?thesis by (simp add: dot_split_def Let_def)
qed

text \<open>A converted name is never the source's own name.\<close>

lemma converted_name_other: "converted_name source ext k \<noteq> path_name source"
proof
  assume "converted_name source ext k = path_name source"
  then have "snd (dot_split (path_name source))
      = (if k = 0 then ''.converted.'' else ''.converted-'' @ str_of_nat k @ ''.'') @ ext"
    using dot_split_concat [of "path_name source"]
    by (metis converted_name_def path_stem_def same_append_eq)
  then show False using dot_split_suffix [of "path_name source"] by (auto split: if_splits)
qed

lemma converted_path_other: "with_name source (converted_name source ext k) \<noteq> source"
proof
  assume "with_name source (converted_name source ext k) = source"
  then have "path_name (with_name source (converted_name source ext k)) = path_name source" by simp
  then show False using converted_name_other by (simp add: with_name_def path_name_def)
qed

lemma free_target_from:
  assumes "fs (path_str (with_name source (converted_name source ext k))) = None" and "i \<le> k"
    and "\<forall>j < k. fs (path_str (with_name source (converted_name source ext j))) \<noteq> None"
  shows "free_target fs source ext i = Some (with_name source (converted_name source ext k))"
  using assms(2)
proof (induction i rule: inc_induct)
  case base
  then show ?case using assms(1) by (subst free_target.simps) (simp add: path_exists_def)
next
  case (step i)
  then show ?case using assms(3) converted_path_other
    by (subst free_target.simps) (simp add: path_exists_def)
qed

lemma lower_char_slash: "lower_char c = CHR ''/'' \<Longrightarrow> c = CHR ''/''"
proof (rule ccontr)
  assume l: "lower_char c = CHR ''/''" and "c \<noteq> CHR ''/''"
  then have r: "65 \<le> ord c" "ord c \<le> 222" and "char_of (ord c + 32) = CHR ''/''"
    by (auto simp: lower_char_def Let_def split: if_splits)
  then have "ord (char_of (ord c + 32)) = ord CHR ''/''" by simp
  then have "(ord c + 32) mod 256 = 47" by simp
  moreover have "(ord c + 32) mod 256 = ord c + 32" using r by (intro mod_less) linarith
  ultimately show False using r by linarith
qed

section \<open>Properties\<close>

text \<open>The name FFmpeg writes to is always a new one: the search ends whenever the disk holds finitely
  many files, and its result is a sibling of the source that is not the source and that no file or
  directory has. It fails only for a source without a name or an extension with a slash.\<close>

theorem target_path_free:
  assumes "finite (dom fs)" and "path_parts source \<noteq> []"
    and "CHR ''/'' \<notin> set (path_name source)" and "CHR ''/'' \<notin> set ext"
  shows "\<exists>p. target_path fs source ext = Some (Inr p) \<and> fs (path_str p) = None \<and> p \<noteq> source
    \<and> path_parent p = path_parent source"
proof -
  let ?e = "or_else (lstrip_dots (py_lower ext)) (lstrip_dots (path_suffix source))"
  let ?p = "\<lambda>k. path_str (with_name source (converted_name source ?e k))"
  have "inj ?p"
    using converted_name_inject path_str_snoc_inject by (intro injI) (metis with_name_def)
  then obtain k where k: "fs (?p k) = None" "\<forall>j < k. fs (?p j) \<noteq> None"
    using assms(1) by (rule first_free)
  have "set (path_stem source) \<subseteq> set (path_name source)" "set (path_suffix source) \<subseteq> set (path_name source)"
    using dot_split_concat [of "path_name source"] by (metis path_stem_def path_suffix_def set_append Un_upper1 Un_upper2)+
  moreover have "CHR ''/'' \<notin> set (py_lower ext)"
    using assms(4) lower_char_slash by (auto simp: py_lower_def dest: sym)
  ultimately have "CHR ''/'' \<notin> set (converted_name source ?e 0)"
    using assms(3) by (auto simp: converted_name_def or_else_def lstrip_dots_def dest!: set_dropWhileD)
  then have "target_path fs source ext = Some (Inr (with_name source (converted_name source ?e k)))"
    using assms(2) free_target_from [OF k(1) _ k(2), of 0]
    by (simp add: target_path_def named_sibling_def)
  then show ?thesis using k(1) converted_path_other
    by (auto simp: path_parent_def with_name_def)
qed

theorem target_path_free_witness:
  "\<exists>p. target_path [''/m/a.webm'' \<mapsto> RegularFile 3, ''/m/a.converted.mp4'' \<mapsto> RegularFile 4]
         (path_of ''/m/a.webm'') ''mp4'' = Some (Inr p)
     \<and> path_str p \<notin> {''/m/a.webm'', ''/m/a.converted.mp4''} \<and> path_parent p = path_of ''/m''"
proof -
  let ?fs = "[''/m/a.webm'' \<mapsto> RegularFile 3, ''/m/a.converted.mp4'' \<mapsto> RegularFile 4]"
  have "path_of ''/m/a.webm'' = Path True [''m'', ''a.webm'']" "path_of ''/m'' = Path True [''m'']" by code_simp+
  then show ?thesis
    using target_path_free [of ?fs "path_of ''/m/a.webm''" "''mp4''"]
    by (auto simp: path_name_def path_parent_def split: if_splits)
qed

text \<open>The clean-up after a conversion removes regular files only, only files it was given, never the
  converted file; and it leaves no input behind, unless that is the converted file itself or cannot
  be removed.\<close>

theorem delete_sources_confined:
  assumes "delete_ffmpeg_source_files env ss target fs = (deleted, fs')"
  shows "(\<forall>q. fs' q \<noteq> fs q \<longrightarrow> fs' q = None \<and> is_file fs q \<and> q \<in> path_str ` set deleted)
    \<and> set deleted \<subseteq> md_resolve env ` set ss - {md_resolve env target}
    \<and> (\<forall>s \<in> set ss. is_file fs' (path_str (md_resolve env s)) \<longrightarrow>
         md_resolve env s = md_resolve env target \<or> md_denied env (path_str (md_resolve env s)))"
  using assms
proof (induction ss arbitrary: deleted fs fs')
  case (Cons s ss)
  let ?p = "md_resolve env s"
  show ?case
  proof (cases "?p = md_resolve env target \<or> \<not> is_file fs (path_str ?p) \<or> md_denied env (path_str ?p)")
    case True
    then have run: "delete_ffmpeg_source_files env ss target fs = (deleted, fs')"
      using Cons.prems by (simp add: Let_def)
    note ih = Cons.IH [OF run]
    have "is_file fs' q \<Longrightarrow> is_file fs q" for q using ih by (cases "fs' q = fs q") (auto simp: is_file_def)
    then show ?thesis using ih True by auto
  next
    case False
    obtain ds where run: "delete_ffmpeg_source_files env ss target (fs(path_str ?p := None)) = (ds, fs')"
      and d: "deleted = ?p # ds"
      using Cons.prems False by (auto simp: Let_def split: prod.splits)
    note ih = Cons.IH [OF run]
    have gone: "fs' (path_str ?p) = None" using ih by (metis fun_upd_same)
    have "fs' q = None \<and> is_file fs q \<and> q \<in> path_str ` set deleted" if "fs' q \<noteq> fs q" for q
    proof (cases "q = path_str ?p")
      case True
      then show ?thesis using gone False d by simp
    next
      case other: False
      then have "fs' q = None \<and> is_file (fs(path_str ?p := None)) q \<and> q \<in> path_str ` set ds"
        using ih that other by (metis fun_upd_other)
      then show ?thesis using other d by (auto simp: is_file_def)
    qed
    then show ?thesis using ih d False gone by (auto simp: is_file_def)
  qed
qed (simp add: is_file_def)

definition plain_media_env :: media_env where
  "plain_media_env = \<lparr>md_absolute = id, md_resolve = id, md_denied = (\<lambda>_. False), md_sha1 = id\<rparr>"

theorem delete_sources_confined_witness:
  "\<exists>deleted fs'. delete_ffmpeg_source_files plain_media_env [path_of ''/m/a.webm'', path_of ''/m/a.mp4'']
       (path_of ''/m/a.mp4'') [''/m/a.webm'' \<mapsto> RegularFile 3, ''/m/a.mp4'' \<mapsto> RegularFile 4] = (deleted, fs')
     \<and> fs' ''/m/a.webm'' = None \<and> fs' ''/m/a.mp4'' = Some (RegularFile 4)"
proof -
  let ?fs = "[''/m/a.webm'' \<mapsto> RegularFile 3, ''/m/a.mp4'' \<mapsto> RegularFile 4]"
  let ?ss = "[path_of ''/m/a.webm'', path_of ''/m/a.mp4'']"
  obtain ds fs' where run: "delete_ffmpeg_source_files plain_media_env ?ss (path_of ''/m/a.mp4'') ?fs = (ds, fs')"
    by fastforce
  have p: "path_of ''/m/a.webm'' = Path True [''m'', ''a.webm'']" "path_of ''/m/a.mp4'' = Path True [''m'', ''a.mp4'']"
    by code_simp+
  note c = delete_sources_confined [OF run]
  have "set ds \<subseteq> {path_of ''/m/a.webm''}" using c by (auto simp: p plain_media_env_def)
  then have "path_str ` set ds \<subseteq> {''/m/a.webm''}" by (auto simp: p)
  moreover have "fs' ''/m/a.mp4'' \<noteq> ?fs ''/m/a.mp4'' \<longrightarrow> ''/m/a.mp4'' \<in> path_str ` set ds" using c by blast
  ultimately have "fs' ''/m/a.mp4'' = Some (RegularFile 4)" by auto
  moreover have "fs' ''/m/a.webm'' = None"
    using c by (cases "fs' ''/m/a.webm'' = ?fs ''/m/a.webm''") (auto simp: p plain_media_env_def is_file_def)
  ultimately show ?thesis using run by blast
qed

text \<open>A cleaned name is always a single component below its directory.\<close>

lemma sanitize_component:
  "CHR ''/'' \<notin> set (sanitize name) \<and> sanitize name \<noteq> [] \<and> hd (sanitize name) \<notin> set ''. ''
   \<and> last (sanitize name) \<notin> set ''. ''"
proof -
  let ?a = "map (\<lambda>c. if is_word_char c \<or> c \<in> set ''.-'' then c else CHR ''_'') name"
  let ?t = "strip_chars (\<lambda>c. c \<in> set ''. '') (squeeze_dots ?a)"
  have "\<not> is_word_char CHR ''/''" by (simp add: is_word_char_def)
  then have "CHR ''/'' \<notin> set ?t"
    using strip_chars_subset [of "\<lambda>c. c \<in> set ''. ''" "squeeze_dots ?a"] by (auto simp: set_squeeze_dots split: if_splits)
  then show ?thesis using strip_chars_ends [of "\<lambda>c. c \<in> set ''. ''" "squeeze_dots ?a"]
    by (auto simp: sanitize_def or_else_def Let_def)
qed

text \<open>
  The directory of a channel is not: removing the underscores brings back the dots that were kept
  apart by them, and a channel can be named so that its files go to the parent of the output
  directory.
\<close>

theorem channel_directory_escapes:
  "sanitize_channel_name ''/././'' = ''..''"
  by code_simp

end
