(* ===== verification/Sidecars.thy ===== *)
theory Sidecars
  imports Media Subtitles
begin

text \<open>
  The files beside a media file: its subtitle, found or generated by Whisper
  (\<open>src/src/workers/subtitles.py\<close>), and the deletion of a filtered file with everything of its name
  (\<open>src/src/workers/content_filter.py\<close>). The speech recognition, the profanity model, resolving paths
  and the files that cannot be removed are arguments. A \<open>media_store\<close> adds to the world the text and
  the modification time of the files. A pattern holds no double star: a title ending in a star is
  not modelled.
\<close>

record media_store =
  ms_world :: world
  ms_text :: "string \<Rightarrow> string"
  ms_mtime :: "string \<Rightarrow> time"

section \<open>Patterns of file names\<close>

text \<open>\<open>fnmatch\<close>: a set opens with a bracket, and without a closing one the bracket is a character.\<close>

datatype glob_item = GStar | GAny | GChar char | GSet bool "(char \<times> char) list"

fun class_ranges :: "string \<Rightarrow> (char \<times> char) list" where
  "class_ranges [] = []"
| "class_ranges [a] = [(a, a)]"
| "class_ranges [a, b] = [(a, a), (b, b)]"
| "class_ranges (a # d # b # s) =
     (if d = CHR ''-'' then (a, b) # class_ranges s else (a, a) # class_ranges (d # b # s))"

definition in_ranges :: "(char \<times> char) list \<Rightarrow> char \<Rightarrow> bool" where
  "in_ranges rs c \<longleftrightarrow> list_ex (\<lambda>(a, b). ord a \<le> ord c \<and> ord c \<le> ord b) rs"

definition read_class :: "string \<Rightarrow> (glob_item \<times> string) option" where
  "read_class s =
     (let negated = prefix ''!'' s; s1 = (if negated then drop 1 s else s);
          first = take 1 s1;
          body = first @ takeWhile (\<lambda>c. c \<noteq> CHR '']'') (drop 1 s1);
          rest = dropWhile (\<lambda>c. c \<noteq> CHR '']'') (drop 1 s1)
      in if rest = [] then None else Some (GSet negated (class_ranges body), drop 1 rest))"

lemma read_class_shorter: "read_class s = Some (g, rest) \<Longrightarrow> length rest < length s"
proof -
  assume r: "read_class s = Some (g, rest)"
  let ?s1 = "if prefix ''!'' s then drop 1 s else s"
  let ?t = "dropWhile (\<lambda>c. c \<noteq> CHR '']'') (drop 1 ?s1)"
  have "?t \<noteq> []" and rest: "rest = drop 1 ?t"
    using r by (auto simp: read_class_def Let_def split: if_splits)
  moreover have "length ?t \<le> length ?s1" using length_dropWhile_le [of _ "drop 1 ?s1"] by (rule le_trans) simp
  moreover have "length ?s1 \<le> length s" by simp
  ultimately show ?thesis by (cases ?t) (auto simp: rest)
qed

function read_glob :: "string \<Rightarrow> glob_item list" where
  "read_glob [] = []"
| "read_glob (c # s) =
     (if c = CHR ''*'' then GStar # read_glob s
      else if c = CHR ''?'' then GAny # read_glob s
      else if c = CHR ''['' then
        (case read_class s of Some (g, rest) \<Rightarrow> g # read_glob rest | None \<Rightarrow> GChar c # read_glob s)
      else GChar c # read_glob s)"
  by pat_completeness auto

termination by (relation "measure length") (auto dest!: read_class_shorter)

fun glob_match :: "glob_item list \<Rightarrow> string \<Rightarrow> bool" where
  "glob_match [] s = (s = [])"
| "glob_match (GStar # ps) [] = glob_match ps []"
| "glob_match (GStar # ps) (c # s) = (glob_match ps (c # s) \<or> glob_match (GStar # ps) s)"
| "glob_match (GAny # ps) s = (s \<noteq> [] \<and> glob_match ps (tl s))"
| "glob_match (GChar d # ps) s = (s \<noteq> [] \<and> hd s = d \<and> glob_match ps (tl s))"
| "glob_match (GSet neg rs # ps) s = (s \<noteq> [] \<and> in_ranges rs (hd s) \<noteq> neg \<and> glob_match ps (tl s))"

text \<open>The children of a directory, as the texts of their paths.\<close>

definition child_of :: "path \<Rightarrow> string \<Rightarrow> bool" where
  "child_of dir q \<longleftrightarrow> (let p = path_of q in
     path_str p = q \<and> path_parts p \<noteq> [] \<and> path_parent p = dir)"

section \<open>Subtitle sidecars\<close>

definition SUBTITLE_SIDECAR_SUFFIXES :: "string list" where
  "SUBTITLE_SIDECAR_SUFFIXES = [''.srt'', ''.vtt'', ''.ass'', ''.ssa'', ''.lrc'', ''.ttml'', ''.srv1'', ''.srv2'',
     ''.srv3'', ''.json3'']"

definition KNOWN_EMPTY_AUDIO_FAILURE_PATTERNS :: "string list" where
  "KNOWN_EMPTY_AUDIO_FAILURE_PATTERNS = [''cannot reshape tensor of 0 elements'',
     ''Output file does not contain any stream'', ''Stream map '' @ [CHR 0x27] @ ''a'' @ [CHR 0x27] @ '' matches no streams'',
     ''No decodable audio stream found in media file'']"

definition extra_sidecar :: "media_env \<Rightarrow> path \<Rightarrow> path \<Rightarrow> string \<Rightarrow> bool" where
  "extra_sidecar env media keep q \<longleftrightarrow>
     (let p = path_of q; stem = path_stem media in
      child_of (path_parent media) q
      \<and> glob_match (read_glob (stem @ ''*.*'')) (path_name p)
      \<and> py_lower (path_suffix p) \<in> set SUBTITLE_SIDECAR_SUFFIXES
      \<and> md_resolve env p \<noteq> md_resolve env keep
      \<and> prefix (stem @ ''.'') (path_name p))"

definition cleanup_subtitle_sidecars :: "media_env \<Rightarrow> path \<Rightarrow> path \<Rightarrow> file_system \<Rightarrow> file_system" where
  "cleanup_subtitle_sidecars env media keep fs =
     (\<lambda>q. if extra_sidecar env media keep q \<and> is_file fs q \<and> \<not> md_denied env q then None else fs q)"

definition normalize_existing_sidecars :: "media_env \<Rightarrow> path \<Rightarrow> file_system \<Rightarrow> path option \<times> file_system" where
  "normalize_existing_sidecars env media fs =
     (let sub = with_suffix media ''.srt'' in
      if path_exists fs (path_str sub) then (Some sub, cleanup_subtitle_sidecars env media sub fs) else (None, fs))"

section \<open>Generating subtitles\<close>

record whisper_env =
  wh_media :: media_env
  wh_transcribe :: "string \<Rightarrow> error + segment list"
  wh_now :: time

definition utf8_length :: "string \<Rightarrow> int" where
  "utf8_length s = sum_list (map (\<lambda>c. if ord c < 128 then 1 else 2) s)"

definition write_text :: "time \<Rightarrow> path \<Rightarrow> string \<Rightarrow> media_store \<Rightarrow> media_store" where
  "write_text now p s ms =
     ms\<lparr>ms_world := ms_world ms\<lparr>files := (files (ms_world ms))(path_str p \<mapsto> RegularFile (utf8_length s))\<rparr>,
        ms_text := (ms_text ms)(path_str p := s), ms_mtime := (ms_mtime ms)(path_str p := now)\<rparr>"

definition with_files :: "(file_system \<Rightarrow> file_system) \<Rightarrow> media_store \<Rightarrow> media_store" where
  "with_files f ms = ms\<lparr>ms_world := ms_world ms\<lparr>files := f (files (ms_world ms))\<rparr>\<rparr>"

definition fresh_file :: "media_store \<Rightarrow> path \<Rightarrow> path \<Rightarrow> bool" where
  "fresh_file ms p media \<longleftrightarrow> path_exists (files (ms_world ms)) (path_str p)
     \<and> ms_mtime ms (path_str media) \<le> ms_mtime ms (path_str p)"

definition failed_marker :: "path \<Rightarrow> path" where
  "failed_marker sub = with_suffix sub (path_suffix sub @ ''.failed'')"

text \<open>
  Shifting by a float: a negative infinity and not-a-number put every cue at the start of the file,
  a positive infinity cannot be formatted.
\<close>

definition shift_text :: "pyfloat \<Rightarrow> string \<Rightarrow> error + string" where
  "shift_text offset text =
     (let lines = split_lines text; cue = (\<lambda>l. match_cue l \<noteq> None);
          rejoin = (\<lambda>f. join_with [CHR 0x0A] (map f lines) @ [CHR 0x0A]) in
      case offset of
        Fin r \<Rightarrow> Inr (shift_srt_timestamps r text)
      | PosInf \<Rightarrow> if list_ex cue lines then Inl (ValueError ''cannot convert float NaN to integer'') else Inr (rejoin id)
      | _ \<Rightarrow> Inr (rejoin (\<lambda>l. case match_cue l of None \<Rightarrow> l
              | Some (_, _, tail) \<Rightarrow> format_srt_timestamp 0 @ '' --> '' @ format_srt_timestamp (1 / 100) @ tail)))"

definition empty_audio_failure :: "error \<Rightarrow> bool" where
  "empty_audio_failure e \<longleftrightarrow> list_ex (\<lambda>p. contains_sub p (error_text e)) KNOWN_EMPTY_AUDIO_FAILURE_PATTERNS"

definition generate_whisper_subtitles ::
    "whisper_env \<Rightarrow> path \<Rightarrow> pyfloat \<Rightarrow> media_store \<Rightarrow> (error + path option) \<times> media_store" where
  "generate_whisper_subtitles env media offset ms =
     (let sub = with_suffix media ''.srt''; marker = failed_marker sub; menv = wh_media env in
      if fresh_file ms sub media then (Inr (Some sub), ms)
      else if fresh_file ms marker media then (Inr None, ms)
      else (case wh_transcribe env (path_str media) of
          Inl e \<Rightarrow>
            if empty_audio_failure e
            then (Inr None, write_text (wh_now env) marker
                    (''Known Whisper empty-audio failure for '' @ path_name media @ [CHR 0x0A]
                     @ error_text e @ [CHR 0x0A]) ms)
            else (Inl e, ms)
        | Inr segs \<Rightarrow>
            (let ms1 = write_text (wh_now env) sub (srt_file_text segs) ms;
                 ms2 = with_files (\<lambda>fs. fs(path_str marker := None)) ms1
             in case shift_text offset (srt_file_text segs) of
                  Inl e \<Rightarrow> (Inl e, ms2)
                | Inr t \<Rightarrow>
                    (Inr (Some sub), with_files (cleanup_subtitle_sidecars menv media sub)
                      (write_text (wh_now env) sub t ms2)))))"

text \<open>Every exception of the generation is caught: no subtitle then.\<close>

definition create_subtitles ::
    "whisper_env \<Rightarrow> path \<Rightarrow> pyfloat option \<Rightarrow> bool \<Rightarrow> media_store \<Rightarrow> path option \<times> media_store" where
  "create_subtitles env media offset enabled ms =
     (if enabled \<and> path_exists (files (ms_world ms)) (path_str media)
      then (case normalize_existing_sidecars (wh_media env) media (files (ms_world ms)) of
              (Some sub, fs) \<Rightarrow> (Some sub, with_files (\<lambda>_. fs) ms)
            | (None, _) \<Rightarrow>
                (case generate_whisper_subtitles env media (case offset of None \<Rightarrow> pf_zero | Some f \<Rightarrow> f) ms of
                   (Inl e, ms1) \<Rightarrow> (None, ms1)
                 | (Inr r, ms1) \<Rightarrow> (r, ms1)))
      else (None, ms))"

section \<open>Screening the text\<close>

definition any_stamp :: "string \<Rightarrow> string option" where
  "any_stamp s =
     (if digits 2 (take 2 s) \<and> take 1 (drop 2 s) = '':'' \<and> digits 2 (take 2 (drop 3 s))
         \<and> take 1 (drop 5 s) = '':'' \<and> digits 2 (take 2 (drop 6 s)) \<and> take 1 (drop 8 s) \<in> {'','', ''.''}
         \<and> digits 3 (take 3 (drop 9 s))
      then Some (drop 12 s) else None)"

definition is_srt_metadata :: "string \<Rightarrow> bool" where
  "is_srt_metadata line \<longleftrightarrow> (line \<noteq> [] \<and> list_all is_decimal line) \<or>
     (case any_stamp line of
        None \<Rightarrow> False
      | Some r1 \<Rightarrow> (let r2 = dropWhile is_space r1; r3 = drop 3 r2; r4 = dropWhile is_space r3 in
          r2 \<noteq> r1 \<and> take 3 r2 = ''-->'' \<and> r4 \<noteq> r3 \<and> any_stamp r4 \<noteq> None))"

definition transcript_text :: "string \<Rightarrow> string" where
  "transcript_text text =
     join_with '' '' (filter (\<lambda>l. l \<noteq> [] \<and> \<not> is_srt_metadata l) (map py_strip (split_lines text)))"

text \<open>Splitting behind a sentence mark that blanks follow; the blanks go with the boundary.\<close>

fun split_sentences_from :: "string \<Rightarrow> bool \<Rightarrow> string \<Rightarrow> string list" where
  "split_sentences_from acc mark [] = [rev acc]"
| "split_sentences_from acc mark (c # s) =
     (if is_space c \<and> mark then
        (case s of
           [] \<Rightarrow> [rev acc, []]
         | d # _ \<Rightarrow> if is_space d then split_sentences_from acc mark s
                   else rev acc # split_sentences_from [] False s)
      else split_sentences_from (c # acc) (c \<in> set ''.!?'') s)"

record explicit_match =
  em_category :: string
  em_term :: string
  em_sentence :: string

definition find_explicit_content :: "(string \<Rightarrow> error + bool) \<Rightarrow> string \<Rightarrow> error + explicit_match option" where
  "find_explicit_content profane text =
     (let transcript = py_strip text;
          kept = filter (\<lambda>s. s \<noteq> []) (map py_strip (split_sentences_from [] False transcript));
          sentences = (if kept = [] then [transcript] else kept)
      in if transcript = [] then Inr None
         else bind_result (traverse profane sentences) (\<lambda>predictions.
           Inr (map_option (\<lambda>(s, _). \<lparr>em_category = ''profanity'', em_term = ''profanityfilter'', em_sentence = s\<rparr>)
                  (List.find snd (zip sentences predictions)))))"

definition screen_transcript ::
    "(string \<Rightarrow> error + bool) \<Rightarrow> path \<Rightarrow> media_store \<Rightarrow> error + explicit_match option" where
  "screen_transcript profane sub ms =
     (if path_exists (files (ms_world ms)) (path_str sub)
      then find_explicit_content profane (transcript_text (ms_text ms (path_str sub))) else Inr None)"

section \<open>Deleting a filtered file\<close>

definition media_artifact :: "path \<Rightarrow> string \<Rightarrow> file_system \<Rightarrow> bool" where
  "media_artifact media q fs \<longleftrightarrow>
     q = path_str media \<or> (child_of (path_parent media) q
       \<and> prefix (path_stem media @ ''.'') (path_name (path_of q)) \<and> is_file fs q)"

definition delete_media_artifacts :: "media_env \<Rightarrow> path \<Rightarrow> file_system \<Rightarrow> file_system" where
  "delete_media_artifacts env media0 fs =
     (let media = md_resolve env media0 in
      (\<lambda>q. if media_artifact media q fs \<and> fs q \<noteq> Some Directory \<and> \<not> md_denied env q then None else fs q))"

section \<open>Facts\<close>

lemma with_files_simps [simp]:
  "files (ms_world (with_files f ms)) = f (files (ms_world ms))"
  "db (ms_world (with_files f ms)) = db (ms_world ms)"
  "broker (ms_world (with_files f ms)) = broker (ms_world ms)"
  "ms_text (with_files f ms) = ms_text ms"
  by (simp_all add: with_files_def)

lemma write_text_simps [simp]:
  "files (ms_world (write_text now p t ms)) = (files (ms_world ms))(path_str p \<mapsto> RegularFile (utf8_length t))"
  "db (ms_world (write_text now p t ms)) = db (ms_world ms)"
  "broker (ms_world (write_text now p t ms)) = broker (ms_world ms)"
  "ms_text (write_text now p t ms) = (ms_text ms)(path_str p := t)"
  by (simp_all add: write_text_def)

lemma cleanup_changes:
  "cleanup_subtitle_sidecars env media keep fs q = fs q
   \<or> (cleanup_subtitle_sidecars env media keep fs q = None \<and> extra_sidecar env media keep q \<and> is_file fs q)"
  by (simp add: cleanup_subtitle_sidecars_def)

lemma cleanup_keeps_kept:
  "path_of (path_str keep) = keep \<Longrightarrow> cleanup_subtitle_sidecars env media keep fs (path_str keep) = fs (path_str keep)"
  by (simp add: cleanup_subtitle_sidecars_def extra_sidecar_def Let_def)

section \<open>Properties\<close>

text \<open>Making subtitles touches nothing but sidecars: the only files written are the subtitle of the
  media file and the note of a failure, the only files removed are that note and sidecars in the same
  directory; the database is not touched; and a subtitle that is reported is the one named after the
  media file and is there.\<close>

theorem create_subtitles_confined:
  assumes "create_subtitles env media offset enabled ms = (r, ms')"
    and "path_of (path_str (with_suffix media ''.srt'')) = with_suffix media ''.srt''"
  shows "db (ms_world ms') = db (ms_world ms) \<and> broker (ms_world ms') = broker (ms_world ms)
    \<and> (\<forall>q. files (ms_world ms') q = files (ms_world ms) q
          \<or> q \<in> {path_str (with_suffix media ''.srt''), path_str (failed_marker (with_suffix media ''.srt''))}
          \<or> (files (ms_world ms') q = None \<and> extra_sidecar (wh_media env) media (with_suffix media ''.srt'') q))
    \<and> (\<forall>p. r = Some p \<longrightarrow> p = with_suffix media ''.srt'' \<and> path_exists (files (ms_world ms')) (path_str p))"
proof -
  let ?sub = "with_suffix media ''.srt''" and ?fs = "files (ms_world ms)" and ?menv = "wh_media env"
  note keep = cleanup_keeps_kept [OF assms(2)]
  show ?thesis
  proof (cases "enabled \<and> path_exists ?fs (path_str media)")
    case False
    then show ?thesis using assms(1) by (auto simp: create_subtitles_def)
  next
    case True
    show ?thesis
    proof (cases "path_exists ?fs (path_str ?sub)")
      case ex: True
      then have run: "r = Some ?sub" "ms' = with_files (\<lambda>_. cleanup_subtitle_sidecars ?menv media ?sub ?fs) ms"
        using assms(1) True by (simp_all add: create_subtitles_def normalize_existing_sidecars_def Let_def)
      then show ?thesis
        using cleanup_changes [of ?menv media ?sub ?fs] keep [of ?menv media ?fs] ex by (auto simp: path_exists_def)
    next
      case none: False
      then obtain res where run: "generate_whisper_subtitles env media (case offset of None \<Rightarrow> pf_zero | Some f \<Rightarrow> f) ms
          = (res, ms')" and r: "r = (case res of Inl e \<Rightarrow> None | Inr x \<Rightarrow> x)"
        using assms(1) True
        by (auto simp: create_subtitles_def normalize_existing_sidecars_def Let_def split: prod.splits sum.splits)
      have "\<not> fresh_file ms ?sub media" using none by (simp add: fresh_file_def)
      with run r show ?thesis
        using keep [of ?menv media]
        by (auto simp: generate_whisper_subtitles_def Let_def path_exists_def cleanup_subtitle_sidecars_def
            split: if_splits sum.splits)
    qed
  qed
qed

definition whisper_sample :: whisper_env where
  "whisper_sample = \<lparr>wh_media = plain_media_env,
     wh_transcribe = (\<lambda>_. Inr [\<lparr>sg_start = 0, sg_end = Some 1, sg_text = ''Hello''\<rparr>]), wh_now = 9\<rparr>"

definition talk_store :: media_store where
  "talk_store = \<lparr>ms_world = \<lparr>db = empty_database, broker = [],
       files = [''/m/Talk.mp3'' \<mapsto> RegularFile 7, ''/m/Talk.part2.mp3'' \<mapsto> RegularFile 8,
                ''/m/Talk.part2.srt'' \<mapsto> RegularFile 5]\<rparr>,
     ms_text = (\<lambda>_. []), ms_mtime = (\<lambda>_. 0)\<rparr>"

theorem create_subtitles_confined_witness:
  "fst (create_subtitles whisper_sample (path_of ''/m/Talk.mp3'') None True talk_store) = Some (path_of ''/m/Talk.srt'')
   \<and> path_exists (files (ms_world (snd (create_subtitles whisper_sample (path_of ''/m/Talk.mp3'') None True talk_store))))
       ''/m/Talk.srt''"
proof -
  let ?m = "path_of ''/m/Talk.mp3''"
  obtain r ms' where run: "create_subtitles whisper_sample ?m None True talk_store = (r, ms')" by fastforce
  have "path_of (path_str (with_suffix ?m ''.srt'')) = with_suffix ?m ''.srt''" by code_simp
  note c = create_subtitles_confined [OF run this]
  have "fst (create_subtitles whisper_sample ?m None True talk_store) = Some (path_of ''/m/Talk.srt'')" by code_simp
  then have r: "r = Some (path_of ''/m/Talk.srt'')" by (simp add: run)
  moreover have "path_str (path_of ''/m/Talk.srt'') = ''/m/Talk.srt''" by code_simp
  ultimately show ?thesis using c by (simp add: run)
qed

text \<open>
  The clean-up takes the subtitle of another episode for a variant of its own when that episode's
  name continues with a dot; and a name with brackets, as every downloaded file has, is read as a
  pattern, so that its own variants are not found.
\<close>

theorem cleanup_takes_other_subtitle:
  "files (ms_world (snd (create_subtitles whisper_sample (path_of ''/m/Talk.mp3'') None True talk_store)))
     ''/m/Talk.part2.srt'' = None
   \<and> \<not> extra_sidecar plain_media_env (path_of ''/m/Talk [abc].mp3'') (path_of ''/m/Talk [abc].srt'')
        ''/m/Talk [abc].en.srt''"
  by (intro conjI; code_simp)

text \<open>Deleting a filtered file removes only regular files of its directory whose name is its stem and
  a suffix; and the file itself is gone afterwards, unless it is a directory or cannot be removed.\<close>

theorem delete_artifacts_confined:
  fixes env :: media_env and media :: path
  shows "(delete_media_artifacts env media fs q \<noteq> fs q \<longrightarrow>
       delete_media_artifacts env media fs q = None \<and> is_file fs q
         \<and> (q = path_str (md_resolve env media) \<or> child_of (path_parent (md_resolve env media)) q
              \<and> prefix (path_stem (md_resolve env media) @ ''.'') (path_name (path_of q))))
    \<and> (delete_media_artifacts env media fs (path_str (md_resolve env media)) \<in> {None, Some Directory}
      \<or> md_denied env (path_str (md_resolve env media)))"
  by (auto simp: delete_media_artifacts_def media_artifact_def is_file_def Let_def
      split: option.split file_node.split)

text \<open>So another episode's media go with it when its name continues with a dot.\<close>

theorem artifacts_take_other_media:
  "delete_media_artifacts plain_media_env (path_of ''/m/Talk.mp3'') (files (ms_world talk_store)) ''/m/Talk.part2.mp3''
   = None"
  by code_simp

end
