(* ===== verification/CpuSlots.thy ===== *)
theory CpuSlots
  imports Models
begin

text \<open>
  \<open>src/src/workers/scheduler.py\<close>: the slots that bound how many heavy jobs run at once. Both
  backends are modelled, \<open>DatabaseSlotBackend\<close> on the table \<open>cpu_slot_requests\<close> and
  \<open>InMemorySlotBackend\<close> on its dictionary, with one function per operation; each runs under
  its backend's lock, so an operation is one atomic step. The locale \<open>slot_backend\<close> is the
  protocol class \<open>SlotBackend\<close> with the laws its clients rely on: every backend refines the
  abstract slots \<open>spec_step\<close>, a finite map from lease to kind, status and expiry. Both
  backends interpret it. The clock is an argument, one reading per operation; lease times are
  microseconds.
\<close>

section \<open>Replies\<close>

record slot_stats =
  st_reason :: string
  st_in_use :: nat
  st_waiting_ffmpeg :: nat
  st_waiting_transcript :: nat
  st_renewed :: "bool option"

text \<open>The operations of the protocol, with a heavy job kind where the code has its text.\<close>

datatype slot_op =
    WaitStarted heavy_kind string time
  | WaitHeartbeat string time
  | WaitFinished string
  | Acquire heavy_kind string time
  | Release string
  | Heartbeat string time
  | Snapshot

section \<open>The database backend\<close>

type_synonym slot_table = "slot_request list"

definition purge_expired :: "time \<Rightarrow> slot_table \<Rightarrow> slot_table" where
  "purge_expired now t = delete_where (\<lambda>r. slot_expires_at r \<le> now) t"

definition db_running :: "slot_table \<Rightarrow> nat" where
  "db_running t = count_rows (\<lambda>r. slot_state r = SLOT_RUNNING) t"

definition db_waiting :: "string \<Rightarrow> slot_table \<Rightarrow> nat" where
  "db_waiting kind t = count_rows (\<lambda>r. slot_state r = SLOT_WAITING \<and> slot_job_type r = kind) t"

definition db_stats :: "string \<Rightarrow> slot_table \<Rightarrow> slot_stats" where
  "db_stats reason t = \<lparr>st_reason = reason, st_in_use = db_running t,
     st_waiting_ffmpeg = db_waiting (heavy_kind_value KIND_FFMPEG) t,
     st_waiting_transcript = db_waiting (heavy_kind_value KIND_TRANSCRIPT) t,
     st_renewed = None\<rparr>"

definition db_wait_started ::
    "time \<Rightarrow> string \<Rightarrow> string \<Rightarrow> time \<Rightarrow> slot_table \<Rightarrow> slot_stats \<times> slot_table" where
  "db_wait_started now kind lease secs t0 =
     (let t = purge_expired now t0;
          t' = (if exists_row (\<lambda>r. lease_id r = lease) t
                then update_where (\<lambda>r. lease_id r = lease)
                  (\<lambda>r. r\<lparr>slot_job_type := kind, slot_state := SLOT_WAITING,
                         slot_updated_at := now, slot_expires_at := now + secs\<rparr>) t
                else t @ [\<lparr>lease_id = lease, slot_job_type = kind, slot_state = SLOT_WAITING,
                           slot_created_at = now, slot_updated_at = now,
                           slot_expires_at = now + secs\<rparr>])
      in (db_stats ''wait-started'' t', t'))"

definition db_wait_heartbeat ::
    "time \<Rightarrow> string \<Rightarrow> time \<Rightarrow> slot_table \<Rightarrow> slot_stats \<times> slot_table" where
  "db_wait_heartbeat now lease secs t0 =
     (let t = purge_expired now t0;
          P = (\<lambda>r. lease_id r = lease \<and> slot_state r = SLOT_WAITING);
          t' = update_where P (\<lambda>r. r\<lparr>slot_updated_at := now, slot_expires_at := now + secs\<rparr>) t
      in ((db_stats ''wait-heartbeat'' t')\<lparr>st_renewed := Some (exists_row P t)\<rparr>, t'))"

definition db_wait_finished :: "time \<Rightarrow> string \<Rightarrow> slot_table \<Rightarrow> slot_stats \<times> slot_table" where
  "db_wait_finished now lease t0 =
     (let t = purge_expired now t0;
          t' = delete_where (\<lambda>r. lease_id r = lease \<and> slot_state r = SLOT_WAITING) t
      in (db_stats ''wait-finished'' t', t'))"

definition db_acquire ::
    "int \<Rightarrow> time \<Rightarrow> string \<Rightarrow> string \<Rightarrow> time \<Rightarrow> slot_table \<Rightarrow>
     (bool \<times> slot_stats) \<times> slot_table" where
  "db_acquire capacity now kind lease secs t0 =
     (let t = purge_expired now t0;
          waiting_ffmpeg = exists_row (\<lambda>r. slot_state r = SLOT_WAITING
            \<and> slot_job_type r = heavy_kind_value KIND_FFMPEG \<and> lease_id r \<noteq> lease) t
      in if int (db_running t) < capacity then
           if parse_heavy_kind (PStr kind) = Some KIND_FFMPEG \<or> \<not> waiting_ffmpeg then
             let t' = (if exists_row (\<lambda>r. lease_id r = lease) t
                       then update_where (\<lambda>r. lease_id r = lease)
                         (\<lambda>r. r\<lparr>slot_job_type := kind, slot_state := SLOT_RUNNING,
                                slot_updated_at := now, slot_expires_at := now + secs\<rparr>) t
                       else t @ [\<lparr>lease_id = lease, slot_job_type = kind,
                                  slot_state = SLOT_RUNNING, slot_created_at = now,
                                  slot_updated_at = now, slot_expires_at = now + secs\<rparr>])
             in ((True, db_stats ''acquired'' t'), t')
           else ((False, db_stats ''ffmpeg-waiting'' t), t)
         else ((False, db_stats ''capacity-full'' t), t))"

definition db_release :: "time \<Rightarrow> string \<Rightarrow> slot_table \<Rightarrow> slot_stats \<times> slot_table" where
  "db_release now lease t0 =
     (let t = purge_expired now t0;
          t' = delete_where (\<lambda>r. lease_id r = lease) t
      in (db_stats (if exists_row (\<lambda>r. lease_id r = lease) t then ''released'' else ''missing'') t',
          t'))"

definition db_heartbeat ::
    "time \<Rightarrow> string \<Rightarrow> time \<Rightarrow> slot_table \<Rightarrow> slot_stats \<times> slot_table" where
  "db_heartbeat now lease secs t0 =
     (let t = purge_expired now t0;
          P = (\<lambda>r. lease_id r = lease \<and> slot_state r = SLOT_RUNNING);
          t' = update_where P (\<lambda>r. r\<lparr>slot_updated_at := now, slot_expires_at := now + secs\<rparr>) t
      in ((db_stats ''heartbeat'' t')\<lparr>st_renewed := Some (exists_row P t)\<rparr>, t'))"

definition db_snapshot :: "time \<Rightarrow> slot_table \<Rightarrow> slot_stats \<times> slot_table" where
  "db_snapshot now t0 = (let t = purge_expired now t0 in (db_stats ''snapshot'' t, t))"

text \<open>
  \<open>_locked\<close>: the singleton row the transactions lock is created on first use; the operation
  then runs on the table.
\<close>

definition LOCK_KEY :: string where
  "LOCK_KEY = ''cpu_slot_scheduler_lock''"

definition ensure_lock_row :: "time \<Rightarrow> database \<Rightarrow> database" where
  "ensure_lock_row now d =
     (if exists_row (\<lambda>r. app_key r = LOCK_KEY) (app_config d) then d
      else d\<lparr>app_config := app_config d @
             [\<lparr>app_key = LOCK_KEY, app_value = ''1'', app_updated_at = now\<rparr>]\<rparr>)"

definition locked :: "time \<Rightarrow> (slot_table \<Rightarrow> 'r \<times> slot_table) \<Rightarrow> database \<Rightarrow> 'r \<times> database" where
  "locked now oper d =
     (let d1 = ensure_lock_row now d; (r, t) = oper (cpu_slot_requests d1)
      in (r, d1\<lparr>cpu_slot_requests := t\<rparr>))"

text \<open>Dispatch of the protocol's operations; only \<open>acquire\<close> answers with a decision.\<close>

type_synonym slot_reply = "bool option \<times> slot_stats"

fun db_step :: "int \<Rightarrow> time \<Rightarrow> slot_op \<Rightarrow> slot_table \<Rightarrow> slot_reply \<times> slot_table" where
  "db_step cap now (WaitStarted k l s) t =
     apfst (Pair None) (db_wait_started now (heavy_kind_value k) l s t)"
| "db_step cap now (WaitHeartbeat l s) t = apfst (Pair None) (db_wait_heartbeat now l s t)"
| "db_step cap now (WaitFinished l) t = apfst (Pair None) (db_wait_finished now l t)"
| "db_step cap now (Acquire k l s) t =
     apfst (apfst Some) (db_acquire cap now (heavy_kind_value k) l s t)"
| "db_step cap now (Release l) t = apfst (Pair None) (db_release now l t)"
| "db_step cap now (Heartbeat l s) t = apfst (Pair None) (db_heartbeat now l s t)"
| "db_step cap now Snapshot t = apfst (Pair None) (db_snapshot now t)"

section \<open>The in-memory backend\<close>

record mem_request =
  mem_job_type :: string
  mem_status :: slot_status
  mem_expires_at :: time

type_synonym mem_slots = "(string \<times> mem_request) list"

definition mem_purge :: "time \<Rightarrow> mem_slots \<Rightarrow> mem_slots" where
  "mem_purge now m = filter (\<lambda>(l, r). \<not> mem_expires_at r \<le> now) m"

definition mem_count :: "(mem_request \<Rightarrow> bool) \<Rightarrow> mem_slots \<Rightarrow> nat" where
  "mem_count P m = length (filter (\<lambda>(l, r). P r) m)"

definition mem_is_ffmpeg :: "mem_request \<Rightarrow> bool" where
  "mem_is_ffmpeg r \<longleftrightarrow> parse_heavy_kind (PStr (mem_job_type r)) = Some KIND_FFMPEG"

definition mem_stats :: "string \<Rightarrow> mem_slots \<Rightarrow> slot_stats" where
  "mem_stats reason m = \<lparr>st_reason = reason,
     st_in_use = mem_count (\<lambda>r. mem_status r = SLOT_RUNNING) m,
     st_waiting_ffmpeg = mem_count (\<lambda>r. mem_status r = SLOT_WAITING \<and> mem_is_ffmpeg r) m,
     st_waiting_transcript =
       mem_count (\<lambda>r. mem_status r = SLOT_WAITING \<and> mem_job_type r = ''transcript'') m,
     st_renewed = None\<rparr>"

definition mem_wait_started ::
    "time \<Rightarrow> string \<Rightarrow> string \<Rightarrow> time \<Rightarrow> mem_slots \<Rightarrow> slot_stats \<times> mem_slots" where
  "mem_wait_started now kind lease secs m0 =
     (let m = AList.update lease \<lparr>mem_job_type = kind, mem_status = SLOT_WAITING,
                mem_expires_at = now + secs\<rparr> (mem_purge now m0)
      in (mem_stats ''wait-started'' m, m))"

definition mem_renew ::
    "slot_status \<Rightarrow> string \<Rightarrow> time \<Rightarrow> string \<Rightarrow> time \<Rightarrow> mem_slots \<Rightarrow> slot_stats \<times> mem_slots" where
  "mem_renew st reason now lease secs m0 =
     (let m = mem_purge now m0;
          renewed = (case map_of m lease of None \<Rightarrow> False | Some r \<Rightarrow> mem_status r = st);
          m' = (case map_of m lease of
                  Some r \<Rightarrow> if renewed then AList.update lease (r\<lparr>mem_expires_at := now + secs\<rparr>) m
                            else m
                | None \<Rightarrow> m)
      in ((mem_stats reason m')\<lparr>st_renewed := Some renewed\<rparr>, m'))"

definition mem_wait_heartbeat ::
    "time \<Rightarrow> string \<Rightarrow> time \<Rightarrow> mem_slots \<Rightarrow> slot_stats \<times> mem_slots" where
  "mem_wait_heartbeat = mem_renew SLOT_WAITING ''wait-heartbeat''"

definition mem_heartbeat ::
    "time \<Rightarrow> string \<Rightarrow> time \<Rightarrow> mem_slots \<Rightarrow> slot_stats \<times> mem_slots" where
  "mem_heartbeat = mem_renew SLOT_RUNNING ''heartbeat''"

definition mem_wait_finished :: "time \<Rightarrow> string \<Rightarrow> mem_slots \<Rightarrow> slot_stats \<times> mem_slots" where
  "mem_wait_finished now lease m0 =
     (let m = mem_purge now m0;
          m' = (if map_option mem_status (map_of m lease) = Some SLOT_WAITING
                then AList.delete lease m else m)
      in (mem_stats ''wait-finished'' m', m'))"

definition mem_acquire ::
    "int \<Rightarrow> time \<Rightarrow> string \<Rightarrow> string \<Rightarrow> time \<Rightarrow> mem_slots \<Rightarrow>
     (bool \<times> slot_stats) \<times> mem_slots" where
  "mem_acquire capacity now kind lease secs m0 =
     (let m = mem_purge now m0;
          in_use = mem_count (\<lambda>r. mem_status r = SLOT_RUNNING) m;
          ffmpeg_waiting = list_ex (\<lambda>(other, r).
            other \<noteq> lease \<and> mem_status r = SLOT_WAITING \<and> mem_is_ffmpeg r) m
      in if int in_use < capacity then
           if parse_heavy_kind (PStr kind) = Some KIND_FFMPEG \<or> \<not> ffmpeg_waiting then
             let m' = AList.update lease \<lparr>mem_job_type = kind, mem_status = SLOT_RUNNING,
                        mem_expires_at = now + secs\<rparr> m
             in ((True, mem_stats ''acquired'' m'), m')
           else ((False, mem_stats ''ffmpeg-waiting'' m), m)
         else ((False, mem_stats ''capacity-full'' m), m))"

definition mem_release :: "time \<Rightarrow> string \<Rightarrow> mem_slots \<Rightarrow> slot_stats \<times> mem_slots" where
  "mem_release now lease m0 =
     (let m = mem_purge now m0; m' = AList.delete lease m
      in (mem_stats (if map_of m lease = None then ''missing'' else ''released'') m', m'))"

definition mem_snapshot :: "time \<Rightarrow> mem_slots \<Rightarrow> slot_stats \<times> mem_slots" where
  "mem_snapshot now m0 = (let m = mem_purge now m0 in (mem_stats ''snapshot'' m, m))"

fun mem_step :: "int \<Rightarrow> time \<Rightarrow> slot_op \<Rightarrow> mem_slots \<Rightarrow> slot_reply \<times> mem_slots" where
  "mem_step cap now (WaitStarted k l s) t =
     apfst (Pair None) (mem_wait_started now (heavy_kind_value k) l s t)"
| "mem_step cap now (WaitHeartbeat l s) t = apfst (Pair None) (mem_wait_heartbeat now l s t)"
| "mem_step cap now (WaitFinished l) t = apfst (Pair None) (mem_wait_finished now l t)"
| "mem_step cap now (Acquire k l s) t =
     apfst (apfst Some) (mem_acquire cap now (heavy_kind_value k) l s t)"
| "mem_step cap now (Release l) t = apfst (Pair None) (mem_release now l t)"
| "mem_step cap now (Heartbeat l s) t = apfst (Pair None) (mem_heartbeat now l s t)"
| "mem_step cap now Snapshot t = apfst (Pair None) (mem_snapshot now t)"

section \<open>The abstract slots\<close>

type_synonym slot_entry = "heavy_kind \<times> slot_status \<times> time"
type_synonym slots = "string \<Rightarrow> slot_entry option"

definition spec_live :: "time \<Rightarrow> slots \<Rightarrow> slots" where
  "spec_live now m l = (case m l of None \<Rightarrow> None
                         | Some (k, s, e) \<Rightarrow> if e \<le> now then None else Some (k, s, e))"

definition spec_count :: "('v \<Rightarrow> bool) \<Rightarrow> (string \<Rightarrow> 'v option) \<Rightarrow> nat" where
  "spec_count P m = card {l. \<exists>v. m l = Some v \<and> P v}"

definition entry_running :: "slot_entry \<Rightarrow> bool" where
  "entry_running v = (case v of (k, s, e) \<Rightarrow> s = SLOT_RUNNING)"

definition entry_waiting :: "heavy_kind \<Rightarrow> slot_entry \<Rightarrow> bool" where
  "entry_waiting kind v = (case v of (k, s, e) \<Rightarrow> s = SLOT_WAITING \<and> k = kind)"

definition spec_stats :: "string \<Rightarrow> slots \<Rightarrow> slot_stats" where
  "spec_stats reason m = \<lparr>st_reason = reason, st_in_use = spec_count entry_running m,
     st_waiting_ffmpeg = spec_count (entry_waiting KIND_FFMPEG) m,
     st_waiting_transcript = spec_count (entry_waiting KIND_TRANSCRIPT) m, st_renewed = None\<rparr>"

definition spec_renew ::
    "slot_status \<Rightarrow> string \<Rightarrow> time \<Rightarrow> string \<Rightarrow> time \<Rightarrow> slots \<Rightarrow> slot_reply \<times> slots" where
  "spec_renew st reason now l secs m =
     (case m l of
        Some (k, s, e) \<Rightarrow>
          if s = st then
            let m' = m(l \<mapsto> (k, s, now + secs))
            in ((None, (spec_stats reason m')\<lparr>st_renewed := Some True\<rparr>), m')
          else ((None, (spec_stats reason m)\<lparr>st_renewed := Some False\<rparr>), m)
      | None \<Rightarrow> ((None, (spec_stats reason m)\<lparr>st_renewed := Some False\<rparr>), m))"

definition entry_besides :: "string \<Rightarrow> ('v \<Rightarrow> bool) \<Rightarrow> (string \<Rightarrow> 'v option) \<Rightarrow> bool" where
  "entry_besides l P m \<longleftrightarrow> (\<exists>l' v. l' \<noteq> l \<and> m l' = Some v \<and> P v)"

abbreviation ffmpeg_waits_besides :: "string \<Rightarrow> slots \<Rightarrow> bool" where
  "ffmpeg_waits_besides l \<equiv> entry_besides l (entry_waiting KIND_FFMPEG)"

text \<open>One operation on the live slots.\<close>

fun spec_op :: "int \<Rightarrow> time \<Rightarrow> slot_op \<Rightarrow> slots \<Rightarrow> slot_reply \<times> slots" where
  "spec_op cap now (WaitStarted k l secs) m =
     (let m' = m(l \<mapsto> (k, SLOT_WAITING, now + secs))
      in ((None, spec_stats ''wait-started'' m'), m'))"
| "spec_op cap now (WaitHeartbeat l secs) m = spec_renew SLOT_WAITING ''wait-heartbeat'' now l secs m"
| "spec_op cap now (WaitFinished l) m =
     (let m' = (case m l of Some (k, SLOT_WAITING, e) \<Rightarrow> m(l := None) | _ \<Rightarrow> m)
      in ((None, spec_stats ''wait-finished'' m'), m'))"
| "spec_op cap now (Acquire k l secs) m =
     (if int (spec_count entry_running m) < cap then
        if k = KIND_FFMPEG \<or> \<not> ffmpeg_waits_besides l m then
          let m' = m(l \<mapsto> (k, SLOT_RUNNING, now + secs))
          in ((Some True, spec_stats ''acquired'' m'), m')
        else ((Some False, spec_stats ''ffmpeg-waiting'' m), m)
      else ((Some False, spec_stats ''capacity-full'' m), m))"
| "spec_op cap now (Release l) m =
     (let m' = m(l := None)
      in ((None, spec_stats (if m l = None then ''missing'' else ''released'') m'), m'))"
| "spec_op cap now (Heartbeat l secs) m = spec_renew SLOT_RUNNING ''heartbeat'' now l secs m"
| "spec_op cap now Snapshot m = ((None, spec_stats ''snapshot'' m), m)"

definition spec_step :: "int \<Rightarrow> time \<Rightarrow> slot_op \<Rightarrow> slots \<Rightarrow> slot_reply \<times> slots" where
  "spec_step cap now oper m = spec_op cap now oper (spec_live now m)"

lemma spec_count_le_dom:
  assumes "finite (dom m)" and "\<And>l v. m l = Some v \<Longrightarrow> P v \<Longrightarrow> \<exists>w. m' l = Some w \<and> P w"
    and "finite (dom m')"
  shows "spec_count P m \<le> spec_count P m'"
  unfolding spec_count_def
proof (rule card_mono)
  show "finite {l. \<exists>v. m' l = Some v \<and> P v}"
    by (rule finite_subset [OF _ assms(3)]) auto
qed (use assms(2) in blast)

lemma spec_count_upd_le:
  assumes "finite (dom m)"
  shows "spec_count P (m(l \<mapsto> v)) \<le> Suc (spec_count P m)"
proof -
  let ?A = "{l. \<exists>v. m l = Some v \<and> P v}"
  have fin: "finite ?A" by (rule finite_subset [OF _ assms]) auto
  have "{l'. \<exists>w. (m(l \<mapsto> v)) l' = Some w \<and> P w} \<subseteq> insert l ?A" by auto
  then have "spec_count P (m(l \<mapsto> v)) \<le> card (insert l ?A)"
    unfolding spec_count_def using fin by (intro card_mono) auto
  also have "\<dots> \<le> Suc (spec_count P m)"
    using fin by (simp add: spec_count_def card_insert_if)
  finally show ?thesis .
qed

lemma dom_spec_live: "dom (spec_live now m) \<subseteq> dom m"
  by (auto simp: spec_live_def split: option.splits if_splits)

lemma finite_spec_live [simp]: "finite (dom m) \<Longrightarrow> finite (dom (spec_live now m))"
  using dom_spec_live finite_subset by blast

lemma finite_spec_op:
  assumes "finite (dom m)"
  shows "finite (dom (snd (spec_op cap now oper m)))"
proof (cases oper)
  case (WaitFinished l)
  then show ?thesis
    using assms by (auto simp: Let_def split: option.split prod.split slot_status.split)
qed (use assms in \<open>auto simp: Let_def spec_renew_def split: option.split prod.split\<close>)

lemma spec_live_running_le:
  "finite (dom m) \<Longrightarrow> spec_count entry_running (spec_live now m) \<le> spec_count entry_running m"
  by (rule spec_count_le_dom) (auto simp: spec_live_def split: option.splits if_splits)

text \<open>No operation but a granted \<open>acquire\<close> adds a running slot, and that one needs room.\<close>

lemma spec_op_bound:
  assumes "finite (dom m)" and "int (spec_count entry_running m) \<le> cap"
  shows "int (spec_count entry_running (snd (spec_op cap now oper m))) \<le> cap"
proof -
  have le: "spec_count entry_running m' \<le> spec_count entry_running m"
    if "\<And>l v. m' l = Some v \<Longrightarrow> entry_running v \<Longrightarrow> \<exists>w. m l = Some w \<and> entry_running w"
      and "finite (dom m')" for m'
    by (rule spec_count_le_dom [OF that(2) _ assms(1)]) (rule that(1))
  have fin: "finite (dom (snd (spec_op cap now oper m)))" by (rule finite_spec_op [OF assms(1)])
  show ?thesis
  proof (cases oper)
    case (Acquire k l secs)
    then show ?thesis
      using assms(2) spec_count_upd_le [OF assms(1), of entry_running l "(k, SLOT_RUNNING, now + secs)"]
      by (auto simp: Let_def)
  next
    case (WaitFinished l)
    have "spec_count entry_running (snd (spec_op cap now oper m)) \<le> spec_count entry_running m"
      by (rule le [OF _ fin])
        (auto simp: WaitFinished Let_def split: option.splits prod.splits slot_status.splits
          if_splits)
    then show ?thesis using assms(2) by simp
  qed (use assms(2) le [OF _ fin] in \<open>fastforce simp: Let_def spec_renew_def entry_running_def
        split: option.splits prod.splits if_splits\<close>)+
qed

section \<open>The protocol and its laws\<close>

text \<open>
  What every backend promises its clients: it behaves as the abstract slots, reply by reply.
  The laws of the clients follow from the abstract slots alone.
\<close>

primrec run_slots ::
    "(time \<Rightarrow> slot_op \<Rightarrow> 's \<Rightarrow> slot_reply \<times> 's) \<Rightarrow> (time \<times> slot_op) list \<Rightarrow> 's \<Rightarrow>
     slot_reply list \<times> 's" where
  "run_slots step [] s = ([], s)"
| "run_slots step (o1 # ops) s =
     (let (r, s1) = step (fst o1) (snd o1) s; (rs, s2) = run_slots step ops s1 in (r # rs, s2))"

lemma run_slots_Cons:
  "fst (run_slots step (a # ops) s) =
     fst (step (fst a) (snd a) s) # fst (run_slots step ops (snd (step (fst a) (snd a) s)))"
  "snd (run_slots step (a # ops) s) = snd (run_slots step ops (snd (step (fst a) (snd a) s)))"
  by (simp_all add: Let_def split: prod.split)

locale slot_backend =
  fixes cap :: int
    and step :: "time \<Rightarrow> slot_op \<Rightarrow> 's \<Rightarrow> slot_reply \<times> 's"
    and inv :: "'s \<Rightarrow> bool"
    and abs :: "'s \<Rightarrow> slots"
  assumes finite_abs: "inv s \<Longrightarrow> finite (dom (abs s))"
    and step_inv: "inv s \<Longrightarrow> inv (snd (step now oper s))"
    and step_refines: "inv s \<Longrightarrow>
      apsnd abs (step now oper s) = spec_step cap now oper (abs s)"
begin

abbreviation in_use :: "'s \<Rightarrow> nat" where
  "in_use s \<equiv> spec_count entry_running (abs s)"

lemma step_abs: "inv s \<Longrightarrow> abs (snd (step now oper s)) = snd (spec_step cap now oper (abs s))"
  using step_refines by (metis snd_apsnd)

lemma step_reply: "inv s \<Longrightarrow> fst (step now oper s) = fst (spec_step cap now oper (abs s))"
  using step_refines by (metis fst_apsnd)

lemma step_bound:
  assumes "inv s" and "int (in_use s) \<le> cap"
  shows "int (in_use (snd (step now oper s))) \<le> cap"
  using assms spec_live_running_le [OF finite_abs [OF assms(1)], of now]
  by (auto simp: step_abs spec_step_def intro!: spec_op_bound finite_spec_live finite_abs)

lemma run_inv: "inv s \<Longrightarrow> inv (snd (run_slots step ops s))"
proof (induction ops arbitrary: s)
  case (Cons a ops)
  then show ?case by (simp del: run_slots.simps(2) add: run_slots_Cons step_inv)
qed simp

text \<open>The capacity is never exceeded, whatever operations the workers interleave.\<close>

lemma run_bound:
  "inv s \<Longrightarrow> int (in_use s) \<le> cap \<Longrightarrow> int (in_use (snd (run_slots step ops s))) \<le> cap"
proof (induction ops arbitrary: s)
  case (Cons a ops)
  have "inv (snd (step (fst a) (snd a) s))" "int (in_use (snd (step (fst a) (snd a) s))) \<le> cap"
    using Cons.prems step_inv step_bound by auto
  then show ?case using Cons.IH by (simp del: run_slots.simps(2) add: run_slots_Cons)
qed simp

lemma run_refines:
  "inv s \<Longrightarrow> apsnd abs (run_slots step ops s) = run_slots (spec_step cap) ops (abs s)"
proof (induction ops arbitrary: s)
  case (Cons a ops)
  have "inv (snd (step (fst a) (snd a) s))" using Cons.prems step_inv by blast
  from Cons.IH [OF this] show ?case
    using step_refines [OF Cons.prems, of "fst a" "snd a"]
    by (auto simp: Let_def apsnd_def map_prod_def split: prod.splits)
qed simp

lemma acquire_granted_iff:
  assumes "inv s"
  shows "fst (fst (step now (Acquire k l secs) s)) = Some True \<longleftrightarrow>
    int (spec_count entry_running (spec_live now (abs s))) < cap
    \<and> (k = KIND_FFMPEG \<or> \<not> ffmpeg_waits_besides l (spec_live now (abs s)))"
  using assms by (simp add: step_reply spec_step_def Let_def)

end

section \<open>Both backends implement the slots\<close>

definition kind_of :: "string \<Rightarrow> heavy_kind" where
  "kind_of s = (if s = heavy_kind_value KIND_FFMPEG then KIND_FFMPEG else KIND_TRANSCRIPT)"

lemma kind_of_value [simp]: "kind_of (heavy_kind_value k) = k"
  by (cases k) (simp_all add: kind_of_def)

definition is_heavy_kind :: "string \<Rightarrow> bool" where
  "is_heavy_kind s \<longleftrightarrow> s = heavy_kind_value KIND_FFMPEG \<or> s = heavy_kind_value KIND_TRANSCRIPT"

lemma is_heavy_kind_value [simp]: "is_heavy_kind (heavy_kind_value k)"
  by (cases k) (simp_all add: is_heavy_kind_def)

lemma is_heavy_kind_cases:
  assumes "is_heavy_kind s"
  shows "kind_of s = KIND_FFMPEG \<longleftrightarrow> s = heavy_kind_value KIND_FFMPEG"
    and "kind_of s = KIND_TRANSCRIPT \<longleftrightarrow> s = heavy_kind_value KIND_TRANSCRIPT"
    and "parse_heavy_kind (PStr s) = Some (kind_of s)"
proof -
  obtain k where "s = heavy_kind_value k" using assms unfolding is_heavy_kind_def by blast
  then show "kind_of s = KIND_FFMPEG \<longleftrightarrow> s = heavy_kind_value KIND_FFMPEG"
    and "kind_of s = KIND_TRANSCRIPT \<longleftrightarrow> s = heavy_kind_value KIND_TRANSCRIPT"
    and "parse_heavy_kind (PStr s) = Some (kind_of s)"
    by (simp_all, (cases k, simp_all)+)
qed

text \<open>Rows with a key, read as slots.\<close>

definition abs_rows ::
    "('r \<Rightarrow> string) \<Rightarrow> ('r \<Rightarrow> 'v) \<Rightarrow> 'r list \<Rightarrow> string \<Rightarrow> 'v option" where
  "abs_rows k e t l = map_option e (row_at k l t)"

lemma finite_abs_rows: "finite (dom (abs_rows k e t))"
proof (rule finite_subset)
  show "dom (abs_rows k e t) \<subseteq> k ` set t" by (auto simp: abs_rows_def dest!: first_row_Some)
qed simp

lemma abs_rows_count:
  assumes "distinct (map k t)" and "\<And>r. r \<in> set t \<Longrightarrow> P r = Q (e r)"
  shows "count_rows P t = spec_count Q (abs_rows k e t)"
proof -
  have "(\<exists>r. row_at k a t = Some r \<and> P r) = (\<exists>v. abs_rows k e t a = Some v \<and> Q v)" for a
    using assms(2) by (cases "row_at k a t") (auto simp: abs_rows_def dest!: first_row_Some)
  then show ?thesis by (simp add: count_rows_card [OF assms(1)] spec_count_def)
qed

lemma abs_rows_live:
  assumes "distinct (map k t)" and "\<And>r. P r = (snd (snd (e r)) \<le> now)"
  shows "abs_rows k e (delete_where P t) = spec_live now (abs_rows k e t)"
  using assms
  by (auto simp: fun_eq_iff abs_rows_def spec_live_def row_at_delete_where case_prod_beta
      split: option.splits)

lemma abs_rows_besides:
  assumes "distinct (map k t)" and "\<And>r. r \<in> set t \<Longrightarrow> P r = (Q (e r) \<and> k r \<noteq> l)"
  shows "exists_row P t = entry_besides l Q (abs_rows k e t)"
proof
  assume "exists_row P t"
  then obtain r where "r \<in> set t" "P r" by (auto simp: exists_row_iff)
  then show "entry_besides l Q (abs_rows k e t)"
    using assms first_row_key [OF assms(1), of r] by (auto simp: entry_besides_def abs_rows_def)
next
  assume "entry_besides l Q (abs_rows k e t)"
  then show "exists_row P t"
    using assms(2) by (auto simp: entry_besides_def abs_rows_def exists_row_iff dest!: first_row_Some)
qed

definition db_entry :: "slot_request \<Rightarrow> slot_entry" where
  "db_entry r = (kind_of (slot_job_type r), slot_state r, slot_expires_at r)"

definition db_abs :: "slot_table \<Rightarrow> slots" where
  "db_abs = abs_rows lease_id db_entry"

definition db_inv :: "slot_table \<Rightarrow> bool" where
  "db_inv t \<longleftrightarrow> distinct (map lease_id t) \<and> (\<forall>r \<in> set t. is_heavy_kind (slot_job_type r))"

lemma db_inv_purge [simp]: "db_inv t \<Longrightarrow> db_inv (purge_expired now t)"
  by (auto simp: db_inv_def purge_expired_def distinct_map_delete_where)

lemma db_inv_update:
  assumes "db_inv t" and "\<And>r. lease_id (f r) = lease_id r"
    and "\<And>r. r \<in> set t \<Longrightarrow> P r \<Longrightarrow> is_heavy_kind (slot_job_type r) \<Longrightarrow>
      is_heavy_kind (slot_job_type (f r))"
  shows "db_inv (update_where P f t)"
  using assms by (auto simp: db_inv_def map_update_where_frame set_update_where)

lemma db_inv_append:
  assumes "db_inv t" and "\<not> exists_row (\<lambda>r. lease_id r = lease_id x) t"
    and "is_heavy_kind (slot_job_type x)"
  shows "db_inv (t @ [x])"
  using assms by (auto simp: db_inv_def exists_row_iff image_iff)

lemma db_inv_delete: "db_inv t \<Longrightarrow> db_inv (delete_where P t)"
  by (auto simp: db_inv_def distinct_map_delete_where)

lemma db_abs_live: "db_inv t \<Longrightarrow> db_abs (purge_expired now t) = spec_live now (db_abs t)"
  unfolding db_abs_def purge_expired_def
  by (rule abs_rows_live) (auto simp: db_inv_def db_entry_def)

lemma db_running_abs: "db_inv t \<Longrightarrow> db_running t = spec_count entry_running (db_abs t)"
  unfolding db_abs_def db_running_def
  by (rule abs_rows_count) (auto simp: db_inv_def db_entry_def entry_running_def)

lemma db_waiting_abs:
  "db_inv t \<Longrightarrow> db_waiting (heavy_kind_value k) t = spec_count (entry_waiting k) (db_abs t)"
  unfolding db_abs_def db_waiting_def
  by (rule abs_rows_count; cases k)
    (auto simp: db_inv_def db_entry_def entry_waiting_def is_heavy_kind_cases)

lemma db_stats_abs: "db_inv t \<Longrightarrow> db_stats reason t = spec_stats reason (db_abs t)"
  by (simp only: db_stats_def spec_stats_def db_running_abs db_waiting_abs)

lemma db_exists:
  "db_inv t \<Longrightarrow> exists_row (\<lambda>r. lease_id r = l) t \<longleftrightarrow> db_abs t l \<noteq> None"
  by (simp add: exists_row_at_key db_abs_def abs_rows_def)

lemma db_exists_status:
  "db_inv t \<Longrightarrow> exists_row (\<lambda>r. lease_id r = l \<and> slot_state r = s) t
     \<longleftrightarrow> (\<exists>k e. db_abs t l = Some (k, s, e))"
  by (auto simp: exists_row_at db_inv_def db_abs_def abs_rows_def db_entry_def)

lemma db_abs_set:
  assumes "db_inv t" and "\<And>r. lease_id (f r) = lease_id r" and "\<And>r. db_entry (f r) = v"
    and "lease_id x = l" and "db_entry x = v"
  shows "db_abs (if exists_row (\<lambda>r. lease_id r = l) t
           then update_where (\<lambda>r. lease_id r = l) f t else t @ [x]) = (db_abs t)(l \<mapsto> v)"
proof
  fix a
  show "db_abs (if exists_row (\<lambda>r. lease_id r = l) t
      then update_where (\<lambda>r. lease_id r = l) f t else t @ [x]) a = ((db_abs t)(l \<mapsto> v)) a"
    using assms(2-5) unfolding db_abs_def abs_rows_def exists_row_at_key
    by (cases "row_at lease_id a t")
      (auto simp only: row_at_update_key row_at_append fun_upd_apply option.simps if_True if_False
        split: if_splits)
qed

lemma db_abs_delete:
  assumes "db_inv t"
  shows "db_abs (delete_where (\<lambda>r. lease_id r = l) t) = (db_abs t)(l := None)"
  using assms by (simp add: fun_eq_iff db_abs_def abs_rows_def row_at_delete_key db_inv_def)

lemma db_abs_delete_waiting:
  assumes "db_inv t"
  shows "db_abs (delete_where (\<lambda>r. lease_id r = l \<and> slot_state r = SLOT_WAITING) t) =
    (case db_abs t l of Some (k, SLOT_WAITING, e) \<Rightarrow> (db_abs t)(l := None) | _ \<Rightarrow> db_abs t)"
  using assms
  by (cases "row_at lease_id l t")
    (auto simp: fun_eq_iff db_abs_def abs_rows_def row_at_delete_key db_inv_def db_entry_def
      split: slot_status.splits)

lemma db_abs_renew:
  assumes "db_inv t"
  shows "db_abs (update_where (\<lambda>r. lease_id r = l \<and> slot_state r = s)
      (\<lambda>r. r\<lparr>slot_updated_at := now, slot_expires_at := x\<rparr>) t) =
    (case db_abs t l of
       Some (k, s', e) \<Rightarrow> if s' = s then (db_abs t)(l \<mapsto> (k, s, x)) else db_abs t
     | None \<Rightarrow> db_abs t)"
  by (cases "row_at lease_id l t")
    (auto simp: fun_eq_iff db_abs_def abs_rows_def row_at_update_key db_entry_def)

lemmas db_abs_simps = db_abs_live db_stats_abs db_running_abs db_exists db_exists_status
  db_abs_set db_abs_delete db_abs_delete_waiting db_abs_renew

lemma db_wait_started_refines:
  assumes "db_inv t0"
  shows "db_inv (snd (db_wait_started now (heavy_kind_value k) l s t0))"
    and "apfst (Pair None) (apsnd db_abs (db_wait_started now (heavy_kind_value k) l s t0)) =
      spec_step cap now (WaitStarted k l s) (db_abs t0)"
proof -
  let ?t = "purge_expired now t0"
  let ?f = "\<lambda>r. r\<lparr>slot_job_type := heavy_kind_value k, slot_state := SLOT_WAITING,
                  slot_updated_at := now, slot_expires_at := now + s\<rparr>"
  let ?x = "\<lparr>lease_id = l, slot_job_type = heavy_kind_value k, slot_state = SLOT_WAITING,
             slot_created_at = now, slot_updated_at = now, slot_expires_at = now + s\<rparr>"
  let ?t' = "if exists_row (\<lambda>r. lease_id r = l) ?t
    then update_where (\<lambda>r. lease_id r = l) ?f ?t else ?t @ [?x]"
  have inv: "db_inv ?t" using assms by simp
  have inv': "db_inv ?t'"
    using inv db_inv_append [OF inv, of ?x] by (auto intro!: db_inv_update)
  have abs: "db_abs ?t' = (spec_live now (db_abs t0))(l \<mapsto> (k, SLOT_WAITING, now + s))"
    by (subst db_abs_set [OF inv]) (simp_all add: db_entry_def db_abs_live assms)
  show "db_inv (snd (db_wait_started now (heavy_kind_value k) l s t0))"
    using inv' by (simp add: db_wait_started_def Let_def)
  show "apfst (Pair None) (apsnd db_abs (db_wait_started now (heavy_kind_value k) l s t0)) =
      spec_step cap now (WaitStarted k l s) (db_abs t0)"
    using abs inv' by (simp add: db_wait_started_def Let_def spec_step_def db_stats_abs)
qed

lemma db_acquire_refines:
  assumes "db_inv t0"
  shows "db_inv (snd (db_acquire cap now (heavy_kind_value k) l s t0))"
    and "apfst (apfst Some) (apsnd db_abs (db_acquire cap now (heavy_kind_value k) l s t0)) =
      spec_step cap now (Acquire k l s) (db_abs t0)"
proof -
  let ?t = "purge_expired now t0"
  let ?f = "\<lambda>r. r\<lparr>slot_job_type := heavy_kind_value k, slot_state := SLOT_RUNNING,
                  slot_updated_at := now, slot_expires_at := now + s\<rparr>"
  let ?x = "\<lparr>lease_id = l, slot_job_type = heavy_kind_value k, slot_state = SLOT_RUNNING,
             slot_created_at = now, slot_updated_at = now, slot_expires_at = now + s\<rparr>"
  let ?t' = "if exists_row (\<lambda>r. lease_id r = l) ?t
    then update_where (\<lambda>r. lease_id r = l) ?f ?t else ?t @ [?x]"
  have inv: "db_inv ?t" using assms by simp
  have inv': "db_inv ?t'"
    using inv db_inv_append [OF inv, of ?x] by (auto intro!: db_inv_update)
  have abs: "db_abs ?t' = (spec_live now (db_abs t0))(l \<mapsto> (k, SLOT_RUNNING, now + s))"
    by (subst db_abs_set [OF inv]) (simp_all add: db_entry_def db_abs_live assms)
  have ff: "exists_row (\<lambda>r. slot_state r = SLOT_WAITING
      \<and> slot_job_type r = heavy_kind_value KIND_FFMPEG \<and> lease_id r \<noteq> l) ?t
    = ffmpeg_waits_besides l (spec_live now (db_abs t0))"
    unfolding db_abs_live [OF assms, symmetric] unfolding db_abs_def
    using inv by (intro abs_rows_besides)
      (auto simp: db_inv_def db_entry_def entry_waiting_def is_heavy_kind_cases)
  have run: "db_running ?t = spec_count entry_running (spec_live now (db_abs t0))"
    using inv by (simp add: db_running_abs db_abs_live assms)
  show "db_inv (snd (db_acquire cap now (heavy_kind_value k) l s t0))"
    using inv inv' by (simp add: db_acquire_def Let_def)
  show "apfst (apfst Some) (apsnd db_abs (db_acquire cap now (heavy_kind_value k) l s t0)) =
      spec_step cap now (Acquire k l s) (db_abs t0)"
    unfolding db_acquire_def Let_def ff run spec_step_def
    using abs inv' inv
    by (simp add: db_stats_abs db_abs_live assms Let_def)
qed

lemma db_renew_refines:
  assumes "db_inv t0"
  shows "db_inv (snd (db_wait_heartbeat now l s t0))" "db_inv (snd (db_heartbeat now l s t0))"
    and "apfst (Pair None) (apsnd db_abs (db_wait_heartbeat now l s t0)) =
      spec_step cap now (WaitHeartbeat l s) (db_abs t0)"
    and "apfst (Pair None) (apsnd db_abs (db_heartbeat now l s t0)) =
      spec_step cap now (Heartbeat l s) (db_abs t0)"
proof -
  let ?t = "purge_expired now t0"
  have inv: "db_inv ?t" using assms by simp
  have inv': "db_inv (update_where (\<lambda>r. lease_id r = l \<and> slot_state r = st)
      (\<lambda>r. r\<lparr>slot_updated_at := now, slot_expires_at := now + s\<rparr>) ?t)" for st
    using inv by (rule db_inv_update) simp_all
  show "db_inv (snd (db_wait_heartbeat now l s t0))" "db_inv (snd (db_heartbeat now l s t0))"
    using inv' by (simp_all add: db_wait_heartbeat_def db_heartbeat_def Let_def)
  show "apfst (Pair None) (apsnd db_abs (db_wait_heartbeat now l s t0)) =
      spec_step cap now (WaitHeartbeat l s) (db_abs t0)"
    and "apfst (Pair None) (apsnd db_abs (db_heartbeat now l s t0)) =
      spec_step cap now (Heartbeat l s) (db_abs t0)"
    using inv inv'
    by (auto simp: db_wait_heartbeat_def db_heartbeat_def Let_def db_stats_abs db_abs_renew
        db_exists_status db_abs_live assms spec_step_def spec_renew_def split: option.split)
qed

lemma db_remove_refines:
  assumes "db_inv t0"
  shows "apfst (Pair None) (apsnd db_abs (db_wait_finished now l t0)) =
      spec_step cap now (WaitFinished l) (db_abs t0)"
    and "apfst (Pair None) (apsnd db_abs (db_release now l t0)) =
      spec_step cap now (Release l) (db_abs t0)"
    and "apfst (Pair None) (apsnd db_abs (db_snapshot now t0)) =
      spec_step cap now Snapshot (db_abs t0)"
  using assms
  by (simp_all add: db_wait_finished_def db_release_def db_snapshot_def Let_def spec_step_def
      db_stats_abs db_inv_delete db_abs_delete db_abs_delete_waiting db_abs_live db_exists
      cong: option.case_cong prod.case_cong slot_status.case_cong)

interpretation db_slots: slot_backend cap "db_step cap" db_inv db_abs for cap
proof
  fix s now oper
  assume inv: "db_inv s"
  show "finite (dom (db_abs s))" unfolding db_abs_def by (rule finite_abs_rows)
  show "db_inv (snd (db_step cap now oper s))"
    using inv db_wait_started_refines(1) [OF inv] db_acquire_refines(1) [OF inv]
      db_renew_refines(1,2) [OF inv]
    by (cases oper) (simp_all add: db_wait_finished_def db_release_def db_snapshot_def Let_def
        db_inv_delete)
  show "apsnd db_abs (db_step cap now oper s) = spec_step cap now oper (db_abs s)"
    using db_wait_started_refines(2) [OF inv] db_acquire_refines(2) [OF inv]
      db_renew_refines(3,4) [OF inv] db_remove_refines [OF inv]
    by (cases oper) (simp_all add: apfst_def apsnd_def map_prod.comp map_prod_def case_prod_beta)
qed

definition mem_entry :: "mem_request \<Rightarrow> slot_entry" where
  "mem_entry r = (kind_of (mem_job_type r), mem_status r, mem_expires_at r)"

definition mem_abs :: "mem_slots \<Rightarrow> slots" where
  "mem_abs m l = map_option mem_entry (map_of m l)"

definition mem_inv :: "mem_slots \<Rightarrow> bool" where
  "mem_inv m \<longleftrightarrow> distinct (map fst m) \<and> (\<forall>x \<in> set m. is_heavy_kind (mem_job_type (snd x)))"

lemma mem_abs_rows: "mem_abs m = abs_rows fst (mem_entry \<circ> snd) m"
proof
  have "map_of m l = map_option snd (row_at fst l m)" for l by (induction m) auto
  then show "mem_abs m l = abs_rows fst (mem_entry \<circ> snd) m l" for l
    by (simp add: mem_abs_def abs_rows_def option.map_comp)
qed

lemma mem_inv_filter: "mem_inv m \<Longrightarrow> mem_inv (filter P m)"
  by (auto simp: mem_inv_def distinct_map_filter)

lemma mem_inv_purge [simp]: "mem_inv m \<Longrightarrow> mem_inv (mem_purge now m)"
  unfolding mem_purge_def by (rule mem_inv_filter)

lemma mem_inv_delete [simp]: "mem_inv m \<Longrightarrow> mem_inv (AList.delete l m)"
  unfolding AList.delete_eq by (rule mem_inv_filter)

lemma mem_inv_update [simp]:
  "mem_inv m \<Longrightarrow> is_heavy_kind (mem_job_type r) \<Longrightarrow> mem_inv (AList.update l r m)"
proof -
  have "set (AList.update l r m) \<subseteq> insert (l, r) (set m)" by (induction m) auto
  then show "mem_inv m \<Longrightarrow> is_heavy_kind (mem_job_type r) \<Longrightarrow> mem_inv (AList.update l r m)"
    by (auto simp: mem_inv_def distinct_update)
qed

lemma mem_inv_lookup: "mem_inv m \<Longrightarrow> map_of m l = Some r \<Longrightarrow> is_heavy_kind (mem_job_type r)"
  by (auto simp: mem_inv_def dest: map_of_SomeD)

lemma mem_abs_live: "mem_inv m \<Longrightarrow> mem_abs (mem_purge now m) = spec_live now (mem_abs m)"
proof -
  assume inv: "mem_inv m"
  have "mem_purge now m = delete_where (\<lambda>x. mem_expires_at (snd x) \<le> now) m"
    by (simp add: mem_purge_def delete_where_def case_prod_unfold)
  then show ?thesis
    unfolding mem_abs_rows using inv
    by (simp add: abs_rows_live mem_inv_def mem_entry_def)
qed

lemma mem_count_abs:
  assumes "mem_inv m" and "\<And>r. is_heavy_kind (mem_job_type r) \<Longrightarrow> P r = Q (mem_entry r)"
  shows "mem_count P m = spec_count Q (mem_abs m)"
proof -
  have "mem_count P m = count_rows (\<lambda>x. P (snd x)) m"
    by (simp add: mem_count_def count_rows_def case_prod_unfold)
  also have "\<dots> = spec_count Q (mem_abs m)"
    unfolding mem_abs_rows using assms by (intro abs_rows_count) (auto simp: mem_inv_def)
  finally show ?thesis .
qed

lemma mem_is_ffmpeg_entry:
  "is_heavy_kind (mem_job_type r) \<Longrightarrow>
   mem_status r = SLOT_WAITING \<and> mem_is_ffmpeg r \<longleftrightarrow> entry_waiting KIND_FFMPEG (mem_entry r)"
  by (auto simp: mem_is_ffmpeg_def mem_entry_def entry_waiting_def is_heavy_kind_cases)

lemma mem_running_abs:
  "mem_inv m \<Longrightarrow> mem_count (\<lambda>r. mem_status r = SLOT_RUNNING) m = spec_count entry_running (mem_abs m)"
  by (rule mem_count_abs) (auto simp: mem_entry_def entry_running_def)

lemma mem_stats_abs: "mem_inv m \<Longrightarrow> mem_stats reason m = spec_stats reason (mem_abs m)"
proof -
  assume inv: "mem_inv m"
  have "mem_count (\<lambda>r. mem_status r = SLOT_WAITING \<and> mem_is_ffmpeg r) m
      = spec_count (entry_waiting KIND_FFMPEG) (mem_abs m)"
    using inv by (rule mem_count_abs) (rule mem_is_ffmpeg_entry)
  moreover have "mem_count (\<lambda>r. mem_status r = SLOT_WAITING \<and> mem_job_type r = ''transcript'') m
      = spec_count (entry_waiting KIND_TRANSCRIPT) (mem_abs m)"
    using inv by (rule mem_count_abs)
      (auto simp: mem_entry_def entry_waiting_def is_heavy_kind_cases)
  ultimately show ?thesis
    using inv by (simp add: mem_stats_def spec_stats_def mem_running_abs)
qed

lemma mem_ffmpeg_waiting:
  assumes "mem_inv m"
  shows "list_ex (\<lambda>(other, r). other \<noteq> l \<and> mem_status r = SLOT_WAITING \<and> mem_is_ffmpeg r) m
    = ffmpeg_waits_besides l (mem_abs m)"
proof -
  have "exists_row (\<lambda>x. fst x \<noteq> l \<and> mem_status (snd x) = SLOT_WAITING \<and> mem_is_ffmpeg (snd x)) m
    = ffmpeg_waits_besides l (mem_abs m)"
    unfolding mem_abs_rows using assms
    by (intro abs_rows_besides) (auto simp: mem_inv_def mem_is_ffmpeg_entry [symmetric])
  then show ?thesis by (simp add: exists_row_def case_prod_unfold)
qed

lemma mem_abs_update [simp]:
  "mem_abs (AList.update l r m) = (mem_abs m)(l \<mapsto> mem_entry r)"
  by (simp add: fun_eq_iff mem_abs_def)

lemma mem_abs_delete [simp]: "mem_abs (AList.delete l m) = (mem_abs m)(l := None)"
  by (simp add: fun_eq_iff mem_abs_def delete_conv)

lemma mem_entry_simps [simp]:
  "mem_entry \<lparr>mem_job_type = heavy_kind_value k, mem_status = s, mem_expires_at = e\<rparr> = (k, s, e)"
  "mem_entry (r\<lparr>mem_expires_at := e\<rparr>) = (kind_of (mem_job_type r), mem_status r, e)"
  by (simp_all add: mem_entry_def)

lemma mem_lookup_abs:
  "map_of m l = None \<longleftrightarrow> mem_abs m l = None"
  "map_of m l = Some r \<Longrightarrow> mem_abs m l = Some (mem_entry r)"
  by (simp_all add: mem_abs_def)

lemma mem_renew_refines:
  assumes "mem_inv m0"
  shows "mem_inv (snd (mem_renew st reason now l s m0))
    \<and> apfst (Pair None) (apsnd mem_abs (mem_renew st reason now l s m0)) =
      spec_renew st reason now l s (spec_live now (mem_abs m0))"
proof -
  let ?m = "mem_purge now m0"
  have inv: "mem_inv ?m" using assms by simp
  show ?thesis
  proof (cases "map_of ?m l")
    case None
    then show ?thesis
      using inv mem_lookup_abs(1) [of ?m l]
      by (simp add: mem_renew_def Let_def spec_renew_def mem_stats_abs mem_abs_live assms)
  next
    case (Some r)
    have "is_heavy_kind (mem_job_type r)" using mem_inv_lookup [OF inv Some] .
    moreover have "spec_live now (mem_abs m0) l = Some (kind_of (mem_job_type r), mem_status r, mem_expires_at r)"
      using mem_lookup_abs(2) [OF Some] by (simp add: mem_abs_live assms mem_entry_def)
    ultimately show ?thesis
      using inv Some
      by (auto simp: mem_renew_def Let_def spec_renew_def mem_stats_abs mem_abs_live assms)
  qed
qed

lemma mem_wait_finished_refines:
  assumes "mem_inv m0"
  shows "mem_inv (snd (mem_wait_finished now l m0))
    \<and> apfst (Pair None) (apsnd mem_abs (mem_wait_finished now l m0)) =
      spec_step cap now (WaitFinished l) (mem_abs m0)"
proof -
  let ?m = "mem_purge now m0"
  have inv: "mem_inv ?m" using assms by simp
  let ?m' = "if map_option mem_status (map_of ?m l) = Some SLOT_WAITING
    then AList.delete l ?m else ?m"
  have "mem_abs ?m' = (case mem_abs ?m l of
      Some (k, SLOT_WAITING, e) \<Rightarrow> (mem_abs ?m)(l := None) | _ \<Rightarrow> mem_abs ?m)"
    by (auto simp: mem_abs_def mem_entry_def fun_eq_iff delete_conv
        split: option.split slot_status.split)
  moreover have "mem_inv ?m'" using inv by simp
  ultimately show ?thesis
    by (simp add: mem_wait_finished_def Let_def spec_step_def mem_stats_abs mem_abs_live assms
        del: mem_abs_delete split del: if_split cong: option.case_cong prod.case_cong
        slot_status.case_cong)
qed

lemma mem_acquire_refines:
  assumes "mem_inv m0"
  shows "mem_inv (snd (mem_acquire cap now (heavy_kind_value k) l s m0))
    \<and> apfst (apfst Some) (apsnd mem_abs (mem_acquire cap now (heavy_kind_value k) l s m0)) =
      spec_step cap now (Acquire k l s) (mem_abs m0)"
proof -
  have inv: "mem_inv (mem_purge now m0)" using assms by simp
  show ?thesis
    unfolding mem_acquire_def Let_def mem_ffmpeg_waiting [OF inv] mem_running_abs [OF inv]
      mem_abs_live [OF assms] spec_step_def
    using inv by (simp add: mem_stats_abs mem_abs_live assms Let_def)
qed

lemma mem_other_refines:
  assumes "mem_inv m0"
  shows "apfst (Pair None) (apsnd mem_abs (mem_wait_started now (heavy_kind_value k) l s m0)) =
      spec_step cap now (WaitStarted k l s) (mem_abs m0)"
    and "apfst (Pair None) (apsnd mem_abs (mem_release now l m0)) =
      spec_step cap now (Release l) (mem_abs m0)"
    and "apfst (Pair None) (apsnd mem_abs (mem_snapshot now m0)) =
      spec_step cap now Snapshot (mem_abs m0)"
  using assms
  by (simp_all add: mem_wait_started_def mem_release_def mem_snapshot_def Let_def spec_step_def
      mem_stats_abs mem_abs_live mem_lookup_abs(1))

interpretation mem_slots: slot_backend cap "mem_step cap" mem_inv mem_abs for cap
proof
  fix s now oper
  assume inv: "mem_inv s"
  show "finite (dom (mem_abs s))" unfolding mem_abs_rows by (rule finite_abs_rows)
  show "mem_inv (snd (mem_step cap now oper s))"
    using inv mem_renew_refines [OF inv] mem_wait_finished_refines [OF inv]
      mem_acquire_refines [OF inv]
    by (cases oper) (simp_all add: mem_wait_started_def mem_release_def mem_snapshot_def Let_def
        mem_wait_heartbeat_def mem_heartbeat_def)
  show "apsnd mem_abs (mem_step cap now oper s) = spec_step cap now oper (mem_abs s)"
    using mem_renew_refines [OF inv] mem_wait_finished_refines [OF inv]
      mem_acquire_refines [OF inv] mem_other_refines [OF inv]
    by (cases oper) (simp_all add: apfst_def apsnd_def map_prod.comp map_prod_def case_prod_beta
        mem_wait_heartbeat_def mem_heartbeat_def spec_step_def)
qed

section \<open>Waiting for a slot\<close>

text \<open>
  \<open>GlobalSlotScheduler.acquire_slot\<close>: announce the wait, then poll. A poll is the clock it
  reads and the operations other workers ran since the last one; the list of polls bounds the
  loop, which ends with \<open>False\<close> when it is still waiting after the last.
\<close>

fun acquire_loop ::
    "(time \<Rightarrow> slot_op \<Rightarrow> 's \<Rightarrow> slot_reply \<times> 's) \<Rightarrow> heavy_kind \<Rightarrow> string \<Rightarrow> time \<Rightarrow>
     (time \<times> (time \<times> slot_op) list) list \<Rightarrow> 's \<Rightarrow> bool \<times> 's" where
  "acquire_loop step k l secs [] s = (False, s)"
| "acquire_loop step k l secs ((now, others) # polls) s =
     (let s1 = snd (run_slots step others s);
          s2 = snd (step now (WaitHeartbeat l secs) s1);
          (r, s3) = step now (Acquire k l secs) s2
      in if fst r = Some True then (True, s3) else acquire_loop step k l secs polls s3)"

lemma acquire_loop_Cons:
  "acquire_loop step k l secs (p # polls) s =
     (let res = step (fst p) (Acquire k l secs)
        (snd (step (fst p) (WaitHeartbeat l secs) (snd (run_slots step (snd p) s))))
      in if fst (fst res) = Some True then (True, snd res)
         else acquire_loop step k l secs polls (snd res))"
  by (cases p) (simp add: Let_def case_prod_beta)

declare acquire_loop.simps(2) [simp del]

definition acquire_slot ::
    "(time \<Rightarrow> slot_op \<Rightarrow> 's \<Rightarrow> slot_reply \<times> 's) \<Rightarrow> time \<Rightarrow> heavy_kind \<Rightarrow> string \<Rightarrow> time \<Rightarrow>
     (time \<times> (time \<times> slot_op) list) list \<Rightarrow> 's \<Rightarrow> bool \<times> 's" where
  "acquire_slot step now k l secs polls s =
     acquire_loop step k l secs polls (snd (step now (WaitStarted k l secs) s))"

context slot_backend
begin

lemma loop_inv: "inv s \<Longrightarrow> inv (snd (acquire_loop step k l secs polls s))"
proof (induction polls arbitrary: s)
  case (Cons p polls)
  obtain now others where p: "p = (now, others)" by (cases p)
  have "inv (snd (step now (Acquire k l secs) (snd (step now (WaitHeartbeat l secs)
      (snd (run_slots step others s))))))"
    using Cons.prems by (intro step_inv run_inv)
  then show ?case using Cons.IH by (simp add: p acquire_loop_Cons Let_def)
qed simp

lemma granted_running:
  assumes "inv s" and "fst (fst (step now (Acquire k l secs) s)) = Some True"
  shows "abs (snd (step now (Acquire k l secs) s)) l = Some (k, SLOT_RUNNING, now + secs)"
  using assms by (auto simp: step_abs step_reply spec_step_def Let_def split: if_splits)

text \<open>When the loop ends, its lease is running; the capacity holds at the end of every poll.\<close>

lemma loop_granted:
  assumes "inv s" and "acquire_loop step k l secs polls s = (True, s')"
  shows "\<exists>now \<in> fst ` set polls. abs s' l = Some (k, SLOT_RUNNING, now + secs)"
  using assms
proof (induction polls arbitrary: s)
  case (Cons p polls)
  obtain now others where p: "p = (now, others)" by (cases p)
  let ?s2 = "snd (step now (WaitHeartbeat l secs) (snd (run_slots step others s)))"
  have inv2: "inv ?s2" using Cons.prems(1) by (intro step_inv run_inv)
  show ?case
  proof (cases "fst (fst (step now (Acquire k l secs) ?s2)) = Some True")
    case True
    then show ?thesis
      using Cons.prems(2) granted_running [OF inv2 True]
      by (auto simp: p acquire_loop_Cons Let_def)
  next
    case False
    then have "acquire_loop step k l secs polls (snd (step now (Acquire k l secs) ?s2)) = (True, s')"
      using Cons.prems(2) by (auto simp: p acquire_loop_Cons Let_def)
    from Cons.IH [OF step_inv [OF inv2] this] show ?thesis by (auto simp: p)
  qed
qed simp

lemma renew_abs:
  assumes "inv s"
  shows "spec_count entry_running (spec_live now (abs (snd (step now (WaitHeartbeat l secs) s))))
    \<le> spec_count entry_running (spec_live now (abs s))"
proof -
  have "spec_count entry_running (spec_live now (snd (spec_renew SLOT_WAITING r now l secs m)))
      \<le> spec_count entry_running m" if "finite (dom m)" for r m
  proof -
    have "spec_count entry_running (spec_live now (snd (spec_renew SLOT_WAITING r now l secs m)))
      \<le> spec_count entry_running (snd (spec_renew SLOT_WAITING r now l secs m))"
      using that by (intro spec_live_running_le) (auto simp: spec_renew_def Let_def split: option.split)
    also have "\<dots> \<le> spec_count entry_running m"
      using that by (intro spec_count_le_dom)
        (auto simp: spec_renew_def Let_def entry_running_def split: option.splits if_splits)
    finally show ?thesis .
  qed
  from this [of "spec_live now (abs s)"] show ?thesis
    using assms by (simp add: step_abs spec_step_def finite_abs)
qed

text \<open>A transcoding job gets its slot at the first poll that finds room.\<close>

lemma loop_ffmpeg_progress:
  assumes "inv s" and "acquire_loop step KIND_FFMPEG l secs polls s = (False, s1)"
    and "int (spec_count entry_running (spec_live now (abs (snd (run_slots step others s1))))) < cap"
  shows "fst (acquire_loop step KIND_FFMPEG l secs (polls @ [(now, others)]) s)"
  using assms(1,2)
proof (induction polls arbitrary: s)
  case Nil
  let ?s1 = "snd (run_slots step others s)"
  have inv1: "inv ?s1" and inv2: "inv (snd (step now (WaitHeartbeat l secs) ?s1))"
    using Nil.prems(1) by (auto intro!: step_inv run_inv)
  have "fst (fst (step now (Acquire KIND_FFMPEG l secs)
      (snd (step now (WaitHeartbeat l secs) ?s1)))) = Some True"
    using assms(3) Nil.prems(2) renew_abs [OF inv1, of now l secs] inv2
    by (simp add: acquire_granted_iff)
  then show ?case by (simp add: acquire_loop_Cons Let_def)
next
  case (Cons p polls)
  obtain n os where p: "p = (n, os)" by (cases p)
  let ?s2 = "snd (step n (WaitHeartbeat l secs) (snd (run_slots step os s)))"
  have inv2: "inv ?s2" using Cons.prems(1) by (intro step_inv run_inv)
  have "fst (fst (step n (Acquire KIND_FFMPEG l secs) ?s2)) \<noteq> Some True"
    and "acquire_loop step KIND_FFMPEG l secs polls
      (snd (step n (Acquire KIND_FFMPEG l secs) ?s2)) = (False, s1)"
    using Cons.prems(2) by (auto simp: p acquire_loop_Cons Let_def split: if_splits)
  then show ?case
    using Cons.IH [OF step_inv [OF inv2]] by (simp add: p acquire_loop_Cons Let_def)
qed

end

section \<open>Properties\<close>

lemma db_inv_empty [simp]: "db_inv []"
  by (simp add: db_inv_def)

text \<open>C6: Starting from an empty table, no interleaving of the workers' slot operations ever has
  more running slots than the configured capacity.\<close>

theorem slot_capacity:
  assumes "0 \<le> cap"
  shows "int (db_running (snd (run_slots (db_step cap) ops []))) \<le> cap"
proof -
  have inv: "db_inv (snd (run_slots (db_step cap) ops []))"
    by (rule db_slots.run_inv) simp
  have "int (spec_count entry_running (db_abs [])) \<le> cap"
    using assms by (simp add: spec_count_def db_abs_def abs_rows_def)
  then have "int (spec_count entry_running (db_abs (snd (run_slots (db_step cap) ops [])))) \<le> cap"
    by (rule db_slots.run_bound [rotated]) simp
  then show ?thesis by (simp add: db_running_abs inv)
qed

theorem slot_capacity_witness:
  "int (db_running (snd (run_slots (db_step 1)
     [(0, Acquire KIND_FFMPEG ''a'' 120), (1, Acquire KIND_FFMPEG ''b'' 120)] []))) \<le> 1"
  by (rule slot_capacity) simp

text \<open>C7: The database backend and the in-memory backend of the tests are observationally equal:
  on every sequence of operations they give the same replies, statistics included.\<close>

theorem slot_backends_agree:
  "fst (run_slots (db_step cap) ops []) = fst (run_slots (mem_step cap) ops [])"
proof -
  have "db_abs [] = mem_abs []" by (simp add: fun_eq_iff db_abs_def abs_rows_def mem_abs_def)
  then have "apsnd db_abs (run_slots (db_step cap) ops []) = apsnd mem_abs (run_slots (mem_step cap) ops [])"
    by (simp add: db_slots.run_refines mem_slots.run_refines mem_inv_def)
  then show ?thesis by (metis fst_apsnd)
qed

text \<open>A slot is granted exactly when the live running slots are below the capacity and the
  job is a transcoding job or no other transcoding job is waiting, so transcripts give way. The
  grant leaves the lease running for one lease time and every other live lease as it was; a
  refusal only purges.\<close>

theorem slot_acquire_decision:
  assumes "db_acquire cap now (heavy_kind_value k) l secs t = ((ok, stats), t')"
  shows "(ok \<longleftrightarrow> int (db_running (purge_expired now t)) < cap
      \<and> (k = KIND_FFMPEG \<or>
         \<not> exists_row (\<lambda>r. slot_state r = SLOT_WAITING \<and> slot_job_type r = ''ffmpeg''
            \<and> lease_id r \<noteq> l) (purge_expired now t)))
    \<and> (ok \<longrightarrow> (\<exists>r. row_at lease_id l t' = Some r \<and> slot_state r = SLOT_RUNNING
             \<and> slot_expires_at r = now + secs))
    \<and> (\<not> ok \<longrightarrow> t' = purge_expired now t)
    \<and> (\<forall>l'. l' \<noteq> l \<longrightarrow> row_at lease_id l' t' = row_at lease_id l' (purge_expired now t))"
proof -
  have k: "(KIND_FFMPEG = k) = (k = KIND_FFMPEG)" by auto
  have "row_at lease_id l (purge_expired now t) = None \<longleftrightarrow>
      \<not> exists_row (\<lambda>r. lease_id r = l) (purge_expired now t)"
    by (simp add: exists_row_at_key)
  then show ?thesis
    using assms k
    by (auto simp: db_acquire_def Let_def row_at_update_key row_at_append
        split: if_splits option.splits)
qed

definition waiting_row :: slot_request where
  "waiting_row = \<lparr>lease_id = ''w'', slot_job_type = ''ffmpeg'', slot_state = SLOT_WAITING,
     slot_created_at = 0, slot_updated_at = 0, slot_expires_at = 100\<rparr>"

theorem slot_acquire_decision_witness:
  "\<not> fst (fst (db_acquire 3 1 (heavy_kind_value KIND_TRANSCRIPT) ''t'' 120 [waiting_row]))"
proof -
  obtain ok stats t' where
    r: "db_acquire 3 1 (heavy_kind_value KIND_TRANSCRIPT) ''t'' 120 [waiting_row] = ((ok, stats), t')"
    by (metis prod.collapse)
  from slot_acquire_decision [OF r] show ?thesis
    using r by (simp add: purge_expired_def waiting_row_def)
qed

text \<open>The polling loop returns to a transcoding job at the first poll that finds room, and
  whenever it returns, the lease is recorded as running until one lease time later.\<close>

theorem acquire_loop_progress:
  assumes "db_inv t" and "acquire_loop (db_step cap) KIND_FFMPEG l secs polls t = (False, t1)"
    and "int (db_running (purge_expired now (snd (run_slots (db_step cap) others t1)))) < cap"
  shows "\<exists>t2. acquire_loop (db_step cap) KIND_FFMPEG l secs (polls @ [(now, others)]) t = (True, t2)
    \<and> (\<exists>r \<in> set t2. lease_id r = l \<and> slot_state r = SLOT_RUNNING
         \<and> slot_expires_at r \<in> (\<lambda>p. fst p + secs) ` set (polls @ [(now, others)]))"
proof -
  let ?polls = "polls @ [(now, others)]"
  have inv1: "db_inv (snd (run_slots (db_step cap) others t1))"
    using db_slots.loop_inv [OF assms(1), of cap KIND_FFMPEG l secs polls] assms(2)
    by (simp add: db_slots.run_inv)
  have "db_running (purge_expired now (snd (run_slots (db_step cap) others t1)))
      = spec_count entry_running (spec_live now (db_abs (snd (run_slots (db_step cap) others t1))))"
    using inv1 by (simp add: db_running_abs db_abs_live)
  then have "fst (acquire_loop (db_step cap) KIND_FFMPEG l secs ?polls t)"
    using assms by (intro db_slots.loop_ffmpeg_progress) auto
  then obtain t2 where t2: "acquire_loop (db_step cap) KIND_FFMPEG l secs ?polls t = (True, t2)"
    by (metis prod.collapse)
  obtain n where "n \<in> fst ` set ?polls" "db_abs t2 l = Some (KIND_FFMPEG, SLOT_RUNNING, n + secs)"
    using db_slots.loop_granted [OF assms(1) t2] by blast
  then obtain r where "row_at lease_id l t2 = Some r" "slot_state r = SLOT_RUNNING"
      "slot_expires_at r = n + secs"
    by (auto simp: db_abs_def abs_rows_def db_entry_def)
  then have "r \<in> set t2 \<and> lease_id r = l \<and> slot_state r = SLOT_RUNNING
      \<and> slot_expires_at r \<in> (\<lambda>p. fst p + secs) ` set ?polls"
    using \<open>n \<in> _\<close> by (auto dest: first_row_Some)
  then show ?thesis using t2 by blast
qed

theorem acquire_loop_progress_witness:
  "\<exists>t2. acquire_loop (db_step 1) KIND_FFMPEG ''b'' 120
      ([(5, [])] @ [(6, [(6, Release ''a'')])])
      (snd (db_acquire 1 0 ''ffmpeg'' ''a'' 120 [])) = (True, t2)"
proof -
  let ?t = "snd (db_acquire 1 0 ''ffmpeg'' ''a'' 120 [])"
  have inv: "db_inv ?t"
    using db_slots.step_inv [of "[]" 1 0 "Acquire KIND_FFMPEG ''a'' 120"] by simp
  let ?r = "acquire_loop (db_step 1) KIND_FFMPEG ''b'' 120 [(5, [])] ?t"
  have "\<not> fst ?r"
    and free: "int (db_running (purge_expired 6 (snd (run_slots (db_step 1) [(6, Release ''a'')] (snd ?r))))) < 1"
    by code_simp+
  then have "?r = (False, snd ?r)" by (metis prod.collapse)
  from acquire_loop_progress [OF inv this free] show ?thesis by blast
qed

text \<open>A lease that lapses while its job still runs stops counting, the holder's heartbeat does
  not bring it back, and another transcoding job is admitted at full capacity: real concurrency
  exceeds the capacity that the class comment says cannot be over-admitted.\<close>

theorem slot_lapse_overadmits:
  assumes "db_inv t" and "int (db_running t) = cap"
    and "a \<in> set t" and "slot_state a = SLOT_RUNNING" and "slot_expires_at a \<le> now"
  shows "st_renewed (fst (db_heartbeat now (lease_id a) secs t)) = Some False
    \<and> (\<forall>r \<in> set (snd (db_heartbeat now (lease_id a) secs t)). lease_id r \<noteq> lease_id a)
    \<and> fst (fst (db_acquire cap now ''ffmpeg'' l secs t))"
proof -
  let ?t = "purge_expired now t"
  have gone: "lease_id r \<noteq> lease_id a" if "r \<in> set ?t" for r
  proof
    assume "lease_id r = lease_id a"
    then have "r = a"
      using that assms(1,3) by (auto simp: purge_expired_def db_inv_def distinct_map inj_on_def)
    then show False using that assms(5) by (simp add: purge_expired_def)
  qed
  have lt: "count_rows P (delete_where Q s) < count_rows P s" if "a \<in> set s" "P a" "Q a" for P Q s
    using that
  proof (induction s)
    case (Cons r s)
    then show ?case using count_rows_delete_le [of P Q s] by fastforce
  qed simp
  have "db_running ?t < db_running t"
    unfolding db_running_def purge_expired_def using assms(3-5) by (intro lt) auto
  then have "fst (fst (db_acquire cap now ''ffmpeg'' l secs t))"
    using assms(2) parse_values(5) [of KIND_FFMPEG] by (simp add: db_acquire_def Let_def)
  moreover have "update_where (\<lambda>r. lease_id r = lease_id a \<and> slot_state r = SLOT_RUNNING) f ?t = ?t" for f
    using gone by (intro update_where_none) auto
  ultimately show ?thesis
    using gone by (auto simp: db_heartbeat_def Let_def exists_row_iff)
qed

definition lapsed_row :: slot_request where
  "lapsed_row = waiting_row\<lparr>lease_id := ''a'', slot_state := SLOT_RUNNING\<rparr>"

theorem slot_lapse_overadmits_witness:
  "fst (fst (db_acquire 1 200 ''ffmpeg'' ''b'' 120 [lapsed_row]))"
proof -
  have 1: "db_inv [lapsed_row]" "int (db_running [lapsed_row]) = 1"
    by (simp_all add: db_inv_def is_heavy_kind_def lapsed_row_def waiting_row_def db_running_def)
  have 2: "lapsed_row \<in> set [lapsed_row]" "slot_state lapsed_row = SLOT_RUNNING"
    "slot_expires_at lapsed_row \<le> 200"
    by (simp_all add: lapsed_row_def waiting_row_def)
  from slot_lapse_overadmits [OF 1 2, of 120 "''b''"] show ?thesis by simp
qed

end
