(* ===== verification/Runner.thy ===== *)
theory Runner
  imports CpuSlots Jobs
begin

text \<open>
  \<open>src/src/workers/runner.py\<close>: one worker process. It takes messages from its queue, claims
  the job each names, runs its handler (inside a CPU slot when the job is heavy), records the
  outcome, and answers the broker. The handlers are an argument; they return the error they
  raise, if any, and the world they leave. The broker's deliveries are a list of events, and
  its answers a list of actions in the order sent. A body is the decoded JSON value, \<open>None\<close>
  when it does not decode.
\<close>

section \<open>Configuration\<close>

definition QUEUE_BY_WORKER :: "(string \<times> queue) list" where
  "QUEUE_BY_WORKER =
     [(''updates'', SERIAL_EPISODE_CHECK_QUEUE),
      (''downloader-youtube'', YOUTUBE_DOWNLOAD_QUEUE),
      (''downloader-podcast'', PODCAST_DOWNLOAD_QUEUE),
      (''transcripts'', TRANSCRIPT_QUEUE),
      (''ffmpeg'', FFMPEG_QUEUE),
      (''cleanup'', CLEANUP_QUEUE)]"

definition JOB_TYPES_BY_WORKER :: "(string \<times> job_type list) list" where
  "JOB_TYPES_BY_WORKER =
     [(''updates'', [CHECK_FOR_EPISODES, UPDATE_DOWNLOADS]),
      (''downloader-youtube'', [DOWNLOAD_EPISODE, DOWNLOAD_SINGLE]),
      (''downloader-podcast'', [DOWNLOAD_EPISODE, DOWNLOAD_SINGLE]),
      (''ffmpeg'', [TRANSCODE_MEDIA]),
      (''transcripts'', [GENERATE_TRANSCRIPT, GENERATE_OCR]),
      (''cleanup'', [RETENTION_CLEANUP])]"

definition SERIAL_WORKERS :: "string list" where
  "SERIAL_WORKERS = [''updates'', ''downloader-youtube'']"

definition DOWNLOADER_WORKERS :: "string list" where
  "DOWNLOADER_WORKERS = [''downloader-youtube'', ''downloader-podcast'']"

definition HEAVY_JOB_TYPES :: "(string \<times> heavy_kind) list" where
  "HEAVY_JOB_TYPES =
     [(job_type_value TRANSCODE_MEDIA, KIND_FFMPEG),
      (job_type_value GENERATE_TRANSCRIPT, KIND_TRANSCRIPT),
      (job_type_value GENERATE_OCR, KIND_TRANSCRIPT)]"

record worker_config =
  wc_worker_type :: string
  wc_queue :: string
  wc_prefetch_count :: int
  wc_max_messages :: int

text \<open>\<open>int(requested_prefetch or 4)\<close>: no request and a request of 0 both give 4.\<close>

definition safe_prefetch_count :: "string \<Rightarrow> int option \<Rightarrow> int" where
  "safe_prefetch_count worker requested =
     (if worker \<in> set SERIAL_WORKERS then 1
      else max 1 (case requested of None \<Rightarrow> 4 | Some n \<Rightarrow> if n = 0 then 4 else n))"

definition safe_max_messages :: "string \<Rightarrow> int option \<Rightarrow> error + int" where
  "safe_max_messages env requested =
     (case requested of
        Some n \<Rightarrow> Inr (max 1 n)
      | None \<Rightarrow> (case py_int env of None \<Rightarrow> Inl (ValueError env) | Some n \<Rightarrow> Inr (max 1 n)))"

definition build_worker_config ::
    "string \<Rightarrow> string \<Rightarrow> int option \<Rightarrow> int option \<Rightarrow> error + worker_config" where
  "build_worker_config env worker prefetch max_messages =
     (case map_of QUEUE_BY_WORKER worker of
        None \<Rightarrow> Inl (KeyError worker)
      | Some q \<Rightarrow>
          bind_result (safe_max_messages env max_messages) (\<lambda>m.
            Inr \<lparr>wc_worker_type = worker, wc_queue = queue_value q,
                 wc_prefetch_count = safe_prefetch_count worker prefetch,
                 wc_max_messages = m\<rparr>))"

section \<open>Messages\<close>

definition message_job_id :: "pyval option \<Rightarrow> error + int" where
  "message_job_id body =
     (case body of
        None \<Rightarrow> Inl (ValueError ''body'')
      | Some (PDict d) \<Rightarrow>
          (case map_of d ''job_id'' of
             None \<Rightarrow> Inl (KeyError ''job_id'')
           | Some v \<Rightarrow> (case py_int_val v of None \<Rightarrow> Inl (int_error v) | Some n \<Rightarrow> Inr n))
      | Some _ \<Rightarrow> Inl (TypeError ''body''))"

section \<open>Running one job\<close>

text \<open>\<open>None\<close> is a handler that does not return.\<close>

type_synonym handler = "job \<Rightarrow> world \<Rightarrow> (error option \<times> world) option"

text \<open>
  What a run depends on besides the world: the handlers, the slot scheduler's settings, and the
  clock readings and polls of this run.
\<close>

record run_env =
  re_handlers :: "string \<Rightarrow> handler option"
  re_capacity :: int
  re_lease :: string
  re_lease_seconds :: time
  re_polls :: "(time \<times> (time \<times> slot_op) list) list"
  re_claim_time :: time
  re_finish_time :: time

definition with_db :: "(database \<Rightarrow> database) \<Rightarrow> world \<Rightarrow> world" where
  "with_db f w = w\<lparr>db := f (db w)\<rparr>"

definition locked_step :: "int \<Rightarrow> time \<Rightarrow> slot_op \<Rightarrow> database \<Rightarrow> slot_reply \<times> database" where
  "locked_step cap now oper = locked now (db_step cap now oper)"

text \<open>
  \<open>GlobalSlotScheduler.run\<close>: acquire, call, release on every path out of the call. \<open>None\<close> is
  a run whose polls never got the slot, or whose call does not return.
\<close>

definition run_in_slot ::
    "run_env \<Rightarrow> heavy_kind \<Rightarrow> (world \<Rightarrow> (error option \<times> world) option) \<Rightarrow> world \<Rightarrow>
     (error option \<times> world) option" where
  "run_in_slot env kind fn w =
     (let (ok, d1) = acquire_slot (locked_step (re_capacity env)) (re_claim_time env) kind
                       (re_lease env) (re_lease_seconds env) (re_polls env) (db w)
      in if \<not> ok then None
         else map_option (\<lambda>(err, w2). (err, with_db (\<lambda>d. snd (locked_step (re_capacity env) (re_finish_time env)
                                               (Release (re_lease env)) d)) w2)) (fn (w\<lparr>db := d1\<rparr>)))"

definition run_claimed_job :: "run_env \<Rightarrow> job \<Rightarrow> world \<Rightarrow> (error option \<times> world) option" where
  "run_claimed_job env j w =
     (case re_handlers env (job_kind j) of
        None \<Rightarrow> Some (Some (KeyError (job_kind j)), w)
      | Some h \<Rightarrow>
          (case map_of HEAVY_JOB_TYPES (job_kind j) of
             Some kind \<Rightarrow> run_in_slot env kind (h j) w
           | None \<Rightarrow> h j w))"

section \<open>Outcomes\<close>

definition update_completion_token :: "job \<Rightarrow> string" where
  "update_completion_token j =
     py_strip (str_or_empty (dget (as_dict (job_payload j)) ''completion_token''))"

definition finished_message_key :: "job \<Rightarrow> string \<Rightarrow> string" where
  "finished_message_key j token =
     ''worker_message:update_downloads:'' @ str_of_int (job_id j) @ '':'' @ token"

definition finished_message ::
    "time \<Rightarrow> job \<Rightarrow> string \<Rightarrow> job_status \<Rightarrow> string \<Rightarrow> database \<Rightarrow> job" where
  "finished_message now j token st err d =
     \<lparr>job_id = next_job_id d, job_profile_id = job_profile_id j, job_kind = ''worker_message'',
      job_state = SUCCEEDED,
      job_payload = PDict
        [(''event_type'', PStr ''update_downloads_finished''), (''completion_token'', PStr token),
         (''source_job_id'', PInt (job_id j)), (''source_status'', PStr (job_status_value st)),
         (''error_message'', PStr err)],
      job_idempotency_key = Some (finished_message_key j token), job_error_message = None,
      job_created_at = now, job_updated_at = now, job_started_at = None, job_finished_at = None\<rparr>"

definition create_update_finished_message_once ::
    "time \<Rightarrow> job \<Rightarrow> string \<Rightarrow> job_status \<Rightarrow> string \<Rightarrow> database \<Rightarrow> database" where
  "create_update_finished_message_once now j token st err d =
     (if exists_row (\<lambda>r. job_idempotency_key r = Some (finished_message_key j token)) (jobs d)
      then d else insert_job (finished_message now j token st err d) d)"

definition emit_update_finished_message ::
    "time \<Rightarrow> job \<Rightarrow> job_status \<Rightarrow> string \<Rightarrow> database \<Rightarrow> database" where
  "emit_update_finished_message now j st err d =
     (if parse_job_type (PStr (job_kind j)) \<noteq> Some UPDATE_DOWNLOADS then d
      else let token = update_completion_token j in
        if token = [] then d else create_update_finished_message_once now j token st err d)"

definition mark_job_succeeded :: "time \<Rightarrow> job \<Rightarrow> database \<Rightarrow> database" where
  "mark_job_succeeded now j d =
     emit_update_finished_message now j SUCCEEDED [] (finish_job now (job_id j) SUCCEEDED None d)"

definition mark_job_failed :: "time \<Rightarrow> job \<Rightarrow> error \<Rightarrow> database \<Rightarrow> database" where
  "mark_job_failed now j e d =
     emit_update_finished_message now j FAILED (error_text e)
       (finish_job now (job_id j) FAILED (Some (error_text e)) d)"

definition process_queued_job_message ::
    "run_env \<Rightarrow> int \<Rightarrow> world \<Rightarrow> (error option \<times> world) option" where
  "process_queued_job_message env n w =
     (case claim_job (re_claim_time env) n (db w) of
        (None, d1) \<Rightarrow> Some (None, w\<lparr>db := d1\<rparr>)
      | (Some j, d1) \<Rightarrow>
          (case run_claimed_job env j (w\<lparr>db := d1\<rparr>) of
             None \<Rightarrow> None
           | Some (None, w2) \<Rightarrow>
               Some (None, with_db (mark_job_succeeded (re_finish_time env) j) w2)
           | Some (Some e, w2) \<Rightarrow>
               Some (Some e, with_db (mark_job_failed (re_finish_time env) j e) w2)))"

section \<open>Which worker a job belongs to\<close>

definition source_type_for_downloader_job :: "job \<Rightarrow> source_type" where
  "source_type_for_downloader_job j =
     (let payload = as_dict (job_payload j) in
      case parse_source_type (dget payload ''source_type'') of
        Some st \<Rightarrow> st
      | None \<Rightarrow> (if parse_media_type (dget payload ''media_type'') = Some AUDIO
                 then PODCAST else YOUTUBE))"

definition worker_accepts_job :: "string \<Rightarrow> int \<Rightarrow> database \<Rightarrow> bool" where
  "worker_accepts_job worker n d =
     (if worker \<notin> set DOWNLOADER_WORKERS then True
      else (case first_row (\<lambda>j. job_id j = n) (jobs d) of
              None \<Rightarrow> True
            | Some j \<Rightarrow> source_type_for_downloader_job j =
                (if worker = ''downloader-youtube'' then YOUTUBE else PODCAST)))"

definition queue_for_job :: "job \<Rightarrow> string" where
  "queue_for_job j = queue_name (job_kind j) (job_payload j)"

definition worker_type_is_wrong_downloader :: "string \<Rightarrow> string \<Rightarrow> bool" where
  "worker_type_is_wrong_downloader worker target =
     (worker \<in> set DOWNLOADER_WORKERS
      \<and> map_option queue_value (map_of QUEUE_BY_WORKER worker) \<noteq> Some target)"

definition queued_jobs_for_worker :: "string \<Rightarrow> database \<Rightarrow> error + job list" where
  "queued_jobs_for_worker worker d =
     (case map_of JOB_TYPES_BY_WORKER worker of
        None \<Rightarrow> Inl (KeyError worker)
      | Some types \<Rightarrow>
          Inr (take 500 (sort_key job_created_at
            (filter (\<lambda>j. job_state j = QUEUED \<and> job_kind j \<in> job_type_value ` set types)
               (jobs d)))))"

definition requeue_message :: "job \<Rightarrow> pydict" where
  "requeue_message j = job_message j @ [(''payload'', job_payload j)]"

definition publish_requeued_job :: "job \<Rightarrow> string \<Rightarrow> published" where
  "publish_requeued_job j target =
     \<lparr>pub_routing_key = target, pub_body = message_body (requeue_message j),
      pub_priority = job_priority (requeue_message j)\<rparr>"

fun publish_requeued_jobs :: "string \<Rightarrow> job list \<Rightarrow> published list" where
  "publish_requeued_jobs worker [] = []"
| "publish_requeued_jobs worker (j # js) =
     (if worker_type_is_wrong_downloader worker (queue_for_job j)
      then publish_requeued_jobs worker js
      else publish_requeued_job j (queue_for_job j) # publish_requeued_jobs worker js)"

definition requeue_existing_jobs :: "string \<Rightarrow> world \<Rightarrow> error + nat \<times> world" where
  "requeue_existing_jobs worker w =
     bind_result (queued_jobs_for_worker worker (db w)) (\<lambda>js.
       let ms = publish_requeued_jobs worker js
       in Inr (length ms, w\<lparr>broker := broker w @ ms\<rparr>))"

definition requeue_existing_jobs_enabled :: "string \<Rightarrow> bool" where
  "requeue_existing_jobs_enabled env \<longleftrightarrow>
     py_lower (py_strip env) \<in> set [''1'', ''true'', ''yes'', ''on'']"

section \<open>The consumer loop\<close>

datatype broker_action =
    Ack nat
  | NackRequeue nat
  | NackDrop nat

text \<open>
  What the consumer's iterator yields: a timeout, or a delivery with its tag, its body and the
  environment of its run; each is seen together with the stop flag.
\<close>

datatype delivery =
    Inactivity
  | Delivery nat "pyval option" run_env

definition process_delivery ::
    "nat \<Rightarrow> run_env \<Rightarrow> int \<Rightarrow> world \<Rightarrow> (nat \<times> broker_action \<times> world) option" where
  "process_delivery tag env n w =
     (case process_queued_job_message env n w of
        None \<Rightarrow> None
      | Some (None, w') \<Rightarrow> Some (1, Ack tag, w')
      | Some (Some _, w') \<Rightarrow> Some (1, NackDrop tag, w'))"

definition handle_delivery ::
    "worker_config \<Rightarrow> nat \<Rightarrow> pyval option \<Rightarrow> run_env \<Rightarrow> world \<Rightarrow>
     error + (nat \<times> broker_action \<times> world) option" where
  "handle_delivery config tag body env w =
     bind_result (message_job_id body) (\<lambda>n.
       if \<not> worker_accepts_job (wc_worker_type config) n (db w)
       then Inr (Some (0, NackRequeue tag, w))
       else Inr (process_delivery tag env n w))"

datatype loop_end =
    Stopped
  | ReachedMax
  | StreamEnded
  | AwaitingSlot
  | Crashed error

fun consume_from ::
    "worker_config \<Rightarrow> int \<Rightarrow> (bool \<times> delivery) list \<Rightarrow> world \<Rightarrow>
     loop_end \<times> int \<times> broker_action list \<times> world" where
  "consume_from config processed [] w = (StreamEnded, processed, [], w)"
| "consume_from config processed ((stop, ev) # evs) w =
     (if stop then (Stopped, processed, [], w)
      else case ev of
        Inactivity \<Rightarrow> consume_from config processed evs w
      | Delivery tag body env \<Rightarrow>
          (case handle_delivery config tag body env w of
             Inl e \<Rightarrow> (Crashed e, processed, [], w)
           | Inr None \<Rightarrow> (AwaitingSlot, processed, [], w)
           | Inr (Some (k, action, w')) \<Rightarrow>
               let processed' = processed + int k in
               if processed' \<ge> wc_max_messages config
               then (ReachedMax, processed', [action], w')
               else let (e, p, actions, w'') = consume_from config processed' evs w'
                    in (e, p, action # actions, w'')))"

definition consume_worker_messages ::
    "worker_config \<Rightarrow> (bool \<times> delivery) list \<Rightarrow> world \<Rightarrow>
     loop_end \<times> int \<times> broker_action list \<times> world" where
  "consume_worker_messages config = consume_from config 0"

section \<open>Facts\<close>

lemma run_slots_frame:
  assumes "\<And>now oper s. f (snd (step now oper s)) = f s"
  shows "f (snd (run_slots step ops s)) = f s"
  by (induction ops arbitrary: s) (simp_all del: run_slots.simps(2) add: run_slots_Cons assms)

lemma acquire_slot_frame:
  assumes "\<And>now oper s. f (snd (step now oper s)) = f s"
  shows "f (snd (acquire_slot step now k l secs polls s)) = f s"
proof -
  have "f (snd (acquire_loop step k l secs polls s)) = f s" for s
    by (induction polls arbitrary: s)
      (simp_all add: acquire_loop_Cons Let_def assms run_slots_frame [of f, OF assms])
  then show ?thesis by (simp add: acquire_slot_def assms)
qed

lemma locked_step_frame [simp, frame_simps]:
  "jobs (snd (locked_step cap now oper d)) = jobs d"
  "next_job_id (snd (locked_step cap now oper d)) = next_job_id d"
  by (simp_all add: locked_step_def locked_def ensure_lock_row_def Let_def case_prod_beta)

lemma acquire_slot_jobs:
  "jobs (snd (acquire_slot (locked_step cap) now k l secs polls d)) = jobs d"
  "next_job_id (snd (acquire_slot (locked_step cap) now k l secs polls d)) = next_job_id d"
  by (rule acquire_slot_frame, simp)+

lemma jobs_wf_same_jobs:
  "jobs d' = jobs d \<Longrightarrow> next_job_id d' = next_job_id d \<Longrightarrow> jobs_wf d' = jobs_wf d"
  "jobs d' = jobs d \<Longrightarrow> status_of d' n = status_of d n"
  by (simp_all add: jobs_wf_def status_of_def)

text \<open>What a handler must keep of the job table: well-formedness, and the job's own row.\<close>

definition keeps_job :: "int \<Rightarrow> handler \<Rightarrow> bool" where
  "keeps_job n h \<longleftrightarrow> (\<forall>j w err w'. h j w = Some (err, w') \<longrightarrow> jobs_wf (db w) \<longrightarrow> status_of (db w) n \<noteq> None \<longrightarrow>
     jobs_wf (db w') \<and> status_of (db w') n \<noteq> None)"

lemma keeps_jobD:
  assumes "keeps_job n h" and "jobs_wf (db w)" and "status_of (db w) n \<noteq> None"
    and "h j w = Some (err, w')"
  shows "jobs_wf (db w') \<and> status_of (db w') n \<noteq> None"
  using assms unfolding keeps_job_def by blast

text \<open>
  The same as one contract for every job: the table stays well-formed, and no row leaves it or
  changes its profile or type.
\<close>

definition job_identity :: "job \<Rightarrow> int \<times> string \<times> string" where
  "job_identity j = (job_id j, job_profile_id j, job_kind j)"

definition jobs_kept :: "database \<Rightarrow> database \<Rightarrow> bool" where
  "jobs_kept d d' \<longleftrightarrow> (jobs_wf d \<longrightarrow> jobs_wf d') \<and> job_identity ` set (jobs d) \<subseteq> job_identity ` set (jobs d')"

lemma jobs_kept_refl [simp]: "jobs_kept d d"
  by (simp add: jobs_kept_def)

lemma jobs_kept_trans: "jobs_kept a b \<Longrightarrow> jobs_kept b c \<Longrightarrow> jobs_kept a c"
  by (auto simp: jobs_kept_def)

lemma jobs_kept_same: "jobs d' = jobs d \<Longrightarrow> next_job_id d' = next_job_id d \<Longrightarrow> jobs_kept d d'"
  by (simp add: jobs_kept_def jobs_wf_def)

lemma jobs_kept_ids: "jobs_kept d d' \<Longrightarrow> job_id ` set (jobs d) \<subseteq> job_id ` set (jobs d')"
proof -
  have "job_id ` A = fst ` job_identity ` A" for A by (simp add: image_image job_identity_def)
  then show "jobs_kept d d' \<Longrightarrow> job_id ` set (jobs d) \<subseteq> job_id ` set (jobs d')"
    by (simp only: jobs_kept_def image_mono)
qed

lemma jobs_kept_update_job:
  assumes "\<And>r. job_identity (f r) = job_identity r"
  shows "jobs_kept d (update_job n f d)"
proof -
  have "map job_identity (update_where (\<lambda>r. job_id r = n) f (jobs d)) = map job_identity (jobs d)"
    using assms by (rule map_update_where_frame)
  then have "job_identity ` set (jobs (update_job n f d)) = job_identity ` set (jobs d)"
    by (metis list.set_map update_job_frame(5))
  moreover have "job_id (f r) = job_id r" for r using assms [of r] by (simp add: job_identity_def)
  ultimately show ?thesis by (simp add: jobs_kept_def jobs_wf_update_job del: update_job_frame(5))
qed

lemma status_of_mem: "status_of d n \<noteq> None \<longleftrightarrow> n \<in> job_id ` set (jobs d)"
  using first_row_None [of "\<lambda>j. job_id j = n" "jobs d"] by (auto simp: status_of_def)

locale job_handler =
  fixes h :: handler
  assumes kept: "h j w = Some (err, w') \<Longrightarrow> jobs_kept (db w) (db w')"
begin

lemma keeps: "keeps_job n h"
  unfolding keeps_job_def
proof (intro allI impI)
  fix j w err w'
  assume "h j w = Some (err, w')" and "jobs_wf (db w)" and "status_of (db w) n \<noteq> None"
  then show "jobs_wf (db w') \<and> status_of (db w') n \<noteq> None"
    using kept [of j w err w'] jobs_kept_ids unfolding status_of_mem jobs_kept_def by blast
qed

end

lemma run_in_slot_jobs:
  assumes "run_in_slot env kind (h j) w = Some (err, w')" and "keeps_job n h"
    and "jobs_wf (db w)" and "status_of (db w) n \<noteq> None"
  shows "jobs_wf (db w') \<and> status_of (db w') n \<noteq> None"
proof -
  obtain d1 where d1: "acquire_slot (locked_step (re_capacity env)) (re_claim_time env) kind
      (re_lease env) (re_lease_seconds env) (re_polls env) (db w) = (True, d1)"
    using assms(1) by (auto simp: run_in_slot_def Let_def split: prod.splits if_splits)
  then obtain w2 where w2: "h j (w\<lparr>db := d1\<rparr>) = Some (err, w2)"
    and w': "w' = with_db (\<lambda>d. snd (locked_step (re_capacity env) (re_finish_time env)
                                               (Release (re_lease env)) d)) w2"
    using assms(1) by (auto simp: run_in_slot_def Let_def split: prod.splits)
  have "jobs d1 = jobs (db w)" "next_job_id d1 = next_job_id (db w)"
    using acquire_slot_jobs [of "re_capacity env" "re_claim_time env" kind "re_lease env"
        "re_lease_seconds env" "re_polls env" "db w"] d1 by simp_all
  from jobs_wf_same_jobs(1) [OF this] jobs_wf_same_jobs(2) [OF this(1)]
  have "jobs_wf d1" "status_of d1 n \<noteq> None" using assms(3,4) by simp_all
  then have "jobs_wf (db w2) \<and> status_of (db w2) n \<noteq> None"
    using keeps_jobD [OF assms(2) _ _ w2] by simp
  moreover have "jobs (db w') = jobs (db w2)" "next_job_id (db w') = next_job_id (db w2)"
    by (simp_all add: w' with_db_def)
  ultimately show ?thesis using jobs_wf_same_jobs(1) jobs_wf_same_jobs(2) by metis
qed

lemma run_claimed_job_jobs:
  assumes "run_claimed_job env j w = Some (err, w')"
    and "\<And>h. re_handlers env (job_kind j) = Some h \<Longrightarrow> keeps_job n h"
    and "jobs_wf (db w)" and "status_of (db w) n \<noteq> None"
  shows "jobs_wf (db w') \<and> status_of (db w') n \<noteq> None"
proof (cases "re_handlers env (job_kind j)")
  case (Some h)
  note k = assms(2) [OF Some]
  show ?thesis
  proof (cases "map_of HEAVY_JOB_TYPES (job_kind j)")
    case None
    then have "h j w = Some (err, w')" using assms(1) Some by (simp add: run_claimed_job_def)
    then show ?thesis using keeps_jobD [OF k assms(3,4)] by simp
  next
    case (Some kind)
    then have "run_in_slot env kind (h j) w = Some (err, w')"
      using assms(1) \<open>re_handlers env (job_kind j) = Some h\<close> by (simp add: run_claimed_job_def)
    then show ?thesis using run_in_slot_jobs k assms(3,4) by blast
  qed
qed (use assms in \<open>auto simp: run_claimed_job_def\<close>)

lemma jobs_wf_insert:
  "jobs_wf d \<Longrightarrow> job_id x = next_job_id d \<Longrightarrow> jobs_wf (insert_job x d)"
  by (force simp: jobs_wf_def insert_job_def)

lemma status_of_insert:
  "status_of d n \<noteq> None \<Longrightarrow> status_of (insert_job x d) n = status_of d n"
  by (auto simp: status_of_def insert_job_def row_at_append split: option.split)

lemma emit_keeps:
  assumes "jobs_wf d" and "status_of d n \<noteq> None"
  shows "jobs_wf (emit_update_finished_message now j st err d)
    \<and> status_of (emit_update_finished_message now j st err d) n = status_of d n"
  using assms
  by (auto simp: emit_update_finished_message_def create_update_finished_message_once_def Let_def
      finished_message_def intro!: jobs_wf_insert status_of_insert)

lemma mark_job:
  assumes "jobs_wf d" and "status_of d (job_id j) \<noteq> None"
  shows "jobs_wf (mark_job_succeeded now j d) \<and> status_of (mark_job_succeeded now j d) (job_id j) = Some SUCCEEDED"
    and "jobs_wf (mark_job_failed now j e d) \<and> status_of (mark_job_failed now j e d) (job_id j) = Some FAILED"
  using assms emit_keeps [of "finish_job now (job_id j) _ _ d" "job_id j"]
  by (simp_all add: mark_job_succeeded_def mark_job_failed_def jobs_wf_finish
      job_table.finish_status)

lemma claim_job_Some:
  assumes "claim_job now n d = (Some j, d1)"
  shows "job_id j = n \<and> job_state j = RUNNING"
  using assms by (auto simp: claim_job_def Let_def dest!: first_row_Some split: option.splits)

lemma claim_job_None: "claim_job now n d = (None, d1) \<Longrightarrow> d1 = d"
  by (auto simp: claim_job_def Let_def split: option.splits)

lemma process_claimed:
  assumes "process_queued_job_message env n w = Some (err, w')"
    and "jobs_wf (db w)" and "status_of (db w) n = Some QUEUED"
    and "\<And>kind h. re_handlers env kind = Some h \<Longrightarrow> keeps_job n h"
  shows "jobs_wf (db w')
    \<and> status_of (db w') n = Some (case err of None \<Rightarrow> SUCCEEDED | Some _ \<Rightarrow> FAILED)"
proof -
  obtain j d1 where claim: "claim_job (re_claim_time env) n (db w) = (Some j, d1)"
    using job_table.claim_iff [OF assms(2), of "re_claim_time env" n] assms(3)
    by (cases "claim_job (re_claim_time env) n (db w)") auto
  have wf1: "jobs_wf d1" using jobs_wf_claim [OF assms(2)] claim by (metis snd_conv)
  have st1: "status_of d1 n = Some RUNNING"
    using job_table.claim_status [OF assms(2), of "re_claim_time env" n n] claim assms(3) by simp
  have id: "job_id j = n" using claim_job_Some [OF claim] by simp
  obtain err2 w2 where run: "run_claimed_job env j (w\<lparr>db := d1\<rparr>) = Some (err2, w2)"
    using assms(1) claim by (auto simp: process_queued_job_message_def split: option.splits)
  have "jobs_wf (db w2) \<and> status_of (db w2) (job_id j) \<noteq> None"
    using run_claimed_job_jobs [OF run assms(4)] wf1 st1 id by simp
  then show ?thesis
    using assms(1) claim run mark_job [of "db w2" j "re_finish_time env"] id
    by (auto simp: process_queued_job_message_def with_db_def split: option.splits)
qed

text \<open>What a delivery does to the rows of the table, whichever way it ends.\<close>

lemma jobs_kept_claim: "jobs_kept d (snd (claim_job now n d))"
  by (auto simp: claim_job_def Let_def job_identity_def split: option.split intro!: jobs_kept_update_job)

lemma jobs_kept_finish: "jobs_kept d (finish_job now n st err d)"
  by (auto simp: finish_job_def job_identity_def intro!: jobs_kept_update_job)

lemma jobs_kept_emit: "jobs_kept d (emit_update_finished_message now j st err d)"
  by (auto simp: emit_update_finished_message_def create_update_finished_message_once_def Let_def jobs_kept_def
      finished_message_def intro!: jobs_wf_insert) (auto simp: insert_job_def)

lemma run_in_slot_kept:
  assumes "run_in_slot env kind fn w = Some (err, w')"
    and "\<And>w err w'. fn w = Some (err, w') \<Longrightarrow> jobs_kept (db w) (db w')"
  shows "jobs_kept (db w) (db w')"
proof -
  obtain d1 where d1: "acquire_slot (locked_step (re_capacity env)) (re_claim_time env) kind
      (re_lease env) (re_lease_seconds env) (re_polls env) (db w) = (True, d1)"
    using assms(1) by (auto simp: run_in_slot_def Let_def split: prod.splits if_splits)
  then obtain w2 where w2: "fn (w\<lparr>db := d1\<rparr>) = Some (err, w2)"
    and w': "w' = with_db (\<lambda>d. snd (locked_step (re_capacity env) (re_finish_time env)
                                               (Release (re_lease env)) d)) w2"
    using assms(1) by (auto simp: run_in_slot_def Let_def split: prod.splits)
  have a: "jobs_kept (db w) d1"
    using acquire_slot_jobs [of "re_capacity env" "re_claim_time env" kind "re_lease env"
        "re_lease_seconds env" "re_polls env" "db w"] d1 by (simp add: jobs_kept_same)
  have b: "jobs_kept d1 (db w2)" using assms(2) [OF w2] by simp
  have "jobs_kept (db w2) (db w')" by (rule jobs_kept_same) (simp_all add: w' with_db_def)
  then show ?thesis using jobs_kept_trans [OF jobs_kept_trans [OF a b]] by blast
qed

lemma process_keeps_rows:
  assumes "process_queued_job_message env n w = Some (err, w')"
    and handlers: "\<And>kind h j w err w'. re_handlers env kind = Some h \<Longrightarrow> h j w = Some (err, w') \<Longrightarrow> jobs_kept (db w) (db w')"
  shows "jobs_kept (db w) (db w')"
proof -
  have run: "jobs_kept (db w1) (db w2)" if r: "run_claimed_job env j w1 = Some (r, w2)" for j w1 r w2
  proof (cases "re_handlers env (job_kind j)")
    case (Some h)
    note k = handlers [OF Some, of j]
    show ?thesis
    proof (cases "map_of HEAVY_JOB_TYPES (job_kind j)")
      case None
      then show ?thesis using r Some by (intro k [of w1 r w2]) (simp add: run_claimed_job_def)
    next
      case (Some kind)
      then have "run_in_slot env kind (h j) w1 = Some (r, w2)"
        using r \<open>re_handlers env (job_kind j) = Some h\<close> by (simp add: run_claimed_job_def)
      then show ?thesis by (rule run_in_slot_kept) (rule k)
    qed
  qed (use r in \<open>auto simp: run_claimed_job_def\<close>)
  have mark: "jobs_kept d (mark_job_succeeded now j d)" "jobs_kept d (mark_job_failed now j e d)" for now j e d
    unfolding mark_job_succeeded_def mark_job_failed_def
    by (rule jobs_kept_trans [OF jobs_kept_finish jobs_kept_emit])+
  obtain c d1 where claim: "claim_job (re_claim_time env) n (db w) = (c, d1)" by force
  then have one: "jobs_kept (db w) d1" using jobs_kept_claim by (metis snd_conv)
  show ?thesis
  proof (cases c)
    case None
    then show ?thesis using assms(1) claim one by (auto simp: process_queued_job_message_def)
  next
    case (Some j)
    obtain e2 w2 where r: "run_claimed_job env j (w\<lparr>db := d1\<rparr>) = Some (e2, w2)" and "jobs_kept (db w2) (db w')"
    proof (cases "run_claimed_job env j (w\<lparr>db := d1\<rparr>)")
      case None
      then show ?thesis using assms(1) claim Some by (simp add: process_queued_job_message_def)
    next
      case (Some x)
      then show ?thesis
        using assms(1) claim \<open>c = Some j\<close> mark by (intro that [of "fst x" "snd x"])
          (auto simp: process_queued_job_message_def with_db_def split: option.splits prod.splits)
    qed
    moreover have "jobs_kept (db w) (db w2)" using jobs_kept_trans [OF one] run [OF r] by simp
    ultimately show ?thesis using jobs_kept_trans by blast
  qed
qed

lemma process_skips:
  assumes "jobs_wf (db w)" and "status_of (db w) n \<noteq> Some QUEUED"
  shows "process_queued_job_message env n w = Some (None, w)"
proof -
  obtain d1 where "claim_job (re_claim_time env) n (db w) = (None, d1)"
    using job_table.claim_iff [OF assms(1), of "re_claim_time env" n] assms(2)
    by (cases "claim_job (re_claim_time env) n (db w)") auto
  then show ?thesis
    by (auto simp: process_queued_job_message_def dest: claim_job_None)
qed

section \<open>Properties\<close>

text \<open>A worker that takes the message of a queued job leaves it settled: the job ends
  succeeded when its handler returned and failed when it raised, never running, and a second
  delivery of the same message runs nothing and changes nothing.\<close>

theorem process_settles_job:
  assumes "process_queued_job_message env n w = Some (err, w')"
    and "jobs_wf (db w)" and "status_of (db w) n = Some QUEUED"
    and "\<And>kind h. re_handlers env kind = Some h \<Longrightarrow> keeps_job n h"
  shows "status_of (db w') n = Some (case err of None \<Rightarrow> SUCCEEDED | Some _ \<Rightarrow> FAILED)
    \<and> process_queued_job_message env' n w' = Some (None, w')"
proof -
  have p: "jobs_wf (db w')"
    "status_of (db w') n = Some (case err of None \<Rightarrow> SUCCEEDED | Some _ \<Rightarrow> FAILED)"
    using process_claimed [OF assms] by simp_all
  then have "status_of (db w') n \<noteq> Some QUEUED" by (simp split: option.split)
  then show ?thesis using p process_skips by simp
qed

definition plain_handlers :: "string \<Rightarrow> handler option" where
  "plain_handlers kind =
     (if kind = ''retention_cleanup'' then Some (\<lambda>j w. Some (None, w))
      else if kind = ''check_feeds'' then Some (\<lambda>j w. Some (Some (HandlerError ''no feed''), w))
      else None)"

definition sample_env :: run_env where
  "sample_env = \<lparr>re_handlers = plain_handlers, re_capacity = 1, re_lease = ''host:1'',
     re_lease_seconds = 120, re_polls = [], re_claim_time = 5, re_finish_time = 9\<rparr>"

definition sample_world :: world where
  "sample_world = \<lparr>db = snd (create_job 0 ''default'' ''check_feeds'' (PDict []) None empty_database),
     broker = [], files = (\<lambda>_. None)\<rparr>"

lemma plain_handlers_keep: "plain_handlers kind = Some h \<Longrightarrow> keeps_job n h"
  by (auto simp: plain_handlers_def keeps_job_def split: if_splits)

lemma sample_world_db:
  "jobs_wf (db sample_world)" "status_of (db sample_world) 1 = Some QUEUED"
  by (simp_all add: sample_world_def create_job_def create_lookup_def create_insert_def insert_job_def
      new_job_def jobs_wf_def status_of_def empty_database_def Let_def)

theorem process_settles_job_witness:
  "\<exists>err w'. process_queued_job_message sample_env 1 sample_world = Some (err, w')
     \<and> status_of (db w') 1 = Some FAILED \<and> process_queued_job_message sample_env 1 w' = Some (None, w')"
proof -
  have "\<exists>w'. process_queued_job_message sample_env 1 sample_world
      = Some (Some (HandlerError ''no feed''), w')"
    by (simp add: process_queued_job_message_def sample_world_def create_job_def create_lookup_def
        create_insert_def insert_job_def new_job_def empty_database_def Let_def claim_job_def
        run_claimed_job_def sample_env_def plain_handlers_def HEAVY_JOB_TYPES_def)
  then obtain w' where
    r: "process_queued_job_message sample_env 1 sample_world = Some (Some (HandlerError ''no feed''), w')"
    by blast
  have "\<And>kind h. re_handlers sample_env kind = Some h \<Longrightarrow> keeps_job 1 h"
    by (simp add: sample_env_def plain_handlers_keep)
  from process_settles_job [OF r sample_world_db this, where env' = sample_env]
  show ?thesis using r by auto
qed

text \<open>A heavy job gives its CPU slot back on both ways out of its handler: after the run no
  row of its lease is left in the slot table.\<close>

theorem heavy_job_releases_slot:
  assumes "run_claimed_job env j w = Some (err, w')"
    and "map_of HEAVY_JOB_TYPES (job_kind j) = Some kind"
    and "re_handlers env (job_kind j) = Some h"
  shows "\<forall>r \<in> set (cpu_slot_requests (db w')). lease_id r \<noteq> re_lease env"
  using assms
  by (auto simp: run_claimed_job_def run_in_slot_def with_db_def locked_step_def locked_def
      db_release_def Let_def split: prod.splits if_splits)

definition heavy_env :: run_env where
  "heavy_env = sample_env\<lparr>re_handlers := (\<lambda>_. Some (\<lambda>j w. Some (Some (HandlerError ''boom''), w))),
     re_polls := [(6, [])]\<rparr>"

definition heavy_job :: job where
  "heavy_job = new_job 0 ''default'' ''transcode_media'' (PDict []) None empty_database"

theorem heavy_job_releases_slot_witness:
  "\<exists>w'. run_claimed_job heavy_env heavy_job sample_world = Some (Some (HandlerError ''boom''), w')
     \<and> ''host:1'' \<notin> lease_id ` set (cpu_slot_requests (db w'))"
proof -
  have kind: "map_of HEAVY_JOB_TYPES (job_kind heavy_job) = Some KIND_FFMPEG"
    by (simp add: heavy_job_def new_job_def HEAVY_JOB_TYPES_def)
  have h: "re_handlers heavy_env (job_kind heavy_job) = Some (\<lambda>j w. Some (Some (HandlerError ''boom''), w))"
    by (simp add: heavy_env_def)
  have slot: "fst (acquire_slot (locked_step 1) 5 KIND_FFMPEG ''host:1'' 120 [(6, [])] (db sample_world))"
    by code_simp
  then obtain d1 where
    "acquire_slot (locked_step 1) 5 KIND_FFMPEG ''host:1'' 120 [(6, [])] (db sample_world) = (True, d1)"
    by (metis prod.collapse)
  then obtain w' where
    r: "run_claimed_job heavy_env heavy_job sample_world = Some (Some (HandlerError ''boom''), w')"
    using kind h by (simp add: run_claimed_job_def run_in_slot_def heavy_env_def sample_env_def Let_def)
  from heavy_job_releases_slot [OF r kind h] show ?thesis
    using r by (auto simp: heavy_env_def sample_env_def)
qed

fun delivery_tags :: "(bool \<times> delivery) list \<Rightarrow> nat list" where
  "delivery_tags [] = []"
| "delivery_tags ((stop, Inactivity) # evs) = delivery_tags evs"
| "delivery_tags ((stop, Delivery tag body env) # evs) = tag # delivery_tags evs"

fun action_tag :: "broker_action \<Rightarrow> nat" where
  "action_tag (Ack t) = t"
| "action_tag (NackRequeue t) = t"
| "action_tag (NackDrop t) = t"

fun settles :: "broker_action \<Rightarrow> bool" where
  "settles (NackRequeue t) = False"
| "settles _ = True"

lemma handle_delivery_action:
  assumes "handle_delivery config tag body env w = Inr (Some (k, action, w'))"
  shows "action_tag action = tag \<and> k = (if settles action then 1 else 0)"
  using assms
  by (auto simp: handle_delivery_def process_delivery_def bind_result_Inr
      split: if_splits option.splits)

lemma consume_from_facts:
  assumes "consume_from config processed evs w = (e, p, actions, w')"
    and "processed < wc_max_messages config"
  shows "p = processed + int (length (filter settles actions))
    \<and> p \<le> wc_max_messages config
    \<and> (e = ReachedMax \<longleftrightarrow> p = wc_max_messages config)
    \<and> prefix (map action_tag actions) (delivery_tags evs)"
  using assms
proof (induction config processed evs w arbitrary: e p actions w' rule: consume_from.induct)
  case (2 config processed stop ev evs w)
  show ?case
  proof (cases "stop \<or> ev = Inactivity")
    case True
    then show ?thesis using 2 by (cases ev) (auto split: if_splits)
  next
    case False
    then obtain tag body env where ev: "ev = Delivery tag body env" and nostop: "\<not> stop"
      by (cases ev) auto
    show ?thesis
    proof (cases "handle_delivery config tag body env w")
      case (Inr r)
      show ?thesis
      proof (cases r)
        case (Some r')
        obtain k action w1 where r': "r' = (k, action, w1)" by (cases r')
        have act: "action_tag action = tag" "k = (if settles action then 1 else 0)"
          using handle_delivery_action Inr Some r' by blast+
        show ?thesis
        proof (cases "processed + int k \<ge> wc_max_messages config")
          case True
          then show ?thesis
            using "2.prems" ev nostop Inr Some r' act by (auto split: if_splits)
        next
          case False
          obtain e1 p1 as w2 where
            c: "consume_from config (processed + int k) evs w1 = (e1, p1, as, w2)"
            by (metis prod_cases4)
          have "p1 = processed + int k + int (length (filter settles as))
              \<and> p1 \<le> wc_max_messages config \<and> (e1 = ReachedMax \<longleftrightarrow> p1 = wc_max_messages config)
              \<and> prefix (map action_tag as) (delivery_tags evs)"
            using "2.IH"(2) [OF nostop ev Inr Some r' [symmetric] refl refl False c] False by simp
          then show ?thesis
            using "2.prems" ev nostop Inr Some r' act c False by (auto simp: Let_def)
        qed
      qed (use "2.prems" ev nostop Inr in auto)
    qed (use "2.prems" ev nostop in auto)
  qed
qed auto

text \<open>C12: The consumer loop answers the deliveries in order, each at most once and none skipped;
  it counts the settled ones, never more than the configured maximum, and ends for that reason
  exactly when the count reaches it.\<close>

theorem consume_answers_in_order:
  assumes "consume_worker_messages config evs w = (e, p, actions, w')"
    and "0 < wc_max_messages config"
  shows "prefix (map action_tag actions) (delivery_tags evs)
    \<and> p = int (length (filter settles actions)) \<and> p \<le> wc_max_messages config
    \<and> (e = ReachedMax \<longleftrightarrow> p = wc_max_messages config)"
  using consume_from_facts [of config 0 evs w e p actions w'] assms
  by (simp add: consume_worker_messages_def)

definition sample_config :: worker_config where
  "sample_config = \<lparr>wc_worker_type = ''updates'', wc_queue = ''getoffline.jobs.updates'',
     wc_prefetch_count = 1, wc_max_messages = 1\<rparr>"

theorem consume_answers_in_order_witness:
  "\<exists>e p actions w'. consume_worker_messages sample_config
      [(False, Inactivity), (False, Delivery 7 (Some (PDict [(''job_id'', PInt 3)])) sample_env),
       (False, Delivery 8 (Some (PDict [(''job_id'', PInt 3)])) sample_env)] sample_world
      = (e, p, actions, w')
    \<and> prefix (map action_tag actions) [7, 8] \<and> p \<le> 1"
proof -
  let ?evs = "[(False, Inactivity), (False, Delivery 7 (Some (PDict [(''job_id'', PInt 3)])) sample_env),
       (False, Delivery 8 (Some (PDict [(''job_id'', PInt 3)])) sample_env)]"
  obtain e p actions w' where
    r: "consume_worker_messages sample_config ?evs sample_world = (e, p, actions, w')"
    by (metis prod_cases4)
  have "0 < wc_max_messages sample_config" by (simp add: sample_config_def)
  from consume_answers_in_order [OF r this] show ?thesis
    using r by (auto simp: sample_config_def)
qed

lemma download_queue_source:
  "download_queue_name (job_payload j) =
     (case source_type_for_downloader_job j of
        YOUTUBE \<Rightarrow> YOUTUBE_DOWNLOAD_QUEUE | PODCAST \<Rightarrow> PODCAST_DOWNLOAD_QUEUE)"
  by (auto simp: download_queue_name_def source_type_for_downloader_job_def Let_def
      split: option.split source_type.split)

text \<open>C30: Routing and acceptance agree: a downloader worker accepts a download job exactly when the
  job is routed to that worker's own queue, so a routed download is never bounced for ever.\<close>

theorem worker_accepts_iff_routed:
  assumes "worker \<in> set DOWNLOADER_WORKERS"
    and "row_at job_id n (jobs d) = Some j"
    and "parse_job_type (PStr (job_kind j)) \<in> Some ` set DOWNLOAD_JOB_TYPES"
  shows "worker_accepts_job worker n d \<longleftrightarrow>
    map_option queue_value (map_of QUEUE_BY_WORKER worker) = Some (queue_for_job j)"
proof -
  have q: "queue_for_job j = queue_value (download_queue_name (job_payload j))"
    using assms(3) by (auto simp: queue_for_job_def queue_name_def DOWNLOAD_JOB_TYPES_def)
  have "worker = ''downloader-youtube'' \<or> worker = ''downloader-podcast''"
    using assms(1) by (simp add: DOWNLOADER_WORKERS_def)
  then show ?thesis
    using assms(1,2) unfolding q download_queue_source
    by (cases "source_type_for_downloader_job j")
      (auto simp: worker_accepts_job_def QUEUE_BY_WORKER_def)
qed

definition podcast_job :: job where
  "podcast_job = new_job 0 ''default'' ''download_episode''
     (PDict [(''media_type'', PStr ''audio'')]) None empty_database"

theorem worker_accepts_iff_routed_witness:
  "worker_accepts_job ''downloader-podcast'' 1 (insert_job podcast_job empty_database)"
proof -
  have "''downloader-podcast'' \<in> set DOWNLOADER_WORKERS" by (simp add: DOWNLOADER_WORKERS_def)
  moreover have "row_at job_id 1 (jobs (insert_job podcast_job empty_database)) = Some podcast_job"
    by (simp add: insert_job_def podcast_job_def new_job_def empty_database_def)
  moreover have "parse_job_type (PStr (job_kind podcast_job)) \<in> Some ` set DOWNLOAD_JOB_TYPES"
    by (simp add: podcast_job_def new_job_def DOWNLOAD_JOB_TYPES_def)
  ultimately have "worker_accepts_job ''downloader-podcast'' 1 (insert_job podcast_job empty_database) \<longleftrightarrow>
      map_option queue_value (map_of QUEUE_BY_WORKER ''downloader-podcast'') = Some (queue_for_job podcast_job)"
    by (rule worker_accepts_iff_routed)
  moreover have "map_option queue_value (map_of QUEUE_BY_WORKER ''downloader-podcast'')
      = Some (queue_for_job podcast_job)"
    by code_simp
  ultimately show ?thesis by blast
qed

lemma queue_name_worker:
  assumes "map_of JOB_TYPES_BY_WORKER worker = Some types" and "jt \<in> set types"
    and "\<not> worker_type_is_wrong_downloader worker (queue_name (job_type_value jt) p)"
  shows "Some (queue_name (job_type_value jt) p) = map_option queue_value (map_of QUEUE_BY_WORKER worker)"
  using assms
  by (auto simp: JOB_TYPES_BY_WORKER_def QUEUE_BY_WORKER_def queue_name_def DOWNLOADER_WORKERS_def
      worker_type_is_wrong_downloader_def split: if_splits)

text \<open>The jobs a starting worker publishes again are queued jobs that worker handles, and each
  message goes to the queue the worker itself consumes, with a priority the queue accepts.\<close>

theorem requeued_messages_routed:
  assumes "requeue_existing_jobs worker w = Inr (k, w')"
  shows "\<exists>ms. broker w' = broker w @ ms \<and> length ms = k \<and> k \<le> 500 \<and> db w' = db w
    \<and> (\<forall>m \<in> set ms. Some (pub_routing_key m) = map_option queue_value (map_of QUEUE_BY_WORKER worker)
         \<and> 0 \<le> pub_priority m \<and> pub_priority m \<le> MAX_QUEUE_PRIORITY
         \<and> (\<exists>j \<in> set (jobs (db w)). job_state j = QUEUED
               \<and> map_of (pub_body m) ''job_id'' = Some (PInt (job_id j))))"
proof -
  obtain types where types: "map_of JOB_TYPES_BY_WORKER worker = Some types"
    using assms by (auto simp: requeue_existing_jobs_def queued_jobs_for_worker_def
        bind_result_Inr split: option.splits)
  define js where "js = take 500 (sort_key job_created_at
      (filter (\<lambda>j. job_state j = QUEUED \<and> job_kind j \<in> job_type_value ` set types) (jobs (db w))))"
  let ?ms = "publish_requeued_jobs worker js"
  have w': "k = length ?ms" "w' = w\<lparr>broker := broker w @ ?ms\<rparr>"
    using assms types by (auto simp: requeue_existing_jobs_def queued_jobs_for_worker_def
        js_def Let_def)
  have len: "length (publish_requeued_jobs worker xs) \<le> length xs" for xs
    by (induction xs) auto
  have js: "j \<in> set (jobs (db w)) \<and> job_state j = QUEUED \<and> (\<exists>jt \<in> set types. job_kind j = job_type_value jt)"
    if "j \<in> set js" for j
    using that by (auto simp: js_def dest!: in_set_takeD)
  have body: "map_of (message_body (requeue_message j)) ''job_id'' = Some (PInt (job_id j))" for j
    unfolding message_body_def
    by (subst map_of_sort_keys) (simp_all add: requeue_message_def job_message_def)
  have routed: "\<exists>j \<in> set xs. m = publish_requeued_job j (queue_for_job j)
      \<and> \<not> worker_type_is_wrong_downloader worker (queue_for_job j)"
    if "m \<in> set (publish_requeued_jobs worker xs)" for m xs
    using that by (induction xs) (auto split: if_splits)
  have "Some (pub_routing_key m) = map_option queue_value (map_of QUEUE_BY_WORKER worker)
      \<and> 0 \<le> pub_priority m \<and> pub_priority m \<le> MAX_QUEUE_PRIORITY
      \<and> (\<exists>j \<in> set (jobs (db w)). job_state j = QUEUED
            \<and> map_of (pub_body m) ''job_id'' = Some (PInt (job_id j)))"
    if m: "m \<in> set ?ms" for m
  proof -
    obtain j where j: "j \<in> set js" "m = publish_requeued_job j (queue_for_job j)"
      "\<not> worker_type_is_wrong_downloader worker (queue_for_job j)"
      using routed [OF m] by blast
    then show ?thesis
      using js [OF j(1)] queue_name_worker [OF types] body job_priority_range
      by (auto simp: publish_requeued_job_def queue_for_job_def)
  qed
  moreover have "length ?ms \<le> 500" using len [of js] by (simp add: js_def)
  ultimately show ?thesis using w' by auto
qed

theorem requeued_messages_routed_witness:
  "\<exists>k w'. requeue_existing_jobs ''updates'' sample_world = Inr (k, w') \<and> k \<le> 500"
proof -
  obtain k w' where r: "requeue_existing_jobs ''updates'' sample_world = Inr (k, w')"
    by (simp add: requeue_existing_jobs_def queued_jobs_for_worker_def JOB_TYPES_BY_WORKER_def Let_def)
  from requeued_messages_routed [OF r] show ?thesis using r by blast
qed

text \<open>The completion message of an update job is written once: repeating the emission with the
  same job and token, even with another status, leaves the table as it is.\<close>

theorem finished_message_once:
  "emit_update_finished_message now2 j st2 err2 (emit_update_finished_message now1 j st1 err1 d)
   = emit_update_finished_message now1 j st1 err1 d"
  by (auto simp: emit_update_finished_message_def create_update_finished_message_once_def Let_def
      insert_job_def finished_message_def exists_row_iff)

end
