(* ===== verification/Enqueue.thy ===== *)
theory Enqueue
  imports Runner Episodes
begin

text \<open>
  Asking for a job and for its outcome (\<open>enqueue_job\<close> and \<open>worker_message_status\<close> in
  \<open>src/src/api/services/dashboard_actions.py\<close>). The random token of an update job is an
  argument. The two ends meet in the completion message the worker writes.
\<close>

definition ALLOWED_JOB_TYPES :: "string list" where
  "ALLOWED_JOB_TYPES = [''update_downloads'', ''download_single'']"

record enqueue_reply =
  eq_job_id :: int
  eq_status :: string
  eq_params :: "(string \<times> string) list"

definition enqueue_payload :: "string \<Rightarrow> string \<Rightarrow> form \<Rightarrow> pydict" where
  "enqueue_payload token job_type post =
     [(''source'', PStr ''django_app'')]
     @ (if job_type = ''update_downloads'' then [(''completion_token'', PStr token)] else [])
     @ (if job_type = ''download_single''
        then [(''manual_enqueue'', PBool True),
              (''delete_explicit_content'', PBool (posted_bool post ''delete_explicit_content'' []))] else [])
     @ (if post_text post ''url'' \<noteq> [] then [(''url'', PStr (py_strip (post_text post ''url'')))] else [])"

definition enqueue_key :: "string \<Rightarrow> string \<Rightarrow> string \<Rightarrow> form \<Rightarrow> string" where
  "enqueue_key token job_type profile post =
     (let dflt = job_type @ '':'' @ profile @ '':'' @
           (if job_type = ''update_downloads'' then token
            else py_str (dget_default (enqueue_payload token job_type post) ''url'' (PStr ''manual'')))
      in or_else (post_text post ''idempotency_key'') dflt)"

definition enqueue_job :: "time \<Rightarrow> string \<Rightarrow> string \<Rightarrow> form \<Rightarrow> world \<Rightarrow> enqueue_reply reply \<times> world" where
  "enqueue_job now token profile post w =
     (let job_type = py_strip (post_text post ''job_type'') in
      if job_type \<notin> set ALLOWED_JOB_TYPES then (Refused ''Unsupported job_type'', w)
      else (case create_and_publish now profile job_type (PDict (enqueue_payload token job_type post))
                   (Some (enqueue_key token job_type profile post)) w of
          (Inl e, w1) \<Rightarrow> (Raised e, w1)
        | (Inr j, w1) \<Rightarrow>
            (Done \<lparr>eq_job_id = job_id j, eq_status = job_status_value (job_state j),
                   eq_params = [(''profile_id'', profile),
                     (if job_type = ''update_downloads'' then (''token'', token)
                      else (''job_id'', str_of_int (job_id j)))]\<rparr>, w1)))"

section \<open>The outcome\<close>

record status_reply =
  st_finished :: bool
  st_ok :: bool
  st_status :: "string option"
  st_error :: "string option"

definition pending_reply :: status_reply where
  "pending_reply = \<lparr>st_finished = False, st_ok = True, st_status = Some ''pending'', st_error = None\<rparr>"

text \<open>
  The reply about a job read by its id. The code tests \<open>job.status is not JobStatus.FAILED\<close>: the
  status of a row is a plain string, never the member itself, so the test always succeeds.
\<close>

definition job_status_reply :: "job \<Rightarrow> status_reply" where
  "job_status_reply j =
     \<lparr>st_finished = (job_state j \<in> {SUCCEEDED, FAILED}), st_ok = True,
      st_status = Some (job_status_value (job_state j)),
      st_error = Some (text_of (job_error_message j))\<rparr>"

definition is_finished_message :: "string \<Rightarrow> string \<Rightarrow> job \<Rightarrow> bool" where
  "is_finished_message profile token j \<longleftrightarrow>
     job_profile_id j = profile \<and> job_kind j = ''worker_message''
     \<and> dget (as_dict (job_payload j)) ''event_type'' = PStr ''update_downloads_finished''
     \<and> dget (as_dict (job_payload j)) ''completion_token'' = PStr token"

definition message_reply :: "job \<Rightarrow> status_reply" where
  "message_reply j =
     (let payload = as_dict (job_payload j); source_status = str_or_empty (dget payload ''source_status'') in
      \<lparr>st_finished = True, st_ok = (parse_job_status (PStr source_status) \<noteq> Some FAILED),
       st_status = Some source_status, st_error = Some (str_or_empty (dget payload ''error_message''))\<rparr>)"

definition worker_message_status :: "string \<Rightarrow> string \<Rightarrow> string \<Rightarrow> database \<Rightarrow> status_reply reply" where
  "worker_message_status profile token0 job_id0 d =
     (let token = py_strip token0; jid = py_strip job_id0 in
      if token = [] \<and> jid \<noteq> [] then
        (case py_int jid of
           None \<Rightarrow> Raised (ValueError jid)
         | Some n \<Rightarrow>
             Done (case first_row (\<lambda>j. job_profile_id j = profile \<and> job_id j = n) (jobs d) of
                     None \<Rightarrow> pending_reply
                   | Some j \<Rightarrow> job_status_reply j))
      else if token = [] then Refused ''Missing completion token''
      else (case sort_key (\<lambda>j. (- job_created_at j, - job_id j))
                   (filter (is_finished_message profile token) (jobs d)) of
              [] \<Rightarrow> Done pending_reply
            | j # _ \<Rightarrow> Done (message_reply j)))"

section \<open>Facts\<close>

lemma py_int_Nil: "py_int [] = None"
  by code_simp

lemma create_and_publish_new:
  assumes "create_lookup key (db w) = None"
  obtains m where "create_and_publish now profile kind payload key w
      = (Inr (new_job now profile kind payload key (db w)),
         w\<lparr>db := insert_job (new_job now profile kind payload key (db w)) (db w), broker := broker w @ [m]\<rparr>)"
    and "map_of (pub_body m) ''job_id'' = Some (PInt (next_job_id (db w)))"
proof -
  have c: "create_job now profile kind payload key (db w)
      = (new_job now profile kind payload key (db w), insert_job (new_job now profile kind payload key (db w)) (db w))"
    using assms by (simp add: create_job_def create_insert_def Let_def)
  show thesis
    by (rule create_and_publish_world [of now profile kind payload key w]) (rule that, simp_all add: c)
qed

lemma finished_message_is: "is_finished_message (job_profile_id j) token (finished_message now j token st err d)"
  by (simp add: is_finished_message_def finished_message_def)

lemma finished_message_reply:
  "message_reply (finished_message now j token st err d) =
     \<lparr>st_finished = True, st_ok = (st \<noteq> FAILED), st_status = Some (job_status_value st), st_error = Some err\<rparr>"
  using parse_values(4) [of st] by (simp add: message_reply_def finished_message_def)

lemma status_of_single_message:
  assumes "filter (is_finished_message profile token) (jobs d) = [m]" and "py_strip token = token" and "token \<noteq> []"
  shows "worker_message_status profile token jid d = Done (message_reply m)"
  using assms by (simp add: worker_message_status_def)

lemma finish_job_messages:
  assumes "filter (is_finished_message profile token) (jobs d) = []"
  shows "filter (is_finished_message profile token) (jobs (finish_job now n st err d)) = []"
proof -
  have "\<not> is_finished_message profile token j" if "j \<in> set (jobs d)" for j
    using assms that by (auto simp: filter_empty_conv)
  then show ?thesis
    by (auto simp: filter_empty_conv finish_job_def set_update_where is_finished_message_def)
qed

section \<open>Properties\<close>

text \<open>C35: The completion token ties the two ends of an update together: when the worker finishes the
  job, whichever way, a status request with the token, pending until then, answers that it is
  finished, whether it succeeded, and with the worker's error message.\<close>

theorem update_outcome_reaches_client:
  assumes "job_kind j = ''update_downloads''" and "update_completion_token j = token" and "token \<noteq> []"
    and "filter (is_finished_message (job_profile_id j) token) (jobs d) = []"
    and "\<not> exists_row (\<lambda>r. job_idempotency_key r = Some (finished_message_key j token)) (jobs d)"
  shows "worker_message_status (job_profile_id j) token [] d = Done pending_reply
    \<and> worker_message_status (job_profile_id j) token [] (mark_job_succeeded now j d)
      = Done \<lparr>st_finished = True, st_ok = True, st_status = Some ''succeeded'', st_error = Some []\<rparr>
    \<and> worker_message_status (job_profile_id j) token [] (mark_job_failed now j e d)
      = Done \<lparr>st_finished = True, st_ok = False, st_status = Some ''failed'', st_error = Some (error_text e)\<rparr>"
proof -
  let ?p = "job_profile_id j"
  have strip: "py_strip token = token" using assms(2) by (auto simp: update_completion_token_def)
  have emitted: "worker_message_status ?p token [] (emit_update_finished_message now j st err
        (finish_job now (job_id j) st err2 d))
      = Done \<lparr>st_finished = True, st_ok = (st \<noteq> FAILED), st_status = Some (job_status_value st), st_error = Some err\<rparr>"
    for st err err2
  proof -
    let ?d = "finish_job now (job_id j) st err2 d"
    have none: "filter (is_finished_message ?p token) (jobs ?d) = []"
      using assms(4) by (rule finish_job_messages)
    have "\<not> exists_row (\<lambda>r. job_idempotency_key r = Some (finished_message_key j token)) (jobs ?d)"
      using assms(5) by (auto simp: exists_row_iff finish_job_def set_update_where)
    then have "emit_update_finished_message now j st err ?d
        = insert_job (finished_message now j token st err ?d) ?d"
      using assms(1-3) by (simp add: emit_update_finished_message_def create_update_finished_message_once_def)
    then show ?thesis
      using status_of_single_message [OF _ strip assms(3), of ?p] none finished_message_is
      by (simp add: insert_job_def finished_message_reply)
  qed
  have "worker_message_status ?p token [] d = Done pending_reply"
    using assms(3,4) strip by (simp add: worker_message_status_def)
  then show ?thesis
    using emitted [of SUCCEEDED] emitted [of FAILED]
    by (simp add: mark_job_succeeded_def mark_job_failed_def)
qed

text \<open>Asked by job id instead, the status of a failed job is finished and ok at the same time: the
  flag that tells success from failure is always set.\<close>

theorem failed_job_reported_ok:
  assumes "first_row (\<lambda>j. job_profile_id j = profile \<and> job_id j = n) (jobs d) = Some j"
    and "job_state j = FAILED"
  shows "\<exists>r. worker_message_status profile [] (str_of_int n) d = Done r \<and> st_finished r \<and> st_ok r
    \<and> st_status r = Some ''failed''"
proof -
  have "py_int (py_strip (str_of_int n)) = Some n"
    using py_int_str_of_int [of n] by (simp add: py_int_def)
  moreover from this have "py_strip (str_of_int n) \<noteq> []"
    by (metis py_int_Nil option.distinct(1))
  moreover have "py_strip [] = []" by (simp add: py_strip_def strip_chars_def rstrip_chars_def)
  ultimately show ?thesis
    using assms by (simp add: worker_message_status_def job_status_reply_def)
qed

definition update_job_row :: job where
  "update_job_row = \<lparr>job_id = 1, job_profile_id = ''kids'', job_kind = ''update_downloads'', job_state = FAILED,
     job_payload = PDict [(''completion_token'', PStr ''t1'')], job_idempotency_key = None,
     job_error_message = Some ''boom'', job_created_at = 0, job_updated_at = 0, job_started_at = None,
     job_finished_at = None\<rparr>"

definition update_job_database :: database where
  "update_job_database = empty_database\<lparr>jobs := [update_job_row], next_job_id := 2\<rparr>"

theorem failed_job_reported_ok_witness:
  "\<exists>r. worker_message_status ''kids'' [] (str_of_int 1) update_job_database = Done r \<and> st_ok r"
  using failed_job_reported_ok [of "''kids''" 1 update_job_database update_job_row]
  by (auto simp: update_job_database_def update_job_row_def)

theorem update_outcome_reaches_client_witness:
  "worker_message_status ''kids'' ''t1'' [] (mark_job_succeeded 5 update_job_row update_job_database)
    = Done \<lparr>st_finished = True, st_ok = True, st_status = Some ''succeeded'', st_error = Some []\<rparr>"
proof -
  have "update_completion_token update_job_row = ''t1''" by code_simp
  moreover have "filter (is_finished_message (job_profile_id update_job_row) ''t1'') (jobs update_job_database) = []"
    by (simp add: update_job_database_def update_job_row_def is_finished_message_def)
  moreover have "\<not> exists_row (\<lambda>r. job_idempotency_key r = Some (finished_message_key update_job_row ''t1''))
      (jobs update_job_database)"
    by (simp add: update_job_database_def update_job_row_def)
  ultimately show ?thesis
    using update_outcome_reaches_client [of update_job_row "''t1''" update_job_database 5]
    by (simp add: update_job_row_def)
qed

text \<open>Every accepted request for an update answers with a token of its own and leaves a queued job
  that carries it, published to the broker; a request for another kind of job, or for a type that
  is not allowed, creates nothing for it.\<close>

theorem enqueue_update_creates_job:
  assumes "py_strip (post_text post ''job_type'') = ''update_downloads''"
    and "post_text post ''idempotency_key'' = []" and "unique_active (db w)"
    and "\<forall>j \<in> set (jobs (db w)). job_idempotency_key j \<noteq> Some (''update_downloads:'' @ profile @ '':'' @ token)"
    and "py_strip token = token"
  shows "\<exists>a w'. enqueue_job now token profile post w = (Done a, w')
    \<and> eq_status a = ''queued'' \<and> map_of (eq_params a) ''token'' = Some token
    \<and> (\<exists>j \<in> set (jobs (db w')). job_id j = eq_job_id a \<and> job_state j = QUEUED
         \<and> job_kind j = ''update_downloads'' \<and> job_profile_id j = profile \<and> update_completion_token j = token)
    \<and> (\<exists>m \<in> set (broker w'). map_of (pub_body m) ''job_id'' = Some (PInt (eq_job_id a)))
    \<and> unique_active (db w')"
proof -
  let ?key = "''update_downloads:'' @ profile @ '':'' @ token"
  let ?payload = "PDict (enqueue_payload token ''update_downloads'' post)"
  have key: "enqueue_key token ''update_downloads'' profile post = ?key"
    using assms(2) by (simp add: enqueue_key_def or_else_def)
  have none: "create_lookup (Some ?key) (db w) = None"
    using assms(4) by (auto simp: create_lookup_def first_row_None)
  let ?j = "new_job now profile ''update_downloads'' ?payload (Some ?key) (db w)"
  obtain m where m: "create_and_publish now profile ''update_downloads'' ?payload (Some ?key) w
      = (Inr ?j, w\<lparr>db := insert_job ?j (db w), broker := broker w @ [m]\<rparr>)"
    "map_of (pub_body m) ''job_id'' = Some (PInt (next_job_id (db w)))"
    by (rule create_and_publish_new [OF none])
  have allowed: "''update_downloads'' \<in> set ALLOWED_JOB_TYPES" by (simp add: ALLOWED_JOB_TYPES_def)
  have run: "enqueue_job now token profile post w
      = (Done \<lparr>eq_job_id = job_id ?j, eq_status = job_status_value (job_state ?j),
               eq_params = [(''profile_id'', profile), (''token'', token)]\<rparr>,
         w\<lparr>db := insert_job ?j (db w), broker := broker w @ [m]\<rparr>)"
    unfolding enqueue_job_def assms(1) Let_def key m(1) using allowed by simp
  have "update_completion_token ?j = token"
    using assms(5) by (simp add: update_completion_token_def new_job_def enqueue_payload_def)
  moreover have "unique_active (insert_job ?j (db w))"
    using create_job_unique_active [OF assms(3), of now profile "''update_downloads''" ?payload "Some ?key"] none
    by (simp add: create_job_def create_insert_def Let_def)
  moreover have "job_kind ?j = ''update_downloads''" "job_profile_id ?j = profile"
    by (simp_all add: new_job_def)
  ultimately show ?thesis
    unfolding run using m(2) by (auto simp: insert_job_def)
qed

theorem enqueue_update_creates_job_witness:
  "\<exists>a w'. enqueue_job 5 ''t1'' ''kids'' [(''job_type'', ''update_downloads'')]
     \<lparr>db = empty_database, broker = [], files = Map.empty\<rparr> = (Done a, w') \<and> eq_status a = ''queued''"
proof -
  let ?post = "[(''job_type'', ''update_downloads'')]"
  let ?w = "\<lparr>db = empty_database, broker = [], files = Map.empty\<rparr>"
  have "py_strip (post_text ?post ''job_type'') = ''update_downloads''" "post_text ?post ''idempotency_key'' = []"
    "py_strip ''t1'' = ''t1''" by code_simp+
  moreover have "unique_active (db ?w)" by (simp add: unique_active_def active_count_def empty_database_def)
  ultimately show ?thesis
    using enqueue_update_creates_job [of ?post ?w "''kids''" "''t1''" 5] by (auto simp: empty_database_def)
qed

end
