(* ===== verification/WorkerRows.thy ===== *)
theory WorkerRows
  imports IsoTime Sidecars Enqueue
begin

text \<open>
  What the media handlers share: the heartbeat of a running job, the rows they write from the
  dictionaries that travel in job payloads, and the copy of a file fetched through the API when the
  media are not mounted (\<open>src/src/workers/handlers.py\<close>, \<open>src/src/workers/media_fetch.py\<close>). The row of a
  running job exists as long as the job runs. The HTTP request is an argument.
\<close>

section \<open>The heartbeat of a job\<close>

definition touch_active_job :: "time \<Rightarrow> string \<Rightarrow> string \<Rightarrow> job \<Rightarrow> database \<Rightarrow> job \<times> database" where
  "touch_active_job now label title j d =
     (if now - job_updated_at j < seconds 10 then (j, d)
      else let p = AList.update ''active_stage'' (PStr label) (as_dict (job_payload j));
               p' = (if title \<noteq> [] then AList.update ''active_title'' (PStr title) p else p)
        in (j\<lparr>job_payload := PDict p', job_updated_at := now\<rparr>,
            update_job (job_id j) (\<lambda>r. r\<lparr>job_payload := PDict p', job_updated_at := now\<rparr>) d))"

definition with_database :: "(database \<Rightarrow> database) \<Rightarrow> media_store \<Rightarrow> media_store" where
  "with_database f ms = ms\<lparr>ms_world := ms_world ms\<lparr>db := f (db (ms_world ms))\<rparr>\<rparr>"

abbreviation ms_db :: "media_store \<Rightarrow> database" where
  "ms_db ms \<equiv> db (ms_world ms)"

abbreviation ms_files :: "media_store \<Rightarrow> file_system" where
  "ms_files ms \<equiv> files (ms_world ms)"

definition touch_job :: "time \<Rightarrow> string \<Rightarrow> string \<Rightarrow> job \<Rightarrow> media_store \<Rightarrow> media_store" where
  "touch_job now label title j ms = with_database (\<lambda>d. snd (touch_active_job now label title j d)) ms"

section \<open>Rows from dictionaries\<close>

record download_lookup =
  lk_profile :: string
  lk_source_type :: string
  lk_source_name :: string
  lk_uid :: string

definition lookup_matches :: "download_lookup \<Rightarrow> download \<Rightarrow> bool" where
  "lookup_matches l r \<longleftrightarrow> dl_profile_id r = lk_profile l \<and> dl_source_type r = lk_source_type l
     \<and> dl_source_name r = lk_source_name l \<and> dl_item_uid r = Some (lk_uid l)"

definition lookup_dict :: "download_lookup \<Rightarrow> pydict" where
  "lookup_dict l = [(''profile_id'', PStr (lk_profile l)), (''source_type'', PStr (lk_source_type l)),
     (''source_name'', PStr (lk_source_name l)), (''item_uid'', PStr (lk_uid l))]"

text \<open>A payload's lookup has these four keys; the handlers write no other.\<close>

definition read_lookup :: "pydict \<Rightarrow> error + download_lookup" where
  "read_lookup d =
     (case (dget d ''profile_id'', dget d ''source_type'', dget d ''source_name'', dget d ''item_uid'') of
        (PStr a, PStr b, PStr c, PStr e) \<Rightarrow>
          Inr \<lparr>lk_profile = a, lk_source_type = b, lk_source_name = c, lk_uid = e\<rparr>
      | _ \<Rightarrow> Inl (TypeError ''download_lookup''))"

definition text_field :: "pyval \<Rightarrow> string option" where
  "text_field v = (case v of PNone \<Rightarrow> None | _ \<Rightarrow> Some (py_str v))"

definition int_field :: "pyval \<Rightarrow> error + int option" where
  "int_field v = (case v of PNone \<Rightarrow> Inr None
     | _ \<Rightarrow> (case py_int_val v of None \<Rightarrow> Inl (int_error v) | Some n \<Rightarrow> Inr (Some n)))"

definition time_field :: "pyval \<Rightarrow> error + time" where
  "time_field v = (case v of
       PStr s \<Rightarrow> (case iso_parse s of None \<Rightarrow> Inl (ValueError s) | Some t \<Rightarrow> Inr t)
     | _ \<Rightarrow> Inl (TypeError (py_str v)))"

definition status_field :: "pyval \<Rightarrow> error + download_status" where
  "status_field v =
     (case List.find (\<lambda>st. PStr (download_status_value st) = v) [DOWNLOADED, FILTERED, MISSING, RETENTION_DELETED] of
        None \<Rightarrow> Inl (ValueError (py_str v)) | Some st \<Rightarrow> Inr st)"

definition set_download_field :: "string \<Rightarrow> pyval \<Rightarrow> download \<Rightarrow> error + download" where
  "set_download_field k v r =
     (if k = ''source_url'' then Inr (r\<lparr>dl_source_url := text_field v\<rparr>)
      else if k = ''item_id'' then Inr (r\<lparr>dl_item_id := text_field v\<rparr>)
      else if k = ''item_url'' then Inr (r\<lparr>dl_item_url := text_field v\<rparr>)
      else if k = ''media_url'' then Inr (r\<lparr>dl_media_url := text_field v\<rparr>)
      else if k = ''title'' then Inr (r\<lparr>dl_title := text_field v\<rparr>)
      else if k = ''description'' then Inr (r\<lparr>dl_description := text_field v\<rparr>)
      else if k = ''uploader'' then Inr (r\<lparr>dl_uploader := text_field v\<rparr>)
      else if k = ''channel'' then Inr (r\<lparr>dl_channel := text_field v\<rparr>)
      else if k = ''upload_date'' then Inr (r\<lparr>dl_upload_date := text_field v\<rparr>)
      else if k = ''duration_seconds'' then bind_result (int_field v) (\<lambda>n. Inr (r\<lparr>dl_duration_seconds := n\<rparr>))
      else if k = ''file_path'' then Inr (r\<lparr>dl_file_path := text_field v\<rparr>)
      else if k = ''file_path_relative'' then Inr (r\<lparr>dl_file_path_relative := text_field v\<rparr>)
      else if k = ''file_ext'' then Inr (r\<lparr>dl_file_ext := text_field v\<rparr>)
      else if k = ''file_size_bytes'' then bind_result (int_field v) (\<lambda>n. Inr (r\<lparr>dl_file_size_bytes := n\<rparr>))
      else if k = ''subtitle_path'' then Inr (r\<lparr>dl_subtitle_path := text_field v\<rparr>)
      else if k = ''subtitle_path_relative'' then Inr (r\<lparr>dl_subtitle_path_relative := text_field v\<rparr>)
      else if k = ''download_status'' then bind_result (status_field v) (\<lambda>st. Inr (r\<lparr>dl_status := st\<rparr>))
      else if k = ''completed_at'' then bind_result (time_field v) (\<lambda>t. Inr (r\<lparr>dl_completed_at := Some t\<rparr>))
      else if k = ''last_seen_at'' then bind_result (time_field v) (\<lambda>t. Inr (r\<lparr>dl_last_seen_at := t\<rparr>))
      else Inl (TypeError k))"

fun apply_defaults :: "pydict \<Rightarrow> download \<Rightarrow> error + download" where
  "apply_defaults [] r = Inr r"
| "apply_defaults ((k, v) # kvs) r = bind_result (set_download_field k v r) (apply_defaults kvs)"

text \<open>\<open>Download.objects.update_or_create(**lookup, defaults=\<dots>)\<close>\<close>

definition upsert_download ::
    "time \<Rightarrow> download_lookup \<Rightarrow> pydict \<Rightarrow> database \<Rightarrow> error + download \<times> database" where
  "upsert_download now l defaults d =
     (case filter (lookup_matches l) (downloads d) of
        [] \<Rightarrow> bind_result (apply_defaults defaults ((blank_download now (lk_profile l) (lk_uid l) d)
                 \<lparr>dl_source_type := lk_source_type l, dl_source_name := lk_source_name l\<rparr>)) (\<lambda>r.
               Inr (r, d\<lparr>downloads := downloads d @ [r], next_download_id := next_download_id d + 1\<rparr>))
      | [r] \<Rightarrow> bind_result (apply_defaults defaults r) (\<lambda>r'.
               Inr (r', update_downloads_where (\<lambda>x. dl_id x = dl_id r) (\<lambda>_. r') d))
      | _ \<Rightarrow> Inl (MultipleRows (lk_uid l)))"

definition relative_text :: "path \<Rightarrow> path \<Rightarrow> string option" where
  "relative_text p base = map_option path_str (relative_to p base)"

section \<open>Fetching a file through the API\<close>

text \<open>\<open>urllib.parse.quote(s, safe="")\<close>: the bytes of the UTF-8 text, escaped unless unreserved.\<close>

definition upper_hex :: "nat \<Rightarrow> char" where
  "upper_hex n = (if n < 10 then char_of (48 + n) else char_of (55 + n))"

definition percent :: "nat \<Rightarrow> string" where
  "percent n = [CHR ''%'', upper_hex (n div 16), upper_hex (n mod 16)]"

definition quote_char :: "char \<Rightarrow> string" where
  "quote_char c = (let n = ord c in
     if (48 \<le> n \<and> n \<le> 57) \<or> (65 \<le> n \<and> n \<le> 90) \<or> (97 \<le> n \<and> n \<le> 122) \<or> c \<in> set ''_.-~'' then [c]
     else if n < 128 then percent n
     else percent (192 + n div 64) @ percent (128 + n mod 64))"

definition py_quote :: "string \<Rightarrow> string" where
  "py_quote s = concat (map quote_char s)"

record fetch_settings =
  fs_expand :: "path \<Rightarrow> path"
  fs_resolve :: "path \<Rightarrow> path"
  fs_cache_root :: path
  fs_api_url :: string
  fs_token :: string
  fs_get :: "string \<Rightarrow> error + string"

definition cache_path :: "fetch_settings \<Rightarrow> download \<Rightarrow> path" where
  "cache_path env r =
     (let name = or_else (path_name (path_of (or_else (text_of (dl_file_path r)) ''media''))) ''media'' in
      path_join (path_join (path_join (fs_cache_root env) (path_of (dl_profile_id r)))
        (path_of (str_of_int (dl_id r)))) (path_of name))"

definition media_url :: "fetch_settings \<Rightarrow> download \<Rightarrow> string" where
  "media_url env r =
     rstrip_chars (\<lambda>c. c = CHR ''/'') (fs_api_url env) @ ''/internal/worker/media/'' @ py_quote (dl_profile_id r)
       @ ''/'' @ str_of_int (dl_id r)"

definition download_from_api ::
    "fetch_settings \<Rightarrow> time \<Rightarrow> download \<Rightarrow> path \<Rightarrow> media_store \<Rightarrow> (error + path) \<times> media_store" where
  "download_from_api env now r dest ms =
     (if py_strip (fs_token env) = []
      then (Inl (FileNotFound ''Worker media is not mounted and GETOFFLINE_WORKER_API_TOKEN is unset''), ms)
      else (case make_dirs (ancestors (path_parent dest)) (ms_files ms) of
          Inl e \<Rightarrow> (Inl e, ms)
        | Inr fs \<Rightarrow>
            (let ms1 = with_files (\<lambda>_. fs) ms;
                 expected = (case dl_file_size_bytes r of None \<Rightarrow> 0 | Some n \<Rightarrow> n) in
             case fs_get env (media_url env r) of
               Inl e \<Rightarrow> (Inl e, ms1)
             | Inr body \<Rightarrow>
                 if expected \<noteq> 0 \<and> int (length body) \<noteq> expected
                 then (Inl (OSError (''Worker media size mismatch: expected '' @ str_of_int expected @ '', got ''
                        @ str_of_int (int (length body)))), ms1)
                 else if fs (path_str dest) = Some Directory then (Inl (OSError (path_str dest)), ms1)
                 else (Inr dest, (with_files (\<lambda>f. f(path_str dest \<mapsto> RegularFile (int (length body)))) ms1)
                        \<lparr>ms_mtime := (ms_mtime ms1)(path_str dest := now)\<rparr>))))"

definition ensure_local_media ::
    "fetch_settings \<Rightarrow> time \<Rightarrow> download \<Rightarrow> path \<Rightarrow> media_store \<Rightarrow> (error + path) \<times> media_store" where
  "ensure_local_media env now r p ms =
     (let candidate = fs_expand env p; cached = cache_path env r in
      if is_file (ms_files ms) (path_str candidate) then (Inr (fs_resolve env candidate), ms)
      else if is_file (ms_files ms) (path_str cached) then (Inr cached, ms)
      else download_from_api env now r cached ms)"

section \<open>Facts\<close>

lemma with_database_simps [simp]:
  "ms_db (with_database f ms) = f (ms_db ms)"
  "ms_files (with_database f ms) = ms_files ms"
  "broker (ms_world (with_database f ms)) = broker (ms_world ms)"
  "ms_text (with_database f ms) = ms_text ms"
  by (simp_all add: with_database_def)

lemma touch_active_job_frame:
  "downloads (snd (touch_active_job now label title j d)) = downloads d"
  "transcript_segments (snd (touch_active_job now label title j d)) = transcript_segments d"
  "source_configs (snd (touch_active_job now label title j d)) = source_configs d"
  "profile_config (snd (touch_active_job now label title j d)) = profile_config d"
  by (simp_all add: touch_active_job_def Let_def update_job_def)

lemma touch_job_frame [simp]:
  "downloads (ms_db (touch_job now label title j ms)) = downloads (ms_db ms)"
  "transcript_segments (ms_db (touch_job now label title j ms)) = transcript_segments (ms_db ms)"
  "source_configs (ms_db (touch_job now label title j ms)) = source_configs (ms_db ms)"
  "profile_config (ms_db (touch_job now label title j ms)) = profile_config (ms_db ms)"
  "ms_files (touch_job now label title j ms) = ms_files ms"
  "ms_text (touch_job now label title j ms) = ms_text ms"
  "broker (ms_world (touch_job now label title j ms)) = broker (ms_world ms)"
  by (simp_all add: touch_job_def touch_active_job_frame)

lemma set_download_field_key:
  "set_download_field k v r = Inr r' \<Longrightarrow> dl_id r' = dl_id r \<and> dl_profile_id r' = dl_profile_id r
     \<and> dl_source_type r' = dl_source_type r \<and> dl_source_name r' = dl_source_name r \<and> dl_item_uid r' = dl_item_uid r
     \<and> dl_played r' = dl_played r \<and> dl_favorite r' = dl_favorite r \<and> dl_last_position r' = dl_last_position r
     \<and> dl_total_listened r' = dl_total_listened r \<and> dl_first_seen_at r' = dl_first_seen_at r"
  by (auto simp: set_download_field_def bind_result_Inr split: if_splits)

lemma apply_defaults_key:
  "apply_defaults kvs r = Inr r' \<Longrightarrow> dl_id r' = dl_id r \<and> dl_profile_id r' = dl_profile_id r
     \<and> dl_source_type r' = dl_source_type r \<and> dl_source_name r' = dl_source_name r \<and> dl_item_uid r' = dl_item_uid r
     \<and> dl_played r' = dl_played r \<and> dl_favorite r' = dl_favorite r \<and> dl_last_position r' = dl_last_position r
     \<and> dl_total_listened r' = dl_total_listened r \<and> dl_first_seen_at r' = dl_first_seen_at r"
  by (induction kvs r rule: apply_defaults.induct) (auto simp: bind_result_Inr dest!: set_download_field_key)

end
