(* ===== verification/Sdk.thy ===== *)
theory Sdk
  imports WorkerRows
begin

text \<open>
  The Python SDK of the API (\<open>src/src/packages/getoffline_sdk/\<close>): routes, form and multipart
  bodies, the HTTP and the in-process transport, and the client with one method per API task. A
  body is the list of the byte strings written, one character per byte. Django's URL resolver,
  the server and the JSON parser are arguments.
\<close>

section \<open>Routes\<close>

definition slash :: "char \<Rightarrow> bool" where
  "slash c \<longleftrightarrow> c = CHR ''/''"

definition API_ROUTE_PATHS :: "(string \<times> string) list" where
  "API_ROUTE_PATHS =
    [(''api_login'', ''/api/auth/login''),
     (''api_logout'', ''/api/auth/logout''),
     (''api_frontend_library'', ''/api/frontend/library''),
     (''api_frontend_jobs'', ''/api/frontend/jobs''),
     (''api_frontend_player'', ''/api/frontend/player/{0}''),
     (''api_frontend_settings'', ''/api/frontend/settings''),
     (''api_dashboard_active_pipeline_status'', ''/api/dashboard/active-pipeline-status''),
     (''api_dashboard_enqueue_job'', ''/api/dashboard/enqueue-job''),
     (''api_dashboard_worker_message_status'', ''/api/dashboard/worker-message-status''),
     (''api_dashboard_batch_update'', ''/api/dashboard/batch-update''),
     (''api_dashboard_transcript_search'', ''/api/dashboard/transcript-search''),
     (''api_dashboard_manual_upload'', ''/api/dashboard/manual-upload''),
     (''api_dashboard_edit_metadata'', ''/api/dashboard/edit-metadata''),
     (''api_dashboard_mark_played'', ''/api/dashboard/downloads/{0}/played''),
     (''api_dashboard_mark_unplayed'', ''/api/dashboard/downloads/{0}/unplayed''),
     (''api_dashboard_favorite'', ''/api/dashboard/downloads/{0}/favorite''),
     (''api_dashboard_unfavorite'', ''/api/dashboard/downloads/{0}/unfavorite''),
     (''api_dashboard_save_position'', ''/api/dashboard/downloads/{0}/position''),
     (''api_dashboard_delete_file'', ''/api/dashboard/downloads/{0}/delete-file''),
     (''api_settings_save_config'', ''/api/settings/save''),
     (''api_settings_add_source'', ''/api/settings/sources/add''),
     (''api_settings_save_sources'', ''/api/settings/sources/{0}/save''),
     (''api_settings_update_source'', ''/api/settings/sources/{0}/update''),
     (''api_settings_toggle_source'', ''/api/settings/sources/{0}/toggle''),
     (''api_settings_delete_source'', ''/api/settings/sources/{0}/delete''),
     (''api_stream'', ''/api/stream/{0}''),
     (''api_subtitle'', ''/api/subtitle/{0}'')]"

definition strip_slashes :: "string \<Rightarrow> string" where
  "strip_slashes s = strip_chars slash s"

text \<open>\<open>template.format(*args)\<close> for a template whose only field is \<open>{0}\<close>.\<close>

fun fill_template :: "string \<Rightarrow> string list \<Rightarrow> error + string" where
  "fill_template [] args = Inr []"
| "fill_template (c # cs) args =
     (if prefix ''{0}'' (c # cs)
      then (case args of
              [] \<Rightarrow> Inl (IndexError ''Replacement index 0 out of range for positional args tuple'')
            | a # _ \<Rightarrow> bind_result (fill_template (drop 2 cs) args) (\<lambda>r. Inr (a @ r)))
      else bind_result (fill_template cs args) (\<lambda>r. Inr (c # r)))"

text \<open>\<open>reverse_url\<close> is Django's \<open>reverse\<close>, \<open>None\<close> when it finds no route.\<close>

type_synonym url_resolver = "string \<Rightarrow> pyval list \<Rightarrow> string option"

definition reverse_route :: "url_resolver \<Rightarrow> string \<Rightarrow> pyval list \<Rightarrow> error + string" where
  "reverse_route reverse_url target args =
     (case reverse_url target args of
        Some url \<Rightarrow> Inr url
      | None \<Rightarrow> (case map_of API_ROUTE_PATHS target of
            None \<Rightarrow> Inl (NoReverseMatch target)
          | Some template \<Rightarrow> fill_template template (map (strip_slashes \<circ> py_str) args)))"

definition api_path :: "url_resolver \<Rightarrow> string \<Rightarrow> pyval list \<Rightarrow> error + string" where
  "api_path reverse_url target args =
     (if prefix ''/'' target
      then let suffix = join_with ''/'' (map (strip_slashes \<circ> py_str) args);
               p = (if suffix = [] then target else rstrip_chars slash target @ ''/'' @ suffix)
           in Inr (if prefix ''/'' p then p else ''/'' @ p)
      else map_sum id (remove_prefix ''/api'') (reverse_route reverse_url target args))"

definition django_path :: "url_resolver \<Rightarrow> string \<Rightarrow> pyval list \<Rightarrow> string \<Rightarrow> error + string" where
  "django_path reverse_url target args api_prefix =
     (if prefix ''/'' target then map_sum id (\<lambda>p. api_prefix @ p) (api_path reverse_url target args)
      else reverse_route reverse_url target args)"

section \<open>Bodies\<close>

text \<open>
  The attributes the code reads of an uploaded file; an absent attribute is \<open>None\<close>. The values of a
  form are files or plain values, alone or in a list.
\<close>

record sdk_upload =
  su_name :: "pyval option"
  su_content_type :: "pyval option"
  su_size :: "pyval option"
  su_chunks :: "string list"

datatype form_value = Upload sdk_upload | Plain pyval

datatype form_field = Single form_value | Multi "form_value list"

type_synonym form_data = "(string \<times> form_field) list"

fun field_values :: "form_field \<Rightarrow> form_value list" where
  "field_values (Multi vs) = vs"
| "field_values (Single (Plain (PList xs))) = map Plain xs"
| "field_values (Single v) = [v]"

definition iter_fields :: "form_data \<Rightarrow> (string \<times> form_value) list" where
  "iter_fields data = concat (map (\<lambda>(k, f). map (\<lambda>v. (k, v)) (field_values f)) data)"

fun is_upload :: "form_value \<Rightarrow> bool" where
  "is_upload (Upload _) = True"
| "is_upload (Plain _) = False"

definition contains_upload :: "form_data \<Rightarrow> bool" where
  "contains_upload data \<longleftrightarrow> list_ex (\<lambda>(_, v). is_upload v) (iter_fields data)"

text \<open>\<open>text.encode()\<close>: the UTF-8 bytes.\<close>

definition utf8_char :: "char \<Rightarrow> string" where
  "utf8_char c = (let n = ord c in
     if n < 128 then [c] else [char_of (192 + n div 64), char_of (128 + n mod 64)])"

definition utf8 :: "string \<Rightarrow> string" where
  "utf8 s = concat (map utf8_char s)"

text \<open>\<open>urllib.parse.quote_plus\<close> and \<open>urlencode(query, doseq=True)\<close>.\<close>

definition plus_char :: "char \<Rightarrow> string" where
  "plus_char c = (if c = CHR '' '' then ''+'' else quote_char c)"

definition quote_plus :: "string \<Rightarrow> string" where
  "quote_plus s = concat (map plus_char s)"

fun doseq :: "pyval \<Rightarrow> string list" where
  "doseq (PList xs) = map py_str xs"
| "doseq (PDict d) = map fst d"
| "doseq v = [py_str v]"

definition urlencode_pairs :: "(string \<times> string) list \<Rightarrow> string" where
  "urlencode_pairs ps = join_with ''&'' (map (\<lambda>(k, v). quote_plus k @ ''='' @ quote_plus v) ps)"

definition urlencode :: "pydict \<Rightarrow> string" where
  "urlencode d = urlencode_pairs (concat (map (\<lambda>(k, v). map (\<lambda>t. (k, t)) (doseq v)) d))"

fun plain_value :: "form_value \<Rightarrow> pyval" where
  "plain_value (Plain v) = v"
| "plain_value (Upload _) = PNone"

fun plain_field :: "form_field \<Rightarrow> pyval" where
  "plain_field (Single v) = plain_value v"
| "plain_field (Multi vs) = PList (map plain_value vs)"

definition crlf :: string where
  "crlf = [CHR 0x0D, CHR 0x0A]"

definition dquote :: string where
  "dquote = [CHR 0x22]"

definition part_start :: "string \<Rightarrow> string" where
  "part_start boundary = ''--'' @ boundary @ crlf"

definition upload_name :: "sdk_upload \<Rightarrow> string" where
  "upload_name u = (case su_name u of None \<Rightarrow> ''upload'' | Some v \<Rightarrow> py_str v)"

definition upload_type :: "sdk_upload \<Rightarrow> string" where
  "upload_type u = py_str (py_or (case su_content_type u of None \<Rightarrow> PNone | Some v \<Rightarrow> v)
     (PStr ''application/octet-stream''))"

definition upload_header :: "string \<Rightarrow> sdk_upload \<Rightarrow> string" where
  "upload_header key u =
     ''Content-Disposition: form-data; name='' @ dquote @ key @ dquote @ ''; filename='' @ dquote @ upload_name u
       @ dquote @ crlf @ ''Content-Type: '' @ upload_type u @ crlf @ crlf"

definition value_header :: "string \<Rightarrow> string" where
  "value_header key = ''Content-Disposition: form-data; name='' @ dquote @ key @ dquote @ crlf @ crlf"

fun multipart_part :: "string \<Rightarrow> string \<times> form_value \<Rightarrow> string list" where
  "multipart_part boundary (key, Upload u) =
     [utf8 (part_start boundary), utf8 (upload_header key u)] @ su_chunks u @ [crlf]"
| "multipart_part boundary (key, Plain v) =
     [utf8 (part_start boundary), utf8 (value_header key), utf8 (py_str v), crlf]"

definition multipart_body :: "form_data \<Rightarrow> string \<Rightarrow> string list" where
  "multipart_body data boundary =
     concat (map (multipart_part boundary) (iter_fields data)) @ [utf8 (''--'' @ boundary @ ''--'' @ crlf)]"

text \<open>A size counts when it is an \<open>int\<close>, a \<open>bool\<close> included, and not negative.\<close>

fun known_size :: "pyval option \<Rightarrow> int option" where
  "known_size (Some (PInt n)) = (if n < 0 then None else Some n)"
| "known_size (Some (PBool b)) = Some (if b then 1 else 0)"
| "known_size _ = None"

definition byte_length :: "string \<Rightarrow> int" where
  "byte_length s = int (length (utf8 s))"

fun add_lengths :: "string \<Rightarrow> int \<Rightarrow> (string \<times> form_value) list \<Rightarrow> int option" where
  "add_lengths boundary so_far [] = Some (so_far + byte_length (''--'' @ boundary @ ''--'' @ crlf))"
| "add_lengths boundary so_far ((key, Upload u) # fs) =
     (case known_size (su_size u) of
        None \<Rightarrow> None
      | Some n \<Rightarrow> add_lengths boundary
          (so_far + byte_length (part_start boundary) + byte_length (upload_header key u) + (n + byte_length crlf)) fs)"
| "add_lengths boundary so_far ((key, Plain v) # fs) =
     add_lengths boundary
       (so_far + byte_length (part_start boundary) + byte_length (value_header key)
         + (byte_length (py_str v) + byte_length crlf)) fs"

definition multipart_content_length :: "form_data \<Rightarrow> string \<Rightarrow> int option" where
  "multipart_content_length data boundary = add_lengths boundary 0 (iter_fields data)"

definition sdk_boundary :: string where
  "sdk_boundary = ''----getoffline-sdk-boundary''"

datatype request_body = NoBody | Encoded string | Streamed "string list"

definition encoded_body :: "form_data option \<Rightarrow> request_body \<times> string" where
  "encoded_body data =
     (case data of
        None \<Rightarrow> (NoBody, ''application/octet-stream'')
      | Some d \<Rightarrow>
          if \<not> contains_upload d
          then (Encoded (urlencode (map (\<lambda>(k, f). (k, plain_field f)) d)), ''application/x-www-form-urlencoded'')
          else (Streamed (multipart_body d sdk_boundary), ''multipart/form-data; boundary='' @ sdk_boundary))"

section \<open>The HTTP transport\<close>

type_synonym headers = "(string \<times> string) list"

record sdk_request =
  rqs_method :: string
  rqs_target :: string
  rqs_args :: "pyval list"
  rqs_query :: "pydict option"
  rqs_data :: "form_data option"
  rqs_headers :: headers
  rqs_streaming :: bool

record sdk_response =
  rs_status :: int
  rs_content :: string
  rs_headers :: headers
  rs_cookies :: "string list"
  rs_streaming :: bool
  rs_chunks :: "string list option"

definition response_ok :: "sdk_response \<Rightarrow> bool" where
  "response_ok r \<longleftrightarrow> rs_status r < 400"

text \<open>What goes out on the wire and what a server answers: the header list may repeat a name.\<close>

record wire_request =
  wr_method :: string
  wr_url :: string
  wr_body :: request_body
  wr_headers :: headers

record wire_response =
  ws_status :: int
  ws_headers :: headers
  ws_body :: string

type_synonym server = "wire_request \<Rightarrow> error + wire_response"

text \<open>
  \<open>build_opener(_NoRedirectHandler()).open\<close>: the standard error processor passes the statuses from
  200 to 299 on and hands the others to the handlers. The redirect handler's \<open>redirect_request\<close>
  decides whether a redirect is followed; without a new request the answer is raised as an
  \<open>HTTPError\<close>, as every other status is.
\<close>

definition redirect_request :: "wire_request \<Rightarrow> wire_response \<Rightarrow> wire_request option" where
  "redirect_request req answer = None"

datatype opened = Opened wire_response | HttpError wire_response

definition open_url :: "server \<Rightarrow> wire_request \<Rightarrow> error + opened" where
  "open_url server req =
     bind_result (server req) (\<lambda>answer.
       if 200 \<le> ws_status answer \<and> ws_status answer < 300 then Inr (Opened answer)
       else if ws_status answer \<in> {301, 302, 303, 307, 308}
       then (case redirect_request req answer of
               None \<Rightarrow> Inr (HttpError answer)
             | Some again \<Rightarrow> map_sum id Opened (server again))
       else Inr (HttpError answer))"

text \<open>\<open>dict(headers.items())\<close>: the last of several values stays, at the place of the first.\<close>

definition header_dict :: "headers \<Rightarrow> headers" where
  "header_dict hs = fold (\<lambda>(k, v) d. AList.update k v d) hs []"

definition set_cookies :: "headers \<Rightarrow> string list" where
  "set_cookies hs = map snd (filter (\<lambda>h. py_lower (fst h) = ''set-cookie'') hs)"

definition stream_chunk_size :: nat where
  "stream_chunk_size = 64 * 1024"

function http_response_stream :: "string \<Rightarrow> string list" where
  "http_response_stream rest =
     (let chunk = take stream_chunk_size rest in
      if chunk = [] then [] else chunk # http_response_stream (drop stream_chunk_size rest))"
  by pat_completeness auto
termination by (relation "measure length") (auto simp: stream_chunk_size_def)

declare http_response_stream.simps [simp del]

definition http_response :: "wire_response \<Rightarrow> bool \<Rightarrow> sdk_response" where
  "http_response answer streaming =
     \<lparr>rs_status = ws_status answer, rs_content = (if streaming then [] else ws_body answer),
      rs_headers = header_dict (ws_headers answer), rs_cookies = set_cookies (ws_headers answer),
      rs_streaming = streaming, rs_chunks = (if streaming then Some (http_response_stream (ws_body answer)) else None)\<rparr>"

definition http_error_response :: "wire_response \<Rightarrow> sdk_response" where
  "http_error_response answer =
     \<lparr>rs_status = ws_status answer, rs_content = ws_body answer,
      rs_headers = header_dict (ws_headers answer), rs_cookies = set_cookies (ws_headers answer),
      rs_streaming = False, rs_chunks = None\<rparr>"

definition request_url :: "url_resolver \<Rightarrow> string \<Rightarrow> string \<Rightarrow> pyval list \<Rightarrow> pydict option \<Rightarrow> error + string" where
  "request_url reverse_url base_url target args query =
     bind_result (api_path reverse_url target args) (\<lambda>p.
       let url = base_url @ p in
       Inr (case query of None \<Rightarrow> url | Some q \<Rightarrow> if q = [] then url else url @ ''?'' @ urlencode q))"

definition request_headers :: "headers \<Rightarrow> form_data option \<Rightarrow> headers" where
  "request_headers given data =
     (case encoded_body data of (body, content_type) \<Rightarrow>
        let typed = (if body \<noteq> NoBody \<and> map_of given ''Content-Type'' = None
                     then AList.update ''Content-Type'' content_type given else given)
        in if body \<noteq> NoBody \<and> prefix ''multipart/form-data;'' content_type
              \<and> map_of typed ''Content-Length'' = None \<and> map_of typed ''Transfer-Encoding'' = None
           then (case multipart_content_length (case data of None \<Rightarrow> [] | Some d \<Rightarrow> d) sdk_boundary of
                   None \<Rightarrow> typed
                 | Some n \<Rightarrow> AList.update ''Content-Length'' (str_of_int n) typed)
           else typed)"

record http_transport =
  ht_base_url :: string
  ht_resolver :: url_resolver
  ht_server :: server

definition new_http_transport :: "url_resolver \<Rightarrow> server \<Rightarrow> string \<Rightarrow> http_transport" where
  "new_http_transport reverse_url server base_url =
     \<lparr>ht_base_url = rstrip_chars slash base_url, ht_resolver = reverse_url, ht_server = server\<rparr>"

definition http_transport_request :: "http_transport \<Rightarrow> sdk_request \<Rightarrow> error + sdk_response" where
  "http_transport_request t rq =
     bind_result (request_url (ht_resolver t) (ht_base_url t) (rqs_target rq) (rqs_args rq)
         (if py_upper (rqs_method rq) = ''GET'' then rqs_query rq else None)) (\<lambda>url.
       bind_result (open_url (ht_server t)
           \<lparr>wr_method = py_upper (rqs_method rq), wr_url = url, wr_body = fst (encoded_body (rqs_data rq)),
            wr_headers = request_headers (rqs_headers rq) (rqs_data rq)\<rparr>) (\<lambda>out.
         Inr (case out of
                Opened answer \<Rightarrow> http_response answer (rqs_streaming rq)
              | HttpError answer \<Rightarrow> http_error_response answer)))"

section \<open>The in-process transport\<close>

definition dash_to_underscore :: "string \<Rightarrow> string" where
  "dash_to_underscore s = map (\<lambda>c. if c = CHR ''-'' then CHR ''_'' else c) s"

definition django_header :: "string \<times> string \<Rightarrow> headers \<Rightarrow> headers" where
  "django_header h d = (case h of (key, value) \<Rightarrow>
     if py_lower key = ''content-type'' then AList.update ''content_type'' value d
     else if py_lower key = ''range'' then AList.update ''HTTP_RANGE'' value d
     else AList.update (''HTTP_'' @ dash_to_underscore (py_upper key)) value d)"

definition django_headers :: "headers \<Rightarrow> headers" where
  "django_headers hs = fold django_header hs []"

text \<open>
  The calls of Django's test client, with an empty dictionary for missing data, and what the code
  reads of its answer.
\<close>

datatype client_call =
    ClientPost string form_data headers
  | ClientGet string pydict headers

record django_response =
  dr_status :: int
  dr_streaming_content :: "string list option"
  dr_content :: string
  dr_headers :: headers
  dr_cookies :: "string list"
  dr_streaming :: bool

definition django_response_content :: "django_response \<Rightarrow> string" where
  "django_response_content r = (case dr_streaming_content r of Some cs \<Rightarrow> concat cs | None \<Rightarrow> dr_content r)"

definition option_or_empty :: "'a list option \<Rightarrow> 'a list" where
  "option_or_empty x = (case x of None \<Rightarrow> [] | Some xs \<Rightarrow> xs)"

definition django_request ::
    "url_resolver \<Rightarrow> (client_call \<Rightarrow> error + django_response) \<Rightarrow> string \<Rightarrow> sdk_request \<Rightarrow> error + sdk_response" where
  "django_request reverse_url client api_prefix rq =
     bind_result (django_path reverse_url (rqs_target rq) (rqs_args rq) (rstrip_chars slash api_prefix)) (\<lambda>p.
       bind_result (client
           (if py_upper (rqs_method rq) = ''POST''
            then ClientPost p (option_or_empty (rqs_data rq)) (django_headers (rqs_headers rq))
            else ClientGet p (option_or_empty (rqs_query rq)) (django_headers (rqs_headers rq)))) (\<lambda>r.
         Inr \<lparr>rs_status = dr_status r, rs_content = django_response_content r,
              rs_headers = header_dict (dr_headers r), rs_cookies = dr_cookies r,
              rs_streaming = dr_streaming r, rs_chunks = None\<rparr>))"

section \<open>The client\<close>

text \<open>
  A client is its transport. \<open>loads\<close> is \<open>json.loads(content.decode("utf-8"))\<close>.
\<close>

type_synonym transport = "sdk_request \<Rightarrow> error + sdk_response"

record sdk_client =
  cl_transport :: transport
  cl_loads :: "string \<Rightarrow> error + pyval"

definition sdk_api_request :: "string \<Rightarrow> string \<Rightarrow> pyval list \<Rightarrow> pydict option \<Rightarrow> form_data option \<Rightarrow> sdk_request" where
  "sdk_api_request verb target args query data =
     \<lparr>rqs_method = verb, rqs_target = target, rqs_args = args, rqs_query = query, rqs_data = data,
      rqs_headers = [], rqs_streaming = False\<rparr>"

definition raw_request :: "sdk_client \<Rightarrow> sdk_request \<Rightarrow> error + sdk_response" where
  "raw_request c rq = cl_transport c rq"

definition json_request :: "sdk_client \<Rightarrow> sdk_request \<Rightarrow> error + pydict" where
  "json_request c rq =
     bind_result (raw_request c (rq\<lparr>rqs_streaming := False\<rparr>)) (\<lambda>r.
       if 400 \<le> rs_status r then Inr []
       else bind_result (cl_loads c (rs_content r)) (\<lambda>v. Inr (as_dict v)))"

definition api_get :: "sdk_client \<Rightarrow> string \<Rightarrow> pyval list \<Rightarrow> pydict option \<Rightarrow> error + pydict" where
  "api_get c target args query = json_request c (sdk_api_request ''GET'' target args query None)"

definition api_post :: "sdk_client \<Rightarrow> string \<Rightarrow> pydict \<Rightarrow> error + pydict" where
  "api_post c target data =
     json_request c (sdk_api_request ''POST'' target [] None (Some (map (\<lambda>(k, v). (k, Single (Plain v))) data)))"

definition client_frontend_library :: "sdk_client \<Rightarrow> string \<Rightarrow> error + pydict" where
  "client_frontend_library c filter_mode =
     api_get c ''/frontend/library'' [] (Some [(''filter'', PStr filter_mode)])"

definition client_frontend_jobs :: "sdk_client \<Rightarrow> error + pydict" where
  "client_frontend_jobs c = api_get c ''/frontend/jobs'' [] None"

definition client_frontend_player :: "sdk_client \<Rightarrow> int \<Rightarrow> string \<Rightarrow> error + pydict" where
  "client_frontend_player c episode_id start_seconds =
     api_get c ''/frontend/player'' [PInt episode_id] (Some [(''t'', PStr start_seconds)])"

definition client_search :: "sdk_client \<Rightarrow> string \<Rightarrow> error + pydict" where
  "client_search c query = api_get c ''/search'' [] (Some [(''q'', PStr query)])"

definition client_library :: "sdk_client \<Rightarrow> string \<Rightarrow> error + pydict" where
  "client_library c filter_mode = api_get c ''/library'' [] (Some [(''filter'', PStr filter_mode)])"

definition client_history :: "sdk_client \<Rightarrow> error + pydict" where
  "client_history c = api_get c ''/history'' [] None"

definition client_user :: "sdk_client \<Rightarrow> error + pydict" where
  "client_user c = api_get c ''/user'' [] None"

definition client_csrf :: "sdk_client \<Rightarrow> error + pydict" where
  "client_csrf c = api_get c ''/csrf'' [] None"

definition client_download :: "sdk_client \<Rightarrow> string \<Rightarrow> pydict \<Rightarrow> error + pydict" where
  "client_download c url options = api_post c ''/download'' (fold (\<lambda>(k, v) d. AList.update k v d) options [(''url'', PStr url)])"

definition client_playback_start :: "sdk_client \<Rightarrow> int \<Rightarrow> error + pydict" where
  "client_playback_start c episode_id = api_post c ''/playback/start'' [(''episode_id'', PInt episode_id)]"

definition client_playback_progress :: "sdk_client \<Rightarrow> int \<Rightarrow> string \<Rightarrow> string \<Rightarrow> error + pydict" where
  "client_playback_progress c episode_id position reason =
     api_post c ''/playback/progress''
       [(''episode_id'', PInt episode_id), (''position_seconds'', PFloat position), (''reason'', PStr reason)]"

definition client_playback_complete :: "sdk_client \<Rightarrow> int \<Rightarrow> string \<Rightarrow> error + pydict" where
  "client_playback_complete c episode_id position =
     api_post c ''/playback/complete'' [(''episode_id'', PInt episode_id), (''position_seconds'', PFloat position)]"

section \<open>Lengths\<close>

lemma utf8_simps [simp]: "utf8 [] = []" "utf8 (c # s) = utf8_char c @ utf8 s" "utf8 (s @ t) = utf8 s @ utf8 t"
  by (simp_all add: utf8_def)

lemma utf8_crlf [simp]: "utf8 crlf = crlf"
  by (simp add: crlf_def utf8_char_def)

text \<open>Every upload knows the size of what its chunks hold.\<close>

definition sizes_true :: "form_data \<Rightarrow> bool" where
  "sizes_true data \<longleftrightarrow> list_all (\<lambda>(_, v). case v of
     Upload u \<Rightarrow> known_size (su_size u) = Some (int (length (concat (su_chunks u)))) | Plain _ \<Rightarrow> True) (iter_fields data)"

lemma add_lengths_exact:
  "list_all (\<lambda>(_, v). case v of
     Upload u \<Rightarrow> known_size (su_size u) = Some (int (length (concat (su_chunks u)))) | Plain _ \<Rightarrow> True) fs
   \<Longrightarrow> add_lengths b n fs = Some (n + int (length (concat (concat (map (multipart_part b) fs))))
        + byte_length (''--'' @ b @ ''--'' @ crlf))"
  by (induction b n fs rule: add_lengths.induct) (simp_all add: byte_length_def)

lemma multipart_length:
  assumes "sizes_true data"
  shows "multipart_content_length data b = Some (int (length (concat (multipart_body data b))))"
  using add_lengths_exact [OF assms [unfolded sizes_true_def]]
  by (simp add: multipart_content_length_def multipart_body_def byte_length_def)

text \<open>C20: A multipart request announces exactly the bytes it sends: when every uploaded file states its
  size truthfully and the caller sets neither header, the \<open>Content-Length\<close> is the number of bytes of
  the body that goes out, whatever the fields, their order and their characters.\<close>

theorem content_length_exact:
  assumes "contains_upload d" and "sizes_true d"
    and "map_of given ''Content-Length'' = None" and "map_of given ''Transfer-Encoding'' = None"
  shows "\<exists>chunks. fst (encoded_body (Some d)) = Streamed chunks
    \<and> map_of (request_headers given (Some d)) ''Content-Length'' = Some (str_of_int (int (length (concat chunks))))"
  using assms multipart_length [OF assms(2)]
  by (simp add: encoded_body_def request_headers_def Let_def)

definition sample_upload :: form_data where
  "sample_upload =
     [(''title'', Single (Plain (PStr [CHR 0xE9]))),
      (''media_files'', Multi
        [Upload \<lparr>su_name = Some (PStr ''a.mp3''), su_content_type = None, su_size = Some (PInt 5), su_chunks = [''abc'', ''de'']\<rparr>,
         Upload \<lparr>su_name = None, su_content_type = Some (PStr ''audio/mpeg''), su_size = Some (PInt 0), su_chunks = []\<rparr>])]"

theorem content_length_exact_witness:
  "\<exists>chunks. fst (encoded_body (Some sample_upload)) = Streamed chunks
    \<and> map_of (request_headers [] (Some sample_upload)) ''Content-Length'' = Some (str_of_int (int (length (concat chunks))))"
proof (rule content_length_exact)
  show "contains_upload sample_upload" by (simp add: sample_upload_def contains_upload_def iter_fields_def)
  show "sizes_true sample_upload" by (simp add: sample_upload_def sizes_true_def iter_fields_def)
qed simp_all

section \<open>Answers\<close>

lemma concat_response_stream [simp]: "concat (http_response_stream b) = b"
proof (induction b rule: http_response_stream.induct)
  case (1 b)
  then show ?case
    by (subst http_response_stream.simps) (cases b, auto simp: stream_chunk_size_def Let_def)
qed

lemma response_stream_bounds: "c \<in> set (http_response_stream b) \<Longrightarrow> c \<noteq> [] \<and> length c \<le> stream_chunk_size"
proof (induction b rule: http_response_stream.induct)
  case (1 b)
  then show ?case by (subst (asm) (2) http_response_stream.simps) (auto simp: Let_def split: if_splits)
qed

lemma open_url_answers:
  "server req = Inr answer \<Longrightarrow>
     open_url server req = Inr (if 200 \<le> ws_status answer \<and> ws_status answer < 300 then Opened answer else HttpError answer)"
  by (auto simp: open_url_def redirect_request_def)

text \<open>The HTTP transport hands every answer on as the server gave it: an error status is a
  response and no exception, a redirect is not followed but returned with its headers, and a streamed
  body arrives complete, in non-empty chunks of at most 64 KiB.\<close>

theorem http_request_faithful:
  assumes "request_url (ht_resolver t) (ht_base_url t) (rqs_target rq) (rqs_args rq)
      (if py_upper (rqs_method rq) = ''GET'' then rqs_query rq else None) = Inr url"
    and "ht_server t \<lparr>wr_method = py_upper (rqs_method rq), wr_url = url, wr_body = fst (encoded_body (rqs_data rq)),
            wr_headers = request_headers (rqs_headers rq) (rqs_data rq)\<rparr> = Inr answer"
  shows "\<exists>r. http_transport_request t rq = Inr r \<and> rs_status r = ws_status answer
    \<and> rs_headers r = header_dict (ws_headers answer) \<and> rs_cookies r = set_cookies (ws_headers answer)
    \<and> rs_content r @ concat (option_or_empty (rs_chunks r)) = ws_body answer
    \<and> list_all (\<lambda>c. c \<noteq> [] \<and> length c \<le> stream_chunk_size) (option_or_empty (rs_chunks r))
    \<and> (rs_streaming r \<longleftrightarrow> rqs_streaming rq \<and> 200 \<le> ws_status answer \<and> ws_status answer < 300)"
  using response_stream_bounds
  by (auto simp: http_transport_request_def assms(1) open_url_answers [of "ht_server t", OF assms(2)] http_response_def http_error_response_def
      option_or_empty_def list_all_iff)

definition moved_server :: server where
  "moved_server r = Inr \<lparr>ws_status = 302, ws_headers = [(''Location'', ''/login'')], ws_body = ''see there''\<rparr>"

theorem http_request_faithful_witness:
  "\<exists>r. http_transport_request (new_http_transport (\<lambda>_ _. None) moved_server ''http://api/api/'') (sdk_api_request ''get'' ''api_stream'' [PInt 5] None None)
       = Inr r \<and> rs_status r = 302 \<and> map_of (rs_headers r) ''Location'' = Some ''/login'' \<and> rs_content r = ''see there''"
proof -
  let ?t = "new_http_transport (\<lambda>_ _. None) moved_server ''http://api/api/''"
  let ?rq = "sdk_api_request ''get'' ''api_stream'' [PInt 5] None None"
  have m: "py_upper (rqs_method ?rq) = ''GET''" by code_simp
  have u: "request_url (ht_resolver ?t) (ht_base_url ?t) (rqs_target ?rq) (rqs_args ?rq)
      (if py_upper (rqs_method ?rq) = ''GET'' then rqs_query ?rq else None) = Inr ''http://api/api/stream/5''"
    unfolding m by code_simp
  have a: "ht_server ?t \<lparr>wr_method = py_upper (rqs_method ?rq), wr_url = ''http://api/api/stream/5'',
      wr_body = fst (encoded_body (rqs_data ?rq)), wr_headers = request_headers (rqs_headers ?rq) (rqs_data ?rq)\<rparr>
    = Inr \<lparr>ws_status = 302, ws_headers = [(''Location'', ''/login'')], ws_body = ''see there''\<rparr>"
    by (simp add: new_http_transport_def moved_server_def)
  obtain r where r: "http_transport_request ?t ?rq = Inr r" "rs_status r = 302" "rs_headers r = header_dict [(''Location'', ''/login'')]"
      "rs_content r @ concat (option_or_empty (rs_chunks r)) = ''see there''" "\<not> rs_streaming r"
    using http_request_faithful [OF u a] by (auto simp: sdk_api_request_def)
  have "rs_chunks r = None"
    using r(1) by (auto simp: http_transport_request_def u open_url_answers [of "ht_server (new_http_transport (\<lambda>_ _. None) moved_server ''http://api/api/'')", OF a] http_error_response_def)
  then show ?thesis using r by (auto simp: option_or_empty_def header_dict_def)
qed

section \<open>One address for both transports\<close>

lemma fill_template_prefix:
  "CHR 0x7B \<notin> set p \<Longrightarrow> fill_template (p @ t) args = map_sum id (\<lambda>r. p @ r) (fill_template t args)"
proof (induction p)
  case Nil
  show ?case by (cases "fill_template t args") simp_all
next
  case (Cons c p)
  then show ?case by (cases "fill_template t args") auto
qed

lemma api_routes_prefixed: "map_of API_ROUTE_PATHS target = Some template \<Longrightarrow> prefix ''/api'' template"
proof -
  assume "map_of API_ROUTE_PATHS target = Some template"
  then have "(target, template) \<in> set API_ROUTE_PATHS" by (rule map_of_SomeD)
  moreover have "list_all (\<lambda>r. prefix ''/api'' (snd r)) API_ROUTE_PATHS" by code_simp
  ultimately show ?thesis by (auto simp: list_all_iff)
qed

lemma reverse_route_prefixed:
  assumes "\<And>u. reverse_url target args = Some u \<Longrightarrow> prefix ''/api'' u" and "reverse_route reverse_url target args = Inr p"
  shows "prefix ''/api'' p"
proof (cases "reverse_url target args")
  case None
  then obtain template where t: "map_of API_ROUTE_PATHS target = Some template"
      and f: "fill_template template (map (strip_slashes \<circ> py_str) args) = Inr p"
    using assms(2) by (auto simp: reverse_route_def split: option.splits)
  obtain r where "template = ''/api'' @ r" using api_routes_prefixed [OF t] by (auto elim: prefixE)
  then show ?thesis
    using f fill_template_prefix [of "''/api''" r "map (strip_slashes \<circ> py_str) args"]
    by (cases "fill_template r (map (strip_slashes \<circ> py_str) args)") auto
qed (use assms in \<open>auto simp: reverse_route_def\<close>)

text \<open>C29: The two transports address the same resource: for every target, route name or path, and
  every argument list, the URL requested over HTTP from \<open>host/api\<close> is the host followed by the path
  the in-process transport asks for under the prefix \<open>/api\<close>, and the two fail alike. Named routes of
  the resolver must lie under \<open>/api\<close>; those of the built-in table do.\<close>

theorem transports_agree:
  assumes "\<And>u. reverse_url target args = Some u \<Longrightarrow> prefix ''/api'' u"
  shows "request_url reverse_url (host @ ''/api'') target args None
    = map_sum id (\<lambda>p. host @ p) (django_path reverse_url target args ''/api'')"
proof (cases "prefix ''/'' target")
  case True
  then show ?thesis by (simp add: request_url_def django_path_def api_path_def Let_def)
next
  case False
  show ?thesis
  proof (cases "reverse_route reverse_url target args")
    case (Inr p)
    then obtain r where "p = ''/api'' @ r"
      using reverse_route_prefixed [OF assms Inr] by (auto elim: prefixE)
    then show ?thesis using False Inr by (simp add: request_url_def django_path_def api_path_def remove_prefix_def)
  qed (simp add: request_url_def django_path_def api_path_def False)
qed

theorem transports_agree_witness:
  "request_url (\<lambda>_ _. None) (''http://api'' @ ''/api'') ''api_dashboard_favorite'' [PInt 7] None
    = map_sum id (\<lambda>p. ''http://api'' @ p) (django_path (\<lambda>_ _. None) ''api_dashboard_favorite'' [PInt 7] ''/api'')"
  by (rule transports_agree) simp

section \<open>Form bodies can be read back\<close>

definition hex_value :: "char \<Rightarrow> nat" where
  "hex_value c = (if ord c < 58 then ord c - 48 else ord c - 55)"

fun unplus :: "string \<Rightarrow> string" where
  "unplus [] = []"
| "unplus (c # cs) =
     (if c = CHR ''+'' then CHR '' '' # unplus cs
      else if c = CHR ''%'' then (case cs of a # b # r \<Rightarrow> char_of (16 * hex_value a + hex_value b) # unplus r | _ \<Rightarrow> [])
      else c # unplus cs)"

fun utf8_decode :: "string \<Rightarrow> string" where
  "utf8_decode [] = []"
| "utf8_decode (c # cs) =
     (if ord c < 128 then c # utf8_decode cs
      else (case cs of d # r \<Rightarrow> char_of (64 * (ord c - 192) + (ord d - 128)) # utf8_decode r | _ \<Rightarrow> []))"

lemma hex_value_upper [simp]: "n < 16 \<Longrightarrow> hex_value (upper_hex n) = n"
  by (simp add: hex_value_def upper_hex_def)

lemma unplus_percent: "n < 256 \<Longrightarrow> unplus (percent n @ r) = char_of n # unplus r"
  by (simp add: percent_def)

lemma utf8_bytes:
  "192 + ord c div 64 < (256 :: nat)" "128 + ord c mod 64 < (256 :: nat)" "64 * (ord c div 64) + ord c mod 64 = (ord c :: nat)"
proof -
  have "ord c < (256 :: nat)" by (rule ord_less)
  then have "ord c div 64 < (4 :: nat)" by (simp add: less_mult_imp_div_less)
  then show "192 + ord c div 64 < (256 :: nat)" by simp
  show "128 + ord c mod 64 < (256 :: nat)" using mod_less_divisor [of 64 "ord c :: nat"] by linarith
  show "64 * (ord c div 64) + ord c mod 64 = (ord c :: nat)" by (rule mult_div_mod_eq)
qed

lemma plus_char_cases:
  obtains "c = CHR '' ''" "plus_char c = ''+''"
  | "ord c < (128 :: nat)" "plus_char c = [c]" "c \<notin> set ''+%&=''"
  | "ord c < (128 :: nat)" "plus_char c = percent (ord c)"
  | "\<not> ord c < (128 :: nat)" "plus_char c = percent (192 + ord c div 64) @ percent (128 + ord c mod 64)"
proof -
  let ?safe = "(48 \<le> ord c \<and> ord c \<le> (57 :: nat)) \<or> (65 \<le> ord c \<and> ord c \<le> (90 :: nat))
    \<or> (97 \<le> ord c \<and> ord c \<le> (122 :: nat)) \<or> c \<in> set ''_.-~''"
  have q: "quote_char c = (if ?safe then [c] else if ord c < (128 :: nat) then percent (ord c)
      else percent (192 + ord c div 64) @ percent (128 + ord c mod 64))"
    unfolding quote_char_def Let_def by (rule refl)
  consider "c = CHR '' ''" | "c \<noteq> CHR '' ''" ?safe | "c \<noteq> CHR '' ''" "\<not> ?safe" "ord c < (128 :: nat)"
    | "c \<noteq> CHR '' ''" "\<not> ?safe" "\<not> ord c < (128 :: nat)" by blast
  then show thesis
  proof cases
    case 1
    then show thesis using that(1) by (simp add: plus_char_def)
  next
    case 2
    then have "ord c < (128 :: nat)" "c \<notin> set ''+%&=''" by auto
    moreover have "plus_char c = [c]" unfolding plus_char_def q if_P [OF 2(2)] if_not_P [OF 2(1)] by (rule refl)
    ultimately show thesis using that(2) by blast
  next
    case 3
    have "plus_char c = percent (ord c)"
      unfolding plus_char_def q if_not_P [OF 3(1)] if_not_P [OF 3(2)] if_P [OF 3(3)] by (rule refl)
    then show thesis using that(3) 3(3) by blast
  next
    case 4
    have "plus_char c = percent (192 + ord c div 64) @ percent (128 + ord c mod 64)"
      unfolding plus_char_def q if_not_P [OF 4(1)] if_not_P [OF 4(2)] if_not_P [OF 4(3)] by (rule refl)
    then show thesis using that(4) 4(3) by blast
  qed
qed

lemma unplus_plus_char: "unplus (plus_char c @ r) = utf8_char c @ unplus r"
  by (cases c rule: plus_char_cases) (simp_all add: utf8_char_def Let_def unplus_percent utf8_bytes)

lemma utf8_decode_char: "utf8_decode (utf8_char c @ r) = c # utf8_decode r"
proof (cases "ord c < (128 :: nat)")
  case False
  have "ord (char_of (192 + ord c div 64 :: nat)) = (192 + ord c div 64 :: nat)"
    "ord (char_of (128 + ord c mod 64 :: nat)) = (128 + ord c mod 64 :: nat)"
    by (simp_all only: char_of_mod_256 of_char_of mod_less utf8_bytes)
  then show ?thesis using False utf8_bytes(3) [of c] by (simp add: utf8_char_def Let_def)
qed (simp add: utf8_char_def)

lemma utf8_decode_utf8 [simp]: "utf8_decode (utf8 s) = s"
  by (induction s) (simp_all add: utf8_decode_char)

lemma unplus_quote_plus: "unplus (quote_plus s) = utf8 s"
  by (induction s) (simp_all add: quote_plus_def unplus_plus_char)

lemma inj_quote_plus: "quote_plus s = quote_plus t \<longleftrightarrow> s = t"
  by (metis unplus_quote_plus utf8_decode_utf8)

lemma upper_hex_chars: "n < 16 \<Longrightarrow> upper_hex n \<notin> set ''&=''"
  by (auto simp: upper_hex_def dest: arg_cong [of _ _ "ord :: char \<Rightarrow> nat"])

lemma percent_chars: "n < 256 \<Longrightarrow> x \<in> set (percent n) \<Longrightarrow> x \<notin> set ''&=''"
  using upper_hex_chars [of "n div 16"] upper_hex_chars [of "n mod 16"] by (auto simp: percent_def less_mult_imp_div_less)

lemma plus_char_chars: "x \<in> set (plus_char c) \<Longrightarrow> x \<notin> set ''&=''"
proof (cases c rule: plus_char_cases)
  case 3
  then have "ord c < (256 :: nat)" by simp
  then show "x \<in> set (plus_char c) \<Longrightarrow> x \<notin> set ''&=''" using percent_chars 3(2) by metis
next
  case 4
  show "x \<in> set (plus_char c) \<Longrightarrow> x \<notin> set ''&=''"
    using percent_chars [OF utf8_bytes(1) [of c], of x] percent_chars [OF utf8_bytes(2) [of c], of x] by (auto simp: 4(2))
qed auto

lemma quote_plus_chars: "CHR ''&'' \<notin> set (quote_plus s)" "CHR ''='' \<notin> set (quote_plus s)"
  using plus_char_chars by (force simp: quote_plus_def)+

lemma pair_text_eq:
  "quote_plus k @ ''='' @ quote_plus v = quote_plus k' @ ''='' @ quote_plus v' \<longleftrightarrow> k = k' \<and> v = v'"
proof -
  have "quote_plus k @ CHR ''='' # quote_plus v = quote_plus k' @ CHR ''='' # quote_plus v'
      \<longleftrightarrow> quote_plus k = quote_plus k' \<and> quote_plus v = quote_plus v'"
    using quote_plus_chars(2) by (intro append_Cons_eq_iff) auto
  then show ?thesis by (simp add: inj_quote_plus)
qed

text \<open>A form body determines its fields: two lists of names and values, with any characters, are
  sent as the same urlencoded text only when they are equal, so no value can pass for a
  separator or a second field.\<close>

theorem urlencode_injective: "urlencode_pairs ps = urlencode_pairs qs \<longleftrightarrow> ps = qs"
proof
  let ?f = "\<lambda>(k, v). quote_plus k @ ''='' @ quote_plus v"
  have split: "split_on CHR ''&'' (join_with ''&'' (map ?f xs)) = map ?f xs" if "xs \<noteq> []" for xs
    using that quote_plus_chars(1) by (intro split_join) auto
  have empty: "join_with ''&'' (map ?f xs) = [] \<longleftrightarrow> xs = []" for xs
    by (cases xs rule: remdups_adj.cases) auto
  assume "urlencode_pairs ps = urlencode_pairs qs"
  then have "map ?f ps = map ?f qs"
    using split [of ps] split [of qs] empty [of ps] empty [of qs] by (cases "ps = []"; cases "qs = []") (auto simp: urlencode_pairs_def)
  moreover have "inj ?f" using pair_text_eq by (auto simp: inj_def)
  ultimately show "ps = qs" by (metis inj_map_eq_map)
qed simp

text \<open>A multipart body does not determine its fields: the boundary is a constant of the code and
  values are written as they are, so one field whose value spells out a part boundary is sent as the
  very bytes of two fields.\<close>

theorem multipart_field_forged:
  "concat (multipart_body ((k1, Single (Plain (PStr (v1 @ crlf @ part_start b @ value_header k2 @ v2)))) # rest) b)
   = concat (multipart_body ((k1, Single (Plain (PStr v1))) # (k2, Single (Plain (PStr v2))) # rest) b)"
  by (simp add: multipart_body_def iter_fields_def)

end
