(* ===== verification/Auth.thy ===== *)
theory Auth
  imports Sdk
begin

text \<open>
  Who may use the API (\<open>src/src/api/auth.py\<close>, the login and the media views of \<open>src/src/api/views.py\<close>),
  and the frontend's middleware and host settings (\<open>src/src/frontend/middleware.py\<close>,
  \<open>src/src/frontend/settings.py\<close>). Django's user table, its CSRF check, its test for redirect targets
  and its parser of the Host header are arguments; so is the test for private addresses of the
  \<open>ipaddress\<close> module.
\<close>

section \<open>Base64\<close>

definition b64_char :: "nat \<Rightarrow> char" where
  "b64_char n = (if n < 26 then char_of (65 + n) else if n < 52 then char_of (71 + n)
     else if n < 62 then char_of (n - 4) else if n = 62 then CHR ''+'' else CHR ''/'')"

definition b64_value :: "char \<Rightarrow> nat option" where
  "b64_value c = (let n = ord c in
     if 65 \<le> n \<and> n \<le> 90 then Some (n - 65) else if 97 \<le> n \<and> n \<le> 122 then Some (n - 71)
     else if 48 \<le> n \<and> n \<le> 57 then Some (n + 4) else if c = CHR ''+'' then Some 62
     else if c = CHR ''/'' then Some 63 else None)"

fun b64_encode :: "string \<Rightarrow> string" where
  "b64_encode [] = []"
| "b64_encode [a] = [b64_char (ord a div 4), b64_char (ord a mod 4 * 16), CHR ''='', CHR ''='']"
| "b64_encode [a, b] =
     [b64_char (ord a div 4), b64_char (ord a mod 4 * 16 + ord b div 16), b64_char (ord b mod 16 * 4), CHR ''='']"
| "b64_encode (a # b # c # r) =
     [b64_char (ord a div 4), b64_char (ord a mod 4 * 16 + ord b div 16),
      b64_char (ord b mod 16 * 4 + ord c div 64), b64_char (ord c mod 64)] @ b64_encode r"

text \<open>\<open>b64decode(..., validate=True)\<close>; \<open>None\<close> is \<open>binascii.Error\<close>.\<close>

fun b64_decode :: "string \<Rightarrow> string option" where
  "b64_decode [] = Some []"
| "b64_decode (a # b # c # d # r) =
     (case (b64_value a, b64_value b) of
        (Some x, Some y) \<Rightarrow>
          if c = CHR ''='' then (if d = CHR ''='' \<and> r = [] then Some [char_of (x * 4 + y div 16)] else None)
          else (case b64_value c of
                  None \<Rightarrow> None
                | Some z \<Rightarrow>
                    if d = CHR ''=''
                    then (if r = [] then Some [char_of (x * 4 + y div 16), char_of (y mod 16 * 16 + z div 4)] else None)
                    else (case (b64_value d, b64_decode r) of
                            (Some w, Some t) \<Rightarrow>
                              Some ([char_of (x * 4 + y div 16), char_of (y mod 16 * 16 + z div 4), char_of (z mod 4 * 64 + w)] @ t)
                          | _ \<Rightarrow> None))
      | _ \<Rightarrow> None)"
| "b64_decode _ = None"

text \<open>
  \<open>bytes.decode("utf-8")\<close> for the texts of the model: \<open>None\<close> for bytes that are no UTF-8 and for a
  character outside Latin-1.
\<close>

fun utf8_strict :: "string \<Rightarrow> string option" where
  "utf8_strict [] = Some []"
| "utf8_strict (c # cs) =
     (if ord c < 128 then map_option ((#) c) (utf8_strict cs)
      else case cs of
          [] \<Rightarrow> None
        | d # r \<Rightarrow>
            if (ord c = 194 \<or> ord c = 195) \<and> 128 \<le> ord d \<and> ord d < 192
            then map_option ((#) (char_of (64 * (ord c - 192) + (ord d - 128)))) (utf8_strict r)
            else None)"

section \<open>Requests\<close>

record user_account =
  ua_name :: string
  ua_active :: bool

text \<open>
  A request as the views see it: the session's user, the answer Django's CSRF check would give for
  it, and header names in any case.
\<close>

record http_request =
  hr_method :: string
  hr_headers :: headers
  hr_user :: "string option"
  hr_csrf_ok :: bool

definition header_value :: "http_request \<Rightarrow> string \<Rightarrow> string" where
  "header_value rq name =
     (case List.find (\<lambda>h. py_lower (fst h) = py_lower name) (hr_headers rq) of None \<Rightarrow> [] | Some h \<Rightarrow> snd h)"

type_synonym authenticator = "string \<Rightarrow> string \<Rightarrow> user_account option"

definition is_ascii :: "string \<Rightarrow> bool" where
  "is_ascii s \<longleftrightarrow> list_all (\<lambda>c. ord c < 128) s"

section \<open>Basic authentication\<close>

text \<open>
  The request with its user when the credentials are accepted. A text that is not ASCII makes
  \<open>b64decode\<close> raise a plain \<open>ValueError\<close>, which the code does not catch.
\<close>

definition authenticate_basic :: "authenticator \<Rightarrow> http_request \<Rightarrow> error + http_request option" where
  "authenticate_basic users rq =
     (let header = header_value rq ''Authorization'' in
      if \<not> prefix ''basic '' (py_lower header) then Inr None
      else let encoded = py_strip (snd (snd (py_partition CHR '' '' header))) in
        if \<not> is_ascii encoded then Inl (ValueError ''string argument should contain only ASCII characters'')
        else (case b64_decode encoded of
            None \<Rightarrow> Inr None
          | Some bytes \<Rightarrow>
              (case utf8_strict bytes of
                 None \<Rightarrow> Inr None
               | Some decoded \<Rightarrow>
                   (case py_partition CHR '':'' decoded of (username, separator, password) \<Rightarrow>
                      if separator = [] then Inr None
                      else (case users username password of
                              None \<Rightarrow> Inr None
                            | Some u \<Rightarrow> if \<not> ua_active u then Inr None
                                        else Inr (Some (rq\<lparr>hr_user := Some (ua_name u)\<rparr>)))))))"

datatype 'a gated = Unauthorized | CsrfRefused | MethodNotAllowed | Entered 'a

definition require_method :: "string \<Rightarrow> (http_request \<Rightarrow> 'a) \<Rightarrow> http_request \<Rightarrow> 'a gated" where
  "require_method verb view rq = (if hr_method rq = verb then Entered (view rq) else MethodNotAllowed)"

definition SAFE_METHODS :: "string list" where
  "SAFE_METHODS = [''GET'', ''HEAD'', ''OPTIONS'', ''TRACE'']"

definition api_login_required ::
    "authenticator \<Rightarrow> (http_request \<Rightarrow> 'a gated) \<Rightarrow> http_request \<Rightarrow> error + 'a gated" where
  "api_login_required users view rq =
     bind_result (authenticate_basic users rq) (\<lambda>basic.
       Inr (case basic of
              Some rq' \<Rightarrow> view rq'
            | None \<Rightarrow>
                if hr_user rq = None then Unauthorized
                else if py_upper (hr_method rq) \<notin> set SAFE_METHODS \<and> \<not> hr_csrf_ok rq then CsrfRefused
                else view rq))"

definition worker_api_login_required ::
    "string \<Rightarrow> (http_request \<Rightarrow> 'a gated) \<Rightarrow> http_request \<Rightarrow> error + 'a gated" where
  "worker_api_login_required configured view rq =
     (let supplied = header_value rq ''X-GetOffline-Worker-Token'' in
      if configured = [] then Inr Unauthorized
      else if \<not> (is_ascii supplied \<and> is_ascii configured)
      then Inl (TypeError ''comparing strings with non-ASCII characters is not supported'')
      else if supplied \<noteq> configured then Inr Unauthorized
      else Inr (view rq))"

definition profile_id_for_request :: "http_request \<Rightarrow> string" where
  "profile_id_for_request rq =
     (case hr_user rq of Some name \<Rightarrow> or_else name ''default'' | None \<Rightarrow> ''default'')"

section \<open>Logging in and out\<close>

definition safe_login_redirect :: "(string \<Rightarrow> bool) \<Rightarrow> pydict \<Rightarrow> string" where
  "safe_login_redirect allowed_url form =
     (let next_url = or_else (str_or_empty (dget form ''next'')) ''/'' in
      if \<not> allowed_url next_url then ''/'' else next_url)"

datatype login_reply = LoginRefused | LoggedIn string

definition log_in ::
    "authenticator \<Rightarrow> (string \<Rightarrow> bool) \<Rightarrow> pydict \<Rightarrow> http_request \<Rightarrow> login_reply \<times> http_request" where
  "log_in users allowed_url form rq =
     (let username = py_strip (str_or_empty (dget form ''username''));
          password = str_or_empty (dget form ''password'') in
      case users username password of
        None \<Rightarrow> (LoginRefused, rq)
      | Some u \<Rightarrow>
          if \<not> ua_active u then (LoginRefused, rq)
          else (LoggedIn (safe_login_redirect allowed_url form), rq\<lparr>hr_user := Some (ua_name u)\<rparr>))"

definition api_login ::
    "authenticator \<Rightarrow> (string \<Rightarrow> bool) \<Rightarrow> pydict \<Rightarrow> http_request \<Rightarrow> (login_reply \<times> http_request) gated" where
  "api_login users allowed_url form = require_method ''POST'' (log_in users allowed_url form)"

definition api_logout :: "authenticator \<Rightarrow> http_request \<Rightarrow> error + (string \<times> http_request) gated" where
  "api_logout users = api_login_required users (require_method ''POST'' (\<lambda>rq. (''/login/'', rq\<lparr>hr_user := None\<rparr>)))"

definition api_user :: "authenticator \<Rightarrow> http_request \<Rightarrow> error + pydict gated" where
  "api_user users = api_login_required users (require_method ''GET'' (\<lambda>rq.
     [(''user'', PDict [(''username'', PStr (case hr_user rq of None \<Rightarrow> [] | Some n \<Rightarrow> n)),
                        (''profile_id'', PStr (profile_id_for_request rq))])]))"

section \<open>Media over the API\<close>

record 'b media_host =
  mh_resolve :: "path \<Rightarrow> path"
  mh_files :: file_system
  mh_bytes :: "path \<Rightarrow> 'b list"
  mh_guess :: "string \<Rightarrow> string option"

definition episode_media ::
    "'b media_host \<Rightarrow> database \<Rightarrow> string \<Rightarrow> int \<Rightarrow> string \<Rightarrow> error + 'b media_reply" where
  "episode_media host d profile_id episode_id range_header =
     (case first_row (\<lambda>r. dl_id r = episode_id \<and> dl_profile_id r = profile_id) (downloads d) of
        None \<Rightarrow> Inl (Http404 ''No Download matches the given query.'')
      | Some item \<Rightarrow>
          bind_result (resolve_media_path (mh_resolve host) (mh_files host) d item) (\<lambda>p.
            Inr (media_response (mh_guess host) p (mh_bytes host p) range_header)))"

definition stream_view ::
    "authenticator \<Rightarrow> 'b media_host \<Rightarrow> database \<Rightarrow> int \<Rightarrow> http_request \<Rightarrow> error + (error + 'b media_reply) gated" where
  "stream_view users host d episode_id rq =
     api_login_required users (require_method ''GET''
       (\<lambda>rq'. episode_media host d (profile_id_for_request rq') episode_id (header_value rq' ''Range''))) rq"

definition worker_media ::
    "string \<Rightarrow> 'b media_host \<Rightarrow> database \<Rightarrow> string \<Rightarrow> int \<Rightarrow> http_request \<Rightarrow> error + (error + 'b media_reply) gated" where
  "worker_media configured host d profile_id episode_id rq =
     worker_api_login_required configured (require_method ''GET''
       (\<lambda>rq'. episode_media host d profile_id episode_id (header_value rq' ''Range''))) rq"

section \<open>Hosts and headers\<close>

text \<open>\<open>domain_of\<close> is the first component of Django's \<open>split_domain_port\<close>.\<close>

definition allow_private_host ::
    "(string \<Rightarrow> string) \<Rightarrow> (string \<Rightarrow> bool) \<Rightarrow> http_request \<Rightarrow> string list \<Rightarrow> string list" where
  "allow_private_host domain_of private rq allowed_hosts =
     (let host = or_else (header_value rq ''X-Forwarded-Host'') (header_value rq ''Host'');
          domain = domain_of host in
      if domain \<noteq> [] \<and> private (strip_chars (\<lambda>c. c = CHR ''['' \<or> c = CHR '']'') domain)
         \<and> ''*'' \<notin> set allowed_hosts \<and> domain \<notin> set allowed_hosts
      then allowed_hosts @ [domain] else allowed_hosts)"

definition content_security_policy :: string where
  "content_security_policy =
     ''default-src '' @ [CHR 0x27] @ ''self'' @ [CHR 0x27] @ ''; base-uri '' @ [CHR 0x27] @ ''self'' @ [CHR 0x27]
     @ ''; connect-src '' @ [CHR 0x27] @ ''self'' @ [CHR 0x27] @ ''; font-src '' @ [CHR 0x27] @ ''self'' @ [CHR 0x27]
     @ ''; form-action '' @ [CHR 0x27] @ ''self'' @ [CHR 0x27] @ ''; frame-ancestors '' @ [CHR 0x27] @ ''none'' @ [CHR 0x27]
     @ ''; img-src '' @ [CHR 0x27] @ ''self'' @ [CHR 0x27] @ '' data:; media-src '' @ [CHR 0x27] @ ''self'' @ [CHR 0x27]
     @ '' blob:; object-src '' @ [CHR 0x27] @ ''none'' @ [CHR 0x27] @ ''; script-src '' @ [CHR 0x27] @ ''self'' @ [CHR 0x27]
     @ ''; style-src '' @ [CHR 0x27] @ ''self'' @ [CHR 0x27]"

definition security_headers :: "headers \<Rightarrow> headers" where
  "security_headers hs =
     (if list_ex (\<lambda>h. py_lower (fst h) = ''content-security-policy'') hs then hs
      else hs @ [(''Content-Security-Policy'', content_security_policy)])"

definition csv_env :: "(string \<Rightarrow> string option) \<Rightarrow> string \<Rightarrow> string \<Rightarrow> string list" where
  "csv_env getenv name fallback =
     filter (\<lambda>v. v \<noteq> []) (map py_strip (split_on CHR '','' (case getenv name of None \<Rightarrow> fallback | Some v \<Rightarrow> v)))"

text \<open>\<open>list(dict.fromkeys(...))\<close> keeps first occurrences.\<close>

fun first_occurrences :: "string list \<Rightarrow> string list \<Rightarrow> string list" where
  "first_occurrences seen [] = []"
| "first_occurrences seen (x # xs) =
     (if x \<in> set seen then first_occurrences seen xs else x # first_occurrences (x # seen) xs)"

definition configured_hosts :: "(string \<Rightarrow> string option) \<Rightarrow> string list" where
  "configured_hosts getenv =
     first_occurrences [] (csv_env getenv ''GETOFFLINE_DJANGO_ALLOWED_HOSTS'' ''*''
       @ csv_env getenv ''GETOFFLINE_DJANGO_INTERNAL_ALLOWED_HOSTS'' ''localhost,127.0.0.1,testserver,frontend,api'')"

definition true_env :: "(string \<Rightarrow> string option) \<Rightarrow> string \<Rightarrow> bool" where
  "true_env getenv name \<longleftrightarrow>
     py_lower (py_strip (case getenv name of None \<Rightarrow> ''0'' | Some v \<Rightarrow> v)) \<in> {''1'', ''true'', ''yes'', ''on''}"

definition allowed_hosts :: "(string \<Rightarrow> string option) \<Rightarrow> string list" where
  "allowed_hosts getenv =
     (let hosts = configured_hosts getenv in
      if \<not> true_env getenv ''GETOFFLINE_DJANGO_STRICT_ALLOWED_HOSTS'' \<and> ''*'' \<notin> set hosts then hosts @ [''*''] else hosts)"

section \<open>Credentials survive the header\<close>

lemma b64_value_char [simp]: "n < 64 \<Longrightarrow> b64_value (b64_char n) = Some n"
  by (simp add: b64_char_def b64_value_def Let_def) linarith

lemma b64_char_no_pad [simp]: "n < 64 \<Longrightarrow> b64_char n \<noteq> CHR ''=''"
  using b64_value_char [of n] by (auto simp: b64_value_def Let_def)

lemma byte_parts:
  "ord a div 4 < (64 :: nat)" "ord a mod 4 * 16 + ord b div 16 < (64 :: nat)"
  "ord b mod 16 * 4 + ord c div 64 < (64 :: nat)" "ord c mod 64 < (64 :: nat)"
  "ord a mod 4 * 16 < (64 :: nat)" "ord b mod 16 * 4 < (64 :: nat)"
proof -
  have "ord a < (256 :: nat)" "ord b < (256 :: nat)" "ord c < (256 :: nat)" by simp_all
  then have "ord a div 4 < (64 :: nat)" "ord b div 16 < (16 :: nat)" "ord c div 64 < (4 :: nat)"
    by (simp_all add: less_mult_imp_div_less)
  moreover have "ord a mod 4 < (4 :: nat)" "ord b mod 16 < (16 :: nat)" "ord c mod 64 < (64 :: nat)" by simp_all
  ultimately show "ord a div 4 < (64 :: nat)" "ord a mod 4 * 16 + ord b div 16 < (64 :: nat)"
    "ord b mod 16 * 4 + ord c div 64 < (64 :: nat)" "ord c mod 64 < (64 :: nat)"
    "ord a mod 4 * 16 < (64 :: nat)" "ord b mod 16 * 4 < (64 :: nat)" by linarith+
qed

lemma byte_joins [simp]:
  "ord b div 16 div 16 = (0 :: nat)" "ord b div 16 mod 16 = (ord b div 16 :: nat)"
  "ord c div 64 div 4 = (0 :: nat)" "ord c div 64 mod 4 = (ord c div 64 :: nat)"
proof -
  have "ord b < (256 :: nat)" "ord c < (256 :: nat)" by simp_all
  then have "ord b div 16 < (16 :: nat)" "ord c div 64 < (4 :: nat)" by (simp_all add: less_mult_imp_div_less)
  then show "ord b div 16 div 16 = (0 :: nat)" "ord b div 16 mod 16 = (ord b div 16 :: nat)"
    "ord c div 64 div 4 = (0 :: nat)" "ord c div 64 mod 4 = (ord c div 64 :: nat)" by simp_all
qed

lemma b64_roundtrip [simp]: "b64_decode (b64_encode s) = Some s"
  by (induction s rule: b64_encode.induct) (simp_all add: byte_parts)

lemma utf8_strict_utf8 [simp]: "utf8_strict (utf8 s) = Some s"
proof (induction s)
  case (Cons c s)
  show ?case
  proof (cases "ord c < (128 :: nat)")
    case False
    have o: "ord (char_of (192 + ord c div 64 :: nat)) = (192 + ord c div 64 :: nat)"
      "ord (char_of (128 + ord c mod 64 :: nat)) = (128 + ord c mod 64 :: nat)"
      by (simp_all only: char_of_mod_256 of_char_of mod_less utf8_bytes)
    have "2 \<le> ord c div (64 :: nat)" "ord c div (64 :: nat) \<le> 3"
      using False ord_less [of c] by (simp_all add: less_eq_div_iff_mult_less_eq less_Suc_eq_le [symmetric] less_mult_imp_div_less)
    then have "ord c div (64 :: nat) = 2 \<or> ord c div (64 :: nat) = 3" by linarith
    then show ?thesis using False o utf8_bytes(3) [of c] Cons by (auto simp: utf8_char_def Let_def)
  qed (use Cons in \<open>simp add: utf8_char_def\<close>)
qed simp

definition b64_plain :: "char \<Rightarrow> bool" where
  "b64_plain c \<longleftrightarrow> 43 \<le> ord c \<and> ord c \<le> (122 :: nat)"

lemma b64_plain_facts: "b64_plain c \<Longrightarrow> ord c < (128 :: nat)" "b64_plain c \<Longrightarrow> \<not> is_space c"
  by (auto simp: b64_plain_def is_space_def Let_def)

lemma b64_char_plain: "n < 64 \<Longrightarrow> b64_plain (b64_char n)"
  by (simp add: b64_char_def b64_plain_def) linarith

lemma b64_encode_chars: "list_all b64_plain (b64_encode s)"
  by (induction s rule: b64_encode.induct) (simp_all add: b64_char_plain byte_parts, simp_all add: b64_plain_def)

lemma b64_encode_plain: "list_all (\<lambda>c. ord c < 128 \<and> \<not> is_space c) (b64_encode s)"
  using b64_encode_chars [of s] b64_plain_facts by (auto simp: list_all_iff)

lemma b64_encode_stripped [simp]: "py_strip (b64_encode s) = b64_encode s"
proof -
  have "b64_encode s = [] \<or> (\<not> is_space (hd (b64_encode s)) \<and> \<not> is_space (last (b64_encode s)))"
    using b64_encode_plain [of s] by (cases "b64_encode s = []") (auto simp: list_all_iff)
  then show ?thesis by (simp add: py_strip_def strip_chars_id)
qed

lemma b64_encode_ascii [simp]: "is_ascii (b64_encode s)"
  using b64_encode_plain [of s] by (simp add: is_ascii_def list_all_iff)

definition basic_credentials :: "string \<Rightarrow> string \<Rightarrow> string" where
  "basic_credentials username password = ''Basic '' @ b64_encode (utf8 (username @ '':'' @ password))"

lemma basic_credentials_read:
  "py_lower (basic_credentials u p) = ''basic '' @ py_lower (b64_encode (utf8 (u @ '':'' @ p)))"
  "py_partition CHR '' '' (basic_credentials u p) = (''Basic'', '' '', b64_encode (utf8 (u @ '':'' @ p)))"
proof -
  have "py_lower ''Basic '' = ''basic ''" by code_simp
  then show "py_lower (basic_credentials u p) = ''basic '' @ py_lower (b64_encode (utf8 (u @ '':'' @ p)))"
    unfolding basic_credentials_def py_lower_def map_append by simp
qed (simp add: basic_credentials_def py_partition_def Let_def)

lemma py_partition_first: "c \<notin> set a \<Longrightarrow> py_partition c (a @ c # b) = (a, [c], b)"
  by (induction a) (auto simp: py_partition_def Let_def)

lemma basic_accepted:
  assumes "header_value rq ''Authorization'' = basic_credentials u p" and "CHR '':'' \<notin> set u"
  shows "authenticate_basic users rq = Inr (case users u p of
      None \<Rightarrow> None | Some a \<Rightarrow> if ua_active a then Some (rq\<lparr>hr_user := Some (ua_name a)\<rparr>) else None)"
  using assms py_partition_first [OF assms(2), of p] utf8_strict_utf8 [of "u @ CHR '':'' # p"]
  by (simp del: utf8_strict_utf8 add: authenticate_basic_def Let_def basic_credentials_read split: option.splits)

section \<open>The gate\<close>

text \<open>The name and the password a request's \<open>Authorization\<close> header spells out.\<close>

definition presents :: "http_request \<Rightarrow> string \<Rightarrow> string \<Rightarrow> bool" where
  "presents rq u p \<longleftrightarrow> prefix ''basic '' (py_lower (header_value rq ''Authorization'')) \<and>
     (\<exists>bytes. b64_decode (py_strip (snd (snd (py_partition CHR '' '' (header_value rq ''Authorization''))))) = Some bytes
        \<and> utf8_strict bytes = Some (u @ '':'' @ p))"

lemma py_partition_join: "py_partition c s = (a, sep, b) \<Longrightarrow> sep \<noteq> [] \<Longrightarrow> s = a @ c # b"
  using takeWhile_dropWhile_id [of "\<lambda>x. x \<noteq> c" s] hd_dropWhile [of "\<lambda>x. x \<noteq> c" s]
  by (cases "dropWhile (\<lambda>x. x \<noteq> c) s") (auto simp: py_partition_def Let_def)

lemma authenticate_basic_accepts:
  assumes "authenticate_basic users rq = Inr (Some rq')"
  obtains u p a where "presents rq u p" "users u p = Some a" "ua_active a" "rq' = rq\<lparr>hr_user := Some (ua_name a)\<rparr>"
proof -
  let ?h = "header_value rq ''Authorization''"
  have pre: "prefix ''basic '' (py_lower ?h)"
    using assms by (auto simp: authenticate_basic_def Let_def split: if_splits)
  then obtain bytes d where d: "b64_decode (py_strip (snd (snd (py_partition CHR '' '' ?h)))) = Some bytes"
      "utf8_strict bytes = Some d"
    using assms by (auto simp: authenticate_basic_def Let_def split: if_splits option.splits)
  obtain u sep p where part: "py_partition CHR '':'' d = (u, sep, p)" by (cases "py_partition CHR '':'' d") auto
  obtain a where a: "sep \<noteq> []" "users u p = Some a" "ua_active a" "rq' = rq\<lparr>hr_user := Some (ua_name a)\<rparr>"
    using assms pre d part by (auto simp: authenticate_basic_def Let_def split: if_splits option.splits)
  have "presents rq u p"
    using pre d py_partition_join [OF part a(1)] by (auto simp: presents_def)
  then show thesis using that a by blast
qed


definition one_user :: authenticator where
  "one_user u p = (if u = ''ann'' \<and> p = ''pw'' then Some \<lparr>ua_name = ''ann'', ua_active = True\<rparr> else None)"

definition basic_request :: http_request where
  "basic_request = \<lparr>hr_method = ''POST'', hr_headers = [(''authorization'', basic_credentials ''ann'' ''pw'')],
     hr_user = None, hr_csrf_ok = False\<rparr>"


text \<open>A login never sends the browser to a place Django's check refuses: the target of the redirect
  is the site's root or passed the check, the session becomes that of the active account whose name
  and password were given, and a refused login leaves the session as it was.\<close>

theorem login_redirect_safe:
  assumes "api_login users allowed_url form rq = Entered (reply, rq')"
  shows "case reply of
      LoginRefused \<Rightarrow> rq' = rq
    | LoggedIn target \<Rightarrow> (target = ''/'' \<or> allowed_url target)
        \<and> (\<exists>a. users (py_strip (str_or_empty (dget form ''username''))) (str_or_empty (dget form ''password'')) = Some a
              \<and> ua_active a \<and> hr_user rq' = Some (ua_name a))"
  using assms
  by (auto simp: api_login_def require_method_def log_in_def safe_login_redirect_def Let_def split: if_splits option.splits)

theorem login_redirect_safe_witness:
  "\<exists>rq'. api_login one_user (\<lambda>u. prefix ''/'' u) [(''username'', PStr '' ann''), (''password'', PStr ''pw''), (''next'', PStr ''http://evil'')]
      basic_request = Entered (LoggedIn ''/'', rq') \<and> hr_user rq' = Some ''ann''"
proof -
  let ?form = "[(''username'', PStr '' ann''), (''password'', PStr ''pw''), (''next'', PStr ''http://evil'')]"
  obtain r rq' where r: "api_login one_user (\<lambda>u. prefix ''/'' u) ?form basic_request = Entered (r, rq')"
    by (cases "log_in one_user (\<lambda>u. prefix ''/'' u) ?form basic_request") (auto simp: api_login_def require_method_def basic_request_def)
  have "(case api_login one_user (\<lambda>u. prefix ''/'' u) ?form basic_request of Entered (LoggedIn t, _) \<Rightarrow> t = ''/'' | _ \<Rightarrow> False)"
    by code_simp
  then have "r = LoggedIn ''/''" by (simp add: r split: login_reply.splits)
  then show ?thesis using login_redirect_safe [OF r] r by (auto simp: one_user_def split: if_splits)
qed

section \<open>Texts that are not ASCII\<close>

text \<open>
  Both gates answer a stranger's request with an exception and not with a refusal when its
  credentials hold a character outside ASCII; the worker's gate does so for every request when the
  configured token does.
\<close>

lemma basic_not_ascii_raises:
  "prefix ''basic '' (py_lower (header_value rq ''Authorization'')) \<Longrightarrow>
   \<not> is_ascii (py_strip (snd (snd (py_partition CHR '' '' (header_value rq ''Authorization''))))) \<Longrightarrow>
   \<exists>m. api_login_required users view rq = Inl (ValueError m)"
  by (simp add: api_login_required_def authenticate_basic_def Let_def)

lemma worker_token_not_ascii_raises:
  "configured \<noteq> [] \<Longrightarrow> \<not> is_ascii configured \<Longrightarrow> \<exists>m. worker_api_login_required configured view rq = Inl (TypeError m)"
  by (simp add: worker_api_login_required_def Let_def)

section \<open>A worker fetches its media\<close>

text \<open>
  The request the fetching worker sends, and what it makes of the server's answer; any status
  outside 200 to 299 is raised by \<open>urlopen\<close> as an error.
\<close>

definition worker_request :: "string \<Rightarrow> http_request" where
  "worker_request env_token =
     \<lparr>hr_method = ''GET'', hr_headers = [(''X-GetOffline-Worker-Token'', py_strip env_token)], hr_user = None, hr_csrf_ok = False\<rparr>"

definition fetched_body :: "error + (error + char media_reply) gated \<Rightarrow> error + string" where
  "fetched_body answer =
     (case answer of
        Inr (Entered (Inr reply)) \<Rightarrow> Inr (concat (mr_body reply))
      | Inr (Entered (Inl e)) \<Rightarrow> Inl (OSError ''HTTP Error 404: Not Found'')
      | Inr Unauthorized \<Rightarrow> Inl (OSError ''HTTP Error 401: Unauthorized'')
      | Inr CsrfRefused \<Rightarrow> Inl (OSError ''HTTP Error 403: Forbidden'')
      | Inr MethodNotAllowed \<Rightarrow> Inl (OSError ''HTTP Error 405: Method Not Allowed'')
      | Inl e \<Rightarrow> Inl (OSError ''HTTP Error 500: Internal Server Error''))"

lemma worker_request_token [simp]: "header_value (worker_request t) ''X-GetOffline-Worker-Token'' = py_strip t"
  by (simp add: header_value_def worker_request_def)

lemma worker_request_method [simp]: "hr_method (worker_request t) = ''GET''"
  by (simp add: worker_request_def)

lemma worker_request_range [simp]: "header_value (worker_request t) ''Range'' = []"
proof -
  have "py_lower ''X-GetOffline-Worker-Token'' \<noteq> py_lower ''Range''" by code_simp
  then show ?thesis by (simp add: header_value_def worker_request_def)
qed

text \<open>Worker and API agree on the shared secret only when it has no blanks around it: with such an
  ASCII token the worker gets the whole file of the row it asks for, and with a token that
  \<open>strip\<close> shortens every request is refused, because the worker strips its token and the API
  does not.\<close>

theorem worker_fetch_served:
  assumes "token \<noteq> []" and "is_ascii token"
    and "first_row (\<lambda>r. dl_id r = n \<and> dl_profile_id r = profile) (downloads d) = Some item"
    and "resolve_media_path (mh_resolve host) (mh_files host) d item = Inr p"
  shows "fetched_body (worker_media token host d profile n (worker_request token)) =
    (if py_strip token = token then Inr (mh_bytes host p) else Inl (OSError ''HTTP Error 401: Unauthorized''))"
proof -
  have "\<And>c. c \<in> set (py_strip token) \<Longrightarrow> c \<in> set token"
    by (simp add: py_strip_def strip_chars_def rstrip_chars_def) (metis set_dropWhileD set_rev)
  then have "is_ascii (py_strip token)" using assms(2) by (auto simp: is_ascii_def list_all_iff)
  then show ?thesis
    using assms by (simp add: worker_media_def worker_api_login_required_def require_method_def Let_def fetched_body_def
        episode_media_def media_response_def)
qed

definition sample_host :: "char media_host" where
  "sample_host = \<lparr>mh_resolve = id, mh_files = sample_fs, mh_bytes = (\<lambda>_. ''0123456789''), mh_guess = (\<lambda>_. None)\<rparr>"

theorem worker_fetch_served_witness:
  "fetched_body (worker_media ''key'' sample_host (media_root_db\<lparr>downloads := [sample_download]\<rparr>) (dl_profile_id sample_download)
       (dl_id sample_download) (worker_request ''key'')) = Inr ''0123456789''
   \<and> fetched_body (worker_media ''key '' sample_host (media_root_db\<lparr>downloads := [sample_download]\<rparr>) (dl_profile_id sample_download)
       (dl_id sample_download) (worker_request ''key '')) = Inl (OSError ''HTTP Error 401: Unauthorized'')"
proof -
  let ?d = "media_root_db\<lparr>downloads := [sample_download]\<rparr>"
  have p: "path_str (path_of ''/media/one.mp3'') = ''/media/one.mp3''" by code_simp
  have r: "resolve_media_path (mh_resolve sample_host) (mh_files sample_host) ?d sample_download = Inr (path_of ''/media/one.mp3'')"
    using p by (simp add: sample_host_def resolve_media_path_def media_candidates_def sample_download_def safe_path_def
        sample_fs_def path_exists_def is_file_def)
  have f: "first_row (\<lambda>r. dl_id r = dl_id sample_download \<and> dl_profile_id r = dl_profile_id sample_download) (downloads ?d)
      = Some sample_download" by simp
  have t: "py_strip ''key'' = ''key''" "py_strip ''key '' \<noteq> ''key ''" "is_ascii ''key''" "is_ascii ''key ''" by code_simp+
  show ?thesis
    using worker_fetch_served [of "''key''", OF _ t(3) f r] worker_fetch_served [of "''key ''", OF _ t(4) f r] t(1,2)
    by (simp add: sample_host_def)
qed

section \<open>Hosts\<close>

lemma allow_private_host_any [simp]: "''*'' \<in> set hosts \<Longrightarrow> allow_private_host domain_of private rq hosts = hosts"
  by (simp add: allow_private_host_def Let_def)

text \<open>The middleware for private networks only matters in strict mode: with any other setting of the
  environment every host is allowed from the start and no request changes the list. In strict mode
  the list only grows, by the domain of a request whose address is private, and asking again adds
  nothing.\<close>

theorem private_host_middleware:
  "(\<not> true_env getenv ''GETOFFLINE_DJANGO_STRICT_ALLOWED_HOSTS'' \<longrightarrow>
      allow_private_host domain_of private rq (allowed_hosts getenv) = allowed_hosts getenv)
   \<and> (\<exists>more. allow_private_host domain_of private rq hosts = hosts @ more \<and> length more \<le> 1
        \<and> list_all (\<lambda>h. private (strip_chars (\<lambda>c. c = CHR ''['' \<or> c = CHR '']'') h)) more)
   \<and> allow_private_host domain_of private rq (allow_private_host domain_of private rq hosts)
        = allow_private_host domain_of private rq hosts"
  by (auto simp: allowed_hosts_def allow_private_host_def Let_def)

theorem private_host_middleware_witness:
  "allow_private_host id (\<lambda>h. h = ''10.0.0.9'') (worker_request []) (allowed_hosts (\<lambda>_. None)) = allowed_hosts (\<lambda>_. None)"
proof -
  have "\<not> true_env (\<lambda>_. None) ''GETOFFLINE_DJANGO_STRICT_ALLOWED_HOSTS''" by code_simp
  then show ?thesis using private_host_middleware [of "\<lambda>_. None" id "\<lambda>h. h = ''10.0.0.9''" "worker_request []" "[]"] by blast
qed

end
