(* ===== verification/Transcriber.thy ===== *)
theory Transcriber
  imports Sidecars
begin

text \<open>
  The speech recognition of \<open>src/src/workers/transcription.py\<close>: the model cache, the cutting of long
  audio into chunks, the joining of their results and the cache of transcriptions. \<open>ffprobe\<close>, \<open>ffmpeg\<close>
  and the recognition model are arguments; a model turns the bytes of an audio file into the
  segments its iterator yields and the exception the iteration ends with, if any. A run of \<open>ffmpeg\<close>
  writes its output, exits with a status other than 0, is killed by a signal or cannot be started.
\<close>

section \<open>The environment\<close>

record raw_segment =
  rs_start :: rat
  rs_end :: rat
  rs_text :: "string option"

datatype ffmpeg_run = Wrote string | Exited int | Killed string | NoProgram

type_synonym speech_model = "string \<Rightarrow> string option \<Rightarrow> error + (raw_segment list \<times> error option)"

record transcriber_env =
  te_getenv :: "string \<Rightarrow> string option"
  te_expand :: "path \<Rightarrow> path"
  te_resolve :: "path \<Rightarrow> path"
  te_mkdir :: "path \<Rightarrow> error option"
  te_mtime :: "string \<Rightarrow> error + int"
  te_read :: "string \<Rightarrow> string"
  te_probe :: "string list \<Rightarrow> string option"
  te_ffmpeg :: "string list \<Rightarrow> ffmpeg_run"
  te_load :: "string \<Rightarrow> string \<Rightarrow> error + speech_model"
  te_tempdir :: path

record transcription =
  tr_text :: string
  tr_segments :: "segment list"

type_synonym model_key = "string \<times> string"

type_synonym transcription_key = "string \<times> int \<times> string \<times> string option"

record transcriber =
  model_cache :: "(model_key \<times> speech_model) list"
  transcription_cache :: "(transcription_key \<times> transcription) list"

section \<open>The model cache\<close>

definition nonempty_env :: "transcriber_env \<Rightarrow> string \<Rightarrow> string option" where
  "nonempty_env env name = (case te_getenv env name of Some v \<Rightarrow> if v = [] then None else Some v | None \<Rightarrow> None)"

definition model_cache_dir :: "transcriber_env \<Rightarrow> path" where
  "model_cache_dir env = te_expand env (path_of
     (case nonempty_env env ''GETOFFLINE_MODEL_CACHE_DIR'' of
        Some v \<Rightarrow> v
      | None \<Rightarrow> (case nonempty_env env ''HF_HOME'' of Some v \<Rightarrow> v | None \<Rightarrow> ''/app/model-cache'')))"

definition model_cache_key :: "transcriber_env \<Rightarrow> string \<Rightarrow> path \<Rightarrow> model_key" where
  "model_cache_key env model_name dir = (model_name, path_str (te_resolve env dir))"

definition get_or_load_whisper_model ::
    "transcriber_env \<Rightarrow> string \<Rightarrow> transcriber \<Rightarrow> (error + speech_model) \<times> transcriber" where
  "get_or_load_whisper_model env model_name st =
     (let dir = model_cache_dir env; key = model_cache_key env model_name dir in
      case te_mkdir env dir of
        Some e \<Rightarrow> (Inl e, st)
      | None \<Rightarrow>
          (case map_of (model_cache st) key of
             Some m \<Rightarrow> (Inr m, st)
           | None \<Rightarrow>
               (case te_load env model_name (path_str dir) of
                  Inl e \<Rightarrow> (Inl e, st)
                | Inr m \<Rightarrow> (Inr m, st\<lparr>model_cache := AList.update key m (model_cache st)\<rparr>))))"

section \<open>Settings and tools\<close>

definition env_float :: "transcriber_env \<Rightarrow> string \<Rightarrow> pyfloat \<Rightarrow> pyfloat" where
  "env_float env name fallback =
     (case te_getenv env name of
        None \<Rightarrow> fallback
      | Some raw \<Rightarrow> (case py_float raw of None \<Rightarrow> fallback | Some f \<Rightarrow> f))"

definition probe_command :: "string \<Rightarrow> string list" where
  "probe_command input =
     [''ffprobe'', ''-v'', ''error'', ''-show_entries'', ''format=duration'', ''-of'',
      ''default=noprint_wrappers=1:nokey=1'', input]"

text \<open>\<open>te_probe\<close> is the output, or \<open>None\<close> when the program is missing or fails.\<close>

definition probe_audio_duration :: "transcriber_env \<Rightarrow> path \<Rightarrow> rat option" where
  "probe_audio_duration env input =
     (case te_probe env (probe_command (path_str input)) of
        None \<Rightarrow> None
      | Some output \<Rightarrow>
          (case py_float (py_strip output) of
             Some (Fin d) \<Rightarrow> if d \<le> 0 then None else Some d
           | _ \<Rightarrow> None))"

definition chunk_command :: "string \<Rightarrow> string \<Rightarrow> rat \<Rightarrow> rat \<Rightarrow> string list" where
  "chunk_command input_file output_file start_at duration =
     [''ffmpeg'', ''-nostdin'', ''-hide_banner'', ''-loglevel'', ''error'', ''-ss'', fixed3 start_at, ''-t'', fixed3 duration,
      ''-i'', input_file, ''-vn'', ''-ac'', ''1'', ''-ar'', ''16000'', ''-f'', ''wav'', output_file]"

text \<open>\<open>subprocess.run(..., check=True)\<close>: the exception names the command and its status.\<close>

definition failed_command :: "string list \<Rightarrow> string \<Rightarrow> error" where
  "failed_command cmd how =
     RuntimeError (''Command '' @ [CHR 0x27] @ py_repr (PList (map PStr cmd)) @ [CHR 0x27] @ how)"

definition extract_audio_chunk :: "transcriber_env \<Rightarrow> path \<Rightarrow> path \<Rightarrow> rat \<Rightarrow> rat \<Rightarrow> error + string" where
  "extract_audio_chunk env input_file output_file start_at duration =
     (let cmd = chunk_command (path_str input_file) (path_str output_file) start_at duration in
      case te_ffmpeg env cmd of
        Wrote audio \<Rightarrow> Inr audio
      | Exited n \<Rightarrow> Inl (failed_command cmd ('' returned non-zero exit status '' @ str_of_int n @ ''.''))
      | Killed sig \<Rightarrow> Inl (failed_command cmd ('' died with '' @ sig @ ''.''))
      | NoProgram \<Rightarrow> Inl (FileNotFound (''[Errno 2] No such file or directory: '' @ repr_str ''ffmpeg'')))"

section \<open>Results\<close>

definition shift_segment :: "rat \<Rightarrow> segment \<Rightarrow> segment" where
  "shift_segment offset sg =
     sg\<lparr>sg_start := sg_start sg + offset,
        sg_end := Some ((case sg_end sg of None \<Rightarrow> 0 | Some e \<Rightarrow> e) + offset)\<rparr>"

definition offset_transcription_result :: "transcription \<Rightarrow> rat \<Rightarrow> transcription" where
  "offset_transcription_result r offset =
     \<lparr>tr_text = tr_text r, tr_segments = map (shift_segment offset) (tr_segments r)\<rparr>"

definition read_segment :: "raw_segment \<Rightarrow> segment" where
  "read_segment s =
     \<lparr>sg_start = rs_start s, sg_end = Some (rs_end s),
      sg_text = py_strip (case rs_text s of None \<Rightarrow> [] | Some t \<Rightarrow> t)\<rparr>"

definition join_texts :: "string list \<Rightarrow> string" where
  "join_texts ts = py_strip (join_with '' '' (filter (\<lambda>t. t \<noteq> []) ts))"

definition normalize_result :: "raw_segment list \<Rightarrow> transcription" where
  "normalize_result raw =
     (let segs = map read_segment raw in \<lparr>tr_text = join_texts (map sg_text segs), tr_segments = segs\<rparr>)"

definition transcribe_audio_file ::
    "speech_model \<Rightarrow> string \<Rightarrow> string \<Rightarrow> string option \<Rightarrow> error + transcription" where
  "transcribe_audio_file model name audio language =
     (case model audio language of
        Inl (IndexError m) \<Rightarrow>
          if contains_sub ''tuple index out of range'' m
          then Inl (RuntimeError (''No decodable audio stream found in media file: '' @ name))
          else Inl (IndexError m)
      | Inl e \<Rightarrow> Inl e
      | Inr (raw, Some e) \<Rightarrow> Inl e
      | Inr (raw, None) \<Rightarrow> Inr (normalize_result raw))"

section \<open>Chunks\<close>

text \<open>
  The number of chunks is the quotient rounded up; a quotient by an infinite chunk length is 0. The
  loop stops early when nothing remains.
\<close>

definition chunk_count :: "rat \<Rightarrow> pyfloat \<Rightarrow> nat" where
  "chunk_count duration chunk = (case chunk of Fin c \<Rightarrow> nat \<lceil>duration / c\<rceil> | _ \<Rightarrow> 0)"

definition chunk_length :: "pyfloat \<Rightarrow> rat" where
  "chunk_length chunk = (case chunk of Fin c \<Rightarrow> c | _ \<Rightarrow> 0)"

fun chunks_from :: "rat \<Rightarrow> rat \<Rightarrow> nat \<Rightarrow> nat \<Rightarrow> (nat \<times> rat \<times> rat) list" where
  "chunks_from duration c index 0 = []"
| "chunks_from duration c index (Suc n) =
     (let start_at = of_nat index * c; current = min c (max (duration - start_at) 0) in
      if current \<le> 0 then [] else (index, start_at, current) # chunks_from duration c (Suc index) n)"

definition chunk_plan :: "rat \<Rightarrow> pyfloat \<Rightarrow> (nat \<times> rat \<times> rat) list" where
  "chunk_plan duration chunk = chunks_from duration (chunk_length chunk) 0 (chunk_count duration chunk)"

definition chunk_file :: "transcriber_env \<Rightarrow> nat \<Rightarrow> path" where
  "chunk_file env index = path_join (te_tempdir env) (path_of (''chunk-'' @ pad 5 (int index) @ ''.wav''))"

definition transcribe_chunk ::
    "transcriber_env \<Rightarrow> speech_model \<Rightarrow> path \<Rightarrow> string option \<Rightarrow> nat \<times> rat \<times> rat \<Rightarrow> error + transcription" where
  "transcribe_chunk env model input_file language ch =
     (case ch of (index, start_at, current) \<Rightarrow>
        bind_result (extract_audio_chunk env input_file (chunk_file env index) start_at current) (\<lambda>audio.
          map_sum id (\<lambda>r. offset_transcription_result r start_at)
            (transcribe_audio_file model (path_str (chunk_file env index)) audio language)))"

definition join_results :: "transcription list \<Rightarrow> transcription" where
  "join_results rs = \<lparr>tr_text = join_texts (map tr_text rs), tr_segments = concat (map tr_segments rs)\<rparr>"

definition nonempty_language :: "string option \<Rightarrow> string option" where
  "nonempty_language language = (case language of Some l \<Rightarrow> if l = [] then None else Some l | None \<Rightarrow> None)"

text \<open>The chunk length, when the audio is to be cut.\<close>

definition cutting :: "transcriber_env \<Rightarrow> rat option \<Rightarrow> (rat \<times> pyfloat) option" where
  "cutting env duration =
     (let limit = env_float env ''GETOFFLINE_TRANSCRIPTION_CHUNK_THRESHOLD_SECONDS'' (Fin (30 * 60));
          chunk = env_float env ''GETOFFLINE_TRANSCRIPTION_CHUNK_SECONDS'' (Fin (15 * 60))
      in case duration of
           Some d \<Rightarrow> if pf_lt (Fin 0) chunk \<and> pf_lt limit (Fin d) then Some (d, chunk) else None
         | None \<Rightarrow> None)"

definition transcribe_in_process ::
    "transcriber_env \<Rightarrow> path \<Rightarrow> string \<Rightarrow> string option \<Rightarrow> transcriber \<Rightarrow> (error + transcription) \<times> transcriber" where
  "transcribe_in_process env input_file model_name language st =
     (case get_or_load_whisper_model env model_name st of
        (Inl e, st1) \<Rightarrow> (Inl e, st1)
      | (Inr model, st1) \<Rightarrow>
          (let lang = nonempty_language language in
           (case cutting env (probe_audio_duration env input_file) of
              Some (d, chunk) \<Rightarrow>
                map_sum id join_results (traverse (transcribe_chunk env model input_file lang) (chunk_plan d chunk))
            | None \<Rightarrow> transcribe_audio_file model (path_str input_file) (te_read env (path_str input_file)) lang, st1)))"

section \<open>The entry point\<close>

definition transcribe_with_whisper ::
    "transcriber_env \<Rightarrow> path \<Rightarrow> string \<Rightarrow> string option \<Rightarrow> transcriber \<Rightarrow> (error + transcription) \<times> transcriber" where
  "transcribe_with_whisper env file model_name language st =
     (let input_file = te_resolve env file in
      case te_mtime env (path_str input_file) of
        Inl e \<Rightarrow> (Inl e, st)
      | Inr mtime \<Rightarrow>
          (let key = (path_str input_file, mtime, model_name, language) in
           case map_of (transcription_cache st) key of
             Some cached \<Rightarrow> (Inr cached, st)
           | None \<Rightarrow>
               (case transcribe_in_process env input_file model_name language st of
                  (Inl e, st1) \<Rightarrow>
                    (Inl (RuntimeError (''Transcription failed for '' @ path_name input_file @ '' ('' @ model_name @ ''): '' @ error_text e)), st1)
                | (Inr r, st1) \<Rightarrow> (Inr r, st1\<lparr>transcription_cache := AList.update key r (transcription_cache st1)\<rparr>))))"

section \<open>The chunks tile the audio\<close>

text \<open>Each chunk starts where the one before it ended.\<close>

fun adjacent :: "rat \<Rightarrow> (nat \<times> rat \<times> rat) list \<Rightarrow> rat \<Rightarrow> bool" where
  "adjacent since [] until \<longleftrightarrow> since = until"
| "adjacent since ((i, start_at, len) # cs) until \<longleftrightarrow> start_at = since \<and> adjacent (start_at + len) cs until"

lemma chunks_from_tile:
  assumes "0 < c" and "0 < n" and "of_nat (index + n - 1) * c < duration" and "duration \<le> of_nat (index + n) * c"
  shows "adjacent (of_nat index * c) (chunks_from duration c index n) duration
    \<and> length (chunks_from duration c index n) = n
    \<and> list_all (\<lambda>(i, start_at, len). 0 < len \<and> len \<le> c \<and> start_at = of_nat i * c) (chunks_from duration c index n)"
  using assms(2-)
proof (induction n arbitrary: index)
  case (Suc n)
  show ?case
  proof (cases n)
    case 0
    then have "of_nat index * c < duration" "duration - of_nat index * c \<le> c"
      using Suc.prems by (simp_all add: algebra_simps)
    then show ?thesis using assms(1) by (simp add: 0 Let_def min_def)
  next
    case (Suc m)
    have "of_nat (index + 1) * c \<le> of_nat (index + Suc m) * c"
      using assms(1) by (intro mult_right_mono) auto
    also have "\<dots> < duration" using Suc.prems \<open>n = Suc m\<close> by simp
    finally have "of_nat index * c + c < duration" by (simp add: algebra_simps)
    then have cur: "min c (max (duration - of_nat index * c) 0) = c"
      using assms(1) by (simp add: min_def max_def)
    have step: "of_nat index * c + c = of_nat (Suc index) * c" by (simp add: algebra_simps)
    show ?thesis
      using Suc.IH [of "Suc index"] Suc.prems assms(1) \<open>n = Suc m\<close>
      by (simp add: cur Let_def step del: of_nat_Suc)
  qed
qed simp

lemma chunk_count_bounds:
  assumes "0 < c" and "0 < d"
  shows "0 < chunk_count d (Fin c)" "of_nat (chunk_count d (Fin c) - 1) * c < d" "d \<le> of_nat (chunk_count d (Fin c)) * c"
proof -
  have pos: "0 < d / c" using assms by simp
  then have z: "0 < \<lceil>d / c\<rceil>" by simp
  then show "0 < chunk_count d (Fin c)" by (simp add: chunk_count_def)
  have n: "(of_nat (chunk_count d (Fin c)) :: rat) = of_int \<lceil>d / c\<rceil>" using z by (simp add: chunk_count_def)
  have "d / c \<le> of_int \<lceil>d / c\<rceil>" by (rule le_of_int_ceiling)
  then show "d \<le> of_nat (chunk_count d (Fin c)) * c" using assms n by (simp add: pos_divide_le_eq [symmetric])
  have "of_int \<lceil>d / c\<rceil> - 1 < d / c" by linarith
  moreover have "(of_nat (chunk_count d (Fin c) - 1) :: rat) = of_int \<lceil>d / c\<rceil> - 1"
    using n \<open>0 < chunk_count d (Fin c)\<close> by (simp add: of_nat_diff)
  ultimately show "of_nat (chunk_count d (Fin c) - 1) * c < d" using assms by (simp add: pos_less_divide_eq)
qed

lemma chunk_plan_facts:
  assumes "0 < c" and "0 < d"
  shows "adjacent 0 (chunk_plan d (Fin c)) d \<and> int (length (chunk_plan d (Fin c))) = \<lceil>d / c\<rceil>
    \<and> list_all (\<lambda>(i, start_at, len). 0 < len \<and> len \<le> c \<and> start_at = of_nat i * c) (chunk_plan d (Fin c))"
proof -
  have "int (chunk_count d (Fin c)) = \<lceil>d / c\<rceil>"
    using chunk_count_bounds(1) [OF assms] by (simp add: chunk_count_def)
  then show ?thesis
    using chunks_from_tile [OF assms(1) chunk_count_bounds(1) [OF assms], of 0 d] chunk_count_bounds(2,3) [OF assms]
    by (simp add: chunk_plan_def chunk_length_def)
qed



section \<open>The caches\<close>

lemma map_sum_InrE: "map_sum id f x = Inr y \<longleftrightarrow> (\<exists>z. x = Inr z \<and> y = f z)"
  by (cases x) auto

lemma load_keeps_transcriptions:
  "get_or_load_whisper_model env name st = (r, st1) \<Longrightarrow> transcription_cache st1 = transcription_cache st"
  by (auto simp: get_or_load_whisper_model_def Let_def split: option.splits sum.splits)

lemma in_process_keeps_transcriptions:
  "transcribe_in_process env file name lang st = (r, st1) \<Longrightarrow> transcription_cache st1 = transcription_cache st"
  using load_keeps_transcriptions
  by (fastforce simp: transcribe_in_process_def Let_def split: prod.splits sum.splits option.splits)

text \<open>What a second caller shares with the first: the place and the state of the file.\<close>

definition same_file :: "transcriber_env \<Rightarrow> transcriber_env \<Rightarrow> path \<Rightarrow> bool" where
  "same_file env env2 file \<longleftrightarrow> te_resolve env2 file = te_resolve env file
     \<and> te_mtime env2 (path_str (te_resolve env file)) = te_mtime env (path_str (te_resolve env file))"

text \<open>A transcription is computed once: after a call succeeded, every later call for the unchanged
  file with the same model and language returns the same result, whatever the tools would answer by
  then, and changes nothing. A call that fails leaves no result behind: the cache of transcriptions
  is as before, and past the look at the file the exception says for which file and model
  it failed.\<close>

theorem transcription_cached:
  assumes "transcribe_with_whisper env file name lang st = (r, st1)"
  shows "case r of
      Inr t \<Rightarrow> same_file env env2 file \<longrightarrow> transcribe_with_whisper env2 file name lang st1 = (Inr t, st1)
    | Inl e \<Rightarrow> transcription_cache st1 = transcription_cache st
        \<and> (te_mtime env (path_str (te_resolve env file)) \<noteq> Inl e \<longrightarrow>
            (\<exists>m. e = RuntimeError (''Transcription failed for '' @ path_name (te_resolve env file) @ '' ('' @ name @ ''): '' @ m)))"
proof (cases "te_mtime env (path_str (te_resolve env file))")
  case (Inl e)
  then show ?thesis using assms by (auto simp: transcribe_with_whisper_def Let_def)
next
  case (Inr mtime)
  obtain q st2 where q: "transcribe_in_process env (te_resolve env file) name lang st = (q, st2)" by fastforce
  note kept = in_process_keeps_transcriptions [OF q]
  show ?thesis
    using assms kept
    by (auto simp: transcribe_with_whisper_def Let_def Inr q same_file_def split: option.splits sum.splits)
qed

section \<open>The order of the segments\<close>

definition in_order :: "segment list \<Rightarrow> bool" where
  "in_order sgs \<longleftrightarrow> sorted (map sg_start sgs)"

definition starts_between :: "rat \<Rightarrow> rat \<Rightarrow> segment list \<Rightarrow> bool" where
  "starts_between a b sgs \<longleftrightarrow> list_all (\<lambda>s. a \<le> sg_start s \<and> sg_start s \<le> b) sgs"

text \<open>What is asked of a model: the segments of a clip are in order and start inside the clip.\<close>

definition orderly :: "transcriber_env \<Rightarrow> speech_model \<Rightarrow> path \<Rightarrow> string option \<Rightarrow> bool" where
  "orderly env model input_file language \<longleftrightarrow>
     (\<forall>index start_at len audio t. 0 < len \<longrightarrow>
        extract_audio_chunk env input_file (chunk_file env index) start_at len = Inr audio \<longrightarrow>
        transcribe_audio_file model (path_str (chunk_file env index)) audio language = Inr t \<longrightarrow>
        in_order (tr_segments t) \<and> starts_between 0 len (tr_segments t))"

lemma shift_in_order: "in_order sgs \<Longrightarrow> in_order (map (shift_segment a) sgs)"
  by (auto simp: in_order_def shift_segment_def sorted_map intro: sorted_wrt_mono_rel [of sgs])

lemma shift_between: "starts_between 0 len sgs \<Longrightarrow> starts_between a (a + len) (map (shift_segment a) sgs)"
  by (auto simp: starts_between_def shift_segment_def list_all_iff)

lemma chunk_segments:
  assumes "orderly env model input_file language"
    and "transcribe_chunk env model input_file language (i, start_at, len) = Inr t" and "0 < len"
  shows "in_order (tr_segments t)" "starts_between start_at (start_at + len) (tr_segments t)"
proof -
  obtain audio u where "extract_audio_chunk env input_file (chunk_file env i) start_at len = Inr audio"
      "transcribe_audio_file model (path_str (chunk_file env i)) audio language = Inr u"
      and t: "t = offset_transcription_result u start_at"
    using assms(2) by (auto simp: transcribe_chunk_def bind_result_Inr map_sum_InrE)
  then have "in_order (tr_segments u)" "starts_between 0 len (tr_segments u)"
    using assms(1,3) unfolding orderly_def by blast+
  then show "in_order (tr_segments t)" "starts_between start_at (start_at + len) (tr_segments t)"
    by (simp_all add: t offset_transcription_result_def shift_in_order shift_between)
qed

lemma in_order_append:
  "in_order xs \<Longrightarrow> in_order ys \<Longrightarrow> starts_between a b xs \<Longrightarrow> starts_between b c ys \<Longrightarrow> in_order (xs @ ys)"
  by (fastforce simp: in_order_def starts_between_def list_all_iff sorted_append)

lemma starts_between_mono: "starts_between a b xs \<Longrightarrow> a' \<le> a \<Longrightarrow> b \<le> b' \<Longrightarrow> starts_between a' b' xs"
  by (auto simp: starts_between_def list_all_iff)

lemma joined_in_order:
  assumes "orderly env model input_file language"
  shows "adjacent since plan until \<Longrightarrow> list_all (\<lambda>(_, _, len). 0 < len) plan \<Longrightarrow>
    list_all2 (\<lambda>ch t. transcribe_chunk env model input_file language ch = Inr t) plan ts \<Longrightarrow>
    since \<le> until \<and> in_order (concat (map tr_segments ts)) \<and> starts_between since until (concat (map tr_segments ts))"
proof (induction since plan until arbitrary: ts rule: adjacent.induct)
  case (1 since until)
  then show ?case by (simp add: in_order_def starts_between_def)
next
  case (2 since i start_at len cs until)
  from 2(4) obtain t us where ts: "ts = t # us"
      and t: "transcribe_chunk env model input_file language (i, start_at, len) = Inr t"
      and us: "list_all2 (\<lambda>ch t. transcribe_chunk env model input_file language ch = Inr t) cs us"
    by (auto simp: list_all2_Cons1)
  have s: "start_at = since" "0 < len" using 2(2,3) by simp_all
  have ih: "start_at + len \<le> until" "in_order (concat (map tr_segments us))"
      "starts_between (start_at + len) until (concat (map tr_segments us))"
    using 2(1) [OF _ _ us] 2(2,3) by auto
  note c = chunk_segments [OF assms t s(2)]
  have "in_order (concat (map tr_segments ts))" using in_order_append [OF c(1) ih(2) c(2) ih(3)] by (simp add: ts)
  moreover have "starts_between since until (tr_segments t)" using starts_between_mono [OF c(2), of since until] s ih(1) by simp
  moreover have "starts_between since until (concat (map tr_segments us))" using starts_between_mono [OF ih(3), of since until] s by simp
  ultimately show ?case using s ih(1) by (auto simp: ts starts_between_def)
qed

text \<open>C21: A long recording reads like one transcription: when the model's segments of each clip are in
  order and start inside the clip, the joined segments of all chunks are in order of their start on
  the recording's own clock, from 0 to its duration.\<close>

theorem chunked_in_order:
  assumes "orderly env model input_file language" and "0 < c" and "0 < d"
    and "map_sum id join_results (traverse (transcribe_chunk env model input_file language) (chunk_plan d (Fin c))) = Inr t"
  shows "in_order (tr_segments t) \<and> starts_between 0 d (tr_segments t)"
proof -
  obtain ts where ts: "list_all2 (\<lambda>ch t. transcribe_chunk env model input_file language ch = Inr t) (chunk_plan d (Fin c)) ts"
      and t: "t = join_results ts"
    using assms(4) by (auto simp: map_sum_InrE traverse_Inr)
  have tiles: "adjacent 0 (chunk_plan d (Fin c)) d" "list_all (\<lambda>(_, _, len). 0 < len) (chunk_plan d (Fin c))"
    using chunk_plan_facts [OF assms(2,3)] by (auto simp: list_all_iff)
  show ?thesis using joined_in_order [OF assms(1) tiles ts] by (simp add: t join_results_def)
qed

definition constant_model :: speech_model where
  "constant_model audio language = Inr ([\<lparr>rs_start = 0, rs_end = 1, rs_text = Some ''hi''\<rparr>], None)"

definition talk_env :: transcriber_env where
  "talk_env =
     \<lparr>te_getenv = (\<lambda>_. None), te_expand = id, te_resolve = id, te_mkdir = (\<lambda>_. None), te_mtime = (\<lambda>_. Inr 7),
      te_read = (\<lambda>_. ''sound''), te_probe = (\<lambda>_. Some ''2000''), te_ffmpeg = (\<lambda>_. Wrote ''clip''),
      te_load = (\<lambda>_ _. Inr constant_model), te_tempdir = path_of ''/tmp/t''\<rparr>"

definition idle_transcriber :: transcriber where
  "idle_transcriber = \<lparr>model_cache = [], transcription_cache = []\<rparr>"

theorem chunked_in_order_witness:
  "\<exists>t. map_sum id join_results (traverse (transcribe_chunk talk_env constant_model (path_of ''/a.mp3'') None) (chunk_plan 2000 (Fin 900)))
       = Inr t \<and> length (tr_segments t) = 3 \<and> in_order (tr_segments t)"
proof -
  let ?r = "map_sum id join_results (traverse (transcribe_chunk talk_env constant_model (path_of ''/a.mp3'') None) (chunk_plan 2000 (Fin 900)))"
  have "(case ?r of Inr t \<Rightarrow> length (tr_segments t) = 3 | Inl _ \<Rightarrow> False)" by code_simp
  then obtain t where t: "?r = Inr t" "length (tr_segments t) = 3" by (cases ?r) auto
  have "orderly talk_env constant_model (path_of ''/a.mp3'') None"
    by (auto simp: orderly_def transcribe_audio_file_def constant_model_def normalize_result_def Let_def read_segment_def
        in_order_def starts_between_def)
  then show ?thesis using chunked_in_order [of talk_env constant_model "path_of ''/a.mp3''" None 900 2000 t] t by auto
qed

theorem transcription_cached_witness:
  "\<exists>t st1. transcribe_with_whisper talk_env (path_of ''/a.mp3'') ''base'' (Some ''en'') idle_transcriber = (Inr t, st1)
     \<and> transcribe_with_whisper (talk_env\<lparr>te_probe := \<lambda>_. None\<rparr>) (path_of ''/a.mp3'') ''base'' (Some ''en'') st1 = (Inr t, st1)"
proof -
  obtain r st1 where r: "transcribe_with_whisper talk_env (path_of ''/a.mp3'') ''base'' (Some ''en'') idle_transcriber = (r, st1)"
    by fastforce
  have "(case fst (transcribe_with_whisper talk_env (path_of ''/a.mp3'') ''base'' (Some ''en'') idle_transcriber) of
      Inl _ \<Rightarrow> False | Inr _ \<Rightarrow> True)" by code_simp
  then obtain t where t: "r = Inr t" using r by (cases r) auto
  moreover have "same_file talk_env (talk_env\<lparr>te_probe := \<lambda>_. None\<rparr>) (path_of ''/a.mp3'')" by (simp add: same_file_def)
  ultimately show ?thesis
    using transcription_cached [OF r, of "talk_env\<lparr>te_probe := \<lambda>_. None\<rparr>"] r by simp
qed

section \<open>With the subtitle sidecars\<close>

text \<open>The recogniser the sidecars are given: the segments of the transcription of a path.\<close>

definition whisper_for ::
    "transcriber_env \<Rightarrow> string \<Rightarrow> string option \<Rightarrow> transcriber \<Rightarrow> string \<Rightarrow> error + segment list" where
  "whisper_for env model_name language st p =
     map_sum id tr_segments (fst (transcribe_with_whisper env (path_of p) model_name language st))"

lemma contains_sub_append: "contains_sub p (xs @ p @ ys)"
proof (induction xs)
  case Nil
  show ?case by (cases p; cases ys) auto
next
  case (Cons x xs)
  then show ?case by simp
qed

lemma undecodable_fails_known:
  assumes "te_mtime tenv (path_str (te_resolve tenv (path_of p))) = Inr mt"
    and "map_of (transcription_cache st) (path_str (te_resolve tenv (path_of p)), mt, name, lang) = None"
    and "get_or_load_whisper_model tenv name st = (Inr model, st1)"
    and "cutting tenv (probe_audio_duration tenv (te_resolve tenv (path_of p))) = None"
    and "model (te_read tenv (path_str (te_resolve tenv (path_of p)))) (nonempty_language lang) = Inl (IndexError m)"
    and "contains_sub ''tuple index out of range'' m"
  shows "\<exists>e. whisper_for tenv name lang st p = Inl e \<and> empty_audio_failure e"
proof -
  let ?f = "te_resolve tenv (path_of p)" and ?p = "''No decodable audio stream found in media file''"
  let ?e = "RuntimeError (''Transcription failed for '' @ path_name ?f @ '' ('' @ name @ ''): '' @ ?p @ '': '' @ path_str ?f)"
  have "whisper_for tenv name lang st p = Inl ?e"
    using assms by (simp add: whisper_for_def transcribe_with_whisper_def transcribe_in_process_def transcribe_audio_file_def Let_def)
  moreover have "contains_sub ?p (error_text ?e)"
    using contains_sub_append [of ?p "''Transcription failed for '' @ path_name ?f @ '' ('' @ name @ ''): ''" "'': '' @ path_str ?f"]
    by simp
  ultimately show ?thesis by (auto simp: empty_audio_failure_def KNOWN_EMPTY_AUDIO_FAILURE_PATTERNS_def)
qed

lemma failed_marker_name: "failed_marker sub = with_name sub (path_name sub @ ''.failed'')"
  using dot_split_concat [of "path_name sub"]
  by (simp add: failed_marker_def with_suffix_def path_stem_def path_suffix_def) (metis append.assoc)

lemma suffix_one_dot: "CHR ''.'' \<notin> set (tl (path_suffix p))"
  by (auto simp: path_suffix_def dot_split_def Let_def dest: set_takeWhileD)

lemma srt_marker:
  "failed_marker (with_suffix media ''.srt'') = with_name media (path_stem media @ ''.srt.failed'')"
  by (simp add: failed_marker_name with_suffix_def with_name_def path_name_def)

lemma srt_marker_other:
  assumes "path_parts media \<noteq> []"
  shows "path_str (failed_marker (with_suffix media ''.srt'')) \<noteq> path_str media"
    "path_str (failed_marker (with_suffix media ''.srt'')) \<noteq> path_str (with_suffix media ''.srt'')"
proof -
  let ?ps = "butlast (path_parts media)"
  have m: "media = Path (is_absolute media) (?ps @ [path_name media])"
    using assms by (cases media) (simp add: path_name_def)
  show "path_str (failed_marker (with_suffix media ''.srt'')) \<noteq> path_str media"
  proof
    assume "path_str (failed_marker (with_suffix media ''.srt'')) = path_str media"
    then have "path_str (Path (is_absolute media) (?ps @ [path_stem media @ ''.srt.failed''])) =
        path_str (Path (is_absolute media) (?ps @ [path_name media]))"
      using m by (simp add: srt_marker with_name_def)
    then have "path_stem media @ ''.srt.failed'' = path_name media" by (rule path_str_snoc_inject)
    also have "\<dots> = path_stem media @ path_suffix media"
      using dot_split_concat by (simp add: path_stem_def path_suffix_def)
    finally have "path_suffix media = ''.srt.failed''" by simp
    then show False using suffix_one_dot [of media] by simp
  qed
  show "path_str (failed_marker (with_suffix media ''.srt'')) \<noteq> path_str (with_suffix media ''.srt'')"
  proof
    assume "path_str (failed_marker (with_suffix media ''.srt'')) = path_str (with_suffix media ''.srt'')"
    then have "path_str (Path (is_absolute media) (?ps @ [path_stem media @ ''.srt.failed''])) =
        path_str (Path (is_absolute media) (?ps @ [path_stem media @ ''.srt'']))"
      unfolding srt_marker unfolding with_name_def with_suffix_def .
    then have "path_stem media @ ''.srt.failed'' = path_stem media @ ''.srt''" by (rule path_str_snoc_inject)
    then show False by simp
  qed
qed

text \<open>A media file without a decodable audio stream is tried once: the recogniser's failure reaches
  the sidecars as a known one, they leave a marker and no subtitle, and from then on, until the file
  changes, the generation ends at the marker without asking any recogniser.\<close>

theorem undecodable_tried_once:
  assumes "wh_transcribe wenv = whisper_for tenv name lang st" and "path_parts media \<noteq> []"
    and "te_mtime tenv (path_str (te_resolve tenv (path_of (path_str media)))) = Inr mt"
    and "map_of (transcription_cache st) (path_str (te_resolve tenv (path_of (path_str media))), mt, name, lang) = None"
    and "get_or_load_whisper_model tenv name st = (Inr model, st1)"
    and "cutting tenv (probe_audio_duration tenv (te_resolve tenv (path_of (path_str media)))) = None"
    and "model (te_read tenv (path_str (te_resolve tenv (path_of (path_str media))))) (nonempty_language lang) = Inl (IndexError m)"
    and "contains_sub ''tuple index out of range'' m"
    and "\<not> fresh_file ms (with_suffix media ''.srt'') media" and "ms_mtime ms (path_str media) \<le> wh_now wenv"
  shows "\<exists>ms1. generate_whisper_subtitles wenv media offset ms = (Inr None, ms1)
    \<and> (\<forall>wenv2. generate_whisper_subtitles wenv2 media offset ms1 = (Inr None, ms1))"
proof (cases "fresh_file ms (failed_marker (with_suffix media ''.srt'')) media")
  case True
  then show ?thesis using assms(9) by (simp add: generate_whisper_subtitles_def Let_def)
next
  case False
  let ?sub = "with_suffix media ''.srt''" and ?marker = "failed_marker (with_suffix media ''.srt'')"
  obtain e where e: "whisper_for tenv name lang st (path_str media) = Inl e" "empty_audio_failure e"
    using undecodable_fails_known [OF assms(3-8)] by blast
  define t where "t = ''Known Whisper empty-audio failure for '' @ path_name media @ [CHR 0x0A] @ error_text e @ [CHR 0x0A]"
  define ms1 where "ms1 = write_text (wh_now wenv) ?marker t ms"
  have g: "generate_whisper_subtitles wenv media offset ms = (Inr None, ms1)"
    using assms(1,9) False e by (simp add: generate_whisper_subtitles_def Let_def ms1_def t_def)
  note other = srt_marker_other [OF assms(2)]
  have "fresh_file ms1 ?marker media" "\<not> fresh_file ms1 ?sub media"
    using other assms(9,10) by (auto simp: fresh_file_def ms1_def write_text_def path_exists_def)
  then have "generate_whisper_subtitles wenv2 media offset ms1 = (Inr None, ms1)" for wenv2
    by (simp add: generate_whisper_subtitles_def Let_def)
  then show ?thesis using g by blast
qed

definition silent_model :: speech_model where
  "silent_model audio language = Inl (IndexError ''tuple index out of range'')"

definition silent_env :: transcriber_env where
  "silent_env = talk_env\<lparr>te_probe := (\<lambda>_. Some ''60''), te_load := (\<lambda>_ _. Inr silent_model)\<rparr>"

definition silent_sidecars :: whisper_env where
  "silent_sidecars =
     \<lparr>wh_media = plain_media_env, wh_transcribe = whisper_for silent_env ''base'' (Some ''en'') idle_transcriber, wh_now = 9\<rparr>"

theorem undecodable_tried_once_witness:
  "\<exists>ms1. generate_whisper_subtitles silent_sidecars (path_of ''/m/Talk.mp3'') pf_zero talk_store = (Inr None, ms1)
    \<and> generate_whisper_subtitles (silent_sidecars\<lparr>wh_transcribe := \<lambda>_. Inr []\<rparr>) (path_of ''/m/Talk.mp3'') pf_zero ms1 = (Inr None, ms1)"
proof -
  let ?p = "path_of ''/m/Talk.mp3''"
  obtain st1 where l: "get_or_load_whisper_model silent_env ''base'' idle_transcriber = (Inr silent_model, st1)"
    by (auto simp: get_or_load_whisper_model_def silent_env_def talk_env_def idle_transcriber_def Let_def)
  have c: "cutting silent_env (probe_audio_duration silent_env (te_resolve silent_env (path_of (path_str ?p)))) = None"
    by code_simp
  have m: "silent_model (te_read silent_env (path_str (te_resolve silent_env (path_of (path_str ?p))))) (nonempty_language (Some ''en''))
      = Inl (IndexError ''tuple index out of range'')" by (simp add: silent_model_def)
  have f: "\<not> fresh_file talk_store (with_suffix ?p ''.srt'') ?p" by code_simp
  have n: "path_parts ?p \<noteq> []" by code_simp
  have s: "contains_sub ''tuple index out of range'' ''tuple index out of range''" by code_simp
  have t: "te_mtime silent_env (path_str (te_resolve silent_env (path_of (path_str ?p)))) = Inr 7"
    by (simp add: silent_env_def talk_env_def)
  have o: "ms_mtime talk_store (path_str ?p) \<le> wh_now silent_sidecars" by (simp add: talk_store_def silent_sidecars_def)
  show ?thesis
    using undecodable_tried_once [OF _ n t _ l c m s f o, of pf_zero] by (auto simp: silent_sidecars_def idle_transcriber_def)
qed

text \<open>
  A recording long enough to be cut whose audio \<open>ffmpeg\<close> refuses to extract: what \<open>ffmpeg\<close> says goes to
  the log and not into the exception, which holds the command and the status alone. The patterns
  for the messages of \<open>ffmpeg\<close> among the known failures look for a text that is never there.
\<close>

lemma extraction_failure_text:
  assumes "te_mtime env (path_str (te_resolve env (path_of p))) = Inr mt"
    and "map_of (transcription_cache st) (path_str (te_resolve env (path_of p)), mt, name, lang) = None"
    and "get_or_load_whisper_model env name st = (Inr model, st1)"
    and "cutting env (probe_audio_duration env (te_resolve env (path_of p))) = Some (d, chunk)"
    and "chunk_plan d chunk = (i, start_at, len) # chunks"
    and "te_ffmpeg env (chunk_command (path_str (te_resolve env (path_of p))) (path_str (chunk_file env i)) start_at len) = Exited n"
  shows "whisper_for env name lang st p =
    Inl (RuntimeError (''Transcription failed for '' @ path_name (te_resolve env (path_of p)) @ '' ('' @ name @ ''): ''
      @ error_text (failed_command (chunk_command (path_str (te_resolve env (path_of p))) (path_str (chunk_file env i)) start_at len)
          ('' returned non-zero exit status '' @ str_of_int n @ ''.''))))"
  using assms
  by (simp add: whisper_for_def transcribe_with_whisper_def transcribe_in_process_def transcribe_chunk_def
      extract_audio_chunk_def Let_def)

text \<open>With an infinite chunk length a recording above the threshold is cut into no chunk at all.\<close>

lemma infinite_chunk_transcribes_nothing:
  "te_getenv env ''GETOFFLINE_TRANSCRIPTION_CHUNK_SECONDS'' = Some ''inf'' \<Longrightarrow>
   te_getenv env ''GETOFFLINE_TRANSCRIPTION_CHUNK_THRESHOLD_SECONDS'' = None \<Longrightarrow> 1800 < d \<Longrightarrow>
     cutting env (Some d) = Some (d, PosInf) \<and> chunk_plan d PosInf = []"
proof -
  have "py_float ''inf'' = Some PosInf" by code_simp
  then show "te_getenv env ''GETOFFLINE_TRANSCRIPTION_CHUNK_SECONDS'' = Some ''inf'' \<Longrightarrow>
   te_getenv env ''GETOFFLINE_TRANSCRIPTION_CHUNK_THRESHOLD_SECONDS'' = None \<Longrightarrow> 1800 < d \<Longrightarrow>
     cutting env (Some d) = Some (d, PosInf) \<and> chunk_plan d PosInf = []"
    by (simp add: cutting_def env_float_def chunk_plan_def chunk_count_def)
qed

end
