(* ===== verification/ConsoleFiles.thy ===== *)
theory ConsoleFiles
  imports Auth Transcriber "HOL-Library.List_Lexorder" "HOL-Library.Char_ord"
begin

text \<open>
  The parts of the console client (\<open>src/src/cli/app.py\<close>) that keep no state: stored credentials, volumes,
  the rows of the list, names and extensions of downloaded files, the download cache, the bridge's
  URLs and the command lines of the players. Files are an association list from path texts to
  bytes; the media server's answer, the table of MIME types and the text of a float are arguments.
\<close>

section \<open>Volumes\<close>

definition pf_min :: "pyfloat \<Rightarrow> pyfloat \<Rightarrow> pyfloat" where
  "pf_min a b = (if pf_lt b a then b else a)"

definition clamp_volume :: "pyfloat \<Rightarrow> pyfloat" where
  "clamp_volume v = pf_max pf_zero (pf_min v (Fin 1))"

text \<open>\<open>round\<close> of a clamped volume in percent; a clamped volume is finite.\<close>

definition volume_percent :: "pyfloat \<Rightarrow> int" where
  "volume_percent v = (case clamp_volume v of Fin q \<Rightarrow> round_half_even (q * 100) | _ \<Rightarrow> 0)"

definition format_volume :: "pyfloat \<Rightarrow> string" where
  "format_volume v = str_of_int (volume_percent v) @ ''%''"

section \<open>Credentials\<close>

record credentials =
  cr_base_url :: string
  cr_username :: string
  cr_password :: string
  cr_playback_backend :: string
  cr_bridge_url :: string
  cr_bridge_stop_url :: string
  cr_bridge_volume_url :: string
  cr_volume :: pyfloat

definition api_url :: "credentials \<Rightarrow> string" where
  "api_url c = rstrip_chars slash (cr_base_url c) @ ''/api''"

definition auth_header :: "credentials \<Rightarrow> string" where
  "auth_header c = ''Basic '' @ b64_encode (utf8 (cr_username c @ '':'' @ cr_password c))"

definition authenticated_request :: "credentials \<Rightarrow> sdk_request \<Rightarrow> sdk_request" where
  "authenticated_request c rq =
     rq\<lparr>rqs_headers := fold (\<lambda>(k, v) d. AList.update k v d) (rqs_headers rq) [(''Authorization'', auth_header c)]\<rparr>"

definition authenticated_transport :: "url_resolver \<Rightarrow> server \<Rightarrow> credentials \<Rightarrow> transport" where
  "authenticated_transport reverse_url server c rq =
     http_transport_request (new_http_transport reverse_url server (api_url c)) (authenticated_request c rq)"

definition DEFAULT_PLAYBACK_BACKEND :: string where
  "DEFAULT_PLAYBACK_BACKEND = ''local''"

definition required_key :: "pydict \<Rightarrow> string \<Rightarrow> error + string" where
  "required_key d k = (case map_of d k of None \<Rightarrow> Inl (KeyError k) | Some v \<Rightarrow> Inr (py_str v))"

text \<open>\<open>float(v)\<close> of a JSON value.\<close>

fun float_of_value :: "pyval \<Rightarrow> error + pyfloat" where
  "float_of_value (PInt n) = Inr (Fin (of_int n))"
| "float_of_value (PBool b) = Inr (Fin (if b then 1 else 0))"
| "float_of_value (PFloat s) = (case py_float s of Some f \<Rightarrow> Inr f | None \<Rightarrow> Inl (ValueError s))"
| "float_of_value (PStr s) = (case py_float s of Some f \<Rightarrow> Inr f | None \<Rightarrow> Inl (ValueError s))"
| "float_of_value v = Inl (TypeError (py_repr v))"

definition read_credentials :: "pydict \<Rightarrow> error + credentials" where
  "read_credentials d =
     bind_result (required_key d ''base_url'') (\<lambda>base.
     bind_result (required_key d ''username'') (\<lambda>user.
     bind_result (required_key d ''password'') (\<lambda>pw.
     bind_result (float_of_value (dget_default d ''volume'' (PFloat ''1.0''))) (\<lambda>volume.
       Inr \<lparr>cr_base_url = base, cr_username = user, cr_password = pw,
            cr_playback_backend = py_str (py_or (dget d ''playback_backend'') (PStr DEFAULT_PLAYBACK_BACKEND)),
            cr_bridge_url = str_or_empty (dget d ''bridge_url''),
            cr_bridge_stop_url = str_or_empty (dget d ''bridge_stop_url''),
            cr_bridge_volume_url = str_or_empty (dget d ''bridge_volume_url''),
            cr_volume = clamp_volume volume\<rparr>))))"

text \<open>The credentials file: absent, or the object its text decodes to.\<close>

definition load_credentials :: "(error + pydict) option \<Rightarrow> error + credentials option" where
  "load_credentials file =
     (case file of None \<Rightarrow> Inr None | Some d \<Rightarrow> bind_result d (\<lambda>d. map_sum id Some (read_credentials d)))"

definition save_credentials :: "(pyfloat \<Rightarrow> string) \<Rightarrow> credentials \<Rightarrow> pydict" where
  "save_credentials show_float c =
     [(''base_url'', PStr (cr_base_url c)), (''username'', PStr (cr_username c)), (''password'', PStr (cr_password c)),
      (''playback_backend'', PStr (cr_playback_backend c)), (''bridge_url'', PStr (cr_bridge_url c)),
      (''bridge_stop_url'', PStr (cr_bridge_stop_url c)), (''bridge_volume_url'', PStr (cr_bridge_volume_url c)),
      (''volume'', PFloat (show_float (cr_volume c)))]"

text \<open>
  \<open>login\<close> with the answers of the prompts: the credentials and the file they are saved in, unless the
  API does not name a user for them.
\<close>

definition console_login ::
    "(credentials \<Rightarrow> sdk_client) \<Rightarrow> (pyfloat \<Rightarrow> string) \<Rightarrow> string option \<Rightarrow> string option \<Rightarrow>
     string \<Rightarrow> string \<Rightarrow> string \<Rightarrow> error + (credentials \<times> pydict)" where
  "console_login client_of show_float base_url username asked_base asked_user password =
     (let base = (case base_url of Some b \<Rightarrow> or_else b (py_strip asked_base) | None \<Rightarrow> py_strip asked_base);
          user = (case username of Some u \<Rightarrow> or_else u (py_strip asked_user) | None \<Rightarrow> py_strip asked_user);
          c = \<lparr>cr_base_url = base, cr_username = user, cr_password = password,
               cr_playback_backend = DEFAULT_PLAYBACK_BACKEND, cr_bridge_url = [], cr_bridge_stop_url = [],
               cr_bridge_volume_url = [], cr_volume = Fin 1\<rparr>
      in bind_result (client_user (client_of c)) (\<lambda>payload.
           if \<not> truthy (dget payload ''user'')
           then Inl (SystemExit ''Login failed: API did not accept the supplied credentials'')
           else Inr (c, save_credentials show_float c)))"

section \<open>Rows of the list\<close>

text \<open>The ellipsis lies outside the modelled characters; one character stands for it.\<close>

definition ellipsis :: char where
  "ellipsis = CHR 0x85"

definition truncate_text :: "string \<Rightarrow> int \<Rightarrow> string" where
  "truncate_text value max_width =
     (if int (length value) \<le> max_width then value
      else if max_width \<le> 1 then (if 0 \<le> max_width then take (nat max_width) value
                                  else take (length value - nat (- max_width)) value)
      else take (nat (max_width - 1)) value @ [ellipsis])"

fun split_by :: "(char \<Rightarrow> bool) \<Rightarrow> string \<Rightarrow> string list" where
  "split_by P [] = [[]]"
| "split_by P (c # s) =
     (if P c then [] # split_by P s else (case split_by P s of w # ws \<Rightarrow> (c # w) # ws | [] \<Rightarrow> [[c]]))"

definition words_of :: "string \<Rightarrow> string list" where
  "words_of s = filter (\<lambda>w. w \<noteq> []) (split_by is_space s)"

definition ljust :: "int \<Rightarrow> string \<Rightarrow> string" where
  "ljust width s = s @ replicate (nat width - length s) CHR '' ''"

definition format_episode_row :: "string \<Rightarrow> string \<Rightarrow> string \<Rightarrow> int \<Rightarrow> string" where
  "format_episode_row played source title width =
     (let chrome_width = 1 + 8 + 1 + 2;
          source_width = min 24 (max 10 (width div 4));
          title_width = max (width - chrome_width - source_width) 10;
          clean_source = join_with '' '' (words_of source);
          clean_title = join_with '' '' (words_of title)
      in '' '' @ ljust 8 (take 8 played) @ '' '' @ ljust source_width (truncate_text clean_source source_width) @ ''  ''
           @ truncate_text clean_title title_width)"

text \<open>What is written at a position of a window, if anything.\<close>

definition addnstr_text :: "int \<Rightarrow> int \<Rightarrow> int \<Rightarrow> int \<Rightarrow> string \<Rightarrow> string option" where
  "addnstr_text height width y x shown =
     (if y < 0 \<or> height \<le> y \<or> x < 0 \<or> width \<le> x then None
      else let available = max (width - x - 1) 0 in
        if available \<le> 0 then None else Some (take (nat available) (ljust available shown)))"

section \<open>Downloaded files\<close>

definition safe_filename_char :: "char \<Rightarrow> bool" where
  "safe_filename_char c \<longleftrightarrow> (is_word_char c \<and> c \<noteq> CHR ''_'') \<or> c \<in> set ''._- ''"

definition safe_filename :: "string \<Rightarrow> string" where
  "safe_filename value =
     (let cleaned = map (\<lambda>c. if safe_filename_char c then c else CHR ''-'') value;
          joined = join_with ''-'' (words_of cleaned)
      in take 120 (or_else (strip_chars (\<lambda>c. c = CHR ''.'' \<or> c = CHR ''-'') joined) ''media''))"

definition media_download_stem :: "path \<Rightarrow> int \<Rightarrow> pydict \<Rightarrow> path" where
  "media_download_stem dir episode_id item =
     (let title = py_str (py_or (dget item ''title'') (PStr (''episode-'' @ str_of_int episode_id))) in
      path_join dir (path_of (str_of_int episode_id @ ''-'' @ safe_filename title)))"

definition item_media_kind :: "pydict \<Rightarrow> string" where
  "item_media_kind item = py_str (py_or (py_or (dget item ''media_kind'') (dget item ''display_kind'')) (PStr ''audio''))"

definition default_media_extension :: "pydict \<Rightarrow> string" where
  "default_media_extension item = (if py_lower (item_media_kind item) = ''video'' then ''.mp4'' else ''.mp3'')"

definition media_download_path :: "path \<Rightarrow> int \<Rightarrow> pydict \<Rightarrow> path" where
  "media_download_path dir episode_id item = with_suffix (media_download_stem dir episode_id item) (default_media_extension item)"

type_synonym local_files = "(string \<times> string) list"

definition holds_file :: "local_files \<Rightarrow> path \<Rightarrow> bool" where
  "holds_file fs p \<longleftrightarrow> map_of fs (path_str p) \<noteq> None"

definition drop_file :: "path \<Rightarrow> local_files \<Rightarrow> local_files" where
  "drop_file p fs = filter (\<lambda>e. fst e \<noteq> path_str p) fs"

definition put_file :: "path \<Rightarrow> string \<Rightarrow> local_files \<Rightarrow> local_files" where
  "put_file p bytes fs = AList.update (path_str p) bytes fs"

definition move_file :: "path \<Rightarrow> path \<Rightarrow> local_files \<Rightarrow> local_files" where
  "move_file p q fs = (case map_of fs (path_str p) of None \<Rightarrow> fs | Some bytes \<Rightarrow> put_file q bytes (drop_file p fs))"

text \<open>\<open>sorted(stem.parent.glob(stem.name + ".*"))\<close>: the siblings whose name starts with the stem and a dot.\<close>

definition stem_siblings :: "local_files \<Rightarrow> path \<Rightarrow> path list" where
  "stem_siblings fs stem =
     map path_of (sort (map fst (filter (\<lambda>e. child_of (path_parent stem) (fst e)
        \<and> glob_match (read_glob (path_name stem @ ''.*'')) (path_name (path_of (fst e)))) fs)))"

definition existing_media_download_path :: "local_files \<Rightarrow> path \<Rightarrow> int \<Rightarrow> pydict \<Rightarrow> path option" where
  "existing_media_download_path fs dir episode_id item =
     (let stem = media_download_stem dir episode_id item; named = with_suffix stem (default_media_extension item) in
      if holds_file fs named then Some named else List.find (holds_file fs) (stem_siblings fs stem))"

definition media_extension_from_response :: "(string \<Rightarrow> string option) \<Rightarrow> string \<Rightarrow> string" where
  "media_extension_from_response guess_extension content_type =
     (let extension = (if content_type \<noteq> [] then guess_extension content_type else None) in
      if content_type = ''audio/mp4'' then ''.m4a''
      else (case extension of None \<Rightarrow> ''.mp3'' | Some e \<Rightarrow> or_else e ''.mp3''))"

definition media_extension_from_bytes :: "string \<Rightarrow> string" where
  "media_extension_from_bytes content =
     (let header = take 16 content in
      if prefix ''ID3'' header \<or> take 2 header \<in> {[CHR 0xFF, CHR 0xFB], [CHR 0xFF, CHR 0xF3], [CHR 0xFF, CHR 0xF2]} then ''.mp3''
      else if prefix [CHR 0x1A, CHR 0x45, CHR 0xDF, CHR 0xA3] header then ''.webm''
      else if 12 \<le> length header \<and> take 4 (drop 4 header) = ''ftyp'' then ''.m4a''
      else [])"

definition normalize_cached_media_extension :: "local_files \<Rightarrow> path \<Rightarrow> path \<times> local_files" where
  "normalize_cached_media_extension fs p =
     (let extension = media_extension_from_bytes (case map_of fs (path_str p) of None \<Rightarrow> [] | Some b \<Rightarrow> b) in
      if extension = py_lower (path_suffix p) \<or> extension = [] then (p, fs)
      else let renamed = with_suffix p extension in
        if holds_file fs renamed then (p, fs) else (renamed, move_file p renamed fs))"

text \<open>
  The answer to a download: refused before a byte came, broken off by an error the code catches
  after some bytes, broken off by anything else (a signal, an exception of another kind), or complete
  with its content type.
\<close>

datatype download_answer =
    DownloadRefused string
  | DownloadBroken string string
  | DownloadAborted string error
  | DownloadComplete string string

definition part_path :: "path \<Rightarrow> path" where
  "part_path stem = with_name stem (path_name stem @ ''.part'')"

definition fetch_media_file ::
    "(string \<Rightarrow> string option) \<Rightarrow> path \<Rightarrow> download_answer \<Rightarrow> local_files \<Rightarrow> (error + path) \<times> local_files" where
  "fetch_media_file guess_extension stem answer fs =
     (let tmp = part_path stem in
      case answer of
        DownloadRefused m \<Rightarrow> (Inl (PlaybackError (''download failed: '' @ m)), drop_file tmp fs)
      | DownloadBroken bytes m \<Rightarrow> (Inl (PlaybackError (''download failed: '' @ m)), drop_file tmp (put_file tmp bytes fs))
      | DownloadAborted bytes e \<Rightarrow> (Inl e, put_file tmp bytes fs)
      | DownloadComplete bytes content_type \<Rightarrow>
          (let p = with_suffix stem (media_extension_from_response guess_extension content_type) in
           (Inr p, move_file tmp p (put_file tmp bytes fs))))"

definition download_media_file ::
    "(string \<Rightarrow> string option) \<Rightarrow> path \<Rightarrow> int \<Rightarrow> pydict \<Rightarrow> download_answer \<Rightarrow> local_files \<Rightarrow> (error + path) \<times> local_files" where
  "download_media_file guess_extension dir episode_id item answer fs =
     (case existing_media_download_path fs dir episode_id item of
        Some p \<Rightarrow> (case normalize_cached_media_extension fs p of (q, fs1) \<Rightarrow> (Inr q, fs1))
      | None \<Rightarrow> fetch_media_file guess_extension (media_download_stem dir episode_id item) answer fs)"

section \<open>URLs of the bridge\<close>

text \<open>\<open>urllib.parse.urlsplit\<close> and \<open>urlunsplit\<close>; brackets that do not match are a \<open>ValueError\<close>.\<close>

record split_url =
  su_scheme :: string
  su_netloc :: string
  su_path :: string
  su_query :: string
  su_fragment :: string

definition url_split :: "string \<Rightarrow> error + split_url" where
  "url_split url =
     (let (scheme, rest) = url_scheme_rest (clean_url url);
          netloc = (if take 2 rest = ''//'' then takeWhile (\<lambda>c. c \<notin> set ''/?#'') (drop 2 rest) else []);
          after = (if take 2 rest = ''//'' then dropWhile (\<lambda>c. c \<notin> set ''/?#'') (drop 2 rest) else rest);
          (before, _, fragment) = py_partition CHR ''#'' after;
          (p, _, query) = py_partition CHR ''?'' before
      in if (CHR ''['' \<in> set netloc) \<noteq> (CHR '']'' \<in> set netloc) then Inl (ValueError ''Invalid IPv6 URL'')
         else Inr \<lparr>su_scheme = scheme, su_netloc = netloc, su_path = p, su_query = query, su_fragment = fragment\<rparr>)"

definition uses_netloc :: "string list" where
  "uses_netloc = [[], ''ftp'', ''http'', ''gopher'', ''nntp'', ''telnet'', ''imap'', ''wais'', ''file'', ''mms'', ''https'',
     ''shttp'', ''snews'', ''prospero'', ''rtsp'', ''rtsps'', ''rtspu'', ''rsync'', ''svn'', ''svn+ssh'', ''sftp'', ''nfs'', ''git'',
     ''git+ssh'', ''ws'', ''wss'']"

definition url_unsplit :: "split_url \<Rightarrow> string" where
  "url_unsplit u =
     (let p = su_path u;
          located = (if su_netloc u \<noteq> [] \<or> (su_scheme u \<noteq> [] \<and> su_scheme u \<in> set uses_netloc \<and> take 2 p \<noteq> ''//'')
                     then ''//'' @ su_netloc u @ (if p \<noteq> [] \<and> take 1 p \<noteq> ''/'' then ''/'' @ p else p) else p);
          schemed = (if su_scheme u \<noteq> [] then su_scheme u @ '':'' @ located else located);
          queried = (if su_query u \<noteq> [] then schemed @ ''?'' @ su_query u else schemed)
      in if su_fragment u \<noteq> [] then queried @ ''#'' @ su_fragment u else queried)"

definition sibling_endpoint :: "string \<Rightarrow> string \<Rightarrow> string" where
  "sibling_endpoint name p =
     (let q = rstrip_chars slash p in if suffix ''/play'' q then take (length q - 5) q @ name else q @ name)"

definition default_bridge_stop_url :: "string \<Rightarrow> error + string" where
  "default_bridge_stop_url bridge_url =
     map_sum id (\<lambda>u. url_unsplit (u\<lparr>su_path := sibling_endpoint ''/stop'' (su_path u)\<rparr>)) (url_split bridge_url)"

definition default_bridge_volume_url :: "string \<Rightarrow> error + string" where
  "default_bridge_volume_url bridge_url =
     map_sum id (\<lambda>u. url_unsplit (u\<lparr>su_path := sibling_endpoint ''/volume'' (su_path u)\<rparr>)) (url_split bridge_url)"

definition is_http_url :: "string \<Rightarrow> error + bool" where
  "is_http_url value = map_sum id (\<lambda>u. su_scheme u \<in> {''http'', ''https''}) (url_split value)"

section \<open>Command lines\<close>

definition fixed3_float :: "pyfloat \<Rightarrow> string" where
  "fixed3_float f = (case f of Fin q \<Rightarrow> fixed3 q | PosInf \<Rightarrow> ''inf'' | NegInf \<Rightarrow> ''-inf'' | NaN \<Rightarrow> ''nan'')"

definition int_of_float :: "pyfloat \<Rightarrow> error + int" where
  "int_of_float f = (case f of Fin q \<Rightarrow> Inr (rat_trunc q)
     | NaN \<Rightarrow> Inl (ValueError ''cannot convert float NaN to integer'')
     | _ \<Rightarrow> Inl (OverflowError ''cannot convert float infinity to integer''))"

definition ffplay_command :: "pyfloat \<Rightarrow> pyfloat \<Rightarrow> string list" where
  "ffplay_command seek volume =
     [''ffplay'', ''-nodisp'', ''-autoexit'', ''-ss'', fixed3_float seek]
     @ (if pf_lt (clamp_volume volume) (Fin 1) then [''-volume'', str_of_int (volume_percent volume)] else [])"

definition local_player_command :: "string \<Rightarrow> string \<Rightarrow> pyfloat \<Rightarrow> pyfloat \<Rightarrow> error + string list" where
  "local_player_command player filename seek volume =
     (if player = ''mpv'' then Inr [''mpv'', ''--no-video'', ''--start='' @ fixed3_float seek, filename]
      else if player = ''ffplay'' then Inr (ffplay_command seek volume @ [filename])
      else if player \<in> {''vlc'', ''cvlc''}
      then bind_result (int_of_float seek) (\<lambda>n. Inr [player, ''--intf'', ''ncurses'', ''--start-time='' @ str_of_int n, filename])
      else Inr [player, filename])"

definition remote_player_command :: "string \<Rightarrow> string \<Rightarrow> string \<Rightarrow> pyfloat \<Rightarrow> pyfloat \<Rightarrow> error + string list" where
  "remote_player_command player url auth seek volume =
     (if player = ''mpv''
      then Inr [''mpv'', ''--no-video'', ''--start='' @ fixed3_float seek, ''--http-header-fields=Authorization: '' @ auth, url]
      else if player = ''ffplay''
      then Inr (ffplay_command seek volume @ [''-headers'', ''Authorization: '' @ auth @ crlf, url])
      else if player \<in> {''vlc'', ''cvlc''}
      then bind_result (int_of_float seek) (\<lambda>n.
             Inr [player, ''--intf'', ''ncurses'', ''--start-time='' @ str_of_int n, ''--http-header=Authorization: '' @ auth, url])
      else Inr [player, url])"

definition player_command :: "string \<Rightarrow> string \<Rightarrow> string \<Rightarrow> pyfloat \<Rightarrow> pyfloat \<Rightarrow> error + string list" where
  "player_command player url auth seek volume =
     bind_result (is_http_url url) (\<lambda>remote.
       if remote then remote_player_command player url auth seek volume else local_player_command player url seek volume)"

section \<open>Volumes and rows\<close>

lemma clamp_volume_cases:
  "clamp_volume v = (case v of Fin q \<Rightarrow> Fin (max 0 (min q 1)) | PosInf \<Rightarrow> Fin 1 | _ \<Rightarrow> Fin 0)"
  by (cases v) (auto simp: clamp_volume_def pf_max_def pf_min_def pf_zero_def max_def min_def)

lemma clamp_volume_finite: "\<exists>q. clamp_volume v = Fin q \<and> 0 \<le> q \<and> q \<le> 1"
  by (cases v) (auto simp: clamp_volume_cases)

lemma clamp_volume_idem [simp]: "clamp_volume (clamp_volume v) = clamp_volume v"
  by (cases v) (auto simp: clamp_volume_cases)

lemma length_ljust [simp]: "length (ljust w s) = max (nat w) (length s)"
  by (simp add: ljust_def)

lemma length_truncate: "0 \<le> w \<Longrightarrow> int (length (truncate_text s w)) \<le> w"
  by (auto simp: truncate_text_def)

text \<open>A row of the list fits the terminal: whatever the titles and names hold, its length is at most
  the window's width, or 32 for a narrower window, the least the fixed columns need.\<close>

theorem row_fits: "int (length (format_episode_row played source title width)) \<le> max width 32"
proof -
  define sw where "sw = min 24 (max 10 (width div 4))"
  define tw where "tw = max (width - 12 - sw) 10"
  have sw: "10 \<le> sw" "sw \<le> 24" "width \<le> 43 \<Longrightarrow> sw = 10" "44 \<le> width \<Longrightarrow> sw \<le> width div 4"
    by (auto simp: sw_def)
  define a where "a = int (length (truncate_text (join_with '' '' (words_of source)) sw))"
  define b where "b = int (length (truncate_text (join_with '' '' (words_of title)) tw))"
  have "a \<le> sw" "b \<le> tw" using sw length_truncate by (auto simp: a_def b_def tw_def)
  moreover have "int (length (format_episode_row played source title width)) = 12 + max sw a + b"
    using sw(1) by (simp add: format_episode_row_def Let_def sw_def [symmetric] tw_def [symmetric] a_def b_def)
  moreover have "12 + sw + tw \<le> max width 32"
    using sw by (cases "width \<le> 43") (auto simp: tw_def max_def)
  ultimately show ?thesis by linarith
qed

section \<open>Credentials\<close>

text \<open>What the console stores it reads back: the saved object of valid credentials yields the same
  credentials, with the volume brought into its range and an empty choice of backend read as the
  default. The only demand on the file format is that the text of a float reads back as the float.\<close>

theorem credentials_roundtrip:
  assumes "py_float (show_float (cr_volume c)) = Some (cr_volume c)"
  shows "load_credentials (Some (Inr (save_credentials show_float c))) =
    Inr (Some (c\<lparr>cr_volume := clamp_volume (cr_volume c),
                 cr_playback_backend := or_else (cr_playback_backend c) DEFAULT_PLAYBACK_BACKEND\<rparr>))"
  using assms
  by (simp add: load_credentials_def save_credentials_def read_credentials_def required_key_def dget_default_def dget_def
      py_or_def or_else_def str_or_empty_def)

definition ann_credentials :: credentials where
  "ann_credentials =
     \<lparr>cr_base_url = ''http://box:8000/'', cr_username = ''ann'', cr_password = ''p:w'', cr_playback_backend = [],
      cr_bridge_url = ''http://bridge/play'', cr_bridge_stop_url = [], cr_bridge_volume_url = [], cr_volume = Fin 1\<rparr>"

theorem credentials_roundtrip_witness:
  "load_credentials (Some (Inr (save_credentials (\<lambda>_. ''1.0'') ann_credentials))) =
     Inr (Some (ann_credentials\<lparr>cr_playback_backend := ''local''\<rparr>))"
proof -
  have "py_float ''1.0'' = Some (Fin 1)" by code_simp
  then have "py_float ((\<lambda>_. ''1.0'') (cr_volume ann_credentials)) = Some (cr_volume ann_credentials)"
    by (simp add: ann_credentials_def)
  note credentials_roundtrip [OF this]
  moreover have "clamp_volume (Fin 1) = Fin 1" by code_simp
  ultimately show ?thesis by (simp add: ann_credentials_def or_else_def DEFAULT_PLAYBACK_BACKEND_def)
qed

text \<open>The API reads the console's credentials as they were entered: the header the console attaches
  to every request is accepted exactly when the account's own check accepts the name and the
  password, for any characters of the password, as long as the name has no colon.\<close>

theorem console_credentials_accepted:
  assumes "header_value rq ''Authorization'' = auth_header c" and "CHR '':'' \<notin> set (cr_username c)"
  shows "authenticate_basic users rq = Inr (case users (cr_username c) (cr_password c) of
      None \<Rightarrow> None | Some a \<Rightarrow> if ua_active a then Some (rq\<lparr>hr_user := Some (ua_name a)\<rparr>) else None)"
  using basic_accepted [of rq "cr_username c" "cr_password c"] assms by (simp add: auth_header_def basic_credentials_def)

theorem console_credentials_accepted_witness:
  "\<exists>rq'. authenticate_basic (\<lambda>u p. if u = ''ann'' \<and> p = ''p:w'' then Some \<lparr>ua_name = u, ua_active = True\<rparr> else None)
      \<lparr>hr_method = ''GET'', hr_headers = [(''Authorization'', auth_header ann_credentials)], hr_user = None, hr_csrf_ok = False\<rparr>
    = Inr (Some rq') \<and> hr_user rq' = Some ''ann''"
  by (subst console_credentials_accepted [of _ ann_credentials]) (simp_all add: header_value_def ann_credentials_def)

section \<open>The cache of downloads\<close>

lemma set_join_with: "set (join_with sep ws) \<subseteq> set sep \<union> (\<Union>w \<in> set ws. set w)"
  by (induction ws rule: induct_list012) auto

lemma split_by_chars: "w \<in> set (split_by P s) \<Longrightarrow> set w \<subseteq> set s"
proof (induction s arbitrary: w)
  case (Cons c s)
  show ?case
  proof (cases "P c")
    case True
    then show ?thesis using Cons by auto
  next
    case False
    show ?thesis
    proof (cases "split_by P s")
      case Nil
      then show ?thesis using Cons.prems False by simp
    next
      case (Cons u us)
      then have "w = c # u \<or> w \<in> set us" using Cons.prems False by auto
      moreover have "set u \<subseteq> set s" "\<And>w. w \<in> set us \<Longrightarrow> set w \<subseteq> set s"
        using Cons.IH Cons by (metis list.set_intros)+
      ultimately show ?thesis by auto
    qed
  qed
qed simp

lemma strip_chars_set: "set (strip_chars P s) \<subseteq> set s"
  by (auto simp: strip_chars_def rstrip_chars_def) (metis set_dropWhileD set_rev)

lemma words_of_chars: "w \<in> set (words_of s) \<Longrightarrow> set w \<subseteq> set s"
  using split_by_chars by (auto simp: words_of_def)

lemma safe_filename_chars: "set (safe_filename v) \<subseteq> Collect safe_filename_char"
proof -
  let ?cleaned = "map (\<lambda>c. if safe_filename_char c then c else CHR ''-'') v"
  let ?joined = "join_with ''-'' (words_of ?cleaned)" and ?strip = "strip_chars (\<lambda>c. c = CHR ''.'' \<or> c = CHR ''-'')"
  have dash: "safe_filename_char CHR ''-''" by (simp add: safe_filename_char_def)
  then have "set ?cleaned \<subseteq> Collect safe_filename_char" by auto
  then have "\<And>w. w \<in> set (words_of ?cleaned) \<Longrightarrow> set w \<subseteq> Collect safe_filename_char"
    using words_of_chars by (rule order_trans [rotated])
  then have "(\<Union>w \<in> set (words_of ?cleaned). set w) \<subseteq> Collect safe_filename_char" by (rule UN_least)
  then have "set ?joined \<subseteq> Collect safe_filename_char"
    using dash by (intro order_trans [OF set_join_with] Un_least) simp_all
  then have "set (?strip ?joined) \<subseteq> Collect safe_filename_char" using strip_chars_set by (rule order_trans [rotated])
  moreover have "set ''media'' \<subseteq> Collect safe_filename_char" by (simp add: safe_filename_char_def is_word_char_def)
  ultimately have "set (or_else (?strip ?joined) ''media'') \<subseteq> Collect safe_filename_char" by (simp add: or_else_def)
  then show ?thesis
    unfolding safe_filename_def Let_def using set_take_subset by (rule order_trans [rotated])
qed

lemma safe_filename_bounds: "safe_filename v \<noteq> [] \<and> length (safe_filename v) \<le> 120"
  by (simp add: safe_filename_def Let_def or_else_def)

lemma safe_char_plain: "safe_filename_char c \<Longrightarrow> c \<notin> set ''/*?[''"
  by (auto simp: safe_filename_char_def is_word_char_def Let_def)

lemma glob_prefix: "c \<notin> set ''*?['' \<Longrightarrow> read_glob (c # s) = GChar c # read_glob s"
  by simp

lemma glob_literal:
  "set w \<inter> set ''*?['' = {} \<Longrightarrow> glob_match (read_glob (w @ p)) (w @ t) = glob_match (read_glob p) t"
proof (induction w)
  case (Cons c w)
  then have "read_glob ((c # w) @ p) = GChar c # read_glob (w @ p)" using glob_prefix [of c "w @ p"] by auto
  then show ?case using Cons by simp
qed simp

lemma glob_star [simp]: "glob_match [GStar] t"
  by (induction t) simp_all

lemma glob_dot_star: "glob_match (read_glob ''.*'') (CHR ''.'' # t)"
  by simp

definition stem_name :: "int \<Rightarrow> pydict \<Rightarrow> string" where
  "stem_name episode_id item = str_of_int episode_id @ ''-''
     @ safe_filename (py_str (py_or (dget item ''title'') (PStr (''episode-'' @ str_of_int episode_id))))"

lemma str_of_int_chars: "set (str_of_int i) \<inter> set ''/*?['' = {}"
proof -
  have "set (str_of_nat n) \<inter> set ''/*?['' = {}" for n using str_of_nat_decimal [of _ n] by (fastforce simp: is_decimal_def)
  then show ?thesis by (simp add: str_of_int_def)
qed

lemma stem_name_chars: "set (stem_name episode_id item) \<inter> set ''/*?['' = {}"
proof -
  have "set (safe_filename t) \<inter> set ''/*?['' = {}" for t using safe_filename_chars [of t] safe_char_plain by blast
  then show ?thesis using str_of_int_chars [of episode_id] unfolding stem_name_def by (simp add: Int_Un_distrib2)
qed

lemma plain_name_path:
  assumes "CHR ''/'' \<notin> set n" and "kept_part n"
  shows "path_of n = Path False [n]"
proof -
  have "take 1 n \<noteq> ''/''" using assms(1) by (cases n) auto
  then show ?thesis using assms by (simp add: path_of_def split_on_no_sep)
qed

lemma stem_name_kept: "kept_part (stem_name episode_id item)" "kept_part (stem_name episode_id item @ x)"
  by (auto simp: kept_part_def stem_name_def dest: arg_cong [where f = length])

lemma media_stem: "media_download_stem dir episode_id item = Path (is_absolute dir) (path_parts dir @ [stem_name episode_id item])"
proof -
  have "CHR ''/'' \<notin> set (stem_name episode_id item)" using stem_name_chars [of episode_id item] by auto
  then show ?thesis
    using plain_name_path [OF _ stem_name_kept(1)]
    unfolding media_download_stem_def Let_def stem_name_def [symmetric] path_join_def by simp
qed

lemma put_new_file: "map_of fs (path_str p) = None \<Longrightarrow> put_file p b fs = fs @ [(path_str p, b)]"
  by (induction fs) (auto simp: put_file_def split: if_splits)

lemma put_file_read: "map_of (put_file p b fs) k = (if k = path_str p then Some b else map_of fs k)"
  by (simp add: put_file_def)

lemma drop_absent: "map_of fs (path_str p) = None \<Longrightarrow> drop_file p fs = fs"
  by (induction fs) (auto simp: drop_file_def split: if_splits)

lemma drop_put: "map_of fs (path_str p) = None \<Longrightarrow> drop_file p (put_file p b fs) = fs"
  using put_new_file [of fs p b] drop_absent [of fs p] by (simp add: drop_file_def)

lemma move_put:
  "map_of fs (path_str p) = None \<Longrightarrow> move_file p q (put_file p b fs) = put_file q b fs"
  using drop_put [of fs p b] by (simp add: move_file_def put_file_read)

lemma normalize_keeps_bytes:
  assumes "map_of fs (path_str p) = Some b" and "normalize_cached_media_extension fs p = (q, fs2)"
  shows "map_of fs2 (path_str q) = Some b"
  using assms by (auto simp: normalize_cached_media_extension_def Let_def move_file_def put_file_read split: if_splits)

lemma sort_empty [simp]: "sort xs = [] \<longleftrightarrow> xs = []"
  by (metis length_0_conv length_sort)

text \<open>The children of the download directory that belong to an episode's stem.\<close>

definition stem_text :: "path \<Rightarrow> int \<Rightarrow> pydict \<Rightarrow> string \<Rightarrow> string" where
  "stem_text dir episode_id item x = path_str (Path (is_absolute dir) (path_parts dir @ [stem_name episode_id item @ x]))"

lemma stem_child:
  assumes "list_all good_part (path_parts dir)" and "CHR ''/'' \<notin> set x"
  shows "path_of (stem_text dir episode_id item x) = Path (is_absolute dir) (path_parts dir @ [stem_name episode_id item @ x])"
proof -
  have "good_part (stem_name episode_id item @ x)"
    using assms(2) stem_name_chars [of episode_id item] stem_name_kept(2) by (auto simp: good_part_def)
  then show ?thesis using assms(1) unfolding stem_text_def by (intro path_of_str) (auto simp: list_all_iff)
qed

lemma stem_sibling:
  assumes "list_all good_part (path_parts dir)" and "CHR ''/'' \<notin> set x"
  shows "child_of (path_parent (media_download_stem dir episode_id item)) (stem_text dir episode_id item (CHR ''.'' # x))
    \<and> glob_match (read_glob (path_name (media_download_stem dir episode_id item) @ ''.*''))
        (path_name (path_of (stem_text dir episode_id item (CHR ''.'' # x))))"
proof -
  have c: "path_of (stem_text dir episode_id item (CHR ''.'' # x))
      = Path (is_absolute dir) (path_parts dir @ [stem_name episode_id item @ CHR ''.'' # x])"
    using assms by (intro stem_child) simp_all
  have "set (stem_name episode_id item) \<inter> set ''*?['' = {}" using stem_name_chars [of episode_id item] by auto
  then have "glob_match (read_glob (stem_name episode_id item @ ''.*'')) (stem_name episode_id item @ CHR ''.'' # x)"
    by (simp only: glob_literal glob_dot_star)
  then show ?thesis using c by (simp add: child_of_def Let_def media_stem path_parent_def path_name_def stem_text_def)
qed

lemma no_existing_siblings:
  assumes "existing_media_download_path fs dir episode_id item = None"
  shows "stem_siblings fs (media_download_stem dir episode_id item) = []"
    "\<not> holds_file fs (media_download_path dir episode_id item)"
proof -
  let ?stem = "media_download_stem dir episode_id item"
  have "List.find (holds_file fs) (stem_siblings fs ?stem) = None"
    using assms by (auto simp: existing_media_download_path_def Let_def split: if_splits)
  then have none: "\<And>p. p \<in> set (stem_siblings fs ?stem) \<Longrightarrow> \<not> holds_file fs p" by (auto simp: find_None_iff)
  have "holds_file fs p" if "p \<in> set (stem_siblings fs ?stem)" for p
    using that by (auto simp: stem_siblings_def holds_file_def child_of_def Let_def image_iff dest: weak_map_of_SomeI)
  then show "stem_siblings fs ?stem = []" using none by (metis last_in_set)
  show "\<not> holds_file fs (media_download_path dir episode_id item)"
    using assms by (auto simp: existing_media_download_path_def media_download_path_def Let_def split: if_splits)
qed

lemma absent_sibling:
  assumes "existing_media_download_path fs dir episode_id item = None" and "list_all good_part (path_parts dir)"
    and "CHR ''/'' \<notin> set x"
  shows "map_of fs (stem_text dir episode_id item (CHR ''.'' # x)) = None"
proof (rule ccontr)
  assume "map_of fs (stem_text dir episode_id item (CHR ''.'' # x)) \<noteq> None"
  then have "stem_text dir episode_id item (CHR ''.'' # x) \<in> fst ` set fs" by (simp add: map_of_eq_None_iff)
  then have "stem_siblings fs (media_download_stem dir episode_id item) \<noteq> []"
    using stem_sibling [OF assms(2,3), of episode_id item]
    by (auto simp: stem_siblings_def filter_empty_conv image_iff) (metis fst_conv)
  then show False using no_existing_siblings(1) [OF assms(1)] by simp
qed

lemma new_sibling_found:
  assumes "existing_media_download_path fs dir episode_id item = None" and "list_all good_part (path_parts dir)"
    and "CHR ''/'' \<notin> set x" and "p = Path (is_absolute dir) (path_parts dir @ [stem_name episode_id item @ CHR ''.'' # x])"
  shows "existing_media_download_path (put_file p b fs) dir episode_id item = Some p"
proof -
  let ?stem = "media_download_stem dir episode_id item" and ?fs = "put_file p b fs"
  have t: "path_str p = stem_text dir episode_id item (CHR ''.'' # x)" using assms(4) by (simp add: stem_text_def)
  have c: "path_of (path_str p) = p" unfolding t using stem_child [OF assms(2), of "CHR ''.'' # x"] assms(3,4) by simp
  have new: "put_file p b fs = fs @ [(path_str p, b)]"
    using absent_sibling [OF assms(1-3)] by (intro put_new_file) (simp add: t)
  have fs: "filter (\<lambda>e. child_of (path_parent ?stem) (fst e)
        \<and> glob_match (read_glob (path_name ?stem @ ''.*'')) (path_name (path_of (fst e)))) fs = []"
    using no_existing_siblings(1) [OF assms(1)] by (simp add: stem_siblings_def)
  have s: "stem_siblings ?fs ?stem = [p]"
    using stem_sibling [OF assms(2,3), of episode_id item] fs c by (simp add: stem_siblings_def new t)
  have h: "holds_file ?fs q \<longleftrightarrow> holds_file fs q \<or> path_str q = path_str p" for q
    by (auto simp: holds_file_def put_file_read)
  show ?thesis
  proof (cases "holds_file ?fs (media_download_path dir episode_id item)")
    case True
    then have e: "path_str (media_download_path dir episode_id item) = path_str p"
      using h no_existing_siblings(2) [OF assms(1)] by blast
    have "media_download_path dir episode_id item
        = Path (is_absolute dir) (path_parts dir @ [path_stem ?stem @ default_media_extension item])"
      by (simp add: media_download_path_def with_suffix_def with_name_def media_stem)
    then have "media_download_path dir episode_id item = p"
      using e path_str_snoc_inject assms(4) by metis
    then show ?thesis using True by (simp add: existing_media_download_path_def media_download_path_def Let_def)
  next
    case False
    then show ?thesis using s h by (simp add: existing_media_download_path_def media_download_path_def Let_def)
  qed
qed

lemma part_path_stem:
  "part_path (media_download_stem dir episode_id item)
     = Path (is_absolute dir) (path_parts dir @ [stem_name episode_id item @ CHR ''.'' # ''part''])"
  by (simp add: part_path_def media_stem with_name_def path_name_def)

lemma dotless_suffix:
  assumes "CHR ''.'' \<notin> set (stem_name episode_id item)"
  shows "with_suffix (media_download_stem dir episode_id item) ext
     = Path (is_absolute dir) (path_parts dir @ [stem_name episode_id item @ ext])"
proof -
  have "dropWhile (\<lambda>c. c \<noteq> CHR ''.'') (rev (stem_name episode_id item)) = []" using assms by auto
  then have "dot_split (stem_name episode_id item) = (stem_name episode_id item, [])"
    by (simp add: dot_split_def Let_def)
  then show ?thesis by (simp add: with_suffix_def with_name_def media_stem path_stem_def path_name_def)
qed

text \<open>Extensions the server's type leads to: a dot and characters of a name.\<close>

definition good_extensions :: "(string \<Rightarrow> string option) \<Rightarrow> bool" where
  "good_extensions guess \<longleftrightarrow>
     (\<forall>t e. guess t = Some e \<longrightarrow> e = [] \<or> (\<exists>x. e = CHR ''.'' # x \<and> CHR ''/'' \<notin> set x))"

lemma response_extension:
  assumes "good_extensions guess"
  obtains x where "media_extension_from_response guess t = CHR ''.'' # x" "CHR ''/'' \<notin> set x"
proof (cases "t = ''audio/mp4''")
  case True
  then show thesis using that [of "''m4a''"] by (simp add: media_extension_from_response_def Let_def)
next
  case False
  show thesis
  proof (cases "t \<noteq> [] \<and> (\<exists>e. guess t = Some e \<and> e \<noteq> [])")
    case True
    then obtain e where "guess t = Some e" "e \<noteq> []" "t \<noteq> []" by blast
    then show thesis using assms False that
      by (auto simp: good_extensions_def media_extension_from_response_def Let_def or_else_def)
  next
    case no: False
    then have "media_extension_from_response guess t = ''.mp3''"
      using False by (auto simp: media_extension_from_response_def Let_def or_else_def split: option.splits)
    then show thesis using that [of "''mp3''"] by simp
  qed
qed

lemma cached_again:
  assumes "existing_media_download_path fs dir episode_id item = Some p" and "map_of fs (path_str p) = Some b"
  shows "\<exists>q fs2. download_media_file guess dir episode_id item answer fs = (Inr q, fs2) \<and> map_of fs2 (path_str q) = Some b"
  using normalize_keeps_bytes [OF assms(2)] assms(1)
  by (cases "normalize_cached_media_extension fs p") (auto simp: download_media_file_def)

text \<open>C23: What a first download leaves behind: a refused or broken transfer is a playback error and the
  files are as before; a complete one is found again, so the next play of the episode gets
  the same bytes whatever the server would answer by then. But a transfer that anything else cuts
  short (a signal, an exception of another kind) leaves its partial file, and the next play
  takes that for the episode: the name of the partial file matches the pattern of finished ones.
  For a complete transfer the title must not put a dot into the name.\<close>

theorem download_outcomes:
  assumes "existing_media_download_path fs dir episode_id item = None"
    and "list_all good_part (path_parts dir)" and "good_extensions guess"
    and "download_media_file guess dir episode_id item answer fs = (r, fs1)"
  shows "case answer of
      DownloadRefused m \<Rightarrow> r = Inl (PlaybackError (''download failed: '' @ m)) \<and> fs1 = fs
    | DownloadBroken bytes m \<Rightarrow> r = Inl (PlaybackError (''download failed: '' @ m)) \<and> fs1 = fs
    | DownloadAborted bytes e \<Rightarrow> r = Inl e \<and>
        (\<exists>q fs2. download_media_file guess dir episode_id item again fs1 = (Inr q, fs2) \<and> map_of fs2 (path_str q) = Some bytes)
    | DownloadComplete bytes content_type \<Rightarrow> CHR ''.'' \<notin> set (stem_name episode_id item) \<longrightarrow>
        (\<exists>q fs2. download_media_file guess dir episode_id item again fs1 = (Inr q, fs2) \<and> map_of fs2 (path_str q) = Some bytes)"
proof -
  let ?stem = "media_download_stem dir episode_id item" and ?tmp = "part_path (media_download_stem dir episode_id item)"
  note run = assms(4) [unfolded download_media_file_def assms(1) option.case fetch_media_file_def Let_def]
  have absent: "map_of fs (path_str ?tmp) = None"
    using absent_sibling [OF assms(1,2), of "''part''"] unfolding part_path_stem stem_text_def by simp
  note found = new_sibling_found [OF assms(1,2)]
  show ?thesis
  proof (cases answer)
    case (DownloadRefused m)
    then show ?thesis using run drop_absent [OF absent] by auto
  next
    case (DownloadBroken bytes m)
    then show ?thesis using run drop_put [OF absent] by auto
  next
    case (DownloadAborted bytes e)
    then have fs1: "r = Inl e" "fs1 = put_file ?tmp bytes fs" using run by auto
    have "existing_media_download_path fs1 dir episode_id item = Some ?tmp"
      unfolding fs1(2) by (rule found [of "''part''"]) (simp_all add: part_path_stem)
    moreover have "map_of fs1 (path_str ?tmp) = Some bytes" by (simp add: fs1(2) put_file_read)
    ultimately show ?thesis using cached_again fs1(1) by (simp add: DownloadAborted)
  next
    case (DownloadComplete bytes content_type)
    obtain x where x: "media_extension_from_response guess content_type = CHR ''.'' # x" "CHR ''/'' \<notin> set x"
      using response_extension [OF assms(3)] by metis
    let ?p = "with_suffix ?stem (CHR ''.'' # x)"
    have fs1: "fs1 = put_file ?p bytes fs" using run x move_put [OF absent] by (auto simp: DownloadComplete)
    have "existing_media_download_path fs1 dir episode_id item = Some ?p" if "CHR ''.'' \<notin> set (stem_name episode_id item)"
      unfolding fs1 using x(2) by (rule found) (rule dotless_suffix [OF that])
    moreover have "map_of fs1 (path_str ?p) = Some bytes" by (simp add: fs1 put_file_read)
    ultimately show ?thesis using cached_again by (simp add: DownloadComplete)
  qed
qed

theorem download_outcomes_witness:
  "\<exists>q fs2. download_media_file (\<lambda>_. None) (path_of ''/dl'') 7 [(''title'', PStr ''Talk'')] (DownloadRefused ''gone'')
       (snd (download_media_file (\<lambda>_. None) (path_of ''/dl'') 7 [(''title'', PStr ''Talk'')]
          (DownloadAborted ''ID3 half'' (HandlerError ''KeyboardInterrupt'')) [])) = (Inr q, fs2)
     \<and> map_of fs2 (path_str q) = Some ''ID3 half''"
proof -
  let ?item = "[(''title'', PStr ''Talk'')]" and ?answer = "DownloadAborted ''ID3 half'' (HandlerError ''KeyboardInterrupt'')"
  have e: "existing_media_download_path [] (path_of ''/dl'') 7 ?item = None"
    by (simp add: existing_media_download_path_def holds_file_def stem_siblings_def Let_def)
  have g: "list_all good_part (path_parts (path_of ''/dl''))" by code_simp
  obtain r fs1 where d: "download_media_file (\<lambda>_. None) (path_of ''/dl'') 7 ?item ?answer [] = (r, fs1)" by fastforce
  show ?thesis
    using download_outcomes [OF e g _ d, of "DownloadRefused ''gone''"] d by (simp add: good_extensions_def)
qed

text \<open>
  A dot in the title: the extension replaces everything behind the last dot of the stem, while the
  search looks for the whole stem with something behind it. The finished file is found again only
  under the default extension.
\<close>

definition dotted_item :: pydict where
  "dotted_item = [(''title'', PStr ''No. 5'')]"

lemma dotted_title_not_found:
  "existing_media_download_path
     (snd (download_media_file (\<lambda>_. Some ''.webm'') (path_of ''/dl'') 7 dotted_item (DownloadComplete ''x'' ''audio/webm'') []))
     (path_of ''/dl'') 7 dotted_item = None"
  by code_simp

end
