(* ===== verification/Playback.thy ===== *)
theory Playback
  imports ConsoleFiles
begin

text \<open>
  The playback backends of the console client (\<open>src/src/cli/app.py\<close>): a player process on this machine
  and an HTTP audio bridge, behind one interface. Processes, signals and the bridge are arguments;
  each operation returns its result and the list of what it did, in order.
\<close>

section \<open>Sessions and the outside\<close>

record playback_session =
  ps_process :: "nat option"
  ps_session_id :: string
  ps_active :: bool
  ps_volume :: pyfloat
  ps_log_path :: "path option"
  ps_error_message :: string

datatype kill_outcome = Signalled | NoSuchProcess | KillRefused

datatype bridge_answer = BridgeContent string | BridgeHttpError int string | BridgeUrlError string | BridgeRaised error

datatype player_action =
    ResetLog
  | NoteLog string
  | Launch "string list"
  | SignalGroup string nat
  | SignalProcess string nat
  | PostJson string pydict

text \<open>
  How the outside answers during one operation: which programs exist, the process a launch gives,
  the exit code seen within the first 0.75 seconds, by a poll, and within three seconds of
  a first and of a second signal.
\<close>

record player_env =
  pe_which :: "string \<Rightarrow> bool"
  pe_posix :: bool
  pe_config_dir :: path
  pe_launch :: "string list \<Rightarrow> string + nat"
  pe_first_wait :: "nat \<Rightarrow> int option"
  pe_poll :: "nat \<Rightarrow> int option"
  pe_term_wait :: "nat \<Rightarrow> int option"
  pe_kill_wait :: "nat \<Rightarrow> int option"
  pe_killpg :: "nat \<Rightarrow> kill_outcome"
  pe_log_tail :: string
  pe_bridge :: "string \<Rightarrow> pydict \<Rightarrow> bridge_answer"
  pe_loads :: "string \<Rightarrow> error + pyval"
  pe_show_float :: "pyfloat \<Rightarrow> string"

record start_request =
  sr_item :: pydict
  sr_url :: string
  sr_auth :: string
  sr_seek :: pyfloat
  sr_volume :: pyfloat

definition PLAYER_CANDIDATES :: "string list" where
  "PLAYER_CANDIDATES = [''ffplay'']"

definition detect_player :: "player_env \<Rightarrow> string option" where
  "detect_player env = List.find (pe_which env) PLAYER_CANDIDATES"

definition player_log_file :: "player_env \<Rightarrow> path" where
  "player_log_file env = path_join (pe_config_dir env) (path_of ''player.log'')"

definition exit_code_text :: "int option \<Rightarrow> string" where
  "exit_code_text code = (case code of None \<Rightarrow> ''None'' | Some n \<Rightarrow> str_of_int n)"

text \<open>The exit code is the one the process has by then.\<close>

definition player_exit_message :: "player_env \<Rightarrow> int option \<Rightarrow> playback_session \<Rightarrow> string" where
  "player_exit_message env polled s =
     (let code = (case ps_process s of None \<Rightarrow> ''unknown'' | Some _ \<Rightarrow> exit_code_text polled);
          detail = (case ps_log_path s of None \<Rightarrow> [] | Some _ \<Rightarrow> py_strip (pe_log_tail env));
          shown = path_str (case ps_log_path s of None \<Rightarrow> player_log_file env | Some p \<Rightarrow> p)
      in if detail \<noteq> [] then ''Player exited ('' @ code @ ''); see '' @ shown @ '': '' @ detail
         else ''Player exited ('' @ code @ ''); see '' @ shown)"

definition new_session :: "nat option \<Rightarrow> string \<Rightarrow> pyfloat \<Rightarrow> path option \<Rightarrow> playback_session" where
  "new_session process session_id volume log_path =
     \<lparr>ps_process = process, ps_session_id = session_id, ps_active = True, ps_volume = volume, ps_log_path = log_path,
      ps_error_message = []\<rparr>"

section \<open>A local process\<close>

definition local_available :: "string option \<Rightarrow> bool" where
  "local_available player \<longleftrightarrow> (case player of None \<Rightarrow> False | Some p \<Rightarrow> p \<noteq> [])"

definition local_unavailable_message :: string where
  "local_unavailable_message = ''No player found: install ffplay''"

definition launch_player :: "player_env \<Rightarrow> string \<Rightarrow> string list \<Rightarrow> error + nat" where
  "launch_player env player command =
     (case pe_launch env command of
        Inl m \<Rightarrow> Inl (PlaybackError (''unable to launch player '' @ repr_str player @ '': '' @ m))
      | Inr pid \<Rightarrow> Inr pid)"

text \<open>The session with the exit code of a process that ended at once, if it did.\<close>

definition process_exited_immediately :: "player_env \<Rightarrow> playback_session \<Rightarrow> int option \<times> playback_session" where
  "process_exited_immediately env s =
     (case ps_process s of
        None \<Rightarrow> (None, s)
      | Some pid \<Rightarrow>
          (case pe_first_wait env pid of
             None \<Rightarrow> (None, s)
           | Some code \<Rightarrow> (Some code, s\<lparr>ps_error_message := player_exit_message env (Some code) s, ps_active := False\<rparr>)))"

definition start_player ::
    "player_env \<Rightarrow> string \<Rightarrow> start_request \<Rightarrow> pyfloat \<Rightarrow> (error + (int option \<times> playback_session)) \<times> player_action list" where
  "start_player env player rq seek =
     (case player_command player (sr_url rq) (sr_auth rq) seek (sr_volume rq) of
        Inl e \<Rightarrow> (Inl e, [])
      | Inr command \<Rightarrow>
          (case launch_player env player command of
             Inl e \<Rightarrow> (Inl e, [Launch command])
           | Inr pid \<Rightarrow>
               (Inr (process_exited_immediately env
                  (new_session (Some pid) [] (clamp_volume (sr_volume rq)) (Some (player_log_file env)))), [Launch command])))"

definition local_start ::
    "player_env \<Rightarrow> string option \<Rightarrow> start_request \<Rightarrow> (error + playback_session) \<times> player_action list" where
  "local_start env player rq =
     (case player of
        None \<Rightarrow> (Inl (PlaybackError local_unavailable_message), [])
      | Some p \<Rightarrow>
          if p = [] then (Inl (PlaybackError local_unavailable_message), [])
          else (case start_player env p rq (sr_seek rq) of
              (Inl e, acts) \<Rightarrow> (Inl e, ResetLog # acts)
            | (Inr (None, s), acts) \<Rightarrow> (Inr s, ResetLog # acts)
            | (Inr (Some code, s), acts) \<Rightarrow>
                if code = 0 \<and> pf_lt (Fin 0) (sr_seek rq)
                then (let note = NoteLog ([CHR 0x0A] @ ''Retrying from the beginning because ffplay exited immediately after seek ''
                            @ fixed3_float (sr_seek rq) @ ''s.'' @ [CHR 0x0A]) in
                      case start_player env p rq (Fin 0) of
                        (Inl e, again) \<Rightarrow> (Inl e, ResetLog # acts @ note # again)
                      | (Inr (None, s2), again) \<Rightarrow> (Inr s2, ResetLog # acts @ note # again)
                      | (Inr (Some _, s2), again) \<Rightarrow>
                          (Inl (PlaybackError (ps_error_message s2)), ResetLog # acts @ note # again))
                else (Inl (PlaybackError (ps_error_message s)), ResetLog # acts)))"

definition local_set_volume ::
    "playback_session \<Rightarrow> pyfloat \<Rightarrow> error option \<times> playback_session \<times> player_action list" where
  "local_set_volume s volume = (None, s\<lparr>ps_volume := clamp_volume volume\<rparr>, [])"

text \<open>A signal to the process group, or to the process where groups do not exist or refuse it.\<close>

definition signal_player :: "player_env \<Rightarrow> string \<Rightarrow> string \<Rightarrow> nat \<Rightarrow> player_action list" where
  "signal_player env group_signal method pid =
     (if pe_posix env
      then SignalGroup group_signal pid # (case pe_killpg env pid of KillRefused \<Rightarrow> [SignalProcess method pid] | _ \<Rightarrow> [])
      else [SignalProcess method pid])"

definition terminate_process :: "player_env \<Rightarrow> nat \<Rightarrow> player_action list" where
  "terminate_process env = signal_player env ''SIGTERM'' ''terminate''"

definition kill_process :: "player_env \<Rightarrow> nat \<Rightarrow> player_action list" where
  "kill_process env = signal_player env ''SIGKILL'' ''kill''"

definition local_stop :: "player_env \<Rightarrow> playback_session \<Rightarrow> error option \<times> playback_session \<times> player_action list" where
  "local_stop env s =
     (case ps_process s of
        None \<Rightarrow> (None, s\<lparr>ps_active := False\<rparr>, [])
      | Some pid \<Rightarrow>
          if pe_poll env pid \<noteq> None then (None, s\<lparr>ps_active := False\<rparr>, [])
          else if pe_term_wait env pid \<noteq> None then (None, s\<lparr>ps_active := False\<rparr>, terminate_process env pid)
          else if pe_kill_wait env pid \<noteq> None
          then (None, s\<lparr>ps_active := False\<rparr>, terminate_process env pid @ kill_process env pid)
          else (Some (RuntimeError ''TimeoutExpired''), s, terminate_process env pid @ kill_process env pid))"

definition local_is_running :: "player_env \<Rightarrow> playback_session \<Rightarrow> bool \<times> playback_session" where
  "local_is_running env s =
     (case ps_process s of
        None \<Rightarrow> (False, s)
      | Some pid \<Rightarrow>
          if \<not> ps_active s then (False, s)
          else if pe_poll env pid = None then (True, s)
          else (False, s\<lparr>ps_error_message := player_exit_message env (pe_poll env pid) s\<rparr>))"

section \<open>The audio bridge\<close>

record bridge_urls =
  bu_play :: string
  bu_stop :: string
  bu_volume :: string

definition bridge_available :: "bridge_urls \<Rightarrow> bool" where
  "bridge_available urls \<longleftrightarrow> bu_play urls \<noteq> []"

definition bridge_unavailable_message :: string where
  "bridge_unavailable_message = ''Audio bridge is not configured: pass --bridge-url''"

definition bridge_post_json :: "player_env \<Rightarrow> string \<Rightarrow> pydict \<Rightarrow> error + pydict" where
  "bridge_post_json env url payload =
     (case pe_bridge env url payload of
        BridgeHttpError code detail \<Rightarrow> Inl (PlaybackError (''bridge returned HTTP '' @ str_of_int code @ '': '' @ detail))
      | BridgeUrlError reason \<Rightarrow> Inl (PlaybackError (''bridge request failed: '' @ reason))
      | BridgeRaised e \<Rightarrow> Inl e
      | BridgeContent content \<Rightarrow>
          if content = [] then Inr [] else bind_result (pe_loads env content) (\<lambda>v. Inr (as_dict v)))"

definition bridge_payload :: "player_env \<Rightarrow> start_request \<Rightarrow> pydict" where
  "bridge_payload env rq =
     [(''url'', PStr (sr_url rq)), (''filename'', PStr (sr_url rq)),
      (''headers'', PDict [(''Authorization'', PStr (sr_auth rq))]),
      (''seek_seconds'', PFloat (pe_show_float env (sr_seek rq))),
      (''title'', PStr (str_or_empty (dget (sr_item rq) ''title''))),
      (''media_kind'', PStr (item_media_kind (sr_item rq))),
      (''episode_id'', dget (sr_item rq) ''id''),
      (''volume'', PFloat (pe_show_float env (clamp_volume (sr_volume rq))))]"

definition bridge_start ::
    "player_env \<Rightarrow> bridge_urls \<Rightarrow> start_request \<Rightarrow> (error + playback_session) \<times> player_action list" where
  "bridge_start env urls rq =
     (if \<not> bridge_available urls then (Inl (PlaybackError bridge_unavailable_message), [])
      else (bind_result (bridge_post_json env (bu_play urls) (bridge_payload env rq)) (\<lambda>response.
              Inr (new_session None (str_or_empty (dget response ''session_id'')) (clamp_volume (sr_volume rq)) None)),
            [PostJson (bu_play urls) (bridge_payload env rq)]))"

definition bridge_set_volume ::
    "player_env \<Rightarrow> bridge_urls \<Rightarrow> playback_session \<Rightarrow> pyfloat \<Rightarrow> error option \<times> playback_session \<times> player_action list" where
  "bridge_set_volume env urls s volume =
     (let s1 = s\<lparr>ps_volume := clamp_volume volume\<rparr>;
          payload = [(''session_id'', PStr (ps_session_id s)), (''volume'', PFloat (pe_show_float env (clamp_volume volume)))] in
      case (if bu_volume urls \<noteq> [] then Inr (bu_volume urls) else default_bridge_volume_url (bu_play urls)) of
        Inl e \<Rightarrow> (Some e, s1, [])
      | Inr url \<Rightarrow>
          (case bridge_post_json env url payload of Inl e \<Rightarrow> Some e | Inr _ \<Rightarrow> None, s1, [PostJson url payload]))"

fun is_playback_error :: "error \<Rightarrow> bool" where
  "is_playback_error (PlaybackError _) = True"
| "is_playback_error _ = False"

definition bridge_stop ::
    "player_env \<Rightarrow> bridge_urls \<Rightarrow> playback_session \<Rightarrow> error option \<times> playback_session \<times> player_action list" where
  "bridge_stop env urls s =
     (if \<not> ps_active s then (None, s, [])
      else (let payload = [(''session_id'', PStr (ps_session_id s))] in
        case (if bu_stop urls \<noteq> [] then Inr (bu_stop urls) else default_bridge_stop_url (bu_play urls)) of
          Inl e \<Rightarrow> (Some e, s, [])
        | Inr url \<Rightarrow>
            (case bridge_post_json env url payload of
               Inl e \<Rightarrow> if is_playback_error e then (None, s\<lparr>ps_active := False\<rparr>, [PostJson url payload])
                       else (Some e, s, [PostJson url payload])
             | Inr _ \<Rightarrow> (None, s\<lparr>ps_active := False\<rparr>, [PostJson url payload]))))"

definition bridge_is_running :: "playback_session \<Rightarrow> bool \<times> playback_session" where
  "bridge_is_running s = (ps_active s, s)"

section \<open>Either backend\<close>

datatype backend = LocalProcess "string option" | AudioBridge bridge_urls

text \<open>An empty name of a player is like none.\<close>

definition local_backend :: "player_env \<Rightarrow> string option \<Rightarrow> backend" where
  "local_backend env player =
     LocalProcess (case player of Some p \<Rightarrow> if p = [] then detect_player env else Some p | None \<Rightarrow> detect_player env)"

definition bridge_backend :: "string \<Rightarrow> string \<Rightarrow> string \<Rightarrow> backend" where
  "bridge_backend play_url stop_url volume_url =
     AudioBridge \<lparr>bu_play = py_strip play_url, bu_stop = py_strip stop_url, bu_volume = py_strip volume_url\<rparr>"

definition build_playback_backend ::
    "player_env \<Rightarrow> string \<Rightarrow> string option \<Rightarrow> string \<Rightarrow> string \<Rightarrow> string \<Rightarrow> error + backend" where
  "build_playback_backend env name player play_url stop_url volume_url =
     (let normalized = py_lower (py_strip (or_else name DEFAULT_PLAYBACK_BACKEND)) in
      if normalized = ''bridge'' then Inr (bridge_backend play_url stop_url volume_url)
      else if normalized = ''local'' then Inr (local_backend env player)
      else Inl (SystemExit (''Unsupported playback backend: '' @ repr_str name @ ''. Expected '' @ repr_str ''local'' @ '' or ''
             @ repr_str ''bridge'' @ ''.'')))"

fun backend_available :: "backend \<Rightarrow> bool" where
  "backend_available (LocalProcess player) = local_available player"
| "backend_available (AudioBridge urls) = bridge_available urls"

fun backend_unavailable_message :: "backend \<Rightarrow> string" where
  "backend_unavailable_message (LocalProcess player) = local_unavailable_message"
| "backend_unavailable_message (AudioBridge urls) = bridge_unavailable_message"

fun backend_start :: "player_env \<Rightarrow> backend \<Rightarrow> start_request \<Rightarrow> (error + playback_session) \<times> player_action list" where
  "backend_start env (LocalProcess player) rq = local_start env player rq"
| "backend_start env (AudioBridge urls) rq = bridge_start env urls rq"

fun backend_set_volume ::
    "player_env \<Rightarrow> backend \<Rightarrow> playback_session \<Rightarrow> pyfloat \<Rightarrow> error option \<times> playback_session \<times> player_action list" where
  "backend_set_volume env (LocalProcess player) s v = local_set_volume s v"
| "backend_set_volume env (AudioBridge urls) s v = bridge_set_volume env urls s v"

fun backend_stop :: "player_env \<Rightarrow> backend \<Rightarrow> playback_session \<Rightarrow> error option \<times> playback_session \<times> player_action list" where
  "backend_stop env (LocalProcess player) s = local_stop env s"
| "backend_stop env (AudioBridge urls) s = bridge_stop env urls s"

fun backend_is_running :: "player_env \<Rightarrow> backend \<Rightarrow> playback_session \<Rightarrow> bool \<times> playback_session" where
  "backend_is_running env (LocalProcess player) s = local_is_running env s"
| "backend_is_running env (AudioBridge urls) s = bridge_is_running s"

section \<open>The contract of a backend\<close>

text \<open>
  What the console relies on: starting needs an available backend and gives an active session at
  the wanted volume; a volume change keeps the session alive and notes the volume even when the
  device refuses it; a stop that returns leaves the session inactive; only an active session is
  running, and looking at it changes no more than its message.
\<close>

locale playback_backend =
  fixes available :: bool
    and start_session :: "start_request \<Rightarrow> (error + playback_session) \<times> player_action list"
    and set_volume :: "playback_session \<Rightarrow> pyfloat \<Rightarrow> error option \<times> playback_session \<times> player_action list"
    and stop_session :: "playback_session \<Rightarrow> error option \<times> playback_session \<times> player_action list"
    and is_running :: "playback_session \<Rightarrow> bool \<times> playback_session"
  assumes start_available: "fst (start_session rq) = Inr s \<Longrightarrow> available"
    and start_unavailable: "\<not> available \<Longrightarrow> \<exists>m. start_session rq = (Inl (PlaybackError m), [])"
    and start_active: "fst (start_session rq) = Inr s \<Longrightarrow> ps_active s \<and> ps_volume s = clamp_volume (sr_volume rq)"
    and volume_noted: "ps_volume (fst (snd (set_volume s v))) = clamp_volume v
      \<and> ps_active (fst (snd (set_volume s v))) = ps_active s
      \<and> ps_process (fst (snd (set_volume s v))) = ps_process s
      \<and> ps_session_id (fst (snd (set_volume s v))) = ps_session_id s"
    and stop_inactive: "fst (stop_session s) = None \<Longrightarrow> \<not> ps_active (fst (snd (stop_session s)))"
    and stop_frame: "ps_process (fst (snd (stop_session s))) = ps_process s
      \<and> ps_session_id (fst (snd (stop_session s))) = ps_session_id s"
    and running_active: "fst (is_running s) \<Longrightarrow> ps_active s \<and> snd (is_running s) = s"
    and running_frame: "ps_active (snd (is_running s)) = ps_active s \<and> ps_volume (snd (is_running s)) = ps_volume s
      \<and> ps_process (snd (is_running s)) = ps_process s \<and> ps_session_id (snd (is_running s)) = ps_session_id s"
begin

lemma stopped_not_running:
  "fst (stop_session s) = None \<Longrightarrow> \<not> fst (is_running (fst (snd (stop_session s))))"
  using stop_inactive running_active by blast

lemma running_session_known:
  assumes "fst (start_session rq) = Inr s" and "fst (is_running (fst (snd (set_volume s v))))"
  shows "available \<and> ps_volume (snd (is_running (fst (snd (set_volume s v))))) = clamp_volume v"
  using assms start_available volume_noted running_frame by metis

end

lemma exited_keeps:
  "process_exited_immediately env s = (code, s') \<Longrightarrow> ps_volume s' = ps_volume s \<and> ps_process s' = ps_process s
     \<and> ps_log_path s' = ps_log_path s \<and> (code = None \<longrightarrow> s' = s)"
  by (auto simp: process_exited_immediately_def split: option.splits)

lemma start_player_running:
  "start_player env p rq seek = (Inr (None, s), acts) \<Longrightarrow> ps_active s \<and> ps_volume s = clamp_volume (sr_volume rq)"
  using exited_keeps by (fastforce simp: start_player_def new_session_def split: sum.splits)

interpretation local_player: playback_backend
  "local_available player" "local_start env player" local_set_volume "local_stop env" "local_is_running env"
  for env player
proof
  fix rq s v
  show "fst (local_start env player rq) = Inr s \<Longrightarrow> local_available player"
    by (auto simp: local_start_def local_available_def split: option.splits if_splits)
  show "\<not> local_available player \<Longrightarrow> \<exists>m. local_start env player rq = (Inl (PlaybackError m), [])"
    by (auto simp: local_start_def local_available_def split: option.splits)
  show "fst (local_start env player rq) = Inr s \<Longrightarrow> ps_active s \<and> ps_volume s = clamp_volume (sr_volume rq)"
    using start_player_running
    by (auto simp: local_start_def Let_def split: option.splits if_splits prod.splits sum.splits)
qed (auto simp: local_set_volume_def local_stop_def local_is_running_def split: option.splits if_splits)

interpretation bridge: playback_backend
  "bridge_available urls" "bridge_start env urls" "bridge_set_volume env urls" "bridge_stop env urls" bridge_is_running
  for env urls
proof
  fix rq s v
  show "fst (bridge_start env urls rq) = Inr s \<Longrightarrow> bridge_available urls"
    by (auto simp: bridge_start_def split: if_splits)
  show "\<not> bridge_available urls \<Longrightarrow> \<exists>m. bridge_start env urls rq = (Inl (PlaybackError m), [])"
    by (simp add: bridge_start_def)
  show "fst (bridge_start env urls rq) = Inr s \<Longrightarrow> ps_active s \<and> ps_volume s = clamp_volume (sr_volume rq)"
    by (auto simp: bridge_start_def new_session_def bind_result_Inr split: if_splits)
  show "ps_volume (fst (snd (bridge_set_volume env urls s v))) = clamp_volume v
      \<and> ps_active (fst (snd (bridge_set_volume env urls s v))) = ps_active s
      \<and> ps_process (fst (snd (bridge_set_volume env urls s v))) = ps_process s
      \<and> ps_session_id (fst (snd (bridge_set_volume env urls s v))) = ps_session_id s"
    by (simp add: bridge_set_volume_def Let_def split: sum.split)
qed (auto simp: bridge_stop_def bridge_is_running_def Let_def split: sum.splits if_splits)

interpretation either: playback_backend
  "backend_available b" "backend_start env b" "backend_set_volume env b" "backend_stop env b" "backend_is_running env b"
  for env b
proof (cases b)
  case (LocalProcess player)
  then have "backend_available b = local_available player" "backend_start env b = local_start env player"
    "backend_set_volume env b = local_set_volume" "backend_stop env b = local_stop env" "backend_is_running env b = local_is_running env"
    by (simp_all add: fun_eq_iff)
  then show "playback_backend (backend_available b) (backend_start env b) (backend_set_volume env b) (backend_stop env b)
      (backend_is_running env b)"
    using local_player.playback_backend_axioms by simp
next
  case (AudioBridge urls)
  then have "backend_available b = bridge_available urls" "backend_start env b = bridge_start env urls"
    "backend_set_volume env b = bridge_set_volume env urls" "backend_stop env b = bridge_stop env urls"
    "backend_is_running env b = bridge_is_running"
    by (simp_all add: fun_eq_iff)
  then show "playback_backend (backend_available b) (backend_start env b) (backend_set_volume env b) (backend_stop env b)
      (backend_is_running env b)"
    using bridge.playback_backend_axioms by simp
qed

section \<open>Stopping a player\<close>

text \<open>Stopping a local player escalates and only ends when the player has: the whole process group gets
  SIGTERM first, SIGKILL only after three seconds without an exit, and the stop returns only
  when an exit of the process was seen; otherwise it raises and the session stays active. A
  player that already ended gets no signal.\<close>

theorem local_stop_escalates:
  assumes "ps_process s = Some pid" and "local_stop env s = (r, s', acts)"
  shows "(r = None \<longleftrightarrow> pe_poll env pid \<noteq> None \<or> pe_term_wait env pid \<noteq> None \<or> pe_kill_wait env pid \<noteq> None)
    \<and> (r = None \<longrightarrow> \<not> ps_active s') \<and> (r \<noteq> None \<longrightarrow> s' = s)
    \<and> (pe_poll env pid \<noteq> None \<longrightarrow> acts = [])
    \<and> (pe_poll env pid = None \<longrightarrow> (\<exists>rest. acts = terminate_process env pid @ rest
          \<and> (rest \<noteq> [] \<longleftrightarrow> pe_term_wait env pid = None) \<and> (rest = [] \<or> rest = kill_process env pid)))"
proof -
  have "kill_process env pid \<noteq> []" by (simp add: kill_process_def signal_player_def)
  then show ?thesis using assms by (auto simp: local_stop_def split: if_splits)
qed

definition plain_player :: player_env where
  "plain_player = \<lparr>pe_which = (\<lambda>_. True), pe_posix = True, pe_config_dir = path_of ''/cfg'', pe_launch = (\<lambda>_. Inr 5),
     pe_first_wait = (\<lambda>_. None), pe_poll = (\<lambda>_. None), pe_term_wait = (\<lambda>_. None), pe_kill_wait = (\<lambda>_. Some (- 9)),
     pe_killpg = (\<lambda>_. Signalled), pe_log_tail = [], pe_bridge = (\<lambda>_ _. BridgeUrlError ''refused''), pe_loads = (\<lambda>_. Inr PNone),
     pe_show_float = (\<lambda>_. ''0.5'')\<rparr>"

theorem local_stop_escalates_witness:
  "\<exists>s'. local_stop plain_player (new_session (Some 5) [] (Fin 1) None)
      = (None, s', [SignalGroup ''SIGTERM'' 5, SignalGroup ''SIGKILL'' 5]) \<and> \<not> ps_active s'"
proof -
  let ?s = "new_session (Some 5) [] (Fin 1) None"
  obtain r s' acts where l: "local_stop plain_player ?s = (r, s', acts)" by (cases "local_stop plain_player ?s") auto
  have p: "ps_process ?s = Some 5" by (simp add: new_session_def)
  have "r = None" "\<not> ps_active s'" "acts = terminate_process plain_player 5 @ kill_process plain_player 5"
    using local_stop_escalates [OF p l] by (auto simp: plain_player_def)
  then show ?thesis using l by (simp add: terminate_process_def kill_process_def signal_player_def plain_player_def)
qed

end
