(* ===== verification/Console.thy ===== *)
theory Console
  imports Playback
begin

text \<open>
  The console client (\<open>src/src/cli/app.py\<close>) as a state machine: the state of \<open>GetOfflineConsole\<close>, one
  function per operation, the key handler, a turn of the main loop, and the step relation of a run
  with its end. What the API, the media server, the terminal and the players answer during one
  step is an argument of the step. An operation returns the exception it ends with, if any,
  and the state; the state records the requests sent to the API, in order.
\<close>

section \<open>State\<close>

datatype api_call =
    LibraryCall string
  | PlayerCall int
  | StartCall int
  | ProgressCall int pyfloat string
  | ActionCall string
  | DownloadCall string
  | SearchCall string

record console =
  co_credentials :: credentials
  co_download_dir :: path
  co_backend :: backend
  co_volume :: pyfloat
  co_filter :: string
  co_episodes :: "pydict list"
  co_jobs :: "pydict list"
  co_selected :: int
  co_offset :: int
  co_message :: string
  co_playing :: "int option"
  co_started_at :: rat
  co_start_position :: pyfloat
  co_session :: "playback_session option"
  co_last_progress :: rat
  co_shut_down :: bool
  co_files :: local_files
  co_calls :: "api_call list"
  co_actions :: "player_action list"

record console_env =
  ce_client :: sdk_client
  ce_player :: player_env
  ce_now :: rat
  ce_prompt :: string
  ce_media :: "string \<Rightarrow> download_answer"
  ce_guess :: "string \<Rightarrow> string option"

type_synonym outcome = "error option \<times> console"

definition and_then :: "outcome \<Rightarrow> (console \<Rightarrow> outcome) \<Rightarrow> outcome" where
  "and_then r f = (case r of (None, c) \<Rightarrow> f c | (Some e, c) \<Rightarrow> (Some e, c))"

definition sent :: "api_call \<Rightarrow> console \<Rightarrow> console" where
  "sent call c = c\<lparr>co_calls := co_calls c @ [call]\<rparr>"

definition acted :: "player_action list \<Rightarrow> console \<Rightarrow> console" where
  "acted acts c = c\<lparr>co_actions := co_actions c @ acts\<rparr>"

text \<open>\<open>list(value or [])\<close> for the lists of objects the API sends.\<close>

definition object_list :: "pyval \<Rightarrow> pydict list" where
  "object_list v = (case py_or v (PList []) of PList xs \<Rightarrow> map as_dict xs | _ \<Rightarrow> [])"

definition last_index :: "console \<Rightarrow> int" where
  "last_index c = max (int (length (co_episodes c)) - 1) 0"

definition new_console ::
    "player_env \<Rightarrow> credentials \<Rightarrow> path \<Rightarrow> string option \<Rightarrow> string option \<Rightarrow> string option \<Rightarrow> string option \<Rightarrow>
     string option \<Rightarrow> pyfloat option \<Rightarrow> local_files \<Rightarrow> error + console" where
  "new_console env cr download_dir player backend_name play_url stop_url volume_url volume fs =
     (let given = (\<lambda>option stored. case option of Some v \<Rightarrow> or_else v stored | None \<Rightarrow> stored) in
      bind_result (build_playback_backend env (given backend_name (cr_playback_backend cr)) player
          (given play_url (cr_bridge_url cr)) (given stop_url (cr_bridge_stop_url cr))
          (given volume_url (cr_bridge_volume_url cr))) (\<lambda>b.
        Inr \<lparr>co_credentials = cr, co_download_dir = download_dir, co_backend = b,
             co_volume = clamp_volume (case volume of None \<Rightarrow> cr_volume cr | Some v \<Rightarrow> v),
             co_filter = ''unplayed'', co_episodes = [], co_jobs = [], co_selected = 0, co_offset = 0,
             co_message = ''Ready'', co_playing = None, co_started_at = 0, co_start_position = pf_zero, co_session = None,
             co_last_progress = 0, co_shut_down = False, co_files = fs, co_calls = [], co_actions = []\<rparr>))"

section \<open>The library\<close>

definition refresh :: "console_env \<Rightarrow> console \<Rightarrow> outcome" where
  "refresh env c0 =
     (let c = sent (LibraryCall (co_filter c0)) c0 in
      case client_frontend_library (ce_client env) (co_filter c) of
        Inl e \<Rightarrow> (Some e, c)
      | Inr payload \<Rightarrow>
          (let episodes = object_list (dget payload ''downloads'') in
           (None, c\<lparr>co_episodes := episodes, co_jobs := object_list (dget payload ''jobs''),
                   co_selected := min (co_selected c) (max (int (length episodes) - 1) 0),
                   co_message := ''Loaded '' @ str_of_int (int (length episodes)) @ '' '' @ co_filter c @ '' item(s)''\<rparr>)))"

definition current_episode :: "console \<Rightarrow> pydict option" where
  "current_episode c = (if co_episodes c = [] then None else Some (co_episodes c ! nat (co_selected c)))"

definition set_filter :: "console_env \<Rightarrow> string \<Rightarrow> console \<Rightarrow> outcome" where
  "set_filter env mode c = refresh env (c\<lparr>co_filter := mode\<rparr>)"

definition search_library :: "console_env \<Rightarrow> console \<Rightarrow> outcome" where
  "search_library env c0 =
     (let query = ce_prompt env in
      if query = [] then (None, c0)
      else let c = sent (SearchCall query) c0 in
        (case client_search (ce_client env) query of
           Inl e \<Rightarrow> (Some e, c)
         | Inr payload \<Rightarrow>
             (let episodes = object_list (dget payload ''results'') in
              (None, c\<lparr>co_episodes := episodes, co_selected := 0, co_filter := ''search'',
                      co_message := ''Search returned '' @ str_of_int (int (length episodes)) @ '' item(s)''\<rparr>))))"

definition add_download :: "console_env \<Rightarrow> console \<Rightarrow> outcome" where
  "add_download env c0 =
     (let url = ce_prompt env in
      if url = [] then (None, c0)
      else let c = sent (DownloadCall url) c0 in
        (case client_download (ce_client env) url [] of
           Inl e \<Rightarrow> (Some e, c)
         | Inr payload \<Rightarrow>
             refresh env (c\<lparr>co_message := (if truthy (dget payload ''ok'') then ''Queued download''
                 else ''Queue failed: '' @ py_str (dget_default payload ''error'' (PStr ''unknown'')))\<rparr>)))"

text \<open>A POST without data; a missing id is the \<open>KeyError\<close> of the subscript.\<close>

definition post_action :: "console_env \<Rightarrow> (string \<Rightarrow> string) \<Rightarrow> string \<Rightarrow> string \<Rightarrow> pydict \<Rightarrow> console \<Rightarrow> outcome" where
  "post_action env target done failed episode c0 =
     (case map_of episode ''id'' of
        None \<Rightarrow> (Some (KeyError ''id''), c0)
      | Some n \<Rightarrow>
          (let c = sent (ActionCall (target (py_str n))) c0 in
           case raw_request (ce_client env) (sdk_api_request ''POST'' (target (py_str n)) [] None None) of
             Inl e \<Rightarrow> (Some e, c)
           | Inr r \<Rightarrow> refresh env (c\<lparr>co_message := (if response_ok r then done
                         else failed @ '' ('' @ str_of_int (rs_status r) @ '')'')\<rparr>)))"

definition mark_selected :: "console_env \<Rightarrow> bool \<Rightarrow> console \<Rightarrow> outcome" where
  "mark_selected env played c =
     (case current_episode c of
        None \<Rightarrow> (None, c)
      | Some episode \<Rightarrow>
          if episode = [] then (None, c)
          else post_action env (\<lambda>n. ''/dashboard/downloads/'' @ n @ (if played then ''/played'' else ''/unplayed''))
                 ''Updated playback status'' ''Update failed'' episode c)"

definition toggle_favorite :: "console_env \<Rightarrow> console \<Rightarrow> outcome" where
  "toggle_favorite env c =
     (case current_episode c of
        None \<Rightarrow> (None, c)
      | Some episode \<Rightarrow>
          if episode = [] then (None, c)
          else post_action env
                 (\<lambda>n. ''/dashboard/downloads/'' @ n @ (if truthy (dget episode ''favorite'') then ''/unfavorite'' else ''/favorite''))
                 ''Updated favorite'' ''Favorite failed'' episode c)"

section \<open>Playback\<close>

definition estimated_position :: "rat \<Rightarrow> console \<Rightarrow> pyfloat" where
  "estimated_position now c =
     (case co_playing c of
        None \<Rightarrow> pf_zero
      | Some _ \<Rightarrow> pf_add (co_start_position c) (Fin (max (now - co_started_at c) 0)))"

definition save_progress :: "console_env \<Rightarrow> string \<Rightarrow> console \<Rightarrow> outcome" where
  "save_progress env reason c =
     (case co_playing c of
        None \<Rightarrow> (None, c)
      | Some episode_id \<Rightarrow>
          (let position = estimated_position (ce_now env) c;
               c1 = sent (ProgressCall episode_id position reason) c in
           case client_playback_progress (ce_client env) episode_id (pe_show_float (ce_player env) position) reason of
             Inl e \<Rightarrow> (Some e, c1)
           | Inr _ \<Rightarrow> (None, c1)))"

text \<open>The backend's stop, with the session it leaves.\<close>

definition stop_backend :: "console_env \<Rightarrow> console \<Rightarrow> outcome" where
  "stop_backend env c =
     (case co_session c of
        None \<Rightarrow> (None, c)
      | Some s \<Rightarrow>
          (case backend_stop (ce_player env) (co_backend c) s of
             (e, s', acts) \<Rightarrow> (e, acted acts (c\<lparr>co_session := Some s'\<rparr>))))"

definition forget_session :: "console \<Rightarrow> console" where
  "forget_session c = c\<lparr>co_session := None, co_playing := None\<rparr>"

definition stop_playback :: "console_env \<Rightarrow> string \<Rightarrow> console \<Rightarrow> outcome" where
  "stop_playback env reason c =
     and_then (and_then (stop_backend env c) (save_progress env reason)) (\<lambda>c. (None, forget_session c))"

definition stream_url :: "console \<Rightarrow> int \<Rightarrow> string" where
  "stream_url c episode_id = api_url (co_credentials c) @ ''/stream/'' @ py_quote (str_of_int episode_id)"

text \<open>Fetching the file and starting the player; a playback error becomes a message.\<close>

definition start_playback :: "console_env \<Rightarrow> int \<Rightarrow> pydict \<Rightarrow> pydict \<Rightarrow> pyfloat \<Rightarrow> console \<Rightarrow> outcome" where
  "start_playback env episode_id episode item seek c =
     (let playback_failed = (\<lambda>e c. if is_playback_error e then (None, c\<lparr>co_message := ''Playback failed: '' @ error_text e\<rparr>) else (Some e, c));
          (media, fs) = download_media_file (ce_guess env) (co_download_dir c) episode_id item
                          (ce_media env (stream_url c episode_id)) (co_files c);
          c1 = c\<lparr>co_files := fs\<rparr>
      in case media of
           Inl e \<Rightarrow> playback_failed e c1
         | Inr p \<Rightarrow>
             (case backend_start (ce_player env) (co_backend c1)
                 \<lparr>sr_item = item, sr_url = path_str p, sr_auth = auth_header (co_credentials c1), sr_seek = seek, sr_volume = co_volume c1\<rparr> of
                (Inl e, acts) \<Rightarrow> playback_failed e (acted acts c1)
              | (Inr s, acts) \<Rightarrow>
                  (None, (acted acts c1)\<lparr>co_session := Some s, co_playing := Some episode_id, co_start_position := seek,
                      co_started_at := ce_now env, co_last_progress := 0,
                      co_message := ''Playing: '' @ py_str (py_or (py_or (dget item ''title'') (dget episode ''title'')) (PInt episode_id))\<rparr>)))"

definition play_episode :: "console_env \<Rightarrow> pydict \<Rightarrow> console \<Rightarrow> outcome" where
  "play_episode env episode c =
     (case map_of episode ''id'' of
        None \<Rightarrow> (Some (KeyError ''id''), c)
      | Some v \<Rightarrow>
          (case py_int_val v of
             None \<Rightarrow> (Some (int_error v), c)
           | Some episode_id \<Rightarrow>
               (let c1 = sent (PlayerCall episode_id) c in
                case client_frontend_player (ce_client env) episode_id [] of
                  Inl e \<Rightarrow> (Some e, c1)
                | Inr payload \<Rightarrow>
                    (let item = as_dict (py_or (dget payload ''item'') (PDict episode)) in
                     case float_of_value (py_or (py_or (dget payload ''seek_seconds'') (dget item ''last_position_seconds'')) (PFloat ''0.0'')) of
                       Inl e \<Rightarrow> (Some e, c1)
                     | Inr seek \<Rightarrow>
                         (let c2 = sent (StartCall episode_id) c1 in
                          case client_playback_start (ce_client env) episode_id of
                            Inl e \<Rightarrow> (Some e, c2)
                          | Inr _ \<Rightarrow> start_playback env episode_id episode item seek c2)))))"

definition play_selected :: "console_env \<Rightarrow> console \<Rightarrow> outcome" where
  "play_selected env c =
     (case current_episode c of
        None \<Rightarrow> (None, c\<lparr>co_message := ''No episode selected''\<rparr>)
      | Some episode \<Rightarrow>
          if episode = [] then (None, c\<lparr>co_message := ''No episode selected''\<rparr>)
          else if \<not> backend_available (co_backend c)
          then (None, c\<lparr>co_message := backend_unavailable_message (co_backend c)\<rparr>)
          else and_then (stop_playback env ''switch'' c) (play_episode env episode))"

definition adjust_volume :: "console_env \<Rightarrow> rat \<Rightarrow> console \<Rightarrow> outcome" where
  "adjust_volume env delta c =
     (let previous = co_volume c; c1 = c\<lparr>co_volume := clamp_volume (pf_add (co_volume c) (Fin delta))\<rparr>;
          told = (\<lambda>c. (None, c\<lparr>co_message := ''Volume: '' @ format_volume (co_volume c)\<rparr>))
      in case co_session c1 of
           None \<Rightarrow> told c1
         | Some s \<Rightarrow>
             (case backend_set_volume (ce_player env) (co_backend c1) s (co_volume c1) of
                (e, s', acts) \<Rightarrow>
                  (let c2 = acted acts (c1\<lparr>co_session := Some s'\<rparr>) in
                   case e of
                     None \<Rightarrow> told c2
                   | Some e \<Rightarrow> if is_playback_error e
                       then (None, c2\<lparr>co_volume := previous, co_message := ''Volume failed: '' @ error_text e\<rparr>)
                       else (Some e, c2))))"

definition shutdown :: "console_env \<Rightarrow> console \<Rightarrow> outcome" where
  "shutdown env c = (if co_shut_down c then (None, c) else stop_playback env ''quit'' (c\<lparr>co_shut_down := True\<rparr>))"

section \<open>The main loop\<close>

definition PROGRESS_INTERVAL_SECONDS :: rat where
  "PROGRESS_INTERVAL_SECONDS = 5"

text \<open>Whether the session runs, with the session as the look at it leaves it.\<close>

definition look_at_session :: "console_env \<Rightarrow> playback_session \<Rightarrow> console \<Rightarrow> bool \<times> console" where
  "look_at_session env s c =
     (case backend_is_running (ce_player env) (co_backend c) s of (running, s') \<Rightarrow> (running, c\<lparr>co_session := Some s'\<rparr>))"

definition send_periodic_progress :: "console_env \<Rightarrow> console \<Rightarrow> outcome" where
  "send_periodic_progress env c =
     (case (co_playing c, co_session c) of
        (Some _, Some s) \<Rightarrow>
          (case look_at_session env s c of
             (False, c1) \<Rightarrow> (None, c1)
           | (True, c1) \<Rightarrow>
               if PROGRESS_INTERVAL_SECONDS \<le> ce_now env - co_last_progress c1
               then save_progress env ''timeupdate'' (c1\<lparr>co_last_progress := ce_now env\<rparr>) else (None, c1))
      | _ \<Rightarrow> (None, c))"

definition session_detail :: "console \<Rightarrow> string" where
  "session_detail c = (case co_session c of None \<Rightarrow> [] | Some s \<Rightarrow> ps_error_message s)"

definition reap_player :: "console_env \<Rightarrow> console \<Rightarrow> outcome" where
  "reap_player env c =
     (case co_session c of
        None \<Rightarrow> (None, c)
      | Some s \<Rightarrow>
          (case look_at_session env s c of
             (True, c1) \<Rightarrow> (None, c1)
           | (False, c1) \<Rightarrow>
               and_then (and_then (and_then (save_progress env ''stopped'' c1) (stop_backend env))
                  (\<lambda>c. refresh env (forget_session c)))
                 (\<lambda>c. (None, c\<lparr>co_message := or_else (session_detail c1) ''Playback stopped''\<rparr>))))"

text \<open>The window of rows: the offset after drawing, and the rows drawn.\<close>

definition scroll :: "int \<Rightarrow> console \<Rightarrow> console" where
  "scroll height c =
     (let list_height = max (height - 6) 1; offset = min (co_offset c) (co_selected c) in
      c\<lparr>co_offset := (if offset + list_height \<le> co_selected c then co_selected c - list_height + 1 else offset)\<rparr>)"

definition visible_episodes :: "int \<Rightarrow> console \<Rightarrow> pydict list" where
  "visible_episodes height c =
     take (nat (max (height - 6) 1)) (drop (nat (co_offset (scroll height c))) (co_episodes c))"

definition header_line :: "console \<Rightarrow> string" where
  "header_line c = '' getoffline | '' @ cr_username (co_credentials c) @ ''@'' @ cr_base_url (co_credentials c)
     @ '' | filter: '' @ co_filter c @ '' ''"

definition controls_line :: string where
  "controls_line = '' Move: j/k  Play: Enter/p  Stop: s  Vol: -/+  Search: /  Add: a  Favorite: f  Quit: q ''"

definition filters_line :: string where
  "filters_line =
     '' Mark: m played, u unplayed  Filters: 1 unplayed, 2 played, 3 favorites, 4 all  Refresh: r ''"

definition episode_line :: "int \<Rightarrow> pydict \<Rightarrow> string" where
  "episode_line width episode =
     format_episode_row (if truthy (dget episode ''played'') then ''played'' else ''new'')
       (py_str (py_or (py_or (dget episode ''source_name'') (dget episode ''source_type'')) (PStr [])))
       (py_str (py_or (dget episode ''title'') (PStr ''Untitled''))) width"

text \<open>The position is an integer of a float, which an infinite start position has not.\<close>

definition footer_line :: "rat \<Rightarrow> console \<Rightarrow> error + string" where
  "footer_line now c =
     (let base = '' '' @ co_message c @ '' | volume '' @ format_volume (co_volume c) @ '' '' in
      case co_playing c of
        None \<Rightarrow> Inr base
      | Some i \<Rightarrow>
          if i = 0 then Inr base
          else bind_result (int_of_float (estimated_position now c)) (\<lambda>s. Inr (base @ ''| position ~'' @ str_of_int s @ ''s '')))"

definition put_line :: "int \<Rightarrow> int \<Rightarrow> int \<Rightarrow> string \<Rightarrow> (int \<times> string) list" where
  "put_line height width row shown =
     (case addnstr_text height width row 0 shown of None \<Rightarrow> [] | Some t \<Rightarrow> [(row, t)])"

text \<open>Everything above the footer: rows of the screen and what is written into them.\<close>

definition drawn_rows :: "int \<Rightarrow> int \<Rightarrow> console \<Rightarrow> (int \<times> string) list" where
  "drawn_rows height width c =
     put_line height width 0 (header_line c) @ put_line height width 1 controls_line @ put_line height width 2 filters_line
     @ concat (map (\<lambda>(i, e). put_line height width (4 + int i) (episode_line width e))
         (List.enumerate 0 (visible_episodes height c)))"

definition draw :: "rat \<Rightarrow> int \<Rightarrow> int \<Rightarrow> console \<Rightarrow> error option \<times> (int \<times> string) list" where
  "draw now height width c =
     (case footer_line now c of
        Inl e \<Rightarrow> (Some e, drawn_rows height width c)
      | Inr footer \<Rightarrow> (None, drawn_rows height width c @ put_line height width (height - 1) footer))"

definition loop_turn :: "console_env \<Rightarrow> int \<Rightarrow> int \<Rightarrow> console \<Rightarrow> outcome" where
  "loop_turn env height width c =
     and_then (and_then (reap_player env c) (send_periodic_progress env))
       (\<lambda>c. (fst (draw (ce_now env) height width c), scroll height c))"

text \<open>Keys by their curses codes.\<close>

definition key_code :: "char \<Rightarrow> int" where
  "key_code c = int (ord c)"

definition select_row :: "int \<Rightarrow> console \<Rightarrow> outcome" where
  "select_row n c = (None, c\<lparr>co_selected := n\<rparr>)"

definition handle_key :: "console_env \<Rightarrow> int \<Rightarrow> console \<Rightarrow> outcome" where
  "handle_key env key c =
     (let is = (\<lambda>ch. key = key_code ch) in
      if key = 259 \<or> is CHR ''k'' then select_row (max 0 (co_selected c - 1)) c
      else if key = 258 \<or> is CHR ''j'' then select_row (min (last_index c) (co_selected c + 1)) c
      else if key = 338 \<or> is CHR '' '' then select_row (min (last_index c) (co_selected c + 10)) c
      else if key = 339 then select_row (max 0 (co_selected c - 10)) c
      else if key = 10 \<or> key = 343 \<or> is CHR ''p'' then play_selected env c
      else if is CHR ''s'' then stop_playback env ''stop'' c
      else if is CHR ''-'' \<or> is CHR ''_'' then adjust_volume env (- (1 / 10)) c
      else if is CHR ''+'' \<or> is CHR ''='' then adjust_volume env (1 / 10) c
      else if is CHR ''r'' then refresh env c
      else if is CHR ''/'' then search_library env c
      else if is CHR ''a'' then add_download env c
      else if is CHR ''m'' then mark_selected env True c
      else if is CHR ''u'' then mark_selected env False c
      else if is CHR ''f'' then toggle_favorite env c
      else if is CHR ''1'' then set_filter env ''unplayed'' c
      else if is CHR ''2'' then set_filter env ''played'' c
      else if is CHR ''3'' then set_filter env ''favorites'' c
      else if is CHR ''4'' then set_filter env ''all'' c
      else (None, c))"

definition quit_key :: "int \<Rightarrow> bool" where
  "quit_key key \<longleftrightarrow> key = key_code CHR ''q'' \<or> key = 27"

section \<open>Runs\<close>

text \<open>
  A run opens with a refresh and then takes turns and keys until a quit key or an exception ends it
  through \<open>shutdown\<close>. Each step sees an environment of its own.
\<close>

inductive console_step :: "console \<Rightarrow> console \<Rightarrow> bool" where
  turn: "\<not> co_shut_down c \<Longrightarrow> loop_turn env height width c = (None, c') \<Longrightarrow> console_step c c'"
| key: "\<not> co_shut_down c \<Longrightarrow> \<not> quit_key k \<Longrightarrow> handle_key env k c = (None, c') \<Longrightarrow> console_step c c'"
| quit: "\<not> co_shut_down c \<Longrightarrow> quit_key k \<Longrightarrow> shutdown env c = (r, c') \<Longrightarrow> console_step c c'"
| failed_turn: "\<not> co_shut_down c \<Longrightarrow> loop_turn env height width c = (Some e, c1) \<Longrightarrow> shutdown env2 c1 = (r, c') \<Longrightarrow> console_step c c'"
| failed_key: "\<not> co_shut_down c \<Longrightarrow> \<not> quit_key k \<Longrightarrow> handle_key env k c = (Some e, c1) \<Longrightarrow> shutdown env2 c1 = (r, c') \<Longrightarrow> console_step c c'"

inductive console_reachable :: "console \<Rightarrow> bool" where
  opened: "new_console penv cr dir player b play stop vol volume fs = Inr c0 \<Longrightarrow> refresh env c0 = (None, c) \<Longrightarrow> console_reachable c"
| further: "console_reachable c \<Longrightarrow> console_step c c' \<Longrightarrow> console_reachable c'"

inductive_cases console_stepE: "console_step c c'"

section \<open>The state stays well formed\<close>

definition console_ok :: "console \<Rightarrow> bool" where
  "console_ok c \<longleftrightarrow> 0 \<le> co_selected c \<and> co_selected c \<le> last_index c \<and> 0 \<le> co_offset c
     \<and> clamp_volume (co_volume c) = co_volume c \<and> (co_playing c \<noteq> None \<longleftrightarrow> co_session c \<noteq> None)"

named_theorems console_keeps \<open>the operations of the console keep its state well formed\<close>

lemma and_then_keeps:
  "console_ok (snd r) \<Longrightarrow> (\<And>c. console_ok c \<Longrightarrow> console_ok (snd (f c))) \<Longrightarrow> console_ok (snd (and_then r f))"
  by (auto simp: and_then_def split: prod.splits option.splits)

lemma trace_keeps [simp]:
  "console_ok (sent call c) = console_ok c" "console_ok (acted acts c) = console_ok c"
  "console_ok (c\<lparr>co_message := m\<rparr>) = console_ok c" "console_ok (c\<lparr>co_files := fs\<rparr>) = console_ok c"
  "console_ok (c\<lparr>co_last_progress := t\<rparr>) = console_ok c" "console_ok (c\<lparr>co_shut_down := b\<rparr>) = console_ok c"
  "console_ok (c\<lparr>co_filter := f\<rparr>) = console_ok c"
  by (simp_all add: console_ok_def sent_def acted_def last_index_def)

lemma session_keeps: "console_ok c \<Longrightarrow> co_session c \<noteq> None \<Longrightarrow> console_ok (c\<lparr>co_session := Some s\<rparr>)"
  by (auto simp: console_ok_def last_index_def)

lemma forget_keeps [console_keeps]: "console_ok c \<Longrightarrow> console_ok (forget_session c)"
  by (auto simp: console_ok_def last_index_def forget_session_def)

lemma refresh_keeps [console_keeps]: "console_ok c \<Longrightarrow> console_ok (snd (refresh env c))"
  by (auto simp: refresh_def Let_def console_ok_def last_index_def sent_def split: sum.split)

lemma search_keeps [console_keeps]: "console_ok c \<Longrightarrow> console_ok (snd (search_library env c))"
  by (auto simp: search_library_def Let_def console_ok_def last_index_def sent_def split: sum.split)

lemma add_download_keeps [console_keeps]: "console_ok c \<Longrightarrow> console_ok (snd (add_download env c))"
  by (auto simp: add_download_def Let_def intro!: refresh_keeps split: sum.split)

lemma post_action_keeps [console_keeps]: "console_ok c \<Longrightarrow> console_ok (snd (post_action env target done failed episode c))"
  by (auto simp: post_action_def Let_def intro!: refresh_keeps split: sum.split option.split)

lemma mark_keeps [console_keeps]: "console_ok c \<Longrightarrow> console_ok (snd (mark_selected env b c))"
  by (auto simp: mark_selected_def intro!: post_action_keeps split: option.split)

lemma favorite_keeps [console_keeps]: "console_ok c \<Longrightarrow> console_ok (snd (toggle_favorite env c))"
  by (auto simp: toggle_favorite_def intro!: post_action_keeps split: option.split)

lemma save_progress_keeps [console_keeps]: "console_ok c \<Longrightarrow> console_ok (snd (save_progress env reason c))"
  by (auto simp: save_progress_def Let_def split: option.split sum.split)

lemma stop_backend_keeps [console_keeps]: "console_ok c \<Longrightarrow> console_ok (snd (stop_backend env c))"
  by (auto simp: stop_backend_def intro!: session_keeps split: option.split prod.split)

lemma stop_playback_keeps [console_keeps]: "console_ok c \<Longrightarrow> console_ok (snd (stop_playback env reason c))"
  unfolding stop_playback_def by (intro and_then_keeps) (auto intro: console_keeps)

lemma start_playback_keeps [console_keeps]: "console_ok c \<Longrightarrow> console_ok (snd (start_playback env n episode item seek c))"
  by (auto simp: start_playback_def Let_def console_ok_def last_index_def acted_def split: prod.split sum.split)

lemma play_episode_keeps [console_keeps]: "console_ok c \<Longrightarrow> console_ok (snd (play_episode env episode c))"
  by (auto simp: play_episode_def Let_def intro!: start_playback_keeps split: option.split sum.split)

lemma play_selected_keeps [console_keeps]: "console_ok c \<Longrightarrow> console_ok (snd (play_selected env c))"
  by (auto simp: play_selected_def intro!: and_then_keeps console_keeps split: option.split)

lemma adjust_volume_keeps [console_keeps]: "console_ok c \<Longrightarrow> console_ok (snd (adjust_volume env delta c))"
  by (auto simp: adjust_volume_def Let_def console_ok_def last_index_def acted_def split: option.splits prod.splits)

lemma shutdown_keeps [console_keeps]: "console_ok c \<Longrightarrow> console_ok (snd (shutdown env c))"
  by (auto simp: shutdown_def intro!: stop_playback_keeps)

lemma look_keeps: "console_ok c \<Longrightarrow> co_session c = Some s \<Longrightarrow> console_ok (snd (look_at_session env s c))"
  by (auto simp: look_at_session_def intro!: session_keeps split: prod.split)

lemma periodic_keeps [console_keeps]: "console_ok c \<Longrightarrow> console_ok (snd (send_periodic_progress env c))"
  using look_keeps [of c _ env]
  by (fastforce simp: send_periodic_progress_def intro!: save_progress_keeps split: option.split prod.splits bool.split)

lemma reap_keeps [console_keeps]: "console_ok c \<Longrightarrow> console_ok (snd (reap_player env c))"
proof (cases "co_session c")
  case (Some s)
  assume ok: "console_ok c"
  obtain running c1 where l: "look_at_session env s c = (running, c1)" by fastforce
  then have c1: "console_ok c1" using look_keeps [OF ok Some, of env] by simp
  show ?thesis
    using c1 by (cases running) (auto simp: reap_player_def Some l intro!: and_then_keeps intro: console_keeps)
qed (simp add: reap_player_def)

lemma scroll_keeps [console_keeps]: "console_ok c \<Longrightarrow> console_ok (scroll height c)"
  by (auto simp: scroll_def console_ok_def last_index_def Let_def)

lemma loop_turn_keeps [console_keeps]: "console_ok c \<Longrightarrow> console_ok (snd (loop_turn env height width c))"
  unfolding loop_turn_def by (intro and_then_keeps) (auto intro: console_keeps)

lemma select_row_keeps: "console_ok c \<Longrightarrow> 0 \<le> n \<Longrightarrow> n \<le> last_index c \<Longrightarrow> console_ok (snd (select_row n c))"
  by (auto simp: select_row_def console_ok_def last_index_def)

lemma if_keeps:
  "console_ok (snd x) \<Longrightarrow> console_ok (snd y) \<Longrightarrow> console_ok (snd (if b then x else y))"
  by simp

lemma handle_key_keeps [console_keeps]: "console_ok c \<Longrightarrow> console_ok (snd (handle_key env key c))"
proof -
  assume ok: "console_ok c"
  then have sel: "0 \<le> co_selected c" "co_selected c \<le> last_index c" "0 \<le> last_index c" by (simp_all add: console_ok_def)
  show ?thesis
    unfolding handle_key_def Let_def set_filter_def
    by (intro if_keeps select_row_keeps play_selected_keeps stop_playback_keeps adjust_volume_keeps refresh_keeps search_keeps
        add_download_keeps mark_keeps favorite_keeps) (use ok sel in simp_all)
qed

lemma console_step_keeps: "console_step c c' \<Longrightarrow> console_ok c \<Longrightarrow> console_ok c'"
proof (induction rule: console_step.induct)
  case (turn c env height width c')
  then show ?case using loop_turn_keeps [of c env height width] by simp
next
  case (key c k env c')
  then show ?case using handle_key_keeps [of c env k] by simp
next
  case (quit c k env r c')
  then show ?case using shutdown_keeps [of c env] by simp
next
  case (failed_turn c env height width e c1 env2 r c')
  then show ?case using loop_turn_keeps [of c env height width] shutdown_keeps [of c1 env2] by simp
next
  case (failed_key c k env e c1 env2 r c')
  then show ?case using handle_key_keeps [of c env k] shutdown_keeps [of c1 env2] by simp
qed

lemma new_console_ok: "new_console penv cr dir player b play stop vol volume fs = Inr c \<Longrightarrow> console_ok c"
  by (auto simp: new_console_def Let_def bind_result_Inr console_ok_def last_index_def)

lemma reachable_ok: "console_reachable c \<Longrightarrow> console_ok c"
proof (induction rule: console_reachable.induct)
  case (opened penv cr dir player b play stop vol volume fs c0 env c)
  then show ?case using new_console_ok [of penv cr dir player b play stop vol volume fs c0] refresh_keeps [of c0 env] by simp
qed (blast intro: console_step_keeps)

lemma selected_visible:
  assumes ok: "console_ok c" and ne: "co_episodes c \<noteq> []"
  shows "0 \<le> co_selected c" "co_selected c < int (length (co_episodes c))"
    "current_episode c = Some (visible_episodes height c ! nat (co_selected c - co_offset (scroll height c)))"
    "nat (co_selected c - co_offset (scroll height c)) < length (visible_episodes height c)"
    "co_offset (scroll height c) \<le> co_selected c" "co_selected c - co_offset (scroll height c) < max (height - 6) 1"
proof -
  define off where "off = co_offset (scroll height c)"
  define h where "h = max (height - 6) 1"
  have off: "0 \<le> off" "off \<le> co_selected c" "co_selected c < off + h"
    using ok by (auto simp: off_def h_def scroll_def console_ok_def Let_def)
  have n: "nat off \<le> nat (co_selected c)" "nat (co_selected c) - nat off < nat h" using off by linarith+
  have vis: "visible_episodes height c = take (nat h) (drop (nat off) (co_episodes c))"
    by (simp add: visible_episodes_def off_def h_def)
  have len: "nat (co_selected c) < length (co_episodes c)"
    using ok ne by (auto simp: console_ok_def last_index_def neq_Nil_conv)
  show "0 \<le> co_selected c" "co_selected c < int (length (co_episodes c))" using ok len by (auto simp: console_ok_def)
  show "current_episode c = Some (visible_episodes height c ! nat (co_selected c - co_offset (scroll height c)))"
    "nat (co_selected c - co_offset (scroll height c)) < length (visible_episodes height c)"
    unfolding off_def [symmetric]
    using vis len ne off n diff_less_mono [of "nat (co_selected c)" "length (co_episodes c)" "nat off"]
    by (auto simp: current_episode_def nat_diff_distrib)
  show "co_offset (scroll height c) \<le> co_selected c" "co_selected c - co_offset (scroll height c) < max (height - 6) 1"
    using off by (auto simp: off_def h_def)
qed

lemma put_line_inside:
  "0 \<le> row \<Longrightarrow> row < height \<Longrightarrow> 2 \<le> width \<Longrightarrow>
     put_line height width row shown = [(row, take (nat (width - 1)) (ljust (width - 1) shown))]"
  by (simp add: put_line_def addnstr_text_def Let_def)

text \<open>C24: The console shows what it acts on: in every reachable state with episodes the selection lies in
  the list, and in a window of at least 7 rows and 2 columns the next drawing has a row, above the
  footer's, with the line of the very episode the keys act on. The volume is between 0 and 1, and an
  episode is marked as playing exactly when there is a session.\<close>

theorem console_invariant:
  assumes "console_reachable c" and "7 \<le> height" and "2 \<le> width"
  shows "(co_episodes c \<noteq> [] \<longrightarrow> (\<exists>e row. current_episode c = Some e \<and> e \<in> set (co_episodes c) \<and> 3 < row \<and> row < height - 1
      \<and> (row, take (nat (width - 1)) (ljust (width - 1) (episode_line width e))) \<in> set (drawn_rows height width c)))
    \<and> (\<exists>q. co_volume c = Fin q \<and> 0 \<le> q \<and> q \<le> 1)
    \<and> (co_playing c \<noteq> None \<longleftrightarrow> co_session c \<noteq> None)"
proof -
  have ok: "console_ok c" using reachable_ok [OF assms(1)] .
  have "\<exists>e row. current_episode c = Some e \<and> e \<in> set (co_episodes c) \<and> 3 < row \<and> row < height - 1
      \<and> (row, take (nat (width - 1)) (ljust (width - 1) (episode_line width e))) \<in> set (drawn_rows height width c)"
    if ne: "co_episodes c \<noteq> []"
  proof -
    note v = selected_visible(3-6) [OF ok ne, of height]
    define k where "k = nat (co_selected c - co_offset (scroll height c))"
    define e where "e = visible_episodes height c ! k"
    have k: "k < length (visible_episodes height c)" "int k < height - 6" "current_episode c = Some e"
      using v assms(2) by (auto simp: k_def e_def)
    have "(k, e) \<in> set (List.enumerate 0 (visible_episodes height c))"
      using k(1) by (auto simp: in_set_enumerate_eq e_def)
    moreover have "put_line height width (4 + int k) (episode_line width e)
        = [(4 + int k, take (nat (width - 1)) (ljust (width - 1) (episode_line width e)))]"
      using k(2) assms(3) by (intro put_line_inside) auto
    ultimately have "(4 + int k, take (nat (width - 1)) (ljust (width - 1) (episode_line width e))) \<in> set (drawn_rows height width c)"
      by (force simp: drawn_rows_def)
    moreover have "e \<in> set (co_episodes c)"
      using nth_mem [OF k(1)] in_set_takeD in_set_dropD by (fastforce simp: e_def visible_episodes_def)
    ultimately show ?thesis using k(2,3) by (intro exI [of _ e] exI [of _ "4 + int k"]) auto
  qed
  moreover have "\<exists>q. co_volume c = Fin q \<and> 0 \<le> q \<and> q \<le> 1"
    using ok clamp_volume_finite [of "co_volume c"] by (simp add: console_ok_def)
  ultimately show ?thesis using ok by (auto simp: console_ok_def)
qed

section \<open>No place is lost\<close>

text \<open>
  What happens to the place of the episode that is playing: it goes on, or its position at some
  moment is reported among the requests that are new.
\<close>

definition goes_on :: "console \<Rightarrow> console \<Rightarrow> int \<Rightarrow> bool" where
  "goes_on c c' i \<longleftrightarrow> co_playing c' = Some i \<and> co_start_position c' = co_start_position c \<and> co_started_at c' = co_started_at c"

definition reported :: "console \<Rightarrow> console \<Rightarrow> int \<Rightarrow> bool" where
  "reported c c' i \<longleftrightarrow> (\<exists>now reason. ProgressCall i (estimated_position now c) reason \<in> set (drop (length (co_calls c)) (co_calls c')))"

definition keeps_place :: "console \<Rightarrow> console \<Rightarrow> bool" where
  "keeps_place c c' \<longleftrightarrow> prefix (co_calls c) (co_calls c') \<and> co_shut_down c' = co_shut_down c \<and>
     (\<forall>i. co_playing c = Some i \<longrightarrow> goes_on c c' i \<or> reported c c' i)"

named_theorems place_intros \<open>the operations of the console keep the place of the episode\<close>

lemma prefix_drop_mono: "prefix xs ys \<Longrightarrow> prefix ys zs \<Longrightarrow> set (drop (length xs) ys) \<subseteq> set (drop (length xs) zs)"
  by (auto simp: prefix_def)

lemma prefix_drop_shift: "prefix xs ys \<Longrightarrow> prefix ys zs \<Longrightarrow> set (drop (length ys) zs) \<subseteq> set (drop (length xs) zs)"
  by (auto simp: prefix_def)

lemma keeps_place_refl [simp]: "keeps_place c c"
  by (simp add: keeps_place_def goes_on_def)

lemma keeps_place_trans:
  assumes "keeps_place a b" and "keeps_place b c"
  shows "keeps_place a c"
proof -
  note p = assms(1)[unfolded keeps_place_def, THEN conjunct1] assms(2)[unfolded keeps_place_def, THEN conjunct1]
  have "goes_on a c i \<or> reported a c i" if i: "co_playing a = Some i" for i
  proof (cases "reported a b i")
    case True
    then show ?thesis using prefix_drop_mono [OF p] by (auto simp: reported_def)
  next
    case False
    then have g: "goes_on a b i" using assms(1) i by (auto simp: keeps_place_def)
    then have "goes_on b c i \<or> reported b c i" using assms(2) by (auto simp: keeps_place_def goes_on_def)
    moreover have "estimated_position now b = estimated_position now a" for now
      using g i by (simp add: goes_on_def estimated_position_def)
    ultimately show ?thesis
      using g prefix_drop_shift [OF p] by (auto simp: goes_on_def reported_def)
  qed
  then show ?thesis using p prefix_order.trans assms by (auto simp: keeps_place_def)
qed

lemma and_then_place:
  "keeps_place a (snd r) \<Longrightarrow> (\<And>c. keeps_place c (snd (f c))) \<Longrightarrow> keeps_place a (snd (and_then r f))"
  by (auto simp: and_then_def split: prod.splits option.splits intro: keeps_place_trans)

lemma place_kept:
  "prefix (co_calls c) (co_calls c') \<Longrightarrow> co_playing c' = co_playing c \<Longrightarrow> co_start_position c' = co_start_position c \<Longrightarrow>
   co_started_at c' = co_started_at c \<Longrightarrow> co_shut_down c' = co_shut_down c \<Longrightarrow> keeps_place c c'"
  by (auto simp: keeps_place_def goes_on_def)

lemma sent_place [simp]: "keeps_place c (sent call c)"
  by (rule place_kept) (simp_all add: sent_def)

lemma refresh_place [place_intros]: "keeps_place c (snd (refresh env c))"
  by (rule place_kept) (auto simp: refresh_def Let_def sent_def split: sum.split)

lemma search_place [place_intros]: "keeps_place c (snd (search_library env c))"
  by (rule place_kept) (auto simp: search_library_def Let_def sent_def split: sum.split)

lemma update_place:
  "co_calls c1 = co_calls c \<Longrightarrow> co_playing c1 = co_playing c \<Longrightarrow> co_start_position c1 = co_start_position c \<Longrightarrow>
   co_started_at c1 = co_started_at c \<Longrightarrow> co_shut_down c1 = co_shut_down c \<Longrightarrow> keeps_place c1 c2 \<Longrightarrow> keeps_place c c2"
  using place_kept [of c c1] keeps_place_trans by auto

lemma after_sent: "keeps_place (sent call c) c' \<Longrightarrow> keeps_place c c'"
  using keeps_place_trans sent_place by blast

lemma refresh_message_place:
  "keeps_place c (snd (refresh env ((sent call c)\<lparr>co_message := m\<rparr>)))"
  by (rule after_sent, rule update_place [OF _ _ _ _ _ refresh_place]) simp_all

lemma add_download_place [place_intros]: "keeps_place c (snd (add_download env c))"
  by (auto simp: add_download_def Let_def refresh_message_place split: sum.split)

lemma post_action_place [place_intros]: "keeps_place c (snd (post_action env target done failed episode c))"
  by (auto simp: post_action_def Let_def refresh_message_place split: sum.split option.split)

lemma mark_place [place_intros]: "keeps_place c (snd (mark_selected env b c))"
  by (auto simp: mark_selected_def post_action_place split: option.split)

lemma favorite_place [place_intros]: "keeps_place c (snd (toggle_favorite env c))"
  by (auto simp: toggle_favorite_def post_action_place split: option.split)

lemma save_progress_place [place_intros]: "keeps_place c (snd (save_progress env reason c))"
  by (rule place_kept) (auto simp: save_progress_def Let_def sent_def split: option.split sum.split)

lemma stop_backend_place [place_intros]: "keeps_place c (snd (stop_backend env c))"
  by (rule place_kept) (auto simp: stop_backend_def acted_def split: option.split prod.split)

lemma stop_backend_playing: "stop_backend env c = (e, c') \<Longrightarrow> co_playing c' = co_playing c"
  by (auto simp: stop_backend_def acted_def split: option.splits prod.splits)

text \<open>Once the progress is saved, the session may be forgotten.\<close>

lemma saved_reported:
  "save_progress env reason c = (None, c') \<Longrightarrow> co_playing c = Some i \<Longrightarrow>
     ProgressCall i (estimated_position (ce_now env) c) reason \<in> set (drop (length (co_calls c)) (co_calls c'))"
  by (auto simp: save_progress_def Let_def sent_def split: sum.splits)

lemma keeps_place_ended:
  assumes "keeps_place a b" and "save_progress env reason b = (None, c)" and "prefix (co_calls c) (co_calls d)"
    and "co_shut_down d = co_shut_down c"
  shows "keeps_place a d"
proof -
  have p: "prefix (co_calls a) (co_calls b)" using assms(1) by (simp add: keeps_place_def)
  have q: "prefix (co_calls b) (co_calls c)" "co_shut_down c = co_shut_down b"
    using save_progress_place [of b env reason] assms(2) by (simp_all add: keeps_place_def)
  have "reported a d i" if i: "co_playing a = Some i" for i
  proof (cases "reported a b i")
    case True
    then show ?thesis using prefix_drop_mono [OF p prefix_order.trans [OF q(1) assms(3)]] by (auto simp: reported_def)
  next
    case False
    then have g: "goes_on a b i" using assms(1) i by (auto simp: keeps_place_def)
    then have e: "estimated_position (ce_now env) b = estimated_position (ce_now env) a"
      using i by (simp add: goes_on_def estimated_position_def)
    have "ProgressCall i (estimated_position (ce_now env) a) reason \<in> set (drop (length (co_calls b)) (co_calls c))"
      using saved_reported [OF assms(2), of i] g e by (simp add: goes_on_def)
    then show ?thesis
      using prefix_drop_mono [OF q(1) assms(3)] prefix_drop_shift [OF p prefix_order.trans [OF q(1) assms(3)]]
      by (auto simp: reported_def)
  qed
  then show ?thesis
    using p q assms(1,4) prefix_order.trans [OF p prefix_order.trans [OF q(1) assms(3)]] by (auto simp: keeps_place_def)
qed

lemma stop_playback_place [place_intros]: "keeps_place c (snd (stop_playback env reason c))"
proof -
  obtain e c1 where b: "stop_backend env c = (e, c1)" by fastforce
  obtain e2 c2 where s: "save_progress env reason c1 = (e2, c2)" by fastforce
  have k1: "keeps_place c c1" using stop_backend_place [of c env] b by simp
  have k2: "keeps_place c c2" using keeps_place_trans [OF k1] save_progress_place [of c1 env reason] s by simp
  show ?thesis
    using k1 k2 keeps_place_ended [OF k1, of env reason c2 "forget_session c2"] b s
    by (cases e; cases e2) (auto simp: stop_playback_def and_then_def forget_session_def)
qed

lemma start_place:
  assumes "co_playing c = None"
  shows "keeps_place c (snd (start_playback env n episode item seek c))"
  using assms by (auto simp: keeps_place_def start_playback_def Let_def acted_def split: prod.split sum.split)

lemma play_episode_place:
  assumes "co_playing c = None"
  shows "keeps_place c (snd (play_episode env episode c))"
proof -
  have "keeps_place c (snd (start_playback env n episode item seek (sent b (sent a c))))" for n item seek a b
    using keeps_place_trans [OF keeps_place_trans [OF sent_place sent_place] start_place] assms by (simp add: sent_def)
  moreover have "keeps_place c (sent b (sent a c))" for a b using keeps_place_trans [OF sent_place sent_place] .
  ultimately show ?thesis by (auto simp: play_episode_def Let_def split: option.split sum.split)
qed

lemma stopped_forgets: "stop_playback env reason c = (None, c') \<Longrightarrow> co_playing c' = None \<and> co_session c' = None"
  by (auto simp: stop_playback_def and_then_def forget_session_def split: prod.splits option.splits)

lemma play_selected_place [place_intros]: "keeps_place c (snd (play_selected env c))"
proof -
  have m: "keeps_place c (c\<lparr>co_message := m\<rparr>)" for m by (rule place_kept) simp_all
  have "keeps_place c (snd (and_then (stop_playback env ''switch'' c) (play_episode env episode)))" for episode
  proof (cases "stop_playback env ''switch'' c")
    case (Pair e c1)
    have k: "keeps_place c c1" using stop_playback_place [of c env "''switch''"] Pair by simp
    show ?thesis
      using k stopped_forgets [of env "''switch''" c c1] keeps_place_trans [OF k play_episode_place] Pair
      by (cases e) (auto simp: and_then_def)
  qed
  then show ?thesis using m by (simp add: play_selected_def split: option.split)
qed

lemma adjust_volume_place [place_intros]: "keeps_place c (snd (adjust_volume env delta c))"
  by (rule place_kept) (auto simp: adjust_volume_def Let_def acted_def split: option.split prod.split)

text \<open>A shutdown sends the place unless the backend's stop itself raises.\<close>

lemma shutdown_place:
  assumes "\<not> co_shut_down c" and "shutdown env c = (r, c')"
  shows "prefix (co_calls c) (co_calls c') \<and> co_shut_down c' \<and> (\<forall>i. co_playing c = Some i \<longrightarrow>
    reported c c' i \<or> (\<exists>e c1. stop_backend env c1 = (Some e, c') \<and> co_playing c1 = Some i))"
proof -
  let ?c = "c\<lparr>co_shut_down := True\<rparr>"
  obtain e c1 where b: "stop_backend env ?c = (e, c1)" by fastforce
  have c1: "co_calls c1 = co_calls c" "co_playing c1 = co_playing c" "co_shut_down c1"
      "estimated_position now c1 = estimated_position now c" for now
    using b by (auto simp: stop_backend_def acted_def estimated_position_def split: option.splits prod.splits)
  show ?thesis
  proof (cases e)
    case (Some x)
    then have "c' = c1" using assms b by (simp add: shutdown_def stop_playback_def and_then_def)
    then show ?thesis using b Some c1 by fastforce
  next
    case None
    then show ?thesis
      using assms b c1
      by (auto simp: shutdown_def stop_playback_def and_then_def save_progress_def Let_def sent_def forget_session_def
          reported_def split: option.splits sum.splits prod.splits)
  qed
qed

lemma look_place: "look_at_session env s c = (running, c1) \<Longrightarrow> keeps_place c c1"
  by (rule place_kept) (auto simp: look_at_session_def split: prod.splits)

lemma periodic_place [place_intros]: "keeps_place c (snd (send_periodic_progress env c))"
proof (cases "co_playing c = None \<or> co_session c = None")
  case False
  then obtain i s where playing: "co_playing c = Some i" "co_session c = Some s" by auto
  obtain running c1 where l: "look_at_session env s c = (running, c1)" by fastforce
  note k = look_place [OF l]
  have "keeps_place c (snd (save_progress env ''timeupdate'' (c1\<lparr>co_last_progress := t\<rparr>)))" for t
    by (rule keeps_place_trans [OF k], rule update_place [OF _ _ _ _ _ save_progress_place]) simp_all
  then show ?thesis using k by (simp add: send_periodic_progress_def playing l split: bool.split)
qed (auto simp: send_periodic_progress_def split: option.split)

lemma reap_place [place_intros]: "keeps_place c (snd (reap_player env c))"
proof (cases "co_session c")
  case (Some s)
  obtain running c1 where l: "look_at_session env s c = (running, c1)" by fastforce
  note k = look_place [OF l]
  obtain e c2 where p: "save_progress env ''stopped'' c1 = (e, c2)" by fastforce
  have k2: "keeps_place c c2" using keeps_place_trans [OF k] save_progress_place [of c1 env "''stopped''"] p by simp
  obtain e3 c3 where b: "stop_backend env c2 = (e3, c3)" by fastforce
  have k23: "keeps_place c2 c3" using stop_backend_place [of c2 env] b by simp
  obtain e4 c4 where r: "refresh env (forget_session c3) = (e4, c4)" by fastforce
  have "prefix (co_calls c3) (co_calls c4) \<and> co_shut_down c4 = co_shut_down c3"
    using refresh_place [of "forget_session c3" env] r by (simp add: keeps_place_def forget_session_def)
  then have "prefix (co_calls c2) (co_calls c4) \<and> co_shut_down c4 = co_shut_down c2"
    using k23 prefix_order.trans by (auto simp: keeps_place_def)
  then have ended: "keeps_place c d" if "e = None" "co_calls d = co_calls c4" "co_shut_down d = co_shut_down c4" for d
    using keeps_place_ended [OF k, of env "''stopped''" c2 d] p that by simp
  show ?thesis
    using k k2 keeps_place_trans [OF k2 k23] ended
    by (cases running; cases e; cases e3; cases e4) (auto simp: reap_player_def Some l and_then_def p b r)
qed (simp add: reap_player_def)

lemma loop_turn_place [place_intros]: "keeps_place c (snd (loop_turn env height width c))"
proof -
  have "keeps_place c (scroll height c)" for c by (rule place_kept) (simp_all add: scroll_def Let_def)
  then show ?thesis unfolding loop_turn_def by (intro and_then_place) (auto intro: place_intros)
qed

lemma select_row_place: "keeps_place c (snd (select_row n c))"
  by (rule place_kept) (simp_all add: select_row_def)

lemma set_filter_place: "keeps_place c (snd (set_filter env mode c))"
  unfolding set_filter_def by (rule update_place [OF _ _ _ _ _ refresh_place]) simp_all

lemma if_place:
  "keeps_place c (snd x) \<Longrightarrow> keeps_place c (snd y) \<Longrightarrow> keeps_place c (snd (if b then x else y))"
  by simp

lemma handle_key_place [place_intros]: "keeps_place c (snd (handle_key env key c))"
  unfolding handle_key_def Let_def
  by (intro if_place select_row_place play_selected_place stop_playback_place adjust_volume_place refresh_place search_place
      add_download_place mark_place favorite_place set_filter_place) simp

lemma shutdown_after:
  assumes "keeps_place c c1" and "\<not> co_shut_down c" and "co_playing c = Some i" and "shutdown env c1 = (r, c')"
  shows "reported c c' i \<or> (\<exists>e c2. stop_backend env c2 = (Some e, c') \<and> co_playing c2 = Some i)"
proof -
  have c1: "\<not> co_shut_down c1" using assms(1,2) by (simp add: keeps_place_def)
  show ?thesis
  proof (cases "reported c c1 i")
  case True
  then show ?thesis
    using assms(1) shutdown_place [OF c1 assms(4)] prefix_drop_mono [of "co_calls c" "co_calls c1" "co_calls c'"]
    by (auto simp: reported_def keeps_place_def)
next
  case False
  then have g: "goes_on c c1 i" using assms(1,3) by (auto simp: keeps_place_def)
  then have "estimated_position now c1 = estimated_position now c" for now
    using assms(3) by (simp add: goes_on_def estimated_position_def)
  then show ?thesis
    using g shutdown_place [OF c1 assms(4)] prefix_drop_shift [of "co_calls c" "co_calls c1" "co_calls c'"] assms(1)
    by (auto simp: reported_def keeps_place_def goes_on_def)
  qed
qed

text \<open>A place is only lost with the backend: in every step of a run, the end by a quit key or by an
  exception included, the episode that is playing goes on in a run that goes on, or its position,
  its start plus the time since, is among the requests the step sends to the API, or the step ends
  the run in the very state in which the backend's stop raised. Requests are never taken back.\<close>

theorem place_never_lost:
  assumes "console_step c c'"
  shows "prefix (co_calls c) (co_calls c') \<and>
    (\<forall>i. co_playing c = Some i \<longrightarrow>
      (co_playing c' = Some i \<and> co_start_position c' = co_start_position c \<and> co_started_at c' = co_started_at c
        \<and> \<not> co_shut_down c') \<or>
      (\<exists>now reason. ProgressCall i (pf_add (co_start_position c) (Fin (max (now - co_started_at c) 0))) reason
         \<in> set (drop (length (co_calls c)) (co_calls c'))) \<or>
      co_shut_down c' \<and> (\<exists>env e c1. stop_backend env c1 = (Some e, c') \<and> co_playing c1 = Some i))"
proof -
  have over: "prefix (co_calls c) (co_calls c') \<and> co_shut_down c' \<and> (\<forall>i. co_playing c = Some i \<longrightarrow>
      reported c c' i \<or> (\<exists>env e c2. stop_backend env c2 = (Some e, c') \<and> co_playing c2 = Some i))"
    if k: "keeps_place c c1" and n: "\<not> co_shut_down c" and r: "shutdown env c1 = (r, c')" for c1 env r
  proof -
    have "\<not> co_shut_down c1" using k n by (simp add: keeps_place_def)
    from shutdown_place [OF this r] show ?thesis
      using shutdown_after [OF k n _ r] k prefix_order.trans [of "co_calls c" "co_calls c1" "co_calls c'"]
      by (fastforce simp: keeps_place_def)
  qed
  have "(prefix (co_calls c) (co_calls c') \<and> (\<forall>i. co_playing c = Some i \<longrightarrow> goes_on c c' i \<and> \<not> co_shut_down c' \<or> reported c c' i))
    \<or> (prefix (co_calls c) (co_calls c') \<and> co_shut_down c' \<and> (\<forall>i. co_playing c = Some i \<longrightarrow>
      reported c c' i \<or> (\<exists>env e c2. stop_backend env c2 = (Some e, c') \<and> co_playing c2 = Some i)))"
    using assms
  proof (cases rule: console_step.cases)
    case (turn env height width)
    then show ?thesis using loop_turn_place [of c env height width] by (simp add: keeps_place_def)
  next
    case (key k env)
    then show ?thesis using handle_key_place [of c env k] by (simp add: keeps_place_def)
  next
    case (quit k env r)
    then show ?thesis using over [OF keeps_place_refl] by blast
  next
    case (failed_turn env height width e c1 env2 r)
    then show ?thesis using over [of c1] loop_turn_place [of c env height width] by simp
  next
    case (failed_key k env e c1 env2 r)
    then show ?thesis using over [of c1] handle_key_place [of c env k] by simp
  qed
  then show ?thesis by (auto simp: goes_on_def reported_def estimated_position_def)
qed

section \<open>The end of a run\<close>

text \<open>Leaving stops the playback once: a shutdown that returns has stopped the session through the
  backend, so the backend no longer counts it as running, the console holds no session and no
  playing episode, and a second shutdown, as the main program makes it, does nothing.\<close>

theorem shutdown_stops_once:
  assumes "\<not> co_shut_down c" and "shutdown env c = (None, c')"
  shows "co_session c' = None \<and> co_playing c' = None \<and> shutdown env2 c' = (None, c')
    \<and> (\<forall>s. co_session c = Some s \<longrightarrow>
        fst (backend_stop (ce_player env) (co_backend c) s) = None
        \<and> \<not> fst (backend_is_running (ce_player env) (co_backend c) (fst (snd (backend_stop (ce_player env) (co_backend c) s)))))"
proof -
  let ?c = "c\<lparr>co_shut_down := True\<rparr>"
  have run: "stop_playback env ''quit'' ?c = (None, c')" using assms by (simp add: shutdown_def)
  have "co_shut_down c'"
    using run by (auto simp: stop_playback_def and_then_def stop_backend_def save_progress_def forget_session_def Let_def sent_def
        acted_def split: prod.splits option.splits sum.splits)
  moreover have "fst (backend_stop (ce_player env) (co_backend c) s) = None" if "co_session c = Some s" for s
    using run that by (auto simp: stop_playback_def and_then_def stop_backend_def split: prod.splits option.splits)
  ultimately show ?thesis
    using stopped_forgets [OF run] either.stopped_not_running [of "ce_player env" "co_backend c"] by (auto simp: shutdown_def)
qed

section \<open>A sample run\<close>

definition sample_client :: sdk_client where
  "sample_client =
     \<lparr>cl_transport = (\<lambda>rq. Inr \<lparr>rs_status = 200, rs_content = rqs_target rq, rs_headers = [], rs_cookies = [],
        rs_streaming = False, rs_chunks = None\<rparr>),
      cl_loads = (\<lambda>t. Inr (PDict (if t = ''/frontend/library''
        then [(''downloads'', PList [PDict [(''id'', PInt 4), (''title'', PStr ''Talk'')]])] else [])))\<rparr>"

definition sample_console_env :: console_env where
  "sample_console_env = \<lparr>ce_client = sample_client, ce_player = plain_player, ce_now = 30, ce_prompt = ''talk'',
     ce_media = (\<lambda>_. DownloadRefused ''gone''), ce_guess = (\<lambda>_. None)\<rparr>"

definition sample_playing :: console where
  "sample_playing =
     \<lparr>co_credentials = ann_credentials, co_download_dir = path_of ''/dl'', co_backend = LocalProcess (Some ''ffplay''),
      co_volume = Fin 1, co_filter = ''unplayed'', co_episodes = [[(''id'', PInt 4)]], co_jobs = [], co_selected = 0,
      co_offset = 0, co_message = [], co_playing = Some 4, co_started_at = 10, co_start_position = Fin 7,
      co_session = Some (new_session (Some 5) [] (Fin 1) None), co_last_progress = 0, co_shut_down = False, co_files = [],
      co_calls = [], co_actions = []\<rparr>"

lemma sample_shutdown: "fst (shutdown sample_console_env sample_playing) = None"
  by code_simp

theorem place_never_lost_witness:
  "console_step sample_playing (snd (shutdown sample_console_env sample_playing))
   \<and> (\<exists>pos reason. ProgressCall 4 pos reason \<in> set (co_calls (snd (shutdown sample_console_env sample_playing))))"
proof -
  let ?c = "snd (shutdown sample_console_env sample_playing)"
  have s: "shutdown sample_console_env sample_playing = (None, ?c)" using sample_shutdown by (simp add: prod_eq_iff)
  have step: "console_step sample_playing ?c"
    using console_step.quit [OF _ _ s, of 27] by (simp add: sample_playing_def quit_key_def)
  have "co_playing ?c = None"
    using stopped_forgets [of sample_console_env "''quit''" "sample_playing\<lparr>co_shut_down := True\<rparr>" ?c] s
    by (simp add: shutdown_def sample_playing_def)
  then have "\<not> (\<exists>env e c1. stop_backend env c1 = (Some e, ?c) \<and> co_playing c1 = Some 4)"
    using stop_backend_playing by force
  then show ?thesis using place_never_lost [OF step] step \<open>co_playing ?c = None\<close> by (auto simp: sample_playing_def)
qed

theorem shutdown_stops_once_witness:
  "co_session (snd (shutdown sample_console_env sample_playing)) = None
   \<and> shutdown sample_console_env (snd (shutdown sample_console_env sample_playing))
      = (None, snd (shutdown sample_console_env sample_playing))"
proof -
  let ?c = "snd (shutdown sample_console_env sample_playing)"
  have s: "shutdown sample_console_env sample_playing = (None, ?c)" using sample_shutdown by (simp add: prod_eq_iff)
  have "\<not> co_shut_down sample_playing" by (simp add: sample_playing_def)
  from shutdown_stops_once [OF this s, of sample_console_env] show ?thesis by blast
qed

theorem console_invariant_witness:
  "\<exists>c e row. console_reachable c \<and> current_episode c = Some e
     \<and> (row, take 79 (ljust 79 (episode_line 80 e))) \<in> set (drawn_rows 24 80 c)"
proof -
  let ?new = "new_console plain_player ann_credentials (path_of ''/dl'') None (Some ''local'') None None None None []"
  have "(case ?new of Inr c \<Rightarrow> fst (refresh sample_console_env c) = None
      \<and> co_episodes (snd (refresh sample_console_env c)) \<noteq> [] | Inl _ \<Rightarrow> False)" by code_simp
  then obtain c0 where n: "?new = Inr c0" and r: "fst (refresh sample_console_env c0) = None"
      and e: "co_episodes (snd (refresh sample_console_env c0)) \<noteq> []"
    by (cases ?new) auto
  let ?c = "snd (refresh sample_console_env c0)"
  have "refresh sample_console_env c0 = (None, ?c)" using r by (simp add: prod_eq_iff)
  then have reach: "console_reachable ?c" using n by (rule console_reachable.opened [rotated])
  show ?thesis using console_invariant [OF reach, of 24 80] reach e by auto
qed

section \<open>Observations\<close>

text \<open>
  A bridge that answers the stop with a text that is no JSON makes the stop raise, so a quit sends no
  position, although the code says that progress is saved whatever the bridge's stop does.
\<close>

lemma unreadable_answer_loses_place:
  assumes "co_session c = Some s" and "ps_active s" and "co_backend c = AudioBridge urls" and "bu_stop urls \<noteq> []"
    and "pe_bridge (ce_player env) (bu_stop urls) [(''session_id'', PStr (ps_session_id s))] = BridgeContent content"
    and "content \<noteq> []" and "pe_loads (ce_player env) content = Inl e" and "\<not> is_playback_error e" and "\<not> co_shut_down c"
  shows "fst (shutdown env c) = Some e \<and> co_calls (snd (shutdown env c)) = co_calls c"
  using assms
  by (simp add: shutdown_def stop_playback_def stop_backend_def and_then_def bridge_stop_def bridge_post_json_def Let_def
      bind_result_def acted_def)

text \<open>
  After a search the filter is \<open>search\<close>, and every later refresh asks the API for it; the API does not
  know it and answers with its default.
\<close>

lemma search_filter_asked:
  "search_library env c = (None, c') \<Longrightarrow> ce_prompt env \<noteq> [] \<Longrightarrow>
     co_filter c' = ''search'' \<and> LibraryCall ''search'' \<in> set (co_calls (snd (refresh env2 c')))"
  by (auto simp: search_library_def Let_def sent_def refresh_def split: sum.splits)

lemma search_filter_unknown: "normalize_library_filter (PStr ''search'') = ''unplayed''"
  by code_simp

text \<open>A volume the bridge refuses is taken back by the console but stays in the session.\<close>

lemma refused_volume_diverges:
  assumes "co_session c = Some s"
    and "backend_set_volume (ce_player env) (co_backend c) s (clamp_volume (pf_add (co_volume c) (Fin delta)))
      = (Some (PlaybackError m), s', acts)"
  shows "\<exists>c'. adjust_volume env delta c = (None, c') \<and> co_volume c' = co_volume c
    \<and> (\<exists>s''. co_session c' = Some s'' \<and> ps_volume s'' = clamp_volume (pf_add (co_volume c) (Fin delta)))"
  using assms either.volume_noted [of "ce_player env" "co_backend c" s "clamp_volume (pf_add (co_volume c) (Fin delta))"]
  by (simp add: adjust_volume_def Let_def acted_def)

end
