(* ===== verification/ConsoleRun.thy ===== *)
theory ConsoleRun
  imports Console
begin

text \<open>
  The console program from its start to its end (\<open>src/src/cli/app.py\<close>, \<open>main\<close> and \<open>run\<close>): the
  credentials of a login or of the file, the console built from them and the command line, the main
  loop over turns and keys, and the shutdown on every path out of it. The options arrive parsed;
  where curses raises is an argument.
\<close>

section \<open>The main loop\<close>

text \<open>
  What one round of the loop sees: its environment, the size of the screen, the key that \<open>getch\<close>
  returns, where -1 is none, and the environment in which the key is handled.
\<close>

type_synonym round = "console_env \<times> int \<times> int \<times> int \<times> console_env"

text \<open>How a round ends: the loop goes on, it returns, or an exception leaves it.\<close>

datatype round_end = GoesOn console | Returns console | Raises error console

definition console_round :: "round \<Rightarrow> console \<Rightarrow> round_end" where
  "console_round = (\<lambda>(env, height, width, key, key_env) c.
     (case loop_turn env height width c of
        (Some e, c1) \<Rightarrow> Raises e c1
      | (None, c1) \<Rightarrow>
          if key = -1 then GoesOn c1
          else if quit_key key then Returns c1
          else (case handle_key key_env key c1 of
                  (Some e, c2) \<Rightarrow> Raises e c2
                | (None, c2) \<Rightarrow> GoesOn c2)))"

text \<open>\<open>None\<close> is a loop that is still running when the rounds are over.\<close>

fun console_loop :: "round list \<Rightarrow> console \<Rightarrow> outcome option" where
  "console_loop [] c = None"
| "console_loop (r # rs) c =
     (case console_round r c of
        GoesOn c1 \<Rightarrow> console_loop rs c1
      | Returns c1 \<Rightarrow> Some (None, c1)
      | Raises e c1 \<Rightarrow> Some (Some e, c1))"

text \<open>The states at the beginning of the rounds that begin.\<close>

fun loop_states :: "round list \<Rightarrow> console \<Rightarrow> console list" where
  "loop_states [] c = [c]"
| "loop_states (r # rs) c = c # (case console_round r c of GoesOn c1 \<Rightarrow> loop_states rs c1 | _ \<Rightarrow> [])"

text \<open>\<open>finally: self.shutdown()\<close>: an exception of the shutdown replaces the one that is on its way.\<close>

definition with_shutdown :: "console_env \<Rightarrow> outcome \<Rightarrow> outcome" where
  "with_shutdown env r =
     (case shutdown env (snd r) of
        (Some e, c) \<Rightarrow> (Some e, c)
      | (None, c) \<Rightarrow> (fst r, c))"

definition console_run ::
    "error option \<Rightarrow> console_env \<Rightarrow> round list \<Rightarrow> console_env \<Rightarrow> console \<Rightarrow> outcome option" where
  "console_run cursor_fault env rs end_env c =
     map_option (with_shutdown end_env)
       (case cursor_fault of
          Some e \<Rightarrow> Some (Some e, c)
        | None \<Rightarrow>
            (case refresh env c of
               (Some e, c1) \<Rightarrow> Some (Some e, c1)
             | (None, c1) \<Rightarrow> console_loop rs c1))"

section \<open>The program\<close>

record console_arguments =
  ca_login :: bool
  ca_base_url :: "string option"
  ca_username :: "string option"
  ca_player :: "string option"
  ca_backend :: "string option"
  ca_bridge_url :: "string option"
  ca_stop_url :: "string option"
  ca_volume_url :: "string option"
  ca_download_dir :: path
  ca_volume :: "pyfloat option"

text \<open>What the prompts of a login answer, and the client its credentials give.\<close>

record login_env =
  le_client :: "credentials \<Rightarrow> sdk_client"
  le_show_float :: "pyfloat \<Rightarrow> string"
  le_base :: string
  le_username :: string
  le_password :: string

definition asked_login :: "login_env \<Rightarrow> console_arguments \<Rightarrow> error + (credentials \<times> pydict)" where
  "asked_login env a =
     console_login (le_client env) (le_show_float env) (ca_base_url a) (ca_username a) (le_base env) (le_username env)
       (le_password env)"

text \<open>The credentials, and the content of their file afterwards.\<close>

definition console_credentials ::
    "login_env \<Rightarrow> console_arguments \<Rightarrow> (error + pydict) option \<Rightarrow> error + credentials \<times> (error + pydict) option" where
  "console_credentials env a file =
     (let fresh = map_sum id (\<lambda>(c, d). (c, Some (Inr d))) (asked_login env a) in
      if ca_login a then fresh
      else bind_result (load_credentials file) (\<lambda>found. case found of None \<Rightarrow> fresh | Some c \<Rightarrow> Inr (c, file)))"

record program_end =
  pr_error :: "error option"
  pr_file :: "(error + pydict) option"
  pr_console :: "console option"

text \<open>
  \<open>wrapper_fault\<close> is an exception with which \<open>curses.wrapper\<close> does not come to call \<open>run\<close>. The program is
  left through the shutdown again, which is then the second one.
\<close>

definition console_main ::
    "login_env \<Rightarrow> player_env \<Rightarrow> console_arguments \<Rightarrow> (error + pydict) option \<Rightarrow> local_files \<Rightarrow> error option \<Rightarrow>
     error option \<Rightarrow> console_env \<Rightarrow> round list \<Rightarrow> console_env \<Rightarrow> program_end option" where
  "console_main lenv penv a file fs wrapper_fault cursor_fault env rs end_env =
     (case console_credentials lenv a file of
        Inl e \<Rightarrow> Some \<lparr>pr_error = Some e, pr_file = file, pr_console = None\<rparr>
      | Inr (credentials, file1) \<Rightarrow>
          (case new_console penv credentials (ca_download_dir a) (ca_player a) (ca_backend a) (ca_bridge_url a)
                  (ca_stop_url a) (ca_volume_url a) (ca_volume a) fs of
             Inl e \<Rightarrow> Some \<lparr>pr_error = Some e, pr_file = file1, pr_console = None\<rparr>
           | Inr c \<Rightarrow>
               map_option (\<lambda>r. let (err, c') = with_shutdown end_env r in
                     \<lparr>pr_error = err, pr_file = file1, pr_console = Some c'\<rparr>)
                 (case wrapper_fault of
                    Some e \<Rightarrow> Some (Some e, c)
                  | None \<Rightarrow> console_run cursor_fault env rs end_env c)))"

section \<open>The loop takes the steps of the console\<close>

fun left_console :: "round_end \<Rightarrow> console" where
  "left_console (GoesOn c) = c"
| "left_console (Returns c) = c"
| "left_console (Raises e c) = c"

lemma round_place: "keeps_place c (left_console (console_round r c))"
proof -
  obtain env height width key key_env where r: "r = (env, height, width, key, key_env)" by (metis prod_cases5)
  obtain e c1 where t: "loop_turn env height width c = (e, c1)" by force
  obtain e2 c2 where h: "handle_key key_env key c1 = (e2, c2)" by force
  have k1: "keeps_place c c1" using loop_turn_place [of c env height width] t by simp
  have k2: "keeps_place c c2" using keeps_place_trans [OF k1] handle_key_place [of c1 key_env key] h by simp
  show ?thesis using k1 k2 t h by (auto simp: console_round_def r split: option.splits)
qed

lemma loop_place:
  "console_loop rs c0 = Some (err, c1) \<Longrightarrow> keeps_place c0 c1 \<and> (\<forall>c \<in> set (loop_states rs c0). keeps_place c c1)"
proof (induction rs arbitrary: c0)
  case (Cons r rs)
  show ?case
  proof (cases "console_round r c0")
    case (GoesOn c)
    then have "keeps_place c0 c" using round_place [of c0 r] by simp
    moreover have "keeps_place c c1 \<and> (\<forall>c' \<in> set (loop_states rs c). keeps_place c' c1)" using Cons GoesOn by simp
    ultimately show ?thesis using GoesOn keeps_place_trans by auto
  qed (use Cons.prems round_place [of c0 r] in simp_all)
qed simp

text \<open>A round that goes on takes a turn and, when a key was pressed, the step of the key.\<close>

lemma round_steps:
  assumes "console_round r c = GoesOn c'" and "\<not> co_shut_down c"
  shows "console_step\<^sup>*\<^sup>* c c' \<and> \<not> co_shut_down c'"
proof -
  obtain env height width key key_env where r: "r = (env, height, width, key, key_env)" by (metis prod_cases5)
  obtain c1 where t: "loop_turn env height width c = (None, c1)"
    using assms(1) by (auto simp: console_round_def r split: prod.splits option.splits)
  have up: "\<not> co_shut_down c1" using loop_turn_place [of c env height width] t assms(2) by (simp add: keeps_place_def)
  have s: "console_step c c1" using console_step.turn [OF assms(2) t] .
  show ?thesis
  proof (cases "key = -1")
    case True
    then show ?thesis using assms(1) t s up by (auto simp: console_round_def r)
  next
    case False
    then have h: "\<not> quit_key key" "handle_key key_env key c1 = (None, c')"
      using assms(1) t by (auto simp: console_round_def r split: if_splits prod.splits option.splits)
    have "\<not> co_shut_down c'" using handle_key_place [of c1 key_env key] h(2) up by (simp add: keeps_place_def)
    then show ?thesis using console_step.key [OF up h] s by (meson converse_rtranclp_into_rtranclp r_into_rtranclp)
  qed
qed

lemma steps_reachable: "console_step\<^sup>*\<^sup>* c c' \<Longrightarrow> console_reachable c \<Longrightarrow> console_reachable c'"
  by (induction rule: rtranclp_induct) (auto intro: console_reachable.further)

lemma states_reachable:
  "c \<in> set (loop_states rs c0) \<Longrightarrow> console_reachable c0 \<Longrightarrow> \<not> co_shut_down c0 \<Longrightarrow> console_reachable c \<and> \<not> co_shut_down c"
proof (induction rs arbitrary: c0)
  case (Cons r rs)
  show ?case
  proof (cases "c = c0")
    case False
    then obtain c1 where g: "console_round r c0 = GoesOn c1" "c \<in> set (loop_states rs c1)"
      using Cons.prems(1) by (cases "console_round r c0") auto
    note n = round_steps [OF g(1) Cons.prems(3)]
    show ?thesis using Cons.IH [OF g(2)] n steps_reachable [OF _ Cons.prems(2)] by blast
  qed (use Cons.prems in simp)
qed simp

section \<open>The end of the program\<close>

lemma with_shutdown_down:
  assumes "\<not> co_shut_down (snd r)"
  shows "co_shut_down (snd (with_shutdown env r)) \<and> with_shutdown env2 (with_shutdown env r) = with_shutdown env r
    \<and> (fst (with_shutdown env r) = None \<longrightarrow> co_playing (snd (with_shutdown env r)) = None \<and> co_session (snd (with_shutdown env r)) = None)"
proof -
  obtain e c' where s: "shutdown env (snd r) = (e, c')" by force
  have d: "co_shut_down c'" using shutdown_place [OF assms s] by blast
  have w: "snd (with_shutdown env r) = c'" "fst (with_shutdown env r) = None \<longrightarrow> e = None"
    using s by (auto simp: with_shutdown_def split: option.splits)
  have "e = None \<longrightarrow> co_playing c' = None \<and> co_session c' = None"
    using s assms stopped_forgets [of env "''quit''" "snd r\<lparr>co_shut_down := True\<rparr>" c'] by (auto simp: shutdown_def)
  moreover have "shutdown env2 c' = (None, c')" using d by (simp add: shutdown_def)
  moreover have "with_shutdown env2 (with_shutdown env r) = with_shutdown env r"
    using calculation(2) w(1) by (cases "with_shutdown env r") (simp add: with_shutdown_def [of env2])
  ultimately show ?thesis using d w by simp
qed

lemma with_shutdown_place:
  assumes "keeps_place c (snd r)" and "\<not> co_shut_down c" and "co_playing c = Some i"
  shows "reported c (snd (with_shutdown env r)) i
    \<or> (\<exists>e c2. stop_backend env c2 = (Some e, snd (with_shutdown env r)) \<and> co_playing c2 = Some i)"
proof -
  obtain e c' where s: "shutdown env (snd r) = (e, c')" by force
  then have "snd (with_shutdown env r) = c'" by (auto simp: with_shutdown_def split: option.splits)
  then show ?thesis using shutdown_after [OF assms s] by auto
qed

lemma new_console_up: "new_console penv cr dir player b play stop vol volume fs = Inr c \<Longrightarrow> \<not> co_shut_down c"
  by (auto simp: new_console_def Let_def bind_result_Inr)

lemma refresh_up: "co_shut_down (snd (refresh env c)) = co_shut_down c"
  using refresh_place [of c env] by (simp add: keeps_place_def)

text \<open>The outcome that reaches the first shutdown.\<close>

definition before_shutdown :: "error option \<Rightarrow> error option \<Rightarrow> console_env \<Rightarrow> round list \<Rightarrow> console \<Rightarrow> outcome option" where
  "before_shutdown wrapper_fault cursor_fault env rs c =
     (case (wrapper_fault, cursor_fault) of
        (None, None) \<Rightarrow> (case refresh env c of (Some e, c1) \<Rightarrow> Some (Some e, c1) | (None, c1) \<Rightarrow> console_loop rs c1)
      | (None, Some e) \<Rightarrow> Some (Some e, c)
      | (Some e, _) \<Rightarrow> Some (Some e, c))"

lemma before_shutdown_up:
  assumes "before_shutdown wrapf curf env rs c = Some r" and "\<not> co_shut_down c"
  shows "\<not> co_shut_down (snd r)"
proof -
  have "\<not> co_shut_down c2" if "console_loop rs c1 = Some (err, c2)" "refresh env c = (None, c1)" for c1 err c2
    using that loop_place [OF that(1)] refresh_up [of env c] assms(2) by (simp add: keeps_place_def)
  moreover have "\<not> co_shut_down (snd (refresh env c))" using assms(2) by (simp add: refresh_up)
  ultimately show ?thesis using assms
    by (cases "refresh env c"; cases r) (auto simp: before_shutdown_def split: option.splits)
qed

lemma main_end:
  assumes "console_main lenv penv a file fs wrapf curf env rs end_env = Some p" and "pr_console p = Some c'"
  obtains cr c0 r where "console_credentials lenv a file = Inr (cr, pr_file p)"
    and "new_console penv cr (ca_download_dir a) (ca_player a) (ca_backend a) (ca_bridge_url a) (ca_stop_url a)
           (ca_volume_url a) (ca_volume a) fs = Inr c0"
    and "before_shutdown wrapf curf env rs c0 = Some r" and "(pr_error p, c') = with_shutdown end_env r"
proof -
  obtain cr file1 where cr: "console_credentials lenv a file = Inr (cr, file1)"
    using assms by (auto simp: console_main_def split: sum.splits)
  obtain c0 where c0: "new_console penv cr (ca_download_dir a) (ca_player a) (ca_backend a) (ca_bridge_url a) (ca_stop_url a)
           (ca_volume_url a) (ca_volume a) fs = Inr c0"
    using assms cr by (auto simp: console_main_def split: sum.splits)
  note up = new_console_up [OF c0]
  obtain r0 where r0: "(case wrapf of Some e \<Rightarrow> Some (Some e, c0) | None \<Rightarrow> console_run curf env rs end_env c0) = Some r0"
      and p: "pr_file p = file1" "(pr_error p, c') = with_shutdown end_env r0"
    using assms cr c0 by (auto simp: console_main_def Let_def case_prod_beta simp del: not_None_eq)
  obtain r where r: "before_shutdown wrapf curf env rs c0 = Some r"
    using r0 by (cases wrapf; cases curf) (auto simp: before_shutdown_def console_run_def split: prod.splits option.splits)
  have "r0 = with_shutdown end_env r \<or> r0 = r"
    using r0 r by (auto simp: before_shutdown_def console_run_def split: prod.splits option.splits)
  then have "with_shutdown end_env r0 = with_shutdown end_env r"
    using with_shutdown_down [OF before_shutdown_up [OF r up]] by auto
  then show thesis using that cr c0 r p by simp
qed

text \<open>C17: A console session ends settled. Whatever ends the program once it has its console, be it a quit key or an
  exception anywhere, the console is shut down; with the exit status 0 nothing is left playing. The
  states in which the rounds of its loop begin are reachable by steps of the console, and of an
  episode playing in one of them a position, its start plus the time since, is reported to
  the API from there on, unless the player refused to stop, and then the program ends with an
  exception.\<close>

theorem console_session_settled:
  assumes "console_main lenv penv a file fs wrapper_fault cursor_fault env rs end_env = Some p" and "pr_console p = Some c'"
  shows "\<exists>cr c0. console_credentials lenv a file = Inr (cr, pr_file p)
    \<and> new_console penv cr (ca_download_dir a) (ca_player a) (ca_backend a) (ca_bridge_url a) (ca_stop_url a)
           (ca_volume_url a) (ca_volume a) fs = Inr c0
    \<and> co_shut_down c' \<and> (pr_error p = None \<longrightarrow> co_playing c' = None \<and> co_session c' = None)
    \<and> (\<forall>c1 c i. wrapper_fault = None \<and> cursor_fault = None \<and> refresh env c0 = (None, c1)
         \<and> c \<in> set (loop_states rs c1) \<longrightarrow> console_reachable c
         \<and> (co_playing c = Some i \<longrightarrow>
             (\<exists>now reason. ProgressCall i (pf_add (co_start_position c) (Fin (max (now - co_started_at c) 0))) reason
                \<in> set (drop (length (co_calls c)) (co_calls c')))
             \<or> pr_error p \<noteq> None \<and> (\<exists>e c2. stop_backend end_env c2 = (Some e, c') \<and> co_playing c2 = Some i)))"
proof -
  from main_end [OF assms] obtain cr c0 r where cr: "console_credentials lenv a file = Inr (cr, pr_file p)"
      and new: "new_console penv cr (ca_download_dir a) (ca_player a) (ca_backend a) (ca_bridge_url a) (ca_stop_url a)
           (ca_volume_url a) (ca_volume a) fs = Inr c0"
      and r: "before_shutdown wrapper_fault cursor_fault env rs c0 = Some r"
      and p: "(pr_error p, c') = with_shutdown end_env r" .
  have p': "fst (with_shutdown end_env r) = pr_error p" "snd (with_shutdown end_env r) = c'" using p [symmetric] by simp_all
  note up = new_console_up [OF new]
  note down = with_shutdown_down [OF before_shutdown_up [OF r up], of end_env end_env, unfolded p']
  have place: "console_reachable c \<and> (co_playing c = Some i \<longrightarrow> (\<exists>now reason. ProgressCall i (pf_add (co_start_position c) (Fin (max (now - co_started_at c) 0))) reason
        \<in> set (drop (length (co_calls c)) (co_calls c')))
      \<or> pr_error p \<noteq> None \<and> (\<exists>e c2. stop_backend end_env c2 = (Some e, c') \<and> co_playing c2 = Some i))"
    if no: "wrapper_fault = None" "cursor_fault = None" "refresh env c0 = (None, c1)" and c: "c \<in> set (loop_states rs c1)" for c1 c i
  proof -
    have l: "console_loop rs c1 = Some (fst r, snd r)" using r no by (simp add: before_shutdown_def)
    have k: "keeps_place c (snd r)" using loop_place [OF l] c by blast
    have "\<not> co_shut_down c1" using refresh_up [of env c0] no(3) up by simp
    then have st: "console_reachable c" "\<not> co_shut_down c"
      using states_reachable [OF c console_reachable.opened [OF new no(3)]] by simp_all
    show ?thesis
    proof (intro conjI impI st(1))
      assume i: "co_playing c = Some i"
      have "reported c c' i \<Longrightarrow> (\<exists>now reason. ProgressCall i (pf_add (co_start_position c) (Fin (max (now - co_started_at c) 0))) reason
        \<in> set (drop (length (co_calls c)) (co_calls c')))"
        using i by (simp add: reported_def estimated_position_def)
      with with_shutdown_place [OF k st(2) i, of end_env, unfolded p']
      show "(\<exists>now reason. ProgressCall i (pf_add (co_start_position c) (Fin (max (now - co_started_at c) 0))) reason
        \<in> set (drop (length (co_calls c)) (co_calls c'))) \<or> pr_error p \<noteq> None \<and> (\<exists>e c2. stop_backend end_env c2 = (Some e, c') \<and> co_playing c2 = Some i)"
        using stop_backend_playing [of end_env] down by fastforce
    qed
  qed
  show ?thesis
    by (intro exI [of _ cr] exI [of _ c0] conjI allI impI cr new down [THEN conjunct1]
        down [THEN conjunct2, THEN conjunct2, THEN mp, THEN conjunct1] down [THEN conjunct2, THEN conjunct2, THEN mp, THEN conjunct2])
      (use place in blast)+
qed

text \<open>A file that is there is kept unless a login was asked for, and a login that fails writes nothing.\<close>

lemma credentials_kept:
  assumes "console_main lenv penv a file fs wrapper_fault cursor_fault env rs end_env = Some p"
  shows "(\<not> ca_login a \<and> file \<noteq> None \<longrightarrow> pr_file p = file) \<and> (asked_login lenv a = Inl e \<longrightarrow> pr_file p = file)"
proof (cases "console_credentials lenv a file")
  case (Inr r)
  obtain cr f where r: "r = (cr, f)" by (cases r)
  have "map_sum id Some (read_credentials d) \<noteq> Inr None" for d by (cases "read_credentials d") simp_all
  note some = this
  have "(\<not> ca_login a \<and> file \<noteq> None \<longrightarrow> f = file) \<and> (asked_login lenv a = Inl e \<longrightarrow> f = file)"
    using Inr r some by (cases "ca_login a")
      (auto simp: console_credentials_def load_credentials_def bind_result_def split: option.splits sum.splits)
  moreover have "pr_file p = f"
  proof (cases "new_console penv cr (ca_download_dir a) (ca_player a) (ca_backend a) (ca_bridge_url a) (ca_stop_url a)
           (ca_volume_url a) (ca_volume a) fs")
    case (Inr c0)
    then show ?thesis
      using assms \<open>console_credentials lenv a file = Inr r\<close> r
      by (auto simp: console_main_def Let_def case_prod_beta)
  qed (use assms Inr r in \<open>auto simp: console_main_def\<close>)
  ultimately show ?thesis by simp
qed (use assms in \<open>auto simp: console_main_def\<close>)

section \<open>A sample session\<close>

definition sample_arguments :: console_arguments where
  "sample_arguments =
     \<lparr>ca_login = False, ca_base_url = None, ca_username = None, ca_player = None, ca_backend = Some ''local'',
      ca_bridge_url = None, ca_stop_url = None, ca_volume_url = None, ca_download_dir = path_of ''/dl'', ca_volume = None\<rparr>"

definition sample_login :: login_env where
  "sample_login = \<lparr>le_client = (\<lambda>_. sample_client), le_show_float = (\<lambda>_. ''1.0''), le_base = [], le_username = [], le_password = []\<rparr>"

definition sample_file :: "(error + pydict) option" where
  "sample_file = Some (Inr [(''base_url'', PStr ''http://h''), (''username'', PStr ''ann''), (''password'', PStr ''x'')])"

text \<open>A session that plays the episode of the list, waits a round, and quits.\<close>

definition playing_env :: console_env where
  "playing_env = sample_console_env\<lparr>ce_media := (\<lambda>_. DownloadComplete ''ID3 talk'' ''audio/mpeg'')\<rparr>"

definition sample_rounds :: "round list" where
  "sample_rounds = map (\<lambda>k. (playing_env, 24, 80, k, playing_env)) [key_code CHR ''p'', -1, key_code CHR ''q'']"

theorem console_session_settled_witness:
  "\<exists>p c' pos reason. console_main sample_login plain_player sample_arguments sample_file [] None None playing_env sample_rounds
       playing_env = Some p \<and> pr_console p = Some c' \<and> pr_error p = None
     \<and> co_shut_down c' \<and> co_playing c' = None \<and> ProgressCall 4 pos reason \<in> set (co_calls c')"
proof -
  let ?main = "console_main sample_login plain_player sample_arguments sample_file [] None None playing_env sample_rounds playing_env"
  let ?states = "\<lambda>c0. loop_states sample_rounds (snd (refresh playing_env c0))"
  let ?a = sample_arguments
  have "(case ?main of None \<Rightarrow> False | Some p \<Rightarrow> pr_error p = None \<and> pr_console p \<noteq> None)" by code_simp
  then obtain p c' where p: "?main = Some p" "pr_error p = None" "pr_console p = Some c'"
    by (cases ?main) auto
  from console_session_settled [OF p(1,3)] obtain cr c0 where
      cr: "console_credentials sample_login ?a sample_file = Inr (cr, pr_file p)"
      and c0: "new_console plain_player cr (ca_download_dir ?a) (ca_player ?a) (ca_backend ?a) (ca_bridge_url ?a)
           (ca_stop_url ?a) (ca_volume_url ?a) (ca_volume ?a) [] = Inr c0"
      and down: "co_shut_down c'" "co_playing c' = None"
      and place: "\<And>c1 c. refresh playing_env c0 = (None, c1) \<Longrightarrow> c \<in> set (loop_states sample_rounds c1) \<Longrightarrow> co_playing c = Some 4 \<Longrightarrow>
           \<exists>pos reason. ProgressCall 4 pos reason \<in> set (drop (length (co_calls c)) (co_calls c'))"
    using p(2) by blast
  have "(case console_credentials sample_login ?a sample_file of Inl _ \<Rightarrow> False | Inr (cr, _) \<Rightarrow>
      (case new_console plain_player cr (ca_download_dir ?a) (ca_player ?a) (ca_backend ?a) (ca_bridge_url ?a)
           (ca_stop_url ?a) (ca_volume_url ?a) (ca_volume ?a) [] of Inl _ \<Rightarrow> False
       | Inr c0 \<Rightarrow> fst (refresh playing_env c0) = None \<and> 1 < length (?states c0) \<and> co_playing (?states c0 ! 1) = Some 4))"
    by code_simp
  then have "fst (refresh playing_env c0) = None" and s: "1 < length (?states c0)" "co_playing (?states c0 ! 1) = Some 4"
    using cr c0 by simp_all
  then have "refresh playing_env c0 = (None, snd (refresh playing_env c0))" by (simp add: prod_eq_iff)
  from place [OF this nth_mem [OF s(1)] s(2)] show ?thesis using p down in_set_dropD by metis
qed

end
