(* ===== verification/Syncing.thy ===== *)
theory Syncing
  imports ConsoleFiles
begin

text \<open>
  The host's cron script \<open>src/crons/sync_media_downloads.py\<close>: it copies the MP3 and MP4 files below a
  downloads directory into one flat directory, each through a temporary file that FFprobe has to
  accept. The disk is a list of paths with their entry; a directory has no content. What FFprobe
  answers, the random part of a temporary name, the accounts of the host and the system calls that
  fail are an environment; a call may fail at one disk and not at another. Symbolic links are not
  modelled, and both directories are paths from the same root.
\<close>

section \<open>The disk\<close>

record entry =
  en_content :: "string option"
  en_mtime :: int
  en_uid :: int
  en_gid :: int

type_synonym disk = "(path \<times> entry) list"

datatype sync_call =
    MakeDir path
  | Chown path int int
  | CreateTemp path
  | CopyTo path path
  | ReplaceBy path path
  | Unlink path

record sync_env =
  sn_fails :: "sync_call \<Rightarrow> disk \<Rightarrow> error option"
  sn_probe :: "path \<Rightarrow> string option \<Rightarrow> int \<times> string list"
  sn_probe_found :: bool
  sn_temp :: "disk \<Rightarrow> string"
  sn_partial :: "disk \<Rightarrow> string"
  sn_user_id :: "string \<Rightarrow> int option"
  sn_primary_group :: "int \<Rightarrow> int option"
  sn_group_id :: "string \<Rightarrow> int option"
  sn_me :: "int \<times> int"
  sn_now :: int

definition content_at :: "disk \<Rightarrow> path \<Rightarrow> string option" where
  "content_at d p = Option.bind (map_of d p) en_content"

definition is_dir_at :: "disk \<Rightarrow> path \<Rightarrow> bool" where
  "is_dir_at d p = (case map_of d p of Some e \<Rightarrow> en_content e = None | None \<Rightarrow> False)"

text \<open>\<open>below p q\<close>: \<open>q\<close> lies under the directory \<open>p\<close>; \<open>children\<close> is \<open>iterdir\<close>.\<close>

definition below :: "path \<Rightarrow> path \<Rightarrow> bool" where
  "below p q \<longleftrightarrow> is_absolute q = is_absolute p \<and> strict_prefix (path_parts p) (path_parts q)"

definition children :: "disk \<Rightarrow> path \<Rightarrow> path list" where
  "children d p = filter (\<lambda>q. below p q \<and> length (path_parts q) = Suc (length (path_parts p))) (map fst d)"

section \<open>Names\<close>

definition MEDIA_SUFFIXES :: "string list" where
  "MEDIA_SUFFIXES = [''.mp3'', ''.mp4'']"

definition forbidden_char :: "char \<Rightarrow> bool" where
  "forbidden_char c \<longleftrightarrow> ord c \<in> {47, 92, 58, 42, 63, 34, 60, 62, 124}"

definition sanitize_char :: "char \<Rightarrow> char" where
  "sanitize_char c =
     (let c1 = (if ord c = 10 \<or> ord c = 13 then CHR '' '' else c)
      in if forbidden_char c1 then CHR ''-'' else c1)"

definition sanitize_component :: "string \<Rightarrow> string" where
  "sanitize_component value =
     or_else (strip_chars (\<lambda>c. c \<in> set '' .-'') (join_with '' '' (words_of (map sanitize_char value))))
       ''Unknown Artist''"

definition is_media_file :: "path \<Rightarrow> bool" where
  "is_media_file p \<longleftrightarrow> py_lower (path_suffix p) \<in> set MEDIA_SUFFIXES"

definition sync_destination :: "path \<Rightarrow> path \<Rightarrow> path" where
  "sync_destination sync_dir p =
     (let artist = sanitize_component (path_name (path_parent p));
          filename = sanitize_component (path_name p)
      in path_join sync_dir (path_of (artist @ '' - '' @ filename)))"

section \<open>FFprobe\<close>

definition probe_accepts :: "sync_env \<Rightarrow> path \<Rightarrow> string option \<Rightarrow> bool" where
  "probe_accepts env p c =
     (case sn_probe env p c of (rc, out) \<Rightarrow>
        rc = 0 \<and> list_ex (\<lambda>line. py_strip line = ''audio'' \<or> py_strip line = ''video'') out)"

definition has_media_stream :: "sync_env \<Rightarrow> disk \<Rightarrow> path \<Rightarrow> bool" where
  "has_media_stream env d p = probe_accepts env p (content_at d p)"

section \<open>Owners\<close>

definition numeric_or_lookup :: "(string \<Rightarrow> int option) \<Rightarrow> string \<Rightarrow> error + int" where
  "numeric_or_lookup lookup value =
     (case py_int value of
        Some n \<Rightarrow> Inr n
      | None \<Rightarrow> (case lookup value of Some n \<Rightarrow> Inr n | None \<Rightarrow> Inl (KeyError value)))"

definition resolve_owner :: "sync_env \<Rightarrow> string \<Rightarrow> error + int \<times> int" where
  "resolve_owner env value =
     (let (user_value, separator, group_value) = py_partition CHR '':'' value in
      if user_value = [] \<and> group_value = []
      then Inl (ValueError ''owner must be <user[:group]> or <uid[:gid]>'')
      else bind_result
        (if user_value \<noteq> [] then
           bind_result (numeric_or_lookup (sn_user_id env) user_value) (\<lambda>uid.
             case sn_primary_group env uid of
               Some gid \<Rightarrow> Inr (uid, gid)
             | None \<Rightarrow> Inl (KeyError (str_of_int uid)))
         else Inr (- 1, - 1))
        (\<lambda>(uid, default_gid).
           if separator \<noteq> [] \<and> group_value \<noteq> []
           then bind_result (numeric_or_lookup (sn_group_id env) group_value) (\<lambda>gid. Inr (uid, gid))
           else if separator \<noteq> [] then Inl (ValueError ''owner group cannot be empty when a colon is provided'')
           else Inr (uid, default_gid)))"

section \<open>System calls\<close>

text \<open>An owner or group of -1 is left as it is.\<close>

definition owned_by :: "int \<Rightarrow> int \<Rightarrow> entry \<Rightarrow> entry" where
  "owned_by uid gid e =
     e\<lparr>en_uid := (if uid = - 1 then en_uid e else uid), en_gid := (if gid = - 1 then en_gid e else gid)\<rparr>"

definition os_chown :: "sync_env \<Rightarrow> path \<Rightarrow> int \<Rightarrow> int \<Rightarrow> disk \<Rightarrow> (error + unit) \<times> disk" where
  "os_chown env p uid gid d =
     (case sn_fails env (Chown p uid gid) d of
        Some e \<Rightarrow> (Inl e, d)
      | None \<Rightarrow> (case map_of d p of
          None \<Rightarrow> (Inl (FileNotFound (path_str p)), d)
        | Some e \<Rightarrow> (Inr (), AList.update p (owned_by uid gid e) d)))"

definition depth_of :: "disk \<Rightarrow> nat" where
  "depth_of d = fold max (map (\<lambda>q. length (path_parts q)) (map fst d)) 0"

lemma fold_max_ge: "b \<le> fold max xs b \<and> (x \<in> set xs \<longrightarrow> x \<le> fold max xs b)" for x b :: nat
proof (induction xs arbitrary: b)
  case (Cons y xs)
  have "max y b \<le> fold max xs (max y b)" and "x \<in> set xs \<longrightarrow> x \<le> fold max xs (max y b)"
    using Cons.IH [of "max y b"] by auto
  then show ?case by auto
qed simp

lemma length_le_depth: "q \<in> fst ` set d \<Longrightarrow> length (path_parts q) \<le> depth_of d"
  using fold_max_ge [of 0 "map (\<lambda>q. length (path_parts q)) (map fst d)" "length (path_parts q)"]
  by (simp add: depth_of_def image_image) force

text \<open>The visit of \<open>chown_tree\<close>, in pre-order. An owner does not change the shape of the tree.\<close>

function tree_order :: "disk \<Rightarrow> path \<Rightarrow> path list" where
  "tree_order d p = p # (if is_dir_at d p then concat (map (tree_order d) (children d p)) else [])"
  by pat_completeness auto

termination
  by (relation "measure (\<lambda>(d, p). Suc (depth_of d) - length (path_parts p))")
    (auto simp: children_def dest!: length_le_depth)

declare tree_order.simps [simp del]

fun chown_all :: "sync_env \<Rightarrow> int \<Rightarrow> int \<Rightarrow> path list \<Rightarrow> disk \<Rightarrow> (error + unit) \<times> disk" where
  "chown_all env uid gid [] d = (Inr (), d)"
| "chown_all env uid gid (p # ps) d =
     (case os_chown env p uid gid d of
        (Inl e, d1) \<Rightarrow> (Inl e, d1)
      | (Inr _, d1) \<Rightarrow> chown_all env uid gid ps d1)"

definition chown_tree :: "sync_env \<Rightarrow> path \<Rightarrow> int \<Rightarrow> int \<Rightarrow> disk \<Rightarrow> (error + unit) \<times> disk" where
  "chown_tree env p uid gid d = chown_all env uid gid (tree_order d p) d"

definition new_entry :: "sync_env \<Rightarrow> string option \<Rightarrow> entry" where
  "new_entry env c = \<lparr>en_content = c, en_mtime = sn_now env, en_uid = fst (sn_me env), en_gid = snd (sn_me env)\<rparr>"

text \<open>\<open>mkdir(parents=True, exist_ok=True)\<close>, from the outermost directory on.\<close>

fun make_paths :: "sync_env \<Rightarrow> path list \<Rightarrow> disk \<Rightarrow> (error + unit) \<times> disk" where
  "make_paths env [] d = (Inr (), d)"
| "make_paths env (p # ps) d =
     (case map_of d p of
        Some e \<Rightarrow> if en_content e = None then make_paths env ps d else (Inl (OSError (path_str p)), d)
      | None \<Rightarrow> (case sn_fails env (MakeDir p) d of
          Some e \<Rightarrow> (Inl e, d)
        | None \<Rightarrow> make_paths env ps (AList.update p (new_entry env None) d)))"

definition path_and_parents :: "path \<Rightarrow> path list" where
  "path_and_parents p = map (\<lambda>n. Path (is_absolute p) (take n (path_parts p))) [0..<Suc (length (path_parts p))]"

definition sync_mkdir :: "sync_env \<Rightarrow> path \<Rightarrow> disk \<Rightarrow> (error + unit) \<times> disk" where
  "sync_mkdir env p d = make_paths env (path_and_parents p) d"

section \<open>Copying one file\<close>

definition temp_path :: "sync_env \<Rightarrow> path \<Rightarrow> disk \<Rightarrow> path" where
  "temp_path env dir d = Path (is_absolute dir) (path_parts dir @ [''.sync-media.'' @ sn_temp env d])"

text \<open>\<open>NamedTemporaryFile\<close> creates a file that was not there, or raises.\<close>

definition create_temp :: "sync_env \<Rightarrow> path \<Rightarrow> disk \<Rightarrow> (error + unit) \<times> disk" where
  "create_temp env t d =
     (case sn_fails env (CreateTemp t) d of
        Some e \<Rightarrow> (Inl e, d)
      | None \<Rightarrow> if map_of d t \<noteq> None then (Inl (OSError (path_str t)), d)
               else (Inr (), AList.update t (new_entry env (Some [])) d))"

text \<open>\<open>shutil.copy2\<close>: content and time of modification; a copy that fails may have written a part.\<close>

definition copy2 :: "sync_env \<Rightarrow> path \<Rightarrow> path \<Rightarrow> disk \<Rightarrow> (error + unit) \<times> disk" where
  "copy2 env source t d =
     (case sn_fails env (CopyTo source t) d of
        Some e \<Rightarrow> (Inl e, AList.update t (new_entry env (Some (sn_partial env d))) d)
      | None \<Rightarrow> (case map_of d source of
          None \<Rightarrow> (Inl (FileNotFound (path_str source)), d)
        | Some e \<Rightarrow> (case en_content e of
            None \<Rightarrow> (Inl (OSError (path_str source)), d)
          | Some c \<Rightarrow> (Inr (), AList.update t ((new_entry env (Some c))\<lparr>en_mtime := en_mtime e\<rparr>) d))))"

definition os_replace :: "sync_env \<Rightarrow> path \<Rightarrow> path \<Rightarrow> disk \<Rightarrow> (error + unit) \<times> disk" where
  "os_replace env t dest d =
     (case sn_fails env (ReplaceBy t dest) d of
        Some e \<Rightarrow> (Inl e, d)
      | None \<Rightarrow> (case map_of d t of
          None \<Rightarrow> (Inl (FileNotFound (path_str t)), d)
        | Some e \<Rightarrow> if is_dir_at d dest then (Inl (OSError (path_str dest)), d)
                   else (Inr (), AList.update dest e (AList.delete t d))))"

text \<open>\<open>unlink(missing_ok=True)\<close> in the \<open>finally\<close> block; its own failure takes the other's place.\<close>

definition drop_temp :: "sync_env \<Rightarrow> path \<Rightarrow> error \<Rightarrow> disk \<Rightarrow> (error + unit) \<times> disk" where
  "drop_temp env t err d =
     (case sn_fails env (Unlink t) d of
        Some e \<Rightarrow> (Inl e, d)
      | None \<Rightarrow> (Inl err, AList.delete t d))"

definition copy_media :: "sync_env \<Rightarrow> path \<Rightarrow> path \<Rightarrow> int \<Rightarrow> int \<Rightarrow> disk \<Rightarrow> (error + unit) \<times> disk" where
  "copy_media env source dest uid gid d =
     (let t = temp_path env (path_parent dest) d in
      case create_temp env t d of
        (Inl e, d1) \<Rightarrow> (Inl e, d1)
      | (Inr _, d1) \<Rightarrow>
          (case copy2 env source t d1 of
             (Inl e, d2) \<Rightarrow> drop_temp env t e d2
           | (Inr _, d2) \<Rightarrow>
               if \<not> has_media_stream env d2 t
               then drop_temp env t (ValueError ''copied file failed ffprobe validation'') d2
               else (case os_replace env t dest d2 of
                   (Inl e, d3) \<Rightarrow> drop_temp env t e d3
                 | (Inr _, d3) \<Rightarrow> os_chown env dest uid gid d3)))"

section \<open>The run\<close>

record sync_args =
  sa_force :: bool
  sa_downloads_dir :: path
  sa_sync_dir :: path
  sa_owner :: string
  sa_env_force :: "string option"
  sa_env_dry_run :: "string option"

record tally =
  ta_copied :: nat
  ta_skipped :: nat
  ta_failed :: nat

definition media_below :: "disk \<Rightarrow> path \<Rightarrow> path list" where
  "media_below d dir =
     sort_key path_str (filter (\<lambda>q. below dir q \<and> content_at d q \<noteq> None) (map fst d))"

definition mtime_at :: "disk \<Rightarrow> path \<Rightarrow> int" where
  "mtime_at d p = (case map_of d p of Some e \<Rightarrow> en_mtime e | None \<Rightarrow> 0)"

definition up_to_date :: "sync_env \<Rightarrow> disk \<Rightarrow> path \<Rightarrow> path \<Rightarrow> bool" where
  "up_to_date env d source dest \<longleftrightarrow>
     map_of d dest \<noteq> None \<and> mtime_at d source \<le> mtime_at d dest \<and> has_media_stream env d dest"

definition caught_copy :: "error \<Rightarrow> bool" where
  "caught_copy e = (case e of OSError _ \<Rightarrow> True | FileNotFound _ \<Rightarrow> True | ValueError _ \<Rightarrow> True | _ \<Rightarrow> False)"

definition sync_one ::
    "sync_env \<Rightarrow> bool \<Rightarrow> bool \<Rightarrow> path \<Rightarrow> int \<times> int \<Rightarrow> path \<Rightarrow> tally \<Rightarrow> disk \<Rightarrow> (error + tally) \<times> disk" where
  "sync_one env force dry sync_dir owner source k d =
     (if \<not> is_media_file source then (Inr k, d)
      else let dest = sync_destination sync_dir source in
        if \<not> has_media_stream env d source then (Inr (k\<lparr>ta_failed := Suc (ta_failed k)\<rparr>), d)
        else if \<not> force \<and> up_to_date env d source dest then (Inr (k\<lparr>ta_skipped := Suc (ta_skipped k)\<rparr>), d)
        else if dry then (Inr (k\<lparr>ta_copied := Suc (ta_copied k)\<rparr>), d)
        else (case copy_media env source dest (fst owner) (snd owner) d of
            (Inr _, d1) \<Rightarrow> (Inr (k\<lparr>ta_copied := Suc (ta_copied k)\<rparr>), d1)
          | (Inl e, d1) \<Rightarrow> if caught_copy e then (Inr (k\<lparr>ta_failed := Suc (ta_failed k)\<rparr>), d1) else (Inl e, d1)))"

fun sync_all ::
    "sync_env \<Rightarrow> bool \<Rightarrow> bool \<Rightarrow> path \<Rightarrow> int \<times> int \<Rightarrow> path list \<Rightarrow> tally \<Rightarrow> disk \<Rightarrow> (error + tally) \<times> disk" where
  "sync_all env force dry sync_dir owner [] k d = (Inr k, d)"
| "sync_all env force dry sync_dir owner (p # ps) k d =
     (case sync_one env force dry sync_dir owner p k d of
        (Inl e, d1) \<Rightarrow> (Inl e, d1)
      | (Inr k1, d1) \<Rightarrow> sync_all env force dry sync_dir owner ps k1 d1)"

definition chown_unless :: "bool \<Rightarrow> sync_env \<Rightarrow> path \<Rightarrow> int \<times> int \<Rightarrow> disk \<Rightarrow> (error + unit) \<times> disk" where
  "chown_unless dry env p owner d = (if dry then (Inr (), d) else chown_tree env p (fst owner) (snd owner) d)"

definition sync_run ::
    "sync_env \<Rightarrow> bool \<Rightarrow> bool \<Rightarrow> path \<Rightarrow> path \<Rightarrow> int \<times> int \<Rightarrow> disk \<Rightarrow> (error + int \<times> tally) \<times> disk" where
  "sync_run env force dry downloads_dir sync_dir owner d =
     (case sync_mkdir env sync_dir d of
        (Inl e, d1) \<Rightarrow> (Inl e, d1)
      | (Inr _, d1) \<Rightarrow>
          (case chown_unless dry env sync_dir owner d1 of
             (Inl e, d2) \<Rightarrow> (Inl e, d2)
           | (Inr _, d2) \<Rightarrow>
               (case sync_all env force dry sync_dir owner (media_below d2 downloads_dir)
                       \<lparr>ta_copied = 0, ta_skipped = 0, ta_failed = 0\<rparr> d2 of
                  (Inl e, d3) \<Rightarrow> (Inl e, d3)
                | (Inr k, d3) \<Rightarrow>
                    (case chown_unless dry env sync_dir owner d3 of
                       (Inl e, d4) \<Rightarrow> (Inl e, d4)
                     | (Inr _, d4) \<Rightarrow> (Inr (if ta_failed k \<noteq> 0 then 1 else 0, k), d4)))))"

text \<open>The exit code, with the tally of a run that got as far as its loop.\<close>

definition sync_main :: "sync_env \<Rightarrow> sync_args \<Rightarrow> disk \<Rightarrow> (error + int \<times> tally option) \<times> disk" where
  "sync_main env a d =
     (let force = sa_force a \<or> sa_env_force a = Some ''1'';
          dry = (sa_env_dry_run a = Some ''1'')
      in if \<not> is_dir_at d (sa_downloads_dir a) then (Inr (66, None), d)
         else if \<not> sn_probe_found env then (Inr (69, None), d)
         else (case resolve_owner env (sa_owner a) of
             Inl _ \<Rightarrow> (Inr (64, None), d)
           | Inr owner \<Rightarrow>
               (case sync_run env force dry (sa_downloads_dir a) (sa_sync_dir a) owner d of
                  (Inl e, d1) \<Rightarrow> (Inl e, d1)
                | (Inr (code, k), d1) \<Rightarrow> (Inr (code, Some k), d1))))"

section \<open>Names\<close>

lemma sanitize_chars: "c \<in> set (sanitize_component v) \<Longrightarrow> \<not> forbidden_char c"
proof -
  let ?s = "map sanitize_char v"
  have ok: "\<not> forbidden_char (sanitize_char c)" for c
    by (auto simp: sanitize_char_def Let_def forbidden_char_def)
  have "set (join_with '' '' (words_of ?s)) \<subseteq> {CHR '' ''} \<union> set ?s"
    using set_join_with [of "'' ''" "words_of ?s"] words_of_chars [of _ ?s] by fastforce
  then have "set (strip_chars (\<lambda>c. c \<in> set '' .-'') (join_with '' '' (words_of ?s))) \<subseteq> {CHR '' ''} \<union> set ?s"
    using strip_chars_set by fastforce
  then show "c \<in> set (sanitize_component v) \<Longrightarrow> \<not> forbidden_char c"
    using ok by (auto simp: sanitize_component_def or_else_def forbidden_char_def split: if_splits)
qed

lemma sanitize_nonempty: "sanitize_component v \<noteq> []"
  by (simp add: sanitize_component_def or_else_def)

text \<open>The sync directory is flat: a destination is one of its direct children.\<close>

lemma destination_flat:
  "sync_destination dir p = Path (is_absolute dir) (path_parts dir @
     [sanitize_component (path_name (path_parent p)) @ '' - '' @ sanitize_component (path_name p)])"
proof -
  define n where "n = sanitize_component (path_name (path_parent p)) @ '' - '' @ sanitize_component (path_name p)"
  have "forbidden_char CHR ''/''" by (simp add: forbidden_char_def)
  then have slash: "CHR ''/'' \<notin> set n" using sanitize_chars unfolding n_def by auto
  have "length n \<ge> 3" "n \<noteq> []" by (simp_all add: n_def)
  then have "kept_part n" by (auto simp: kept_part_def)
  moreover have "take 1 n \<noteq> ''/''" using slash by (metis in_set_takeD list.set_intros(1))
  ultimately have "path_of n = Path False [n]" using slash by (simp add: path_of_def split_on_no_sep)
  then show ?thesis unfolding sync_destination_def path_join_def Let_def n_def by simp
qed

definition direct_child :: "path \<Rightarrow> path \<Rightarrow> bool" where
  "direct_child dir q \<longleftrightarrow> below dir q \<and> path_parent q = dir"

lemma direct_childI: "direct_child dir (Path (is_absolute dir) (path_parts dir @ [n]))"
  by (cases dir) (auto simp: direct_child_def below_def path_parent_def strict_prefix_def)

lemma destination_child: "direct_child dir (sync_destination dir p)"
  by (simp only: destination_flat direct_childI)

section \<open>What a run keeps and what it adds\<close>

text \<open>
  Entries stay; those outside the sync directory stay as they are; a new content lies in a direct
  child of the sync directory, was accepted by FFprobe and is the content of a file of the first disk.
\<close>

definition sync_ok :: "sync_env \<Rightarrow> path \<Rightarrow> disk \<Rightarrow> disk \<Rightarrow> bool" where
  "sync_ok env dir d d' \<longleftrightarrow>
     (\<forall>q e. map_of d q = Some e \<longrightarrow> (\<exists>e'. map_of d' q = Some e' \<and> (e' = e \<or> q = dir \<or> below dir q))) \<and>
     (\<forall>q c. content_at d' q = Some c \<longrightarrow> content_at d q = Some c \<or>
        (direct_child dir q \<and> (\<exists>t. probe_accepts env t (Some c)) \<and> (\<exists>s. content_at d s = Some c)))"

lemma sync_ok_refl [simp]: "sync_ok env dir d d"
  by (auto simp: sync_ok_def)

lemma sync_ok_trans:
  assumes "sync_ok env dir d d1" and "sync_ok env dir d1 d2"
  shows "sync_ok env dir d d2"
proof -
  have "\<exists>e'. map_of d2 q = Some e' \<and> (e' = e \<or> q = dir \<or> below dir q)" if "map_of d q = Some e" for q e
    using assms that unfolding sync_ok_def by metis
  moreover have "content_at d q = Some c \<or>
      (direct_child dir q \<and> (\<exists>t. probe_accepts env t (Some c)) \<and> (\<exists>s. content_at d s = Some c))"
    if "content_at d2 q = Some c" for q c
    using assms that unfolding sync_ok_def by metis
  ultimately show ?thesis by (simp add: sync_ok_def)
qed

text \<open>Steps that change no content: owners of the sync directory, and new directories.\<close>

definition same_contents :: "path \<Rightarrow> disk \<Rightarrow> disk \<Rightarrow> bool" where
  "same_contents dir d d' \<longleftrightarrow> content_at d' = content_at d \<and>
     (\<forall>q e. map_of d q = Some e \<longrightarrow> (\<exists>e'. map_of d' q = Some e' \<and> (e' = e \<or> q = dir \<or> below dir q)))"

lemma same_contents_ok: "same_contents dir d d' \<Longrightarrow> sync_ok env dir d d'"
  by (auto simp: same_contents_def sync_ok_def)

lemma same_contents_refl [simp]: "same_contents dir d d"
  by (auto simp: same_contents_def)

lemma same_contents_trans:
  "same_contents dir d d1 \<Longrightarrow> same_contents dir d1 d2 \<Longrightarrow> same_contents dir d d2"
  unfolding same_contents_def by metis

lemma os_chown_same:
  assumes "os_chown env p uid gid d = (r, d')" and "p = dir \<or> below dir p"
  shows "same_contents dir d d'"
proof (cases "d' = d")
  case False
  then obtain e where "map_of d p = Some e" "d' = AList.update p (owned_by uid gid e) d"
    using assms(1) by (auto simp: os_chown_def split: option.splits)
  then show ?thesis using assms(2) by (auto simp: same_contents_def content_at_def owned_by_def)
qed simp

lemma tree_order_below: "q \<in> set (tree_order d p) \<Longrightarrow> q = p \<or> below p q"
proof (induction d p rule: tree_order.induct)
  case (1 d p)
  show ?case
  proof (cases "q = p")
    case False
    then obtain r where "r \<in> set (children d p)" "q \<in> set (tree_order d r)" "is_dir_at d p"
      using "1.prems" by (subst (asm) tree_order.simps) (auto split: if_splits)
    moreover from this have "q = r \<or> below r q" using "1.IH" by blast
    moreover have "below p r" using calculation(1) by (simp add: children_def)
    ultimately show ?thesis by (auto simp: below_def)
  qed simp
qed

lemma chown_all_same:
  "chown_all env uid gid ps d = (r, d') \<Longrightarrow> \<forall>p \<in> set ps. p = dir \<or> below dir p \<Longrightarrow> same_contents dir d d'"
proof (induction ps arbitrary: d)
  case (Cons p ps)
  obtain r1 d1 where s: "os_chown env p uid gid d = (r1, d1)" by force
  then have "same_contents dir d d1" using os_chown_same Cons.prems(2) by auto
  then show ?case using Cons s by (auto split: sum.splits intro: same_contents_trans)
qed simp

lemma chown_unless_same: "chown_unless dry env dir owner d = (r, d') \<Longrightarrow> same_contents dir d d'"
  using chown_all_same tree_order_below by (fastforce simp: chown_unless_def chown_tree_def split: if_splits)

lemma make_paths_same:
  "make_paths env ps d = (r, d') \<Longrightarrow> same_contents dir d d' \<and> (\<forall>q e. map_of d q = Some e \<longrightarrow> map_of d' q = Some e)"
proof (induction ps arbitrary: d)
  case (Cons p ps)
  show ?case
  proof (cases "map_of d p")
    case None
    let ?d = "AList.update p (new_entry env None) d"
    have "same_contents dir d ?d" "\<forall>q e. map_of d q = Some e \<longrightarrow> map_of ?d q = Some e"
      using None by (auto simp: same_contents_def content_at_def new_entry_def fun_eq_iff)
    then show ?thesis using Cons None by (auto split: option.splits intro: same_contents_trans)
  qed (use Cons in \<open>auto split: if_splits\<close>)
qed simp

section \<open>One copy\<close>

lemma drop_temp_restores:
  assumes "drop_temp env t e d2 = (r, d')" and "\<And>d0. sn_fails env (Unlink t) d0 = None"
    and "map_of d t = None" and "\<And>q. q \<noteq> t \<Longrightarrow> map_of d2 q = map_of d q"
  shows "map_of d' = map_of d"
  using assms by (auto simp: drop_temp_def delete_conv' fun_eq_iff)

text \<open>A copy changes nothing, or it gives the destination the source's content and time.\<close>

definition copied_to :: "sync_env \<Rightarrow> path \<Rightarrow> path \<Rightarrow> disk \<Rightarrow> disk \<Rightarrow> bool" where
  "copied_to env source dest d d' \<longleftrightarrow> (\<exists>e k e' t. map_of d source = Some e \<and> en_content e = Some k \<and>
     probe_accepts env t (Some k) \<and> en_content e' = Some k \<and> en_mtime e' = en_mtime e \<and>
     map_of d' = (map_of d)(dest \<mapsto> e'))"

lemma copied_then_chown:
  assumes "copied_to env source dest d d1" and "os_chown env dest uid gid d1 = (r, d')"
  shows "copied_to env source dest d d'"
proof -
  obtain e k e' t where c: "map_of d source = Some e" "en_content e = Some k" "probe_accepts env t (Some k)"
      "en_content e' = Some k" "en_mtime e' = en_mtime e" "map_of d1 = (map_of d)(dest \<mapsto> e')"
    using assms(1) unfolding copied_to_def by metis
  have "map_of d' = (map_of d)(dest \<mapsto> e') \<or> map_of d' = (map_of d)(dest \<mapsto> owned_by uid gid e')"
    using assms(2) c(6) by (auto simp: os_chown_def split: option.splits)
  moreover have "en_content (owned_by uid gid e') = Some k" "en_mtime (owned_by uid gid e') = en_mtime e"
    using c(4,5) by (simp_all add: owned_by_def)
  ultimately show ?thesis unfolding copied_to_def using c(1-5) by metis
qed

lemma copy_media_cases:
  assumes run: "copy_media env source dest uid gid d = (r, d')"
    and tidy: "\<And>q d0. sn_fails env (Unlink q) d0 = None" and src: "map_of d source \<noteq> None"
  shows "(\<exists>e. r = Inl e \<and> map_of d' = map_of d) \<or> copied_to env source dest d d'"
proof -
  define t where "t = temp_path env (path_parent dest) d"
  note run' = run [unfolded copy_media_def, folded t_def, unfolded Let_def]
  obtain r1 d1 where c: "create_temp env t d = (r1, d1)" by force
  show ?thesis
  proof (cases r1)
    case (Inl e)
    then show ?thesis using run' c by (auto simp: create_temp_def split: option.splits if_splits)
  next
    case r1: (Inr u)
    then have fresh: "map_of d t = None" and d1: "map_of d1 = (map_of d)(t \<mapsto> new_entry env (Some []))"
      using c by (auto simp: create_temp_def split: option.splits if_splits)
    have st: "source \<noteq> t" using src fresh by auto
    obtain r2 d2 where cp: "copy2 env source t d1 = (r2, d2)" by force
    have others: "map_of d2 q = map_of d q" if "q \<noteq> t" for q
      using cp d1 that by (auto simp: copy2_def split: option.splits)
    have dropped: "drop_temp env t e d2 = (r, d') \<Longrightarrow> (\<exists>e. r = Inl e \<and> map_of d' = map_of d)" for e
      using drop_temp_restores [OF _ tidy fresh others] tidy by (auto simp: drop_temp_def)
    show ?thesis
    proof (cases r2)
      case (Inl e)
      then show ?thesis using run' c cp r1 dropped by simp
    next
      case r2: (Inr u2)
      then obtain e k where e: "map_of d source = Some e" "en_content e = Some k"
          "map_of d2 t = Some ((new_entry env (Some k))\<lparr>en_mtime := en_mtime e\<rparr>)"
        using cp d1 st by (auto simp: copy2_def split: option.splits)
      obtain r3 d3 where rp: "os_replace env t dest d2 = (r3, d3)" by force
      consider "\<not> has_media_stream env d2 t" | err where "has_media_stream env d2 t" "r3 = Inl err"
        | u3 where "has_media_stream env d2 t" "r3 = Inr u3" by (cases r3) auto
      then show ?thesis
      proof cases
        case 1
        then show ?thesis using run' c cp r1 r2 dropped by simp
      next
        case 2
        then have "d3 = d2" using rp e(3) by (auto simp: os_replace_def split: option.splits if_splits)
        then show ?thesis using run' c cp rp 2 r1 r2 dropped by simp
      next
        case 3
        then have "map_of d3 = (map_of d)(dest \<mapsto> (new_entry env (Some k))\<lparr>en_mtime := en_mtime e\<rparr>)"
          using rp e(3) fresh others
          by (auto simp: os_replace_def delete_conv' fun_eq_iff split: option.splits if_splits)
        moreover have "probe_accepts env t (Some k)"
          using 3(1) e(3) by (simp add: has_media_stream_def content_at_def new_entry_def)
        ultimately have "copied_to env source dest d d3"
          unfolding copied_to_def using e(1,2)
          by (intro exI [of _ e] exI [of _ k] exI [of _ "(new_entry env (Some k))\<lparr>en_mtime := en_mtime e\<rparr>"] exI [of _ t])
            (simp add: new_entry_def)
        moreover have "os_chown env dest uid gid d3 = (r, d')" using run' c cp rp 3 r1 r2 by simp
        ultimately show ?thesis using copied_then_chown by blast
      qed
    qed
  qed
qed

lemma map_of_sync_ok: "map_of d' = map_of d \<Longrightarrow> sync_ok env dir d d'"
  by (auto simp: sync_ok_def content_at_def)

lemma copied_to_ok:
  assumes "copied_to env source dest d d'" and "direct_child dir dest"
  shows "sync_ok env dir d d'"
proof -
  obtain e k e' t where c: "map_of d source = Some e" "en_content e = Some k" "probe_accepts env t (Some k)"
      "en_content e' = Some k" "map_of d' = (map_of d)(dest \<mapsto> e')"
    using assms(1) unfolding copied_to_def by metis
  have "content_at d source = Some k" using c(1,2) by (simp add: content_at_def)
  then show ?thesis
    using c(3-5) assms(2) unfolding sync_ok_def by (auto simp: content_at_def direct_child_def)
qed

section \<open>The whole run\<close>

lemma sync_one_cases:
  assumes "sync_one env force dry dir owner p k d = (r, d')"
    and tidy: "\<And>q d0. sn_fails env (Unlink q) d0 = None" and "map_of d p \<noteq> None"
  shows "map_of d' = map_of d \<or> \<not> dry \<and> copied_to env p (sync_destination dir p) d d'"
proof -
  obtain r1 d1 where c: "copy_media env p (sync_destination dir p) (fst owner) (snd owner) d = (r1, d1)" by force
  from copy_media_cases [OF c tidy assms(3)] show ?thesis
    using assms(1) c by (auto simp: sync_one_def Let_def split: if_splits sum.splits)
qed

lemma sync_one_ok:
  assumes "sync_one env force dry dir owner p k d = (r, d')"
    and "\<And>q d0. sn_fails env (Unlink q) d0 = None" and "map_of d p \<noteq> None"
  shows "sync_ok env dir d d'"
  using sync_one_cases [OF assms] map_of_sync_ok copied_to_ok [OF _ destination_child] by blast

lemma sync_one_tally:
  "sync_one env force dry dir owner p k d = (Inr k', d') \<Longrightarrow>
   ta_copied k' + ta_skipped k' + ta_failed k' =
     ta_copied k + ta_skipped k + ta_failed k + (if is_media_file p then 1 else 0)"
  by (auto simp: sync_one_def Let_def split: if_splits prod.splits sum.splits)

lemma sync_all_ok:
  assumes "sync_all env force dry dir owner ps k d = (r, d')"
    and tidy: "\<And>q d0. sn_fails env (Unlink q) d0 = None" and "\<forall>p \<in> set ps. map_of d p \<noteq> None"
  shows "sync_ok env dir d d'"
  using assms(1,3)
proof (induction ps arbitrary: k d)
  case (Cons p ps)
  obtain r1 d1 where s: "sync_one env force dry dir owner p k d = (r1, d1)" by force
  then have ok: "sync_ok env dir d d1" using sync_one_ok tidy Cons.prems(2) by auto
  then have "\<forall>p \<in> set ps. map_of d1 p \<noteq> None" using Cons.prems(2) unfolding sync_ok_def by fastforce
  then show ?case using Cons s ok by (auto split: sum.splits intro: sync_ok_trans)
qed simp

lemma sync_all_tally:
  "sync_all env force dry dir owner ps k d = (Inr k', d') \<Longrightarrow>
   ta_copied k' + ta_skipped k' + ta_failed k' =
     ta_copied k + ta_skipped k + ta_failed k + length (filter is_media_file ps)"
  by (induction ps arbitrary: k d) (auto dest: sync_one_tally split: prod.splits sum.splits)

lemma sync_all_dry: "sync_all env force True dir owner ps k d = (r, d') \<Longrightarrow> d' = d"
proof (induction ps arbitrary: k d)
  case (Cons p ps)
  have "snd (sync_one env force True dir owner p k d) = d" by (simp add: sync_one_def Let_def)
  then show ?case using Cons by (cases "sync_one env force True dir owner p k d") (auto split: sum.splits)
qed simp

lemma map_fst_update:
  "map fst (AList.update p e d) = (if p \<in> fst ` set d then map fst d else map fst d @ [p])"
  by (induction d) auto

text \<open>Making directories and changing owners leaves the list of files as it is.\<close>

definition files_of :: "disk \<Rightarrow> path list" where
  "files_of d = filter (\<lambda>q. content_at d q \<noteq> None) (map fst d)"

lemma files_of_keys:
  "content_at d' = content_at d \<Longrightarrow> map fst d' = map fst d \<Longrightarrow> files_of d' = files_of d"
  by (simp add: files_of_def)

lemma os_chown_files: "os_chown env p uid gid d = (r, d') \<Longrightarrow> files_of d' = files_of d"
proof (rule files_of_keys)
  assume c: "os_chown env p uid gid d = (r, d')"
  then show "content_at d' = content_at d" using os_chown_same [of env p uid gid d r d' p] by (simp add: same_contents_def)
  show "map fst d' = map fst d"
    using c by (auto simp: os_chown_def map_fst_update split: option.splits dest!: map_of_SomeD) (force simp: image_iff)
qed

lemma chown_all_files: "chown_all env uid gid ps d = (r, d') \<Longrightarrow> files_of d' = files_of d"
  by (induction ps arbitrary: d) (auto split: prod.splits sum.splits dest!: os_chown_files)

lemma chown_unless_files: "chown_unless dry env p owner d = (r, d') \<Longrightarrow> files_of d' = files_of d"
  by (auto simp: chown_unless_def chown_tree_def split: if_splits dest!: chown_all_files)

lemma make_paths_files: "make_paths env ps d = (r, d') \<Longrightarrow> files_of d' = files_of d"
proof (induction ps arbitrary: d)
  case (Cons p ps)
  have "files_of (AList.update p (new_entry env None) d) = files_of d" if "map_of d p = None"
  proof -
    have "content_at (AList.update p (new_entry env None) d) = content_at d" "content_at d p = None"
      using that by (auto simp: content_at_def new_entry_def fun_eq_iff)
    then show ?thesis by (simp add: files_of_def map_fst_update)
  qed
  then show ?case using Cons by (auto split: option.splits if_splits)
qed simp

lemma media_below_files: "media_below d dir = sort_key path_str (filter (below dir) (files_of d))"
  by (simp add: media_below_def files_of_def conj_commute)

lemma media_below_exist: "p \<in> set (media_below d dir) \<Longrightarrow> map_of d p \<noteq> None"
  by (cases "map_of d p") (auto simp: media_below_def content_at_def)

text \<open>The steps of a run that returns or fails, with the disks between them.\<close>

lemma sync_run_ok:
  assumes "sync_run env force dry dl dir owner d = (r, d')"
    and tidy: "\<And>q d0. sn_fails env (Unlink q) d0 = None"
  shows "sync_ok env dir d d' \<and>
    (dry \<longrightarrow> content_at d' = content_at d \<and> (\<forall>q e. map_of d q = Some e \<longrightarrow> map_of d' q = Some e)) \<and>
    (\<forall>code k. r = Inr (code, k) \<longrightarrow> (code = 0 \<longleftrightarrow> ta_failed k = 0) \<and>
      ta_copied k + ta_skipped k + ta_failed k = length (filter is_media_file (media_below d dl)))"
proof -
  let ?k0 = "\<lparr>ta_copied = 0, ta_skipped = 0, ta_failed = 0\<rparr>"
  obtain r1 d1 where m: "sync_mkdir env dir d = (r1, d1)" by force
  obtain r2 d2 where c: "chown_unless dry env dir owner d1 = (r2, d2)" by force
  obtain r3 d3 where a: "sync_all env force dry dir owner (media_below d2 dl) ?k0 d2 = (r3, d3)" by force
  obtain r4 d4 where z: "chown_unless dry env dir owner d3 = (r4, d4)" by force
  have same1: "same_contents dir d d1" "\<forall>q e. map_of d q = Some e \<longrightarrow> map_of d1 q = Some e"
    using make_paths_same m unfolding sync_mkdir_def by blast+
  have same2: "same_contents dir d1 d2" and same4: "same_contents dir d3 d4" using chown_unless_same c z by blast+
  have ok3: "sync_ok env dir d2 d3" using sync_all_ok [OF a tidy] media_below_exist by blast
  have ok2: "sync_ok env dir d d2" using same_contents_trans [OF same1(1) same2] by (rule same_contents_ok)
  note oks = same_contents_ok [OF same1(1)] ok2 sync_ok_trans [OF ok2 ok3]
    sync_ok_trans [OF sync_ok_trans [OF ok2 ok3] same_contents_ok [OF same4]]
  have listed: "media_below d2 dl = media_below d dl"
    using make_paths_files chown_unless_files [OF c] m unfolding sync_mkdir_def media_below_files by metis
  have dry_same: "dry \<Longrightarrow> d2 = d1 \<and> d3 = d2 \<and> d4 = d3"
    using c z a sync_all_dry by (auto simp: chown_unless_def)
  consider "d' = d1" "\<exists>e. r = Inl e" | "d' = d2" "\<exists>e. r = Inl e" | "d' = d3" "\<exists>e. r = Inl e" | "d' = d4" "\<exists>e. r = Inl e"
    | k where "d' = d4" "r3 = Inr k" "r = Inr (if ta_failed k \<noteq> 0 then 1 else 0, k)"
    using assms(1) m c a z by (auto simp: sync_run_def split: sum.splits)
  then show ?thesis
  proof cases
    case 5
    then show ?thesis
      using oks dry_same same1 sync_all_tally [of env force dry dir owner "media_below d2 dl" ?k0 d2 k d3] a listed
      by (auto simp: same_contents_def)
  qed (use oks dry_same same1 in \<open>auto simp: same_contents_def\<close>)
qed

text \<open>C19: A synchronisation is safe for what is on the disk, whatever fails or stops it (temporary
  files that can be removed given): entries stay, outside the sync directory unchanged; a new content
  lies directly in the sync directory, was accepted by FFprobe and is that of a file which was
  there before; a dry run changes no file; and a run that ends counts every media file once and
  exits with 0 exactly when none failed.\<close>

theorem sync_keeps_library:
  assumes "sync_main env a d = (r, d')" and "\<forall>q d0. sn_fails env (Unlink q) d0 = None"
  shows "(\<forall>q e. map_of d q = Some e \<longrightarrow>
        (\<exists>e'. map_of d' q = Some e' \<and> (e' = e \<or> q = sa_sync_dir a \<or> below (sa_sync_dir a) q)))
    \<and> (\<forall>q c. content_at d' q = Some c \<and> content_at d q \<noteq> Some c \<longrightarrow>
        path_parent q = sa_sync_dir a \<and> (\<exists>t. probe_accepts env t (Some c)) \<and> (\<exists>s. content_at d s = Some c))
    \<and> (sa_env_dry_run a = Some ''1'' \<longrightarrow> content_at d' = content_at d)
    \<and> (\<forall>code k. r = Inr (code, Some k) \<longrightarrow> (code = 0 \<longleftrightarrow> ta_failed k = 0) \<and>
        ta_copied k + ta_skipped k + ta_failed k
          = length (filter is_media_file (media_below d (sa_downloads_dir a))))"
proof -
  let ?force = "sa_force a \<or> sa_env_force a = Some ''1''" and ?dry = "sa_env_dry_run a = Some ''1''"
  consider "d' = d" "\<forall>code k. r \<noteq> Inr (code, Some k)"
    | owner r1 where "sync_run env ?force ?dry (sa_downloads_dir a) (sa_sync_dir a) owner d = (r1, d')"
        "r = (case r1 of Inl e \<Rightarrow> Inl e | Inr (code, k) \<Rightarrow> Inr (code, Some k))"
    using assms(1) by (auto simp: sync_main_def Let_def split: if_splits sum.splits prod.splits)
  then show ?thesis
  proof cases
    case 2
    from sync_run_ok [OF 2(1)] assms(2) show ?thesis
      using 2(2) by (auto simp: sync_ok_def direct_child_def split: sum.splits)
  qed auto
qed

section \<open>A second run\<close>

text \<open>\<open>sync_settled\<close>: a media file FFprobe accepts is up to date at its destination.\<close>

definition sync_settled :: "sync_env \<Rightarrow> path \<Rightarrow> disk \<Rightarrow> path \<Rightarrow> bool" where
  "sync_settled env dir d p \<longleftrightarrow> \<not> is_media_file p \<or> (has_media_stream env d p \<and> up_to_date env d p (sync_destination dir p))"

lemma sync_settled_cong:
  assumes "map_of d' p = map_of d p" and "map_of d' (sync_destination dir p) = map_of d (sync_destination dir p)"
  shows "sync_settled env dir d' p = sync_settled env dir d p"
  using assms by (simp add: sync_settled_def has_media_stream_def up_to_date_def mtime_at_def content_at_def)

lemma sync_settled_copied:
  assumes c: "copied_to env p (sync_destination dir p) d d'" and out: "\<not> below dir p"
    and by_content: "\<And>x y c. probe_accepts env x c = probe_accepts env y c"
    and stale: "\<not> up_to_date env d p (sync_destination dir p)"
  shows "sync_settled env dir d' p" and "\<not> below dir q \<Longrightarrow> sync_settled env dir d q \<Longrightarrow> sync_settled env dir d' q"
proof -
  let ?D = "sync_destination dir p"
  obtain e k e' t where c: "map_of d p = Some e" "en_content e = Some k" "probe_accepts env t (Some k)"
      "en_content e' = Some k" "en_mtime e' = en_mtime e" "map_of d' = (map_of d)(?D \<mapsto> e')"
    using c unfolding copied_to_def by metis
  have "below dir ?D" using destination_child by (simp add: direct_child_def)
  then have src: "map_of d' p = map_of d p" "\<not> below dir q \<Longrightarrow> map_of d' q = map_of d q" using c(6) out by auto
  have probed: "probe_accepts env x (Some k)" for x using c(3) by_content by blast
  show "sync_settled env dir d' p"
    using c src(1) probed by (simp add: sync_settled_def has_media_stream_def up_to_date_def mtime_at_def content_at_def)
  assume q: "\<not> below dir q" "sync_settled env dir d q"
  show "sync_settled env dir d' q"
  proof (cases "sync_destination dir q = ?D \<and> is_media_file q")
    case True
    then have "has_media_stream env d q" "map_of d ?D \<noteq> None" "has_media_stream env d ?D" "mtime_at d q \<le> mtime_at d ?D"
      using q by (auto simp: sync_settled_def up_to_date_def)
    moreover from this stale have "mtime_at d q \<le> en_mtime e"
      using c(1) by (auto simp: up_to_date_def mtime_at_def)
    ultimately show ?thesis
      using c src(2) q(1) probed True
      by (simp add: sync_settled_def has_media_stream_def up_to_date_def mtime_at_def content_at_def)
  next
    case False
    then show ?thesis
    proof (cases "is_media_file q")
      case True
      then have "map_of d' (sync_destination dir q) = map_of d (sync_destination dir q)" using False c(6) by auto
      then show ?thesis using sync_settled_cong src(2) q by blast
    qed (simp add: sync_settled_def)
  qed
qed

lemma sync_one_settles:
  assumes run: "sync_one env False False dir owner p k d = (Inr k', d')" and fine: "ta_failed k' = ta_failed k"
    and tidy: "\<And>q d0. sn_fails env (Unlink q) d0 = None"
    and by_content: "\<And>x y c. probe_accepts env x c = probe_accepts env y c"
    and p: "map_of d p \<noteq> None" "\<not> below dir p"
  shows "sync_settled env dir d' p \<and> (\<forall>q. \<not> below dir q \<longrightarrow> sync_settled env dir d q \<longrightarrow> sync_settled env dir d' q)"
proof -
  consider "d' = d" "sync_settled env dir d p"
    | u where "copy_media env p (sync_destination dir p) (fst owner) (snd owner) d = (Inr u, d')"
        "\<not> up_to_date env d p (sync_destination dir p)"
    using run fine by (auto simp: sync_one_def Let_def sync_settled_def split: if_splits prod.splits sum.splits)
  then show ?thesis
  proof cases
    case 2
    then have c: "copied_to env p (sync_destination dir p) d d'" using copy_media_cases [OF 2(1) tidy p(1)] by simp
    show ?thesis using sync_settled_copied [OF c p(2) by_content 2(2)] by blast
  qed auto
qed

lemma sync_one_failed_le: "sync_one env force dry dir owner p k d = (Inr k', d') \<Longrightarrow> ta_failed k \<le> ta_failed k'"
  by (auto simp: sync_one_def Let_def split: if_splits prod.splits sum.splits)

lemma sync_all_failed_le: "sync_all env force dry dir owner ps k d = (Inr k', d') \<Longrightarrow> ta_failed k \<le> ta_failed k'"
  by (induction ps arbitrary: k d)
    (auto split: prod.splits sum.splits dest: sync_one_failed_le intro: order_trans)

lemma sync_all_settles:
  assumes "sync_all env False False dir owner ps k d = (Inr k', d')" and "ta_failed k' = ta_failed k"
    and tidy: "\<And>q d0. sn_fails env (Unlink q) d0 = None"
    and by_content: "\<And>x y c. probe_accepts env x c = probe_accepts env y c"
    and "\<forall>p \<in> set ps. map_of d p \<noteq> None \<and> \<not> below dir p"
  shows "(\<forall>p \<in> set ps. sync_settled env dir d' p) \<and> (\<forall>q. \<not> below dir q \<longrightarrow> sync_settled env dir d q \<longrightarrow> sync_settled env dir d' q)"
  using assms(1,2,5)
proof (induction ps arbitrary: k d)
  case (Cons p ps)
  obtain k1 d1 where s: "sync_one env False False dir owner p k d = (Inr k1, d1)"
      and rest: "sync_all env False False dir owner ps k1 d1 = (Inr k', d')"
    using Cons.prems(1) by (auto split: prod.splits sum.splits)
  have f: "ta_failed k1 = ta_failed k" "ta_failed k' = ta_failed k1"
    using sync_one_failed_le [OF s] sync_all_failed_le [OF rest] Cons.prems(2) by auto
  have "sync_ok env dir d d1" using sync_one_ok [OF s tidy] Cons.prems(3) by simp
  then have "\<forall>p \<in> set ps. map_of d1 p \<noteq> None \<and> \<not> below dir p"
    using Cons.prems(3) unfolding sync_ok_def by fastforce
  from Cons.IH [OF rest f(2) this] sync_one_settles [OF s f(1) tidy by_content] Cons.prems(3)
  show ?case by simp
qed simp

lemma sync_all_settled:
  "\<forall>p \<in> set ps. sync_settled env dir d p \<Longrightarrow>
   \<exists>n. sync_all env False dry dir owner ps k d = (Inr (k\<lparr>ta_skipped := n\<rparr>), d)"
proof (induction ps arbitrary: k)
  case (Cons p ps)
  have "\<exists>n. sync_one env False dry dir owner p k d = (Inr (k\<lparr>ta_skipped := n\<rparr>), d)"
    using Cons.prems by (auto simp: sync_one_def sync_settled_def Let_def intro: exI [of _ "ta_skipped k"])
  then obtain n where "sync_one env False dry dir owner p k d = (Inr (k\<lparr>ta_skipped := n\<rparr>), d)" ..
  then show ?case using Cons.IH [of "k\<lparr>ta_skipped := n\<rparr>"] Cons.prems by auto
qed (simp, metis tally.surjective tally.update_convs(2))

text \<open>Steps that keep the content and the time of every entry.\<close>

definition keeps_media :: "disk \<Rightarrow> disk \<Rightarrow> bool" where
  "keeps_media d d' \<longleftrightarrow> (\<forall>q e. map_of d q = Some e \<longrightarrow>
     (\<exists>e'. map_of d' q = Some e' \<and> en_content e' = en_content e \<and> en_mtime e' = en_mtime e))"

lemma keeps_media_refl: "keeps_media d d"
  by (simp add: keeps_media_def)

lemma keeps_media_trans: "keeps_media d d1 \<Longrightarrow> keeps_media d1 d2 \<Longrightarrow> keeps_media d d2"
  unfolding keeps_media_def by metis

lemma chown_all_keeps: "chown_all env uid gid ps d = (r, d') \<Longrightarrow> keeps_media d d'"
proof (induction ps arbitrary: d)
  case (Cons p ps)
  obtain r1 d1 where s: "os_chown env p uid gid d = (r1, d1)" by force
  then have "keeps_media d d1"
    by (auto simp: os_chown_def keeps_media_def owned_by_def split: option.splits)
  then show ?case using Cons s by (auto split: sum.splits intro: keeps_media_trans)
qed (simp add: keeps_media_refl)

lemma chown_unless_keeps: "chown_unless dry env p owner d = (r, d') \<Longrightarrow> keeps_media d d'"
  by (auto simp: chown_unless_def chown_tree_def keeps_media_refl split: if_splits dest: chown_all_keeps)

lemma make_paths_keeps: "make_paths env ps d = (r, d') \<Longrightarrow> keeps_media d d'"
  using make_paths_same [of env ps d r d'] by (auto simp: keeps_media_def)

lemma sync_settled_keeps:
  assumes k: "keeps_media d d'" and s: "sync_settled env dir d p" and p: "map_of d p \<noteq> None"
  shows "sync_settled env dir d' p"
proof (cases "is_media_file p")
  case True
  let ?D = "sync_destination dir p"
  have "map_of d ?D \<noteq> None" using s True by (auto simp: sync_settled_def up_to_date_def)
  then have "content_at d' p = content_at d p" "mtime_at d' p = mtime_at d p" "map_of d' ?D \<noteq> None"
      "content_at d' ?D = content_at d ?D" "mtime_at d' ?D = mtime_at d ?D"
    using k p unfolding keeps_media_def content_at_def mtime_at_def by fastforce+
  then show ?thesis using s by (simp add: sync_settled_def up_to_date_def has_media_stream_def)
qed (simp add: sync_settled_def)

text \<open>Synchronising is idempotent: when a run that was not forced ends without a failure, a run after it
  copies nothing, reports success and leaves every file's content, provided that FFprobe judges a file
  by its content, that neither directory contains files of the other and that temporary files can
  be removed. This holds even when several sources share a destination.\<close>

theorem second_sync_copies_nothing:
  assumes first: "sync_run env False False dl dir owner d = (Inr (0, k), d1)"
    and second: "sync_run env False False dl dir owner d1 = (Inr (code, k2), d2)"
    and by_content: "\<forall>x y c. probe_accepts env x c = probe_accepts env y c"
    and apart: "\<forall>q. below dl q \<longrightarrow> \<not> below dir q" and tidy: "\<forall>q d0. sn_fails env (Unlink q) d0 = None"
  shows "ta_copied k2 = 0 \<and> code = 0 \<and> content_at d2 = content_at d1"
proof -
  let ?k0 = "\<lparr>ta_copied = 0, ta_skipped = 0, ta_failed = 0\<rparr>"
  obtain da db dc r1 r2 r4 where a: "sync_mkdir env dir d = (Inr r1, da)" "chown_unless False env dir owner da = (Inr r2, db)"
      "sync_all env False False dir owner (media_below db dl) ?k0 db = (Inr k, dc)"
      "chown_unless False env dir owner dc = (Inr r4, d1)" "ta_failed k = 0"
    using first by (auto simp: sync_run_def split: sum.splits prod.splits if_splits)
  obtain da' db' dc' r1' r2' r4' where b: "sync_mkdir env dir d1 = (Inr r1', da')"
      "chown_unless False env dir owner da' = (Inr r2', db')"
      "sync_all env False False dir owner (media_below db' dl) ?k0 db' = (Inr k2, dc')"
      "chown_unless False env dir owner dc' = (Inr r4', d2)" "code = (if ta_failed k2 \<noteq> 0 then 1 else 0)"
    using second by (auto simp: sync_run_def split: sum.splits prod.splits if_splits)
  have t: "\<And>q d0. sn_fails env (Unlink q) d0 = None" and p: "\<And>x y c. probe_accepts env x c = probe_accepts env y c"
    using tidy by_content by auto
  have srcs: "\<forall>q \<in> set (media_below db dl). map_of db q \<noteq> None \<and> \<not> below dir q"
  proof
    fix q assume q: "q \<in> set (media_below db dl)"
    then have "below dl q" by (simp add: media_below_def)
    then show "map_of db q \<noteq> None \<and> \<not> below dir q" using media_below_exist [OF q] apart by simp
  qed
  have "\<forall>q \<in> set (media_below db dl). sync_settled env dir dc q"
    using sync_all_settles [OF a(3) _ t p srcs] a(5) by simp
  have ok: "sync_ok env dir db dc" using sync_all_ok [OF a(3) t] srcs by blast
  have kept: "keeps_media dc db'"
    using chown_unless_keeps [OF a(4)] make_paths_keeps [OF b(1) [unfolded sync_mkdir_def]] chown_unless_keeps [OF b(2)]
      keeps_media_trans by blast
  have same: "content_at d1 = content_at dc" "content_at da' = content_at d1" "content_at db' = content_at da'"
    using chown_unless_same [OF a(4)] make_paths_same [OF b(1) [unfolded sync_mkdir_def]] chown_unless_same [OF b(2)]
    by (simp_all add: same_contents_def)
  have "sync_settled env dir db' q" if "q \<in> set (media_below db' dl)" for q
  proof -
    have q: "below dl q" "content_at dc q \<noteq> None" using that same by (auto simp: media_below_def)
    then obtain c where c: "content_at dc q = Some c" by auto
    moreover have "\<not> direct_child dir q" using q(1) apart by (simp add: direct_child_def)
    ultimately have "content_at db q = Some c" using ok unfolding sync_ok_def by metis
    then have "q \<in> set (media_below db dl)"
      using q(1) by (auto simp: media_below_def content_at_def bind_eq_Some_conv dest: map_of_SomeD) (force dest: map_of_SomeD)
    then have "sync_settled env dir dc q" using \<open>\<forall>q \<in> set (media_below db dl). sync_settled env dir dc q\<close> by simp
    moreover have "map_of dc q \<noteq> None" using q(2) by (cases "map_of dc q") (auto simp: content_at_def)
    ultimately show ?thesis using sync_settled_keeps kept by blast
  qed
  then obtain n where "k2 = ?k0\<lparr>ta_skipped := n\<rparr>" "dc' = db'"
    using sync_all_settled [of "media_below db' dl" env dir db' False owner ?k0] b(3) by auto
  then show ?thesis using b(5) same chown_unless_same [OF b(4)] by (simp add: same_contents_def)
qed

section \<open>A sample run\<close>

definition sample_sync :: sync_env where
  "sample_sync = \<lparr>sn_fails = (\<lambda>c d. None), sn_probe = (\<lambda>p c. if c = Some ''GOOD'' then (0, [''audio'']) else (1, [])),
     sn_probe_found = True, sn_temp = (\<lambda>d. ''x''), sn_partial = (\<lambda>d. []), sn_user_id = (\<lambda>s. None),
     sn_primary_group = (\<lambda>n. Some n), sn_group_id = (\<lambda>s. None), sn_me = (0, 0), sn_now = 9\<rparr>"

definition disk_entry :: "string option \<Rightarrow> int \<Rightarrow> entry" where
  "disk_entry c m = \<lparr>en_content = c, en_mtime = m, en_uid = 0, en_gid = 0\<rparr>"

definition sample_disk :: disk where
  "sample_disk = [(Path True [], disk_entry None 0), (Path True [''d''], disk_entry None 0), (Path True [''d'', ''A''], disk_entry None 0),
     (Path True [''d'', ''A'', ''a:b.mp3''], disk_entry (Some ''GOOD'') 3), (Path True [''d'', ''A'', ''c.mp4''], disk_entry (Some ''BAD'') 4)]"

definition sample_args :: "string \<Rightarrow> sync_args" where
  "sample_args owner = \<lparr>sa_force = False, sa_downloads_dir = Path True [''d''], sa_sync_dir = Path True [''s''],
     sa_owner = owner, sa_env_force = None, sa_env_dry_run = None\<rparr>"

lemma sample_sync_run:
  "case sync_main sample_sync (sample_args ''5:6'') sample_disk of (r, d) \<Rightarrow>
     r = Inr (1, Some \<lparr>ta_copied = 1, ta_skipped = 0, ta_failed = 1\<rparr>) \<and>
     content_at d (Path True [''s'', ''A - a-b.mp3'']) = Some ''GOOD''"
  by code_simp

theorem sync_keeps_library_witness:
  "\<exists>d. sync_main sample_sync (sample_args ''5:6'') sample_disk
        = (Inr (1, Some \<lparr>ta_copied = 1, ta_skipped = 0, ta_failed = 1\<rparr>), d)
    \<and> (\<exists>s. content_at sample_disk s = content_at d (Path True [''s'', ''A - a-b.mp3'']))
    \<and> map_of d (Path True [''d'', ''A'', ''c.mp4'']) = Some (disk_entry (Some ''BAD'') 4)"
proof -
  obtain r d where run: "sync_main sample_sync (sample_args ''5:6'') sample_disk = (r, d)" by force
  then have r: "r = Inr (1, Some \<lparr>ta_copied = 1, ta_skipped = 0, ta_failed = 1\<rparr>)"
      "content_at d (Path True [''s'', ''A - a-b.mp3'']) = Some ''GOOD''"
    using sample_sync_run by simp_all
  have tidy: "\<forall>q d0. sn_fails sample_sync (Unlink q) d0 = None" by (simp add: sample_sync_def)
  note safe = sync_keeps_library [OF run tidy]
  have "content_at sample_disk (Path True [''s'', ''A - a-b.mp3'']) = None"
    by (simp add: content_at_def sample_disk_def)
  then have "\<exists>s. content_at sample_disk s = content_at d (Path True [''s'', ''A - a-b.mp3''])"
    using safe r(2) by (metis option.distinct(1))
  moreover have "map_of sample_disk (Path True [''d'', ''A'', ''c.mp4'']) = Some (disk_entry (Some ''BAD'') 4)"
      "\<not> below (Path True [''s'']) (Path True [''d'', ''A'', ''c.mp4''])"
    by (simp_all add: sample_disk_def below_def strict_prefix_def prefix_def)
  then have "map_of d (Path True [''d'', ''A'', ''c.mp4'']) = Some (disk_entry (Some ''BAD'') 4)"
    using conjunct1 [OF safe] by (fastforce simp: sample_args_def)
  ultimately show ?thesis using run r(1) by blast
qed

definition good_disk :: disk where
  "good_disk = filter (\<lambda>x. fst x \<noteq> Path True [''d'', ''A'', ''c.mp4'']) sample_disk"

definition sample_run :: "disk \<Rightarrow> (error + int \<times> tally) \<times> disk" where
  "sample_run d = sync_run sample_sync False False (Path True [''d'']) (Path True [''s'']) (5, 6) d"

lemma sample_runs:
  "case sample_run good_disk of (r, d1) \<Rightarrow> (case sample_run d1 of (r2, d2) \<Rightarrow>
     r = Inr (0, \<lparr>ta_copied = 1, ta_skipped = 0, ta_failed = 0\<rparr>) \<and>
     r2 = Inr (0, \<lparr>ta_copied = 0, ta_skipped = 1, ta_failed = 0\<rparr>))"
  by code_simp

theorem second_sync_copies_nothing_witness:
  "\<exists>d1 d2 k2. sample_run good_disk = (Inr (0, \<lparr>ta_copied = 1, ta_skipped = 0, ta_failed = 0\<rparr>), d1)
    \<and> sample_run d1 = (Inr (0, k2), d2) \<and> ta_copied k2 = 0 \<and> content_at d2 = content_at d1"
proof -
  obtain r d1 where one: "sample_run good_disk = (r, d1)" by force
  obtain r2 d2 where two: "sample_run d1 = (r2, d2)" by force
  have r: "r = Inr (0, \<lparr>ta_copied = 1, ta_skipped = 0, ta_failed = 0\<rparr>)"
      "r2 = Inr (0, \<lparr>ta_copied = 0, ta_skipped = 1, ta_failed = 0\<rparr>)"
    using sample_runs one two by simp_all
  have "\<forall>x y c. probe_accepts sample_sync x c = probe_accepts sample_sync y c"
      "\<forall>q. below (Path True [''d'']) q \<longrightarrow> \<not> below (Path True [''s'']) q"
      "\<forall>q d0. sn_fails sample_sync (Unlink q) d0 = None"
    by (auto simp: probe_accepts_def sample_sync_def below_def strict_prefix_def prefix_def)
  from second_sync_copies_nothing [OF one [unfolded sample_run_def r(1)] two [unfolded sample_run_def r(2)] this]
  show ?thesis using one two r by blast
qed

text \<open>
  Two files whose names differ in a replaced character only share a destination: the newer one takes
  the place of the other, and the run reports two copies and success.
\<close>

lemma same_name_overwritten:
  "case sync_main (sample_sync\<lparr>sn_probe := \<lambda>p c. (0, [''audio''])\<rparr>) (sample_args ''5:6'')
      (good_disk @ [(Path True [''d'', ''A'', ''a?b.mp3''], disk_entry (Some ''OTHER'') 4)]) of (r, d) \<Rightarrow>
     r = Inr (0, Some \<lparr>ta_copied = 2, ta_skipped = 0, ta_failed = 0\<rparr>) \<and>
     children d (Path True [''s'']) = [Path True [''s'', ''A - a-b.mp3'']] \<and>
     content_at d (Path True [''s'', ''A - a-b.mp3'']) = Some ''OTHER''"
  by code_simp

end
