(* ===== verification/ConfigForm.thy ===== *)
theory ConfigForm
  imports Sources
begin

text \<open>
  The configuration form of \<open>src/src/api/services/dashboard_actions.py\<close>: its validation, the
  values it stores for the profile, and the automatic update schedule kept in step with it.
  The database lock around the writes is the argument \<open>acquired\<close>.
\<close>

definition CONFIG_INTEGER_RULES :: "(string \<times> int) list" where
  "CONFIG_INTEGER_RULES =
     [(''processing_workers'', 1), (''auto_update_minutes'', 0), (''auto_delete_content_days'', 0),
      (''audio_quality'', 0), (''ytdlp_video_max_height'', 144), (''max_downloads'', 1)]"

definition CONFIG_ENUM_RULES :: "(string \<times> string list) list" where
  "CONFIG_ENUM_RULES =
     [(''audio_format'', [''mp3'', ''m4a'', ''opus'']), (''video_format'', [''mp4'', ''mkv'']),
      (''video_codec'', [''h264'', ''hevc'', ''copy''])]"

definition config_prefix :: string where
  "config_prefix = ''config__''"

definition invalid_integer :: "form \<Rightarrow> string \<times> int \<Rightarrow> bool" where
  "invalid_integer post rule =
     (case post_get post (config_prefix @ fst rule) of
        None \<Rightarrow> False
      | Some raw \<Rightarrow> (case py_int (py_strip raw) of None \<Rightarrow> True | Some n \<Rightarrow> n < snd rule))"

definition invalid_choice :: "form \<Rightarrow> string \<times> string list \<Rightarrow> bool" where
  "invalid_choice post rule =
     (case post_get post (config_prefix @ fst rule) of
        None \<Rightarrow> False
      | Some raw \<Rightarrow> py_lower (py_strip raw) \<notin> set (snd rule))"

definition invalid_config_keys :: "form \<Rightarrow> string list" where
  "invalid_config_keys post =
     map fst (filter (invalid_integer post) CONFIG_INTEGER_RULES)
     @ map fst (filter (invalid_choice post) CONFIG_ENUM_RULES)"

definition upsert_config :: "time \<Rightarrow> string \<Rightarrow> string \<Rightarrow> string \<Rightarrow> database \<Rightarrow> database" where
  "upsert_config now profile key v d =
     (let P = (\<lambda>r. pc_profile_id r = profile \<and> pc_key r = key) in
      if exists_row P (profile_config d)
      then d\<lparr>profile_config := update_where P (\<lambda>r. r\<lparr>pc_value := v, pc_updated_at := now\<rparr>) (profile_config d)\<rparr>
      else d\<lparr>profile_config := profile_config d
             @ [\<lparr>pc_profile_id = profile, pc_key = key, pc_value = v, pc_updated_at = now\<rparr>]\<rparr>)"

fun store_items :: "time \<Rightarrow> string \<Rightarrow> (string \<times> string) list \<Rightarrow> database \<Rightarrow> database" where
  "store_items now profile [] d = d"
| "store_items now profile ((k, v) # items) d =
     store_items now profile items
       (if prefix config_prefix k then upsert_config now profile (drop (length config_prefix) k) v d else d)"

definition upsert_cookie :: "time \<Rightarrow> string \<Rightarrow> string \<Rightarrow> database \<Rightarrow> database" where
  "upsert_cookie now profile text d =
     (let P = (\<lambda>r. pds_profile_id r = profile) in
      if exists_row P (download_settings d)
      then d\<lparr>download_settings := update_where P
             (\<lambda>r. r\<lparr>pds_cookie_text := text, pds_cookie_updated_at := Some now, pds_updated_at := now\<rparr>)
             (download_settings d)\<rparr>
      else d\<lparr>download_settings := download_settings d
             @ [\<lparr>pds_profile_id = profile, pds_cookie_text = text, pds_cookie_updated_at = Some now,
                 pds_updated_at = now\<rparr>]\<rparr>)"

section \<open>The update schedule\<close>

definition update_template :: string where
  "update_template = ''scheduled:update_downloads:${profile_id}:${due_hour}''"

definition scheduler_payload :: pyval where
  "scheduler_payload = PDict [(''source'', PStr ''scheduler'')]"

definition update_schedule_of :: "string \<Rightarrow> database \<Rightarrow> scheduled_job option" where
  "update_schedule_of profile d =
     first_row (\<lambda>s. sch_profile_id s = profile \<and> sch_job_type s = ''update_downloads'') (scheduled_jobs d)"

definition sync_update_downloads_schedule ::
    "time \<Rightarrow> string \<Rightarrow> string option \<Rightarrow> database \<Rightarrow> database" where
  "sync_update_downloads_schedule now profile raw d =
     (case py_int (py_strip (text_of raw)) of
        None \<Rightarrow> d
      | Some minutes \<Rightarrow>
          if minutes \<le> 0 then
            (case update_schedule_of profile d of
               Some s \<Rightarrow> if sch_enabled s
                 then update_schedule (sch_id s) (\<lambda>r. r\<lparr>sch_enabled := False, sch_updated_at := now\<rparr>) d
                 else d
             | None \<Rightarrow> d)
          else
            let interval = max 60 (minutes * 60); next_run = now + seconds interval in
            (case update_schedule_of profile d of
               None \<Rightarrow> d\<lparr>scheduled_jobs := scheduled_jobs d @
                 [\<lparr>sch_id = next_schedule_id d, sch_profile_id = profile,
                   sch_job_type = ''update_downloads'', sch_enabled = True,
                   sch_interval_seconds = interval, sch_payload = scheduler_payload,
                   sch_template = update_template, sch_next_run_at = next_run, sch_last_run_at = None,
                   sch_created_at = now, sch_updated_at = now\<rparr>],
                 next_schedule_id := next_schedule_id d + 1\<rparr>
             | Some s \<Rightarrow> update_schedule (sch_id s)
                 (\<lambda>r. r\<lparr>sch_enabled := True, sch_interval_seconds := interval,
                        sch_payload := scheduler_payload, sch_template := update_template,
                        sch_next_run_at := (if sch_next_run_at s \<le> now \<or> sch_interval_seconds s \<noteq> interval
                                            then next_run else sch_next_run_at r),
                        sch_updated_at := now\<rparr>) d))"

definition save_config ::
    "time \<Rightarrow> bool \<Rightarrow> string \<Rightarrow> form \<Rightarrow> database \<Rightarrow> unit reply \<times> database" where
  "save_config now acquired profile post d =
     (if invalid_config_keys post \<noteq> []
      then (Refused (''Invalid settings: '' @ join_with '', '' (map fst (sort_keys
              (map (\<lambda>k. (k, ())) (remdups (invalid_config_keys post)))))), d)
      else if \<not> acquired then (Refused ''Settings update busy'', d)
      else
        let d1 = store_items now profile (post_items post) d;
            d2 = (case post_get post ''youtube_cookie_text'' of
                    None \<Rightarrow> d1 | Some t \<Rightarrow> upsert_cookie now profile t d1)
        in (Done (),
            case post_get post ''config__auto_update_minutes'' of
              None \<Rightarrow> d2
            | Some m \<Rightarrow> sync_update_downloads_schedule now profile (Some m) d2))"

section \<open>Facts\<close>

lemma profile_value_upsert:
  "profile_value (upsert_config now profile key v d) p k =
     (if p = profile \<and> k = key then Some v else profile_value d p k)"
proof -
  have up: "first_row (\<lambda>r. pc_profile_id r = p \<and> pc_key r = k)
      (update_where (\<lambda>r. pc_profile_id r = profile \<and> pc_key r = key) (\<lambda>r. r\<lparr>pc_value := v, pc_updated_at := now\<rparr>) t)
    = (if p = profile \<and> k = key
       then map_option (\<lambda>r. r\<lparr>pc_value := v, pc_updated_at := now\<rparr>)
              (first_row (\<lambda>r. pc_profile_id r = p \<and> pc_key r = k) t)
       else first_row (\<lambda>r. pc_profile_id r = p \<and> pc_key r = k) t)" for t
    by (induction t) auto
  have app: "first_row P (t @ [x]) = (case first_row P t of None \<Rightarrow> if P x then Some x else None | Some y \<Rightarrow> Some y)"
    for P t and x :: profile_config_value
    by (induction t) auto
  have ex: "exists_row (\<lambda>r. pc_profile_id r = profile \<and> pc_key r = key) t
      \<longleftrightarrow> first_row (\<lambda>r. pc_profile_id r = profile \<and> pc_key r = key) t \<noteq> None" for t
    by (auto simp: exists_row_iff first_row_None)
  show ?thesis
  proof (cases "p = profile \<and> k = key")
    case True
    then show ?thesis
      using up [of "profile_config d"]
      by (auto simp: upsert_config_def Let_def profile_value_def app ex split: option.split)
  next
    case False
    then show ?thesis
      using up [of "profile_config d"]
      by (auto simp: upsert_config_def Let_def profile_value_def app split: option.split)
  qed
qed

lemma store_items_value:
  "profile_value (store_items now profile items d) p k =
     (if p = profile then (case map_of (rev items) (config_prefix @ k) of
                             Some v \<Rightarrow> Some v | None \<Rightarrow> profile_value d p k)
      else profile_value d p k)"
proof (induction items arbitrary: d)
  case (Cons kv items)
  obtain key v where kv: "kv = (key, v)" by (cases kv)
  have "key = config_prefix @ k \<longleftrightarrow> prefix config_prefix key \<and> drop (length config_prefix) key = k"
    by (auto simp: prefix_def)
  then show ?case
    using Cons by (auto simp: kv profile_value_upsert map_add_def split: option.split)
qed simp

lemma map_of_post_items: "map_of (post_items post) k = post_get post k"
proof -
  have "map_of (foldl (\<lambda>acc (k, v). AList.update k v acc) acc post) k
      = (case map_of (rev post) k of Some v \<Rightarrow> Some v | None \<Rightarrow> map_of acc k)" for acc
    by (induction post arbitrary: acc) (auto simp: map_add_def split: option.splits)
  then show ?thesis by (simp add: post_items_def post_get_def split: option.split)
qed

lemma distinct_post_items: "distinct (map fst (post_items post))"
proof -
  have "distinct (map fst acc) \<Longrightarrow> distinct (map fst (foldl (\<lambda>acc (k, v). AList.update k v acc) acc post))" for acc
    by (induction post arbitrary: acc) (auto simp: distinct_update)
  then show ?thesis by (simp add: post_items_def)
qed

lemma map_of_rev_distinct: "distinct (map fst d) \<Longrightarrow> map_of (rev d) = map_of d"
  by (metis map_of_eqI map_of_inject_set distinct_rev rev_map set_map set_rev)

lemma save_config_value:
  assumes "save_config now acquired profile post d = (Done (), d')"
  shows "profile_value d' p k =
    (if p = profile then (case post_get post (config_prefix @ k) of Some v \<Rightarrow> Some v | None \<Rightarrow> profile_value d p k)
     else profile_value d p k)"
proof -
  have cookie: "profile_value (upsert_cookie now profile t e) p k = profile_value e p k" for t e
    by (simp add: upsert_cookie_def Let_def profile_value_def)
  have sync: "profile_value (sync_update_downloads_schedule now profile m e) p k = profile_value e p k" for m e
    by (auto simp: sync_update_downloads_schedule_def Let_def profile_value_def update_schedule_def
        split: option.split)
  have "profile_value d' p k = profile_value (store_items now profile (post_items post) d) p k"
    using assms by (auto simp: save_config_def Let_def cookie sync split: if_splits option.splits)
  then show ?thesis
    using map_of_rev_distinct [OF distinct_post_items, of post]
    by (simp add: store_items_value map_of_post_items)
qed

section \<open>Properties\<close>

text \<open>An accepted configuration form stores exactly what was posted for the profile, keeps its
  other values and all values of other profiles, and every stored number obeys its minimum; a
  refused form writes nothing.\<close>

theorem save_config_stores_valid:
  assumes "save_config now acquired profile post d = (r, d')"
  shows "(r \<noteq> Done () \<longrightarrow> d' = d)
    \<and> (r = Done () \<longrightarrow>
        (\<forall>p k. profile_value d' p k =
           (if p = profile then (case post_get post (config_prefix @ k) of
                                   Some v \<Rightarrow> Some v | None \<Rightarrow> profile_value d p k)
            else profile_value d p k))
        \<and> (\<forall>(k, minimum) \<in> set CONFIG_INTEGER_RULES. post_get post (config_prefix @ k) \<noteq> None \<longrightarrow>
             (\<exists>v n. profile_value d' profile k = Some v \<and> py_int (py_strip v) = Some n \<and> minimum \<le> n)))"
proof -
  have minimum: "\<exists>v n. profile_value d' profile k = Some v \<and> py_int (py_strip v) = Some n \<and> minimum \<le> n"
    if r: "r = Done ()" and rule: "(k, minimum) \<in> set CONFIG_INTEGER_RULES"
      and posted: "post_get post (config_prefix @ k) \<noteq> None" for k minimum
  proof -
    obtain v where v: "post_get post (config_prefix @ k) = Some v" using posted by auto
    have "invalid_config_keys post = []"
      using assms r by (auto simp: save_config_def split: if_splits)
    then have "\<not> invalid_integer post (k, minimum)"
      using rule by (auto simp: invalid_config_keys_def filter_empty_conv)
    then obtain n where "py_int (py_strip v) = Some n" "minimum \<le> n"
      using v by (auto simp: invalid_integer_def split: option.splits)
    moreover have "profile_value d' profile k = Some v"
      using save_config_value [of now acquired profile post d d' profile k] assms r v by simp
    ultimately show ?thesis by blast
  qed
  have unchanged: "r \<noteq> Done () \<Longrightarrow> d' = d"
    using assms by (auto simp: save_config_def Let_def split: if_splits)
  have stored: "r = Done () \<Longrightarrow> \<forall>p k. profile_value d' p k =
      (if p = profile then (case post_get post (config_prefix @ k) of
                              Some v \<Rightarrow> Some v | None \<Rightarrow> profile_value d p k)
       else profile_value d p k)"
    using save_config_value assms by blast
  show ?thesis
  proof (intro conjI impI)
    assume "r \<noteq> Done ()" then show "d' = d" by (rule unchanged)
  next
    assume "r = Done ()" then show "\<forall>p k. profile_value d' p k =
      (if p = profile then (case post_get post (config_prefix @ k) of
                              Some v \<Rightarrow> Some v | None \<Rightarrow> profile_value d p k)
       else profile_value d p k)" by (rule stored)
  next
    assume "r = Done ()"
    then show "\<forall>(k, minimum) \<in> set CONFIG_INTEGER_RULES. post_get post (config_prefix @ k) \<noteq> None \<longrightarrow>
        (\<exists>v n. profile_value d' profile k = Some v \<and> py_int (py_strip v) = Some n \<and> minimum \<le> n)"
      using minimum by blast
  qed
qed

theorem save_config_stores_valid_witness:
  "profile_value (snd (save_config 5 True ''kids'' [(''config__max_downloads'', ''7'')] empty_database))
     ''kids'' ''max_downloads'' = Some ''7''"
proof -
  have v: "invalid_config_keys [(''config__max_downloads'', ''7'')] = []" by code_simp
  obtain d' where r: "save_config 5 True ''kids'' [(''config__max_downloads'', ''7'')] empty_database
      = (Done (), d')"
    by (simp add: save_config_def Let_def v)
  have "post_get [(''config__max_downloads'', ''7'')] (config_prefix @ ''max_downloads'') = Some ''7''"
    by (simp add: post_get_def config_prefix_def)
  then show ?thesis
    using save_config_stores_valid [OF r] r by simp
qed

text \<open>Saving the automatic update interval leaves the profile's schedule enabled at that interval,
  never below a minute, with its next run in the future; an interval of zero or less leaves it
  disabled; other profiles' schedules are not touched.\<close>

theorem sync_schedule_follows_setting:
  assumes "distinct (map sch_id (scheduled_jobs d))"
    and "py_int (py_strip raw) = Some minutes"
    and "sync_update_downloads_schedule now profile (Some raw) d = d'"
  shows "(0 < minutes \<longrightarrow> (\<exists>s. update_schedule_of profile d' = Some s \<and> sch_enabled s
        \<and> sch_interval_seconds s = max 60 (minutes * 60) \<and> now < sch_next_run_at s))
    \<and> (minutes \<le> 0 \<longrightarrow> (\<forall>s. update_schedule_of profile d' = Some s \<longrightarrow> \<not> sch_enabled s))
    \<and> filter (\<lambda>s. sch_profile_id s \<noteq> profile) (scheduled_jobs d')
      = filter (\<lambda>s. sch_profile_id s \<noteq> profile) (scheduled_jobs d)"
proof -
  let ?P = "\<lambda>s. sch_profile_id s = profile \<and> sch_job_type s = ''update_downloads''"
  have upd: "first_row ?P (update_where (\<lambda>r. sch_id r = sch_id s) f (scheduled_jobs d)) = Some (f s)
      \<and> filter (\<lambda>s. sch_profile_id s \<noteq> profile) (update_where (\<lambda>r. sch_id r = sch_id s) f (scheduled_jobs d))
        = filter (\<lambda>s. sch_profile_id s \<noteq> profile) (scheduled_jobs d)"
    if s: "first_row ?P (scheduled_jobs d) = Some s"
      and f: "\<And>r. ?P (f r) = ?P r" "\<And>r. sch_profile_id (f r) = sch_profile_id r" for s f
  proof -
    have mem: "s \<in> set (scheduled_jobs d)" "sch_profile_id s = profile" using s by (auto dest!: first_row_Some)
    have only: "r \<in> set (scheduled_jobs d) \<Longrightarrow> sch_id r = sch_id s \<Longrightarrow> r = s" for r
      using assms(1) mem by (auto simp: distinct_map inj_on_def)
    have "first_row ?P (update_where (\<lambda>r. sch_id r = sch_id s) f t)
        = map_option (\<lambda>r. if sch_id r = sch_id s then f r else r) (first_row ?P t)" for t
      using f(1) by (induction t) auto
    then have "first_row ?P (update_where (\<lambda>r. sch_id r = sch_id s) f (scheduled_jobs d)) = Some (f s)"
      using s by simp
    moreover have "filter (\<lambda>s. sch_profile_id s \<noteq> profile) (update_where (\<lambda>r. sch_id r = sch_id s) f (scheduled_jobs d))
        = filter (\<lambda>s. sch_profile_id s \<noteq> profile) (scheduled_jobs d)"
      using only mem f(2) by (intro filter_update_where_frame) auto
    ultimately show ?thesis by blast
  qed
  have app: "first_row ?P (t @ [x]) = (case first_row ?P t of None \<Rightarrow> if ?P x then Some x else None | Some y \<Rightarrow> Some y)"
    for t x by (induction t) auto
  have pos: "0 < minutes \<Longrightarrow> now < now + seconds (max 60 (minutes * 60))" by simp
  show ?thesis
  proof (cases "update_schedule_of profile d")
    case None
    then show ?thesis
      using assms(2,3) pos
      by (auto simp: sync_update_downloads_schedule_def update_schedule_of_def Let_def app)
  next
    case (Some s)
    note u = upd [OF Some [unfolded update_schedule_of_def]]
    show ?thesis
    proof (cases "minutes \<le> 0")
      case True
      then show ?thesis
        using assms(2,3) Some u [of "\<lambda>r. r\<lparr>sch_enabled := False, sch_updated_at := now\<rparr>"]
        by (auto simp: sync_update_downloads_schedule_def update_schedule_of_def split: if_splits)
    next
      case False
      define f :: "scheduled_job \<Rightarrow> scheduled_job" where
        "f = (\<lambda>r. r\<lparr>sch_enabled := True, sch_interval_seconds := minutes * 60,
            sch_payload := scheduler_payload, sch_template := update_template,
            sch_next_run_at := (if sch_next_run_at s \<le> now
                \<or> sch_interval_seconds s \<noteq> minutes * 60
              then now + seconds (minutes * 60) else sch_next_run_at r),
            sch_updated_at := now\<rparr>)"
      have mx: "max 60 (minutes * 60) = minutes * 60" using False by simp
      have d': "scheduled_jobs d' = update_where (\<lambda>r. sch_id r = sch_id s) f (scheduled_jobs d)"
        using assms(2,3) Some False
        by (auto simp: sync_update_downloads_schedule_def Let_def mx f_def update_schedule_def)
      have "sch_enabled (f s)" "sch_interval_seconds (f s) = max 60 (minutes * 60)"
        "now < sch_next_run_at (f s)"
        using pos False by (auto simp: f_def mx)
      then show ?thesis
        using u [of f] d' False by (auto simp: update_schedule_of_def f_def)
    qed
  qed
qed

theorem sync_schedule_follows_setting_witness:
  "\<exists>s. update_schedule_of ''default''
      (sync_update_downloads_schedule 9 ''default'' (Some ''20'') (db schedule_world)) = Some s
     \<and> sch_interval_seconds s = 1200 \<and> 9 < sch_next_run_at s"
proof -
  have "py_int (py_strip ''20'') = Some 20" by code_simp
  from sync_schedule_follows_setting [OF schedule_world_wf(2) this refl, of "''default''" 9]
  show ?thesis by auto
qed

end
