(* ===== verification/Playlists.thy ===== *)
theory Playlists
  imports Uploads ConfigForm "HOL-Library.List_Lexorder" "HOL-Library.Char_ord"
begin

text \<open>
  The JSON handlers of \<open>src/src/api/views.py\<close>: playlists, the player, the library and job lists,
  search, history, playback reports and the download request. \<open>loads\<close> is the JSON parser; a
  request carries its content type, its body and the fields of its form. Playlists are listed by
  name in code point order, the database's collation may differ.
\<close>

section \<open>Request data\<close>

record api_request =
  rq_content_type :: string
  rq_body :: string
  rq_post :: form
  rq_get :: form

definition json_body :: "(string \<Rightarrow> pyval option) \<Rightarrow> api_request \<Rightarrow> pydict" where
  "json_body loads rq =
     (if \<not> prefix ''application/json'' (py_lower (rq_content_type rq)) then []
      else if rq_body rq = [] then []
      else (case loads (rq_body rq) of Some (PDict d) \<Rightarrow> d | _ \<Rightarrow> []))"

text \<open>\<open>_json_body(request) or request.POST\<close>, read with \<open>get\<close>: a form field has its last value.\<close>

definition request_data :: "(string \<Rightarrow> pyval option) \<Rightarrow> api_request \<Rightarrow> pydict" where
  "request_data loads rq =
     (if json_body loads rq \<noteq> [] then json_body loads rq
      else map (\<lambda>(k, v). (k, PStr v)) (post_items (rq_post rq)))"

text \<open>The same through \<open>dict(\<dots>)\<close>: each field of a form then has the list of its values.\<close>

definition request_dict :: "(string \<Rightarrow> pyval option) \<Rightarrow> api_request \<Rightarrow> pydict" where
  "request_dict loads rq =
     (if json_body loads rq \<noteq> [] then json_body loads rq
      else map (\<lambda>(k, v). (k, PList (map PStr (post_list (rq_post rq) k)))) (post_items (rq_post rq)))"

definition find_download :: "pyval \<Rightarrow> string \<Rightarrow> database \<Rightarrow> error + download option" where
  "find_download v profile d =
     (if v = PNone then Inr None
      else (case py_int_val v of
              None \<Rightarrow> Inl (int_error v)
            | Some n \<Rightarrow> Inr (own_download profile n d)))"

section \<open>Playlists\<close>

record playlist_summary =
  pls_id :: int
  pls_name :: string
  pls_count :: nat
  pls_created :: string
  pls_updated :: string

definition playlist_summary_of :: "database \<Rightarrow> playlist \<Rightarrow> playlist_summary" where
  "playlist_summary_of d p =
     \<lparr>pls_id = pl_id p, pls_name = pl_name p,
      pls_count = count_rows (\<lambda>i. pi_playlist i = pl_id p) (playlist_items d),
      pls_created = iso_format (pl_created_at p), pls_updated = iso_format (pl_updated_at p)\<rparr>"

definition list_playlists :: "string \<Rightarrow> database \<Rightarrow> playlist_summary list" where
  "list_playlists profile d =
     map (playlist_summary_of d)
       (sort_key (\<lambda>p. (pl_name p, pl_id p)) (filter (\<lambda>p. pl_profile_id p = profile) (playlists d)))"

definition playlist_create ::
    "(string \<Rightarrow> pyval option) \<Rightarrow> time \<Rightarrow> string \<Rightarrow> api_request \<Rightarrow> database \<Rightarrow>
     playlist_summary reply \<times> database" where
  "playlist_create loads now profile rq d =
     (let name = py_strip (str_or_empty (dget (request_data loads rq) ''name'')) in
      if name = [] then (Refused ''Playlist name is required'', d)
      else if length name > 255 then (Refused ''Playlist name is too long'', d)
      else if exists_row (\<lambda>p. pl_profile_id p = profile \<and> pl_name p = name) (playlists d)
      then (Refused ''A playlist with that name already exists'', d)
      else let p = \<lparr>pl_id = next_playlist_id d, pl_profile_id = profile, pl_name = name,
                    pl_created_at = now, pl_updated_at = now\<rparr>;
               d1 = d\<lparr>playlists := playlists d @ [p], next_playlist_id := next_playlist_id d + 1\<rparr>
           in (Done (playlist_summary_of d1 p), d1))"

definition own_playlist :: "string \<Rightarrow> int \<Rightarrow> database \<Rightarrow> playlist option" where
  "own_playlist profile n d = first_row (\<lambda>p. pl_id p = n \<and> pl_profile_id p = profile) (playlists d)"

definition items_of :: "int \<Rightarrow> database \<Rightarrow> playlist_item list" where
  "items_of n d = sort_key (\<lambda>i. (pi_position i, pi_id i)) (filter (\<lambda>i. pi_playlist i = n) (playlist_items d))"

definition item_downloads :: "int \<Rightarrow> database \<Rightarrow> (playlist_item \<times> download) list" where
  "item_downloads n d =
     List.map_filter (\<lambda>i. map_option (Pair i) (row_at dl_id (pi_download i) (downloads d))) (items_of n d)"

definition playlist_detail ::
    "string \<Rightarrow> int \<Rightarrow> database \<Rightarrow> (playlist_summary \<times> (int \<times> episode_summary) list) reply" where
  "playlist_detail profile n d =
     (case own_playlist profile n d of
        None \<Rightarrow> NotFound
      | Some p \<Rightarrow> Done (playlist_summary_of d p,
          map (\<lambda>(i, r). (pi_position i, episode_to_summary r)) (item_downloads n d)))"

definition touch_playlist :: "time \<Rightarrow> int \<Rightarrow> database \<Rightarrow> database" where
  "touch_playlist now n d =
     d\<lparr>playlists := update_where (\<lambda>p. pl_id p = n) (\<lambda>p. p\<lparr>pl_updated_at := now\<rparr>) (playlists d)\<rparr>"

text \<open>The ids of a request: a text counts as one id, values that are no integers are skipped.\<close>

definition raw_id_list :: "pydict \<Rightarrow> pyval list option" where
  "raw_id_list data =
     (case py_or (py_or (dget data ''download_ids'') (dget data ''ids'')) (PList []) of
        PStr s \<Rightarrow> Some [PStr s]
      | PList xs \<Rightarrow> Some xs
      | _ \<Rightarrow> None)"

definition last_position :: "int \<Rightarrow> database \<Rightarrow> int" where
  "last_position n d =
     (case max_position (map pi_position (filter (\<lambda>i. pi_playlist i = n) (playlist_items d))) of
        None \<Rightarrow> -1
      | Some p \<Rightarrow> if p = 0 then -1 else p)"

text \<open>A row for an episode that is already in the playlist violates the unique constraint.\<close>

definition insert_item :: "time \<Rightarrow> int \<Rightarrow> int \<Rightarrow> int \<Rightarrow> database \<Rightarrow> error + database" where
  "insert_item now n m pos d =
     (if exists_row (\<lambda>i. pi_playlist i = n \<and> pi_download i = m) (playlist_items d)
      then Inl (DatabaseError ''uniq_playlist_download'')
      else Inr (d\<lparr>playlist_items := playlist_items d
               @ [\<lparr>pi_id = next_playlist_item_id d, pi_playlist = n, pi_download = m, pi_position = pos,
                   pi_added_at = now\<rparr>],
             next_playlist_item_id := next_playlist_item_id d + 1\<rparr>))"

fun insert_items ::
    "time \<Rightarrow> int \<Rightarrow> int list \<Rightarrow> int \<Rightarrow> int list \<Rightarrow> database \<Rightarrow> (error + int) \<times> database" where
  "insert_items now n present pos [] d = (Inr 0, d)"
| "insert_items now n present pos (m # ms) d =
     (if m \<in> set present then insert_items now n present pos ms d
      else (case insert_item now n m (pos + 1) d of
              Inl e \<Rightarrow> (Inl e, d)
            | Inr d1 \<Rightarrow>
                (case insert_items now n present (pos + 1) ms d1 of
                   (Inl e, d2) \<Rightarrow> (Inl e, d2)
                 | (Inr k, d2) \<Rightarrow> (Inr (k + 1), d2))))"

definition playlist_add_items ::
    "(string \<Rightarrow> pyval option) \<Rightarrow> time \<Rightarrow> string \<Rightarrow> int \<Rightarrow> api_request \<Rightarrow> database \<Rightarrow>
     (int \<times> playlist_summary) reply \<times> database" where
  "playlist_add_items loads now profile n rq d =
     (case own_playlist profile n d of
        None \<Rightarrow> (NotFound, d)
      | Some p \<Rightarrow>
          (case raw_id_list (request_data loads rq) of
             None \<Rightarrow> (Refused ''download_ids must be a list'', d)
           | Some raws \<Rightarrow>
               let ids = List.map_filter py_int_val raws;
                   wanted = filter (\<lambda>m. own_download (pl_profile_id p) m d \<noteq> None) ids;
                   present = map pi_download (filter (\<lambda>i. pi_playlist i = n \<and> pi_download i \<in> set ids)
                               (playlist_items d))
               in (case insert_items now n present (last_position n d) wanted d of
                     (Inl e, d1) \<Rightarrow> (Raised e, d1)
                   | (Inr k, d1) \<Rightarrow>
                       let d2 = touch_playlist now n d1
                       in (Done (k, playlist_summary_of d2 (p\<lparr>pl_updated_at := now\<rparr>)), d2))))"

definition playlist_remove_item ::
    "time \<Rightarrow> string \<Rightarrow> int \<Rightarrow> int \<Rightarrow> database \<Rightarrow> bool reply \<times> database" where
  "playlist_remove_item now profile n m d =
     (case own_playlist profile n d of
        None \<Rightarrow> (NotFound, d)
      | Some p \<Rightarrow>
          let P = (\<lambda>i. pi_playlist i = n \<and> pi_download i = m);
              removed = exists_row P (playlist_items d);
              d1 = d\<lparr>playlist_items := delete_where P (playlist_items d)\<rparr>
          in (Done removed, if removed then touch_playlist now n d1 else d1))"

definition playlist_delete :: "string \<Rightarrow> int \<Rightarrow> database \<Rightarrow> unit reply \<times> database" where
  "playlist_delete profile n d =
     (case own_playlist profile n d of
        None \<Rightarrow> (NotFound, d)
      | Some p \<Rightarrow>
          (Done (), d\<lparr>playlists := delete_where (\<lambda>q. pl_id q = n) (playlists d),
                      playlist_items := delete_where (\<lambda>i. pi_playlist i = n) (playlist_items d)\<rparr>))"

section \<open>Lists\<close>

definition pagination_params :: "form \<Rightarrow> int \<times> int" where
  "pagination_params get =
     (let page0 = or_else (post_text get ''page'') ''1''; size0 = or_else (post_text get ''page_size'') ''100'' in
      ((case py_int page0 of None \<Rightarrow> 1 | Some n \<Rightarrow> max 1 n),
       (case py_int size0 of None \<Rightarrow> 100 | Some n \<Rightarrow> max 1 (min 100 n))))"

record job_summary =
  js_id :: int
  js_type :: string
  js_status :: string
  js_error :: string
  js_created :: string
  js_updated :: string

definition job_to_dict :: "job \<Rightarrow> job_summary" where
  "job_to_dict j =
     \<lparr>js_id = job_id j, js_type = job_kind j, js_status = job_status_value (job_state j),
      js_error = text_of (job_error_message j), js_created = iso_format (job_created_at j),
      js_updated = iso_format (job_updated_at j)\<rparr>"

record pagination =
  pg_page :: int
  pg_page_size :: int
  pg_total :: int
  pg_total_pages :: int

definition frontend_jobs :: "string \<Rightarrow> form \<Rightarrow> database \<Rightarrow> job_summary list \<times> pagination" where
  "frontend_jobs profile get d =
     (let (page0, sz) = pagination_params get;
          rows = sort_key (\<lambda>j. (- job_created_at j, - job_id j)) (filter (\<lambda>j. job_profile_id j = profile) (jobs d));
          tot = int (length rows);
          page = min page0 (page_count tot sz)
      in (map job_to_dict (page_slice page sz rows),
          \<lparr>pg_page = page, pg_page_size = sz, pg_total = tot, pg_total_pages = page_count tot sz\<rparr>))"

record library_reply =
  lr_downloads :: "(episode_summary \<times> display) list"
  lr_jobs :: "job_summary list"
  lr_profile_name :: string
  lr_initial :: string
  lr_profanity_checked :: bool
  lr_filter_mode :: string
  lr_counts :: filter_counts
  lr_listened :: pyfloat
  lr_pagination :: pagination

definition frontend_library :: "string \<Rightarrow> string \<Rightarrow> form \<Rightarrow> database \<Rightarrow> library_reply" where
  "frontend_library profile username get d =
     (let mode = normalize_library_filter (opt_text (post_get get ''filter''));
          (page, sz) = pagination_params get;
          (rows, tot) = paginated_downloads d profile (PStr mode) (post_text get ''search'') page sz;
          name = or_else username profile
      in \<lparr>lr_downloads = map (\<lambda>r. (episode_to_summary r, decorate_download r)) rows,
          lr_jobs = map job_to_dict (recent_jobs d profile), lr_profile_name = name,
          lr_initial = py_upper (or_else (take 1 name) ''U''),
          lr_profanity_checked =
            (py_lower (py_strip (text_of (map_of (profile_settings d profile)
               ''manual_upload_delete_explicit_content''))) \<in> set true_words),
          lr_filter_mode = mode, lr_counts = library_filter_counts d profile,
          lr_listened = listened_seconds d profile,
          lr_pagination = \<lparr>pg_page = page, pg_page_size = sz, pg_total = tot,
                           pg_total_pages = page_count tot sz\<rparr>\<rparr>)"

definition api_search :: "string \<Rightarrow> form \<Rightarrow> database \<Rightarrow> episode_summary list" where
  "api_search profile get d =
     (let query = py_strip (post_text get ''q'') in
      if length query < 2 then []
      else take 50 (map episode_to_summary
        (filter (\<lambda>r. contains_sub (py_lower query) (py_lower (text_of (dl_title r)))
                  \<or> contains_sub (py_lower query) (py_lower (text_of (dl_description r))))
          (list_downloads d profile (PStr ''unplayed'') True))))"

definition api_podcasts :: "string \<Rightarrow> database \<Rightarrow> (int \<times> string \<times> string \<times> bool) list" where
  "api_podcasts profile d =
     map (\<lambda>s. (src_id s, src_name s, src_url s, src_enabled s))
       (sort_key (\<lambda>s. (src_position s, src_id s))
         (filter (\<lambda>s. src_profile_id s = profile \<and> src_source_type s = ''podcast'') (source_configs d)))"

definition episode_detail :: "string \<Rightarrow> int \<Rightarrow> database \<Rightarrow> episode_summary reply" where
  "episode_detail profile n d =
     (case own_download profile n d of None \<Rightarrow> NotFound | Some r \<Rightarrow> Done (episode_to_summary r))"

definition api_library :: "string \<Rightarrow> form \<Rightarrow> database \<Rightarrow> episode_summary list" where
  "api_library profile get d =
     map episode_to_summary (list_downloads d profile (opt_text (post_get get ''filter'')) False)"

definition api_history :: "string \<Rightarrow> database \<Rightarrow> episode_summary list" where
  "api_history profile d =
     map episode_to_summary (filter (\<lambda>r. dl_played r \<or> pf_lt pf_zero (dl_last_position r))
       (list_downloads d profile (PStr ''unplayed'') True))"

section \<open>The player\<close>

record player_reply =
  py_item :: episode_summary
  py_has_subtitles :: bool
  py_seek :: pyfloat
  py_kind :: string
  py_playlist :: "int option"
  py_items :: "(int \<times> string) list"

definition has_subtitle_file ::
    "(path \<Rightarrow> path) \<Rightarrow> file_system \<Rightarrow> database \<Rightarrow> download \<Rightarrow> error + bool" where
  "has_subtitle_file resolve fs d r =
     (case resolve_subtitle_path resolve fs d r of
        Inr p \<Rightarrow> Inr (p \<noteq> None)
      | Inl (Http404 _) \<Rightarrow> Inr False
      | Inl e \<Rightarrow> Inl e)"

definition chosen_playlist :: "string \<Rightarrow> form \<Rightarrow> database \<Rightarrow> playlist option" where
  "chosen_playlist profile get d =
     (case py_int (post_text get ''playlist'') of None \<Rightarrow> None | Some n \<Rightarrow> own_playlist profile n d)"

definition frontend_player ::
    "(path \<Rightarrow> path) \<Rightarrow> file_system \<Rightarrow> string \<Rightarrow> int \<Rightarrow> form \<Rightarrow> database \<Rightarrow> player_reply reply" where
  "frontend_player resolve fs profile n get d =
     (case own_download profile n d of
        None \<Rightarrow> NotFound
      | Some r \<Rightarrow>
          (case has_subtitle_file resolve fs d r of
             Inl e \<Rightarrow> Raised e
           | Inr subs \<Rightarrow>
               let requested = (case py_float (or_else (post_text get ''t'') ''0'') of
                                  None \<Rightarrow> pf_zero | Some f \<Rightarrow> f)
               in Done \<lparr>py_item = episode_to_summary r, py_has_subtitles = subs,
                        py_seek = pf_max (dl_last_position r) requested,
                        py_kind = kind_of_ext (py_lower (media_ext r)),
                        py_playlist = map_option pl_id (chosen_playlist profile get d),
                        py_items = (case chosen_playlist profile get d of
                            None \<Rightarrow> []
                          | Some p \<Rightarrow> map (\<lambda>(i, x). (pi_download i, or_else (text_of (dl_title x)) ''Untitled''))
                              (filter (\<lambda>(i, x). dl_status x \<notin> {MISSING, RETENTION_DELETED})
                                (item_downloads (pl_id p) d)))\<rparr>))"

record next_reply =
  nx_id :: int
  nx_title :: string
  nx_source_name :: string
  nx_source_type :: string
  nx_kind :: string
  nx_subtitles :: bool

definition frontend_next_player :: "string \<Rightarrow> int \<Rightarrow> database \<Rightarrow> next_reply option" where
  "frontend_next_player profile n d =
     map_option (\<lambda>r.
       \<lparr>nx_id = dl_id r, nx_title = or_else (text_of (dl_title r)) ''Untitled'',
        nx_source_name = or_else (dl_source_name r) (dl_source_type r), nx_source_type = dl_source_type r,
        nx_kind = (if py_lower (media_ext r) \<in> set video_exts then ''video'' else ''audio''),
        nx_subtitles = (text_of (dl_subtitle_path r) \<noteq> [] \<or> text_of (dl_subtitle_path_relative r) \<noteq> [])\<rparr>)
       (next_library_download d profile n)"

section \<open>Playback reports and downloads\<close>

definition episode_id_of :: "pydict \<Rightarrow> pyval" where
  "episode_id_of data = py_or (dget data ''episode_id'') (dget data ''download_id'')"

definition playback_start ::
    "(string \<Rightarrow> pyval option) \<Rightarrow> string \<Rightarrow> api_request \<Rightarrow> database \<Rightarrow> playback_state reply" where
  "playback_start loads profile rq d =
     (case find_download (episode_id_of (request_data loads rq)) profile d of
        Inl e \<Rightarrow> Raised e
      | Inr None \<Rightarrow> NotFound
      | Inr (Some r) \<Rightarrow> Done (start r))"

definition record_playback ::
    "time \<Rightarrow> string \<Rightarrow> pydict \<Rightarrow> database \<Rightarrow> playback_state reply \<times> database" where
  "record_playback now profile data d =
     (case find_download (episode_id_of data) profile d of
        Inl e \<Rightarrow> (Raised e, d)
      | Inr None \<Rightarrow> (NotFound, d)
      | Inr (Some r) \<Rightarrow>
          (case build_update (dget data ''position_seconds'') (dget data ''reason'') r of
             None \<Rightarrow> (Refused ''Invalid position_seconds'', d)
           | Some u \<Rightarrow> (Done (start (apply_update now u r)),
                        update_downloads_where (\<lambda>x. dl_id x = dl_id r) (\<lambda>_. apply_update now u r) d)))"

definition playback_progress ::
    "(string \<Rightarrow> pyval option) \<Rightarrow> time \<Rightarrow> string \<Rightarrow> api_request \<Rightarrow> database \<Rightarrow>
     playback_state reply \<times> database" where
  "playback_progress loads now profile rq d = record_playback now profile (request_data loads rq) d"

definition playback_complete ::
    "(string \<Rightarrow> pyval option) \<Rightarrow> time \<Rightarrow> string \<Rightarrow> api_request \<Rightarrow> database \<Rightarrow>
     playback_state reply \<times> database" where
  "playback_complete loads now profile rq d =
     record_playback now profile (AList.update ''reason'' (PStr ''complete'') (request_dict loads rq)) d"

definition api_download ::
    "(string \<Rightarrow> pyval option) \<Rightarrow> time \<Rightarrow> string \<Rightarrow> api_request \<Rightarrow> world \<Rightarrow> (int \<times> string) reply \<times> world" where
  "api_download loads now profile rq w =
     (let data = request_data loads rq; url = py_strip (str_or_empty (dget data ''url'')) in
      if url = [] then (Refused ''Missing url'', w)
      else (case create_and_publish now profile ''download_single''
               (PDict [(''source'', PStr ''api''), (''url'', PStr url),
                  (''source_type'', PStr (py_str (py_or (dget data ''source_type'') (PStr ''youtube'')))),
                  (''media_type'', PStr (py_str (py_or (dget data ''media_type'') (PStr ''audio'')))),
                  (''subtitles'', PBool (truthy (dget_default data ''subtitles'' (PBool True)))),
                  (''manual_enqueue'', PBool True)])
               (Some (py_str (py_or (dget data ''idempotency_key'')
                  (PStr (''download_single:'' @ profile @ '':'' @ url))))) w of
          (Inl e, w1) \<Rightarrow> (Raised e, w1)
        | (Inr j, w1) \<Rightarrow> (Done (job_id j, job_status_value (job_state j)), w1)))"


section \<open>Facts\<close>

text \<open>
  What holds of the playlist tables: names are unique per profile, an episode is in a playlist once,
  and every item joins a playlist and an episode of the same profile.
\<close>

definition playlists_wf :: "database \<Rightarrow> bool" where
  "playlists_wf d \<longleftrightarrow> distinct (map pl_id (playlists d))
     \<and> (\<forall>p \<in> set (playlists d). pl_id p < next_playlist_id d)
     \<and> distinct (map (\<lambda>p. (pl_profile_id p, pl_name p)) (playlists d))
     \<and> distinct (map (\<lambda>i. (pi_playlist i, pi_download i)) (playlist_items d))
     \<and> (\<forall>i \<in> set (playlist_items d). \<exists>p \<in> set (playlists d). \<exists>r \<in> set (downloads d).
          pl_id p = pi_playlist i \<and> dl_id r = pi_download i \<and> dl_profile_id r = pl_profile_id p)"

lemma playlists_wf_append:
  assumes "playlists_wf d" and "pl_id p = next_playlist_id d"
    and "\<forall>q \<in> set (playlists d). pl_profile_id q = pl_profile_id p \<longrightarrow> pl_name q \<noteq> pl_name p"
  shows "playlists_wf (d\<lparr>playlists := playlists d @ [p], next_playlist_id := next_playlist_id d + 1\<rparr>)"
proof -
  have less: "\<forall>q \<in> set (playlists d). pl_id q < next_playlist_id d"
    using assms(1) by (simp add: playlists_wf_def)
  have "pl_id p \<notin> pl_id ` set (playlists d)" using less assms(2) by auto
  moreover have "(pl_profile_id p, pl_name p) \<notin> (\<lambda>q. (pl_profile_id q, pl_name q)) ` set (playlists d)"
    using assms(3) by auto
  moreover have "\<forall>q \<in> set (playlists d). pl_id q < next_playlist_id d + 1" using less by auto
  ultimately show ?thesis
    using assms(1,2) unfolding playlists_wf_def by simp
qed

lemma own_playlist_Some:
  "own_playlist profile n d = Some p \<Longrightarrow> p \<in> set (playlists d) \<and> pl_id p = n \<and> pl_profile_id p = profile"
  by (auto simp: own_playlist_def dest!: first_row_Some)

lemma insert_item_Inr:
  assumes "insert_item now n m pos d = Inr d'"
  shows "\<exists>i. d' = d\<lparr>playlist_items := playlist_items d @ [i], next_playlist_item_id := next_playlist_item_id d + 1\<rparr>
    \<and> pi_playlist i = n \<and> pi_download i = m \<and> pi_position i = pos
    \<and> (\<forall>x \<in> set (playlist_items d). (pi_playlist x, pi_download x) \<noteq> (n, m))"
  using assms by (auto simp: insert_item_def exists_row_iff split: if_splits)

lemma insert_items_wf:
  assumes "insert_items now n present pos ms d = (res, d')"
    and "playlists_wf d" and "p \<in> set (playlists d)" and "pl_id p = n"
    and "\<forall>m \<in> set ms. \<exists>r \<in> set (downloads d). dl_id r = m \<and> dl_profile_id r = pl_profile_id p"
  shows "playlists_wf d' \<and> playlists d' = playlists d \<and> downloads d' = downloads d"
  using assms
proof (induction ms arbitrary: pos d res)
  case (Cons m ms)
  show ?case
  proof (cases "m \<in> set present")
    case True
    then show ?thesis using Cons by simp
  next
    case False
    show ?thesis
    proof (cases "insert_item now n m (pos + 1) d")
      case (Inl e)
      then show ?thesis using Cons.prems False by simp
    next
      case (Inr d1)
      then obtain i where d1: "d1 = d\<lparr>playlist_items := playlist_items d @ [i],
          next_playlist_item_id := next_playlist_item_id d + 1\<rparr>" "pi_playlist i = n" "pi_download i = m"
        "\<forall>x \<in> set (playlist_items d). (pi_playlist x, pi_download x) \<noteq> (n, m)"
        using insert_item_Inr by blast
      obtain r where r: "r \<in> set (downloads d)" "dl_id r = m" "dl_profile_id r = pl_profile_id p"
        using Cons.prems(5) by auto
      have "playlists_wf d1"
        using Cons.prems(2-4) d1 r by (auto simp: playlists_wf_def image_iff)
      moreover obtain res2 where "insert_items now n present (pos + 1) ms d1 = (res2, d')"
        using Cons.prems(1) False Inr by (auto split: prod.splits sum.splits)
      ultimately show ?thesis
        using Cons.IH [of "pos + 1" d1 res2] Cons.prems(3-5) d1(1) by simp
    qed
  qed
qed simp

lemma insert_items_append:
  assumes "distinct ms" and "\<forall>m \<in> set ms - set present. \<forall>x \<in> set (playlist_items d).
      \<not> (pi_playlist x = n \<and> pi_download x = m)"
  shows "\<exists>new d'. insert_items now n present pos ms d = (Inr (int (length new)), d')
    \<and> playlist_items d' = playlist_items d @ new
    \<and> map pi_download new = filter (\<lambda>m. m \<notin> set present) ms
    \<and> map pi_position new = map (\<lambda>k. pos + 1 + int k) [0..<length new]
    \<and> (\<forall>i \<in> set new. pi_playlist i = n)"
  using assms
proof (induction ms arbitrary: pos d)
  case (Cons m ms)
  show ?case
  proof (cases "m \<in> set present")
    case True
    then show ?thesis using Cons by simp
  next
    case False
    have "\<not> exists_row (\<lambda>i. pi_playlist i = n \<and> pi_download i = m) (playlist_items d)"
      using Cons.prems(2) False by (auto simp: exists_row_iff)
    then obtain d1 where "insert_item now n m (pos + 1) d = Inr d1" by (simp add: insert_item_def)
    moreover from this obtain i where d1: "d1 = d\<lparr>playlist_items := playlist_items d @ [i],
        next_playlist_item_id := next_playlist_item_id d + 1\<rparr>"
      "pi_playlist i = n" "pi_download i = m" "pi_position i = pos + 1"
      using insert_item_Inr by blast
    have "\<forall>m \<in> set ms - set present. \<forall>x \<in> set (playlist_items d1). \<not> (pi_playlist x = n \<and> pi_download x = m)"
      using Cons.prems d1 by auto
    from Cons.IH [OF _ this, of "pos + 1"] Cons.prems(1)
    obtain new d' where ih: "insert_items now n present (pos + 1) ms d1 = (Inr (int (length new)), d')"
      "playlist_items d' = playlist_items d1 @ new"
      "map pi_download new = filter (\<lambda>m. m \<notin> set present) ms"
      "map pi_position new = map (\<lambda>k. pos + 1 + 1 + int k) [0..<length new]"
      "\<forall>i \<in> set new. pi_playlist i = n"
      by auto
    have "map pi_position (i # new) = map (\<lambda>k. pos + 1 + int k) [0..<length (i # new)]"
      using ih(4) d1(4) by (simp add: upt_conv_Cons map_Suc_upt [symmetric] del: upt_Suc map_Suc_upt)
    then show ?thesis
      using False ih d1 calculation
      by (intro exI [of _ "i # new"] exI [of _ d']) simp
  qed
qed simp

section \<open>Properties\<close>

text \<open>Creating, filling, emptying and deleting playlists keep the playlist tables well formed, also
  when a request fails half way: unique names, no episode twice in a playlist, no item that points
  to nothing or joins a playlist with another profile's episode.\<close>

theorem playlist_handlers_keep_wf:
  assumes "playlists_wf d"
  shows "playlists_wf (snd (playlist_create loads now profile rq d))
    \<and> playlists_wf (snd (playlist_add_items loads now profile n rq d))
    \<and> playlists_wf (snd (playlist_remove_item now profile n m d))
    \<and> playlists_wf (snd (playlist_delete profile n d))"
proof -
  have touch: "playlists_wf (touch_playlist now n e)" if wf: "playlists_wf e" for e
  proof -
    let ?t = "update_where (\<lambda>p. pl_id p = n) (\<lambda>p. p\<lparr>pl_updated_at := now\<rparr>) (playlists e)"
    have "map pl_id ?t = map pl_id (playlists e)"
      "map (\<lambda>p. (pl_profile_id p, pl_name p)) ?t = map (\<lambda>p. (pl_profile_id p, pl_name p)) (playlists e)"
      by (simp_all add: map_update_where_frame)
    moreover have "\<exists>q \<in> set ?t. pl_id q = pl_id p \<and> pl_profile_id q = pl_profile_id p"
      if "p \<in> set (playlists e)" for p
      using that by (intro bexI [of _ "if pl_id p = n then p\<lparr>pl_updated_at := now\<rparr> else p"])
        (auto simp: set_update_where)
    moreover have "\<forall>q \<in> set ?t. \<exists>p \<in> set (playlists e). pl_id q = pl_id p"
      by (auto simp: set_update_where)
    ultimately show ?thesis
      using wf unfolding playlists_wf_def touch_playlist_def by simp (metis (no_types, lifting))
  qed
  have create: "playlists_wf (snd (playlist_create loads now profile rq d))"
    using assms
    by (auto simp: playlist_create_def Let_def exists_row_iff intro!: playlists_wf_append)
  have add: "playlists_wf (snd (playlist_add_items loads now profile n rq d))"
  proof (cases "own_playlist profile n d")
    case (Some p)
    note p = own_playlist_Some [OF Some]
    show ?thesis
    proof (cases "raw_id_list (request_data loads rq)")
      case (Some raws)
      let ?ids = "List.map_filter py_int_val raws"
      let ?wanted = "filter (\<lambda>m. own_download (pl_profile_id p) m d \<noteq> None) ?ids"
      let ?present = "map pi_download (filter (\<lambda>i. pi_playlist i = n \<and> pi_download i \<in> set ?ids) (playlist_items d))"
      obtain res d1 where ins: "insert_items now n ?present (last_position n d) ?wanted d = (res, d1)"
        by fastforce
      have "\<forall>m \<in> set ?wanted. \<exists>r \<in> set (downloads d). dl_id r = m \<and> dl_profile_id r = pl_profile_id p"
        using own_download_Some by fastforce
      then have "playlists_wf d1" using insert_items_wf [OF ins assms] p by blast
      then show ?thesis
        using \<open>own_playlist profile n d = Some p\<close> Some ins touch
        by (cases res) (simp_all add: playlist_add_items_def Let_def)
    qed (use Some assms in \<open>simp add: playlist_add_items_def\<close>)
  qed (use assms in \<open>simp add: playlist_add_items_def\<close>)
  have "playlists_wf (d\<lparr>playlist_items := delete_where P (playlist_items d)\<rparr>)" for P
    using assms by (auto simp: playlists_wf_def distinct_map_delete_where)
  then have remove: "playlists_wf (snd (playlist_remove_item now profile n m d))"
    using assms touch by (auto simp: playlist_remove_item_def Let_def split: option.split)
  have delete: "playlists_wf (snd (playlist_delete profile n d))"
  proof (cases "own_playlist profile n d")
    case (Some p)
    have "\<exists>p \<in> set (delete_where (\<lambda>q. pl_id q = n) (playlists d)). \<exists>r \<in> set (downloads d).
        pl_id p = pi_playlist i \<and> dl_id r = pi_download i \<and> dl_profile_id r = pl_profile_id p"
      if "i \<in> set (playlist_items d)" "pi_playlist i \<noteq> n" for i
    proof -
      obtain q r where "q \<in> set (playlists d)" "r \<in> set (downloads d)"
        "pl_id q = pi_playlist i \<and> dl_id r = pi_download i \<and> dl_profile_id r = pl_profile_id q"
        using assms \<open>i \<in> _\<close> unfolding playlists_wf_def by blast
      then show ?thesis using that(2) by (intro bexI [of _ q] bexI [of _ r]) auto
    qed
    then show ?thesis
      using assms Some
      by (simp add: playlist_delete_def playlists_wf_def distinct_map_delete_where)
  qed (use assms in \<open>simp add: playlist_delete_def\<close>)
  show ?thesis using create add remove delete by blast
qed

theorem playlist_handlers_keep_wf_witness:
  "playlists_wf (snd (playlist_create (\<lambda>_. None) 5 ''kids''
     \<lparr>rq_content_type = [], rq_body = [], rq_post = [(''name'', ''Bed time'')], rq_get = []\<rparr> empty_database))"
proof -
  have "playlists_wf empty_database" by (simp add: playlists_wf_def empty_database_def)
  from playlist_handlers_keep_wf [OF this] show ?thesis by blast
qed


text \<open>Adding episodes to a playlist appends the requested episodes of the profile that are not in it
  yet, in the order of the request and at consecutive positions, leaves every other item alone, and
  answers their number; this needs the requested ids to be distinct.\<close>

theorem playlist_add_appends:
  assumes "own_playlist profile n d = Some p" and "raw_id_list (request_data loads rq) = Some raws"
    and "distinct (List.map_filter py_int_val raws)"
  shows "\<exists>new k s d'. playlist_add_items loads now profile n rq d = (Done (k, s), d')
    \<and> playlist_items d' = playlist_items d @ new \<and> k = int (length new)
    \<and> map pi_download new = filter (\<lambda>m. own_download profile m d \<noteq> None
         \<and> \<not> (\<exists>i \<in> set (playlist_items d). pi_playlist i = n \<and> pi_download i = m))
         (List.map_filter py_int_val raws)
    \<and> map pi_position new = map (\<lambda>j. last_position n d + 1 + int j) [0..<length new]
    \<and> (\<forall>i \<in> set new. pi_playlist i = n)"
proof -
  let ?ids = "List.map_filter py_int_val raws"
  let ?wanted = "filter (\<lambda>m. own_download (pl_profile_id p) m d \<noteq> None) ?ids"
  let ?present = "map pi_download (filter (\<lambda>i. pi_playlist i = n \<and> pi_download i \<in> set ?ids) (playlist_items d))"
  have prof: "pl_profile_id p = profile" using own_playlist_Some [OF assms(1)] by simp
  have free: "\<forall>m \<in> set ?wanted - set ?present. \<forall>x \<in> set (playlist_items d). \<not> (pi_playlist x = n \<and> pi_download x = m)"
    by auto
  obtain new d1 where ins: "insert_items now n ?present (last_position n d) ?wanted d = (Inr (int (length new)), d1)"
    "playlist_items d1 = playlist_items d @ new"
    "map pi_download new = filter (\<lambda>m. m \<notin> set ?present) ?wanted"
    "map pi_position new = map (\<lambda>k. last_position n d + 1 + int k) [0..<length new]"
    "\<forall>i \<in> set new. pi_playlist i = n"
    using insert_items_append [OF _ free, of now "last_position n d"] assms(3) by auto
  have "filter (\<lambda>m. m \<notin> set ?present) ?wanted = filter (\<lambda>m. own_download profile m d \<noteq> None
         \<and> \<not> (\<exists>i \<in> set (playlist_items d). pi_playlist i = n \<and> pi_download i = m)) ?ids"
    unfolding prof filter_filter by (rule filter_cong) auto
  moreover have "playlist_add_items loads now profile n rq d
      = (Done (int (length new), playlist_summary_of (touch_playlist now n d1) (p\<lparr>pl_updated_at := now\<rparr>)),
         touch_playlist now n d1)"
    using assms(1,2) ins(1) by (simp add: playlist_add_items_def Let_def)
  moreover have "playlist_items (touch_playlist now n d1) = playlist_items d @ new"
    using ins(2) by (simp add: touch_playlist_def)
  ultimately show ?thesis using ins(3-5) by auto
qed

definition bedtime :: playlist where
  "bedtime = \<lparr>pl_id = 1, pl_profile_id = ''kids'', pl_name = ''Bed time'', pl_created_at = 0, pl_updated_at = 0\<rparr>"

definition blank_row :: "int \<Rightarrow> string \<Rightarrow> download" where
  "blank_row n profile = (blank_download 0 profile ''uid'' (empty_database\<lparr>next_download_id := n\<rparr>))"

definition story :: download where
  "story = (blank_row 4 ''kids'')\<lparr>dl_title := Some ''Story''\<rparr>"

definition bedtime_database :: database where
  "bedtime_database = empty_database\<lparr>playlists := [bedtime], next_playlist_id := 2, downloads := [story],
     next_download_id := 5\<rparr>"

definition add_request :: "string list \<Rightarrow> api_request" where
  "add_request ids = \<lparr>rq_content_type = ''application/json'', rq_body = ''ids'', rq_post = [], rq_get = []\<rparr>"

definition ids_parser :: "string list \<Rightarrow> string \<Rightarrow> pyval option" where
  "ids_parser ids s = Some (PDict [(''download_ids'', PList (map PStr ids))])"

lemma add_request_ids:
  "ids \<noteq> [] \<Longrightarrow> raw_id_list (request_data (ids_parser ids) (add_request ids)) = Some (map PStr ids)"
  by (cases ids) (simp_all add: raw_id_list_def request_data_def json_body_def ids_parser_def add_request_def
      py_lower_def lower_char_def Let_def py_or_def)

theorem playlist_add_appends_witness:
  "\<exists>s d'. playlist_add_items (ids_parser [''4'']) 5 ''kids'' 1 (add_request [''4'']) bedtime_database = (Done (1, s), d')"
proof -
  have own: "own_playlist ''kids'' 1 bedtime_database = Some bedtime"
    by (simp add: own_playlist_def bedtime_database_def bedtime_def)
  have i: "List.map_filter py_int_val (map PStr [''4'']) = [4]" by code_simp
  then have dist: "distinct (List.map_filter py_int_val (map PStr [''4'']))" by simp
  have "own_download ''kids'' 4 bedtime_database \<noteq> None"
    by (simp add: own_download_def bedtime_database_def story_def blank_row_def blank_download_def)
  then show ?thesis
    using playlist_add_appends [OF own add_request_ids dist, of 5] i
    by (auto simp: bedtime_database_def empty_database_def)
qed

text \<open>A request that names the same new episode twice fails on the table's unique constraint, an
  unhandled database error, after the first row has been written: the check against the items
  already there is made once, before the loop.\<close>

theorem playlist_duplicate_ids_raise:
  assumes "own_playlist profile n d = Some p" and "raw_id_list (request_data loads rq) = Some raws"
    and "List.map_filter py_int_val raws = [m, m]" and "own_download profile m d \<noteq> None"
    and "\<forall>i \<in> set (playlist_items d). \<not> (pi_playlist i = n \<and> pi_download i = m)"
  shows "\<exists>e d'. playlist_add_items loads now profile n rq d = (Raised (DatabaseError e), d')
    \<and> length (playlist_items d') = Suc (length (playlist_items d))"
proof -
  have prof: "pl_profile_id p = profile" using own_playlist_Some [OF assms(1)] by simp
  have "filter (\<lambda>i. pi_playlist i = n \<and> pi_download i \<in> set [m, m]) (playlist_items d) = []"
    using assms(5) by (auto simp: filter_empty_conv)
  moreover have "\<not> exists_row (\<lambda>i. pi_playlist i = n \<and> pi_download i = m) (playlist_items d)"
    using assms(5) by (auto simp: exists_row_iff)
  ultimately show ?thesis
    using assms(1-4) prof
    by (simp add: playlist_add_items_def Let_def insert_item_def exists_row_iff)
qed

theorem playlist_duplicate_ids_raise_witness:
  "\<exists>e d'. playlist_add_items (ids_parser [''4'', ''4'']) 5 ''kids'' 1 (add_request [''4'', ''4'']) bedtime_database
     = (Raised (DatabaseError e), d')"
proof -
  have own: "own_playlist ''kids'' 1 bedtime_database = Some bedtime"
    by (simp add: own_playlist_def bedtime_database_def bedtime_def)
  have i: "List.map_filter py_int_val (map PStr [''4'', ''4'']) = [4, 4]" by code_simp
  have o: "own_download ''kids'' 4 bedtime_database \<noteq> None"
    by (simp add: own_download_def bedtime_database_def story_def blank_row_def blank_download_def)
  have "\<forall>i \<in> set (playlist_items bedtime_database). \<not> (pi_playlist i = 1 \<and> pi_download i = 4)"
    by (simp add: bedtime_database_def empty_database_def)
  from playlist_duplicate_ids_raise [OF own add_request_ids i o this, of 5] show ?thesis by auto
qed

text \<open>Marking an episode complete through a form never works: read through \<open>dict\<close> the id is a list
  of values, and the lookup raises a type error.\<close>

theorem form_completion_raises:
  assumes "json_body loads rq = []" and "post_get (rq_post rq) ''episode_id'' = Some v"
  shows "\<exists>e. playback_complete loads now profile rq d = (Raised (TypeError e), d)"
proof -
  have "map_of (map (\<lambda>(k, v). (k, f k)) xs) k = (if k \<in> fst ` set xs then Some (f k) else None)" for f :: "string \<Rightarrow> pyval" and xs :: form and k
    by (induction xs) auto
  moreover have "''episode_id'' \<in> fst ` set (post_items (rq_post rq))"
    using assms(2) map_of_post_items [of "rq_post rq" "''episode_id''"]
    by (metis map_of_eq_None_iff option.distinct(1))
  ultimately have "dget (request_dict loads rq) ''episode_id'' = PList (map PStr (post_list (rq_post rq) ''episode_id''))"
    using assms(1) by (simp add: request_dict_def dget_def)
  moreover have "post_list (rq_post rq) ''episode_id'' \<noteq> []"
    using assms(2) by (force simp: post_get_def post_list_def filter_empty_conv dest!: map_of_SomeD)
  ultimately show ?thesis
    by (simp add: playback_complete_def record_playback_def episode_id_of_def dget_update find_download_def)
qed

theorem form_completion_raises_witness:
  "\<exists>e. playback_complete (\<lambda>_. None) 5 ''kids''
     \<lparr>rq_content_type = [], rq_body = [], rq_post = [(''episode_id'', ''4'')], rq_get = []\<rparr> bedtime_database
     = (Raised (TypeError e), bedtime_database)"
  by (rule form_completion_raises) (simp_all add: json_body_def post_get_def)

text \<open>The player shows an episode of the profile only; it starts at the saved position or later; and
  of a playlist it lists available episodes of the profile's own playlists only.\<close>

theorem player_confined:
  assumes "frontend_player resolve fs profile n get d = Done a" and "playlists_wf d"
    and "distinct (map dl_id (downloads d))"
  shows "es_id (py_item a) = n \<and> (\<exists>r. own_download profile n d = Some r \<and> \<not> pf_lt (py_seek a) (dl_last_position r))
    \<and> (\<forall>(m, t) \<in> set (py_items a). \<exists>r \<in> set (downloads d). dl_id r = m \<and> dl_profile_id r = profile
         \<and> dl_status r \<notin> {MISSING, RETENTION_DELETED})"
proof -
  obtain r where r: "own_download profile n d = Some r"
    using assms(1) by (auto simp: frontend_player_def split: option.splits)
  have mx: "\<not> pf_lt (pf_max x y) x" for x y
    by (cases x; cases y) (auto simp: pf_max_def)
  have items: "\<exists>r \<in> set (downloads d). dl_id r = m \<and> dl_profile_id r = profile
      \<and> dl_status r \<notin> {MISSING, RETENTION_DELETED}"
    if p: "own_playlist profile k d = Some p" and ix: "(i, x) \<in> set (item_downloads (pl_id p) d)"
      and m: "m = pi_download i" and st: "dl_status x \<notin> {MISSING, RETENTION_DELETED}" for k p i x m
  proof -
    have i: "i \<in> set (playlist_items d)" "pi_playlist i = pl_id p" "x \<in> set (downloads d)" "dl_id x = pi_download i"
      using ix by (auto simp: item_downloads_def items_of_def set_map_filter dest!: first_row_Some)
    obtain q y where q: "q \<in> set (playlists d)" "y \<in> set (downloads d)" "pl_id q = pi_playlist i"
      "dl_id y = pi_download i" "dl_profile_id y = pl_profile_id q"
      using assms(2) i(1) unfolding playlists_wf_def by blast
    have "distinct (map pl_id (playlists d))" using assms(2) by (simp add: playlists_wf_def)
    then have "q = p" using q(1,3) i(2) own_playlist_Some [OF p] by (metis distinct_map inj_onD)
    moreover have "y = x" using q(2,4) i(3,4) assms(3) by (metis distinct_map inj_onD)
    ultimately show ?thesis using q i st m own_playlist_Some [OF p] by auto
  qed
  show ?thesis
    using assms(1) r mx own_download_Some [OF r] items
    by (auto simp: frontend_player_def chosen_playlist_def episode_to_summary_def Let_def
        split: sum.splits option.splits)
qed

theorem player_confined_witness:
  "\<exists>a. frontend_player id Map.empty ''kids'' 4 [] bedtime_database = Done a \<and> es_id (py_item a) = 4"
proof -
  have own: "own_download ''kids'' 4 bedtime_database = Some story"
    by (simp add: own_download_def bedtime_database_def story_def blank_row_def blank_download_def)
  have "has_subtitle_file id Map.empty bedtime_database story = Inr False"
    by (simp add: has_subtitle_file_def resolve_subtitle_path_def resolve_media_path_def media_candidates_def
        story_def blank_row_def blank_download_def)
  then obtain a where a: "frontend_player id Map.empty ''kids'' 4 [] bedtime_database = Done a"
    using own by (auto simp: frontend_player_def Let_def)
  have "playlists_wf bedtime_database" "distinct (map dl_id (downloads bedtime_database))"
    by (simp_all add: playlists_wf_def bedtime_database_def bedtime_def empty_database_def)
  from player_confined [OF a this] a show ?thesis by blast
qed

end
