(* ===== verification/Api.thy ===== *)
theory Api
  imports Auth Playlists Enqueue
begin

text \<open>
  The API as one service: the addresses of \<open>src/src/api/urls.py\<close>, the gates and method checks the views
  of \<open>api/views.py\<close> and the handlers of \<open>api/services/dashboard_actions.py\<close> are decorated with, and
  what each request does to the world. The handlers are those of the theories imported; what is
  proved here holds of all of them together: strangers change nothing, and a user changes the rows
  of the own profile only.
\<close>

section \<open>Addresses\<close>

datatype api_route =
    Health | AuthLogin | AuthLogout | ApiFrontendLibrary | ApiActiveStatus | ApiEnqueueJob | ApiMessageStatus
  | ApiBatchUpdate | ApiTranscriptSearch | ApiManualUpload | ApiEditMetadata | ApiMarkPlayed int | ApiMarkUnplayed int
  | ApiFavorite int | ApiUnfavorite int | ApiSavePosition int | ApiDeleteFile int | ApiSettings | ApiSaveConfig
  | ApiAddSource | ApiSaveSources string | ApiUpdateSource int | ApiToggleSource int | ApiDeleteSource int
  | ApiFrontendJobs | ApiFrontendPlayer int | ApiNextPlayer int | ApiSearch | ApiPodcasts | ApiEpisode int | ApiLibrary
  | ApiPlaylists | ApiPlaylistCreate | ApiPlaylist int | ApiPlaylistAdd int | ApiPlaylistRemove int int
  | ApiPlaylistDelete int | ApiPlaybackStart | ApiPlaybackProgress | ApiPlaybackComplete | ApiHistory | ApiDownload
  | ApiDownloads | ApiUser | ApiCsrf | ApiStream int | ApiWorkerMedia string int | ApiSubtitle int

datatype gate = OpenGate | UserGate | WorkerGate

fun api_gate_of :: "api_route \<Rightarrow> gate" where
  "api_gate_of Health = OpenGate"
| "api_gate_of AuthLogin = OpenGate"
| "api_gate_of (ApiWorkerMedia _ _) = WorkerGate"
| "api_gate_of _ = UserGate"

text \<open>The method a view requires by its decorator; four views accept any, one of them checks it itself.\<close>

fun api_method :: "api_route \<Rightarrow> string option" where
  "api_method Health = None"
| "api_method ApiActiveStatus = None"
| "api_method ApiEnqueueJob = None"
| "api_method ApiMessageStatus = None"
| "api_method ApiTranscriptSearch = None"
| "api_method ApiSettings = None"
| "api_method AuthLogin = Some ''POST''"
| "api_method AuthLogout = Some ''POST''"
| "api_method ApiBatchUpdate = Some ''POST''"
| "api_method ApiManualUpload = Some ''POST''"
| "api_method ApiEditMetadata = Some ''POST''"
| "api_method (ApiMarkPlayed _) = Some ''POST''"
| "api_method (ApiMarkUnplayed _) = Some ''POST''"
| "api_method (ApiFavorite _) = Some ''POST''"
| "api_method (ApiUnfavorite _) = Some ''POST''"
| "api_method (ApiSavePosition _) = Some ''POST''"
| "api_method (ApiDeleteFile _) = Some ''POST''"
| "api_method ApiSaveConfig = Some ''POST''"
| "api_method ApiAddSource = Some ''POST''"
| "api_method (ApiSaveSources _) = Some ''POST''"
| "api_method (ApiUpdateSource _) = Some ''POST''"
| "api_method (ApiToggleSource _) = Some ''POST''"
| "api_method (ApiDeleteSource _) = Some ''POST''"
| "api_method ApiPlaylistCreate = Some ''POST''"
| "api_method (ApiPlaylistAdd _) = Some ''POST''"
| "api_method (ApiPlaylistRemove _ _) = Some ''POST''"
| "api_method (ApiPlaylistDelete _) = Some ''POST''"
| "api_method ApiPlaybackStart = Some ''POST''"
| "api_method ApiPlaybackProgress = Some ''POST''"
| "api_method ApiPlaybackComplete = Some ''POST''"
| "api_method ApiDownload = Some ''POST''"
| "api_method _ = Some ''GET''"

section \<open>What a request does\<close>

record api_input =
  ai_request :: api_request
  ai_files :: "uploaded_file list"

text \<open>The outside during one request: the clock, the parser, the settings lock, the token of an update.\<close>

record api_env =
  ae_now :: time
  ae_loads :: "string \<Rightarrow> pyval option"
  ae_files :: file_env
  ae_uploads :: upload_env
  ae_lock_acquired :: bool
  ae_token :: string
  ae_users :: authenticator
  ae_worker_token :: string

definition on_db :: "(database \<Rightarrow> 'a \<times> database) \<Rightarrow> world \<Rightarrow> world" where
  "on_db f w = w\<lparr>db := snd (f (db w))\<rparr>"

text \<open>An upload whose search for a free name does not end gives no world; the old one stands for it.\<close>

fun api_world :: "api_env \<Rightarrow> string \<Rightarrow> string \<Rightarrow> api_route \<Rightarrow> api_input \<Rightarrow> world \<Rightarrow> world" where
  "api_world env profile verb ApiEnqueueJob i w =
     (if verb \<noteq> ''POST'' then w else snd (enqueue_job (ae_now env) (ae_token env) profile (rq_post (ai_request i)) w))"
| "api_world env profile verb ApiBatchUpdate i w =
     snd (batch_update (ae_files env) (ae_now env) profile (rq_post (ai_request i)) w)"
| "api_world env profile verb ApiManualUpload i w =
     (case manual_upload (ae_uploads env) (ae_now env) profile (ai_files i) w of None \<Rightarrow> w | Some (_, w1) \<Rightarrow> w1)"
| "api_world env profile verb ApiEditMetadata i w = on_db (edit_metadata (ae_now env) profile (rq_post (ai_request i))) w"
| "api_world env profile verb (ApiMarkPlayed n) i w = on_db (mark_played (ae_now env) profile n) w"
| "api_world env profile verb (ApiMarkUnplayed n) i w = on_db (mark_unplayed (ae_now env) profile n) w"
| "api_world env profile verb (ApiFavorite n) i w = on_db (favorite (ae_now env) profile n) w"
| "api_world env profile verb (ApiUnfavorite n) i w = on_db (unfavorite (ae_now env) profile n) w"
| "api_world env profile verb (ApiSavePosition n) i w =
     on_db (save_position (ae_now env) profile n (rq_post (ai_request i))) w"
| "api_world env profile verb (ApiDeleteFile n) i w = snd (delete_file (ae_files env) (ae_now env) profile n w)"
| "api_world env profile verb ApiSaveConfig i w =
     on_db (save_config (ae_now env) (ae_lock_acquired env) profile (rq_post (ai_request i))) w"
| "api_world env profile verb ApiAddSource i w = on_db (add_source (ae_now env) profile (rq_post (ai_request i))) w"
| "api_world env profile verb (ApiSaveSources st) i w =
     on_db (save_sources (ae_now env) profile st (rq_post (ai_request i))) w"
| "api_world env profile verb (ApiUpdateSource n) i w =
     on_db (update_source (ae_now env) profile n (rq_post (ai_request i))) w"
| "api_world env profile verb (ApiToggleSource n) i w = on_db (toggle_source (ae_now env) profile n) w"
| "api_world env profile verb (ApiDeleteSource n) i w = on_db (delete_source profile n) w"
| "api_world env profile verb ApiPlaylistCreate i w =
     on_db (playlist_create (ae_loads env) (ae_now env) profile (ai_request i)) w"
| "api_world env profile verb (ApiPlaylistAdd n) i w =
     on_db (playlist_add_items (ae_loads env) (ae_now env) profile n (ai_request i)) w"
| "api_world env profile verb (ApiPlaylistRemove n m) i w = on_db (playlist_remove_item (ae_now env) profile n m) w"
| "api_world env profile verb (ApiPlaylistDelete n) i w = on_db (playlist_delete profile n) w"
| "api_world env profile verb ApiPlaybackProgress i w =
     on_db (playback_progress (ae_loads env) (ae_now env) profile (ai_request i)) w"
| "api_world env profile verb ApiPlaybackComplete i w =
     on_db (playback_complete (ae_loads env) (ae_now env) profile (ai_request i)) w"
| "api_world env profile verb ApiDownload i w = snd (api_download (ae_loads env) (ae_now env) profile (ai_request i) w)"
| "api_world env profile verb _ i w = w"

definition checked_view :: "api_env \<Rightarrow> api_route \<Rightarrow> api_input \<Rightarrow> world \<Rightarrow> http_request \<Rightarrow> world gated" where
  "checked_view env route i w rq =
     (let view = (\<lambda>rq. api_world env (profile_id_for_request rq) (hr_method rq) route i w) in
      case api_method route of None \<Rightarrow> Entered (view rq) | Some m \<Rightarrow> require_method m view rq)"

definition api_serve :: "api_env \<Rightarrow> api_route \<Rightarrow> api_input \<Rightarrow> http_request \<Rightarrow> world \<Rightarrow> error + world gated" where
  "api_serve env route i rq w =
     (case api_gate_of route of
        OpenGate \<Rightarrow> Inr (checked_view env route i w rq)
      | UserGate \<Rightarrow> api_login_required (ae_users env) (checked_view env route i w) rq
      | WorkerGate \<Rightarrow> worker_api_login_required (ae_worker_token env) (checked_view env route i w) rq)"

definition world_after :: "api_env \<Rightarrow> api_route \<Rightarrow> api_input \<Rightarrow> http_request \<Rightarrow> world \<Rightarrow> world" where
  "world_after env route i rq w = (case api_serve env route i rq w of Inr (Entered w') \<Rightarrow> w' | _ \<Rightarrow> w)"

section \<open>Strangers change nothing\<close>

text \<open>Whom a request speaks for, and whether it may change state as that user.\<close>

definition speaks_for :: "authenticator \<Rightarrow> http_request \<Rightarrow> string \<Rightarrow> bool" where
  "speaks_for users rq name \<longleftrightarrow>
     (\<exists>u p a. presents rq u p \<and> users u p = Some a \<and> ua_active a \<and> ua_name a = name)
     \<or> (hr_user rq = Some name \<and> hr_csrf_ok rq)"

lemma entered_as:
  assumes "api_login_required users view rq = Inr (Entered x)"
  obtains (basic) u p a where "presents rq u p" "users u p = Some a" "ua_active a"
      "view (rq\<lparr>hr_user := Some (ua_name a)\<rparr>) = Entered x"
  | (session) name where "hr_user rq = Some name" "view rq = Entered x" "py_upper (hr_method rq) \<in> set SAFE_METHODS \<or> hr_csrf_ok rq"
proof -
  obtain b where b: "authenticate_basic users rq = Inr b"
    using assms by (auto simp: api_login_required_def bind_result_Inr)
  show thesis
  proof (cases b)
    case None
    then show thesis
      using assms b session by (auto simp: api_login_required_def split: if_splits)
  next
    case (Some rq')
    then have a: "authenticate_basic users rq = Inr (Some rq')" using b by simp
    obtain u p a where "presents rq u p" "users u p = Some a" "ua_active a" "rq' = rq\<lparr>hr_user := Some (ua_name a)\<rparr>"
      using authenticate_basic_accepts [OF a] .
    then show thesis using assms a basic by (auto simp: api_login_required_def)
  qed
qed

lemma checked_post:
  assumes "checked_view env route i w rq = Entered w'" and "w' \<noteq> w"
  shows "hr_method rq = ''POST'' \<and> w' = api_world env (profile_id_for_request rq) ''POST'' route i w"
  using assms by (cases route) (auto simp: checked_view_def Let_def require_method_def split: if_splits)

lemma open_unchanged:
  assumes "api_gate_of route \<noteq> UserGate" and "checked_view env route i w rq = Entered w'"
  shows "w' = w"
  using assms by (cases route) (auto simp: checked_view_def Let_def require_method_def split: if_splits)

text \<open>A change of the world is a request of a user.\<close>

lemma change_of_user:
  assumes "world_after env route i rq w \<noteq> w"
  shows "\<exists>name. speaks_for (ae_users env) rq name \<and> hr_method rq = ''POST''
    \<and> world_after env route i rq w = api_world env (or_else name ''default'') ''POST'' route i w"
proof -
  let ?w = "world_after env route i rq w"
  have e: "api_serve env route i rq w = Inr (Entered ?w)"
    using assms by (auto simp: world_after_def split: sum.splits gated.splits)
  have g: "api_gate_of route = UserGate"
  proof (rule ccontr)
    assume n: "api_gate_of route \<noteq> UserGate"
    then have "checked_view env route i w rq = Entered ?w"
      using e by (auto simp: api_serve_def worker_api_login_required_def Let_def split: gate.splits if_splits)
    then show False using open_unchanged [OF n] assms by blast
  qed
  then have "api_login_required (ae_users env) (checked_view env route i w) rq = Inr (Entered ?w)"
    using e by (simp add: api_serve_def)
  then show ?thesis
  proof (cases rule: entered_as)
    case (basic u p a)
    then show ?thesis
      using checked_post [OF basic(4) assms]
      by (intro exI [of _ "ua_name a"]) (auto simp: speaks_for_def profile_id_for_request_def)
  next
    case (session name)
    have "py_upper ''POST'' \<notin> set SAFE_METHODS" by code_simp
    then show ?thesis
      using checked_post [OF session(2) assms] session(1,3)
      by (intro exI [of _ name]) (auto simp: speaks_for_def profile_id_for_request_def)
  qed
qed

section \<open>Rows of other profiles\<close>

definition rows_of :: "('r \<Rightarrow> string) \<Rightarrow> string \<Rightarrow> 'r list \<Rightarrow> 'r list" where
  "rows_of owner q t = filter (\<lambda>r. owner r = q) t"

text \<open>Everything the database holds of a profile, its playlists' items and episodes' segments included.\<close>

record profile_rows =
  pr_config :: "profile_config_value list"
  pr_settings :: "profile_download_settings list"
  pr_sources :: "source_config list"
  pr_downloads :: "download list"
  pr_playlists :: "playlist list"
  pr_items :: "playlist_item list"
  pr_segments :: "transcript_segment list"
  pr_schedules :: "scheduled_job list"
  pr_jobs :: "job list"

definition profile_view :: "string \<Rightarrow> database \<Rightarrow> profile_rows" where
  "profile_view q d =
     \<lparr>pr_config = rows_of pc_profile_id q (profile_config d), pr_settings = rows_of pds_profile_id q (download_settings d),
      pr_sources = rows_of src_profile_id q (source_configs d), pr_downloads = rows_of dl_profile_id q (downloads d),
      pr_playlists = rows_of pl_profile_id q (playlists d),
      pr_items = filter (\<lambda>i. pi_playlist i \<in> set (map pl_id (rows_of pl_profile_id q (playlists d)))) (playlist_items d),
      pr_segments = filter (\<lambda>s. seg_download s \<in> set (map dl_id (rows_of dl_profile_id q (downloads d)))) (transcript_segments d),
      pr_schedules = rows_of sch_profile_id q (scheduled_jobs d), pr_jobs = rows_of job_profile_id q (jobs d)\<rparr>"

definition isolated :: "string \<Rightarrow> database \<Rightarrow> database \<Rightarrow> bool" where
  "isolated p d d' \<longleftrightarrow> app_config d' = app_config d \<and> cpu_slot_requests d' = cpu_slot_requests d
     \<and> (\<forall>q. q \<noteq> p \<longrightarrow> profile_view q d' = profile_view q d)"

text \<open>Keys are unique, and an item joins a playlist and an episode of one profile.\<close>

definition api_wf :: "database \<Rightarrow> bool" where
  "api_wf d \<longleftrightarrow> downloads_wf d \<and> sources_wf d \<and> playlists_wf d \<and> distinct (map sch_id (scheduled_jobs d))"

named_theorems isolating \<open>the handlers of the API leave the rows of other profiles alone\<close>

lemma isolated_refl [simp, isolating]: "isolated p d d"
  by (simp add: isolated_def)

lemma if_isolated: "isolated p d x \<Longrightarrow> isolated p d y \<Longrightarrow> isolated p d (if b then x else y)"
  by simp

lemma isolated_trans: "isolated p a b \<Longrightarrow> isolated p b c \<Longrightarrow> isolated p a c"
  by (simp add: isolated_def)

lemma rows_of_append: "owner r \<noteq> q \<Longrightarrow> rows_of owner q (t @ [r]) = rows_of owner q t"
  by (simp add: rows_of_def)

lemma rows_of_update:
  assumes "\<And>r. r \<in> set t \<Longrightarrow> P r \<Longrightarrow> owner r \<noteq> q" and "\<And>r. owner (f r) = owner r"
  shows "rows_of owner q (update_where P f t) = rows_of owner q t"
  unfolding rows_of_def by (rule filter_update_where_frame) (auto simp: assms)

lemma rows_of_delete:
  assumes "\<And>r. r \<in> set t \<Longrightarrow> P r \<Longrightarrow> owner r \<noteq> q"
  shows "rows_of owner q (delete_where P t) = rows_of owner q t"
  using assms by (induction t) (auto simp: rows_of_def)

lemma unique_owner:
  assumes "distinct (map key t)" and "first_row (\<lambda>r. key r = n \<and> owner r = p) t = Some x" and "r \<in> set t" and "key r = n"
  shows "owner r = p"
  using assms by (auto dest!: first_row_Some simp: distinct_map inj_on_def)

lemma own_download_owner:
  assumes "api_wf d" and "own_download profile n d = Some x" and "r \<in> set (downloads d)" and "dl_id r = n"
  shows "dl_profile_id r = profile"
  using unique_owner [of dl_id "downloads d" n dl_profile_id profile x r] assms
  by (simp add: api_wf_def downloads_wf_def own_download_def)

lemma own_source_owner:
  assumes "api_wf d" and "own_source profile n d = Some x" and "r \<in> set (source_configs d)" and "src_id r = n"
  shows "src_profile_id r = profile"
  using unique_owner [of src_id "source_configs d" n src_profile_id profile x r] assms
  by (simp add: api_wf_def sources_wf_def own_source_def)

lemma own_playlist_owner:
  assumes "api_wf d" and "own_playlist profile n d = Some x" and "r \<in> set (playlists d)" and "pl_id r = n"
  shows "pl_profile_id r = profile"
  using unique_owner [of pl_id "playlists d" n pl_profile_id profile x r] assms
  by (simp add: api_wf_def playlists_wf_def own_playlist_def)

section \<open>Episodes\<close>

lemma isolated_downloads:
  assumes "\<And>r. r \<in> set (downloads d) \<Longrightarrow> P r \<Longrightarrow> dl_profile_id r = p" and "\<And>r. dl_profile_id (f r) = dl_profile_id r"
  shows "isolated p d (update_downloads_where P f d)"
proof -
  have "rows_of dl_profile_id q (update_where P f (downloads d)) = rows_of dl_profile_id q (downloads d)" if "q \<noteq> p" for q
    using assms that by (intro rows_of_update) auto
  then show ?thesis by (simp add: isolated_def profile_view_def update_downloads_where_def)
qed

lemma mark_isolated [isolating]:
  assumes "api_wf d" and "\<And>r. dl_profile_id (f r) = dl_profile_id r"
  shows "isolated profile d (snd (on_own_download profile n f d))"
  using own_download_owner [OF assms(1)] assms(2)
  by (auto simp: on_own_download_def split: option.split intro!: isolated_downloads)

lemma marks_isolated [isolating]:
  assumes "api_wf d"
  shows "isolated profile d (snd (mark_played now profile n d))" "isolated profile d (snd (mark_unplayed now profile n d))"
    "isolated profile d (snd (favorite now profile n d))" "isolated profile d (snd (unfavorite now profile n d))"
  unfolding mark_played_def mark_unplayed_def favorite_def unfavorite_def by (rule mark_isolated [OF assms], simp)+

lemma save_position_isolated [isolating]:
  "api_wf d \<Longrightarrow> isolated profile d (snd (save_position now profile n post d))"
  using own_download_owner [of d profile]
  by (auto simp: save_position_def apply_position_def split: option.split intro!: isolated_downloads)

lemma edit_metadata_isolated [isolating]:
  "api_wf d \<Longrightarrow> isolated profile d (snd (edit_metadata now profile post d))"
  using own_download_owner [of d profile]
  by (auto simp: edit_metadata_def Let_def split: option.split intro!: isolated_downloads)

lemma find_download_own: "find_download v profile d = Inr (Some r) \<Longrightarrow> own_download profile (dl_id r) d = Some r"
  by (auto simp: find_download_def own_download_def split: if_splits option.splits dest: first_row_Some)

lemma record_playback_isolated [isolating]:
  assumes "api_wf d"
  shows "isolated profile d (snd (record_playback now profile data d))"
proof (cases "find_download (episode_id_of data) profile d")
  case (Inr o1)
  show ?thesis
  proof (cases o1)
    case (Some r)
    then have own: "own_download profile (dl_id r) d = Some r" using Inr find_download_own by blast
    then have prof: "dl_profile_id r = profile" by (auto simp: own_download_def dest: first_row_Some)
    have "isolated profile d (update_downloads_where (\<lambda>x. dl_id x = dl_id r) (\<lambda>_. apply_update now u r) d)" for u
    proof -
      have eq: "update_downloads_where (\<lambda>x. dl_id x = dl_id r) (\<lambda>_. apply_update now u r) d
          = update_downloads_where (\<lambda>x. dl_id x = dl_id r) (\<lambda>x. (apply_update now u r)\<lparr>dl_profile_id := dl_profile_id x\<rparr>) d"
      proof -
        have "update_where (\<lambda>x. dl_id x = dl_id r) (\<lambda>_. apply_update now u r) (downloads d)
          = update_where (\<lambda>x. dl_id x = dl_id r) (\<lambda>x. (apply_update now u r)\<lparr>dl_profile_id := dl_profile_id x\<rparr>) (downloads d)"
          using own_download_owner [OF assms own] prof
          by (intro update_where_cong) (auto simp: apply_update_def)
        then show ?thesis by (simp add: update_downloads_where_def)
      qed
      show ?thesis unfolding eq using own_download_owner [OF assms own] by (intro isolated_downloads) auto
    qed
    then show ?thesis using Inr Some by (auto simp: record_playback_def split: option.split)
  qed (simp add: record_playback_def Inr)
qed (simp add: record_playback_def)

lemma playback_isolated [isolating]:
  assumes "api_wf d"
  shows "isolated profile d (snd (playback_progress loads now profile rq d))"
    "isolated profile d (snd (playback_complete loads now profile rq d))"
  using record_playback_isolated [OF assms] by (simp_all add: playback_progress_def playback_complete_def)

lemma delete_file_isolated [isolating]:
  "api_wf (db w) \<Longrightarrow> isolated profile (db w) (db (snd (delete_file env now profile n w)))"
  using own_download_owner [of "db w" profile]
  by (auto simp: delete_file_def split: option.split intro!: isolated_downloads)

section \<open>Jobs\<close>

lemma create_job_isolated: "isolated profile d (snd (create_job now profile kind payload key d))"
  by (auto simp: create_job_def create_insert_def Let_def insert_job_def new_job_def isolated_def profile_view_def rows_of_def
      split: option.split)

lemma create_and_publish_isolated [isolating]:
  "isolated profile (db w) (db (snd (create_and_publish now profile kind payload key w)))"
proof -
  obtain j d1 where c: "create_job now profile kind payload key (db w) = (j, d1)" by fastforce
  have "isolated profile (db w) d1" using create_job_isolated [of profile "db w" now kind payload key] c by simp
  moreover have "db w2 = db w1" if "publish_job m w1 = Inr w2" for m w1 w2
    using that by (auto simp: publish_job_def Let_def split: option.splits)
  ultimately show ?thesis
    by (auto simp: create_and_publish_def c Let_def split: sum.split)
qed

lemma enqueue_job_isolated [isolating]: "isolated profile (db w) (db (snd (enqueue_job now token profile post w)))"
proof -
  have "snd (enqueue_job now token profile post w) = w \<or> (\<exists>kind payload key. snd (enqueue_job now token profile post w)
      = snd (create_and_publish now profile kind payload key w))"
    by (auto simp: enqueue_job_def Let_def split: prod.split sum.split) (metis snd_conv)+
  then show ?thesis using create_and_publish_isolated by auto
qed

lemma api_download_isolated [isolating]: "isolated profile (db w) (db (snd (api_download loads now profile rq w)))"
proof -
  have "snd (api_download loads now profile rq w) = w \<or> (\<exists>kind payload key. snd (api_download loads now profile rq w)
      = snd (create_and_publish now profile kind payload key w))"
    by (auto simp: api_download_def Let_def split: prod.split sum.split) (metis snd_conv)+
  then show ?thesis using create_and_publish_isolated by auto
qed

lemma redownload_isolated: "isolated profile (db w) (db (snd (redownload_all now profile rs w)))"
proof (induction rs arbitrary: w)
  case (Cons r rs)
  obtain x w1 where c: "create_and_publish now profile ''download_single'' (PDict (redownload_payload r))
      (Some (redownload_key profile (dl_id r))) w = (x, w1)" by fastforce
  have "isolated profile (db w) (db w1)"
    using create_and_publish_isolated [of profile w now "''download_single''"] c by (metis snd_conv)
  then show ?case using Cons [of w1] isolated_trans by (cases x) (auto simp: c)
qed simp

section \<open>Sources and settings\<close>

lemma isolated_sources:
  assumes "\<And>r. r \<in> set (source_configs d) \<Longrightarrow> P r \<Longrightarrow> src_profile_id r = p" and "\<And>r. src_profile_id (f r) = src_profile_id r"
  shows "isolated p d (update_sources P f d)"
proof -
  have "rows_of src_profile_id q (update_where P f (source_configs d)) = rows_of src_profile_id q (source_configs d)" if "q \<noteq> p" for q
    using assms that by (intro rows_of_update) auto
  then show ?thesis by (simp add: isolated_def profile_view_def update_sources_def)
qed

lemma isolated_deleted_sources:
  assumes "\<And>r. r \<in> set (source_configs d) \<Longrightarrow> P r \<Longrightarrow> src_profile_id r = p"
  shows "isolated p d (delete_sources P d)"
proof -
  have "rows_of src_profile_id q (delete_where P (source_configs d)) = rows_of src_profile_id q (source_configs d)" if "q \<noteq> p" for q
    using assms that by (intro rows_of_delete) auto
  then show ?thesis by (simp add: isolated_def profile_view_def delete_sources_def)
qed

lemma new_source_owner: "src_profile_id (new_source now profile st f d) = profile"
  by (simp add: new_source_def)

lemma source_handlers_isolated [isolating]:
  assumes "api_wf d"
  shows "isolated profile d (snd (add_source now profile post d))" "isolated profile d (snd (update_source now profile n post d))"
    "isolated profile d (snd (toggle_source now profile n d))" "isolated profile d (snd (delete_source profile n d))"
proof -
  show "isolated profile d (snd (add_source now profile post d))"
    by (auto simp: add_source_def Let_def isolated_def profile_view_def rows_of_append new_source_owner split: option.split sum.split)
  show "isolated profile d (snd (update_source now profile n post d))"
    using own_source_owner [OF assms]
    by (auto simp: update_source_def Let_def split: option.split sum.split intro!: isolated_sources)
  show "isolated profile d (snd (toggle_source now profile n d))"
    using own_source_owner [OF assms] by (auto simp: toggle_source_def split: option.split intro!: isolated_sources)
  show "isolated profile d (snd (delete_source profile n d))"
    using own_source_owner [OF assms] by (auto simp: delete_source_def split: option.split intro!: isolated_deleted_sources)
qed

text \<open>The rows of a bulk save were read before the first is written; what is written keeps their owners.\<close>

definition owned_ids :: "string \<Rightarrow> int set \<Rightarrow> database \<Rightarrow> bool" where
  "owned_ids p ids d \<longleftrightarrow> (\<forall>r \<in> set (source_configs d). src_id r \<in> ids \<longrightarrow> src_profile_id r = p)"

lemma save_source_row_isolated:
  assumes "save_source_row now post s d = Inr d'" and "owned_ids p ids d" and "src_id s \<in> ids"
  shows "isolated p d d' \<and> owned_ids p ids d'"
proof -
  have own: "\<And>r. r \<in> set (source_configs d) \<Longrightarrow> src_id r = src_id s \<Longrightarrow> src_profile_id r = p"
    using assms(2,3) by (auto simp: owned_ids_def)
  have "isolated p d (update_sources (\<lambda>r. src_id r = src_id s) (apply_source_form now True f) d)" for f
    using own by (intro isolated_sources) auto
  moreover have "isolated p d (delete_sources (\<lambda>r. src_id r = src_id s) d)"
    using own by (intro isolated_deleted_sources) auto
  ultimately show ?thesis
    using assms(1,2)
    by (auto simp: save_source_row_def bind_result_Inr owned_ids_def update_sources_def delete_sources_def set_update_where
        split: if_splits)
qed

lemma save_source_rows_isolated:
  assumes "save_source_rows now post ss d = Inr d'" and "owned_ids p ids d" and "src_id ` set ss \<subseteq> ids"
  shows "isolated p d d'"
  using assms
proof (induction ss arbitrary: d)
  case (Cons s ss)
  then obtain d1 where d1: "save_source_row now post s d = Inr d1" "save_source_rows now post ss d1 = Inr d'"
    by (auto simp: bind_result_Inr)
  have "isolated p d d1 \<and> owned_ids p ids d1" using save_source_row_isolated [OF d1(1) Cons.prems(2)] Cons.prems(3) by simp
  then show ?case using Cons.IH [OF d1(2)] Cons.prems(3) isolated_trans by auto
qed simp

lemma posted_sources_isolated [isolating]:
  assumes "api_wf d"
  shows "isolated profile d (snd (save_sources now profile st0 post d))"
proof -
  let ?st = "py_lower (py_strip st0)"
  have "isolated profile d d'" if "save_source_rows now post (List.map_filter (\<lambda>n. editable_source profile ?st n d) ids) d = Inr d'" for ids d'
  proof (rule save_source_rows_isolated [OF that])
    let ?ids = "src_id ` set (List.map_filter (\<lambda>n. editable_source profile ?st n d) ids)"
    show "?ids \<subseteq> ?ids" by simp
    have "src_profile_id r = profile" if "r \<in> set (source_configs d)" "editable_source profile ?st n d = Some s" "src_id r = src_id s" for r n s
    proof -
      have "s \<in> set (source_configs d)" "src_profile_id s = profile"
        using that(2) by (auto simp: editable_source_def dest: first_row_Some)
      moreover have "r = s"
        using that calculation assms by (auto simp: api_wf_def sources_wf_def distinct_map inj_on_def)
      ultimately show ?thesis by simp
    qed
    then show "owned_ids profile ?ids d" by (auto simp: owned_ids_def map_filter_def)
  qed
  then show ?thesis by (auto simp: save_sources_def Let_def split: sum.split list.split)
qed

lemma upsert_config_isolated: "isolated profile d (upsert_config now profile k v d)"
proof -
  have "rows_of pc_profile_id q (update_where (\<lambda>r. pc_profile_id r = profile \<and> pc_key r = k) (\<lambda>r. r\<lparr>pc_value := v, pc_updated_at := now\<rparr>) t)
      = rows_of pc_profile_id q t" if "q \<noteq> profile" for q t
    using that by (intro rows_of_update) auto
  then show ?thesis
    by (auto simp: upsert_config_def Let_def isolated_def profile_view_def rows_of_append)
qed

lemma store_items_isolated: "isolated profile d (store_items now profile items d)"
proof (induction items arbitrary: d)
  case (Cons kv items)
  obtain k v where kv: "kv = (k, v)" by (cases kv)
  show ?case using Cons isolated_trans [OF upsert_config_isolated Cons] by (simp add: kv)
qed simp

lemma upsert_cookie_isolated: "isolated profile d (upsert_cookie now profile t d)"
proof -
  have "rows_of pds_profile_id q (update_where (\<lambda>r. pds_profile_id r = profile)
      (\<lambda>r. r\<lparr>pds_cookie_text := t, pds_cookie_updated_at := Some now, pds_updated_at := now\<rparr>) rows) = rows_of pds_profile_id q rows"
    if "q \<noteq> profile" for q and rows :: "profile_download_settings list"
    using that by (intro rows_of_update) auto
  then show ?thesis
    by (simp add: upsert_cookie_def Let_def isolated_def profile_view_def rows_of_append)
qed

lemma isolated_schedules:
  assumes "\<And>r. r \<in> set (scheduled_jobs d) \<Longrightarrow> sch_id r = n \<Longrightarrow> sch_profile_id r = p" and "\<And>r. sch_profile_id (f r) = sch_profile_id r"
  shows "isolated p d (update_schedule n f d)"
proof -
  have "rows_of sch_profile_id q (update_where (\<lambda>s. sch_id s = n) f (scheduled_jobs d)) = rows_of sch_profile_id q (scheduled_jobs d)"
    if "q \<noteq> p" for q
    using assms that by (intro rows_of_update) auto
  then show ?thesis by (simp add: isolated_def profile_view_def update_schedule_def)
qed

lemma sync_schedule_isolated:
  assumes "distinct (map sch_id (scheduled_jobs d))"
  shows "isolated profile d (sync_update_downloads_schedule now profile raw d)"
proof -
  have own: "sch_profile_id r = profile"
    if "update_schedule_of profile d = Some s" "r \<in> set (scheduled_jobs d)" "sch_id r = sch_id s" for s r
    using that assms by (auto simp: update_schedule_of_def distinct_map inj_on_def dest!: first_row_Some)
  have upd: "isolated profile d (update_schedule (sch_id s) f d)"
    if "update_schedule_of profile d = Some s" "\<And>r. sch_profile_id (f r) = sch_profile_id r" for s f
    using own [OF that(1)] that(2) by (intro isolated_schedules) auto
  show ?thesis
  proof (cases "py_int (py_strip (text_of raw))")
    case (Some minutes)
    show ?thesis
    proof (cases "update_schedule_of profile d")
      case None
      then show ?thesis
        by (simp add: sync_update_downloads_schedule_def Let_def Some isolated_def profile_view_def rows_of_append)
    next
      case s: (Some s)
      show ?thesis
        unfolding sync_update_downloads_schedule_def Let_def Some s option.case
        by (intro if_isolated isolated_refl upd [OF s]) simp_all
    qed
  qed (simp add: sync_update_downloads_schedule_def)
qed

lemma settings_keep_schedules:
  "scheduled_jobs (store_items now profile items d) = scheduled_jobs d" "scheduled_jobs (upsert_cookie now profile t d) = scheduled_jobs d"
proof -
  show "scheduled_jobs (store_items now profile items d) = scheduled_jobs d"
    by (induction items arbitrary: d) (auto simp: upsert_config_def Let_def split: prod.split)
qed (simp add: upsert_cookie_def Let_def)

lemma save_config_isolated [isolating]:
  assumes "api_wf d"
  shows "isolated profile d (snd (save_config now acquired profile post d))"
proof -
  define d1 where "d1 = store_items now profile (post_items post) d"
  define d2 where "d2 = (case post_get post ''youtube_cookie_text'' of None \<Rightarrow> d1 | Some t \<Rightarrow> upsert_cookie now profile t d1)"
  have 1: "isolated profile d d1" by (simp add: d1_def store_items_isolated)
  have 2: "isolated profile d1 d2" by (auto simp: d2_def upsert_cookie_isolated split: option.split)
  have "distinct (map sch_id (scheduled_jobs d2))"
    using assms by (auto simp: d2_def d1_def settings_keep_schedules api_wf_def split: option.split)
  then have "isolated profile d2 (sync_update_downloads_schedule now profile raw d2)" for raw by (rule sync_schedule_isolated)
  then have 3: "isolated profile d (case post_get post ''config__auto_update_minutes'' of
      None \<Rightarrow> d2 | Some m \<Rightarrow> sync_update_downloads_schedule now profile (Some m) d2)"
    using isolated_trans [OF 1 2] isolated_trans [OF isolated_trans [OF 1 2]] by (simp split: option.split)
  show ?thesis
    unfolding save_config_def Let_def d1_def [symmetric] d2_def [symmetric] using 3 by simp
qed

section \<open>Batches\<close>

lemma isolated_deleted_downloads:
  assumes "api_wf d" and "\<And>r. P r \<Longrightarrow> dl_profile_id r = p"
  shows "isolated p d (delete_downloads P d)"
proof -
  have ids: "distinct (map dl_id (downloads d))" using assms(1) by (simp add: api_wf_def downloads_wf_def)
  define gone where "gone = set (map dl_id (filter P (downloads d)))"
  have others: "dl_id r \<notin> gone" if "r \<in> set (downloads d)" "dl_profile_id r \<noteq> p" for r
    using that assms(2) ids by (auto simp: gone_def distinct_map inj_on_def)
  have view: "profile_view q (delete_downloads P d) = profile_view q d" if q: "q \<noteq> p" for q
  proof -
    have dl: "rows_of dl_profile_id q (delete_where P (downloads d)) = rows_of dl_profile_id q (downloads d)"
      using assms(2) q by (intro rows_of_delete) auto
    let ?pls = "set (map pl_id (rows_of pl_profile_id q (playlists d)))"
    have "pi_download i \<notin> gone" if i: "i \<in> set (playlist_items d)" "pi_playlist i \<in> ?pls" for i
    proof -
      obtain pl r where j: "pl \<in> set (playlists d)" "r \<in> set (downloads d)" "pl_id pl = pi_playlist i"
          "dl_id r = pi_download i" "dl_profile_id r = pl_profile_id pl"
        using assms(1) i(1) by (auto simp: api_wf_def playlists_wf_def)
      have "pl_profile_id pl = q"
        using j(1,3) i(2) assms(1) by (auto simp: rows_of_def api_wf_def playlists_wf_def distinct_map inj_on_def)
      then show ?thesis using others [of r] j q by auto
    qed
    then have items: "filter (\<lambda>i. pi_playlist i \<in> ?pls) (delete_where (\<lambda>i. pi_download i \<in> gone) (playlist_items d))
        = filter (\<lambda>i. pi_playlist i \<in> ?pls) (playlist_items d)"
      by (auto simp: delete_where_def intro: filter_cong)
    let ?eps = "set (map dl_id (rows_of dl_profile_id q (downloads d)))"
    have "n \<notin> gone" if "n \<in> ?eps" for n using that others q by (auto simp: rows_of_def)
    then have segs: "filter (\<lambda>s. seg_download s \<in> ?eps) (delete_where (\<lambda>s. seg_download s \<in> gone) (transcript_segments d))
        = filter (\<lambda>s. seg_download s \<in> ?eps) (transcript_segments d)"
      by (auto simp: delete_where_def intro: filter_cong)
    show ?thesis
      using dl items segs by (simp add: profile_view_def delete_downloads_def Let_def gone_def)
  qed
  then show ?thesis by (simp add: isolated_def delete_downloads_def Let_def)
qed

lemma batch_rows_isolated:
  assumes "api_wf (db w)"
  shows "isolated profile (db w) (db (snd (batch_rows env now profile action ids w)))"
proof -
  have upd: "isolated profile (db w) (update_downloads_where (selected profile ids) f (db w))"
    if "\<And>r. dl_profile_id (f r) = dl_profile_id r" for f
    using that by (intro isolated_downloads) (auto simp: selected_def)
  have del: "isolated profile (db w) (delete_downloads (selected profile ids) (db w))"
    using assms by (intro isolated_deleted_downloads) (auto simp: selected_def)
  have again: "isolated profile (db w) (db (snd (case redownload_all now profile rows w of
      (Some e, w1) \<Rightarrow> (Raised e, w1) | (None, w1) \<Rightarrow> (Done (), w1))))" for rows
    using redownload_isolated [of profile w now rows] by (auto split: prod.split option.split)
  have pick: "isolated profile (db w) (db (snd x)) \<Longrightarrow> isolated profile (db w) (db (snd y))
      \<Longrightarrow> isolated profile (db w) (db (snd (if b then x else y)))" for x y :: "unit reply \<times> world" and b by simp
  show ?thesis
    unfolding batch_rows_def Let_def
    by (intro pick again) (simp_all add: upd del)
qed

lemma batch_update_isolated [isolating]:
  "api_wf (db w) \<Longrightarrow> isolated profile (db w) (db (snd (batch_update env now profile post w)))"
  using batch_rows_isolated by (auto simp: batch_update_def split: sum.split)

section \<open>Playlists of the API\<close>

lemma isolated_playlists:
  assumes "\<And>q. q \<noteq> p \<Longrightarrow> rows_of pl_profile_id q pls = rows_of pl_profile_id q (playlists d)"
    and "\<And>q. q \<noteq> p \<Longrightarrow> filter (\<lambda>i. pi_playlist i \<in> set (map pl_id (rows_of pl_profile_id q (playlists d)))) items
      = filter (\<lambda>i. pi_playlist i \<in> set (map pl_id (rows_of pl_profile_id q (playlists d)))) (playlist_items d)"
  shows "isolated p d (d\<lparr>playlists := pls, playlist_items := items, next_playlist_id := n, next_playlist_item_id := m\<rparr>)"
  using assms by (simp add: isolated_def profile_view_def)

lemma other_playlists_items:
  assumes "api_wf d" and "own_playlist profile n d = Some p" and "q \<noteq> profile"
  shows "n \<notin> set (map pl_id (rows_of pl_profile_id q (playlists d)))"
  using own_playlist_owner [OF assms(1,2)] assms(3) by (auto simp: rows_of_def)

lemma touch_isolated:
  assumes "\<And>r. r \<in> set (playlists d) \<Longrightarrow> pl_id r = n \<Longrightarrow> pl_profile_id r = profile"
  shows "isolated profile d (touch_playlist now n d)"
proof -
  have "rows_of pl_profile_id q (update_where (\<lambda>p. pl_id p = n) (\<lambda>p. p\<lparr>pl_updated_at := now\<rparr>) (playlists d))
      = rows_of pl_profile_id q (playlists d)" if "q \<noteq> profile" for q
    using assms that by (intro rows_of_update) auto
  then show ?thesis by (simp add: isolated_def profile_view_def touch_playlist_def)
qed

lemma insert_items_frame:
  "insert_items now n present pos ms d = (res, d') \<Longrightarrow>
     (\<exists>new m. d' = d\<lparr>playlist_items := playlist_items d @ new, next_playlist_item_id := m\<rparr> \<and> (\<forall>i \<in> set new. pi_playlist i = n))"
proof (induction ms arbitrary: pos d res d')
  case Nil
  then have "d' = d\<lparr>playlist_items := playlist_items d @ [], next_playlist_item_id := next_playlist_item_id d\<rparr>" by simp
  then show ?case by (metis empty_iff empty_set)
next
  case (Cons m ms)
  show ?case
  proof (cases "m \<in> set present")
    case True
    then show ?thesis using Cons by simp
  next
    case False
    show ?thesis
    proof (cases "insert_item now n m (pos + 1) d")
      case (Inl e)
      then have "d' = d\<lparr>playlist_items := playlist_items d @ [], next_playlist_item_id := next_playlist_item_id d\<rparr>"
        using Cons.prems False by simp
      then show ?thesis by (metis empty_iff empty_set)
    next
      case (Inr d1)
      define i where "i = \<lparr>pi_id = next_playlist_item_id d, pi_playlist = n, pi_download = m, pi_position = pos + 1, pi_added_at = now\<rparr>"
      have i: "pi_playlist i = n"
          "d1 = d\<lparr>playlist_items := playlist_items d @ [i], next_playlist_item_id := next_playlist_item_id d + 1\<rparr>"
        using Inr by (auto simp: insert_item_def i_def split: if_splits)
      obtain r2 where "insert_items now n present (pos + 1) ms d1 = (r2, d')"
        using Cons.prems False Inr by (auto split: prod.splits sum.splits)
      from Cons.IH [OF this] obtain new k where "d' = d1\<lparr>playlist_items := playlist_items d1 @ new, next_playlist_item_id := k\<rparr>"
          "\<forall>i \<in> set new. pi_playlist i = n" by blast
      then have "d' = d\<lparr>playlist_items := playlist_items d @ (i # new), next_playlist_item_id := k\<rparr>
          \<and> (\<forall>i \<in> set (i # new). pi_playlist i = n)" using i by simp
      then show ?thesis by blast
    qed
  qed
qed

lemma playlist_add_isolated [isolating]:
  assumes "api_wf d"
  shows "isolated profile d (snd (playlist_add_items loads now profile n rq d))"
proof (cases "own_playlist profile n d")
  case (Some p)
  have "isolated profile d (touch_playlist now n d1) \<and> isolated profile d d1"
    if run: "insert_items now n present pos wanted d = (res, d1)" for present pos wanted res d1
  proof -
    obtain new k where d1: "d1 = d\<lparr>playlist_items := playlist_items d @ new, next_playlist_item_id := k\<rparr>"
        and new: "\<forall>i \<in> set new. pi_playlist i = n"
      using insert_items_frame [OF run] by blast
    have none: "filter (\<lambda>i. pi_playlist i \<in> set (map pl_id (rows_of pl_profile_id q (playlists d)))) new = []" if "q \<noteq> profile" for q
      using other_playlists_items [OF assms Some that] new by (simp add: filter_empty_conv)
    have "isolated profile d d1" using none by (simp add: isolated_def profile_view_def d1)
    moreover have "isolated profile d1 (touch_playlist now n d1)"
      using own_playlist_owner [OF assms Some] by (intro touch_isolated) (auto simp: d1)
    ultimately show ?thesis using isolated_trans by blast
  qed
  then show ?thesis
    by (auto simp: playlist_add_items_def Some Let_def split: option.split prod.split sum.split)
qed (simp add: playlist_add_items_def)

lemma delete_items_isolated:
  assumes "api_wf d" and "own_playlist profile n d = Some p" and "\<And>i. P i \<Longrightarrow> pi_playlist i = n"
  shows "isolated profile d (d\<lparr>playlist_items := delete_where P (playlist_items d)\<rparr>)"
proof -
  have "filter (\<lambda>i. pi_playlist i \<in> set (map pl_id (rows_of pl_profile_id q (playlists d)))) (delete_where P (playlist_items d))
      = filter (\<lambda>i. pi_playlist i \<in> set (map pl_id (rows_of pl_profile_id q (playlists d)))) (playlist_items d)" if "q \<noteq> profile" for q
    using other_playlists_items [OF assms(1,2) that] assms(3) by (auto simp: delete_where_def intro: filter_cong)
  then show ?thesis by (simp add: isolated_def profile_view_def)
qed

lemma playlist_remove_isolated [isolating]:
  assumes "api_wf d"
  shows "isolated profile d (snd (playlist_remove_item now profile n m d))"
proof (cases "own_playlist profile n d")
  case (Some p)
  define d1 where "d1 = d\<lparr>playlist_items := delete_where (\<lambda>i. pi_playlist i = n \<and> pi_download i = m) (playlist_items d)\<rparr>"
  have 1: "isolated profile d d1" unfolding d1_def by (rule delete_items_isolated [OF assms Some]) simp
  have "isolated profile d1 (touch_playlist now n d1)"
    using own_playlist_owner [OF assms Some] by (intro touch_isolated) (auto simp: d1_def)
  then show ?thesis
    using 1 isolated_trans [OF 1] by (simp add: playlist_remove_item_def Some Let_def d1_def)
qed (simp add: playlist_remove_item_def)

lemma playlist_delete_isolated [isolating]:
  assumes "api_wf d"
  shows "isolated profile d (snd (playlist_delete profile n d))"
proof (cases "own_playlist profile n d")
  case (Some p)
  define d1 where "d1 = d\<lparr>playlist_items := delete_where (\<lambda>i. pi_playlist i = n) (playlist_items d)\<rparr>"
  have 1: "isolated profile d d1" unfolding d1_def by (rule delete_items_isolated [OF assms Some])
  have "rows_of pl_profile_id q (delete_where (\<lambda>q. pl_id q = n) (playlists d)) = rows_of pl_profile_id q (playlists d)"
    if "q \<noteq> profile" for q
    using own_playlist_owner [OF assms Some] that by (intro rows_of_delete) auto
  then have "isolated profile d1 (d1\<lparr>playlists := delete_where (\<lambda>q. pl_id q = n) (playlists d1)\<rparr>)"
    by (simp add: isolated_def profile_view_def d1_def)
  moreover have "snd (playlist_delete profile n d) = d1\<lparr>playlists := delete_where (\<lambda>q. pl_id q = n) (playlists d1)\<rparr>"
    by (simp add: playlist_delete_def Some d1_def)
  ultimately show ?thesis using isolated_trans [OF 1] by simp
qed (simp add: playlist_delete_def)

lemma playlist_create_isolated [isolating]: "isolated profile d (snd (playlist_create loads now profile rq d))"
  by (simp add: playlist_create_def Let_def isolated_def profile_view_def rows_of_append)

section \<open>Uploads of the API\<close>

lemma update_or_create_isolated:
  assumes "update_or_create now profile uid f d = Inr (r, d')" and "downloads_wf d"
    and "\<And>x. dl_id (f x) = dl_id x" and "\<And>x. dl_profile_id (f x) = dl_profile_id x"
  shows "isolated profile d d' \<and> downloads_wf d'"
proof -
  let ?P = "\<lambda>r. dl_profile_id r = profile \<and> dl_item_uid r = Some uid"
  consider (fresh) "filter ?P (downloads d) = []" | (known) x where "filter ?P (downloads d) = [x]"
    | (several) x y zs where "filter ?P (downloads d) = x # y # zs"
    by (cases "filter ?P (downloads d)" rule: remdups_adj.cases) auto
  then show ?thesis
  proof cases
    case fresh
    then have d': "d' = d\<lparr>downloads := downloads d @ [f (blank_download now profile uid d)], next_download_id := next_download_id d + 1\<rparr>"
      using assms(1) by (auto simp: update_or_create_def Let_def)
    have own: "dl_profile_id (f (blank_download now profile uid d)) = profile" "dl_id (f (blank_download now profile uid d)) = next_download_id d"
      by (simp_all add: assms(3,4) blank_download_def)
    have "isolated profile d d'" by (simp add: d' isolated_def profile_view_def rows_of_append own)
    moreover have "downloads_wf d'" using assms(2) by (auto simp: downloads_wf_def d' own)
    ultimately show ?thesis ..
  next
    case (known x)
    have "x \<in> set (filter ?P (downloads d))" by (simp add: known)
    then have x: "x \<in> set (downloads d)" "dl_profile_id x = profile" by simp_all
    have d': "d' = update_downloads_where (\<lambda>y. dl_id y = dl_id x) f d"
      using assms(1) known by (simp add: update_or_create_def)
    have "isolated profile d d'"
      unfolding d' using x assms(2,4) by (intro isolated_downloads) (auto simp: downloads_wf_def distinct_map inj_on_def)
    moreover have "downloads_wf d'"
      using assms(2,3) map_update_where_frame [of dl_id f "\<lambda>y. dl_id y = dl_id x" "downloads d"]
      by (auto simp: d' downloads_wf_def update_downloads_where_def set_update_where)
    ultimately show ?thesis ..
  qed (use assms(1) in \<open>simp add: update_or_create_def\<close>)
qed

lemma write_upload_isolated:
  assumes "write_manual_upload env now profile f w = Some (res, w')" and "downloads_wf (db w)"
  shows "isolated profile (db w) (db w') \<and> downloads_wf (db w')"
proof -
  have store: "isolated profile (db v) (db v') \<and> downloads_wf (db v')"
    if "store_upload env now profile base p name payload v = (r, v')" "downloads_wf (db v)" for base p name payload v r v'
  proof (cases "update_or_create now profile (ff_uid (upload_facts env base p name payload))
      (manual_fields now (upload_facts env base p name payload)) (db v)")
    case (Inr rd)
    obtain x d1 where rd: "rd = (x, d1)" by (cases rd)
    have "isolated profile (db v) d1 \<and> downloads_wf d1"
      using update_or_create_isolated [OF Inr [unfolded rd] that(2)] by simp
    then show ?thesis using that Inr rd by (auto simp: store_upload_def Let_def split: if_splits)
  qed (use that in \<open>auto simp: store_upload_def Let_def split: if_splits\<close>)
  show ?thesis
    using assms store [of _ _ _ _ "w\<lparr>files := fs\<rparr>" res w' for fs]
    by (auto simp: write_manual_upload_def Let_def split: if_splits sum.splits option.splits)
qed

lemma queue_upload_isolated:
  "isolated profile (db w) (db (snd (queue_upload now profile r p w)))
   \<and> (downloads_wf (db w) \<longrightarrow> downloads_wf (db (snd (queue_upload now profile r p w))))"
proof -
  obtain kind payload key where q: "queue_upload now profile r p w = create_and_publish now profile kind payload (Some key) w"
    by (cases "py_lower (path_suffix p) \<in> set DOCUMENT_UPLOAD_EXTENSIONS") (auto simp: queue_upload_def Let_def)
  have "downloads (db (snd (create_and_publish now profile kind payload k w))) = downloads (db w)
      \<and> next_download_id (db (snd (create_and_publish now profile kind payload k w))) = next_download_id (db w)" for k
    by (auto simp: create_and_publish_def create_job_def create_insert_def insert_job_def publish_job_def Let_def
        split: option.split sum.split prod.split)
  then show ?thesis by (simp add: q create_and_publish_isolated downloads_wf_def)
qed

lemma upload_one_isolated:
  assumes "upload_one env now profile f w = Some (res, w')" and "downloads_wf (db w)"
  shows "isolated profile (db w) (db w') \<and> downloads_wf (db w')"
proof -
  obtain r1 w1 where w1: "write_manual_upload env now profile f w = Some (r1, w1)"
    using assms(1) by (auto simp: upload_one_def split: option.splits)
  note a = write_upload_isolated [OF w1 assms(2)]
  show ?thesis
  proof (cases r1)
    case (Inl e)
    then show ?thesis using assms(1) w1 a by (simp add: upload_one_def)
  next
    case (Inr rp)
    obtain r p where rp: "rp = (r, p)" by (cases rp)
    have "w' = snd (queue_upload now profile r p w1)"
      using assms(1) w1 Inr rp by (auto simp: upload_one_def split: prod.splits sum.splits)
    then show ?thesis using a queue_upload_isolated [of profile w1 now r p] isolated_trans by auto
  qed
qed

fun is_value_error :: "error \<Rightarrow> bool" where
  "is_value_error (ValueError _) = True"
| "is_value_error _ = False"

lemma upload_all_isolated:
  assumes "upload_all env now profile fs acc w = Some (res, w')" and "downloads_wf (db w)"
  shows "isolated profile (db w) (db w')"
  using assms
proof (induction fs arbitrary: acc w)
  case (Cons f fs)
  obtain r w1 where one: "upload_one env now profile f w = Some (r, w1)"
    using Cons.prems(1) by (auto split: option.splits)
  note a = upload_one_isolated [OF one Cons.prems(2)]
  have "w' = w1 \<or> (\<exists>acc. upload_all env now profile fs acc w1 = Some (res, w'))"
  proof (cases r)
    case (Inl e)
    then show ?thesis using Cons.prems(1) one by (cases e) auto
  next
    case (Inr u)
    then show ?thesis using Cons.prems(1) one by auto
  qed
  then show ?case using a Cons.IH isolated_trans by blast
qed simp

lemma manual_upload_isolated [isolating]:
  assumes "manual_upload env now profile fs w = Some (r, w')" and "api_wf (db w)"
  shows "isolated profile (db w) (db w')"
proof -
  have "downloads_wf (db w)" using assms(2) by (simp add: api_wf_def)
  then show ?thesis
    using assms(1) upload_all_isolated [of env now profile fs "([], [])" w]
    by (auto simp: manual_upload_def split: if_splits option.splits sum.splits)
qed

section \<open>The service\<close>

lemma api_world_isolated:
  assumes "api_wf (db w)"
  shows "isolated profile (db w) (db (api_world env profile verb route i w))"
proof (cases route)
  case ApiManualUpload
  then show ?thesis
    using manual_upload_isolated assms by (auto split: option.split)
qed (use assms in \<open>simp_all add: isolating on_db_def\<close>)

text \<open>C4: The API keeps its users apart and strangers out: whatever the request, its address, its form,
  its JSON or its files, the database changes only for a POST of an active account's accepted
  credentials or of a session with a valid CSRF token, and then no row of any other profile changes:
  settings, cookies, sources, episodes, segments, playlists with their items, schedules and jobs.\<close>

theorem users_kept_apart:
  assumes "api_wf (db w)" and "db (world_after env route i rq w) \<noteq> db w"
  shows "\<exists>name. speaks_for (ae_users env) rq name \<and> hr_method rq = ''POST'' \<and>
    app_config (db (world_after env route i rq w)) = app_config (db w) \<and>
    (\<forall>q. q \<noteq> or_else name ''default'' \<longrightarrow> profile_view q (db (world_after env route i rq w)) = profile_view q (db w))"
proof -
  have "world_after env route i rq w \<noteq> w" using assms(2) by auto
  then obtain name where "speaks_for (ae_users env) rq name" "hr_method rq = ''POST''"
      "world_after env route i rq w = api_world env (or_else name ''default'') ''POST'' route i w"
    using change_of_user by blast
  then show ?thesis
    using api_world_isolated [OF assms(1), of "or_else name ''default''" env "''POST''" route i]
    by (auto simp: isolated_def)
qed

definition two_users :: world where
  "two_users = empty_world\<lparr>db := empty_database\<lparr>downloads := [blank_row 1 ''ann'', blank_row 2 ''bob''], next_download_id := 3\<rparr>\<rparr>"

definition sample_api_env :: api_env where
  "sample_api_env =
     \<lparr>ae_now = 9, ae_loads = (\<lambda>_. None), ae_files = \<lparr>expand = id, denied = (\<lambda>_. False)\<rparr>,
      ae_uploads = \<lparr>up_absolute = id, up_sha1 = id, up_saves = True\<rparr>, ae_lock_acquired = True, ae_token = ''t'',
      ae_users = one_user, ae_worker_token = []\<rparr>"

definition no_input :: api_input where
  "no_input = \<lparr>ai_request = \<lparr>rq_content_type = [], rq_body = [], rq_post = [], rq_get = []\<rparr>, ai_files = []\<rparr>"

lemma two_users_wf: "api_wf (db two_users)"
  by (simp add: api_wf_def downloads_wf_def sources_wf_def playlists_wf_def two_users_def empty_database_def blank_row_def
      blank_download_def)

lemma basic_request_accepted:
  "authenticate_basic one_user basic_request = Inr (Some (basic_request\<lparr>hr_user := Some ''ann''\<rparr>))"
proof -
  have "py_lower ''authorization'' = py_lower ''Authorization''" by code_simp
  then have "header_value basic_request ''Authorization'' = basic_credentials ''ann'' ''pw''"
    by (simp add: header_value_def basic_request_def)
  from basic_accepted [OF this, of one_user] show ?thesis by (simp add: one_user_def)
qed

theorem users_kept_apart_witness:
  "map dl_played (downloads (db (world_after sample_api_env (ApiMarkPlayed 1) no_input basic_request two_users))) = [True, False]
   \<and> profile_view ''bob'' (db (world_after sample_api_env (ApiMarkPlayed 1) no_input basic_request two_users))
      = profile_view ''bob'' (db two_users)"
proof -
  let ?w = "world_after sample_api_env (ApiMarkPlayed 1) no_input basic_request two_users"
  have w: "?w = on_db (mark_played 9 ''ann'' 1) two_users"
    using basic_request_accepted
    by (simp add: world_after_def api_serve_def api_login_required_def sample_api_env_def checked_view_def require_method_def
        profile_id_for_request_def or_else_def basic_request_def)
  have played: "map dl_played (downloads (db ?w)) = [True, False]"
    unfolding w by (simp add: on_db_def mark_played_def on_own_download_def own_download_def two_users_def empty_database_def
        blank_row_def blank_download_def empty_world_def)
  moreover have "map dl_played (downloads (db two_users)) = [False, False]"
    by (simp add: two_users_def empty_database_def blank_row_def blank_download_def)
  ultimately have "db ?w \<noteq> db two_users" by auto
  from users_kept_apart [OF two_users_wf this] obtain name where name: "speaks_for one_user basic_request name"
      "\<forall>q. q \<noteq> or_else name ''default'' \<longrightarrow> profile_view q (db ?w) = profile_view q (db two_users)"
    by (auto simp: sample_api_env_def)
  have "name = ''ann''" using name(1) by (auto simp: speaks_for_def one_user_def basic_request_def split: if_splits)
  then show ?thesis using name(2) played by (simp add: or_else_def)
qed

section \<open>An observation\<close>

text \<open>
  The key that makes a job unique is not the profile's: a form may name any key, and a request
  whose key an active job of another profile has gets that job and queues nothing of its own.
\<close>

lemma foreign_key_takes_over:
  assumes "create_lookup (Some key) (db w) = Some j" and "job_profile_id j \<noteq> profile"
    and "post_text post ''job_type'' = ''download_single''" and "post_get post ''idempotency_key'' = Some key" and "key \<noteq> []"
  shows "jobs (db (snd (enqueue_job now token profile post w))) = jobs (db w)"
proof -
  have kind: "py_strip ''download_single'' = ''download_single''" "''download_single'' \<in> set ALLOWED_JOB_TYPES" by code_simp+
  have key: "enqueue_key token ''download_single'' profile post = key" using assms(4,5) by (simp add: enqueue_key_def post_text_def or_else_def)
  have kept: "jobs (db w2) = jobs (db w1)" if "publish_job m w1 = Inr w2" for m w1 w2
    using that by (auto simp: publish_job_def Let_def split: option.splits)
  have "jobs (db (snd (create_and_publish now profile ''download_single'' payload (Some key) w))) = jobs (db w)" for payload
    using assms(1) kept by (auto simp: create_and_publish_def create_job_def Let_def split: sum.split)
  then show ?thesis
    using kind key assms(3) by (auto simp: enqueue_job_def Let_def split: prod.split sum.split) (metis snd_conv)+
qed

end
