(* ===== verification/Commands.thy ===== *)
theory Commands
  imports Api ScheduledJobs
begin

text \<open>
  The management commands of \<open>src/src/models/management/commands\<close>: accounts, the scheduler process with its
  default schedules, the import of a downloads directory and the completion of the database schema.
  The user table is a list of accounts with hashed passwords; the hash, the normal form of a user
  name, the random parts of a scan account and the listings of directories are arguments. What a
  command prints is its result.
\<close>

section \<open>Outcomes\<close>

text \<open>A \<open>CommandError\<close> ends a command with a message; any other exception ends it with a traceback.\<close>

datatype 'a command = Ran 'a | CommandError string | Crashed error

section \<open>Accounts\<close>

record account =
  ac_username :: string
  ac_password :: string
  ac_staff :: bool
  ac_superuser :: bool

record account_env =
  ae_hash :: "string \<Rightarrow> string"
  ae_normal :: "string \<Rightarrow> string"
  ae_home :: "path \<Rightarrow> path"

record account_args =
  aa_username :: string
  aa_password :: string
  aa_admin :: bool
  aa_update :: bool
  aa_downloads_root :: string

definition ensure_downloads_directory :: "time \<Rightarrow> string \<Rightarrow> path \<Rightarrow> world \<Rightarrow> error + world" where
  "ensure_downloads_directory now username output_root w =
     bind_result (make_dirs (ancestors output_root) (files w)) (\<lambda>fs.
       Inr (w\<lparr>files := fs, db := upsert_config now username ''output_root'' (path_str output_root) (db w)\<rparr>))"

text \<open>\<open>create_user\<close> stores the normal form of the name, which has to be new.\<close>

definition insert_account :: "account_env \<Rightarrow> account_args \<Rightarrow> string \<Rightarrow> account list \<Rightarrow> account list option" where
  "insert_account env a username users =
     (if exists_row (\<lambda>u. ac_username u = ae_normal env username) users then None
      else Some (users @ [\<lparr>ac_username = ae_normal env username, ac_password = ae_hash env (aa_password a),
                           ac_staff = aa_admin a, ac_superuser = aa_admin a\<rparr>]))"

definition create_user ::
    "account_env \<Rightarrow> time \<Rightarrow> account_args \<Rightarrow> account list \<times> world \<Rightarrow> path command \<times> account list \<times> world" where
  "create_user env now a = (\<lambda>(users, w).
     let username = py_strip (aa_username a);
         output_root = path_join (ae_home env (path_of (aa_downloads_root a))) (path_of username);
         ensured = (\<lambda>us. case ensure_downloads_directory now username output_root w of
                       Inl e \<Rightarrow> (Crashed e, us, w)
                     | Inr w1 \<Rightarrow> (Ran output_root, us, w1))
     in if username = [] then (CommandError ''username is required'', users, w)
        else if aa_password a = [] then (CommandError ''--password cannot be empty'', users, w)
        else if exists_row (\<lambda>u. ac_username u = username) users then
          (if \<not> aa_update a
           then (CommandError (''User '' @ repr_str username @ '' already exists. Use --update to change it.''), users, w)
           else ensured (update_where (\<lambda>u. ac_username u = username)
                  (\<lambda>u. u\<lparr>ac_password := ae_hash env (aa_password a), ac_staff := aa_admin a, ac_superuser := aa_admin a\<rparr>) users))
        else (case insert_account env a username users of
            None \<Rightarrow> (CommandError ''UNIQUE constraint failed'', users, w)
          | Some us \<Rightarrow> ensured us))"

definition create_wapiti_user :: "account_env \<Rightarrow> string \<Rightarrow> string \<Rightarrow> account list \<Rightarrow> string command \<times> account list" where
  "create_wapiti_user env token password users =
     (let username = ''wapiti_scan_'' @ token;
          a = \<lparr>aa_username = username, aa_password = password, aa_admin = False, aa_update = False, aa_downloads_root = []\<rparr>
      in case insert_account env a username users of
           None \<Rightarrow> (Crashed (DatabaseError ''UNIQUE constraint failed''), users)
         | Some us \<Rightarrow> (Ran (username @ '':'' @ password), us))"

text \<open>
  The rows of a profile, model by model; deleting a playlist deletes its items, deleting an episode its
  items and its segments.
\<close>

definition delete_profile_rows :: "string \<Rightarrow> database \<Rightarrow> database" where
  "delete_profile_rows p d =
     (let gone = map dl_id (rows_of dl_profile_id p (downloads d));
          lists = map pl_id (rows_of pl_profile_id p (playlists d))
      in d\<lparr>profile_config := delete_where (\<lambda>r. pc_profile_id r = p) (profile_config d),
           download_settings := delete_where (\<lambda>r. pds_profile_id r = p) (download_settings d),
           source_configs := delete_where (\<lambda>r. src_profile_id r = p) (source_configs d),
           downloads := delete_where (\<lambda>r. dl_profile_id r = p) (downloads d),
           transcript_segments := delete_where (\<lambda>s. seg_download s \<in> set gone) (transcript_segments d),
           playlists := delete_where (\<lambda>r. pl_profile_id r = p) (playlists d),
           playlist_items := delete_where (\<lambda>i. pi_download i \<in> set gone \<or> pi_playlist i \<in> set lists) (playlist_items d),
           scheduled_jobs := delete_where (\<lambda>r. sch_profile_id r = p) (scheduled_jobs d),
           jobs := delete_where (\<lambda>r. job_profile_id r = p) (jobs d)\<rparr>)"

definition delete_wapiti_user :: "string \<Rightarrow> account list \<times> database \<Rightarrow> unit command \<times> account list \<times> database" where
  "delete_wapiti_user username = (\<lambda>(users, d).
     if \<not> prefix ''wapiti_scan_'' username
     then (CommandError ''Only wapiti_scan_ users can be deleted by this command'', users, d)
     else (Ran (), delete_where (\<lambda>u. ac_username u = username) users, delete_profile_rows username d))"

section \<open>The scheduler process\<close>

record schedule_spec =
  sp_profile_id :: string
  sp_job_type :: string
  sp_interval_seconds :: int
  sp_template :: string

definition DEFAULT_SCHEDULES :: "schedule_spec list" where
  "DEFAULT_SCHEDULES =
     [\<lparr>sp_profile_id = ''default'', sp_job_type = ''update_downloads'', sp_interval_seconds = 3600,
       sp_template = ''scheduled:update_downloads:${profile_id}:${due_hour}''\<rparr>,
      \<lparr>sp_profile_id = ''default'', sp_job_type = ''retention_cleanup'', sp_interval_seconds = 86400,
       sp_template = ''scheduled:retention_cleanup:${profile_id}:${due_date}''\<rparr>]"

definition schedule_of_spec :: "time \<Rightarrow> time \<Rightarrow> schedule_spec \<Rightarrow> database \<Rightarrow> scheduled_job" where
  "schedule_of_spec now clock s d =
     \<lparr>sch_id = next_schedule_id d, sch_profile_id = sp_profile_id s, sch_job_type = sp_job_type s, sch_enabled = True,
      sch_interval_seconds = sp_interval_seconds s, sch_payload = scheduler_payload, sch_template = sp_template s,
      sch_next_run_at = now, sch_last_run_at = None, sch_created_at = clock, sch_updated_at = clock\<rparr>"

definition of_spec :: "schedule_spec \<Rightarrow> scheduled_job \<Rightarrow> bool" where
  "of_spec s r \<longleftrightarrow> sch_profile_id r = sp_profile_id s \<and> sch_job_type r = sp_job_type s"

text \<open>\<open>get_or_create\<close> raises when several rows match.\<close>

definition install_schedule :: "time \<Rightarrow> time \<Rightarrow> schedule_spec \<Rightarrow> database \<Rightarrow> error + database" where
  "install_schedule now clock s d =
     (case filter (of_spec s) (scheduled_jobs d) of
        [] \<Rightarrow> Inr (d\<lparr>scheduled_jobs := scheduled_jobs d @ [schedule_of_spec now clock s d],
                     next_schedule_id := next_schedule_id d + 1\<rparr>)
      | [_] \<Rightarrow> Inr d
      | _ \<Rightarrow> Inl (MultipleRows (sp_job_type s)))"

fun install_schedules :: "time \<Rightarrow> time \<Rightarrow> schedule_spec list \<Rightarrow> database \<Rightarrow> error + database" where
  "install_schedules now clock [] d = Inr d"
| "install_schedules now clock (s # ss) d = bind_result (install_schedule now clock s d) (install_schedules now clock ss)"

definition install_defaults :: "time \<Rightarrow> time \<Rightarrow> database \<Rightarrow> error + database" where
  "install_defaults now clock d = install_schedules now clock DEFAULT_SCHEDULES d"

text \<open>One pass at an instant, with the later readings of the clock inside it.\<close>

definition run_once :: "int \<Rightarrow> time \<times> time \<Rightarrow> world \<Rightarrow> error + int \<times> world" where
  "run_once limit = (\<lambda>(now, clock) w.
     bind_result (enqueue_due_scheduled_jobs now clock limit w) (\<lambda>(ids, w1). Inr (int (length ids), w1)))"

text \<open>The endless loop, cut after the passes whose instants are given.\<close>

fun scheduler_loop :: "int \<Rightarrow> (time \<times> time) list \<Rightarrow> world \<Rightarrow> error + int list \<times> world" where
  "scheduler_loop limit [] w = Inr ([], w)"
| "scheduler_loop limit (t # ts) w =
     bind_result (run_once limit t w) (\<lambda>(n, w1).
       bind_result (scheduler_loop limit ts w1) (\<lambda>(ns, w2). Inr (n # ns, w2)))"

record scheduler_args =
  sg_install_defaults :: bool
  sg_loop :: bool
  sg_limit :: int

definition run_scheduler ::
    "scheduler_args \<Rightarrow> time \<times> time \<Rightarrow> (time \<times> time) list \<Rightarrow> world \<Rightarrow> error + int list \<times> world" where
  "run_scheduler a install_at passes w =
     bind_result (if sg_install_defaults a then install_defaults (fst install_at) (snd install_at) (db w) else Inr (db w))
       (\<lambda>d. let w1 = w\<lparr>db := d\<rparr> in
         if sg_loop a then scheduler_loop (sg_limit a) passes w1
         else scheduler_loop (sg_limit a) (take 1 passes) w1)"

definition poll_seconds :: "int \<Rightarrow> int" where
  "poll_seconds n = max 5 n"

section \<open>Importing a downloads directory\<close>

definition IMPORT_SUFFIXES :: "string list" where
  "IMPORT_SUFFIXES = [''.mp3'', ''.m4a'', ''.wav'', ''.flac'', ''.aac'', ''.ogg'', ''.mp4'', ''.mkv'', ''.webm'', ''.mov'', ''.pdf'']"

record import_args =
  ia_downloads_root :: string
  ia_profile_id :: string
  ia_recursive :: bool
  ia_generate_transcripts :: bool

record import_command_env =
  ie_import :: import_env
  ie_home :: "path \<Rightarrow> path"
  ie_children :: "path \<Rightarrow> path list"
  ie_below :: "path \<Rightarrow> path list"

definition is_importable_file :: "(string \<Rightarrow> file_node option) \<Rightarrow> path \<Rightarrow> bool" where
  "is_importable_file fs p \<longleftrightarrow> is_file fs (path_str p) \<and> take 1 (path_name p) \<noteq> ''.'' \<and>
     py_lower (path_suffix p) \<in> set IMPORT_SUFFIXES"

definition contains_media_files :: "import_command_env \<Rightarrow> (string \<Rightarrow> file_node option) \<Rightarrow> path \<Rightarrow> bool" where
  "contains_media_files env fs dir \<longleftrightarrow> list_ex (is_importable_file fs) (ie_children env dir)"

definition import_job_payload :: "download \<Rightarrow> pyval" where
  "import_job_payload r =
     (let document = (py_lower (text_of (dl_file_ext r)) = ''pdf'') in
      PDict ([(''download_id'', PInt (dl_id r)), (''source_type'', PStr ''manual''), (''manual_upload'', PBool True),
              (''media_type'', PStr (if document then ''document'' else ''audio''))]
             @ (if document then [] else [(''subtitles'', PBool True), (''recent_download'', PBool True)])))"

definition queue_transcript_job :: "time \<Rightarrow> string \<Rightarrow> download \<Rightarrow> world \<Rightarrow> (error + job) \<times> world" where
  "queue_transcript_job now profile r w =
     (let kind = (if py_lower (text_of (dl_file_ext r)) = ''pdf'' then ''generate_ocr'' else ''generate_transcript'') in
      create_and_publish now profile kind (import_job_payload r)
        (Some (kind @ '':'' @ profile @ '':'' @ str_of_int (dl_id r))) w)"

record import_tally =
  it_imported :: nat
  it_skipped :: nat
  it_failed :: nat

definition caught_import :: "error \<Rightarrow> bool" where
  "caught_import e = (case e of ValueError _ \<Rightarrow> True | OSError _ \<Rightarrow> True | FileNotFound _ \<Rightarrow> True
     | DatabaseError _ \<Rightarrow> True | _ \<Rightarrow> False)"

definition import_candidate :: "(string \<Rightarrow> file_node option) \<Rightarrow> path \<Rightarrow> bool" where
  "import_candidate fs p \<longleftrightarrow> is_file fs (path_str p) \<and> py_lower (path_suffix p) \<in> set IMPORT_SUFFIXES"

text \<open>The body of the loop: a file is counted before its job is queued.\<close>

definition import_one ::
    "import_command_env \<Rightarrow> time \<Rightarrow> string \<Rightarrow> bool \<Rightarrow> path \<Rightarrow> string \<Rightarrow> path \<Rightarrow> import_tally \<Rightarrow> world \<Rightarrow>
     (error + import_tally) \<times> world" where
  "import_one env now profile transcripts base_dir channel p k w =
     (if \<not> import_candidate (files w) p then (Inr k, w)
      else let skip = (\<lambda>e k w. if caught_import e then (Inr (k\<lparr>it_skipped := Suc (it_skipped k)\<rparr>), w) else (Inl e, w)) in
        case import_manual_file (ie_import env) now profile (path_str p) (Some channel) (Some (path_str base_dir)) w of
          (Inl e, w1) \<Rightarrow> skip e k w1
        | (Inr (r, _), w1) \<Rightarrow>
            let k1 = k\<lparr>it_imported := Suc (it_imported k)\<rparr> in
            if \<not> transcripts then (Inr k1, w1)
            else (case queue_transcript_job now profile r w1 of
                (Inl e, w2) \<Rightarrow> skip e k1 w2
              | (Inr _, w2) \<Rightarrow> (Inr k1, w2)))"

fun import_files ::
    "import_command_env \<Rightarrow> time \<Rightarrow> string \<Rightarrow> bool \<Rightarrow> path \<Rightarrow> (string \<times> path) list \<Rightarrow> import_tally \<Rightarrow> world \<Rightarrow>
     (error + import_tally) \<times> world" where
  "import_files env now profile transcripts base_dir [] k w = (Inr k, w)"
| "import_files env now profile transcripts base_dir ((channel, p) # ps) k w =
     (case import_one env now profile transcripts base_dir channel p k w of
        (Inl e, w1) \<Rightarrow> (Inl e, w1)
      | (Inr k1, w1) \<Rightarrow> import_files env now profile transcripts base_dir ps k1 w1)"

definition channel_dirs :: "import_command_env \<Rightarrow> (string \<Rightarrow> file_node option) \<Rightarrow> path \<Rightarrow> path list" where
  "channel_dirs env fs base_dir =
     (if contains_media_files env fs base_dir then [base_dir]
      else filter (\<lambda>p. fs (path_str p) = Some Directory) (ie_children env base_dir))"

definition import_plan :: "import_command_env \<Rightarrow> bool \<Rightarrow> path list \<Rightarrow> (string \<times> path) list" where
  "import_plan env recursive dirs =
     concat (map (\<lambda>dir. map (Pair (path_name dir))
         (sort_key path_parts (if recursive then ie_below env dir else ie_children env dir)))
       (sort_key path_parts dirs))"

definition import_downloads_directory ::
    "import_command_env \<Rightarrow> time \<Rightarrow> import_args \<Rightarrow> world \<Rightarrow> import_tally command \<times> world" where
  "import_downloads_directory env now a w =
     (let base_dir = im_resolve (ie_import env) (ie_home env (path_of (ia_downloads_root a)));
          profile = or_else (py_strip (ia_profile_id a)) ''default''
      in if files w (path_str base_dir) \<noteq> Some Directory
         then (CommandError (''Downloads root not found: '' @ path_str base_dir), w)
         else (case import_files env now profile (ia_generate_transcripts a) base_dir
                     (import_plan env (ia_recursive a) (channel_dirs env (files w) base_dir))
                     \<lparr>it_imported = 0, it_skipped = 0, it_failed = 0\<rparr> w of
             (Inl e, w1) \<Rightarrow> (Crashed e, w1)
           | (Inr k, w1) \<Rightarrow> (Ran k, w1)))"

section \<open>Completing the schema\<close>

text \<open>A table and its columns; a statement is a table created or a column added.\<close>

type_synonym schema = "(string \<times> string list) list"

datatype schema_change = CreateTable string "string list" | AddColumn string string

definition apply_change :: "schema \<Rightarrow> schema_change \<Rightarrow> schema" where
  "apply_change s c = (case c of
      CreateTable t cols \<Rightarrow> s @ [(t, cols)]
    | AddColumn t col \<Rightarrow> map (\<lambda>(n, cs). if n = t then (n, cs @ [col]) else (n, cs)) s)"

fun add_columns :: "string \<Rightarrow> string list \<Rightarrow> string list \<Rightarrow> schema_change list" where
  "add_columns t existing [] = []"
| "add_columns t existing (c # cs) =
     (if c \<in> set existing then add_columns t existing cs else AddColumn t c # add_columns t (c # existing) cs)"

definition sync_model :: "schema \<Rightarrow> string \<times> string list \<Rightarrow> schema_change list" where
  "sync_model s = (\<lambda>(t, cols). case map_of s t of
      None \<Rightarrow> [CreateTable t cols]
    | Some existing \<Rightarrow> add_columns t existing cols)"

definition apply_changes :: "schema \<Rightarrow> schema_change list \<Rightarrow> schema" where
  "apply_changes s cs = foldl apply_change s cs"

fun sync_model_schema :: "(string \<times> string list) list \<Rightarrow> schema \<Rightarrow> schema_change list \<times> schema" where
  "sync_model_schema [] s = ([], s)"
| "sync_model_schema (m # ms) s =
     (let now_changes = sync_model s m;
          (rest, s2) = sync_model_schema ms (apply_changes s now_changes)
      in (now_changes @ rest, s2))"

section \<open>The import\<close>

lemma import_manual_file_broker:
  "import_manual_file env now profile fp channel top_dir w = (res, w') \<Longrightarrow> broker w' = broker w \<and> files w' = files w
     \<and> (\<forall>e. res = Inl e \<longrightarrow> w' = w)"
  by (auto simp: import_manual_file_def Let_def split: option.splits file_node.splits if_splits sum.splits prod.splits)

lemma queue_transcript_published:
  obtains j w' where "queue_transcript_job now profile r w = (Inr j, w')" "files w' = files w"
    "downloads (db w') = downloads (db w)" "next_download_id (db w') = next_download_id (db w)"
    "length (broker w') = Suc (length (broker w))" "job_published w' (job_id j)"
proof -
  define kind where "kind = (if py_lower (text_of (dl_file_ext r)) = ''pdf'' then ''generate_ocr'' else ''generate_transcript'')"
  define key where "key = kind @ '':'' @ profile @ '':'' @ str_of_int (dl_id r)"
  have run: "queue_transcript_job now profile r w = create_and_publish now profile kind (import_job_payload r) (Some key) w"
    by (simp add: queue_transcript_job_def kind_def key_def)
  have "key \<noteq> []" by (simp add: key_def)
  from create_and_publish_published [OF this, of now profile kind "import_job_payload r" w]
  obtain j w' where j: "create_and_publish now profile kind (import_job_payload r) (Some key) w = (Inr j, w')"
    "job_published w' (job_id j)" "files w' = files w" "downloads (db w') = downloads (db w)"
    "next_download_id (db w') = next_download_id (db w)" by metis
  moreover have "length (broker w') = Suc (length (broker w))"
  proof -
    obtain m where "create_and_publish now profile kind (import_job_payload r) (Some key) w =
        (Inr (fst (create_job now profile kind (import_job_payload r) (Some key) (db w))),
         w\<lparr>db := snd (create_job now profile kind (import_job_payload r) (Some key) (db w)), broker := broker w @ [m]\<rparr>)"
      by (rule create_and_publish_world)
    then show ?thesis using j(1) by auto
  qed
  ultimately show thesis using that run by metis
qed

text \<open>What a run of the loop leaves: files, other profiles, the tally and the messages.\<close>

definition imports_ok ::
    "string \<Rightarrow> bool \<Rightarrow> (string \<times> path) list \<Rightarrow> import_tally \<Rightarrow> world \<Rightarrow> (error + import_tally) \<Rightarrow> world \<Rightarrow> bool" where
  "imports_ok profile transcripts ps k w res w' \<longleftrightarrow> upload_ready w' \<and> files w' = files w
     \<and> filter (\<lambda>x. dl_profile_id x \<noteq> profile) (downloads (db w')) = filter (\<lambda>x. dl_profile_id x \<noteq> profile) (downloads (db w))
     \<and> (\<forall>k'. res = Inr k' \<longrightarrow> it_failed k' = it_failed k \<and> it_imported k \<le> it_imported k'
         \<and> it_imported k' + it_skipped k' = it_imported k + it_skipped k + length (filter (\<lambda>c. import_candidate (files w) (snd c)) ps)
         \<and> length (broker w') = length (broker w) + (if transcripts then it_imported k' - it_imported k else 0))"

lemma import_one_ok:
  assumes "import_one env now profile transcripts top_dir channel p k w = (res, w')" and ready: "upload_ready w"
  shows "imports_ok profile transcripts [(channel, p)] k w res w'"
proof (cases "import_candidate (files w) p")
  case False
  then show ?thesis using assms by (auto simp: import_one_def imports_ok_def)
next
  case True
  obtain r1 w1 where i: "import_manual_file (ie_import env) now profile (path_str p) (Some channel) (Some (path_str top_dir)) w = (r1, w1)"
    by force
  note kept = import_manual_file_broker [OF i]
  show ?thesis
  proof (cases r1)
    case (Inl e)
    then have "w1 = w" using kept by simp
    then show ?thesis using assms True i Inl by (auto simp: import_one_def imports_ok_def split: if_splits)
  next
    case (Inr rp)
    obtain r q where rp: "rp = (r, q)" by (cases rp)
    obtain ff where "update_or_create now profile (ff_uid ff) (manual_fields now ff) (db w) = Inr (r, db w1)"
      using import_manual_file_run [OF i [unfolded Inr rp]] by metis
    note row = update_or_create_row [OF this manual_fields_keys(1-3)]
    have w1: "upload_ready w1"
        "filter (\<lambda>x. dl_profile_id x \<noteq> profile) (downloads (db w1)) = filter (\<lambda>x. dl_profile_id x \<noteq> profile) (downloads (db w))"
      using row ready kept by (auto simp: upload_ready_def)
    show ?thesis
    proof (cases transcripts)
      case False
      then show ?thesis using assms True i Inr rp w1 kept by (auto simp: import_one_def imports_ok_def)
    next
      case t: True
      obtain j w2 where "queue_transcript_job now profile r w1 = (Inr j, w2)" "files w2 = files w1"
          "downloads (db w2) = downloads (db w1)" "next_download_id (db w2) = next_download_id (db w1)"
          "length (broker w2) = Suc (length (broker w1))"
        by (rule queue_transcript_published)
      then show ?thesis using assms True i Inr rp w1 kept t
        by (auto simp: import_one_def imports_ok_def upload_ready_def downloads_wf_def)
    qed
  qed
qed

lemma import_files_ok:
  "import_files env now profile transcripts top_dir ps k w = (res, w') \<Longrightarrow> upload_ready w \<Longrightarrow>
   imports_ok profile transcripts ps k w res w'"
proof (induction ps arbitrary: k w)
  case Nil
  then show ?case by (auto simp: imports_ok_def)
next
  case (Cons c ps)
  obtain channel p where c: "c = (channel, p)" by (cases c)
  obtain r1 w1 where o: "import_one env now profile transcripts top_dir channel p k w = (r1, w1)" by force
  note one = import_one_ok [OF o Cons.prems(2)]
  show ?case
  proof (cases r1)
    case (Inl e)
    then have "res = Inl e" "w' = w1" using Cons.prems(1) c o by simp_all
    then show ?thesis using one by (simp add: imports_ok_def)
  next
    case (Inr k1)
    then have "import_files env now profile transcripts top_dir ps k1 w1 = (res, w')" using Cons.prems(1) c o by simp
    from Cons.IH [OF this] one show ?thesis by (auto simp: imports_ok_def Inr c)
  qed
qed

text \<open>Importing a downloads directory changes no file and no episode of another profile, whatever the directory
  holds; a run that ends has counted every media file it looked at once, as imported or as skipped,
  and when transcripts were asked for it has published one message for each imported file.\<close>

theorem import_directory_confined:
  assumes "import_downloads_directory env now a w = (res, w')" and "upload_ready w"
  defines "profile \<equiv> or_else (py_strip (ia_profile_id a)) ''default''"
    and "base_dir \<equiv> im_resolve (ie_import env) (ie_home env (path_of (ia_downloads_root a)))"
  shows "files w' = files w
    \<and> filter (\<lambda>x. dl_profile_id x \<noteq> profile) (downloads (db w')) = filter (\<lambda>x. dl_profile_id x \<noteq> profile) (downloads (db w))
    \<and> (\<forall>k. res = Ran k \<longrightarrow> it_failed k = 0
        \<and> it_imported k + it_skipped k = length (filter (\<lambda>c. import_candidate (files w) (snd c))
            (import_plan env (ia_recursive a) (channel_dirs env (files w) base_dir)))
        \<and> length (broker w') = length (broker w) + (if ia_generate_transcripts a then it_imported k else 0))"
proof (cases "files w (path_str base_dir) = Some Directory")
  case True
  obtain r1 w1 where i: "import_files env now profile (ia_generate_transcripts a) base_dir
      (import_plan env (ia_recursive a) (channel_dirs env (files w) base_dir))
      \<lparr>it_imported = 0, it_skipped = 0, it_failed = 0\<rparr> w = (r1, w1)" by force
  then have "w' = w1" "res = (case r1 of Inl e \<Rightarrow> Crashed e | Inr k \<Rightarrow> Ran k)"
    using assms(1) True unfolding import_downloads_directory_def Let_def profile_def base_dir_def
    by (auto split: sum.splits)
  then show ?thesis using import_files_ok [OF i assms(2)] by (cases r1) (simp_all add: imports_ok_def)
next
  case False
  then have "w' = w" "\<nexists>k. res = Ran k"
    using assms(1) unfolding import_downloads_directory_def Let_def base_dir_def by auto
  then show ?thesis by simp
qed

definition music_world :: world where
  "music_world = empty_world\<lparr>files := [''/m'' \<mapsto> Directory, ''/m/A'' \<mapsto> Directory, ''/m/A/x.mp3'' \<mapsto> RegularFile 3,
     ''/m/A/y.txt'' \<mapsto> RegularFile 4]\<rparr>"

definition music_import :: import_command_env where
  "music_import = \<lparr>ie_import = \<lparr>im_resolve = id, im_absolute = id, im_digest = (\<lambda>_. ''0'')\<rparr>, ie_home = id,
     ie_children = (\<lambda>p. if p = Path True [''m''] then [Path True [''m'', ''A'']]
        else [Path True [''m'', ''A'', ''y.txt''], Path True [''m'', ''A'', ''x.mp3'']]), ie_below = (\<lambda>p. [])\<rparr>"

definition music_args :: import_args where
  "music_args = \<lparr>ia_downloads_root = ''/m'', ia_profile_id = '' '', ia_recursive = False, ia_generate_transcripts = True\<rparr>"

lemma music_imported:
  "fst (import_downloads_directory music_import 5 music_args music_world)
     = Ran \<lparr>it_imported = 1, it_skipped = 0, it_failed = 0\<rparr>"
  by code_simp

theorem import_directory_confined_witness:
  "\<exists>w'. import_downloads_directory music_import 5 music_args music_world
      = (Ran \<lparr>it_imported = 1, it_skipped = 0, it_failed = 0\<rparr>, w') \<and> length (broker w') = 1 \<and> files w' = files music_world"
proof -
  obtain res w' where run: "import_downloads_directory music_import 5 music_args music_world = (res, w')" by force
  then have res: "res = Ran \<lparr>it_imported = 1, it_skipped = 0, it_failed = 0\<rparr>" using music_imported by simp
  have "upload_ready music_world"
    by (simp add: upload_ready_def music_world_def empty_world_def empty_database_def downloads_wf_def)
  from import_directory_confined [OF run this] show ?thesis
    using run res by (simp add: music_args_def music_world_def empty_world_def)
qed

section \<open>The account of a scan\<close>

lemma rows_of_deleted: "rows_of owner p (delete_where (\<lambda>r. owner r = p) t) = []"
  by (induction t) (auto simp: rows_of_def)

lemma rows_of_others: "q \<noteq> p \<Longrightarrow> rows_of owner q (delete_where (\<lambda>r. owner r = p) t) = rows_of owner q t"
  by (rule rows_of_delete) auto

lemma delete_profile_rows_isolated:
  assumes wf: "api_wf d"
  shows "isolated p d (delete_profile_rows p d)"
proof -
  let ?gone = "map dl_id (rows_of dl_profile_id p (downloads d))" and ?lists = "map pl_id (rows_of pl_profile_id p (playlists d))"
  have dl: "distinct (map dl_id (downloads d))" and pl: "distinct (map pl_id (playlists d))"
    using wf by (simp_all add: api_wf_def downloads_wf_def playlists_wf_def)
  have other_dl: "dl_id r \<notin> set ?gone" if "r \<in> set (downloads d)" "dl_profile_id r \<noteq> p" for r
    using that dl by (auto simp: rows_of_def distinct_map inj_on_def)
  have other_pl: "pl_id r \<notin> set ?lists" if "r \<in> set (playlists d)" "pl_profile_id r \<noteq> p" for r
    using that pl by (auto simp: rows_of_def distinct_map inj_on_def)
  have "profile_view q (delete_profile_rows p d) = profile_view q d" if q: "q \<noteq> p" for q
  proof -
    have items: "\<not> (pi_download i \<in> set ?gone \<or> pi_playlist i \<in> set ?lists)"
      if i: "i \<in> set (playlist_items d)" and mine: "pi_playlist i \<in> set (map pl_id (rows_of pl_profile_id q (playlists d)))" for i
    proof -
      obtain x where x: "x \<in> set (playlists d)" "pl_profile_id x = q" "pl_id x = pi_playlist i"
        using mine by (auto simp: rows_of_def)
      obtain y r where y: "y \<in> set (playlists d)" "pl_id y = pi_playlist i" "r \<in> set (downloads d)" "dl_id r = pi_download i"
          "dl_profile_id r = pl_profile_id y"
        using wf i by (auto simp: api_wf_def playlists_wf_def)
      have "y = x" using pl x y by (auto simp: distinct_map inj_on_def)
      then show ?thesis using other_pl [OF x(1)] other_dl [OF y(3)] x y q by simp
    qed
    have segs: "seg_download s \<notin> set ?gone"
      if mine: "seg_download s \<in> set (map dl_id (rows_of dl_profile_id q (downloads d)))" for s
    proof -
      obtain r where "r \<in> set (downloads d)" "dl_profile_id r = q" "seg_download s = dl_id r"
        using mine by (auto simp: rows_of_def)
      then show ?thesis using other_dl q by metis
    qed
    have "filter (\<lambda>i. pi_playlist i \<in> set (map pl_id (rows_of pl_profile_id q (playlists d))))
        (delete_where (\<lambda>i. pi_download i \<in> set ?gone \<or> pi_playlist i \<in> set ?lists) (playlist_items d))
      = filter (\<lambda>i. pi_playlist i \<in> set (map pl_id (rows_of pl_profile_id q (playlists d)))) (playlist_items d)"
      using items by (auto simp: delete_where_def intro!: filter_cong)
    moreover have "filter (\<lambda>s. seg_download s \<in> set (map dl_id (rows_of dl_profile_id q (downloads d))))
        (delete_where (\<lambda>s. seg_download s \<in> set ?gone) (transcript_segments d))
      = filter (\<lambda>s. seg_download s \<in> set (map dl_id (rows_of dl_profile_id q (downloads d)))) (transcript_segments d)"
      using segs by (auto simp: delete_where_def intro!: filter_cong)
    ultimately show ?thesis by (simp add: profile_view_def delete_profile_rows_def Let_def rows_of_others [OF q])
  qed
  then show ?thesis by (simp add: isolated_def delete_profile_rows_def Let_def)
qed

definition no_rows :: profile_rows where
  "no_rows = \<lparr>pr_config = [], pr_settings = [], pr_sources = [], pr_downloads = [], pr_playlists = [], pr_items = [],
     pr_segments = [], pr_schedules = [], pr_jobs = []\<rparr>"

lemma delete_profile_rows_empty: "profile_view p (delete_profile_rows p d) = no_rows"
  by (simp add: profile_view_def delete_profile_rows_def Let_def rows_of_deleted no_rows_def)

text \<open>C32: Deleting the account of a security scan removes it with every row of its profile and nothing else:
  no other profile, no other account; and no account without the prefix of scans is ever deleted.\<close>

theorem scan_account_deleted:
  assumes "api_wf d" and "delete_wapiti_user name (users, d) = (r, users', d')"
  shows "isolated name d d'
    \<and> filter (\<lambda>u. ac_username u \<noteq> name) users' = filter (\<lambda>u. ac_username u \<noteq> name) users
    \<and> (if prefix ''wapiti_scan_'' name
       then r = Ran () \<and> profile_view name d' = no_rows \<and> (\<forall>u \<in> set users'. ac_username u \<noteq> name)
       else users' = users \<and> d' = d)"
proof (cases "prefix ''wapiti_scan_'' name")
  case True
  then have run: "r = Ran ()" "users' = delete_where (\<lambda>u. ac_username u = name) users" "d' = delete_profile_rows name d"
    using assms(2) by (simp_all add: delete_wapiti_user_def)
  show ?thesis
    using True delete_profile_rows_isolated [OF assms(1), of name] delete_profile_rows_empty [of name d]
    by (simp add: run delete_where_def)
next
  case False
  then show ?thesis using assms(2) by (simp add: delete_wapiti_user_def)
qed

definition scanned_database :: database where
  "scanned_database = upsert_config 5 ''wapiti_scan_1'' ''output_root'' ''/s'' (upsert_config 5 ''ann'' ''output_root'' ''/a'' empty_database)"

theorem scan_account_deleted_witness:
  "\<exists>d'. delete_wapiti_user ''wapiti_scan_1'' ([], scanned_database) = (Ran (), [], d')
     \<and> profile_view ''wapiti_scan_1'' d' = no_rows \<and> profile_view ''ann'' d' = profile_view ''ann'' scanned_database
     \<and> profile_view ''wapiti_scan_1'' scanned_database \<noteq> no_rows"
proof -
  have "api_wf scanned_database"
    by (simp add: scanned_database_def upsert_config_def api_wf_def downloads_wf_def sources_wf_def playlists_wf_def empty_database_def)
  moreover obtain d' where run: "delete_wapiti_user ''wapiti_scan_1'' ([], scanned_database) = (Ran (), [], d')"
    by (simp add: delete_wapiti_user_def)
  ultimately have "isolated ''wapiti_scan_1'' scanned_database d'" "profile_view ''wapiti_scan_1'' d' = no_rows"
    using scan_account_deleted [of scanned_database "''wapiti_scan_1''" "[]" "Ran ()" "[]" d'] by simp_all
  moreover have "profile_view ''wapiti_scan_1'' scanned_database \<noteq> no_rows"
    by (simp add: profile_view_def no_rows_def scanned_database_def upsert_config_def rows_of_def empty_database_def)
  ultimately show ?thesis using run by (simp add: isolated_def)
qed

section \<open>Installing the default schedules\<close>

lemma install_schedule_grows:
  assumes "install_schedule now clock s d = Inr d'"
  shows "\<exists>rs. scheduled_jobs d' = scheduled_jobs d @ rs \<and> length (filter (of_spec s) (scheduled_jobs d')) = 1
    \<and> (\<forall>t. t \<noteq> s \<and> (sp_profile_id t, sp_job_type t) \<noteq> (sp_profile_id s, sp_job_type s) \<longrightarrow>
         filter (of_spec t) (scheduled_jobs d') = filter (of_spec t) (scheduled_jobs d))"
  using assms by (auto simp: install_schedule_def of_spec_def schedule_of_spec_def split: list.splits)

lemma install_schedule_again:
  "length (filter (of_spec s) (scheduled_jobs d)) = 1 \<Longrightarrow> install_schedule now clock s d = Inr d"
  by (auto simp: install_schedule_def length_Suc_conv split: list.split)

text \<open>Installing the default schedules adds each that is missing, once, leaves the rows there are, and does
  nothing when it is repeated; it fails only where a profile has two schedules of one type.\<close>

theorem install_defaults_idempotent:
  assumes "install_defaults now clock d = Inr d'"
  shows "(\<exists>rs. scheduled_jobs d' = scheduled_jobs d @ rs)
    \<and> (\<forall>s \<in> set DEFAULT_SCHEDULES. length (filter (of_spec s) (scheduled_jobs d')) = 1)
    \<and> install_defaults now2 clock2 d' = Inr d'"
proof -
  obtain s t where st: "DEFAULT_SCHEDULES = [s, t]" "sp_job_type s \<noteq> sp_job_type t"
    by (simp add: DEFAULT_SCHEDULES_def)
  obtain d1 where d1: "install_schedule now clock s d = Inr d1" "install_schedule now clock t d1 = Inr d'"
    using assms by (auto simp: install_defaults_def st bind_result_Inr)
  obtain rs rs2 where rs: "scheduled_jobs d1 = scheduled_jobs d @ rs" "scheduled_jobs d' = scheduled_jobs d1 @ rs2"
    using install_schedule_grows [OF d1(1)] install_schedule_grows [OF d1(2)] by blast
  have one: "length (filter (of_spec t) (scheduled_jobs d')) = 1"
      "length (filter (of_spec s) (scheduled_jobs d')) = 1"
    using install_schedule_grows [OF d1(1)] install_schedule_grows [OF d1(2)] st(2) by auto
  show ?thesis
    using rs one by (simp add: install_defaults_def st(1) install_schedule_again)
qed

theorem install_defaults_idempotent_witness:
  "\<exists>d'. install_defaults 5 6 empty_database = Inr d' \<and> length (scheduled_jobs d') = 2
     \<and> install_defaults 7 8 d' = Inr d'"
proof -
  obtain d' where d': "install_defaults 5 6 empty_database = Inr d'" "length (scheduled_jobs d') = 2"
    by (simp add: install_defaults_def DEFAULT_SCHEDULES_def install_schedule_def empty_database_def of_spec_def schedule_of_spec_def)
  from install_defaults_idempotent [OF d'(1)] show ?thesis using d' by blast
qed

section \<open>The schema\<close>

lemma apply_change_table:
  "map_of s t = Some cols \<Longrightarrow> \<exists>more. map_of (apply_change s c) t = Some (cols @ more)"
  by (induction s) (auto simp: apply_change_def split: schema_change.splits if_splits)

lemma apply_changes_table:
  "map_of s t = Some cols \<Longrightarrow> \<exists>more. map_of (apply_changes s cs) t = Some (cols @ more)"
proof (induction cs arbitrary: s cols)
  case (Cons c cs)
  obtain m where "map_of (apply_change s c) t = Some (cols @ m)" using apply_change_table [OF Cons.prems] by blast
  from Cons.IH [OF this] show ?case by (auto simp: apply_changes_def)
qed (simp add: apply_changes_def)

lemma add_columns_applied:
  "map_of s t = Some cols \<Longrightarrow> set existing \<subseteq> set cols \<Longrightarrow>
   \<exists>cols'. map_of (apply_changes s (add_columns t existing cs)) t = Some cols' \<and> set cs \<union> set cols \<subseteq> set cols'"
proof (induction cs arbitrary: s cols existing)
  case (Cons c cs)
  show ?case
  proof (cases "c \<in> set existing")
    case True
    then show ?thesis using Cons.IH [OF Cons.prems] Cons.prems(2) by auto
  next
    case False
    have "map_of (apply_change s (AddColumn t c)) t = Some (cols @ [c])"
      using Cons.prems(1) by (induction s) (auto simp: apply_change_def split: if_splits)
    then show ?thesis
      using Cons.IH [of _ "cols @ [c]" "c # existing"] Cons.prems(2) False
      by (fastforce simp: apply_changes_def)
  qed
qed (simp add: apply_changes_def)

lemma sync_model_applied:
  "\<exists>cols'. map_of (apply_changes s (sync_model s (t, cols))) t = Some cols' \<and> set cols \<subseteq> set cols'"
proof (cases "map_of s t")
  case None
  then have "map_of (apply_change s (CreateTable t cols)) t = Some cols"
    by (induction s) (auto simp: apply_change_def split: if_splits)
  then show ?thesis using None by (simp add: sync_model_def apply_changes_def)
next
  case (Some existing)
  then show ?thesis using add_columns_applied [of s t existing existing cols] by (auto simp: sync_model_def)
qed

lemma add_columns_none: "set cs \<subseteq> set existing \<Longrightarrow> add_columns t existing cs = []"
  by (induction cs) auto

lemma apply_changes_append: "apply_changes s (a @ b) = apply_changes (apply_changes s a) b"
  by (simp add: apply_changes_def)

lemma sync_schema_run: "sync_model_schema ms s = (cs, s') \<Longrightarrow> s' = apply_changes s cs"
proof (induction ms arbitrary: s cs)
  case (Cons m ms)
  then show ?case by (auto simp: apply_changes_append Let_def split: prod.splits)
qed (simp add: apply_changes_def)

lemma sync_schema_none:
  "\<forall>(t, cols) \<in> set ms. \<exists>cs. map_of s t = Some cs \<and> set cols \<subseteq> set cs \<Longrightarrow> sync_model_schema ms s = ([], s)"
  by (induction ms) (auto simp: sync_model_def add_columns_none apply_changes_def)

lemma sync_schema_covers:
  "sync_model_schema ms s = (cs, s') \<Longrightarrow> (t, cols) \<in> set ms \<Longrightarrow>
   \<exists>cs'. map_of s' t = Some cs' \<and> set cols \<subseteq> set cs'"
proof (induction ms arbitrary: s cs)
  case (Cons m ms)
  obtain rest s2 where r: "sync_model_schema ms (apply_changes s (sync_model s m)) = (rest, s2)" by force
  then have s': "s' = s2" using Cons.prems(1) by (simp add: Let_def)
  show ?case
  proof (cases "(t, cols) = m")
    case True
    obtain cs' where c: "map_of (apply_changes s (sync_model s m)) t = Some cs'" "set cols \<subseteq> set cs'"
      using sync_model_applied True by blast
    obtain more where "map_of s2 t = Some (cs' @ more)"
      using apply_changes_table [OF c(1)] sync_schema_run [OF r] by blast
    then show ?thesis using c(2) s' by auto
  next
    case False
    then show ?thesis using Cons.IH [of "apply_changes s (sync_model s m)" rest] r Cons.prems(2) s' by auto
  qed
qed simp

text \<open>Completing the schema leaves every table with all columns of its model, keeps the columns a table had
  in front and in their order, changes the schema only by the statements it reports, and has nothing
  to do when it is repeated.\<close>

theorem schema_completed:
  assumes "sync_model_schema ms s = (cs, s')"
  shows "(\<forall>(t, cols) \<in> set ms. \<exists>cs'. map_of s' t = Some cs' \<and> set cols \<subseteq> set cs')
    \<and> (\<forall>t cols. map_of s t = Some cols \<longrightarrow> (\<exists>more. map_of s' t = Some (cols @ more)))
    \<and> s' = apply_changes s cs \<and> sync_model_schema ms s' = ([], s')"
proof -
  have covered: "\<forall>(t, cols) \<in> set ms. \<exists>cs'. map_of s' t = Some cs' \<and> set cols \<subseteq> set cs'"
    using sync_schema_covers [OF assms] by blast
  have run: "s' = apply_changes s cs" using assms by (rule sync_schema_run)
  show ?thesis
    using covered run apply_changes_table sync_schema_none [OF covered] by blast
qed

theorem schema_completed_witness:
  "sync_model_schema [(''jobs'', [''id'', ''payload'']), (''playlists'', [''id''])] [(''jobs'', [''id''])]
      = ([AddColumn ''jobs'' ''payload'', CreateTable ''playlists'' [''id'']], [(''jobs'', [''id'', ''payload'']), (''playlists'', [''id''])])
   \<and> sync_model_schema [(''jobs'', [''id'', ''payload'']), (''playlists'', [''id''])] [(''jobs'', [''id'', ''payload'']), (''playlists'', [''id''])]
      = ([], [(''jobs'', [''id'', ''payload'']), (''playlists'', [''id''])])"
proof
  show run: "sync_model_schema [(''jobs'', [''id'', ''payload'']), (''playlists'', [''id''])] [(''jobs'', [''id''])]
      = ([AddColumn ''jobs'' ''payload'', CreateTable ''playlists'' [''id'']], [(''jobs'', [''id'', ''payload'']), (''playlists'', [''id''])])"
    by (simp add: sync_model_def apply_changes_def apply_change_def)
  show "sync_model_schema [(''jobs'', [''id'', ''payload'']), (''playlists'', [''id''])] [(''jobs'', [''id'', ''payload'']), (''playlists'', [''id''])]
      = ([], [(''jobs'', [''id'', ''payload'']), (''playlists'', [''id''])])"
    using schema_completed [OF run] by blast
qed

text \<open>
  Two names with one normal form: the account is stored under the normal form, the downloads
  directory under the name as it was typed, which no login of the account reads.
\<close>

lemma typed_name_loses_settings:
  "case create_user \<lparr>ae_hash = id, ae_normal = (\<lambda>s. ''ann2''), ae_home = id\<rparr> 5
      \<lparr>aa_username = ''ann'' @ [char_of (178 :: nat)], aa_password = ''pw'', aa_admin = False, aa_update = False, aa_downloads_root = ''/d''\<rparr>
      ([], empty_world) of (r, users, w) \<Rightarrow>
     map ac_username users = [''ann2''] \<and> profile_value (db w) ''ann2'' ''output_root'' = None
     \<and> profile_value (db w) (''ann'' @ [char_of (178 :: nat)]) ''output_root'' \<noteq> None"
  by code_simp

end
