(* ===== verification/WorkerLife.thy ===== *)
theory WorkerLife
  imports Runner
begin

text \<open>
  The life of a worker process (\<open>src/src/workers/runner.py\<close>) and of the CPU lease it holds
  (\<open>src/src/workers/scheduler.py\<close>): acquiring with failures of the backend, the heartbeat thread, the
  release on every path, and around it the connection, its declarations, the requeued jobs, the
  consumer and the shutdown. The calls to the broker are recorded in order; which of them raise is an
  environment, and an answer to a delivery is taken to be sent.
\<close>

section \<open>Settings of the scheduler\<close>

record slot_settings =
  ss_capacity :: int
  ss_lease_seconds :: pyfloat
  ss_heartbeat_seconds :: pyfloat
  ss_poll_seconds :: pyfloat

definition float_setting :: "(string \<Rightarrow> string option) \<Rightarrow> string \<Rightarrow> rat \<Rightarrow> error + pyfloat" where
  "float_setting env key fallback =
     (case env key of
        None \<Rightarrow> Inr (Fin fallback)
      | Some s \<Rightarrow> (case py_float s of Some x \<Rightarrow> Inr x | None \<Rightarrow> Inl (ValueError s)))"

definition scheduler_from_settings :: "(string \<Rightarrow> string option) \<Rightarrow> int \<Rightarrow> error + slot_settings" where
  "scheduler_from_settings env configured =
     bind_result (case env ''GETOFFLINE_CPU_SCHEDULER_SLOTS'' of
         None \<Rightarrow> Inr configured
       | Some s \<Rightarrow> (case py_int s of Some n \<Rightarrow> Inr n | None \<Rightarrow> Inl (ValueError s))) (\<lambda>capacity.
     bind_result (float_setting env ''GETOFFLINE_CPU_SCHEDULER_LEASE_SECONDS'' 120) (\<lambda>lease.
     bind_result (float_setting env ''GETOFFLINE_CPU_SCHEDULER_HEARTBEAT_SECONDS'' 30) (\<lambda>heartbeat.
     bind_result (float_setting env ''GETOFFLINE_CPU_SCHEDULER_POLL_SECONDS'' 1) (\<lambda>poll.
       Inr \<lparr>ss_capacity = capacity, ss_lease_seconds = lease, ss_heartbeat_seconds = heartbeat, ss_poll_seconds = poll\<rparr>))))"

section \<open>The life of a lease\<close>

text \<open>
  What happens between two readings of the clock: the operations of other workers. A poll or a tick of
  the heartbeat has its instant, the others' operations before it, and where it raises.
\<close>

type_synonym others = "(time \<times> slot_op) list"

datatype poll_fault = NoFault | RenewFault error | AcquireFault error

fun acquire_polls ::
    "(time \<Rightarrow> slot_op \<Rightarrow> 's \<Rightarrow> slot_reply \<times> 's) \<Rightarrow> heavy_kind \<Rightarrow> string \<Rightarrow> time \<Rightarrow>
     (time \<times> others \<times> poll_fault) list \<Rightarrow> 's \<Rightarrow> (error + bool) \<times> 's" where
  "acquire_polls step k l secs [] s = (Inr False, s)"
| "acquire_polls step k l secs ((now, others, fault) # polls) s =
     (let s1 = snd (run_slots step others s);
          finished = (\<lambda>e s. (Inl e, snd (step now (WaitFinished l) s))) in
      case fault of
        RenewFault e \<Rightarrow> finished e s1
      | AcquireFault e \<Rightarrow> finished e (snd (step now (WaitHeartbeat l secs) s1))
      | NoFault \<Rightarrow>
          let (r, s2) = step now (Acquire k l secs) (snd (step now (WaitHeartbeat l secs) s1)) in
          if fst r = Some True then (Inr True, s2) else acquire_polls step k l secs polls s2)"

definition acquire_lease ::
    "(time \<Rightarrow> slot_op \<Rightarrow> 's \<Rightarrow> slot_reply \<times> 's) \<Rightarrow> time \<Rightarrow> error option \<Rightarrow> heavy_kind \<Rightarrow> string \<Rightarrow> time \<Rightarrow>
     (time \<times> others \<times> poll_fault) list \<Rightarrow> 's \<Rightarrow> (error + bool) \<times> 's" where
  "acquire_lease step now start_fault k l secs polls s =
     (case start_fault of
        Some e \<Rightarrow> (Inl e, s)
      | None \<Rightarrow> acquire_polls step k l secs polls (snd (step now (WaitStarted k l secs) s)))"

text \<open>
  The heartbeat thread until the lease is released: an exception ends the thread, the ticks after
  it renew nothing.
\<close>

fun heartbeat_loop ::
    "(time \<Rightarrow> slot_op \<Rightarrow> 's \<Rightarrow> slot_reply \<times> 's) \<Rightarrow> string \<Rightarrow> time \<Rightarrow> (time \<times> others \<times> bool) list \<Rightarrow> 's \<Rightarrow> 's" where
  "heartbeat_loop step l secs [] s = s"
| "heartbeat_loop step l secs ((now, others, fails) # ticks) s =
     (let s1 = snd (run_slots step others s) in
      if fails then snd (run_slots step (concat (map (\<lambda>t. fst (snd t)) ticks)) s1)
      else heartbeat_loop step l secs ticks (snd (step now (Heartbeat l secs) s1)))"

definition release_lease :: "(time \<Rightarrow> slot_op \<Rightarrow> 's \<Rightarrow> slot_reply \<times> 's) \<Rightarrow> time \<Rightarrow> string \<Rightarrow> 's \<Rightarrow> 's" where
  "release_lease step now l s = snd (step now (Release l) s)"

text \<open>\<open>GlobalSlotScheduler.acquire\<close> around a body; \<open>None\<close> while it is still waiting.\<close>

definition with_lease ::
    "(time \<Rightarrow> slot_op \<Rightarrow> 's \<Rightarrow> slot_reply \<times> 's) \<Rightarrow> time \<Rightarrow> error option \<Rightarrow> heavy_kind \<Rightarrow> string \<Rightarrow> time \<Rightarrow>
     (time \<times> others \<times> poll_fault) list \<Rightarrow> ('s \<Rightarrow> (error + 'a) \<times> 's) \<Rightarrow> time \<Rightarrow> 's \<Rightarrow> ((error + 'a) \<times> 's) option" where
  "with_lease step now start_fault k l secs polls body release_at s =
     (case acquire_lease step now start_fault k l secs polls s of
        (Inl e, s1) \<Rightarrow> Some (Inl e, s1)
      | (Inr False, s1) \<Rightarrow> None
      | (Inr True, s1) \<Rightarrow> (case body s1 of (r, s2) \<Rightarrow> Some (r, release_lease step release_at l s2)))"

section \<open>Leases are kept and released\<close>

fun lease_of :: "slot_op \<Rightarrow> string option" where
  "lease_of (WaitStarted k l secs) = Some l"
| "lease_of (WaitHeartbeat l secs) = Some l"
| "lease_of (WaitFinished l) = Some l"
| "lease_of (Acquire k l secs) = Some l"
| "lease_of (Release l) = Some l"
| "lease_of (Heartbeat l secs) = Some l"
| "lease_of Snapshot = None"

text \<open>Other workers name other leases, and nothing happens after the lease's expiry before its next renewal.\<close>

fun timely :: "string \<Rightarrow> time \<Rightarrow> time \<Rightarrow> (time \<times> others \<times> bool) list \<Rightarrow> bool" where
  "timely l secs e [] = True"
| "timely l secs e ((now, others, fails) # ticks) =
     (\<not> fails \<and> now < e \<and> list_all (\<lambda>(t, oper). t < e \<and> lease_of oper \<noteq> Some l) others \<and> timely l secs (now + secs) ticks)"

fun last_expiry :: "time \<Rightarrow> time \<Rightarrow> (time \<times> others \<times> bool) list \<Rightarrow> time" where
  "last_expiry secs e [] = e"
| "last_expiry secs e ((now, _) # ticks) = last_expiry secs (now + secs) ticks"

lemma spec_op_other:
  "lease_of oper \<noteq> Some l \<Longrightarrow> snd (spec_op cap now oper m) l = m l"
  by (cases oper) (auto simp: Let_def spec_renew_def split: option.splits prod.splits slot_status.splits)

lemma spec_step_other:
  assumes "m l = Some (k, st, e)" and "now < e" and "lease_of oper \<noteq> Some l"
  shows "snd (spec_step cap now oper m) l = Some (k, st, e)"
  using assms by (simp add: spec_step_def spec_op_other spec_live_def)

context slot_backend
begin

lemma others_keep:
  assumes "inv s" and "abs s l = Some (k, SLOT_RUNNING, e)"
    and "list_all (\<lambda>(t, oper). t < e \<and> lease_of oper \<noteq> Some l) ops"
  shows "abs (snd (run_slots step ops s)) l = Some (k, SLOT_RUNNING, e)"
  using assms
proof (induction ops arbitrary: s)
  case (Cons a ops)
  obtain t oper where a: "a = (t, oper)" by (cases a)
  have "abs (snd (step t oper s)) l = Some (k, SLOT_RUNNING, e)"
    using Cons.prems a by (simp add: step_abs spec_step_other)
  then show ?case
    using Cons.IH [of "snd (step t oper s)"] Cons.prems a step_inv by (simp add: run_slots_Cons del: run_slots.simps(2))
qed simp

lemma heartbeat_renews:
  assumes "inv s" and "abs s l = Some (k, SLOT_RUNNING, e)" and "now < e"
  shows "abs (snd (step now (Heartbeat l secs) s)) l = Some (k, SLOT_RUNNING, now + secs)"
  using assms by (simp add: step_abs spec_step_def spec_renew_def spec_live_def Let_def)

text \<open>While the heartbeats come in time the lease runs, and so it counts against the capacity.\<close>

lemma held:
  assumes "inv s" and "abs s l = Some (k, SLOT_RUNNING, e)" and "timely l secs e ticks"
  shows "abs (heartbeat_loop step l secs ticks s) l = Some (k, SLOT_RUNNING, last_expiry secs e ticks)
    \<and> inv (heartbeat_loop step l secs ticks s)"
  using assms
proof (induction ticks arbitrary: s e)
  case (Cons tick ticks)
  obtain now others fails where t: "tick = (now, others, fails)" by (cases tick)
  let ?s1 = "snd (run_slots step others s)"
  have s1: "inv ?s1" "abs ?s1 l = Some (k, SLOT_RUNNING, e)"
    using Cons.prems t run_inv others_keep by simp_all
  then have "abs (snd (step now (Heartbeat l secs) ?s1)) l = Some (k, SLOT_RUNNING, now + secs)"
    using heartbeat_renews Cons.prems(3) t by simp
  then show ?case using Cons.IH s1(1) step_inv Cons.prems(3) t by simp
qed simp

lemma polls_end:
  assumes "inv s" and "acquire_polls step k l secs polls s = (r, s')"
  shows "inv s' \<and> (\<forall>e. r = Inl e \<longrightarrow> (\<forall>k2 x. abs s' l \<noteq> Some (k2, SLOT_WAITING, x)))
    \<and> (r = Inr True \<longrightarrow> (\<exists>now \<in> fst ` set polls. abs s' l = Some (k, SLOT_RUNNING, now + secs)))"
  using assms
proof (induction polls arbitrary: s)
  case (Cons p polls)
  obtain now others fault where p: "p = (now, others, fault)" by (cases p)
  let ?s1 = "snd (run_slots step others s)" and ?s2 = "snd (step now (WaitHeartbeat l secs) (snd (run_slots step others s)))"
  have inv: "inv ?s1" "inv ?s2" using Cons.prems(1) run_inv step_inv by blast+
  have fin: "abs (snd (step now (WaitFinished l) x)) l \<noteq> Some (k2, SLOT_WAITING, e)" if "inv x" for x k2 e
    using that by (auto simp: step_abs spec_step_def Let_def split: option.splits prod.splits slot_status.splits)
  show ?case
  proof (cases fault)
    case NoFault
    show ?thesis
    proof (cases "fst (fst (step now (Acquire k l secs) ?s2)) = Some True")
      case True
      then have "r = Inr True" "s' = snd (step now (Acquire k l secs) ?s2)"
        using Cons.prems(2) p NoFault by (simp_all add: Let_def case_prod_beta)
      then show ?thesis using granted_running [OF inv(2) True] step_inv [OF inv(2)] p by simp
    next
      case False
      then have "acquire_polls step k l secs polls (snd (step now (Acquire k l secs) ?s2)) = (r, s')"
        using Cons.prems(2) p NoFault by (simp add: Let_def case_prod_beta)
      from Cons.IH [OF step_inv [OF inv(2)] this] show ?thesis by (auto simp: p)
    qed
  next
    case (RenewFault e)
    then show ?thesis using Cons.prems(2) p inv(1) fin step_inv by (auto simp: Let_def)
  next
    case (AcquireFault e)
    then show ?thesis using Cons.prems(2) p inv(2) fin step_inv by (auto simp: Let_def)
  qed
qed auto

lemma released: "inv s \<Longrightarrow> abs (release_lease step now l s) l = None \<and> inv (release_lease step now l s)"
  by (simp add: release_lease_def step_abs spec_step_def Let_def step_inv)

end

lemma polls_agree:
  "acquire_polls step k l secs (map (\<lambda>(now, others). (now, others, NoFault)) polls) s
     = (case acquire_loop step k l secs polls s of (ok, s') \<Rightarrow> (Inr ok, s'))"
proof (induction polls arbitrary: s)
  case (Cons p polls)
  then show ?case by (cases p) (simp add: acquire_loop_Cons Let_def case_prod_beta)
qed simp

lemma row_of_abs:
  "db_abs t l = Some (k, st, e) \<Longrightarrow> \<exists>r. row_at lease_id l t = Some r \<and> slot_state r = st \<and> slot_expires_at r = e"
  by (auto simp: db_abs_def abs_rows_def db_entry_def)

lemma no_waiting_row:
  "db_inv t \<Longrightarrow> \<forall>k e. db_abs t l \<noteq> Some (k, SLOT_WAITING, e) \<Longrightarrow> r \<in> set t \<Longrightarrow> lease_id r = l \<Longrightarrow> slot_state r \<noteq> SLOT_WAITING"
  using db_exists_status [of t l SLOT_WAITING] by (auto simp: exists_row_iff)



text \<open>One heartbeat that raises ends the thread: whatever ticks follow, the lease is not renewed again.\<close>

lemma heartbeat_dies:
  "heartbeat_loop step l secs ((now, others, True) # ticks) s
     = snd (run_slots step (concat (map (\<lambda>t. fst (snd t)) ticks)) (snd (run_slots step others s)))"
  by simp

lemma heartbeat_failure_loses_slot:
  "case acquire_lease (db_step 1) 0 None KIND_FFMPEG ''a'' 120 [(5, [], NoFault)] [] of (_, t1) \<Rightarrow>
     \<not> exists_row (\<lambda>r. lease_id r = ''a'')
         (heartbeat_loop (db_step 1) ''a'' 120 [(35, [], True), (65, [], False), (95, [], False), (125, [(125, Snapshot)], False)] t1)"
  by code_simp

section \<open>The worker process\<close>

datatype broker_call =
    Connect "int option"
  | OpenChannel
  | DeclareExchange
  | DeclareQueue string "(string \<times> int) list"
  | BindQueue string
  | SetQos int
  | PublishJob published
  | Answer broker_action
  | CancelConsumer
  | CloseConnection

text \<open>Which call raises may depend on the calls before it; a closed connection is seen at the end.\<close>

record process_env =
  we_fails :: "broker_call list \<Rightarrow> broker_call \<Rightarrow> error option"
  we_closed :: "broker_call list \<Rightarrow> bool"
  we_wrong_state :: "broker_call list \<Rightarrow> bool"
  we_url :: string
  we_requeue_flag :: string
  we_max_messages :: string

definition worker_heartbeat :: "string \<Rightarrow> int option" where
  "worker_heartbeat url = (if contains_sub ''heartbeat='' (py_lower url) then None else Some 0)"

text \<open>Calls in order until one raises; the calls made, and the error.\<close>

fun make_calls :: "process_env \<Rightarrow> broker_call list \<Rightarrow> broker_call list \<Rightarrow> error option \<times> broker_call list" where
  "make_calls env made [] = (None, made)"
| "make_calls env made (c # cs) =
     (case we_fails env made c of
        Some e \<Rightarrow> (Some e, made @ [c])
      | None \<Rightarrow> make_calls env (made @ [c]) cs)"

definition open_worker_channel :: "worker_config \<Rightarrow> broker_call list" where
  "open_worker_channel config =
     [OpenChannel, DeclareExchange, DeclareQueue (wc_queue config) (queue_arguments (wc_queue config)),
      BindQueue (wc_queue config), SetQos (wc_prefetch_count config)]"

text \<open>The messages that were published when a call raises are on the broker.\<close>

fun sent_messages :: "broker_call list \<Rightarrow> published list" where
  "sent_messages [] = []"
| "sent_messages (PublishJob m # cs) = m # sent_messages cs"
| "sent_messages (_ # cs) = sent_messages cs"

definition requeue_jobs_if_enabled ::
    "process_env \<Rightarrow> worker_config \<Rightarrow> broker_call list \<Rightarrow> world \<Rightarrow> error option \<times> broker_call list \<times> world" where
  "requeue_jobs_if_enabled env config made w =
     (if \<not> requeue_existing_jobs_enabled (we_requeue_flag env) then (None, made, w)
      else (case queued_jobs_for_worker (wc_worker_type config) (db w) of
          Inl e \<Rightarrow> (Some e, made, w)
        | Inr js \<Rightarrow>
            (case make_calls env made (map PublishJob (publish_requeued_jobs (wc_worker_type config) js)) of
               (None, calls) \<Rightarrow> (None, calls, w\<lparr>broker := broker w @ sent_messages (drop (length made) calls)\<rparr>)
             | (Some e, calls) \<Rightarrow>
                 (Some e, calls, w\<lparr>broker := broker w @ sent_messages (butlast (drop (length made) calls))\<rparr>))))"

definition close_connection_if_open :: "process_env \<Rightarrow> error option \<Rightarrow> broker_call list \<Rightarrow> error option \<times> broker_call list" where
  "close_connection_if_open env err made =
     (if we_closed env made then (err, made)
      else (case we_fails env made CloseConnection of
          None \<Rightarrow> (err, made @ [CloseConnection])
        | Some e \<Rightarrow> (if we_wrong_state env made then err else Some e, made @ [CloseConnection])))"

text \<open>Inside the \<open>try\<close>: the channel, the requeued jobs, the consumer and its end.\<close>

definition worker_body ::
    "process_env \<Rightarrow> worker_config \<Rightarrow> (bool \<times> delivery) list \<Rightarrow> broker_call list \<Rightarrow> world \<Rightarrow>
     (error option \<times> broker_call list \<times> world) option" where
  "worker_body env config evs made w =
     (case make_calls env made (open_worker_channel config) of
        (Some e, c1) \<Rightarrow> Some (Some e, c1, w)
      | (None, c1) \<Rightarrow>
          (case requeue_jobs_if_enabled env config c1 w of
             (Some e, c2, w2) \<Rightarrow> Some (Some e, c2, w2)
           | (None, c2, w2) \<Rightarrow>
               (case consume_worker_messages config evs w2 of
                  (AwaitingSlot, _, actions, w3) \<Rightarrow> None
                | (Crashed e, _, actions, w3) \<Rightarrow> Some (Some e, c2 @ map Answer actions, w3)
                | (_, _, actions, w3) \<Rightarrow>
                    (case make_calls env (c2 @ map Answer actions) [CancelConsumer] of
                       (err, c3) \<Rightarrow> Some (err, c3, w3)))))"

definition run_worker ::
    "process_env \<Rightarrow> string \<Rightarrow> int option \<Rightarrow> int option \<Rightarrow> (bool \<times> delivery) list \<Rightarrow> world \<Rightarrow>
     (error option \<times> broker_call list \<times> world) option" where
  "run_worker env worker_type prefetch_count max_messages evs w =
     (case build_worker_config (we_max_messages env) worker_type prefetch_count max_messages of
        Inl e \<Rightarrow> Some (Some e, [], w)
      | Inr config \<Rightarrow>
          (case make_calls env [] [Connect (worker_heartbeat (we_url env))] of
             (Some e, c0) \<Rightarrow> Some (Some e, c0, w)
           | (None, c0) \<Rightarrow>
               (case worker_body env config evs c0 w of
                  None \<Rightarrow> None
                | Some (err, calls, w1) \<Rightarrow>
                    (case close_connection_if_open env err calls of (err2, calls2) \<Rightarrow> Some (err2, calls2, w1)))))"

text \<open>A signal sets the stop flag, which stays set.\<close>

fun observe_stop :: "bool \<Rightarrow> (bool \<times> delivery) list \<Rightarrow> (bool \<times> delivery) list" where
  "observe_stop stop [] = []"
| "observe_stop stop ((signalled, ev) # evs) = (stop \<or> signalled, ev) # observe_stop (stop \<or> signalled) evs"

definition worker_main ::
    "process_env \<Rightarrow> string \<Rightarrow> int option \<Rightarrow> int option \<Rightarrow> (bool \<times> delivery) list \<Rightarrow> world \<Rightarrow>
     (error option \<times> broker_call list \<times> world) option" where
  "worker_main env worker_type prefetch max_messages evs w =
     (if worker_type \<notin> fst ` set QUEUE_BY_WORKER then Some (Some (SystemExit ''2''), [], w)
      else run_worker env worker_type prefetch max_messages (observe_stop False evs) w)"

section \<open>A worker's calls\<close>

lemma make_calls_prefix:
  "make_calls env made cs = (err, calls) \<Longrightarrow>
   \<exists>n. calls = made @ take n cs \<and> (err = None \<longrightarrow> n = length cs) \<and> (err \<noteq> None \<longrightarrow> 0 < n \<and> n \<le> length cs)"
proof (induction cs arbitrary: made)
  case (Cons c cs)
  show ?case
  proof (cases "we_fails env made c")
    case None
    then obtain n where "calls = (made @ [c]) @ take n cs" "err = None \<longrightarrow> n = length cs" "err \<noteq> None \<longrightarrow> 0 < n \<and> n \<le> length cs"
      using Cons by force
    then show ?thesis by (intro exI [of _ "Suc n"]) simp
  qed (use Cons in \<open>auto intro!: exI [of _ 1]\<close>)
qed simp

lemma sent_publishes [simp]: "sent_messages (map PublishJob ms) = ms"
  by (induction ms) auto

text \<open>Requeueing without a failure is the requeueing of the job table's part.\<close>

lemma requeue_agrees:
  assumes "requeue_existing_jobs_enabled (we_requeue_flag env)" and "\<And>made m. we_fails env made (PublishJob m) = None"
    and "requeue_existing_jobs (wc_worker_type config) w = Inr (n, w')"
  shows "\<exists>calls. requeue_jobs_if_enabled env config made w = (None, made @ calls, w') \<and> length calls = n"
proof -
  obtain js where js: "queued_jobs_for_worker (wc_worker_type config) (db w) = Inr js"
    using assms(3) by (auto simp: requeue_existing_jobs_def bind_result_Inr)
  let ?ms = "publish_requeued_jobs (wc_worker_type config) js"
  have "make_calls env made (map PublishJob ms) = (None, made @ map PublishJob ms)" for ms
    by (induction ms arbitrary: made) (simp_all add: assms(2))
  then show ?thesis
    using assms(1,3) js by (simp add: requeue_jobs_if_enabled_def requeue_existing_jobs_def Let_def)
qed

lemma requeue_calls:
  "requeue_jobs_if_enabled env config made w = (err, calls, w') \<Longrightarrow>
   \<exists>ms. calls = made @ map PublishJob ms \<and> db w' = db w"
  by (auto simp: requeue_jobs_if_enabled_def take_map dest!: make_calls_prefix
      split: if_splits sum.splits prod.splits option.splits intro: exI [of _ "[]"])

text \<open>The shape of a whole run that got its connection.\<close>

definition worker_calls :: "worker_config \<Rightarrow> int option \<Rightarrow> broker_call list \<Rightarrow> published list \<Rightarrow> broker_action list \<Rightarrow> bool" where
  "worker_calls config hb calls ms actions \<longleftrightarrow>
     (\<exists>n tail. calls = Connect hb # take n (open_worker_channel config) @ map PublishJob ms @ map Answer actions @ tail
        \<and> set tail \<subseteq> {CancelConsumer, CloseConnection}
        \<and> (ms \<noteq> [] \<or> actions \<noteq> [] \<longrightarrow> length (open_worker_channel config) \<le> n))"

lemma body_calls:
  assumes "worker_body env config evs [Connect hb] w = Some (err, calls, w')" and pos: "0 < wc_max_messages config"
  shows "\<exists>n ms actions tail. calls = Connect hb # take n (open_worker_channel config) @ map PublishJob ms @ map Answer actions @ tail
    \<and> set tail \<subseteq> {CancelConsumer} \<and> (n < 5 \<longrightarrow> ms = [] \<and> actions = [] \<and> tail = [])
    \<and> (err = None \<longrightarrow> tail = [CancelConsumer])
    \<and> prefix (map action_tag actions) (delivery_tags evs)
    \<and> int (length (filter settles actions)) \<le> wc_max_messages config"
proof -
  have five: "length (open_worker_channel config) = 5" by (simp add: open_worker_channel_def)
  obtain r1 c1 where o: "make_calls env [Connect hb] (open_worker_channel config) = (r1, c1)" by force
  obtain n where n: "c1 = Connect hb # take n (open_worker_channel config)" "r1 = None \<longrightarrow> n = 5" "r1 \<noteq> None \<longrightarrow> 0 < n \<and> n \<le> 5"
    using make_calls_prefix [OF o] five by auto
  show ?thesis
  proof (cases r1)
    case (Some e)
    then show ?thesis using assms o n
      by (intro exI [of _ n] exI [of _ "[] :: published list"] exI [of _ "[] :: broker_action list"] exI [of _ "[] :: broker_call list"])
        (auto simp: worker_body_def)
  next
    case None
    obtain r2 c2 w2 where q: "requeue_jobs_if_enabled env config c1 w = (r2, c2, w2)" by (metis prod_cases3)
    obtain ms where ms: "c2 = c1 @ map PublishJob ms" using requeue_calls [OF q] by blast
    show ?thesis
    proof (cases r2)
      case (Some e)
      then show ?thesis using assms o n None q ms five
        by (intro exI [of _ 5] exI [of _ ms] exI [of _ "[] :: broker_action list"] exI [of _ "[] :: broker_call list"])
          (auto simp: worker_body_def)
    next
      case r2: None
      obtain e p actions w3 where c: "consume_worker_messages config evs w2 = (e, p, actions, w3)" by (metis prod_cases4)
      have tags: "prefix (map action_tag actions) (delivery_tags evs)"
          "int (length (filter settles actions)) \<le> wc_max_messages config"
        using consume_from_facts [of config 0 evs w2 e p actions w3] c pos by (auto simp: consume_worker_messages_def)
      obtain r3 c3 where k: "make_calls env (c2 @ map Answer actions) [CancelConsumer] = (r3, c3)" by force
      have c3: "c3 = c2 @ map Answer actions @ [CancelConsumer]" using k by (auto split: option.splits)
      have "\<exists>tail. calls = c2 @ map Answer actions @ tail \<and> set tail \<subseteq> {CancelConsumer} \<and> (err = None \<longrightarrow> tail = [CancelConsumer])"
        using assms o None q r2 c k c3 by (auto simp: worker_body_def split: loop_end.splits)
      then obtain tail where "calls = c2 @ map Answer actions @ tail" "set tail \<subseteq> {CancelConsumer}"
          "err = None \<longrightarrow> tail = [CancelConsumer]" by blast
      then show ?thesis using n None ms five tags
        by (intro exI [of _ 5] exI [of _ ms] exI [of _ actions] exI [of _ tail]) simp
    qed
  qed
qed

text \<open>C13: A worker process that got its connection always ends it: whatever raises in between, its calls are
  the declarations in their order, then requeued jobs, then answers to the deliveries in their order,
  and the last call closes the connection unless that was closed already. Nothing is published or
  answered before the channel is declared and limited, no more messages are settled than
  configured, and the run ends without an error only after the consumer was cancelled.\<close>

theorem worker_closes_connection:
  assumes "run_worker env worker_type prefetch_count max_messages evs w = Some (err, calls, w')"
    and "build_worker_config (we_max_messages env) worker_type prefetch_count max_messages = Inr config"
    and "we_fails env [] (Connect (worker_heartbeat (we_url env))) = None"
  shows "\<exists>n ms actions tail closing.
    calls = Connect (worker_heartbeat (we_url env)) # take n (open_worker_channel config)
      @ map PublishJob ms @ map Answer actions @ tail @ closing
    \<and> (n < length (open_worker_channel config) \<longrightarrow> ms = [] \<and> actions = [] \<and> tail = [])
    \<and> prefix (map action_tag actions) (delivery_tags evs)
    \<and> int (length (filter settles actions)) \<le> wc_max_messages config
    \<and> set tail \<subseteq> {CancelConsumer} \<and> (err = None \<longrightarrow> tail = [CancelConsumer])
    \<and> (closing = [CloseConnection] \<or> closing = [] \<and> we_closed env calls)"
proof -
  let ?hb = "worker_heartbeat (we_url env)"
  have five: "length (open_worker_channel config) = 5" by (simp add: open_worker_channel_def)
  have pos: "0 < wc_max_messages config"
    using assms(2) by (auto simp: build_worker_config_def safe_max_messages_def bind_result_Inr split: option.splits)
  obtain err1 calls1 w1 where b: "worker_body env config evs [Connect ?hb] w = Some (err1, calls1, w1)"
      "close_connection_if_open env err1 calls1 = (err, calls)"
    using assms by (auto simp: run_worker_def split: option.splits prod.splits)
  from body_calls [OF b(1) pos] obtain n ms actions tail where c: "calls1 = Connect ?hb # take n (open_worker_channel config)
        @ map PublishJob ms @ map Answer actions @ tail"
      "set tail \<subseteq> {CancelConsumer}" "n < 5 \<longrightarrow> ms = [] \<and> actions = [] \<and> tail = []" "err1 = None \<longrightarrow> tail = [CancelConsumer]"
      "prefix (map action_tag actions) (delivery_tags evs)" "int (length (filter settles actions)) \<le> wc_max_messages config"
    by blast
  have "(calls = calls1 @ [CloseConnection] \<or> calls = calls1 \<and> we_closed env calls) \<and> (err = None \<longrightarrow> err1 = None)"
    using b(2) by (auto simp: close_connection_if_open_def split: if_splits option.splits)
  then obtain closing where "calls = calls1 @ closing" "closing = [CloseConnection] \<or> closing = [] \<and> we_closed env calls"
      "err = None \<longrightarrow> err1 = None" by auto
  then show ?thesis
    using c five by (intro exI [of _ n] exI [of _ ms] exI [of _ actions] exI [of _ tail] exI [of _ closing]) simp
qed

definition sample_process :: process_env where
  "sample_process = \<lparr>we_fails = (\<lambda>made c. if c = CancelConsumer then Some (RuntimeError ''gone'') else None),
     we_closed = (\<lambda>made. False), we_wrong_state = (\<lambda>made. False), we_url = ''amqp://broker'', we_requeue_flag = ''0'',
     we_max_messages = ''1''\<rparr>"

theorem worker_closes_connection_witness:
  "\<exists>calls w'. run_worker sample_process ''updates'' None None [(True, Inactivity)] sample_world = Some (Some (RuntimeError ''gone''), calls, w')
     \<and> last calls = CloseConnection \<and> hd calls = Connect (Some 0)"
proof -
  obtain config where config: "build_worker_config ''1'' ''updates'' None None = Inr config"
    by (cases "build_worker_config ''1'' ''updates'' None None")
      (simp_all add: build_worker_config_def QUEUE_BY_WORKER_def safe_max_messages_def py_int_def py_strip_def strip_chars_def
        rstrip_chars_def is_space_def is_decimal_def)
  have hb: "worker_heartbeat (we_url sample_process) = Some 0"
    unfolding sample_process_def process_env.simps by code_simp
  obtain calls w' where run: "run_worker sample_process ''updates'' None None [(True, Inactivity)] sample_world
      = Some (Some (RuntimeError ''gone''), calls, w')"
  proof -
    have "\<not> requeue_existing_jobs_enabled ''0''" by code_simp
    then show ?thesis
      using that config by (auto simp: run_worker_def worker_body_def open_worker_channel_def requeue_jobs_if_enabled_def
        consume_worker_messages_def close_connection_if_open_def sample_process_def)
  qed
  have ok: "build_worker_config (we_max_messages sample_process) ''updates'' None None = Inr config"
      "we_fails sample_process [] (Connect (worker_heartbeat (we_url sample_process))) = None"
    using config by (simp_all add: sample_process_def)
  from worker_closes_connection [OF run ok] obtain n ms actions tail closing where
      c: "calls = Connect (worker_heartbeat (we_url sample_process)) # take n (open_worker_channel config)
        @ map PublishJob ms @ map Answer actions @ tail @ closing"
      "closing = [CloseConnection] \<or> closing = [] \<and> we_closed sample_process calls" by blast
  then have "last calls = CloseConnection" by (simp add: sample_process_def)
  then show ?thesis using run c(1) hb by simp
qed

end
