(* ===== verification/SettingsPage.thy ===== *)
theory SettingsPage
  imports Api
begin

text \<open>
  The settings page of the dashboard (\<open>settings_page\<close> in \<open>src/src/api/services/dashboard_actions.py\<close>), the
  database lock around the form it posts, and the helpers the dashboard's handlers share: the profile of
  a user, the way back after a form, the columns a saved source writes, the hash of a file, and
  the rows of summaries that go with a purged episode. The database server, the hash functions
  and the one row of the table of settings of older versions are arguments.
\<close>

section \<open>The page\<close>

text \<open>\<open>_profile_id\<close> of a request; \<open>None\<close> is a request nobody is signed in to.\<close>

definition dashboard_profile_id :: "string option \<Rightarrow> string" where
  "dashboard_profile_id user = (case user of None \<Rightarrow> ''default'' | Some name \<Rightarrow> or_else name ''default'')"

definition redirect_back :: "form \<Rightarrow> string option \<Rightarrow> string \<Rightarrow> string" where
  "redirect_back post referer fallback = or_else (post_text post ''next'') (or_else (text_of referer) fallback)"

text \<open>The values the page shows: the defaults, then the application's, then the profile's.\<close>

definition page_settings :: "database \<Rightarrow> string \<Rightarrow> (string \<times> string) list" where
  "page_settings d profile =
     (let values = AList.update ''output_root'' (''./downloads/'' @ profile) PROFILE_DEFAULTS;
          values = dict_update values (map (\<lambda>r. (app_key r, app_value r)) (sort_key app_key (app_config d)))
      in dict_update values (map (\<lambda>r. (pc_key r, pc_value r)) (filter (\<lambda>r. pc_profile_id r = profile) (profile_config d))))"

definition checked_setting :: "(string \<times> string) list \<Rightarrow> string \<Rightarrow> bool" where
  "checked_setting values key \<longleftrightarrow> py_lower (py_strip (text_of (map_of values key))) \<in> set true_words"

record settings_context =
  sc_settings :: "(string \<times> string) list"
  sc_sources :: "source_config list"
  sc_youtube :: "source_config list"
  sc_podcasts :: "source_config list"
  sc_cookie_text :: "string option"
  sc_profile_id :: string
  sc_profile_name :: string
  sc_profile_initial :: string
  sc_filter_checked :: bool

definition source_order :: "source_config list \<Rightarrow> source_config list" where
  "source_order = sort_key (\<lambda>s. (src_source_type s, src_position s, src_id s))"

text \<open>\<open>legacy\<close> is the cookie of the settings table of older versions, read for the default profile only.\<close>

definition settings_page :: "string option \<Rightarrow> string option \<Rightarrow> database \<Rightarrow> settings_context" where
  "settings_page legacy user d =
     (let profile = dashboard_profile_id user;
          values = page_settings d profile;
          sources = source_order (filter (\<lambda>s. src_profile_id s = profile) (source_configs d));
          own = map_option pds_cookie_text (first_row (\<lambda>r. pds_profile_id r = profile) (download_settings d));
          name = or_else (text_of user) profile
      in \<lparr>sc_settings = values, sc_sources = sources,
          sc_youtube = filter (\<lambda>s. src_source_type s = source_type_value YOUTUBE) sources,
          sc_podcasts = filter (\<lambda>s. src_source_type s = source_type_value PODCAST) sources,
          sc_cookie_text = (if own = None \<and> profile = ''default'' then legacy else own),
          sc_profile_id = profile, sc_profile_name = name,
          sc_profile_initial = py_upper (or_else (take 1 name) ''U''),
          sc_filter_checked = checked_setting values ''manual_upload_delete_explicit_content''\<rparr>)"

section \<open>The lock around the form\<close>

datatype lock_call = GetLock string int | ReleaseLock string

definition settings_lock_name :: "(string \<Rightarrow> string) \<Rightarrow> string \<Rightarrow> string" where
  "settings_lock_name sha256 profile = ''getoffline_settings_'' @ take 48 (sha256 profile)"

text \<open>
  \<open>_profile_settings_lock\<close> around a body, which is told whether it has the lock: the answer, the state,
  and the statements sent to the server, each of which may raise.
\<close>

definition with_settings_lock ::
    "string \<Rightarrow> (lock_call \<Rightarrow> error + int option) \<Rightarrow> string \<Rightarrow> (bool \<Rightarrow> 's \<Rightarrow> 'a reply \<times> 's) \<Rightarrow> 's \<Rightarrow>
     'a reply \<times> 's \<times> lock_call list" where
  "with_settings_lock vendor server lock_name body s =
     (if vendor \<noteq> ''mysql'' then (case body True s of (r, s1) \<Rightarrow> (r, s1, []))
      else (case server (GetLock lock_name 15) of
          Inl e \<Rightarrow> (Raised e, s, [GetLock lock_name 15])
        | Inr result \<Rightarrow>
            if result \<noteq> Some 1 then (case body False s of (r, s1) \<Rightarrow> (r, s1, [GetLock lock_name 15]))
            else (case body True s of (r, s1) \<Rightarrow>
                (case server (ReleaseLock lock_name) of
                   Inl e \<Rightarrow> (Raised e, s1, [GetLock lock_name 15, ReleaseLock lock_name])
                 | Inr _ \<Rightarrow> (r, s1, [GetLock lock_name 15, ReleaseLock lock_name])))))"

text \<open>The whole handler: an invalid form is refused before the lock is asked for.\<close>

definition post_settings ::
    "string \<Rightarrow> (lock_call \<Rightarrow> error + int option) \<Rightarrow> (string \<Rightarrow> string) \<Rightarrow> time \<Rightarrow> string \<Rightarrow> form \<Rightarrow> database \<Rightarrow>
     unit reply \<times> database \<times> lock_call list" where
  "post_settings vendor server sha256 now profile post d =
     (if invalid_config_keys post \<noteq> [] then (case save_config now False profile post d of (r, d1) \<Rightarrow> (r, d1, []))
      else with_settings_lock vendor server (settings_lock_name sha256 profile)
             (\<lambda>acquired d. save_config now acquired profile post d) d)"

section \<open>Shared helpers\<close>

definition source_update_fields :: "bool \<Rightarrow> string list" where
  "source_update_fields include_enabled =
     (let names = [''name'', ''url'', ''media_type'', ''enabled'', ''subtitles'', ''subtitle_offset_seconds'', ''max_downloads'',
            ''delete_explicit_content'', ''title_exclude'', ''include_shorts'', ''include_livestreams'', ''updated_at'']
      in if include_enabled then names else remove1 ''enabled'' names)"

text \<open>\<open>_hash_file\<close>: the file's chunks of one megabyte go into the hash one by one and are counted.\<close>

function file_chunks :: "nat \<Rightarrow> 'b list \<Rightarrow> 'b list list" where
  "file_chunks n bs = (if n = 0 \<or> bs = [] then [] else take n bs # file_chunks n (drop n bs))"
  by pat_completeness auto
termination by (relation "measure (\<lambda>(n, bs). length bs)") auto

declare file_chunks.simps [simp del]

definition hash_file :: "('h \<Rightarrow> 'b list \<Rightarrow> 'h) \<Rightarrow> ('h \<Rightarrow> string) \<Rightarrow> 'h \<Rightarrow> 'b list \<Rightarrow> string \<times> nat" where
  "hash_file update hexdigest new content =
     (let chunks = file_chunks (1024 * 1024) content;
          (h, sz) = foldl (\<lambda>(h, sz) chunk. (update h chunk, sz + length chunk)) (new, 0) chunks
      in (hexdigest h, sz))"

text \<open>\<open>_delete_external_download_dependents\<close>, over the tables there are; a summary is the number of its episode and its text.\<close>

definition delete_external_download_dependents ::
    "int list \<Rightarrow> (string \<times> (int \<times> string) list) list \<Rightarrow> (string \<times> (int \<times> string) list) list" where
  "delete_external_download_dependents row_ids tables =
     (if row_ids = [] then tables
      else if ''media_summaries'' \<notin> fst ` set tables then tables
      else map (\<lambda>(table, rows). (table, if table = ''media_summaries''
                                        then foldl (\<lambda>rs n. delete_where (\<lambda>r. fst r = n) rs) rows row_ids else rows)) tables)"

section \<open>What the page shows\<close>

definition config_wf :: "database \<Rightarrow> bool" where
  "config_wf d \<longleftrightarrow> distinct (map app_key (app_config d)) \<and> distinct (map (\<lambda>r. (pc_profile_id r, pc_key r)) (profile_config d))"

lemma app_values:
  assumes "distinct (map app_key t)"
  shows "map_of (rev (map (\<lambda>r. (app_key r, app_value r)) (sort_key app_key t))) k = map_option app_value (row_at app_key k t)"
proof -
  have one: "map_of (map (\<lambda>r. (app_key r, app_value r)) t) k = map_option app_value (row_at app_key k t)" for t
    by (induction t) auto
  let ?kv = "map (\<lambda>r. (app_key r, app_value r))"
  have d: "distinct (map fst (?kv (sort_key app_key t)))" "distinct (map fst (?kv t))"
    using assms by (simp_all add: o_def distinct_map)
  have "map_of (?kv (sort_key app_key t)) = map_of (?kv t)"
    using map_of_inject_set [OF d] by simp
  then have "map_of (rev (?kv (sort_key app_key t))) = map_of (?kv t)"
    using map_of_rev_distinct [OF d(1)] by simp
  then show ?thesis using one by simp
qed

lemma own_values:
  assumes "distinct (map (\<lambda>r. (pc_profile_id r, pc_key r)) t)"
  shows "map_of (rev (map (\<lambda>r. (pc_key r, pc_value r)) (filter (\<lambda>r. pc_profile_id r = p) t))) k
    = map_option pc_value (first_row (\<lambda>r. pc_profile_id r = p \<and> pc_key r = k) t)"
  using assms
  by (induction t) (auto simp: map_add_def first_row_None image_iff split: option.splits dest!: first_row_Some)

lemma page_value:
  assumes "config_wf d"
  shows "map_of (page_settings d p) k = (case profile_value d p k of Some v \<Rightarrow> Some v
     | None \<Rightarrow> (case app_value_of d k of Some v \<Rightarrow> Some v
       | None \<Rightarrow> if k = ''output_root'' then Some (''./downloads/'' @ p) else map_of PROFILE_DEFAULTS k))"
  using assms app_values [of "app_config d" k] own_values [of "profile_config d" p k]
  by (auto simp: page_settings_def Let_def map_of_dict_update config_wf_def profile_value_def app_value_of_def
      split: option.split)

lemma config_wf_upsert: "config_wf d \<Longrightarrow> config_wf (upsert_config now p k v d)"
proof -
  assume wf: "config_wf d"
  let ?P = "\<lambda>r. pc_profile_id r = p \<and> pc_key r = k" and ?key = "\<lambda>r. (pc_profile_id r, pc_key r)"
  have frame: "map ?key (update_where ?P (\<lambda>r. r\<lparr>pc_value := v, pc_updated_at := now\<rparr>) t) = map ?key t" for t
    by (rule map_update_where_frame) simp
  show ?thesis
  proof (cases "exists_row ?P (profile_config d)")
    case True
    then show ?thesis using wf by (simp add: upsert_config_def config_wf_def frame)
  next
    case False
    then have "upsert_config now p k v d = d\<lparr>profile_config := profile_config d
        @ [\<lparr>pc_profile_id = p, pc_key = k, pc_value = v, pc_updated_at = now\<rparr>]\<rparr>"
      unfolding upsert_config_def Let_def by (simp only: if_False)
    then show ?thesis using wf False by (auto simp: config_wf_def exists_row_iff)
  qed
qed

lemma config_wf_store: "config_wf d \<Longrightarrow> config_wf (store_items now p items d)"
  by (induction now p items d rule: store_items.induct) (simp_all add: config_wf_upsert)

lemma save_config_config_wf:
  assumes "save_config now acquired p post d = (r, d')" and "config_wf d"
  shows "config_wf d'"
proof -
  have same: "app_config d2 = app_config d1 \<Longrightarrow> profile_config d2 = profile_config d1 \<Longrightarrow> config_wf d1 \<Longrightarrow> config_wf d2" for d1 d2
    by (simp add: config_wf_def)
  have cookie: "config_wf e \<Longrightarrow> config_wf (upsert_cookie now p t e)" for t e
    by (rule same [of _ e]) (simp_all add: upsert_cookie_def Let_def)
  have sync: "config_wf e \<Longrightarrow> config_wf (sync_update_downloads_schedule now p m e)" for m e
    by (rule same [of _ e]) (auto simp: sync_update_downloads_schedule_def Let_def update_schedule_def split: option.split)
  show ?thesis
    using assms config_wf_store [OF assms(2)] cookie sync
    by (auto simp: save_config_def Let_def split: if_splits option.splits)
qed

lemma saved_cookie:
  assumes "save_config now acquired p post d = (Done (), d')" and "post_get post ''youtube_cookie_text'' = Some t"
  shows "map_option pds_cookie_text (first_row (\<lambda>r. pds_profile_id r = p) (download_settings d')) = Some t"
proof -
  let ?P = "\<lambda>r. pds_profile_id r = p"
  let ?f = "\<lambda>r. r\<lparr>pds_cookie_text := t, pds_cookie_updated_at := Some now, pds_updated_at := now\<rparr>"
  have old: "exists_row ?P xs \<Longrightarrow> \<exists>x. first_row ?P (update_where ?P ?f xs) = Some x \<and> pds_cookie_text x = t" for xs
    by (induction xs) auto
  have new: "\<not> exists_row ?P xs \<Longrightarrow> ?P x \<Longrightarrow> first_row ?P (xs @ [x]) = Some x" for xs x
    by (induction xs) auto
  have up: "\<exists>x. first_row ?P (download_settings (upsert_cookie now p t e)) = Some x \<and> pds_cookie_text x = t" for e
    using old [of "download_settings e"] new [of "download_settings e"]
    by (cases "exists_row ?P (download_settings e)") (simp_all add: upsert_cookie_def)
  have sync: "download_settings (sync_update_downloads_schedule now p m e) = download_settings e" for m e
    by (auto simp: sync_update_downloads_schedule_def Let_def update_schedule_def split: option.split)
  show ?thesis
    using assms up by (fastforce simp: save_config_def Let_def sync split: if_splits option.splits)
qed

lemma settings_page_view:
  assumes "isolated p d d'" and "dashboard_profile_id user \<noteq> p"
  shows "settings_page legacy user d' = settings_page legacy user d"
proof -
  let ?q = "dashboard_profile_id user"
  have app: "app_config d' = app_config d" and v: "profile_view ?q d' = profile_view ?q d"
    using assms by (simp_all add: isolated_def)
  have config: "rows_of pc_profile_id ?q (profile_config d') = rows_of pc_profile_id ?q (profile_config d)"
      and cookies: "rows_of pds_profile_id ?q (download_settings d') = rows_of pds_profile_id ?q (download_settings d)"
      and sources: "rows_of src_profile_id ?q (source_configs d') = rows_of src_profile_id ?q (source_configs d)"
    using v by (simp_all add: profile_view_def)
  have rows: "first_row (\<lambda>r. pds_profile_id r = q) t
      = (case rows_of pds_profile_id q t of [] \<Rightarrow> None | r # _ \<Rightarrow> Some r)" for q t
    by (induction t) (auto simp: rows_of_def)
  have cookie: "first_row (\<lambda>r. pds_profile_id r = ?q) (download_settings d') = first_row (\<lambda>r. pds_profile_id r = ?q) (download_settings d)"
    unfolding rows cookies by (rule refl)
  have "page_settings d' ?q = page_settings d ?q"
    using config by (simp add: page_settings_def app rows_of_def)
  then show ?thesis
    using sources unfolding settings_page_def Let_def cookie by (simp add: rows_of_def)
qed

text \<open>The settings page shows what was saved: after an accepted form every posted value and the posted
  cookie are on the page of its user, values that were not posted stay as they were, and the page of
  every other user is the same as before.\<close>

theorem settings_page_shows_saved:
  assumes "save_config now acquired p post d = (Done (), d')" and "config_wf d" and "api_wf d"
    and "p \<noteq> []"
  shows "(\<forall>k. map_of (sc_settings (settings_page legacy (Some p) d')) k
      = (case post_get post (config_prefix @ k) of Some v \<Rightarrow> Some v
         | None \<Rightarrow> map_of (sc_settings (settings_page legacy (Some p) d)) k))
    \<and> (\<forall>t. post_get post ''youtube_cookie_text'' = Some t \<longrightarrow> sc_cookie_text (settings_page legacy (Some p) d') = Some t)
    \<and> (\<forall>user. dashboard_profile_id user \<noteq> p \<longrightarrow> settings_page legacy user d' = settings_page legacy user d)"
proof -
  have me: "dashboard_profile_id (Some p) = p" using assms(4) by (simp add: dashboard_profile_id_def or_else_def)
  have iso: "isolated p d d'" using save_config_isolated [OF assms(3), of p now acquired post] assms(1) by simp
  then have "app_value_of d' k = app_value_of d k" for k by (simp add: isolated_def app_value_of_def)
  then have "map_of (page_settings d' p) k = (case post_get post (config_prefix @ k) of Some v \<Rightarrow> Some v
         | None \<Rightarrow> map_of (page_settings d p) k)" for k
    using page_value [OF assms(2)] page_value [OF save_config_config_wf [OF assms(1,2)]] save_config_value [OF assms(1), of p k]
    by (simp split: option.split)
  moreover have page: "sc_settings (settings_page legacy (Some p) e) = page_settings e p" for e
    by (simp add: settings_page_def Let_def me)
  moreover have "sc_cookie_text (settings_page legacy (Some p) d') = Some t" if "post_get post ''youtube_cookie_text'' = Some t" for t
    using saved_cookie [OF assms(1) that] by (auto simp: settings_page_def Let_def me)
  ultimately show ?thesis using settings_page_view [OF iso] by (simp split: option.split)
qed

definition video_form :: form where
  "video_form = [(''config__video_format'', ''mkv''), (''youtube_cookie_text'', ''c'')]"

theorem settings_page_shows_saved_witness:
  "\<exists>d'. save_config 5 True ''ann'' video_form empty_database = (Done (), d')
     \<and> map_of (sc_settings (settings_page None (Some ''ann'') d')) ''video_format'' = Some ''mkv''
     \<and> sc_cookie_text (settings_page None (Some ''ann'') d') = Some ''c''
     \<and> map_of (sc_settings (settings_page None (Some ''bob'') d')) ''video_format'' = Some ''mp4''"
proof -
  have "fst (save_config 5 True ''ann'' video_form empty_database) = Done ()" by code_simp
  then obtain d' where run: "save_config 5 True ''ann'' video_form empty_database = (Done (), d')" by (metis prod.collapse)
  have wf: "config_wf empty_database" "api_wf empty_database" "''ann'' \<noteq> []"
    by (simp_all add: config_wf_def api_wf_def downloads_wf_def sources_wf_def playlists_wf_def empty_database_def)
  have form: "post_get video_form (config_prefix @ ''video_format'') = Some ''mkv''"
      "post_get video_form ''youtube_cookie_text'' = Some ''c''" by code_simp+
  have bob: "dashboard_profile_id (Some ''bob'') \<noteq> ''ann''"
      "map_of (sc_settings (settings_page None (Some ''bob'') empty_database)) ''video_format'' = Some ''mp4''" by code_simp+
  have shown: "map_of (sc_settings (settings_page None (Some ''ann'') d')) ''video_format'' = Some ''mkv''"
    using settings_page_shows_saved [OF run wf, THEN conjunct1, rule_format, of None "''video_format''"] form(1) by simp
  show ?thesis
    using run shown bob form(2) settings_page_shows_saved [OF run wf, THEN conjunct2, of None] by auto
qed

section \<open>The lock\<close>

text \<open>
  Only the holder of the lock writes, the lock is released exactly if it was taken, whatever the body
  answers, and without a failing statement the body's answer is handed on.
\<close>

lemma settings_lock_balanced:
  assumes "with_settings_lock vendor server n body s = (r, s', calls)"
  shows "(ReleaseLock n \<in> set calls \<longleftrightarrow> vendor = ''mysql'' \<and> server (GetLock n 15) = Inr (Some 1))
    \<and> (s' = s \<or> (\<exists>held. s' = snd (body held s) \<and> (held \<longleftrightarrow> vendor \<noteq> ''mysql'' \<or> server (GetLock n 15) = Inr (Some 1))))
    \<and> ((\<forall>c \<in> set calls. \<exists>a. server c = Inr a) \<longrightarrow>
         r = fst (body (vendor \<noteq> ''mysql'' \<or> server (GetLock n 15) = Inr (Some 1)) s))"
  using assms by (auto simp: with_settings_lock_def split: if_splits sum.splits prod.splits)

lemma settings_lock_name_length:
  "48 \<le> length (sha256 profile) \<Longrightarrow> length (settings_lock_name sha256 profile) = 68"
  by (simp add: settings_lock_name_def)

text \<open>C26: On MySQL no settings are ever saved: the server refuses names of locks longer than 64 characters (as
  its manual says since version 5.7.5), and the name the form's handler asks for has 68, because a SHA-256
  digest in hexadecimal has 64. Every form is refused or raises, and nothing is written, whoever posts it and
  whatever it holds; on another database the same form is saved.\<close>

theorem settings_never_saved_on_mysql:
  assumes limit: "\<forall>name seconds. 64 < length name \<longrightarrow> (\<exists>e. server (GetLock name seconds) = Inl e)"
    and digest: "length (sha256 profile) = 64"
  shows "fst (snd (post_settings ''mysql'' server sha256 now profile post d)) = d
    \<and> fst (post_settings ''mysql'' server sha256 now profile post d) \<noteq> Done ()
    \<and> (vendor \<noteq> ''mysql'' \<and> invalid_config_keys post = [] \<longrightarrow>
        post_settings vendor server sha256 now profile post d = (Done (), snd (save_config now True profile post d), []))"
proof -
  have "length (settings_lock_name sha256 profile) = 68" using digest by (simp add: settings_lock_name_length)
  then have "64 < length (settings_lock_name sha256 profile)" by simp
  then obtain e where e: "server (GetLock (settings_lock_name sha256 profile) 15) = Inl e" using limit by blast
  have "invalid_config_keys post = [] \<Longrightarrow> fst (save_config now True profile post d) = Done ()"
    by (simp add: save_config_def Let_def)
  then show ?thesis
    using e by (auto simp: post_settings_def with_settings_lock_def save_config_def split: prod.splits)
qed

definition mysql_server :: "lock_call \<Rightarrow> error + int option" where
  "mysql_server c = (case c of
     GetLock name _ \<Rightarrow> if 64 < length name then Inl (DatabaseError ''User-level lock name is incorrect'') else Inr (Some 1)
   | ReleaseLock _ \<Rightarrow> Inr (Some 1))"

theorem settings_never_saved_on_mysql_witness:
  "fst (post_settings ''mysql'' mysql_server (\<lambda>_. replicate 64 CHR ''a'') 5 ''ann'' video_form empty_database) \<noteq> Done ()
   \<and> fst (post_settings ''sqlite'' mysql_server (\<lambda>_. replicate 64 CHR ''a'') 5 ''ann'' video_form empty_database) = Done ()"
proof -
  have "\<forall>name seconds. 64 < length name \<longrightarrow> (\<exists>e. mysql_server (GetLock name seconds) = Inl e)"
      "length ((\<lambda>_. replicate 64 CHR ''a'') ''ann'') = 64" "invalid_config_keys video_form = []"
    by (simp add: mysql_server_def, simp, code_simp)
  from settings_never_saved_on_mysql [of mysql_server "\<lambda>_. replicate 64 CHR ''a''" "''ann''" 5 video_form empty_database "''sqlite''",
      OF this(1,2)] this(3)
  show ?thesis by simp
qed

section \<open>The helpers\<close>

text \<open>A saved source writes the columns of the list and no others.\<close>

lemma unlisted_columns_kept:
  "(let r' = apply_source_form now enabled f r in
    src_id r' = src_id r \<and> src_profile_id r' = src_profile_id r \<and> src_source_type r' = src_source_type r
    \<and> src_position r' = src_position r
    \<and> (''enabled'' \<notin> set (source_update_fields enabled) \<longrightarrow> src_enabled r' = src_enabled r))"
  by (simp add: apply_source_form_def source_update_fields_def Let_def)

lemma concat_file_chunks: "0 < n \<Longrightarrow> concat (file_chunks n bs) = bs"
  by (induction n bs rule: file_chunks.induct) (subst file_chunks.simps, simp)

text \<open>
  Hashing chunk by chunk is hashing the whole file, for a hash that can be fed in parts, and the
  size is the file's.
\<close>

lemma hash_file_whole:
  assumes "\<And>h a b. update (update h a) b = update h (a @ b)" and "update new [] = new"
  shows "hash_file update hexdigest new content = (hexdigest (update new content), length content)"
proof -
  have fold: "foldl (\<lambda>(h, sz) chunk. (update h chunk, sz + length chunk)) (update new a, n) cs
      = (update new (a @ concat cs), n + length (concat cs))" for a n cs
    by (induction cs arbitrary: a n) (simp_all add: assms(1))
  show ?thesis
    using fold [of "[]" 0 "file_chunks (1024 * 1024) content"]
    by (simp add: hash_file_def concat_file_chunks assms(2))
qed

text \<open>A purge removes the summaries of exactly the purged episodes, and touches no other table.\<close>

lemma foldl_delete_where: "foldl (\<lambda>rs n. delete_where (\<lambda>r. fst r = n) rs) rows ns = filter (\<lambda>r. fst r \<notin> set ns) rows"
  by (induction ns arbitrary: rows) (auto simp: delete_where_def intro: filter_cong)

lemma summaries_purged:
  assumes "(table, rows) \<in> set (delete_external_download_dependents ids tables)"
  shows "\<exists>old. (table, old) \<in> set tables
    \<and> rows = (if table = ''media_summaries'' then filter (\<lambda>r. fst r \<notin> set ids) old else old)"
proof (cases "ids = [] \<or> ''media_summaries'' \<notin> fst ` set tables")
  case True
  then have "(table, rows) \<in> set tables" using assms by (auto simp: delete_external_download_dependents_def split: if_splits)
  moreover have "table = ''media_summaries'' \<Longrightarrow> ids = []" using True calculation by force
  ultimately show ?thesis by force
next
  case False
  then show ?thesis using assms by (auto simp: delete_external_download_dependents_def foldl_delete_where split: if_splits)
qed

end
