(* ===== verification/Frontend.thy ===== *)
theory Frontend
  imports Auth
begin

text \<open>
  The browser's front end, \<open>src/src/frontend/views.py\<close> with the addresses of \<open>frontend/urls.py\<close>: every
  page is a request to the API through the SDK, whose answer is handed on or rendered. \<open>fe_loads\<close> is
  \<open>json.loads\<close> of the decoded bytes, \<open>fe_cookies\<close> the reading of one \<open>Set-Cookie\<close> header, \<open>fe_django\<close>
  the in-process client of a user. A rendered page is its template with the context.
\<close>

section \<open>Requests\<close>

record browser_request =
  br_method :: string
  br_full_path :: string
  br_headers :: headers
  br_user :: "string option"
  br_get :: "(string \<times> string) list"
  br_post :: "(string \<times> string) list"
  br_files :: "(string \<times> sdk_upload) list"

record frontend_env =
  fe_getenv :: "string \<Rightarrow> string option"
  fe_resolver :: url_resolver
  fe_django :: "string option \<Rightarrow> client_call \<Rightarrow> error + django_response"
  fe_server :: server
  fe_loads :: "string \<Rightarrow> error + pyval"
  fe_cookies :: "string \<Rightarrow> (string \<times> string) list"

text \<open>\<open>request.GET.get(key, fallback)\<close>: the last value of a repeated key.\<close>

definition query_value :: "(string \<times> string) list \<Rightarrow> string \<Rightarrow> string \<Rightarrow> string" where
  "query_value sent key fallback = (case map_of (rev sent) key of None \<Rightarrow> fallback | Some v \<Rightarrow> v)"

definition browser_header :: "browser_request \<Rightarrow> string \<Rightarrow> string" where
  "browser_header rq name =
     (case List.find (\<lambda>h. py_lower (fst h) = py_lower name) (br_headers rq) of None \<Rightarrow> [] | Some h \<Rightarrow> snd h)"

definition FORWARDED :: "string list" where
  "FORWARDED = [''Host'', ''Cookie'', ''X-CSRFToken'', ''Range'', ''Accept'', ''X-Requested-With'']"

definition forwarded_headers :: "browser_request \<Rightarrow> headers" where
  "forwarded_headers rq =
     map (\<lambda>name. (name, browser_header rq name)) (filter (\<lambda>name. browser_header rq name \<noteq> []) FORWARDED)"

definition values_of :: "('v \<Rightarrow> form_value) \<Rightarrow> (string \<times> 'v) list \<Rightarrow> form_data" where
  "values_of f sent =
     map (\<lambda>key. (key, Multi (map (f \<circ> snd) (filter (\<lambda>kv. fst kv = key) sent)))) (first_occurrences [] (map fst sent))"

definition posted_data :: "browser_request \<Rightarrow> form_data option" where
  "posted_data rq =
     (if br_method rq = ''POST''
      then Some (dict_update (values_of (Plain \<circ> PStr) (br_post rq)) (values_of Upload (br_files rq)))
      else None)"

section \<open>The proxy\<close>

definition env_text :: "frontend_env \<Rightarrow> string \<Rightarrow> string" where
  "env_text env name = (case fe_getenv env name of None \<Rightarrow> [] | Some v \<Rightarrow> v)"

definition api_transport :: "frontend_env \<Rightarrow> browser_request \<Rightarrow> error + transport" where
  "api_transport env rq =
     (if env_text env ''GETOFFLINE_TEST_IN_MEMORY_DB'' \<noteq> []
         \<or> env_text env ''GETOFFLINE_FRONTEND_API_TRANSPORT'' = ''django''
         \<or> env_text env ''GETOFFLINE_API_BASE_URL'' = []
      then Inr (django_request (fe_resolver env) (fe_django env (br_user rq)) ''/api'')
      else (let timeout = (case fe_getenv env ''GETOFFLINE_FRONTEND_API_TIMEOUT'' of None \<Rightarrow> ''30'' | Some v \<Rightarrow> v) in
        case py_float timeout of
          None \<Rightarrow> Inl (ValueError (''could not convert string to float: '' @ repr_str timeout))
        | Some _ \<Rightarrow> Inr (http_transport_request
            (new_http_transport (fe_resolver env) (fe_server env) (env_text env ''GETOFFLINE_API_BASE_URL'')))))"

definition proxy_request :: "browser_request \<Rightarrow> string \<Rightarrow> pyval list \<Rightarrow> pydict option \<Rightarrow> sdk_request" where
  "proxy_request rq name args query =
     \<lparr>rqs_method = br_method rq, rqs_target = name, rqs_args = args, rqs_query = query, rqs_data = posted_data rq,
      rqs_headers = forwarded_headers rq, rqs_streaming = (name \<in> {''api_stream'', ''api_subtitle''})\<rparr>"

record web_response =
  wb_status :: int
  wb_content_type :: string
  wb_headers :: headers
  wb_cookies :: "(string \<times> string) list"
  wb_body :: "string list"

definition PASSED :: "string list" where
  "PASSED = [''Content-Length'', ''Content-Range'', ''Accept-Ranges'', ''Content-Disposition'', ''Content-Security-Policy'',
     ''Location'', ''X-Frame-Options'']"

definition upstream_response :: "frontend_env \<Rightarrow> sdk_response \<Rightarrow> web_response" where
  "upstream_response env r =
     \<lparr>wb_status = rs_status r,
      wb_content_type = (case map_of (rs_headers r) ''Content-Type'' of None \<Rightarrow> ''application/octet-stream'' | Some t \<Rightarrow> t),
      wb_headers = concat (map (\<lambda>h. case map_of (rs_headers r) h of
          None \<Rightarrow> [] | Some v \<Rightarrow> if v = [] then [] else [(h, v)]) PASSED),
      wb_cookies = dict_update [] (concat (map (fe_cookies env) (rs_cookies r))),
      wb_body = (case rs_chunks r of Some cs \<Rightarrow> cs | None \<Rightarrow> [rs_content r])\<rparr>"

definition api_proxy :: "frontend_env \<Rightarrow> browser_request \<Rightarrow> string \<Rightarrow> pyval list \<Rightarrow> pydict option \<Rightarrow> error + web_response" where
  "api_proxy env rq name args query =
     bind_result (api_transport env rq) (\<lambda>t.
       map_sum id (upstream_response env)
         (raw_request \<lparr>cl_transport = t, cl_loads = fe_loads env\<rparr> (proxy_request rq name args query)))"

section \<open>Pages\<close>

datatype page =
    Upstream web_response
  | Rendered string pydict "string option"
  | RedirectTo string

datatype 'a viewed = Viewed 'a | ApiUnauthorized | Raises error

fun bind_viewed :: "'a viewed \<Rightarrow> ('a \<Rightarrow> 'b viewed) \<Rightarrow> 'b viewed" where
  "bind_viewed (Viewed x) f = f x"
| "bind_viewed ApiUnauthorized f = ApiUnauthorized"
| "bind_viewed (Raises e) f = Raises e"

fun page_status :: "page \<Rightarrow> int" where
  "page_status (Upstream r) = wb_status r"
| "page_status (Rendered _ _ _) = 200"
| "page_status (RedirectTo _) = 302"

definition handed_on :: "error + web_response \<Rightarrow> page viewed" where
  "handed_on r = (case r of Inl e \<Rightarrow> Raises e | Inr w \<Rightarrow> Viewed (Upstream w))"

definition quote_path :: "string \<Rightarrow> string" where
  "quote_path s = concat (map (\<lambda>c. if c = CHR ''/'' then [c] else quote_char c) s)"

definition login_redirect :: "frontend_env \<Rightarrow> browser_request \<Rightarrow> page viewed" where
  "login_redirect env rq =
     (case fe_resolver env ''login'' [] of
        None \<Rightarrow> Raises (NoReverseMatch ''login'')
      | Some url \<Rightarrow> Viewed (RedirectTo (url @ ''?next='' @ quote_path (br_full_path rq))))"

definition frontend_login_required :: "frontend_env \<Rightarrow> (browser_request \<Rightarrow> page viewed) \<Rightarrow> browser_request \<Rightarrow> page viewed" where
  "frontend_login_required env view rq =
     (case view rq of
        ApiUnauthorized \<Rightarrow> login_redirect env rq
      | Raises e \<Rightarrow> Raises e
      | Viewed p \<Rightarrow> if page_status p = 401 then login_redirect env rq else Viewed p)"

definition api_get_json :: "frontend_env \<Rightarrow> browser_request \<Rightarrow> string \<Rightarrow> pyval list \<Rightarrow> pydict option \<Rightarrow> pyval viewed" where
  "api_get_json env rq name args query =
     (case api_proxy env rq name args query of
        Inl e \<Rightarrow> Raises e
      | Inr r \<Rightarrow>
          if wb_status r = 401 then ApiUnauthorized
          else if wb_status r = 404 then Raises (Http404 ''API resource unavailable'')
          else if 400 \<le> wb_status r then Viewed (PDict [])
          else (case fe_loads env (concat (wb_body r)) of Inl e \<Rightarrow> Raises e | Inr v \<Rightarrow> Viewed v))"

text \<open>An answer that is no object has none of the methods the pages call.\<close>

definition as_object :: "pyval \<Rightarrow> pydict viewed" where
  "as_object v = (case v of PDict d \<Rightarrow> Viewed d | _ \<Rightarrow> Raises (AttributeError ''object has no such attribute''))"

definition library_page :: "frontend_env \<Rightarrow> browser_request \<Rightarrow> page viewed" where
  "library_page env rq =
     bind_viewed (api_get_json env rq ''api_frontend_library'' []
         (Some [(''filter'', PStr (query_value (br_get rq) ''filter'' [])), (''page'', PStr (query_value (br_get rq) ''page'' ''1'')),
                (''page_size'', PStr ''100'')])) (\<lambda>v.
       bind_viewed (as_object v) (\<lambda>payload. Viewed (Rendered ''app/library.html'' payload None)))"

definition jobs_page :: "frontend_env \<Rightarrow> browser_request \<Rightarrow> page viewed" where
  "jobs_page env rq =
     bind_viewed (api_get_json env rq ''api_frontend_jobs'' []
         (Some [(''page'', PStr (query_value (br_get rq) ''page'' ''1'')), (''page_size'', PStr ''100'')])) (\<lambda>v.
       bind_viewed (as_object v) (\<lambda>payload.
         Viewed (Rendered ''app/jobs.html''
           [(''jobs'', py_or (dget payload ''jobs'') (PList [])),
            (''profile_id'', dget_default payload ''profile_id'' (PStr [])),
            (''pagination'', py_or (dget payload ''pagination'') (PDict []))] None)))"

definition document_policy :: string where
  "document_policy =
     ''default-src '' @ [CHR 0x27] @ ''self'' @ [CHR 0x27] @ ''; base-uri '' @ [CHR 0x27] @ ''self'' @ [CHR 0x27]
     @ ''; connect-src '' @ [CHR 0x27] @ ''self'' @ [CHR 0x27] @ ''; font-src '' @ [CHR 0x27] @ ''self'' @ [CHR 0x27]
     @ ''; form-action '' @ [CHR 0x27] @ ''self'' @ [CHR 0x27] @ ''; frame-ancestors '' @ [CHR 0x27] @ ''none'' @ [CHR 0x27]
     @ ''; img-src '' @ [CHR 0x27] @ ''self'' @ [CHR 0x27] @ '' data:; media-src '' @ [CHR 0x27] @ ''self'' @ [CHR 0x27]
     @ '' blob:; object-src '' @ [CHR 0x27] @ ''self'' @ [CHR 0x27] @ ''; script-src '' @ [CHR 0x27] @ ''self'' @ [CHR 0x27]
     @ ''; style-src '' @ [CHR 0x27] @ ''self'' @ [CHR 0x27]"

text \<open>\<open>payload[key]\<close>.\<close>

definition subscript :: "pyval \<Rightarrow> string \<Rightarrow> pyval viewed" where
  "subscript v key =
     (case v of
        PDict d \<Rightarrow> (case map_of d key of None \<Rightarrow> Raises (KeyError key) | Some x \<Rightarrow> Viewed x)
      | _ \<Rightarrow> Raises (TypeError ''object is not subscriptable by a text''))"

definition player_page :: "frontend_env \<Rightarrow> int \<Rightarrow> browser_request \<Rightarrow> page viewed" where
  "player_page env download_id rq =
     bind_viewed (api_get_json env rq ''api_frontend_player'' [PInt download_id]
         (Some [(''t'', PStr (query_value (br_get rq) ''t'' [])), (''playlist'', PStr (query_value (br_get rq) ''playlist'' []))])) (\<lambda>v.
       if \<not> truthy v then Raises (Http404 ''Player item unavailable'')
       else bind_viewed (subscript v ''item'') (\<lambda>item.
         bind_viewed (subscript v ''seek_seconds'') (\<lambda>seek.
           bind_viewed (subscript v ''media_kind'') (\<lambda>kind.
             Viewed (Rendered ''app/player.html''
               [(''item'', item), (''seek_seconds'', seek), (''media_kind'', kind),
                (''playlist_id'', dget (as_dict v) ''playlist_id''),
                (''playlist_items'', py_or (dget (as_dict v) ''playlist_items'') (PList []))]
               (if kind = PStr ''document'' then Some document_policy else None))))))"

definition login_page :: "frontend_env \<Rightarrow> browser_request \<Rightarrow> page viewed" where
  "login_page env rq =
     (if br_method rq = ''GET''
      then Viewed (Rendered ''registration/login.html'' [(''next'', PStr (or_else (query_value (br_get rq) ''next'' []) ''/''))] None)
      else (case api_proxy env rq ''api_login'' [] None of
              Inl e \<Rightarrow> Raises e
            | Inr r \<Rightarrow>
                if wb_status r = 401
                then Viewed (Rendered ''registration/login.html''
                  [(''next'', PStr (or_else (query_value (br_post rq) ''next'' []) ''/'')), (''login_error'', PBool True)] None)
                else Viewed (Upstream r)))"

section \<open>Addresses\<close>

datatype frontend_route =
    Login | Logout | LibraryPage | JobsPage | PlayerPage int | PlaylistsPage "int option" | SettingsPage
  | MediaFile int | SubtitleFile int | ActiveStatus | EnqueueJob | WorkerMessage | BatchUpdate | TranscriptSearch
  | ManualUpload | EditMetadata | MarkPlayed int | MarkUnplayed int | Favorite int | Unfavorite int | SavePosition int
  | DeleteFile int | SaveConfig | AddSource | SaveSources string | UpdateSource int | ToggleSource int | DeleteSource int

text \<open>What a page that hands the API's answer on asks for.\<close>

fun proxied :: "frontend_route \<Rightarrow> browser_request \<Rightarrow> (string \<times> pyval list \<times> pydict option) option" where
  "proxied SettingsPage rq = Some (''api_frontend_settings'', [], None)"
| "proxied (MediaFile n) rq = Some (''api_stream'', [PInt n], None)"
| "proxied (SubtitleFile n) rq = Some (''api_subtitle'', [PInt n], None)"
| "proxied ActiveStatus rq = Some (''api_dashboard_active_pipeline_status'', [], None)"
| "proxied EnqueueJob rq = Some (''api_dashboard_enqueue_job'', [], None)"
| "proxied WorkerMessage rq = Some (''api_dashboard_worker_message_status'', [],
     Some [(''token'', PStr (query_value (br_get rq) ''token'' [])), (''job_id'', PStr (query_value (br_get rq) ''job_id'' []))])"
| "proxied BatchUpdate rq = Some (''api_dashboard_batch_update'', [], None)"
| "proxied TranscriptSearch rq = Some (''api_dashboard_transcript_search'', [],
     Some [(''q'', PStr (query_value (br_get rq) ''q'' []))])"
| "proxied ManualUpload rq = Some (''api_dashboard_manual_upload'', [], None)"
| "proxied EditMetadata rq = Some (''api_dashboard_edit_metadata'', [], None)"
| "proxied (MarkPlayed n) rq = Some (''api_dashboard_mark_played'', [PInt n], None)"
| "proxied (MarkUnplayed n) rq = Some (''api_dashboard_mark_unplayed'', [PInt n], None)"
| "proxied (Favorite n) rq = Some (''api_dashboard_favorite'', [PInt n], None)"
| "proxied (Unfavorite n) rq = Some (''api_dashboard_unfavorite'', [PInt n], None)"
| "proxied (SavePosition n) rq = Some (''api_dashboard_save_position'', [PInt n], None)"
| "proxied (DeleteFile n) rq = Some (''api_dashboard_delete_file'', [PInt n], None)"
| "proxied SaveConfig rq = Some (''api_settings_save_config'', [], None)"
| "proxied AddSource rq = Some (''api_settings_add_source'', [], None)"
| "proxied (SaveSources t) rq = Some (''api_settings_save_sources'', [PStr t], None)"
| "proxied (UpdateSource n) rq = Some (''api_settings_update_source'', [PInt n], None)"
| "proxied (ToggleSource n) rq = Some (''api_settings_toggle_source'', [PInt n], None)"
| "proxied (DeleteSource n) rq = Some (''api_settings_delete_source'', [PInt n], None)"
| "proxied _ rq = None"

definition proxy_page :: "frontend_env \<Rightarrow> frontend_route \<Rightarrow> browser_request \<Rightarrow> page viewed" where
  "proxy_page env route rq =
     (case proxied route rq of
        None \<Rightarrow> Raises (Http404 [])
      | Some (name, args, query) \<Rightarrow> handed_on (api_proxy env rq name args query))"

fun frontend_view :: "frontend_env \<Rightarrow> frontend_route \<Rightarrow> browser_request \<Rightarrow> page viewed" where
  "frontend_view env Login rq = login_page env rq"
| "frontend_view env Logout rq = handed_on (api_proxy env rq ''api_logout'' [] None)"
| "frontend_view env LibraryPage rq = frontend_login_required env (library_page env) rq"
| "frontend_view env JobsPage rq = frontend_login_required env (jobs_page env) rq"
| "frontend_view env (PlayerPage n) rq = frontend_login_required env (player_page env n) rq"
| "frontend_view env (PlaylistsPage p) rq = frontend_login_required env (\<lambda>_. Viewed (Rendered ''app/playlists.html''
     [(''playlist_id'', case p of None \<Rightarrow> PNone | Some n \<Rightarrow> PInt n)] None)) rq"
| "frontend_view env route rq = frontend_login_required env (proxy_page env route) rq"

text \<open>What a protected page asks the API, in one request.\<close>

fun asked :: "frontend_route \<Rightarrow> browser_request \<Rightarrow> (string \<times> pyval list \<times> pydict option) option" where
  "asked LibraryPage rq = Some (''api_frontend_library'', [],
     Some [(''filter'', PStr (query_value (br_get rq) ''filter'' [])), (''page'', PStr (query_value (br_get rq) ''page'' ''1'')),
           (''page_size'', PStr ''100'')])"
| "asked JobsPage rq = Some (''api_frontend_jobs'', [],
     Some [(''page'', PStr (query_value (br_get rq) ''page'' ''1'')), (''page_size'', PStr ''100'')])"
| "asked (PlayerPage n) rq = Some (''api_frontend_player'', [PInt n],
     Some [(''t'', PStr (query_value (br_get rq) ''t'' [])), (''playlist'', PStr (query_value (br_get rq) ''playlist'' []))])"
| "asked route rq = proxied route rq"

section \<open>Strangers are sent to the login page, and back\<close>

lemma proxied_view:
  "proxied route rq = Some (name, args, query) \<Longrightarrow>
     frontend_view env route rq = frontend_login_required env (proxy_page env route) rq"
  by (cases route) simp_all

lemma proxy_answer:
  assumes "api_transport env rq = Inr t" and "t (proxy_request rq name args query) = Inr r"
  shows "api_proxy env rq name args query = Inr (upstream_response env r)"
  using assms by (simp add: api_proxy_def raw_request_def)

lemma status_kept [simp]: "wb_status (upstream_response env r) = rs_status r"
  by (simp add: upstream_response_def)

lemma json_refused:
  "api_proxy env rq name args query = Inr w \<Longrightarrow> wb_status w = 401 \<Longrightarrow> api_get_json env rq name args query = ApiUnauthorized"
  by (simp add: api_get_json_def)

lemma refused_redirects:
  assumes "asked route rq = Some (name, args, query)" and "api_proxy env rq name args query = Inr w" and "wb_status w = 401"
  shows "frontend_view env route rq = login_redirect env rq"
proof (cases "proxied route rq")
  case None
  then show ?thesis
    using assms json_refused [OF assms(2,3)]
    by (cases route) (auto simp: frontend_login_required_def library_page_def jobs_page_def player_page_def)
next
  case (Some a)
  then have "proxied route rq = Some (name, args, query)" using assms(1) by (cases route) auto
  then show ?thesis
    using proxied_view [of route rq name args query env] assms
    by (simp add: frontend_login_required_def proxy_page_def handed_on_def)
qed

lemma quoted_blank: "quote_char CHR '' '' = percent 32" "char_of (32 :: nat) = CHR '' ''"
  by code_simp+

lemma unplus_path_char: "unplus ((if c = CHR ''/'' then [c] else quote_char c) @ r) = utf8_char c @ unplus r"
proof (cases "c = CHR ''/'' \<or> c = CHR '' ''")
  case True
  then show ?thesis by (auto simp: utf8_char_def unplus_percent quoted_blank)
next
  case False
  then show ?thesis using unplus_plus_char [of c r] by (simp add: plus_char_def)
qed

lemma unplus_quote_path: "unplus (quote_path s) = utf8 s"
  by (induction s) (simp_all add: quote_path_def utf8_def unplus_path_char)

lemma quote_path_chars: "CHR ''&'' \<notin> set (quote_path s)" "CHR ''='' \<notin> set (quote_path s)"
proof -
  have q: "x \<notin> set (if c = CHR ''/'' then [c] else quote_char c)" if "x \<in> set ''&=''" for x c
  proof (cases "c = CHR '' ''")
    case True
    then show ?thesis using that percent_chars [of 32 x] by (auto simp: quoted_blank)
  next
    case False
    then show ?thesis using that plus_char_chars [of x c] by (auto simp: plus_char_def)
  qed
  have "x \<notin> set (quote_path s)" if "x \<in> set ''&=''" for x
    using q [OF that] unfolding quote_path_def set_concat set_map by blast
  then show "CHR ''&'' \<notin> set (quote_path s)" "CHR ''='' \<notin> set (quote_path s)" by simp_all
qed

text \<open>C25: A stranger is asked to log in and then taken back: whenever the API refuses the one request a
  page makes, by whichever transport, the browser is sent to the login page with the address it
  asked for as the only field of the query, whatever characters that has; decoded, it is the
  address, and a login with it leads there when Django's check allows it.\<close>

theorem stranger_returns_after_login:
  assumes "asked route rq = Some (name, args, query)"
    and "api_transport env rq = Inr t" and "t (proxy_request rq name args query) = Inr r" and "rs_status r = 401"
    and "fe_resolver env ''login'' [] = Some url"
  shows "\<exists>next_field. frontend_view env route rq = Viewed (RedirectTo (url @ ''?next='' @ next_field))
    \<and> CHR ''&'' \<notin> set next_field \<and> CHR ''='' \<notin> set next_field
    \<and> utf8_decode (unplus next_field) = br_full_path rq
    \<and> (br_full_path rq \<noteq> [] \<and> allowed_url (br_full_path rq) \<longrightarrow>
        safe_login_redirect allowed_url [(''next'', PStr (utf8_decode (unplus next_field)))] = br_full_path rq)"
proof -
  have "frontend_view env route rq = login_redirect env rq"
    using refused_redirects [OF assms(1) proxy_answer [OF assms(2,3)]] assms(4) by simp
  moreover have "dget [(''next'', PStr s)] ''next'' = PStr s" for s by (simp add: dget_def)
  ultimately show ?thesis
    using assms(5) quote_path_chars [of "br_full_path rq"]
    by (intro exI [of _ "quote_path (br_full_path rq)"])
       (auto simp: login_redirect_def unplus_quote_path safe_login_redirect_def or_else_def str_or_empty_def)
qed

section \<open>The answer is handed on\<close>

lemma fill_template_one: "\<exists>u. fill_template t (a # as) = Inr u"
proof (induction t "a # as" rule: fill_template.induct)
  case (2 c cs)
  then show ?case by (cases "prefix ''{0}'' (c # cs)") auto
qed simp

definition plain_names :: "string list" where
  "plain_names =
     [''api_frontend_settings'', ''api_dashboard_active_pipeline_status'', ''api_dashboard_enqueue_job'',
      ''api_dashboard_worker_message_status'', ''api_dashboard_batch_update'', ''api_dashboard_transcript_search'',
      ''api_dashboard_manual_upload'', ''api_dashboard_edit_metadata'', ''api_settings_save_config'', ''api_settings_add_source'',
      ''api_frontend_library'', ''api_frontend_jobs'']"

definition argument_names :: "string list" where
  "argument_names =
     [''api_stream'', ''api_subtitle'', ''api_dashboard_mark_played'', ''api_dashboard_mark_unplayed'', ''api_dashboard_favorite'',
      ''api_dashboard_unfavorite'', ''api_dashboard_save_position'', ''api_dashboard_delete_file'', ''api_settings_save_sources'',
      ''api_settings_update_source'', ''api_settings_toggle_source'', ''api_settings_delete_source'', ''api_frontend_player'']"

lemma asked_name:
  assumes "asked route rq = Some (name, args, query)"
  shows "(args = [] \<and> name \<in> set plain_names) \<or> ((\<exists>a. args = [a]) \<and> name \<in> set argument_names)"
proof -
  have "case asked route rq of None \<Rightarrow> True | Some (name, args, query) \<Rightarrow>
      (args = [] \<and> name \<in> set plain_names) \<or> ((\<exists>a. args = [a]) \<and> name \<in> set argument_names)"
    by (cases route) (simp_all add: plain_names_def argument_names_def)
  then show ?thesis by (simp add: assms)
qed

lemma plain_names_known:
  "n \<in> set plain_names \<Longrightarrow> \<not> prefix ''/'' n \<and> (\<exists>t u. map_of API_ROUTE_PATHS n = Some t \<and> fill_template t [] = Inr u)"
proof -
  have "list_all (\<lambda>n. \<not> prefix ''/'' n \<and> (case map_of API_ROUTE_PATHS n of None \<Rightarrow> False
      | Some t \<Rightarrow> (case fill_template t [] of Inr _ \<Rightarrow> True | Inl _ \<Rightarrow> False))) plain_names" by code_simp
  then have "\<not> prefix ''/'' n \<and> (case map_of API_ROUTE_PATHS n of None \<Rightarrow> False
      | Some t \<Rightarrow> (case fill_template t [] of Inr _ \<Rightarrow> True | Inl _ \<Rightarrow> False))" if "n \<in> set plain_names"
    using that by (simp add: list_all_iff)
  then show "n \<in> set plain_names \<Longrightarrow> ?thesis" by (auto split: option.splits sum.splits)
qed

lemma argument_names_known:
  "n \<in> set argument_names \<Longrightarrow> \<not> prefix ''/'' n \<and> (\<exists>t. map_of API_ROUTE_PATHS n = Some t)"
proof -
  have "list_all (\<lambda>n. \<not> prefix ''/'' n \<and> map_of API_ROUTE_PATHS n \<noteq> None) argument_names" by code_simp
  then show "n \<in> set argument_names \<Longrightarrow> ?thesis" by (auto simp: list_all_iff)
qed

lemma proxied_address:
  assumes "asked route rq = Some (name, args, query)"
  shows "\<exists>url. request_url reverse_url base name args q = Inr url"
proof -
  have named: "\<not> prefix ''/'' name"
    using asked_name [OF assms] plain_names_known argument_names_known by blast
  have "\<exists>u. reverse_route reverse_url name args = Inr u"
    using asked_name [OF assms]
  proof
    assume "args = [] \<and> name \<in> set plain_names"
    then show ?thesis
      using plain_names_known [of name] by (cases "reverse_url name args") (auto simp: reverse_route_def)
  next
    assume a: "(\<exists>a. args = [a]) \<and> name \<in> set argument_names"
    then obtain t where t: "map_of API_ROUTE_PATHS name = Some t" using argument_names_known by blast
    obtain a where "args = [a]" using a by blast
    then show ?thesis
      using t fill_template_one [of t "(strip_slashes \<circ> py_str) a" "[]"] by (cases "reverse_url name args") (auto simp: reverse_route_def)
  qed
  then show ?thesis using named by (auto simp: request_url_def api_path_def Let_def)
qed

lemma map_of_passed:
  "distinct names \<Longrightarrow> map_of (concat (map (\<lambda>h. case d h of None \<Rightarrow> [] | Some v \<Rightarrow> if v = [] then [] else [(h, v)]) names)) name
     = (if name \<in> set names then (case d name of None \<Rightarrow> None | Some v \<Rightarrow> if v = [] then None else Some v) else None)"
  by (induction names) (auto simp: map_add_def split: option.splits)

lemma map_of_forwarded:
  "map_of (forwarded_headers rq) h = (if h \<in> set FORWARDED \<and> browser_header rq h \<noteq> [] then Some (browser_header rq h) else None)"
  by (auto simp: forwarded_headers_def map_of_map_restrict restrict_map_def)

lemma map_of_request_headers:
  "h \<noteq> ''Content-Type'' \<Longrightarrow> h \<noteq> ''Content-Length'' \<Longrightarrow> map_of (request_headers given data) h = map_of given h"
  by (auto simp: request_headers_def Let_def update_conv split: prod.split option.split)

definition http_deployment :: "frontend_env \<Rightarrow> bool" where
  "http_deployment env \<longleftrightarrow> env_text env ''GETOFFLINE_TEST_IN_MEMORY_DB'' = []
     \<and> env_text env ''GETOFFLINE_FRONTEND_API_TRANSPORT'' \<noteq> ''django''
     \<and> env_text env ''GETOFFLINE_API_BASE_URL'' \<noteq> [] \<and> fe_getenv env ''GETOFFLINE_FRONTEND_API_TIMEOUT'' = None"

definition api_over_http :: "frontend_env \<Rightarrow> http_transport" where
  "api_over_http env = new_http_transport (fe_resolver env) (fe_server env) (env_text env ''GETOFFLINE_API_BASE_URL'')"

lemma deployed: "http_deployment env \<Longrightarrow> api_transport env rq = Inr (http_transport_request (api_over_http env))"
proof -
  have "py_float ''30'' \<noteq> None" by code_simp
  then show "http_deployment env \<Longrightarrow> ?thesis"
    by (auto simp: http_deployment_def api_transport_def api_over_http_def)
qed

lemma http_answer:
  assumes "request_url (ht_resolver t) (ht_base_url t) (rqs_target q) (rqs_args q)
      (if py_upper (rqs_method q) = ''GET'' then rqs_query q else None) = Inr url"
    and "ht_server t \<lparr>wr_method = py_upper (rqs_method q), wr_url = url, wr_body = fst (encoded_body (rqs_data q)),
            wr_headers = request_headers (rqs_headers q) (rqs_data q)\<rparr> = Inr answer"
  shows "\<exists>r. http_transport_request t q = Inr r \<and> rs_status r = ws_status answer \<and> rs_headers r = header_dict (ws_headers answer)
    \<and> rs_cookies r = set_cookies (ws_headers answer)
    \<and> concat (case rs_chunks r of Some cs \<Rightarrow> cs | None \<Rightarrow> [rs_content r]) = ws_body answer"
  by (auto simp: http_transport_request_def assms(1) open_url_answers [of "ht_server t", OF assms(2)] http_response_def
      http_error_response_def)


section \<open>Sample deployments\<close>

definition stranger_env :: frontend_env where
  "stranger_env =
     \<lparr>fe_getenv = (\<lambda>_. None), fe_resolver = (\<lambda>name _. if name = ''login'' then Some ''/login/'' else None),
      fe_django = (\<lambda>_ _. Inr \<lparr>dr_status = 401, dr_streaming_content = None, dr_content = ''no'', dr_headers = [], dr_cookies = [],
        dr_streaming = False\<rparr>),
      fe_server = (\<lambda>_. Inl (OSError ''unused'')), fe_loads = (\<lambda>_. Inr PNone), fe_cookies = (\<lambda>_. [])\<rparr>"

definition page_request :: browser_request where
  "page_request =
     \<lparr>br_method = ''GET'', br_full_path = ''/media/7/?a=b&c'',
      br_headers = [(''cookie'', ''sessionid=s''), (''Range'', ''bytes=0-''), (''Referer'', ''/'')],
      br_user = None, br_get = [], br_post = [], br_files = []\<rparr>"

theorem stranger_returns_after_login_witness:
  "\<exists>next_field. frontend_view stranger_env (MediaFile 7) page_request = Viewed (RedirectTo (''/login/'' @ ''?next='' @ next_field))
    \<and> safe_login_redirect (prefix ''/'') [(''next'', PStr (utf8_decode (unplus next_field)))] = ''/media/7/?a=b&c''"
proof -
  have t: "api_transport stranger_env page_request
      = Inr (django_request (fe_resolver stranger_env) (fe_django stranger_env (br_user page_request)) ''/api'')"
    by (simp add: api_transport_def env_text_def stranger_env_def)
  have a: "asked (MediaFile 7) page_request = Some (''api_stream'', [PInt 7], None)" by simp
  have "(case django_request (fe_resolver stranger_env) (fe_django stranger_env (br_user page_request)) ''/api''
      (proxy_request page_request ''api_stream'' [PInt 7] None) of Inl _ \<Rightarrow> False | Inr r \<Rightarrow> rs_status r = 401)"
    by code_simp
  then obtain r where r: "django_request (fe_resolver stranger_env) (fe_django stranger_env (br_user page_request)) ''/api''
      (proxy_request page_request ''api_stream'' [PInt 7] None) = Inr r" "rs_status r = 401"
    by (auto split: sum.splits)
  have l: "fe_resolver stranger_env ''login'' [] = Some ''/login/''" by (simp add: stranger_env_def)
  from stranger_returns_after_login [OF a t r l, of "prefix ''/''"] show ?thesis by (auto simp: page_request_def)
qed

definition hosted_env :: frontend_env where
  "hosted_env =
     \<lparr>fe_getenv = (\<lambda>n. if n = ''GETOFFLINE_API_BASE_URL'' then Some ''http://api/api'' else None),
      fe_resolver = (\<lambda>_ _. None), fe_django = (\<lambda>_ _. Inl (OSError ''unused'')),
      fe_server = (\<lambda>_. Inr \<lparr>ws_status = 206, ws_headers = [(''Content-Range'', ''bytes 0-2/9'')], ws_body = ''abc''\<rparr>),
      fe_loads = (\<lambda>_. Inr PNone), fe_cookies = (\<lambda>_. [])\<rparr>"


section \<open>Observations\<close>

text \<open>The playlists page asks the API nothing, so the wrapper that requires a session never redirects.\<close>

lemma playlists_open:
  "frontend_view env (PlaylistsPage p) rq
     = Viewed (Rendered ''app/playlists.html'' [(''playlist_id'', case p of None \<Rightarrow> PNone | Some n \<Rightarrow> PInt n)] None)"
  by (simp add: frontend_login_required_def)

text \<open>A failing API looks like an empty library: any other error status is rendered with an empty context.\<close>

lemma failure_looks_empty:
  assumes "asked LibraryPage rq = Some (name, args, query)" and "api_proxy env rq name args query = Inr w"
    and "400 \<le> wb_status w" and "wb_status w \<noteq> 401" and "wb_status w \<noteq> 404"
  shows "frontend_view env LibraryPage rq = Viewed (Rendered ''app/library.html'' [] None)"
  using assms by (auto simp: frontend_login_required_def library_page_def api_get_json_def as_object_def)

text \<open>
  The policy of a document differs from the one of every other page in its objects only, and the
  middleware keeps it.
\<close>

lemma document_policy_relaxes_objects:
  "filter (\<lambda>d. d \<notin> set (split_on CHR '';'' content_security_policy)) (split_on CHR '';'' document_policy)
     = ['' object-src '' @ [CHR 0x27] @ ''self'' @ [CHR 0x27]]"
  "filter (\<lambda>d. d \<notin> set (split_on CHR '';'' document_policy)) (split_on CHR '';'' content_security_policy)
     = ['' object-src '' @ [CHR 0x27] @ ''none'' @ [CHR 0x27]]"
  "security_headers [(''Content-Security-Policy'', document_policy)] = [(''Content-Security-Policy'', document_policy)]"
  by code_simp+

end
