(* ===== verification/Copies.thy ===== *)
theory Copies
  imports SettingsPage Frontend
begin

text \<open>
  Second copies: routines that \<open>src/src/api/services/dashboard_actions.py\<close> and \<open>src/src/frontend/views.py\<close> kept
  when their owners moved to \<open>api/services/library.py\<close> and \<open>api/streaming/media.py\<close>, with the older pages
  built on them. Here they are modelled as they are written, and compared with the routines that
  serve today: where the two agree, and where they do not.

  \<open>absolute\<close> stands for \<open>expanduser\<close> and \<open>absolute\<close>, \<open>resolve\<close> for \<open>expanduser\<close> and \<open>resolve\<close>, which also follows
  symbolic links.
\<close>

section \<open>The dashboard's copies\<close>

fun unit_loop :: "string list \<Rightarrow> rat \<Rightarrow> string" where
  "unit_loop [] v = fmt2 v @ '' GB''"
| "unit_loop (u # us) v =
     (if v < 1024 \<or> u = ''GB''
      then (if u \<noteq> ''B'' then fmt2 v @ '' '' @ u else str_of_int (rat_trunc v) @ '' B'')
      else unit_loop us (v / 1024))"

definition dash_human_size :: "int option \<Rightarrow> string option" where
  "dash_human_size sz =
     (case sz of None \<Rightarrow> None
      | Some n \<Rightarrow> if n = 0 then None else Some (unit_loop [''B'', ''KB'', ''MB'', ''GB''] (of_int n)))"

text \<open>The label and class of a row are assigned one after the other, later assignments win.\<close>

definition dash_decorate :: "download \<Rightarrow> display" where
  "dash_decorate r =
     (let dtype = py_upper (or_else (or_else (text_of (dl_file_ext r)) (path_ext (text_of (dl_file_path r)))) ''?'');
          extension = py_lower dtype;
          kind = (if extension \<in> set [''mp4'', ''mkv'', ''webm'', ''mov''] then ''video''
                  else if extension = ''pdf'' then ''document'' else ''audio'');
          shown = (if kind = ''document''
                   then (if dl_played r then (''VIEWED'', ''status-viewed'') else (''VIEWING'', ''status-viewing''))
                   else let a = (''UNPLAYED'', ''status-unplayed'');
                            b = (if pf_lt pf_zero (dl_last_position r) \<and> \<not> dl_played r then (''STARTED'', ''status-started'') else a)
                        in if dl_played r then (''PLAYED'', ''status-played'') else b);
          shown = (if dl_status r \<in> {MISSING, RETENTION_DELETED}
                   then (if dl_status r = RETENTION_DELETED then ''REMOVED'' else ''MISSING'', ''status-missing'') else shown)
      in \<lparr>display_size = dash_human_size (dl_file_size_bytes r), display_type = dtype, display_kind = kind,
          status_label = fst shown, status_class = snd shown,
          has_subtitles = (or_else (text_of (dl_subtitle_path r)) (text_of (dl_subtitle_path_relative r)) \<noteq> [])\<rparr>)"

definition dash_output_root :: "(path \<Rightarrow> path) \<Rightarrow> database \<Rightarrow> string \<Rightarrow> path" where
  "dash_output_root absolute d profile = absolute (path_of (output_root_text d profile))"

definition dash_safe_path :: "(path \<Rightarrow> path) \<Rightarrow> file_system \<Rightarrow> string \<Rightarrow> error + path" where
  "dash_safe_path resolve fs raw =
     (if raw = [] then Inl (Http404 ''File unavailable'')
      else if path_exists fs (path_str (resolve (path_of raw))) \<and> is_file fs (path_str (resolve (path_of raw)))
      then Inr (resolve (path_of raw)) else Inl (Http404 ''File unavailable''))"

text \<open>The loop over the candidates, with the \<open>continue\<close> of its \<open>except\<close>.\<close>

fun dash_first_path :: "(path \<Rightarrow> path) \<Rightarrow> file_system \<Rightarrow> path list \<Rightarrow> error + path" where
  "dash_first_path resolve fs [] = Inl (Http404 ''File unavailable'')"
| "dash_first_path resolve fs (c # cs) =
     (case dash_safe_path resolve fs (path_str c) of Inr p \<Rightarrow> Inr p | Inl _ \<Rightarrow> dash_first_path resolve fs cs)"

definition dash_resolve_media_path ::
    "(path \<Rightarrow> path) \<Rightarrow> (path \<Rightarrow> path) \<Rightarrow> file_system \<Rightarrow> database \<Rightarrow> download \<Rightarrow> error + path" where
  "dash_resolve_media_path absolute resolve fs d r =
     (let candidates = (case dl_file_path_relative r of None \<Rightarrow> [] | Some s \<Rightarrow>
            if s = [] then [] else [path_join (dash_output_root absolute d (dl_profile_id r)) (path_of s)]);
          candidates = candidates @ (case dl_file_path r of None \<Rightarrow> [] | Some s \<Rightarrow> if s = [] then [] else [path_of s])
      in dash_first_path resolve fs candidates)"

text \<open>The lines of a subtitle file, collected one by one.\<close>

fun vtt_lines :: "string list \<Rightarrow> string list \<Rightarrow> string list" where
  "vtt_lines out [] = out"
| "vtt_lines out (line # lines) =
     (case match_cue line of
        Some ((start_time, start_ms), (end_time, end_ms), tail) \<Rightarrow>
          vtt_lines (out @ [start_time @ ''.'' @ start_ms @ '' --> '' @ end_time @ ''.'' @ end_ms @ tail]) lines
      | None \<Rightarrow> if py_isdigit (py_strip line) then vtt_lines out lines else vtt_lines (out @ [line]) lines)"

definition dash_srt_to_vtt :: "string \<Rightarrow> string" where
  "dash_srt_to_vtt content =
     py_strip (join_with [CHR 0x0A] (vtt_lines [''WEBVTT'', []] (split_lines content))) @ [CHR 0x0A]"

fun first_subtitle :: "(path \<Rightarrow> path) \<Rightarrow> file_system \<Rightarrow> path \<Rightarrow> path list \<Rightarrow> path option" where
  "first_subtitle resolve fs base [] = None"
| "first_subtitle resolve fs base (c # cs) =
     (if relative_to (resolve c) base = None then first_subtitle resolve fs base cs
      else if is_file fs (path_str (resolve c)) \<and> py_lower (path_suffix (resolve c)) \<in> set [''.srt'', ''.vtt'']
      then Some (resolve c) else first_subtitle resolve fs base cs)"

definition dash_resolve_subtitle_path ::
    "(path \<Rightarrow> path) \<Rightarrow> (path \<Rightarrow> path) \<Rightarrow> file_system \<Rightarrow> database \<Rightarrow> download \<Rightarrow> error + path option" where
  "dash_resolve_subtitle_path absolute resolve fs d r =
     bind_result (dash_resolve_media_path absolute resolve fs d r) (\<lambda>media.
       let base = dash_output_root absolute d (dl_profile_id r);
           candidates = (if text_of (dl_subtitle_path r) \<noteq> [] then [path_of (text_of (dl_subtitle_path r))] else []);
           candidates = candidates @ (if text_of (dl_subtitle_path_relative r) \<noteq> []
                          then [path_join base (path_of (text_of (dl_subtitle_path_relative r)))] else []);
           candidates = candidates @ [with_suffix media ''.srt'', with_suffix media ''.vtt'']
       in Inr (first_subtitle resolve fs base candidates))"

section \<open>The dashboard's older pages\<close>

record library_page_parts =
  lp_downloads :: "(download \<times> display) list"
  lp_jobs :: "job list"
  lp_profile_id :: string
  lp_profile_name :: string
  lp_show_all :: bool
  lp_listened :: pyfloat

definition library_visible_downloads :: "download list \<Rightarrow> bool \<Rightarrow> (download \<times> display) list" where
  "library_visible_downloads rows show_all =
     (let ordered = sort_key (\<lambda>r. (- dl_last_seen_at r, - dl_id r)) rows
      in map (\<lambda>r. (r, dash_decorate r)) (if show_all then ordered else take LIBRARY_PREVIEW_LIMIT ordered))"

definition dash_download_query :: "string \<Rightarrow> database \<Rightarrow> download list" where
  "dash_download_query profile d =
     filter (\<lambda>r. dl_profile_id r = profile \<and> dl_status r \<in> {DOWNLOADED, MISSING, RETENTION_DELETED}) (downloads d)"

definition library_listened_seconds :: "download list \<Rightarrow> pyfloat" where
  "library_listened_seconds rows = foldl pf_add pf_zero (map dl_total_listened rows)"

definition dash_recent_jobs :: "nat \<Rightarrow> string \<Rightarrow> database \<Rightarrow> job list" where
  "dash_recent_jobs n profile d =
     take n (sort_key (\<lambda>j. (- job_created_at j, - job_id j)) (filter (\<lambda>j. job_profile_id j = profile) (jobs d)))"

definition library_page_data :: "string option \<Rightarrow> form \<Rightarrow> database \<Rightarrow> library_page_parts" where
  "library_page_data user get d =
     (let profile = dashboard_profile_id user; rows = dash_download_query profile d;
          show_all = (post_get get ''filter'' = Some ''all'')
      in \<lparr>lp_downloads = library_visible_downloads rows show_all, lp_jobs = dash_recent_jobs 10 profile d,
          lp_profile_id = profile, lp_profile_name = or_else (text_of user) profile, lp_show_all = show_all,
          lp_listened = library_listened_seconds rows\<rparr>)"

record library_stats =
  ls_visible :: nat
  ls_played :: nat
  ls_new :: nat
  ls_favorites :: nat
  ls_listened :: string

text \<open>\<open>int(float(seconds))\<close> raises for what is not finite.\<close>

definition library_stats :: "library_page_parts \<Rightarrow> error + library_stats" where
  "library_stats page =
     (let rows = map fst (lp_downloads page); played_count = count_rows dl_played rows in
      case lp_listened page of
        Fin q \<Rightarrow> Inr \<lparr>ls_visible = length rows, ls_played = played_count, ls_new = length rows - played_count,
                       ls_favorites = count_rows dl_favorite rows, ls_listened = human_duration q\<rparr>
      | NaN \<Rightarrow> Inl (ValueError ''cannot convert float NaN to integer'')
      | _ \<Rightarrow> Inl (OverflowError ''cannot convert float infinity to integer''))"

record library_context =
  lc_downloads :: "(download \<times> display) list"
  lc_jobs :: "job list"
  lc_profile_id :: string
  lc_profile_name :: string
  lc_profile_initial :: string
  lc_filter_mode :: string
  lc_stats :: library_stats

definition library_context :: "library_page_parts \<Rightarrow> error + library_context" where
  "library_context page =
     bind_result (library_stats page) (\<lambda>stats. Inr
       \<lparr>lc_downloads = lp_downloads page, lc_jobs = lp_jobs page, lc_profile_id = lp_profile_id page,
        lc_profile_name = lp_profile_name page, lc_profile_initial = py_upper (or_else (take 1 (lp_profile_name page)) ''U''),
        lc_filter_mode = (if lp_show_all page then ''all'' else ''unplayed''), lc_stats = stats\<rparr>)"

definition legacy_library :: "string option \<Rightarrow> form \<Rightarrow> database \<Rightarrow> error + library_context" where
  "legacy_library user get d = library_context (library_page_data user get d)"

definition legacy_jobs :: "string option \<Rightarrow> database \<Rightarrow> job list" where
  "legacy_jobs user d = dash_recent_jobs 100 (dashboard_profile_id user) d"

record legacy_player =
  gp_item :: download
  gp_subtitle_path :: "path option"
  gp_seek :: pyfloat
  gp_kind :: string

definition legacy_player ::
    "(path \<Rightarrow> path) \<Rightarrow> (path \<Rightarrow> path) \<Rightarrow> file_system \<Rightarrow> string option \<Rightarrow> int \<Rightarrow> form \<Rightarrow> database \<Rightarrow> legacy_player reply" where
  "legacy_player absolute resolve fs user n get d =
     (case own_download (dashboard_profile_id user) n d of
        None \<Rightarrow> NotFound
      | Some r \<Rightarrow>
          (case (if dl_status r = DOWNLOADED then dash_resolve_subtitle_path absolute resolve fs d r else Inr None) of
             Inl (Http404 _) \<Rightarrow> NotFound
           | Inl e \<Rightarrow> Raised e
           | Inr subtitle \<Rightarrow>
               let requested = (case py_float (or_else (post_text get ''t'') ''0.0'') of None \<Rightarrow> pf_zero | Some f \<Rightarrow> f);
                   extension = py_lower (or_else (text_of (dl_file_ext r)) (path_ext (text_of (dl_file_path r))))
               in Done \<lparr>gp_item = r, gp_subtitle_path = subtitle, gp_seek = pf_max (dl_last_position r) requested,
                        gp_kind = (if extension \<in> set [''mp4'', ''mkv'', ''webm'', ''mov''] then ''video''
                                   else if extension = ''pdf'' then ''document'' else ''audio'')\<rparr>))"

text \<open>The view of a file: no header lets a document be framed.\<close>

definition legacy_media ::
    "(path \<Rightarrow> path) \<Rightarrow> (path \<Rightarrow> path) \<Rightarrow> file_system \<Rightarrow> (string \<Rightarrow> string option) \<Rightarrow> (path \<Rightarrow> 'b list) \<Rightarrow> string option \<Rightarrow> int \<Rightarrow>
     string \<Rightarrow> database \<Rightarrow> 'b media_reply reply" where
  "legacy_media absolute resolve fs guess content_of user n range_header d =
     (case own_download (dashboard_profile_id user) n d of
        None \<Rightarrow> NotFound
      | Some r \<Rightarrow>
          (case dash_resolve_media_path absolute resolve fs d r of
             Inl (Http404 _) \<Rightarrow> NotFound
           | Inl e \<Rightarrow> Raised e
           | Inr p \<Rightarrow>
               let content = content_of p; file_size = int (length content);
                   content_type = (case guess (path_name p) of Some t \<Rightarrow> t | None \<Rightarrow> ''application/octet-stream'')
               in if prefix ''bytes='' range_header then
                    (let (first, last) = clamp_range file_size (requested_range file_size range_header)
                     in Done \<lparr>mr_status = 206, mr_content_type = content_type,
                          mr_content_range = Some (''bytes '' @ str_of_int first @ ''-'' @ str_of_int last @ ''/'' @ str_of_int file_size),
                          mr_content_length = last - first + 1, mr_body = file_range_iterator content first (last - first + 1),
                          mr_frame_allowed = False\<rparr>)
                  else Done \<lparr>mr_status = 200, mr_content_type = content_type, mr_content_range = None,
                         mr_content_length = file_size, mr_body = [content], mr_frame_allowed = False\<rparr>))"

definition legacy_subtitle ::
    "(path \<Rightarrow> path) \<Rightarrow> (path \<Rightarrow> path) \<Rightarrow> file_system \<Rightarrow> (path \<Rightarrow> string) \<Rightarrow> string option \<Rightarrow> int \<Rightarrow> database \<Rightarrow> string reply" where
  "legacy_subtitle absolute resolve fs text user n d =
     (case own_download (dashboard_profile_id user) n d of
        None \<Rightarrow> NotFound
      | Some r \<Rightarrow>
          (case dash_resolve_subtitle_path absolute resolve fs d r of
             Inl (Http404 _) \<Rightarrow> NotFound
           | Inl e \<Rightarrow> Raised e
           | Inr None \<Rightarrow> NotFound
           | Inr (Some p) \<Rightarrow>
               Done (if py_lower (path_suffix p) = ''.srt'' then dash_srt_to_vtt (text p)
                     else if \<not> prefix ''WEBVTT'' (py_lstrip (text p)) then ''WEBVTT'' @ [CHR 0x0A, CHR 0x0A] @ text p
                     else text p)))"

section \<open>The front end's copies\<close>

text \<open>
  The front end decorates an object read from the API's answer: its attributes are the keys of a
  JSON object, and \<open>getattr\<close> has a default for one that is missing.
\<close>

datatype page_value = Namespace "(string \<times> page_value) list" | Items "page_value list" | Plain pyval

fun namespace :: "pyval \<Rightarrow> page_value" where
  "namespace (PDict d) = Namespace (map (\<lambda>(k, v). (k, namespace v)) d)"
| "namespace (PList xs) = Items (map namespace xs)"
| "namespace v = Plain v"

fun float_value :: "pyval \<Rightarrow> error + pyfloat" where
  "float_value (PBool b) = Inr (Fin (if b then 1 else 0))"
| "float_value (PInt n) = Inr (Fin (of_int n))"
| "float_value (PFloat s) = (case py_float s of None \<Rightarrow> Inl (ValueError s) | Some f \<Rightarrow> Inr f)"
| "float_value (PStr s) = (case py_float s of None \<Rightarrow> Inl (ValueError s) | Some f \<Rightarrow> Inr f)"
| "float_value _ = Inl (TypeError ''float() argument must be a string or a real number'')"

definition page_human_size :: "pyval \<Rightarrow> error + string option" where
  "page_human_size v =
     (if \<not> truthy v then Inr None
      else bind_result (float_value v) (\<lambda>f. case f of
          Fin q \<Rightarrow> Inr (Some (unit_loop [''B'', ''KB'', ''MB'', ''GB''] q))
        | PosInf \<Rightarrow> Inr (Some ''inf GB'')
        | NaN \<Rightarrow> Inr (Some ''nan GB'')
        | NegInf \<Rightarrow> Inl (OverflowError ''cannot convert float infinity to integer'')))"

definition upper_method :: "pyval \<Rightarrow> error + string" where
  "upper_method v = (case v of PStr s \<Rightarrow> Inr (py_upper s) | _ \<Rightarrow> Inl (AttributeError ''upper''))"

definition page_decorate :: "pydict \<Rightarrow> error + display" where
  "page_decorate item =
     bind_result (float_value (py_or (dget_default item ''last_position_seconds'' (PFloat ''0.0'')) (PFloat ''0.0''))) (\<lambda>position.
       let file_path = py_str (py_or (dget_default item ''file_path'' (PStr [])) (PStr [])) in
     bind_result (upper_method (py_or (py_or (dget_default item ''file_ext'' (PStr [])) (PStr (path_ext file_path))) (PStr ''?''))) (\<lambda>dtype.
     bind_result (page_human_size (dget_default item ''file_size_bytes'' PNone)) (\<lambda>sz.
       let extension = py_lower dtype; played = truthy (dget_default item ''played'' (PBool False));
           kind = (if extension \<in> set [''mp4'', ''mkv'', ''webm'', ''mov''] then ''video''
                   else if extension = ''pdf'' then ''document'' else ''audio'');
           shown = (if kind = ''document''
                    then (if played then ''VIEWED'' else ''VIEWING'', if played then ''status-viewed'' else ''status-viewing'')
                    else let a = (''UNPLAYED'', ''status-unplayed'');
                             b = (if pf_lt pf_zero position \<and> \<not> played then (''STARTED'', ''status-started'') else a)
                         in if played then (''PLAYED'', ''status-played'') else b);
           stored = py_str (dget_default item ''download_status'' (PStr []));
           shown = (if stored \<in> set [''missing'', ''retention_deleted'']
                    then (if stored = ''retention_deleted'' then ''REMOVED'' else ''MISSING'', ''status-missing'') else shown)
       in Inr \<lparr>display_size = sz, display_type = dtype, display_kind = kind, status_label = fst shown, status_class = snd shown,
            has_subtitles = truthy (py_or (dget_default item ''subtitle_path'' (PStr []))
                                          (dget_default item ''subtitle_path_relative'' (PStr [])))\<rparr>)))"

text \<open>The path is tested where it resolves, and returned as it was named.\<close>

definition page_safe_path :: "(path \<Rightarrow> path) \<Rightarrow> (path \<Rightarrow> path) \<Rightarrow> file_system \<Rightarrow> string \<Rightarrow> error + path" where
  "page_safe_path absolute resolve fs raw =
     (if raw = [] then Inl (Http404 ''File unavailable'')
      else let p = absolute (path_of raw); resolved = resolve p in
        if \<not> path_exists fs (path_str resolved) \<or> \<not> is_file fs (path_str resolved)
        then Inl (Http404 ''File unavailable'') else Inr p)"

text \<open>\<open>downloads_dir\<close> is the value of \<open>GETOFFLINE_DOWNLOADS_DIR\<close>.\<close>

definition page_output_root :: "(path \<Rightarrow> path) \<Rightarrow> string option \<Rightarrow> string \<Rightarrow> path" where
  "page_output_root resolve downloads_dir profile =
     resolve (path_of (case downloads_dir of None \<Rightarrow> ''./downloads/'' @ profile | Some s \<Rightarrow> s))"

fun page_first_path :: "(path \<Rightarrow> path) \<Rightarrow> (path \<Rightarrow> path) \<Rightarrow> file_system \<Rightarrow> path list \<Rightarrow> error + path" where
  "page_first_path absolute resolve fs [] = Inl (Http404 ''File unavailable'')"
| "page_first_path absolute resolve fs (c # cs) =
     (case page_safe_path absolute resolve fs (path_str c) of Inr p \<Rightarrow> Inr p | Inl _ \<Rightarrow> page_first_path absolute resolve fs cs)"

definition page_text :: "pydict \<Rightarrow> string \<Rightarrow> string \<Rightarrow> string" where
  "page_text item key dflt = py_str (dget_default item key (PStr dflt))"

definition page_resolve_media_path ::
    "(path \<Rightarrow> path) \<Rightarrow> (path \<Rightarrow> path) \<Rightarrow> file_system \<Rightarrow> string option \<Rightarrow> pydict \<Rightarrow> error + path" where
  "page_resolve_media_path absolute resolve fs downloads_dir item =
     (let base = page_output_root resolve downloads_dir (page_text item ''profile_id'' ''default'');
          candidates = (if truthy (dget_default item ''file_path_relative'' (PStr []))
                        then [path_join base (path_of (page_text item ''file_path_relative'' []))] else []);
          candidates = candidates @ (if truthy (dget_default item ''file_path'' (PStr []))
                        then [path_of (page_text item ''file_path'' [])] else [])
      in page_first_path absolute resolve fs candidates)"

definition page_resolve_subtitle_path ::
    "(path \<Rightarrow> path) \<Rightarrow> (path \<Rightarrow> path) \<Rightarrow> file_system \<Rightarrow> string option \<Rightarrow> pydict \<Rightarrow> error + path option" where
  "page_resolve_subtitle_path absolute resolve fs downloads_dir item =
     bind_result (page_resolve_media_path absolute resolve fs downloads_dir item) (\<lambda>media.
       let base = page_output_root resolve downloads_dir (page_text item ''profile_id'' ''default'');
           candidates = (if truthy (dget_default item ''subtitle_path'' (PStr []))
                         then [path_of (page_text item ''subtitle_path'' [])] else []);
           candidates = candidates @ (if truthy (dget_default item ''subtitle_path_relative'' (PStr []))
                          then [path_join base (path_of (page_text item ''subtitle_path_relative'' []))] else []);
           candidates = candidates @ [with_suffix media ''.srt'', with_suffix media ''.vtt'']
       in Inr (first_subtitle resolve fs base candidates))"

section \<open>Where they agree\<close>

lemma unit_loop_sizes: "dash_human_size = human_size"
proof
  have one: "0 \<le> v \<or> us \<noteq> ''B'' # tl us \<Longrightarrow> ''B'' \<notin> set us \<Longrightarrow> unit_loop us v = size_in_units us v" for us v
    by (induction us v rule: unit_loop.induct) auto
  have "unit_loop [''KB'', ''MB'', ''GB''] v = size_in_units [''KB'', ''MB'', ''GB''] v" for v by (rule one) auto
  moreover have "rat_trunc (of_int n) = n" for n by (simp add: rat_trunc_def)
  ultimately show "dash_human_size sz = human_size sz" for sz
    by (auto simp: dash_human_size_def human_size_def split: option.split)
qed

lemma dash_decorate_is: "dash_decorate r = decorate_download r"
proof -
  have dtype: "or_else (or_else (text_of (dl_file_ext r)) (path_ext (text_of (dl_file_path r)))) ''?''
      = (if media_ext r \<noteq> [] then media_ext r else ''?'')"
    by (simp add: media_ext_def or_else_def)
  have kind: "(if e \<in> set [''mp4'', ''mkv'', ''webm'', ''mov''] then ''video'' else if e = ''pdf'' then ''document'' else ''audio'')
      = kind_of_ext e" for e
    by (simp add: kind_of_ext_def video_exts_def)
  have subs: "or_else (text_of (dl_subtitle_path r)) (text_of (dl_subtitle_path_relative r)) \<noteq> []
      \<longleftrightarrow> text_of (dl_subtitle_path r) \<noteq> [] \<or> text_of (dl_subtitle_path_relative r) \<noteq> []"
    by (simp add: or_else_def)
  show ?thesis
    unfolding dash_decorate_def decorate_download_def Let_def unit_loop_sizes dtype kind subs
    by (cases "dl_status r"; cases "dl_played r") simp_all
qed

lemma vtt_lines_is: "vtt_lines out lines = out @ List.map_filter vtt_line lines"
  by (induction out lines rule: vtt_lines.induct) (auto simp: vtt_line_def List.map_filter_simps split: option.splits prod.splits)

lemma dash_srt_to_vtt_is: "dash_srt_to_vtt = srt_to_vtt"
  by (rule ext) (simp add: dash_srt_to_vtt_def srt_to_vtt_def vtt_lines_is)

definition row_attributes :: "(pyfloat \<Rightarrow> string) \<Rightarrow> download \<Rightarrow> pydict" where
  "row_attributes repr r =
     [(''last_position_seconds'', PFloat (repr (dl_last_position r))), (''file_path'', opt_text (dl_file_path r)),
      (''file_ext'', opt_text (dl_file_ext r)),
      (''file_size_bytes'', case dl_file_size_bytes r of None \<Rightarrow> PNone | Some n \<Rightarrow> PInt n), (''played'', PBool (dl_played r)),
      (''download_status'', PStr (download_status_value (dl_status r))), (''subtitle_path'', opt_text (dl_subtitle_path r)),
      (''subtitle_path_relative'', opt_text (dl_subtitle_path_relative r))]"

lemma py_or_text:
  "py_or (opt_text x) (PStr s) = PStr (or_else (text_of x) s)" "truthy (opt_text x) \<longleftrightarrow> text_of x \<noteq> []"
  by (auto simp: py_or_def opt_text_def or_else_def text_of_def split: option.splits)

lemma page_size: "page_human_size (case sz of None \<Rightarrow> PNone | Some n \<Rightarrow> PInt n) = Inr (human_size sz)"
  unfolding unit_loop_sizes [symmetric] by (auto simp: page_human_size_def dash_human_size_def split: option.split)

lemma page_position:
  assumes "py_float s = Some f"
  shows "float_value (py_or (PFloat s) (PFloat ''0.0'')) = Inr f"
proof -
  have "py_float ''0.0'' = Some (Fin 0)" by code_simp
  then show ?thesis using assms by (auto simp: py_or_def)
qed

lemma page_decorate_is:
  assumes "py_float (repr (dl_last_position r)) = Some (dl_last_position r)"
  shows "page_decorate (row_attributes repr r) = Inr (decorate_download r)"
proof -
  have attributes: "dget_default (row_attributes repr r) ''last_position_seconds'' v = PFloat (repr (dl_last_position r))"
      "dget_default (row_attributes repr r) ''file_path'' v = opt_text (dl_file_path r)"
      "dget_default (row_attributes repr r) ''file_ext'' v = opt_text (dl_file_ext r)"
      "dget_default (row_attributes repr r) ''file_size_bytes'' v = (case dl_file_size_bytes r of None \<Rightarrow> PNone | Some n \<Rightarrow> PInt n)"
      "dget_default (row_attributes repr r) ''played'' v = PBool (dl_played r)"
      "dget_default (row_attributes repr r) ''download_status'' v = PStr (download_status_value (dl_status r))"
      "dget_default (row_attributes repr r) ''subtitle_path'' v = opt_text (dl_subtitle_path r)"
      "dget_default (row_attributes repr r) ''subtitle_path_relative'' v = opt_text (dl_subtitle_path_relative r)" for v
    by (simp_all add: row_attributes_def dget_default_def)
  have subs: "truthy (py_or (opt_text a) (opt_text b)) \<longleftrightarrow> or_else (text_of a) (text_of b) \<noteq> []" for a b
    by (auto simp: py_or_def py_or_text or_else_def)
  have texts: "py_or (PStr a) (PStr b) = PStr (or_else a b)" "or_else a [] = a" for a b
    by (simp_all add: py_or_def or_else_def)
  show ?thesis
    unfolding page_decorate_def attributes page_position [OF assms] py_or_text(1) page_size subs dash_decorate_is [symmetric]
      dash_decorate_def unit_loop_sizes
    by (cases "dl_status r") (simp_all add: upper_method_def texts Let_def)
qed

subsection \<open>Paths\<close>

lemma first_safe_Cons:
  "first_safe resolve fs (c # cs) = (case safe_path resolve fs (path_str c) of Inr p \<Rightarrow> Inr p | Inl _ \<Rightarrow> first_safe resolve fs cs)"
proof -
  have "safe_path resolve fs (path_str c) = Inl e \<Longrightarrow> e = Http404 ''File unavailable''" for e
    by (auto simp: safe_path_def Let_def split: if_splits)
  then show ?thesis by (cases "safe_path resolve fs (path_str c)") auto
qed

lemma dash_first_path_is: "dash_first_path resolve fs cs = first_safe resolve fs cs"
proof (induction cs)
  case (Cons c cs)
  have "dash_safe_path resolve fs raw = safe_path resolve fs raw" for raw
    by (auto simp: dash_safe_path_def safe_path_def Let_def)
  then show ?case unfolding first_safe_Cons by (simp add: Cons split: sum.split)
qed simp

lemma first_subtitle_is: "first_subtitle resolve fs base cs = List.find (acceptable_subtitle fs base) (map resolve cs)"
  by (induction cs) (auto simp: acceptable_subtitle_def)

lemma dash_media_path_is:
  assumes "dash_output_root absolute d (dl_profile_id r) = profile_output_root resolve d (dl_profile_id r)"
  shows "dash_resolve_media_path absolute resolve fs d r = resolve_media_path resolve fs d r"
  using assms
  by (auto simp: dash_resolve_media_path_def resolve_media_path_def media_candidates_def dash_first_path_is text_of_def
      split: option.splits)

lemma dash_subtitle_path_is:
  assumes "dash_output_root absolute d (dl_profile_id r) = profile_output_root resolve d (dl_profile_id r)"
  shows "dash_resolve_subtitle_path absolute resolve fs d r = resolve_subtitle_path resolve fs d r"
  using assms
  by (simp add: dash_resolve_subtitle_path_def resolve_subtitle_path_def dash_media_path_is first_subtitle_is
      subtitle_candidates_def Let_def)

text \<open>The front end names the file the streaming code serves: following its path leads there.\<close>

lemma page_first_path_is:
  assumes "\<And>p. resolve (absolute p) = resolve p"
  shows "map_sum id resolve (page_first_path absolute resolve fs cs) = first_safe resolve fs cs"
proof (induction cs)
  case (Cons c cs)
  have "safe_path resolve fs raw = map_sum id resolve (page_safe_path absolute resolve fs raw)" for raw
    by (simp add: page_safe_path_def safe_path_def Let_def assms)
  then show ?case unfolding first_safe_Cons
    by (cases "page_safe_path absolute resolve fs (path_str c)") (use Cons in simp_all)
qed simp

definition path_attributes :: "download \<Rightarrow> pydict" where
  "path_attributes r =
     [(''profile_id'', PStr (dl_profile_id r)), (''file_path'', opt_text (dl_file_path r)),
      (''file_path_relative'', opt_text (dl_file_path_relative r)), (''subtitle_path'', opt_text (dl_subtitle_path r)),
      (''subtitle_path_relative'', opt_text (dl_subtitle_path_relative r))]"

lemma path_attributes_values:
  "page_text (path_attributes r) ''profile_id'' v = dl_profile_id r"
  "truthy (dget_default (path_attributes r) ''file_path'' w) \<longleftrightarrow> text_of (dl_file_path r) \<noteq> []"
  "truthy (dget_default (path_attributes r) ''file_path_relative'' w) \<longleftrightarrow> text_of (dl_file_path_relative r) \<noteq> []"
  "truthy (dget_default (path_attributes r) ''subtitle_path'' w) \<longleftrightarrow> text_of (dl_subtitle_path r) \<noteq> []"
  "truthy (dget_default (path_attributes r) ''subtitle_path_relative'' w) \<longleftrightarrow> text_of (dl_subtitle_path_relative r) \<noteq> []"
  "text_of (dl_file_path r) \<noteq> [] \<Longrightarrow> page_text (path_attributes r) ''file_path'' v = text_of (dl_file_path r)"
  "text_of (dl_file_path_relative r) \<noteq> [] \<Longrightarrow> page_text (path_attributes r) ''file_path_relative'' v = text_of (dl_file_path_relative r)"
  "text_of (dl_subtitle_path r) \<noteq> [] \<Longrightarrow> page_text (path_attributes r) ''subtitle_path'' v = text_of (dl_subtitle_path r)"
  "text_of (dl_subtitle_path_relative r) \<noteq> [] \<Longrightarrow>
     page_text (path_attributes r) ''subtitle_path_relative'' v = text_of (dl_subtitle_path_relative r)"
  by (auto simp: path_attributes_def page_text_def dget_default_def opt_text_def text_of_def split: option.splits)

lemma page_media_path_is:
  assumes "\<And>p. resolve (absolute p) = resolve p"
    and "page_output_root resolve downloads_dir (dl_profile_id r) = profile_output_root resolve d (dl_profile_id r)"
  shows "map_sum id resolve (page_resolve_media_path absolute resolve fs downloads_dir (path_attributes r))
    = resolve_media_path resolve fs d r"
  unfolding page_resolve_media_path_def Let_def page_first_path_is [of resolve absolute, OF assms(1)] resolve_media_path_def
    media_candidates_def path_attributes_values(1) assms(2)
  by (simp add: path_attributes_values)

lemma page_subtitle_path_is:
  assumes plain: "\<And>p. absolute p = resolve p" and "\<And>p. resolve (resolve p) = resolve p"
    and "page_output_root resolve downloads_dir (dl_profile_id r) = profile_output_root resolve d (dl_profile_id r)"
  shows "page_resolve_subtitle_path absolute resolve fs downloads_dir (path_attributes r) = resolve_subtitle_path resolve fs d r"
proof -
  have "page_first_path absolute resolve fs cs = first_safe resolve fs cs" for cs
  proof (induction cs)
    case (Cons c cs)
    have "page_safe_path absolute resolve fs raw = safe_path resolve fs raw" for raw
      by (simp add: page_safe_path_def safe_path_def Let_def plain assms(2))
    then show ?case unfolding first_safe_Cons by (simp add: Cons split: sum.split)
  qed simp
  then have "page_resolve_media_path absolute resolve fs downloads_dir (path_attributes r) = resolve_media_path resolve fs d r"
    by (simp add: page_resolve_media_path_def resolve_media_path_def media_candidates_def path_attributes_values assms(3))
  then show ?thesis
    by (cases "text_of (dl_subtitle_path r) = []"; cases "text_of (dl_subtitle_path_relative r) = []")
      (simp_all add: page_resolve_subtitle_path_def resolve_subtitle_path_def subtitle_candidates_def first_subtitle_is
        path_attributes_values assms(3) Let_def)
qed

text \<open>C27: The second copies do what the routines that serve today do: both decorations, the sizes and the WebVTT
  conversion give the same result on every row and text, and the dashboard's search for the file of an episode
  and for its subtitle finds the same path, provided that the profile's root, made absolute, is its own
  resolution.\<close>

theorem second_copies_agree:
  shows "dash_decorate r = decorate_download r \<and> dash_human_size = human_size \<and> dash_srt_to_vtt = srt_to_vtt
    \<and> (py_float (repr (dl_last_position r)) = Some (dl_last_position r) \<longrightarrow>
        page_decorate (row_attributes repr r) = Inr (decorate_download r))
    \<and> (dash_output_root absolute d (dl_profile_id r) = profile_output_root resolve d (dl_profile_id r) \<longrightarrow>
        dash_resolve_media_path absolute resolve fs d r = resolve_media_path resolve fs d r
        \<and> dash_resolve_subtitle_path absolute resolve fs d r = resolve_subtitle_path resolve fs d r)"
  using dash_decorate_is unit_loop_sizes dash_srt_to_vtt_is page_decorate_is dash_media_path_is dash_subtitle_path_is
  by blast

theorem second_copies_agree_witness:
  "page_decorate (row_attributes (\<lambda>_. ''12.5'') (sample_download\<lparr>dl_last_position := Fin (25 / 2)\<rparr>))
     = Inr (decorate_download (sample_download\<lparr>dl_last_position := Fin (25 / 2)\<rparr>))
   \<and> dash_resolve_subtitle_path id id sample_fs media_root_db sample_download = resolve_subtitle_path id sample_fs media_root_db sample_download"
proof -
  have "py_float ''12.5'' = Some (Fin (25 / 2))" by code_simp
  moreover have "dash_output_root id media_root_db p = profile_output_root id media_root_db p" for p
    by (simp add: dash_output_root_def profile_output_root_def)
  ultimately show ?thesis
    using second_copies_agree [of "sample_download\<lparr>dl_last_position := Fin (25 / 2)\<rparr>" "\<lambda>_. ''12.5''" id media_root_db id sample_fs]
      second_copies_agree [of sample_download "\<lambda>_. ''12.5''" id media_root_db id sample_fs] by simp
qed

section \<open>The older pages\<close>

lemma dash_query_is: "dash_download_query profile d = library_download_query d profile"
  by (simp add: dash_download_query_def library_download_query_def DOWNLOAD_STATUSES_def)

text \<open>
  With the filter \<open>all\<close> the older library page lists what the API lists; its preview takes the newest
  rows of every kind, where the API takes the unplayed ones.
\<close>

lemma older_library_all:
  assumes "post_get get ''filter'' = Some ''all''"
  shows "lp_downloads (library_page_data user get d)
    = map (\<lambda>r. (r, decorate_download r)) (list_downloads d (dashboard_profile_id user) mode True)"
  using assms
  by (simp add: library_page_data_def library_visible_downloads_def list_downloads_def library_order_def library_key_def [abs_def]
      dash_query_is dash_decorate_is in_mode_def [abs_def] Let_def)

lemma older_library_preview:
  assumes "post_get get ''filter'' \<noteq> Some ''all''"
  shows "map fst (lp_downloads (library_page_data user get d))
    = take LIBRARY_PREVIEW_LIMIT (library_order (library_download_query d (dashboard_profile_id user)))"
  using assms
  by (simp add: library_page_data_def library_visible_downloads_def library_order_def library_key_def [abs_def] dash_query_is Let_def o_def
      case_prod_beta take_map cong: map_cong)

lemma older_media_view:
  assumes "\<And>r :: download. dash_output_root absolute d (dl_profile_id r) = profile_output_root resolve d (dl_profile_id r)"
  shows "legacy_media absolute resolve fs guess content_of user n header d =
      (case own_download (dashboard_profile_id user) n d of None \<Rightarrow> NotFound
       | Some r \<Rightarrow> (case resolve_media_path resolve fs d r of
           Inl (Http404 _) \<Rightarrow> NotFound | Inl e \<Rightarrow> Raised e
         | Inr p \<Rightarrow> Done ((media_response guess p (content_of p) header)\<lparr>mr_frame_allowed := False\<rparr>)))"
proof -
  have "dash_resolve_media_path absolute resolve fs d r = resolve_media_path resolve fs d r" for r
    by (rule dash_media_path_is) (rule assms)
  then show ?thesis
    by (auto simp: legacy_media_def media_response_def Let_def case_prod_beta split: option.split sum.split error.split)
qed

lemma older_subtitle_view:
  assumes "\<And>r :: download. dash_output_root absolute d (dl_profile_id r) = profile_output_root resolve d (dl_profile_id r)"
  shows "legacy_subtitle absolute resolve fs text user n d =
      (case own_download (dashboard_profile_id user) n d of None \<Rightarrow> NotFound
       | Some r \<Rightarrow> (case resolve_subtitle_path resolve fs d r of
           Inl (Http404 _) \<Rightarrow> NotFound | Inl e \<Rightarrow> Raised e
         | Inr None \<Rightarrow> NotFound
         | Inr (Some p) \<Rightarrow> Done (subtitle_response p (text p))))"
proof -
  have "dash_resolve_subtitle_path absolute resolve fs d r = resolve_subtitle_path resolve fs d r" for r
    by (rule dash_subtitle_path_is) (rule assms)
  then show ?thesis
    by (auto simp: legacy_subtitle_def dash_srt_to_vtt_is subtitle_response_def split: option.split sum.split error.split)
qed

section \<open>Where they differ\<close>

text \<open>
  The root of the dashboard's copies is not resolved: where it goes through a symbolic link, no subtitle
  lies below it, and the copy finds none where the streaming code serves one.
\<close>

definition linked :: "path \<Rightarrow> path" where
  "linked p = (case path_parts p of d # ps \<Rightarrow> if d = ''media'' then Path True (''store'' # ps) else p | [] \<Rightarrow> p)"

definition store_fs :: file_system where
  "store_fs = (\<lambda>_. None)(''/store/one.mp3'' \<mapsto> RegularFile 10, ''/store/one.srt'' \<mapsto> RegularFile 5)"

lemma linked_root_hides_subtitles:
  "resolve_subtitle_path linked store_fs media_root_db sample_download = Inr (Some (path_of ''/store/one.srt''))
   \<and> dash_resolve_subtitle_path id linked store_fs media_root_db sample_download = Inr None"
  by code_simp

text \<open>An episode whose file is gone has a page in the player of today, and none in the older one.\<close>

definition gone_database :: database where
  "gone_database = empty_database\<lparr>downloads := [sample_download]\<rparr>"

lemma older_player_needs_file:
  "legacy_player id id (\<lambda>_. None) None 1 [] gone_database = NotFound
   \<and> (case frontend_player id (\<lambda>_. None) ''default'' 1 [] gone_database of Done p \<Rightarrow> \<not> py_has_subtitles p | _ \<Rightarrow> False)"
  by code_simp

text \<open>The older library page calls its preview unplayed, and shows played episodes in it.\<close>

definition played_database :: database where
  "played_database = empty_database\<lparr>downloads := [sample_download\<lparr>dl_played := True\<rparr>]\<rparr>"

lemma older_preview_shows_played:
  "\<not> lp_show_all (library_page_data None [] played_database)
   \<and> map (dl_played \<circ> fst) (lp_downloads (library_page_data None [] played_database)) = [True]
   \<and> list_downloads played_database ''default'' PNone False = []"
proof -
  have rows: "library_download_query played_database ''default'' = [sample_download\<lparr>dl_played := True\<rparr>]" by code_simp
  have form: "post_get [] ''filter'' = None" and me: "dashboard_profile_id None = ''default''"
    by (simp_all add: post_get_def dashboard_profile_id_def)
  have "map fst (lp_downloads (library_page_data None [] played_database)) = [sample_download\<lparr>dl_played := True\<rparr>]"
    using older_library_preview [of "[]" None played_database]
    by (simp add: form me rows library_order_def LIBRARY_PREVIEW_LIMIT_def)
  then have "map (dl_played \<circ> fst) (lp_downloads (library_page_data None [] played_database)) = [True]"
    unfolding map_map [symmetric] by simp
  moreover have "normalize_library_filter PNone = ''unplayed''" by code_simp
  ultimately show ?thesis
    by (simp add: library_page_data_def form Let_def list_downloads_def rows in_mode_def library_order_def)
qed

text \<open>An attribute of the object made from an answer is the value its key had.\<close>

lemma namespace_attribute:
  "namespace (PDict d) = Namespace attributes \<Longrightarrow> map_of attributes k = map_option namespace (map_of d k)"
  by (induction d arbitrary: attributes) auto

end
