(* ===== verification/Views.thy ===== *)
theory Views
  imports Api
begin

text \<open>
  The remaining views of the API (\<open>src/src/api/views.py\<close>): an episode as the front end gets it, the
  library under its two names, the subtitles of an episode and the CSRF token, each behind its gate. The
  text of a file is an argument.
\<close>

section \<open>An episode for the front end\<close>

text \<open>The attributes that decorating a row sets on it, or the defaults of \<open>getattr\<close> for a row without them.\<close>

definition plain_display :: display where
  "plain_display = \<lparr>display_size = None, display_type = ''?'', display_kind = ''audio'', status_label = ''UNPLAYED'',
     status_class = ''status-unplayed'', has_subtitles = False\<rparr>"

definition episode_for_frontend :: "download \<Rightarrow> display option \<Rightarrow> episode_summary \<times> display" where
  "episode_for_frontend r attributes = (episode_to_summary r, case attributes of None \<Rightarrow> plain_display | Some a \<Rightarrow> a)"

section \<open>Views\<close>

definition library_view :: "authenticator \<Rightarrow> database \<Rightarrow> form \<Rightarrow> http_request \<Rightarrow> error + episode_summary list gated" where
  "library_view users d get =
     api_login_required users (require_method ''GET'' (\<lambda>rq. api_library (profile_id_for_request rq) get d))"

text \<open>A view that answers with the response of another gated view.\<close>

definition handed_on :: "error + (error + 'a gated) gated \<Rightarrow> error + 'a gated" where
  "handed_on r =
     bind_result r (\<lambda>g. case g of
         Entered inner \<Rightarrow> inner
       | Unauthorized \<Rightarrow> Inr Unauthorized
       | CsrfRefused \<Rightarrow> Inr CsrfRefused
       | MethodNotAllowed \<Rightarrow> Inr MethodNotAllowed)"

definition downloads_view :: "authenticator \<Rightarrow> database \<Rightarrow> form \<Rightarrow> http_request \<Rightarrow> error + episode_summary list gated" where
  "downloads_view users d get rq =
     handed_on (api_login_required users (require_method ''GET'' (library_view users d get)) rq)"

definition csrf_view :: "authenticator \<Rightarrow> string \<Rightarrow> http_request \<Rightarrow> error + pydict gated" where
  "csrf_view users token = api_login_required users (require_method ''GET'' (\<lambda>_. [(''csrf_token'', PStr token)]))"

definition episode_subtitle ::
    "'b media_host \<Rightarrow> (path \<Rightarrow> string) \<Rightarrow> database \<Rightarrow> string \<Rightarrow> int \<Rightarrow> error + string" where
  "episode_subtitle host text d profile_id episode_id =
     (case first_row (\<lambda>r. dl_id r = episode_id \<and> dl_profile_id r = profile_id) (downloads d) of
        None \<Rightarrow> Inl (Http404 ''No Download matches the given query.'')
      | Some item \<Rightarrow>
          bind_result (resolve_subtitle_path (mh_resolve host) (mh_files host) d item) (\<lambda>found.
            case found of
              None \<Rightarrow> Inl (Http404 ''Subtitle unavailable'')
            | Some p \<Rightarrow> Inr (subtitle_response p (text p))))"

definition subtitle_view ::
    "authenticator \<Rightarrow> 'b media_host \<Rightarrow> (path \<Rightarrow> string) \<Rightarrow> database \<Rightarrow> int \<Rightarrow> http_request \<Rightarrow> error + (error + string) gated" where
  "subtitle_view users host text d episode_id =
     api_login_required users (require_method ''GET''
       (\<lambda>rq. episode_subtitle host text d (profile_id_for_request rq) episode_id))"

section \<open>Facts\<close>

text \<open>The library's rows are decorated, so the front end never gets a default for an attribute.\<close>

lemma library_rows_decorated:
  "\<exists>rows. lr_downloads (frontend_library profile username get d) = map (\<lambda>r. episode_for_frontend r (Some (decorate_download r))) rows"
  by (auto simp: frontend_library_def episode_for_frontend_def Let_def case_prod_beta)

lemma authenticated_again:
  assumes "authenticate_basic users rq = Inr (Some rq')"
  shows "authenticate_basic users rq' = Inr (Some rq')"
proof -
  have h: "header_value (rq\<lparr>hr_user := u\<rparr>) name = header_value rq name" for u name by (simp add: header_value_def)
  show ?thesis using assms
    by (auto simp: authenticate_basic_def Let_def h split: if_splits option.splits prod.splits)
qed

text \<open>\<open>downloads\<close> passes two gates and answers as \<open>library\<close> does, and so do the two names of the listing.\<close>

lemma downloads_is_library: "downloads_view users d get rq = library_view users d get rq"
proof (cases "authenticate_basic users rq")
  case (Inr basic)
  show ?thesis
  proof (cases basic)
    case None
    then show ?thesis using Inr
      by (auto simp: downloads_view_def library_view_def handed_on_def api_login_required_def require_method_def)
  next
    case (Some rq')
    then show ?thesis using Inr authenticated_again [of users rq rq']
      by (auto simp: downloads_view_def library_view_def handed_on_def api_login_required_def require_method_def)
  qed
qed (simp add: downloads_view_def library_view_def handed_on_def api_login_required_def)

lemma rstrip_append: "rstrip_chars P (a @ b) = (if list_all P b then rstrip_chars P a else a @ rstrip_chars P b)"
  by (auto simp: rstrip_chars_def dropWhile_append list_all_iff)

lemma served_as_vtt: "prefix ''WEBVTT'' (py_lstrip (subtitle_response p t))"
proof -
  have "\<exists>y. srt_to_vtt t = ''WEBVTT'' @ y"
  proof -
    have "\<exists>y. join_with [CHR 0x0A] ([''WEBVTT'', []] @ xs) = ''WEBVTT'' @ y" for xs by simp
    then obtain y where "join_with [CHR 0x0A] ([''WEBVTT'', []] @ List.map_filter vtt_line (split_lines t)) = ''WEBVTT'' @ y"
      by blast
    moreover have "rstrip_chars is_space ''WEBVTT'' = ''WEBVTT''" by code_simp
    moreover have "dropWhile is_space (''WEBVTT'' @ y) = ''WEBVTT'' @ y" by (simp add: is_space_def)
    ultimately show ?thesis by (auto simp: srt_to_vtt_def py_strip_def strip_chars_def rstrip_append simp del: append.simps)
  qed
  then show ?thesis by (auto simp: subtitle_response_def py_lstrip_def is_space_def)
qed

text \<open>Subtitles only reach their owner: a text that is served belongs to an episode of the profile of the request's
  user, comes from a regular subtitle file inside that profile's output directory, and is WebVTT.\<close>

theorem subtitle_served:
  assumes "subtitle_view users host text d n rq = Inr (Entered (Inr body))"
  shows "\<exists>rq' r p. (authenticate_basic users rq = Inr (Some rq') \<or> rq' = rq \<and> hr_user rq \<noteq> None)
    \<and> r \<in> set (downloads d) \<and> dl_id r = n \<and> dl_profile_id r = profile_id_for_request rq'
    \<and> (\<exists>q. path_join (profile_output_root (mh_resolve host) d (dl_profile_id r)) q = p)
    \<and> is_file (mh_files host) (path_str p) \<and> py_lower (path_suffix p) \<in> {''.srt'', ''.vtt''}
    \<and> body = subtitle_response p (text p) \<and> prefix ''WEBVTT'' (py_lstrip body)"
proof -
  obtain rq' where rq: "authenticate_basic users rq = Inr (Some rq') \<or> rq' = rq \<and> hr_user rq \<noteq> None"
      and v: "episode_subtitle host text d (profile_id_for_request rq') n = Inr body"
    using assms by (auto simp: subtitle_view_def api_login_required_def require_method_def bind_result_Inr
        split: option.splits if_splits)
  obtain r where r: "first_row (\<lambda>r. dl_id r = n \<and> dl_profile_id r = profile_id_for_request rq') (downloads d) = Some r"
    using v by (auto simp: episode_subtitle_def split: option.splits)
  then obtain p where p: "resolve_subtitle_path (mh_resolve host) (mh_files host) d r = Inr (Some p)" "body = subtitle_response p (text p)"
    using v by (auto simp: episode_subtitle_def bind_result_Inr split: option.splits)
  show ?thesis
    using rq first_row_Some [OF r] subtitle_path_confined [OF p(1)] p(2) served_as_vtt [of p "text p"] by blast
qed

definition views_host :: "char media_host" where
  "views_host = \<lparr>mh_resolve = id, mh_files = sample_fs, mh_bytes = (\<lambda>_. []), mh_guess = (\<lambda>_. None)\<rparr>"

definition views_request :: http_request where
  "views_request = \<lparr>hr_method = ''GET'', hr_headers = [], hr_user = Some ''default'', hr_csrf_ok = False\<rparr>"

theorem subtitle_served_witness:
  "\<exists>body. subtitle_view (\<lambda>_ _. None) views_host (\<lambda>_. ''Hello'') (media_root_db\<lparr>downloads := [sample_download]\<rparr>) 1 views_request
       = Inr (Entered (Inr body)) \<and> prefix ''WEBVTT'' (py_lstrip body)"
proof -
  let ?d = "media_root_db\<lparr>downloads := [sample_download]\<rparr>"
  let ?r = "subtitle_view (\<lambda>_ _. None) views_host (\<lambda>_. ''Hello'') ?d 1 views_request"
  have "(case ?r of Inr (Entered (Inr body)) \<Rightarrow> True | _ \<Rightarrow> False)" by code_simp
  then obtain body where b: "?r = Inr (Entered (Inr body))" by (auto split: sum.splits gated.splits) (metis old.sum.exhaust)
  from subtitle_served [OF b] show ?thesis using b by blast
qed

end
