(* ===== verification/Transcripts.thy ===== *)
theory Transcripts
  imports WorkerRows
begin

text \<open>
  The transcript worker (\<open>generate_transcript\<close> and what it calls in \<open>src/src/workers/handlers.py\<close>):
  subtitles of a downloaded episode and their searchable segments, and the screening of a video
  before its row is written at all. Reading a text file gives its text with every line break as a
  newline.
\<close>

record transcript_env =
  tr_whisper :: whisper_env
  tr_fetch :: fetch_settings
  tr_profane :: "string \<Rightarrow> error + bool"
  tr_now :: time

abbreviation tr_media :: "transcript_env \<Rightarrow> media_env" where
  "tr_media env \<equiv> wh_media (tr_whisper env)"

section \<open>Options of a download\<close>

definition subtitles_enabled :: "database \<Rightarrow> download \<Rightarrow> pydict \<Rightarrow> bool" where
  "subtitles_enabled d r payload =
     (case map_of payload ''subtitles'' of
        Some v \<Rightarrow> py_lower (py_strip (py_str v)) \<notin> {''0'', ''false'', ''no'', ''off''}
      | None \<Rightarrow> (case source_of_download d r of None \<Rightarrow> True | Some s \<Rightarrow> src_subtitles s))"

definition payload_offset :: "pydict \<Rightarrow> error + pyfloat option" where
  "payload_offset payload =
     (let v = dget payload ''subtitle_offset_seconds'';
          read = (\<lambda>s. case py_float s of None \<Rightarrow> Inl (ValueError s) | Some f \<Rightarrow> Inr (Some f)) in
      case v of
        PNone \<Rightarrow> Inr None
      | PStr s \<Rightarrow> (if s = [] then Inr None else read s)
      | PFloat s \<Rightarrow> read s
      | PInt n \<Rightarrow> Inr (Some (Fin (of_int n)))
      | PBool b \<Rightarrow> Inr (Some (Fin (if b then 1 else 0)))
      | _ \<Rightarrow> Inl (TypeError ''unhashable type''))"

definition subtitle_offset_for :: "database \<Rightarrow> download \<Rightarrow> pydict \<Rightarrow> error + pyfloat option" where
  "subtitle_offset_for d r payload =
     bind_result (payload_offset payload) (\<lambda>f.
       Inr (case f of Some x \<Rightarrow> Some x
            | None \<Rightarrow> (case source_of_download d r of None \<Rightarrow> None | Some s \<Rightarrow> src_subtitle_offset s)))"

section \<open>Segments of a subtitle\<close>

definition newline :: char where
  "newline = CHR 0x0A"

text \<open>\<open>re.split(r"\n\s*\n", text)\<close>: a boundary runs to the last newline of the blanks behind its first.\<close>

function split_blocks :: "string \<Rightarrow> string \<Rightarrow> string list" where
  "split_blocks acc [] = [rev acc]"
| "split_blocks acc (c # s) =
     (let run = takeWhile is_space s; after = length (takeWhile (\<lambda>x. x \<noteq> newline) (rev run)) in
      if c = newline \<and> newline \<in> set run
      then rev acc # split_blocks [] (drop (length run - after) s)
      else split_blocks (c # acc) s)"
  by pat_completeness auto

termination by (relation "measure (\<lambda>(acc, s). length s)") auto

definition block_text :: "string \<Rightarrow> string option" where
  "block_text block =
     (let lines = filter (\<lambda>l. l \<noteq> []) (map py_strip (split_lines block)) in
      if length lines < 2 then None
      else let i = (if contains_sub ''-->'' (lines ! 1) then 1 else 0) in
        if \<not> contains_sub ''-->'' (lines ! i) then None
        else let body = py_strip (join_with '' '' (drop (i + 1) lines)) in
          if body = [] then None else Some body)"

definition load_segments_from_subtitle :: "path \<Rightarrow> media_store \<Rightarrow> string list" where
  "load_segments_from_subtitle sub ms =
     (if \<not> path_exists (ms_files ms) (path_str sub) \<or> py_lower (path_suffix sub) \<noteq> ''.srt'' then []
      else List.map_filter block_text (split_blocks [] (py_strip (ms_text ms (path_str sub)))))"

definition segment_row :: "int \<Rightarrow> path \<Rightarrow> string \<Rightarrow> transcript_segment" where
  "segment_row n sub text =
     \<lparr>seg_download = n, seg_subtitle_path = path_str sub, seg_start_seconds = pf_zero, seg_end_seconds = None,
      seg_text = text\<rparr>"

definition add_segments :: "transcript_segment list \<Rightarrow> database \<Rightarrow> database" where
  "add_segments segs d = d\<lparr>transcript_segments := transcript_segments d @ segs\<rparr>"

definition delete_segments :: "int \<Rightarrow> database \<Rightarrow> database" where
  "delete_segments n d = d\<lparr>transcript_segments := delete_where (\<lambda>s. seg_download s = n) (transcript_segments d)\<rparr>"

definition update_download :: "int \<Rightarrow> (download \<Rightarrow> download) \<Rightarrow> database \<Rightarrow> database" where
  "update_download n f d = update_downloads_where (\<lambda>r. dl_id r = n) f d"

section \<open>Screening before the row exists\<close>

definition now_text :: "transcript_env \<Rightarrow> pyval" where
  "now_text env = PStr (iso_format (tr_now env))"

definition filtered_defaults :: "transcript_env \<Rightarrow> pydict \<Rightarrow> pydict" where
  "filtered_defaults env defaults =
     dict_update defaults [(''file_path'', PNone), (''file_path_relative'', PNone), (''file_size_bytes'', PNone),
       (''subtitle_path'', PNone), (''subtitle_path_relative'', PNone), (''download_status'', PStr ''filtered''),
       (''completed_at'', now_text env), (''last_seen_at'', now_text env)]"

definition screened_defaults :: "transcript_env \<Rightarrow> database \<Rightarrow> string \<Rightarrow> path \<Rightarrow> pydict \<Rightarrow> pydict" where
  "screened_defaults env d profile sub defaults =
     dict_update defaults [(''subtitle_path'', PStr (path_str sub)),
       (''subtitle_path_relative'', opt_text (relative_text sub (download_output_root (tr_media env) d profile)))]"

definition drop_artifacts :: "transcript_env \<Rightarrow> path \<Rightarrow> media_store \<Rightarrow> media_store" where
  "drop_artifacts env media ms = with_files (delete_media_artifacts (tr_media env) media) ms"

definition screen_deferred_video ::
    "transcript_env \<Rightarrow> string \<Rightarrow> path \<Rightarrow> download_lookup \<Rightarrow> pydict \<Rightarrow> pydict \<Rightarrow> media_store \<Rightarrow>
     (error + download option) \<times> media_store" where
  "screen_deferred_video env profile media l defaults payload ms =
     (case payload_offset payload of
        Inl e \<Rightarrow> (Inl e, ms)
      | Inr offset \<Rightarrow>
          (case create_subtitles (tr_whisper env) media offset True ms of
             (None, ms1) \<Rightarrow> (Inr None, drop_artifacts env media ms1)
           | (Some sub, ms1) \<Rightarrow>
               (case screen_transcript (tr_profane env) sub ms1 of
                  Inl e \<Rightarrow> (Inr None, drop_artifacts env media ms1)
                | Inr (Some m) \<Rightarrow>
                    (let ms2 = drop_artifacts env media ms1 in
                     case upsert_download (tr_now env) l (filtered_defaults env defaults) (ms_db ms2) of
                       Inl e \<Rightarrow> (Inl e, ms2)
                     | Inr (r, d) \<Rightarrow> (Inr None, with_database (\<lambda>_. d) ms2))
                | Inr None \<Rightarrow>
                    (case upsert_download (tr_now env) l (screened_defaults env (ms_db ms1) profile sub defaults)
                            (ms_db ms1) of
                       Inl e \<Rightarrow> (Inl e, ms1)
                     | Inr (r, d) \<Rightarrow>
                         (Inr (Some r),
                          with_database (\<lambda>_. add_segments
                            (map (segment_row (dl_id r) sub) (load_segments_from_subtitle sub ms1)) d) ms1)))))"

definition payload_paths :: "media_env \<Rightarrow> pydict \<Rightarrow> string \<Rightarrow> path list" where
  "payload_paths env payload key =
     (case dget payload key of
        PList xs \<Rightarrow> map (\<lambda>v. md_resolve env (path_of (py_str v))) xs | _ \<Rightarrow> [])"

definition generate_deferred_screening ::
    "transcript_env \<Rightarrow> job \<Rightarrow> pydict \<Rightarrow> media_store \<Rightarrow> error option \<times> media_store" where
  "generate_deferred_screening env j payload ms =
     (let l = as_dict (dget payload ''deferred_download_lookup'');
          defaults = as_dict (dget payload ''deferred_download_defaults'');
          media_value = dget payload ''deferred_media_path'';
          media = md_resolve (tr_media env) (path_of (py_str media_value));
          sources = payload_paths (tr_media env) payload ''ffmpeg_source_file_paths'';
          title = or_else (str_or_empty (dget defaults ''title'')) (path_name media) in
      if l = [] \<or> defaults = [] \<or> \<not> truthy media_value then (None, ms)
      else let ms1 = touch_job (tr_now env) ''deferred_transcript_screening'' title j ms;
               (err, ms2) = (case read_lookup l of
                   Inl e \<Rightarrow> (Some e, ms1)
                 | Inr lk \<Rightarrow> (case screen_deferred_video env (job_profile_id j) media lk defaults payload ms1 of
                                (Inl e, ms') \<Rightarrow> (Some e, ms') | (Inr _, ms') \<Rightarrow> (None, ms')))
        in (err, if sources = [] then ms2
                 else with_files (\<lambda>fs. snd (delete_ffmpeg_source_files (tr_media env) sources media fs)) ms2))"

section \<open>The transcript job\<close>

definition save_subtitle :: "transcript_env \<Rightarrow> string \<Rightarrow> download \<Rightarrow> path \<Rightarrow> media_store \<Rightarrow> media_store" where
  "save_subtitle env profile r sub ms =
     with_database (\<lambda>d. add_segments (map (segment_row (dl_id r) sub) (load_segments_from_subtitle sub ms))
       (delete_segments (dl_id r)
         (update_download (dl_id r) (\<lambda>x. x\<lparr>dl_subtitle_path := Some (path_str sub),
            dl_subtitle_path_relative := relative_text sub (download_output_root (tr_media env) d profile)\<rparr>) d))) ms"

definition mark_filtered :: "time \<Rightarrow> int \<Rightarrow> database \<Rightarrow> database" where
  "mark_filtered now n d = update_download n (\<lambda>x. x\<lparr>dl_status := FILTERED, dl_last_seen_at := now\<rparr>) d"

definition delete_explicit_set :: "pydict \<Rightarrow> bool" where
  "delete_explicit_set payload = truthy (dget_default payload ''delete_explicit_content'' (PBool False))"

definition screen_saved :: "transcript_env \<Rightarrow> download \<Rightarrow> path \<Rightarrow> path \<Rightarrow> media_store \<Rightarrow> media_store" where
  "screen_saved env r media sub ms =
     (case screen_transcript (tr_profane env) sub ms of
        Inr (Some m) \<Rightarrow>
          with_database (\<lambda>d. mark_filtered (tr_now env) (dl_id r) (delete_segments (dl_id r) d))
            (drop_artifacts env media ms)
      | _ \<Rightarrow> ms)"

definition transcribe_download ::
    "transcript_env \<Rightarrow> string \<Rightarrow> download \<Rightarrow> pydict \<Rightarrow> path \<Rightarrow> media_store \<Rightarrow> error option \<times> media_store" where
  "transcribe_download env profile r payload media ms =
     (if \<not> path_exists (ms_files ms) (path_str media) then (None, ms)
      else (case subtitle_offset_for (ms_db ms) r payload of
          Inl e \<Rightarrow> (Some e, ms)
        | Inr offset \<Rightarrow>
            (case create_subtitles (tr_whisper env) media offset (subtitles_enabled (ms_db ms) r payload) ms of
               (None, ms1) \<Rightarrow>
                 (None, if delete_explicit_set payload
                        then with_database (mark_filtered (tr_now env) (dl_id r)) (drop_artifacts env media ms1)
                        else ms1)
             | (Some sub, ms1) \<Rightarrow>
                 (let ms2 = save_subtitle env profile r sub ms1 in
                  (None, if delete_explicit_set payload then screen_saved env r media sub ms2 else ms2)))))"

text \<open>The row of a payload's \<open>download_id\<close>; an id that is no number makes the query raise.\<close>

definition find_by_id :: "string \<Rightarrow> pyval \<Rightarrow> database \<Rightarrow> error + download option" where
  "find_by_id profile v d =
     (case py_int_val v of
        None \<Rightarrow> Inl (int_error v)
      | Some n \<Rightarrow> Inr (first_row (\<lambda>r. dl_id r = n \<and> dl_profile_id r = profile) (downloads d)))"

definition generate_transcript :: "transcript_env \<Rightarrow> job \<Rightarrow> media_store \<Rightarrow> error option \<times> media_store" where
  "generate_transcript env j ms =
     (let payload = as_dict (job_payload j); download_id = dget payload ''download_id'' in
      if \<not> truthy download_id
      then (if truthy (dget payload ''deferred_download_lookup'') \<and> truthy (dget payload ''deferred_media_path'')
            then generate_deferred_screening env j payload ms else (None, ms))
      else (case find_by_id (job_profile_id j) download_id (ms_db ms) of
          Inl e \<Rightarrow> (Some e, ms)
        | Inr None \<Rightarrow> (None, ms)
        | Inr (Some r) \<Rightarrow>
            (let ms1 = touch_job (tr_now env) ''transcript_generation'' (py_strip (text_of (dl_title r))) j ms;
                 media = md_resolve (tr_media env) (path_of (text_of (dl_file_path r))) in
             if is_file (ms_files ms1) (path_str media)
             then transcribe_download env (job_profile_id j) r payload media ms1
             else (case ensure_local_media (tr_fetch env) (tr_now env) r media ms1 of
                     (Inl e, ms2) \<Rightarrow> (Some e, ms2)
                   | (Inr p, ms2) \<Rightarrow> transcribe_download env (job_profile_id j) r payload p ms2))))"

section \<open>Facts\<close>

lemma create_subtitles_db:
  assumes "create_subtitles env media offset enabled ms = (r, ms')"
  shows "ms_db ms' = ms_db ms" "broker (ms_world ms') = broker (ms_world ms)"
  using assms
  by (auto simp: create_subtitles_def normalize_existing_sidecars_def generate_whisper_subtitles_def Let_def
      split: if_splits sum.splits prod.splits)

lemma ensure_local_media_db:
  assumes "ensure_local_media env now r p ms = (res, ms')"
  shows "ms_db ms' = ms_db ms" "broker (ms_world ms') = broker (ms_world ms)"
  using assms
  by (auto simp: ensure_local_media_def download_from_api_def Let_def split: if_splits sum.splits)

lemma drop_artifacts_simps [simp]:
  "ms_db (drop_artifacts env media ms) = ms_db ms"
  "broker (ms_world (drop_artifacts env media ms)) = broker (ms_world ms)"
  "ms_files (drop_artifacts env media ms) = delete_media_artifacts (tr_media env) media (ms_files ms)"
  by (simp_all add: drop_artifacts_def)

lemma segments_frame [simp]:
  "downloads (add_segments segs d) = downloads d" "downloads (delete_segments n d) = downloads d"
  "transcript_segments (add_segments segs d) = transcript_segments d @ segs"
  "transcript_segments (delete_segments n d) = delete_where (\<lambda>s. seg_download s = n) (transcript_segments d)"
  "downloads (update_download n f d) = update_where (\<lambda>r. dl_id r = n) f (downloads d)"
  "transcript_segments (update_download n f d) = transcript_segments d"
  by (simp_all add: add_segments_def delete_segments_def update_download_def)

text \<open>What a dictionary of defaults leaves in a row.\<close>

lemma set_field_frame:
  assumes "set_download_field k v r = Inr r'"
  shows "k \<noteq> ''download_status'' \<Longrightarrow> dl_status r' = dl_status r"
    and "k \<noteq> ''file_path'' \<Longrightarrow> dl_file_path r' = dl_file_path r"
  using assms by (auto simp: set_download_field_def bind_result_Inr split: if_splits)

lemma apply_defaults_other:
  "apply_defaults kvs r = Inr r' \<Longrightarrow> ''download_status'' \<notin> fst ` set kvs \<Longrightarrow> dl_status r' = dl_status r"
  "apply_defaults kvs r = Inr r' \<Longrightarrow> ''file_path'' \<notin> fst ` set kvs \<Longrightarrow> dl_file_path r' = dl_file_path r"
  by (induction kvs r rule: apply_defaults.induct) (force simp: bind_result_Inr dest: set_field_frame)+

lemma apply_defaults_status:
  "apply_defaults kvs r = Inr r' \<Longrightarrow> distinct (map fst kvs) \<Longrightarrow>
   map_of kvs ''download_status'' = Some (PStr (download_status_value st)) \<Longrightarrow> dl_status r' = st"
proof (induction kvs r rule: apply_defaults.induct)
  case (2 k v kvs r)
  obtain r1 where r1: "set_download_field k v r = Inr r1" "apply_defaults kvs r1 = Inr r'"
    using "2.prems"(1) by (auto simp: bind_result_Inr)
  show ?case
  proof (cases "k = ''download_status''")
    case True
    then have "dl_status r1 = st"
      using r1(1) "2.prems"(3)
      by (cases st) (auto simp: set_download_field_def status_field_def)
    then show ?thesis using apply_defaults_other(1) [OF r1(2)] "2.prems"(2) True by auto
  next
    case False
    then show ?thesis using "2.IH" [OF r1(2)] "2.prems" by auto
  qed
qed simp

lemma apply_defaults_no_file:
  "apply_defaults kvs r = Inr r' \<Longrightarrow> distinct (map fst kvs) \<Longrightarrow> map_of kvs ''file_path'' = Some PNone \<Longrightarrow>
   dl_file_path r' = None"
proof (induction kvs r rule: apply_defaults.induct)
  case (2 k v kvs r)
  obtain r1 where r1: "set_download_field k v r = Inr r1" "apply_defaults kvs r1 = Inr r'"
    using "2.prems"(1) by (auto simp: bind_result_Inr)
  show ?case
  proof (cases "k = ''file_path''")
    case True
    then have "dl_file_path r1 = None"
      using r1(1) "2.prems"(3) by (auto simp: set_download_field_def text_field_def)
    then show ?thesis using apply_defaults_other(2) [OF r1(2)] "2.prems"(2) True by auto
  next
    case False
    then show ?thesis using "2.IH" [OF r1(2)] "2.prems" by auto
  qed
qed simp

lemma distinct_dict_update: "distinct (map fst d) \<Longrightarrow> distinct (map fst (dict_update d kvs))"
  unfolding dict_update_def by (induction kvs arbitrary: d) (auto simp: distinct_update)

lemma upsert_download_rows:
  assumes "upsert_download now l defaults d = Inr (r, d')"
  shows "r \<in> set (downloads d') \<and> lookup_matches l r
    \<and> (\<forall>x \<in> set (downloads d'). x = r \<or> x \<in> set (downloads d))
    \<and> transcript_segments d' = transcript_segments d \<and> (\<exists>r0. apply_defaults defaults r0 = Inr r)"
proof (cases "filter (lookup_matches l) (downloads d)")
  case Nil
  then obtain r0 where a: "apply_defaults defaults r0 = Inr r" and r0: "lookup_matches l r0"
    and d': "d' = d\<lparr>downloads := downloads d @ [r], next_download_id := next_download_id d + 1\<rparr>"
    using assms by (auto simp: upsert_download_def bind_result_Inr lookup_matches_def blank_download_def)
  show ?thesis using apply_defaults_key [OF a] r0 a d' by (auto simp: lookup_matches_def)
next
  case (Cons r0 rs)
  then have rs: "rs = []" using assms by (cases rs) (auto simp: upsert_download_def)
  have mem: "r0 \<in> set (downloads d)" "lookup_matches l r0" using Cons by (auto simp: filter_eq_Cons_iff)
  have a: "apply_defaults defaults r0 = Inr r"
    and d': "d' = update_downloads_where (\<lambda>x. dl_id x = dl_id r0) (\<lambda>_. r) d"
    using assms Cons rs by (auto simp: upsert_download_def bind_result_Inr)
  show ?thesis using apply_defaults_key [OF a] mem a d' by (auto simp: lookup_matches_def set_update_where)
qed

section \<open>Properties\<close>

text \<open>C8: A screened video enters the library only with a clean transcript: when the screening returns a row,
  subtitles were made and no sentence of them was found explicit; when it returns none, the media file is
  gone (or a directory, or cannot be removed), no segment is stored, and the only row that can be new is
  one marked filtered that names no file.\<close>

theorem screening_gates_row:
  assumes "screen_deferred_video env profile media l defaults payload ms = (Inr res, ms')"
    and "distinct (map fst defaults)"
  shows "(\<forall>r. res = Some r \<longrightarrow> (\<exists>offset sub ms1. create_subtitles (tr_whisper env) media offset True ms = (Some sub, ms1)
            \<and> screen_transcript (tr_profane env) sub ms1 = Inr None))
    \<and> (res = None \<longrightarrow>
         (ms_files ms' (path_str (md_resolve (tr_media env) media)) \<in> {None, Some Directory}
           \<or> md_denied (tr_media env) (path_str (md_resolve (tr_media env) media)))
         \<and> transcript_segments (ms_db ms') = transcript_segments (ms_db ms)
         \<and> (\<forall>r \<in> set (downloads (ms_db ms')). r \<in> set (downloads (ms_db ms))
              \<or> (lookup_matches l r \<and> dl_status r = FILTERED \<and> dl_file_path r = None)))"
proof -
  obtain offset where off: "payload_offset payload = Inr offset"
    using assms(1) by (auto simp: screen_deferred_video_def split: sum.splits)
  obtain sub ms1 where cs: "create_subtitles (tr_whisper env) media offset True ms = (sub, ms1)" by fastforce
  note db1 = create_subtitles_db [OF cs]
  note gone = delete_artifacts_confined [of "tr_media env" media "ms_files ms1" "[]", THEN conjunct2]
  show ?thesis
  proof (cases sub)
    case None
    then have "res = None" "ms' = drop_artifacts env media ms1"
      using assms(1) off cs by (auto simp: screen_deferred_video_def)
    then show ?thesis using gone db1 by simp
  next
    case (Some p)
    note cs = cs [unfolded Some]
    show ?thesis
    proof (cases "screen_transcript (tr_profane env) p ms1")
      case (Inl e)
      then have "res = None" "ms' = drop_artifacts env media ms1"
        using assms(1) off cs by (auto simp: screen_deferred_video_def)
      then show ?thesis using gone db1 by simp
    next
      case (Inr m)
      show ?thesis
      proof (cases m)
        case None
        then have "res \<noteq> None"
          using assms(1) off cs Inr by (auto simp: screen_deferred_video_def split: sum.splits)
        then show ?thesis using cs Inr None by blast
      next
        case (Some x)
        let ?defs = "filtered_defaults env defaults"
        obtain r d where u: "upsert_download (tr_now env) l ?defs (ms_db (drop_artifacts env media ms1)) = Inr (r, d)"
          and res: "res = None" "ms' = with_database (\<lambda>_. d) (drop_artifacts env media ms1)"
          using assms(1) off cs Inr Some by (auto simp: screen_deferred_video_def Let_def split: sum.splits)
        note rows = upsert_download_rows [OF u]
        have dist: "distinct (map fst ?defs)"
          unfolding filtered_defaults_def using assms(2) by (rule distinct_dict_update)
        have "map_of ?defs ''download_status'' = Some (PStr (download_status_value FILTERED))"
          "map_of ?defs ''file_path'' = Some PNone"
          by (simp_all add: filtered_defaults_def map_of_dict_update)
        then have "dl_status r = FILTERED \<and> dl_file_path r = None"
          using rows apply_defaults_status [OF _ dist] apply_defaults_no_file [OF _ dist] by blast
        then show ?thesis using gone db1 rows res by (auto simp del: download_status_value.simps)
      qed
    qed
  qed
qed

definition strict_transcripts :: transcript_env where
  "strict_transcripts = \<lparr>tr_whisper = whisper_sample,
     tr_fetch = \<lparr>fs_expand = id, fs_resolve = id, fs_cache_root = path_of ''/cache'', fs_api_url = ''http://api/api'',
       fs_token = [], fs_get = (\<lambda>_. Inl (OSError ''offline''))\<rparr>,
     tr_profane = (\<lambda>s. Inr (contains_sub ''Hello'' s)), tr_now = 9\<rparr>"

definition talk_lookup :: download_lookup where
  "talk_lookup = \<lparr>lk_profile = ''default'', lk_source_type = ''youtube'', lk_source_name = ''Talks'', lk_uid = ''t''\<rparr>"

theorem screening_gates_row_witness:
  "fst (screen_deferred_video strict_transcripts ''default'' (path_of ''/m/Talk.mp3'') talk_lookup [] [] talk_store)
     = Inr None
   \<and> ms_files (snd (screen_deferred_video strict_transcripts ''default'' (path_of ''/m/Talk.mp3'') talk_lookup [] []
       talk_store)) ''/m/Talk.mp3'' \<in> {None, Some Directory}"
proof -
  let ?s = "screen_deferred_video strict_transcripts ''default'' (path_of ''/m/Talk.mp3'') talk_lookup [] [] talk_store"
  have f: "fst ?s = Inr None" by code_simp
  then obtain ms' where run: "?s = (Inr None, ms')" by (metis prod.collapse)
  have "md_resolve (tr_media strict_transcripts) (path_of ''/m/Talk.mp3'') = path_of ''/m/Talk.mp3''"
    "path_str (path_of ''/m/Talk.mp3'') = ''/m/Talk.mp3''"
    "\<not> md_denied (tr_media strict_transcripts) ''/m/Talk.mp3''" by code_simp+
  then show ?thesis using screening_gates_row [OF run] f by (simp add: run)
qed

text \<open>What the transcript job changes besides files.\<close>

lemma update_where_twice:
  "(\<And>r. P (f r) = P r) \<Longrightarrow> update_where P g (update_where P f t) = update_where P (g \<circ> f) t"
  by (auto simp: update_where_def)

lemma filter_delete_where: "filter (\<lambda>s. \<not> P s) (delete_where P t) = filter (\<lambda>s. \<not> P s) t"
  by (simp add: delete_where_def)

definition own_change :: "int \<Rightarrow> database \<Rightarrow> database \<Rightarrow> bool" where
  "own_change n d d' \<longleftrightarrow>
     (\<exists>f. downloads d' = update_where (\<lambda>r. dl_id r = n) f (downloads d)
        \<and> (\<forall>r. dl_id (f r) = dl_id r \<and> dl_profile_id (f r) = dl_profile_id r \<and> dl_file_path (f r) = dl_file_path r
               \<and> dl_favorite (f r) = dl_favorite r \<and> dl_played (f r) = dl_played r))
     \<and> filter (\<lambda>s. seg_download s \<noteq> n) (transcript_segments d') = filter (\<lambda>s. seg_download s \<noteq> n) (transcript_segments d)"

lemma own_change_refl: "own_change n d d"
  by (auto simp: own_change_def update_where_def cong: if_cong intro!: exI [of _ id])

lemma own_change_trans:
  assumes "own_change n a b" and "own_change n b c"
  shows "own_change n a c"
proof -
  obtain f where f: "downloads b = update_where (\<lambda>r. dl_id r = n) f (downloads a)"
    "\<forall>r. dl_id (f r) = dl_id r \<and> dl_profile_id (f r) = dl_profile_id r \<and> dl_file_path (f r) = dl_file_path r
       \<and> dl_favorite (f r) = dl_favorite r \<and> dl_played (f r) = dl_played r" using assms(1) by (auto simp: own_change_def)
  obtain g where g: "downloads c = update_where (\<lambda>r. dl_id r = n) g (downloads b)"
    "\<forall>r. dl_id (g r) = dl_id r \<and> dl_profile_id (g r) = dl_profile_id r \<and> dl_file_path (g r) = dl_file_path r
       \<and> dl_favorite (g r) = dl_favorite r \<and> dl_played (g r) = dl_played r" using assms(2) by (auto simp: own_change_def)
  have "downloads c = update_where (\<lambda>r. dl_id r = n) (g \<circ> f) (downloads a)"
    unfolding g(1) f(1) by (rule update_where_twice) (simp add: f(2))
  then show ?thesis using assms f(2) g(2) unfolding own_change_def by (intro conjI exI [of _ "g \<circ> f"]) auto
qed

lemma own_change_same:
  "downloads d' = downloads d \<Longrightarrow> transcript_segments d' = transcript_segments d \<Longrightarrow> own_change n d d'"
  using own_change_refl [of n d] by (simp add: own_change_def)

lemma own_change_filtered: "own_change n d (mark_filtered now n d)"
  unfolding own_change_def mark_filtered_def
  by (auto intro!: exI [of _ "\<lambda>x. x\<lparr>dl_status := FILTERED, dl_last_seen_at := now\<rparr>"])

lemma own_change_delete: "own_change n d (delete_segments n d)"
  using own_change_refl [of n d] by (simp add: own_change_def filter_delete_where)

lemma own_change_save: "own_change (dl_id r) (ms_db ms) (ms_db (save_subtitle env profile r sub ms))"
proof -
  let ?f = "\<lambda>x. x\<lparr>dl_subtitle_path := Some (path_str sub),
      dl_subtitle_path_relative := relative_text sub (download_output_root (tr_media env) (ms_db ms) profile)\<rparr>"
  have "filter (\<lambda>s. seg_download s \<noteq> dl_id r) (map (segment_row (dl_id r) sub) xs) = []" for xs
    by (auto simp: filter_empty_conv segment_row_def)
  then show ?thesis
    unfolding own_change_def save_subtitle_def
    by (intro conjI exI [of _ ?f]) (simp_all add: filter_delete_where)
qed

lemma own_change_screen: "own_change (dl_id r) (ms_db ms) (ms_db (screen_saved env r media sub ms))"
  by (auto simp: screen_saved_def own_change_refl
      intro: own_change_trans [OF own_change_delete own_change_filtered] split: sum.split option.split)

lemma transcribe_download_change:
  assumes "transcribe_download env profile r payload media ms = (err, ms')"
  shows "own_change (dl_id r) (ms_db ms) (ms_db ms')"
proof (cases "path_exists (ms_files ms) (path_str media) \<and> (\<exists>o1. subtitle_offset_for (ms_db ms) r payload = Inr o1)")
  case False
  then have "ms' = ms" using assms by (auto simp: transcribe_download_def split: if_splits sum.splits)
  then show ?thesis by (simp add: own_change_refl)
next
  case True
  then obtain o1 where o1: "subtitle_offset_for (ms_db ms) r payload = Inr o1" by blast
  obtain sub ms1 where cs: "create_subtitles (tr_whisper env) media o1 (subtitles_enabled (ms_db ms) r payload) ms
      = (sub, ms1)" by fastforce
  note same = create_subtitles_db(1) [OF cs]
  show ?thesis
  proof (cases sub)
    case None
    then show ?thesis
      using assms True o1 cs same
      by (auto simp: transcribe_download_def own_change_refl own_change_filtered split: if_splits)
  next
    case (Some p)
    have "own_change (dl_id r) (ms_db ms) (ms_db (save_subtitle env profile r p ms1))"
      using own_change_save [of r ms1] same by simp
    moreover have "ms' = (if delete_explicit_set payload then screen_saved env r media p (save_subtitle env profile r p ms1)
        else save_subtitle env profile r p ms1)"
      using assms True o1 cs Some by (simp add: transcribe_download_def Let_def)
    ultimately show ?thesis using own_change_trans own_change_screen by (metis (full_types))
  qed
qed


definition talk_row :: download where
  "talk_row = sample_download\<lparr>dl_id := 1, dl_file_path := Some ''/m/Talk.mp3'', dl_title := Some ''Talk''\<rparr>"

definition talk_job :: job where
  "talk_job = new_job 0 ''default'' ''generate_transcript'' (PDict [(''download_id'', PInt 1)]) None empty_database"


text \<open>
  The transcript job replaces the segments of its episode; the screening before the row exists does
  not, so an episode that is downloaded again keeps its old segments beside the new ones and a search
  finds every line twice.
\<close>

theorem screened_segments_accumulate:
  assumes "screen_deferred_video env profile media l defaults payload ms = (Inr (Some r), ms')"
  shows "\<exists>sub ms1. transcript_segments (ms_db ms') = transcript_segments (ms_db ms)
    @ map (segment_row (dl_id r) sub) (load_segments_from_subtitle sub ms1)"
proof -
  obtain offset where off: "payload_offset payload = Inr offset"
    using assms by (auto simp: screen_deferred_video_def split: sum.splits)
  obtain sub ms1 where cs: "create_subtitles (tr_whisper env) media offset True ms = (Some sub, ms1)"
    using assms off by (auto simp: screen_deferred_video_def split: option.splits prod.splits)
  obtain d where "upsert_download (tr_now env) l (screened_defaults env (ms_db ms1) profile sub defaults) (ms_db ms1)
      = Inr (r, d)"
    and "ms' = with_database (\<lambda>_. add_segments (map (segment_row (dl_id r) sub) (load_segments_from_subtitle sub ms1)) d) ms1"
    using assms off cs
    by (auto simp: screen_deferred_video_def Let_def split: sum.splits option.splits)
  then show ?thesis using upsert_download_rows create_subtitles_db(1) [OF cs] by fastforce
qed

theorem segments_replaced:
  "filter (\<lambda>s. seg_download s = dl_id r) (transcript_segments (ms_db (save_subtitle env profile r sub ms)))
   = map (segment_row (dl_id r) sub) (load_segments_from_subtitle sub ms)"
  by (simp add: save_subtitle_def delete_where_def filter_map comp_def segment_row_def)

end
