(* ===== verification/Discovery.thy ===== *)
theory Discovery
  imports Enqueue Playlists
begin

text \<open>
  Finding new episodes (\<open>check_for_episodes\<close> in \<open>src/src/workers/handlers.py\<close>): the candidates of
  a source, read from its podcast feed or its YouTube listing, and the download jobs queued for
  those that were never downloaded. The feed reader, the listing extractor and SHA-1 are arguments;
  the red-circle marker of live titles lies outside the modelled characters.
\<close>

section \<open>Sources and limits\<close>

record feed_entry =
  fe_enclosures :: "string list"
  fe_link :: string
  fe_title :: string
  fe_published :: string
  fe_updated :: string
  fe_id :: string
  fe_guid :: string

record discovery_env =
  dv_sha1 :: "string \<Rightarrow> string"
  dv_feed :: "string \<Rightarrow> feed_entry list"
  dv_extract :: "string \<Rightarrow> int \<Rightarrow> error + pyval"
  dv_float_repr :: "pyfloat \<Rightarrow> string"
  dv_stale :: string

record candidate =
  cd_uid :: string
  cd_url :: string
  cd_media_url :: string
  cd_title :: string
  cd_published :: string

definition source_config_type :: "source_config \<Rightarrow> source_type option" where
  "source_config_type s = parse_source_type (PStr (src_source_type s))"

definition default_limit :: "database \<Rightarrow> string \<Rightarrow> error + int" where
  "default_limit d profile =
     (let raw = py_strip (text_of (profile_value d profile ''max_downloads'')) in
      if py_isdigit raw
      then (case py_int raw of None \<Rightarrow> Inl (ValueError raw) | Some k \<Rightarrow> Inr (max 1 k))
      else Inr 10)"

definition source_limit :: "database \<Rightarrow> source_config \<Rightarrow> error + int" where
  "source_limit d s =
     (case src_max_downloads s of
        None \<Rightarrow> default_limit d (src_profile_id s)
      | Some n \<Rightarrow> if n = 0 then default_limit d (src_profile_id s) else Inr (max 1 n))"

definition fallback_uid :: "(string \<Rightarrow> string) \<Rightarrow> string list \<Rightarrow> string" where
  "fallback_uid sha1 parts =
     ''generated:'' @ sha1 (or_else (py_strip (join_with ''|'' parts)) ''unknown'')"

definition idempotency_key :: "(string \<Rightarrow> string) \<Rightarrow> string list \<Rightarrow> string" where
  "idempotency_key sha1 parts =
     take 255 (take 160 (join_with '':'' (take 3 parts)) @ '':''
       @ sha1 (or_else (py_strip (join_with ''|'' parts)) ''unknown''))"

section \<open>Podcast feeds\<close>

fun first_nonempty :: "string list \<Rightarrow> string" where
  "first_nonempty [] = []"
| "first_nonempty (s # ss) = (if s \<noteq> [] then s else first_nonempty ss)"

definition podcast_candidate :: "discovery_env \<Rightarrow> source_config \<Rightarrow> feed_entry \<Rightarrow> candidate" where
  "podcast_candidate env s e =
     (let enclosure = first_nonempty (map py_strip (fe_enclosures e));
          url = or_else enclosure (py_strip (fe_link e));
          title = py_strip (first_nonempty [fe_title e, url, ''Untitled podcast episode'']);
          published = py_strip (first_nonempty [fe_published e, fe_updated e]);
          uid0 = py_strip (first_nonempty [fe_id e, fe_guid e, url]);
          uid = or_else uid0 (fallback_uid (dv_sha1 env) [src_url s, title, published])
      in \<lparr>cd_uid = take 255 uid, cd_url = url, cd_media_url = or_else enclosure url, cd_title = title,
          cd_published = published\<rparr>)"

definition podcast_candidates :: "discovery_env \<Rightarrow> database \<Rightarrow> source_config \<Rightarrow> candidate list \<times> error option" where
  "podcast_candidates env d s =
     (case source_limit d s of
        Inl e \<Rightarrow> ([], Some e)
      | Inr n \<Rightarrow> (map (podcast_candidate env s) (take (nat n) (dv_feed env (src_url s))), None))"

section \<open>YouTube listings\<close>

definition is_youtube_short_entry :: "pydict \<Rightarrow> bool" where
  "is_youtube_short_entry entry \<longleftrightarrow>
     list_ex (\<lambda>k. contains_sub ''/shorts/'' (str_or_empty (dget entry k)))
       [''webpage_url'', ''original_url'', ''url'', ''ie_key'']"

definition YOUTUBE_LIVE_TITLE_MARKERS :: "string list" where
  "YOUTUBE_LIVE_TITLE_MARKERS = ['' live stream'', '' livestream'', ''| live'', ''- live'', ''[live]'', ''(live)'']"

definition youtube_title_looks_live :: "pyval \<Rightarrow> bool" where
  "youtube_title_looks_live title =
     (let normalized = '' '' @ py_lower (py_strip (str_or_empty title)) @ '' '' in
      if py_strip normalized = [] then False
      else list_ex (\<lambda>m. contains_sub m normalized) YOUTUBE_LIVE_TITLE_MARKERS
        \<or> py_strip normalized = ''live'' \<or> prefix ''live '' normalized)"

definition is_youtube_livestream_entry :: "pydict \<Rightarrow> bool" where
  "is_youtube_livestream_entry entry \<longleftrightarrow>
     truthy (dget entry ''is_live'')
     \<or> py_lower (py_strip (str_or_empty (dget entry ''live_status'')))
         \<in> {''is_live'', ''is_upcoming'', ''was_live'', ''post_live''}
     \<or> youtube_title_looks_live (dget entry ''title'')"

definition youtube_source_skip_reason :: "source_config \<Rightarrow> pydict \<Rightarrow> string option" where
  "youtube_source_skip_reason s entry =
     (if \<not> src_include_livestreams s \<and> is_youtube_livestream_entry entry
      then Some ''Skipping YouTube livestream entry from source.''
      else if \<not> src_include_shorts s \<and> is_youtube_short_entry entry
      then Some ''Skipping YouTube Shorts entry from source.''
      else None)"

definition is_youtube_video_url :: "string \<Rightarrow> bool" where
  "is_youtube_video_url url \<longleftrightarrow> (let lowered = py_lower url in
     contains_sub ''youtube.com/watch'' lowered \<or> contains_sub ''youtu.be/'' lowered
     \<or> contains_sub ''youtube.com/shorts/'' lowered)"

definition youtube_video_url :: "pydict \<Rightarrow> string" where
  "youtube_video_url entry =
     (let item_id = py_strip (str_or_empty (dget entry ''id''));
          webpage_url = py_strip (str_or_empty (dget entry ''webpage_url''));
          raw_url = py_strip (str_or_empty (dget entry ''url''))
      in if is_youtube_video_url webpage_url then webpage_url
         else if length item_id = 11 then ''https://www.youtube.com/watch?v='' @ item_id
         else if length raw_url = 11 \<and> \<not> prefix ''http'' raw_url
         then ''https://www.youtube.com/watch?v='' @ raw_url
         else if is_youtube_video_url raw_url then raw_url
         else or_else webpage_url raw_url)"

definition youtube_entries_from_url :: "discovery_env \<Rightarrow> string \<Rightarrow> int \<Rightarrow> error + pydict list" where
  "youtube_entries_from_url env url n =
     bind_result (dv_extract env url n) (\<lambda>p0.
       let payload = py_or p0 (PDict []);
           entries = (if is_dict payload then dget (as_dict payload) ''entries'' else PNone);
           xs = (if \<not> truthy entries then [payload] else case entries of PList ys \<Rightarrow> ys | _ \<Rightarrow> [])
       in Inr (map as_dict (filter is_dict xs)))"

definition youtube_candidate_from_entry :: "discovery_env \<Rightarrow> source_config \<Rightarrow> pydict \<Rightarrow> candidate option" where
  "youtube_candidate_from_entry env s entry =
     (let item_id = py_strip (str_or_empty (dget entry ''id'')); url = youtube_video_url entry;
          title = py_strip (first_nonempty [str_or_empty (dget entry ''title''), url, ''Untitled YouTube episode''])
      in if youtube_source_skip_reason s entry \<noteq> None then None
         else if \<not> is_youtube_video_url url then None
         else Some \<lparr>cd_uid = take 255 (if length item_id = 11 then item_id
                               else or_else url (fallback_uid (dv_sha1 env) [src_url s, title])),
                    cd_url = url, cd_media_url = url, cd_title = title,
                    cd_published = str_or_empty (py_or (dget entry ''upload_date'') (dget entry ''timestamp''))\<rparr>)"

text \<open>
  The generator over the entries: at most \<open>room\<close> candidates, then the exception of a nested
  listing that failed, if one did.
\<close>

fun youtube_walk ::
    "discovery_env \<Rightarrow> source_config \<Rightarrow> int \<Rightarrow> pydict list \<Rightarrow> candidate list \<times> error option" where
  "youtube_walk env s room [] = ([], None)"
| "youtube_walk env s room (e # es) =
     (if room \<le> 0 then ([], None)
      else if youtube_source_skip_reason s e \<noteq> None then youtube_walk env s room es
      else (case youtube_candidate_from_entry env s e of
              Some c \<Rightarrow> (let (cs, err) = youtube_walk env s (room - 1) es in (c # cs, err))
            | None \<Rightarrow>
                (let nested = youtube_video_url e in
                 if nested = [] \<or> nested = src_url s then youtube_walk env s room es
                 else (case youtube_entries_from_url env nested room of
                         Inl err \<Rightarrow> ([], Some err)
                       | Inr es2 \<Rightarrow>
                           (let cs = take (nat room) (List.map_filter (youtube_candidate_from_entry env s) es2);
                                (cs2, err) = youtube_walk env s (room - int (length cs)) es
                            in (cs @ cs2, err))))))"

definition youtube_candidates ::
    "discovery_env \<Rightarrow> database \<Rightarrow> source_config \<Rightarrow> candidate list \<times> error option" where
  "youtube_candidates env d s =
     (case source_limit d s of
        Inl e \<Rightarrow> ([], Some e)
      | Inr n \<Rightarrow>
          (case youtube_entries_from_url env (src_url s) n of
             Inl e \<Rightarrow> ([], Some e)
           | Inr es \<Rightarrow> youtube_walk env s n es))"

definition candidates_for_source ::
    "discovery_env \<Rightarrow> database \<Rightarrow> source_config \<Rightarrow> candidate list \<times> error option" where
  "candidates_for_source env d s =
     (let (scheme, netloc) = url_parts (py_strip (src_url s)) in
      if scheme \<notin> {''http'', ''https''} \<or> netloc = [] then ([], None)
      else (case source_config_type s of
              Some PODCAST \<Rightarrow> podcast_candidates env d s
            | Some YOUTUBE \<Rightarrow> youtube_candidates env d s
            | None \<Rightarrow> ([], None)))"

section \<open>The check\<close>

definition episode_was_downloaded :: "string \<Rightarrow> source_config \<Rightarrow> candidate \<Rightarrow> database \<Rightarrow> bool" where
  "episode_was_downloaded profile s c d \<longleftrightarrow>
     (let rows = filter (\<lambda>r. dl_profile_id r = profile \<and> dl_source_type r = src_source_type s
                   \<and> dl_source_name r = src_name s) (downloads d) in
      (cd_uid c \<noteq> [] \<and> exists_row (\<lambda>r. dl_item_uid r = Some (cd_uid c)) rows)
      \<or> (cd_url c \<noteq> [] \<and> exists_row (\<lambda>r. dl_item_url r = Some (cd_url c)) rows)
      \<or> (cd_title c \<noteq> [] \<and> exists_row (\<lambda>r. dl_title r = Some (cd_title c)) rows))"

definition active_download_job :: "string \<Rightarrow> database \<Rightarrow> job option" where
  "active_download_job key d =
     (case sort_key (\<lambda>j. (job_created_at j, job_id j))
             (filter (\<lambda>j. job_idempotency_key j = Some key \<and> is_active j) (jobs d)) of
        [] \<Rightarrow> None | j # _ \<Rightarrow> Some j)"

definition episode_key :: "discovery_env \<Rightarrow> string \<Rightarrow> source_config \<Rightarrow> candidate \<Rightarrow> string" where
  "episode_key env profile s c =
     idempotency_key (dv_sha1 env) [''download_episode'', profile, if src_id s = 0 then [] else str_of_int (src_id s),
       first_nonempty [cd_uid c, cd_url c, cd_title c]]"

definition opt_float :: "(pyfloat \<Rightarrow> string) \<Rightarrow> pyfloat option \<Rightarrow> pyval" where
  "opt_float show v = (case v of None \<Rightarrow> PNone | Some f \<Rightarrow> PFloat (show f))"

definition episode_payload :: "discovery_env \<Rightarrow> int \<Rightarrow> source_config \<Rightarrow> candidate \<Rightarrow> pydict" where
  "episode_payload env n s c =
     [(''source_id'', PInt (src_id s)), (''source_type'', PStr (src_source_type s)),
      (''source_name'', PStr (src_name s)), (''source_url'', PStr (src_url s)),
      (''media_type'', PStr (or_else (text_of (src_media_type s))
         (if source_config_type s = Some PODCAST then ''audio'' else ''video''))),
      (''source_max_downloads'', PInt n), (''item_uid'', PStr (cd_uid c)), (''item_url'', PStr (cd_url c)),
      (''media_url'', PStr (or_else (cd_media_url c) (cd_url c))), (''title'', PStr (cd_title c)),
      (''published'', PStr (cd_published c)), (''subtitles'', PBool (src_subtitles s)),
      (''subtitle_offset_seconds'', opt_float (dv_float_repr env) (src_subtitle_offset s)),
      (''delete_explicit_content'', PBool (src_delete_explicit s)),
      (''include_shorts'', PBool (src_include_shorts s)),
      (''include_livestreams'', PBool (src_include_livestreams s))]"

text \<open>One candidate: a job that is already active is published again if it is queued.\<close>

definition publish_created_job :: "job \<Rightarrow> world \<Rightarrow> error + world" where
  "publish_created_job j w = publish_job (job_message j) w"

definition queue_episode ::
    "discovery_env \<Rightarrow> time \<Rightarrow> string \<Rightarrow> int \<Rightarrow> source_config \<Rightarrow> candidate \<Rightarrow> world \<Rightarrow> error option \<times> world" where
  "queue_episode env now profile n s c w =
     (let key = episode_key env profile s c in
      case active_download_job key (db w) of
        Some j \<Rightarrow>
          (case make_stale_job_queued (dv_stale env) now j (db w) of
             Inl e \<Rightarrow> (Some e, w)
           | Inr (reset, j2, d1) \<Rightarrow>
               let w1 = w\<lparr>db := d1\<rparr> in
               if job_state j2 = QUEUED
               then (case publish_created_job j2 w1 of Inl e \<Rightarrow> (Some e, w1) | Inr w2 \<Rightarrow> (None, w2))
               else (None, w1))
      | None \<Rightarrow>
          (case create_and_publish now profile ''download_episode'' (PDict (episode_payload env n s c))
                  (Some key) w of
             (Inl e, w1) \<Rightarrow> (Some e, w1)
           | (Inr _, w1) \<Rightarrow> (None, w1)))"

fun check_candidates ::
    "discovery_env \<Rightarrow> time \<Rightarrow> string \<Rightarrow> int \<Rightarrow> source_config \<Rightarrow> candidate list \<Rightarrow> int \<Rightarrow> world \<Rightarrow>
     error option \<times> int \<times> world" where
  "check_candidates env now profile n s [] queued w = (None, queued, w)"
| "check_candidates env now profile n s (c # cs) queued w =
     (if n \<le> queued then (None, queued, w)
      else if episode_was_downloaded profile s c (db w) then check_candidates env now profile n s cs queued w
      else (case queue_episode env now profile n s c w of
              (Some e, w1) \<Rightarrow> (Some e, queued, w1)
            | (None, w1) \<Rightarrow> check_candidates env now profile n s cs (queued + 1) w1))"

definition check_source ::
    "discovery_env \<Rightarrow> time \<Rightarrow> string \<Rightarrow> source_config \<Rightarrow> world \<Rightarrow> error option \<times> world" where
  "check_source env now profile s w =
     (case source_limit (db w) s of
        Inl e \<Rightarrow> (Some e, w)
      | Inr n \<Rightarrow>
          (let (cs, err) = candidates_for_source env (db w) s in
           case check_candidates env now profile n s cs 0 w of
             (Some e, k, w1) \<Rightarrow> (Some e, w1)
           | (None, k, w1) \<Rightarrow> (if k \<ge> n then None else err, w1)))"

fun check_sources ::
    "discovery_env \<Rightarrow> time \<Rightarrow> (string \<times> source_config) list \<Rightarrow> world \<Rightarrow> error option \<times> world" where
  "check_sources env now [] w = (None, w)"
| "check_sources env now ((profile, s) # rest) w =
     (case check_source env now profile s w of
        (Some e, w1) \<Rightarrow> (Some e, w1)
      | (None, w1) \<Rightarrow> check_sources env now rest w1)"

definition enabled_sources :: "database \<Rightarrow> (string \<times> source_config) list" where
  "enabled_sources d =
     concat (map (\<lambda>profile. map (Pair profile)
          (sort_key (\<lambda>s. (src_position s, src_id s))
            (filter (\<lambda>s. src_profile_id s = profile \<and> src_enabled s) (source_configs d))))
       (sort (remdups (map src_profile_id (filter src_enabled (source_configs d))))))"

definition check_for_episodes :: "discovery_env \<Rightarrow> time \<Rightarrow> world \<Rightarrow> error option \<times> world" where
  "check_for_episodes env now w = check_sources env now (enabled_sources (db w)) w"


section \<open>Facts\<close>

lemma source_limit_pos: "source_limit d s = Inr n \<Longrightarrow> 1 \<le> n"
  by (auto simp: source_limit_def default_limit_def Let_def split: option.splits if_splits)

lemma source_limit_config:
  "profile_config d' = profile_config d \<Longrightarrow> source_limit d' s = source_limit d s"
proof -
  assume "profile_config d' = profile_config d"
  then have "default_limit d' p = default_limit d p" for p
    by (simp add: default_limit_def profile_value_def)
  then show ?thesis by (cases "src_max_downloads s") (simp_all add: source_limit_def)
qed

lemma candidates_config:
  "profile_config d' = profile_config d \<Longrightarrow> candidates_for_source env d' s = candidates_for_source env d s"
proof -
  assume c: "profile_config d' = profile_config d"
  have "podcast_candidates env d' s = podcast_candidates env d s"
    "youtube_candidates env d' s = youtube_candidates env d s"
    by (simp_all add: podcast_candidates_def youtube_candidates_def source_limit_config [OF c])
  then show ?thesis
    by (auto simp: candidates_for_source_def split: prod.split option.split source_type.split)
qed

lemma episode_key_nonempty [simp]: "episode_key env profile s c \<noteq> []"
  by (simp add: episode_key_def idempotency_key_def)

lemma sort_key_map:
  assumes "\<And>x. k (g x) = k x"
  shows "sort_key k (map g xs) = map g (sort_key k xs)"
proof (induction xs)
  case (Cons x xs)
  have "insort_key k (g x) (map g ys) = map g (insort_key k x ys)" for ys
    by (induction ys) (simp_all add: assms)
  then show ?case using Cons by simp
qed simp

lemma sort_key_empty: "sort_key k xs = [] \<longleftrightarrow> xs = []"
  by (metis set_empty set_sort)

lemma active_download_job_Some:
  assumes "active_download_job key d = Some j"
  shows "j \<in> set (jobs d) \<and> job_idempotency_key j = Some key \<and> is_active j"
proof -
  obtain js where js: "sort_key (\<lambda>j. (job_created_at j, job_id j))
      (filter (\<lambda>j. job_idempotency_key j = Some key \<and> is_active j) (jobs d)) = j # js"
    using assms by (auto simp: active_download_job_def split: list.splits)
  have "j \<in> set (sort_key (\<lambda>j. (job_created_at j, job_id j))
      (filter (\<lambda>j. job_idempotency_key j = Some key \<and> is_active j) (jobs d)))"
    unfolding js by simp
  then show ?thesis by simp
qed

lemma active_download_job_None:
  "active_download_job key d = None \<longleftrightarrow> (\<forall>j \<in> set (jobs d). \<not> (job_idempotency_key j = Some key \<and> is_active j))"
proof -
  have "active_download_job key d = None \<longleftrightarrow> sort_key (\<lambda>j. (job_created_at j, job_id j))
      (filter (\<lambda>j. job_idempotency_key j = Some key \<and> is_active j) (jobs d)) = []"
    by (auto simp: active_download_job_def split: list.split)
  also have "\<dots> \<longleftrightarrow> filter (\<lambda>j. job_idempotency_key j = Some key \<and> is_active j) (jobs d) = []"
    by (rule sort_key_empty)
  finally show ?thesis by (auto simp: filter_empty_conv)
qed

lemma active_download_job_update:
  assumes "\<And>j. job_id (f j) = job_id j" "\<And>j. job_created_at (f j) = job_created_at j"
    "\<And>j. job_idempotency_key (f j) = job_idempotency_key j"
    and "\<And>j. j \<in> set (jobs d) \<Longrightarrow> job_id j = n \<Longrightarrow> is_active (f j) = is_active j"
  shows "active_download_job key (update_job n f d)
    = map_option (\<lambda>j. if job_id j = n then f j else j) (active_download_job key d)"
proof -
  let ?g = "\<lambda>j. if job_id j = n then f j else j"
  let ?P = "\<lambda>j. job_idempotency_key j = Some key \<and> is_active j"
  let ?k = "\<lambda>j. (job_created_at j, job_id j)"
  have "filter ?P (map ?g (jobs d)) = map ?g (filter ?P (jobs d))"
    unfolding filter_map o_def using assms(3,4) by (intro arg_cong [of _ _ "map _"] filter_cong) auto
  moreover have "sort_key ?k (map ?g (filter ?P (jobs d))) = map ?g (sort_key ?k (filter ?P (jobs d)))"
    by (rule sort_key_map) (simp add: assms(1,2))
  ultimately show ?thesis
    by (simp add: active_download_job_def update_where_def split: list.split)
qed

lemma active_download_job_insert:
  "active_download_job key (insert_job (new_job now p k v (Some key') d) d)
    = (if key = key' \<and> active_download_job key d = None then Some (new_job now p k v (Some key') d)
       else if key = key' then active_download_job key (insert_job (new_job now p k v (Some key') d) d)
       else active_download_job key d)"
proof -
  have "filter (\<lambda>j. job_idempotency_key j = Some key \<and> is_active j) (jobs d) = []"
    if "active_download_job key d = None"
    using that by (auto simp: active_download_job_None filter_empty_conv)
  then show ?thesis by (auto simp: active_download_job_def insert_job_def)
qed

text \<open>
  A key is settled when its active job would not be reset: a further candidate with this key leaves
  the database as it is.
\<close>

definition settled :: "discovery_env \<Rightarrow> time \<Rightarrow> string \<Rightarrow> database \<Rightarrow> bool" where
  "settled env now key d \<longleftrightarrow>
     (\<exists>j. active_download_job key d = Some j \<and> make_stale_job_queued (dv_stale env) now j d = Inr (False, j, d))"

lemma make_stale_cases:
  assumes "make_stale_job_queued st now j d = Inr (b, j2, d1)"
  shows "(b = False \<and> j2 = j \<and> d1 = d \<and> (\<forall>d'. make_stale_job_queued st now j d' = Inr (False, j, d')))
    \<or> (b = True \<and> job_state j = RUNNING \<and> j2 = stale_reset now j \<and> d1 = update_job (job_id j)
         (\<lambda>r. r\<lparr>job_state := QUEUED, job_error_message := job_error_message (stale_reset now j),
                job_started_at := None, job_finished_at := None, job_updated_at := now\<rparr>) d)"
  using assms by (auto simp: make_stale_job_queued_def bind_result_Inr Let_def split: option.splits if_splits)

lemma make_stale_queued: "job_state j \<noteq> RUNNING \<Longrightarrow> make_stale_job_queued st now j d = Inr (False, j, d)"
  by (simp add: make_stale_job_queued_def)

lemma settled_other:
  assumes "settled env now key d" and "active_download_job key d' = active_download_job key d"
  shows "settled env now key d'"
  using assms make_stale_cases unfolding settled_def by metis

lemma queue_episode_noop:
  assumes "settled env now (episode_key env profile s c) (db w)"
  shows "\<exists>w1. queue_episode env now profile n s c w = (None, w1) \<and> db w1 = db w"
proof -
  obtain j where j: "active_download_job (episode_key env profile s c) (db w) = Some j"
    "make_stale_job_queued (dv_stale env) now j (db w) = Inr (False, j, db w)"
    using assms by (auto simp: settled_def)
  obtain m where "publish_job (job_message j) w = Inr (w\<lparr>broker := broker w @ [m]\<rparr>)"
    by (rule publish_job_message)
  then show ?thesis using j by (simp add: queue_episode_def publish_created_job_def Let_def)
qed

lemma queue_episode_settles:
  assumes "queue_episode env now profile n s c w = (None, w1)" and "jobs_wf (db w)"
  shows "jobs_wf (db w1) \<and> settled env now (episode_key env profile s c) (db w1)
    \<and> (\<forall>key. settled env now key (db w) \<longrightarrow> settled env now key (db w1))
    \<and> downloads (db w1) = downloads (db w) \<and> source_configs (db w1) = source_configs (db w)
    \<and> profile_config (db w1) = profile_config (db w)"
proof (cases "active_download_job (episode_key env profile s c) (db w)")
  case None
  let ?key = "episode_key env profile s c"
  let ?j = "new_job now profile ''download_episode'' (PDict (episode_payload env n s c)) (Some ?key) (db w)"
  have "create_lookup (Some ?key) (db w) = None"
    using None by (auto simp: create_lookup_def first_row_None active_download_job_None)
  then obtain m where m: "create_and_publish now profile ''download_episode'' (PDict (episode_payload env n s c))
      (Some ?key) w = (Inr ?j, w\<lparr>db := insert_job ?j (db w), broker := broker w @ [m]\<rparr>)"
    by (rule create_and_publish_new)
  then have w1: "w1 = w\<lparr>db := insert_job ?j (db w), broker := broker w @ [m]\<rparr>"
    using assms(1) None by (simp add: queue_episode_def)
  have "settled env now ?key (insert_job ?j (db w))"
    using None by (auto simp: settled_def active_download_job_insert make_stale_queued)
  moreover have "settled env now key (insert_job ?j (db w))" if "settled env now key (db w)" for key
  proof -
    have "key \<noteq> ?key" using that None by (auto simp: settled_def)
    then show ?thesis using that by (auto intro: settled_other simp: active_download_job_insert)
  qed
  moreover have "jobs_wf (insert_job ?j (db w))"
    using jobs_wf_create [OF assms(2), of now profile "''download_episode''" "PDict (episode_payload env n s c)" "Some ?key"]
      \<open>create_lookup _ _ = None\<close> by (simp add: create_job_def create_insert_def Let_def)
  ultimately show ?thesis by (simp add: w1 insert_job_def)
next
  case (Some j)
  let ?key = "episode_key env profile s c"
  note j = active_download_job_Some [OF Some]
  obtain b j2 d1 where st: "make_stale_job_queued (dv_stale env) now j (db w) = Inr (b, j2, d1)"
    and w1: "db w1 = d1"
    using assms(1) Some
    by (auto simp: queue_episode_def Let_def publish_created_job_def publish_job_def
        split: sum.splits prod.splits if_splits option.splits)
  from make_stale_cases [OF st] show ?thesis
  proof (elim disjE conjE)
    assume "b = False" "j2 = j" "d1 = db w"
    then show ?thesis using st Some assms(2) by (auto simp: settled_def w1)
  next
    let ?f = "\<lambda>r. r\<lparr>job_state := QUEUED, job_error_message := job_error_message (stale_reset now j),
                job_started_at := None, job_finished_at := None, job_updated_at := now\<rparr>"
    assume run: "job_state j = RUNNING" and d1: "d1 = update_job (job_id j) ?f (db w)"
    have only: "x = j" if "x \<in> set (jobs (db w))" "job_id x = job_id j" for x
      using that j assms(2) unfolding jobs_wf_def by (metis distinct_map inj_onD)
    have act: "active_download_job key d1
        = map_option (\<lambda>x. if job_id x = job_id j then ?f x else x) (active_download_job key (db w))" for key
      unfolding d1 using only j by (intro active_download_job_update) (auto simp: is_active_def)
    have "settled env now ?key d1"
      by (simp add: settled_def act Some make_stale_queued)
    moreover have "settled env now key d1" if st: "settled env now key (db w)" for key
    proof (cases "key = ?key")
      case True
      then show ?thesis using \<open>settled env now ?key d1\<close> by simp
    next
      case False
      obtain x where x: "active_download_job key (db w) = Some x" using st by (auto simp: settled_def)
      have "job_id x \<noteq> job_id j"
        using active_download_job_Some [OF x] j only False by (metis option.inject)
      then have "active_download_job key d1 = active_download_job key (db w)" by (simp add: act x)
      then show ?thesis using settled_other [OF st] by blast
    qed
    moreover have "jobs_wf d1" using assms(2) by (simp add: d1 jobs_wf_update_job)
    ultimately show ?thesis by (simp add: w1 d1)
  qed
qed

text \<open>What one run leaves to a later one.\<close>

definition later :: "discovery_env \<Rightarrow> time \<Rightarrow> world \<Rightarrow> world \<Rightarrow> bool" where
  "later env now w v \<longleftrightarrow> downloads (db v) = downloads (db w) \<and> source_configs (db v) = source_configs (db w)
     \<and> profile_config (db v) = profile_config (db w)
     \<and> (\<forall>key. settled env now key (db w) \<longrightarrow> settled env now key (db v))"

lemma later_refl: "later env now w w"
  by (simp add: later_def)

lemma later_trans: "later env now a b \<Longrightarrow> later env now b c \<Longrightarrow> later env now a c"
  by (simp add: later_def)

lemma later_db: "later env now a b \<Longrightarrow> db c = db b \<Longrightarrow> later env now a c"
  by (simp add: later_def)

lemma check_candidates_later:
  "check_candidates env now profile n s cs q w = (None, k, w1) \<Longrightarrow> jobs_wf (db w) \<Longrightarrow>
   jobs_wf (db w1) \<and> later env now w w1
   \<and> (\<forall>v. later env now w1 v \<longrightarrow> (\<exists>v1. check_candidates env now profile n s cs q v = (None, k, v1) \<and> db v1 = db v))"
proof (induction cs arbitrary: q w)
  case Nil
  then show ?case by (simp add: later_refl)
next
  case (Cons c cs)
  have same: "later env now w1 v \<Longrightarrow> later env now w w1 \<Longrightarrow>
      episode_was_downloaded profile s c (db v) = episode_was_downloaded profile s c (db w)" for v
    by (simp add: episode_was_downloaded_def later_def)
  show ?case
  proof (cases "n \<le> q \<or> episode_was_downloaded profile s c (db w)")
    case True
    then show ?thesis using Cons.IH [of q w] Cons.prems same by (auto simp: later_refl split: if_splits)
  next
    case False
    obtain wa where q: "queue_episode env now profile n s c w = (None, wa)"
      and rest: "check_candidates env now profile n s cs (q + 1) wa = (None, k, w1)"
      using Cons.prems(1) False by (auto split: prod.splits option.splits)
    note s1 = queue_episode_settles [OF q Cons.prems(2)]
    have l1: "later env now w wa" using s1 by (simp add: later_def)
    note ih = Cons.IH [OF rest]
    have lw: "later env now w w1" using later_trans [OF l1] ih s1 by blast
    have "\<exists>v1. check_candidates env now profile n s (c # cs) q v = (None, k, v1) \<and> db v1 = db v"
      if v: "later env now w1 v" for v
    proof -
      have "settled env now (episode_key env profile s c) (db v)"
        using s1 ih v by (simp add: later_def)
      then obtain va where va: "queue_episode env now profile n s c v = (None, va)" "db va = db v"
        using queue_episode_noop by blast
      have "later env now w1 va" using v va(2) by (rule later_db)
      then obtain v1 where "check_candidates env now profile n s cs (q + 1) va = (None, k, v1)" "db v1 = db va"
        using ih s1 by blast
      then show ?thesis using va False same [OF v lw] by auto
    qed
    then show ?thesis using ih s1 lw by blast
  qed
qed

lemma check_source_later:
  assumes "check_source env now profile s w = (None, w1)" and "jobs_wf (db w)"
  shows "jobs_wf (db w1) \<and> later env now w w1
    \<and> (\<forall>v. later env now w1 v \<longrightarrow> (\<exists>v1. check_source env now profile s v = (None, v1) \<and> db v1 = db v))"
proof -
  obtain n where n: "source_limit (db w) s = Inr n"
    using assms(1) by (auto simp: check_source_def split: sum.splits)
  obtain cs err where cs: "candidates_for_source env (db w) s = (cs, err)" by fastforce
  obtain k where k: "check_candidates env now profile n s cs 0 w = (None, k, w1)"
    and e: "(if n \<le> k then None else err) = None"
    using assms(1) n cs by (auto simp: check_source_def split: prod.splits option.splits)
  note c = check_candidates_later [OF k assms(2)]
  have "\<exists>v1. check_source env now profile s v = (None, v1) \<and> db v1 = db v" if v: "later env now w1 v" for v
  proof -
    have "profile_config (db v) = profile_config (db w)"
      using later_trans [OF _ v, of w] c by (simp add: later_def)
    then have "source_limit (db v) s = Inr n" "candidates_for_source env (db v) s = (cs, err)"
      using n cs source_limit_config candidates_config by metis+
    moreover obtain v1 where "check_candidates env now profile n s cs 0 v = (None, k, v1)" "db v1 = db v"
      using c v by blast
    ultimately show ?thesis using e by (simp add: check_source_def)
  qed
  then show ?thesis using c by blast
qed

lemma check_sources_later:
  "check_sources env now ss w = (None, w1) \<Longrightarrow> jobs_wf (db w) \<Longrightarrow>
   jobs_wf (db w1) \<and> later env now w w1
   \<and> (\<forall>v. later env now w1 v \<longrightarrow> (\<exists>v1. check_sources env now ss v = (None, v1) \<and> db v1 = db v))"
proof (induction ss arbitrary: w)
  case Nil
  then show ?case by (simp add: later_refl)
next
  case (Cons ps ss)
  obtain profile s where ps: "ps = (profile, s)" by (cases ps)
  obtain wa where a: "check_source env now profile s w = (None, wa)" and r: "check_sources env now ss wa = (None, w1)"
    using Cons.prems(1) ps by (auto split: prod.splits option.splits)
  note ca = check_source_later [OF a Cons.prems(2)]
  note cr = Cons.IH [OF r]
  have lw: "later env now w w1" using ca cr later_trans by blast
  have "\<exists>v1. check_sources env now (ps # ss) v = (None, v1) \<and> db v1 = db v" if v: "later env now w1 v" for v
  proof -
    have "later env now wa v" using cr ca v later_trans by blast
    then obtain va where va: "check_source env now profile s v = (None, va)" "db va = db v" using ca by blast
    have "later env now w1 va" using v va(2) by (rule later_db)
    then obtain v1 where "check_sources env now ss va = (None, v1)" "db v1 = db va" using cr ca by blast
    then show ?thesis using va ps by simp
  qed
  then show ?case using ca cr lw by blast
qed

section \<open>Properties\<close>



definition news_entry :: feed_entry where
  "news_entry = \<lparr>fe_enclosures = [''https://a.example/1.mp3''], fe_link = [], fe_title = ''One'',
     fe_published = [], fe_updated = [], fe_id = ''one'', fe_guid = []\<rparr>"

definition sample_discovery :: discovery_env where
  "sample_discovery = \<lparr>dv_sha1 = (\<lambda>_. ''0''), dv_feed = (\<lambda>_. [news_entry]), dv_extract = (\<lambda>_ _. Inr PNone),
     dv_float_repr = (\<lambda>_. []), dv_stale = []\<rparr>"

definition discovery_world :: world where
  "discovery_world = \<lparr>db = empty_database\<lparr>source_configs := [news_source], next_source_id := 2\<rparr>,
     broker = [], files = Map.empty\<rparr>"

lemma sample_candidates:
  "candidates_for_source sample_discovery (db discovery_world) news_source =
     ([\<lparr>cd_uid = ''one'', cd_url = ''https://a.example/1.mp3'', cd_media_url = ''https://a.example/1.mp3'',
        cd_title = ''One'', cd_published = []\<rparr>], None)"
proof -
  have "url_parts (py_strip (src_url news_source)) = (''https'', ''a.example'')"
    "source_config_type news_source = Some PODCAST" "source_limit (db discovery_world) news_source = Inr 5"
    "podcast_candidate sample_discovery news_source news_entry =
      \<lparr>cd_uid = ''one'', cd_url = ''https://a.example/1.mp3'', cd_media_url = ''https://a.example/1.mp3'',
        cd_title = ''One'', cd_published = []\<rparr>"
    by code_simp+
  then show ?thesis
    by (simp add: candidates_for_source_def podcast_candidates_def sample_discovery_def)
qed

lemma discovery_world_run:
  obtains w1 where "check_for_episodes sample_discovery 9 discovery_world = (None, w1)"
    and "length (jobs (db w1)) = 1"
proof -
  let ?c = "\<lparr>cd_uid = ''one'', cd_url = ''https://a.example/1.mp3'', cd_media_url = ''https://a.example/1.mp3'',
        cd_title = ''One'', cd_published = []\<rparr>"
  have src: "enabled_sources (db discovery_world) = [(''default'', news_source)]"
    by (simp add: enabled_sources_def discovery_world_def news_source_def)
  have lim: "source_limit (db discovery_world) news_source = Inr 5" by code_simp
  have fresh: "\<not> episode_was_downloaded ''default'' news_source ?c (db discovery_world)"
    by (simp add: episode_was_downloaded_def discovery_world_def empty_database_def)
  have none: "active_download_job key (db discovery_world) = None" for key
    by (simp add: active_download_job_None discovery_world_def empty_database_def)
  let ?key = "episode_key sample_discovery ''default'' news_source ?c"
  have "create_lookup (Some ?key) (db discovery_world) = None"
    by (simp add: create_lookup_def discovery_world_def empty_database_def)
  then obtain m where "create_and_publish 9 ''default'' ''download_episode''
      (PDict (episode_payload sample_discovery 5 news_source ?c)) (Some ?key) discovery_world
    = (Inr (new_job 9 ''default'' ''download_episode''
        (PDict (episode_payload sample_discovery 5 news_source ?c)) (Some ?key) (db discovery_world)),
      discovery_world\<lparr>db := insert_job (new_job 9 ''default'' ''download_episode''
        (PDict (episode_payload sample_discovery 5 news_source ?c)) (Some ?key) (db discovery_world))
        (db discovery_world), broker := broker discovery_world @ [m]\<rparr>)"
    by (rule create_and_publish_new)
  then obtain w1 where q: "queue_episode sample_discovery 9 ''default'' 5 news_source ?c discovery_world = (None, w1)"
    "length (jobs (db w1)) = 1"
    using none by (auto simp: queue_episode_def Let_def insert_job_def discovery_world_def empty_database_def)
  then have "check_source sample_discovery 9 ''default'' news_source discovery_world = (None, w1)"
    using lim fresh by (simp add: check_source_def sample_candidates)
  then show thesis using that q(2) by (simp add: check_for_episodes_def src)
qed


text \<open>What one candidate does to the job table.\<close>

lemma queue_episode_jobs:
  assumes "queue_episode env now profile n s c w = (err, w1)" and "jobs_wf (db w)"
  shows "jobs_wf (db w1)
    \<and> ((\<exists>m f. jobs (db w1) = update_where (\<lambda>j. job_id j = m) f (jobs (db w))
           \<and> (\<forall>j \<in> set (jobs (db w)). job_id j = m \<longrightarrow> job_state j = RUNNING))
      \<or> (\<exists>j. jobs (db w1) = jobs (db w) @ [j] \<and> job_kind j = ''download_episode'' \<and> job_state j = QUEUED
           \<and> job_profile_id j = profile \<and> job_payload j = PDict (episode_payload env n s c)))"
proof (cases "active_download_job (episode_key env profile s c) (db w)")
  case None
  let ?key = "episode_key env profile s c"
  let ?j = "new_job now profile ''download_episode'' (PDict (episode_payload env n s c)) (Some ?key) (db w)"
  have none: "create_lookup (Some ?key) (db w) = None"
    using None by (auto simp: create_lookup_def first_row_None active_download_job_None)
  then obtain m where m: "create_and_publish now profile ''download_episode'' (PDict (episode_payload env n s c))
      (Some ?key) w = (Inr ?j, w\<lparr>db := insert_job ?j (db w), broker := broker w @ [m]\<rparr>)"
    by (rule create_and_publish_new)
  have w1: "db w1 = insert_job ?j (db w)" using assms(1) None m by (auto simp: queue_episode_def)
  have "jobs_wf (insert_job ?j (db w))"
    using jobs_wf_create [OF assms(2), of now profile "''download_episode''" "PDict (episode_payload env n s c)" "Some ?key"]
      none by (simp add: create_job_def create_insert_def Let_def)
  moreover have "job_payload ?j = PDict (episode_payload env n s c)" "job_profile_id ?j = profile"
    "job_kind ?j = ''download_episode''"
    by (simp_all add: new_job_def episode_payload_def)
  ultimately show ?thesis by (simp add: w1 insert_job_def)
next
  case (Some j)
  note j = active_download_job_Some [OF Some]
  have only: "x = j" if "x \<in> set (jobs (db w))" "job_id x = job_id j" for x
    using that j assms(2) unfolding jobs_wf_def by (metis distinct_map inj_onD)
  have keep: "\<exists>m f. jobs (db w) = update_where (\<lambda>j. job_id j = m) f (jobs (db w))
      \<and> (\<forall>j \<in> set (jobs (db w)). job_id j = m \<longrightarrow> job_state j = RUNNING)"
    using assms(2) by (intro exI [of _ "next_job_id (db w)"] exI [of _ id]) (auto simp: jobs_wf_def update_where_def cong: if_cong)
  show ?thesis
  proof (cases "make_stale_job_queued (dv_stale env) now j (db w)")
    case (Inl e)
    then have "w1 = w" using assms(1) Some by (simp add: queue_episode_def)
    then show ?thesis using keep assms(2) by blast
  next
    case (Inr t)
    obtain b j2 d1 where t: "t = (b, j2, d1)" by (cases t)
    have w1: "db w1 = d1"
      using assms(1) Some Inr t
      by (auto simp: queue_episode_def Let_def publish_created_job_def publish_job_def
          split: sum.splits prod.splits if_splits option.splits)
    from make_stale_cases [OF Inr [unfolded t]] show ?thesis
    proof (elim disjE conjE)
      assume "d1 = db w"
      then show ?thesis using keep assms(2) w1 by metis
    next
      assume "job_state j = RUNNING" and d1: "d1 = update_job (job_id j)
         (\<lambda>r. r\<lparr>job_state := QUEUED, job_error_message := job_error_message (stale_reset now j),
                job_started_at := None, job_finished_at := None, job_updated_at := now\<rparr>) (db w)"
      then show ?thesis using only assms(2) w1 by (auto simp: jobs_wf_update_job)
    qed
  qed
qed

text \<open>
  The jobs added for a source: queued downloads of the profile, each for one of the candidates that
  was not downloaded.
\<close>

definition episode_job :: "discovery_env \<Rightarrow> database \<Rightarrow> string \<Rightarrow> int \<Rightarrow> source_config \<Rightarrow> candidate list \<Rightarrow> job \<Rightarrow> bool" where
  "episode_job env d profile n s cs j \<longleftrightarrow> job_kind j = ''download_episode'' \<and> job_state j = QUEUED
     \<and> job_profile_id j = profile
     \<and> list_ex (\<lambda>c. job_payload j = PDict (episode_payload env n s c) \<and> \<not> episode_was_downloaded profile s c d) cs"

lemma episode_job_mono: "episode_job env d profile n s cs j \<Longrightarrow> set cs \<subseteq> set cs' \<Longrightarrow> episode_job env d profile n s cs' j"
  by (auto simp: episode_job_def list_ex_iff)

lemma drop_update_where:
  "\<forall>j \<in> set xs. P j \<longrightarrow> \<not> Q j \<Longrightarrow> \<forall>j \<in> set (drop N xs). Q j \<Longrightarrow> \<forall>j \<in> set (drop N (update_where P f xs)). Q j"
  unfolding update_where_def drop_map using in_set_dropD by fastforce

lemma queue_episode_added:
  assumes "queue_episode env now profile n s c w = (err, w1)" and "jobs_wf (db w)"
    and "\<not> episode_was_downloaded profile s c d" and "c \<in> set C" and "N \<le> length (jobs (db w))"
    and "\<forall>j \<in> set (drop N (jobs (db w))). episode_job env d profile n s C j"
  shows "length (jobs (db w)) \<le> length (jobs (db w1)) \<and> length (jobs (db w1)) \<le> length (jobs (db w)) + 1
    \<and> (\<forall>j \<in> set (drop N (jobs (db w1))). episode_job env d profile n s C j)"
  using queue_episode_jobs [OF assms(1,2)]
proof (elim conjE disjE exE)
  fix m f
  assume u: "jobs (db w1) = update_where (\<lambda>j. job_id j = m) f (jobs (db w))"
    and r: "\<forall>j \<in> set (jobs (db w)). job_id j = m \<longrightarrow> job_state j = RUNNING"
  have "\<forall>j \<in> set (drop N (update_where (\<lambda>j. job_id j = m) f (jobs (db w)))). episode_job env d profile n s C j"
    using r assms(6) by (intro drop_update_where) (auto simp: episode_job_def)
  then show ?thesis by (simp add: u update_where_def)
next
  fix j
  assume "jobs (db w1) = jobs (db w) @ [j]" "job_kind j = ''download_episode''" "job_state j = QUEUED"
    "job_profile_id j = profile" "job_payload j = PDict (episode_payload env n s c)"
  moreover then have "episode_job env d profile n s C j"
    using assms(3,4) by (auto simp: episode_job_def list_ex_iff)
  ultimately show ?thesis using assms(5,6) by auto
qed

lemma check_candidates_added:
  "check_candidates env now profile n s cs q w = (err, k, w1) \<Longrightarrow> jobs_wf (db w) \<Longrightarrow>
   downloads (db w) = downloads d \<Longrightarrow> set cs \<subseteq> set C \<Longrightarrow> N \<le> length (jobs (db w)) \<Longrightarrow>
   \<forall>j \<in> set (drop N (jobs (db w))). episode_job env d profile n s C j \<Longrightarrow>
   length (jobs (db w)) \<le> length (jobs (db w1))
   \<and> int (length (jobs (db w1))) \<le> int (length (jobs (db w))) + max 0 (n - q)
   \<and> (\<forall>j \<in> set (drop N (jobs (db w1))). episode_job env d profile n s C j)"
proof (induction cs arbitrary: q w)
  case (Cons c cs)
  have same: "episode_was_downloaded profile s c (db w) = episode_was_downloaded profile s c d"
    using Cons.prems(3) by (simp add: episode_was_downloaded_def)
  show ?case
  proof (cases "n \<le> q \<or> episode_was_downloaded profile s c (db w)")
    case True
    then show ?thesis using Cons.IH [of q w] Cons.prems by (auto split: if_splits)
  next
    case False
    obtain e wa where q: "queue_episode env now profile n s c w = (e, wa)" by fastforce
    have a: "length (jobs (db w)) \<le> length (jobs (db wa)) \<and> length (jobs (db wa)) \<le> length (jobs (db w)) + 1
      \<and> (\<forall>j \<in> set (drop N (jobs (db wa))). episode_job env d profile n s C j)"
      using False same Cons.prems by (intro queue_episode_added [OF q]) auto
    show ?thesis
    proof (cases e)
      case None
      have "downloads (db wa) = downloads d" "jobs_wf (db wa)"
        using queue_episode_settles [OF q [unfolded None] Cons.prems(2)] Cons.prems(3) by simp_all
      moreover have "check_candidates env now profile n s cs (q + 1) wa = (err, k, w1)"
        using Cons.prems(1) False q None by simp
      ultimately show ?thesis using Cons.IH [of "q + 1" wa] Cons.prems(4,5) a False by auto
    next
      case (Some err')
      then show ?thesis using Cons.prems(1) False q a by auto
    qed
  qed
qed auto

text \<open>Checking a source adds at most as many jobs as the source's limit, all behind the rows that
  were there: queued downloads of its profile, each for a listed candidate that was not downloaded.
  This holds when the check stops with an error as well.\<close>

theorem check_source_within_limit:
  assumes "check_source env now profile s w = (err, w1)" and "jobs_wf (db w)"
    and "source_limit (db w) s = Inr n"
  shows "length (jobs (db w)) \<le> length (jobs (db w1))
    \<and> int (length (jobs (db w1))) \<le> int (length (jobs (db w))) + n
    \<and> (\<forall>j \<in> set (drop (length (jobs (db w))) (jobs (db w1))).
          episode_job env (db w) profile n s (fst (candidates_for_source env (db w) s)) j)"
proof -
  obtain cs e where cs: "candidates_for_source env (db w) s = (cs, e)" by fastforce
  obtain e1 k where "check_candidates env now profile n s cs 0 w = (e1, k, w1)"
    using assms(1,3) cs by (auto simp: check_source_def split: prod.splits option.splits if_splits)
  from check_candidates_added [OF this assms(2) refl subset_refl order_refl] source_limit_pos [OF assms(3)]
  show ?thesis by (simp add: cs)
qed

theorem check_source_within_limit_witness:
  "\<exists>w1. check_source sample_discovery 9 ''default'' news_source discovery_world = (None, w1)
     \<and> length (jobs (db w1)) = 1 \<and> job_kind (hd (jobs (db w1))) = ''download_episode''"
proof -
  have src: "enabled_sources (db discovery_world) = [(''default'', news_source)]"
    by (simp add: enabled_sources_def discovery_world_def news_source_def)
  obtain w1 where w1: "check_for_episodes sample_discovery 9 discovery_world = (None, w1)" "length (jobs (db w1)) = 1"
    by (rule discovery_world_run)
  then have r: "check_source sample_discovery 9 ''default'' news_source discovery_world = (None, w1)"
    by (auto simp: check_for_episodes_def src split: prod.splits option.splits)
  have "jobs_wf (db discovery_world)" "source_limit (db discovery_world) news_source = Inr 5"
    "jobs (db discovery_world) = []"
    by (simp_all add: jobs_wf_def discovery_world_def empty_database_def, code_simp)
  with check_source_within_limit [OF r] w1(2)
  have "\<forall>j \<in> set (jobs (db w1)). job_kind j = ''download_episode''" by (simp add: episode_job_def)
  then show ?thesis using r w1(2) by (metis hd_in_set list.size(3) zero_neq_one)
qed

text \<open>The listings themselves.\<close>

lemma youtube_candidate_url:
  "youtube_candidate_from_entry env s e = Some c \<Longrightarrow>
   is_youtube_video_url (cd_url c) \<and> youtube_source_skip_reason s e = None"
  by (auto simp: youtube_candidate_from_entry_def Let_def split: if_splits)

lemma map_filter_mem: "x \<in> set (List.map_filter f xs) \<longleftrightarrow> (\<exists>y \<in> set xs. f y = Some x)"
  by (induction xs) (auto simp: List.map_filter_def)

lemma youtube_walk_bounds:
  "int (length (fst (youtube_walk env s room es))) \<le> max 0 room
   \<and> (\<forall>c \<in> set (fst (youtube_walk env s room es)). \<exists>e. youtube_candidate_from_entry env s e = Some c)"
proof (induction env s room es rule: youtube_walk.induct)
  case (2 env s room e es)
  show ?case
  proof (cases "room \<le> 0 \<or> youtube_source_skip_reason s e \<noteq> None")
    case True
    then show ?thesis using 2(1) by (auto simp: not_le)
  next
    case False
    then have pos: "\<not> room \<le> 0" and keep: "\<not> youtube_source_skip_reason s e \<noteq> None" by auto
    show ?thesis
    proof (cases "youtube_candidate_from_entry env s e")
      case (Some c)
      then show ?thesis using 2(4) [OF pos keep Some] pos keep by (auto split: prod.split)
    next
      case None
      let ?nested = "youtube_video_url e"
      show ?thesis
      proof (cases "?nested = [] \<or> ?nested = src_url s")
        case True
        then show ?thesis using 2(2) [OF pos keep None refl True] pos keep None by auto
      next
        case nested: False
        show ?thesis
        proof (cases "youtube_entries_from_url env ?nested room")
          case (Inl err)
          then show ?thesis using pos keep None nested by auto
        next
          case (Inr es2)
          let ?cs = "take (nat room) (List.map_filter (youtube_candidate_from_entry env s) es2)"
          have "int (length ?cs) \<le> room" using pos by auto
          moreover have "\<forall>c \<in> set ?cs. \<exists>e. youtube_candidate_from_entry env s e = Some c"
            by (meson in_set_takeD map_filter_mem)
          ultimately show ?thesis
            using 2(3) [OF pos keep None refl nested Inr refl] pos keep None nested Inr
            by (auto split: prod.split)
        qed
      qed
    qed
  qed
qed simp

text \<open>A YouTube listing yields at most the source's limit of candidates, whatever the extractor
  returns, and every one of them has the URL of a single video.\<close>

theorem youtube_candidates_bounded:
  assumes "source_limit d s = Inr n"
  shows "int (length (fst (youtube_candidates env d s))) \<le> n
    \<and> (\<forall>c \<in> set (fst (youtube_candidates env d s)). is_youtube_video_url (cd_url c))"
proof (cases "youtube_entries_from_url env (src_url s) n")
  case (Inr es)
  then show ?thesis using youtube_walk_bounds [of env s n es] source_limit_pos [OF assms] youtube_candidate_url assms
    by (fastforce simp: youtube_candidates_def)
qed (use source_limit_pos [OF assms] assms in \<open>simp add: youtube_candidates_def\<close>)

definition channel_env :: discovery_env where
  "channel_env = sample_discovery\<lparr>dv_extract := (\<lambda>_ _. Inr (PDict [(''entries'',
     PList [PDict [(''id'', PStr ''abcdefghijk''), (''title'', PStr ''First'')],
            PDict [(''id'', PStr ''bbbbbbbbbbb''), (''title'', PStr ''Live now''), (''is_live'', PBool True)],
            PDict [(''id'', PStr ''ccccccccccc''), (''title'', PStr ''Third'')]])]))\<rparr>"

theorem youtube_candidates_bounded_witness:
  "source_limit empty_database (news_source\<lparr>src_max_downloads := Some 2\<rparr>) = Inr 2
   \<and> map cd_uid (fst (youtube_candidates channel_env empty_database (news_source\<lparr>src_max_downloads := Some 2\<rparr>)))
       = [''abcdefghijk'', ''ccccccccccc'']
   \<and> int (length (fst (youtube_candidates channel_env empty_database (news_source\<lparr>src_max_downloads := Some 2\<rparr>)))) \<le> 2"
proof -
  have l: "source_limit empty_database (news_source\<lparr>src_max_downloads := Some 2\<rparr>) = Inr 2" by code_simp
  moreover have "map cd_uid (fst (youtube_candidates channel_env empty_database (news_source\<lparr>src_max_downloads := Some 2\<rparr>)))
       = [''abcdefghijk'', ''ccccccccccc'']" by code_simp
  ultimately show ?thesis using youtube_candidates_bounded [OF l, of channel_env] by blast
qed

text \<open>The title filter of a source has no effect on its check: the candidates are the same
  whatever text the filter holds.\<close>

theorem title_filter_ignored:
  "candidates_for_source env d (s\<lparr>src_title_exclude := t\<rparr>) = candidates_for_source env d s"
proof -
  have lim: "source_limit d (s\<lparr>src_title_exclude := t\<rparr>) = source_limit d s"
    by (cases "src_max_downloads s") (simp_all add: source_limit_def)
  have pc: "podcast_candidate env (s\<lparr>src_title_exclude := t\<rparr>) = podcast_candidate env s"
    by (rule ext) (simp add: podcast_candidate_def)
  have skip: "youtube_source_skip_reason (s\<lparr>src_title_exclude := t\<rparr>) = youtube_source_skip_reason s" for s
    by (rule ext) (simp add: youtube_source_skip_reason_def)
  have u: "src_url (s\<lparr>src_title_exclude := t\<rparr>) = src_url s" for s :: source_config by simp
  have yc: "youtube_candidate_from_entry env (s\<lparr>src_title_exclude := t\<rparr>) = youtube_candidate_from_entry env s" for env s
    by (rule ext) (simp only: youtube_candidate_from_entry_def skip u)
  have "youtube_walk env (s\<lparr>src_title_exclude := t\<rparr>) room es = youtube_walk env s room es" for room es
  proof (induction env s room es rule: youtube_walk.induct)
    case (2 env s room e es)
    show ?case
      unfolding youtube_walk.simps(2) skip yc u Let_def
      by (intro if_cong refl option.case_cong sum.case_cong) (simp_all add: 2 [unfolded Let_def] del: length_take)
  qed simp
  then have "podcast_candidates env d (s\<lparr>src_title_exclude := t\<rparr>) = podcast_candidates env d s"
    "youtube_candidates env d (s\<lparr>src_title_exclude := t\<rparr>) = youtube_candidates env d s"
    by (simp_all only: podcast_candidates_def youtube_candidates_def lim pc u)
  moreover have "source_config_type (s\<lparr>src_title_exclude := t\<rparr>) = source_config_type s"
    by (simp add: source_config_type_def)
  ultimately show ?thesis by (simp only: candidates_for_source_def u)
qed

end
