(* ===== verification/Fetching.thy ===== *)
theory Fetching
  imports Transcripts Discovery
begin

text \<open>
  The download worker (\<open>src/src/workers/handlers.py\<close>, \<open>src/src/workers/ytdlp_helpers.py\<close>): from a
  job's payload to a request, the options of the downloader, the files it left, and the row or the
  FFmpeg job that follows. The downloader itself is an argument: given a URL, its options and the
  files, it answers the events it reported, the information or the exception it ended with, the
  name it prepared and the files it left. Paths among its answers are texts.
\<close>

section \<open>Name of a source\<close>

definition info_entry :: "pyval \<Rightarrow> error + pydict" where
  "info_entry info =
     (if dget (as_dict info) ''_type'' = PStr ''playlist''
      then (case py_or (dget (as_dict info) ''entries'') (PList []) of
              PList xs \<Rightarrow> (case filter is_dict xs of [] \<Rightarrow> Inr (as_dict info) | e # _ \<Rightarrow> Inr (as_dict e))
            | PStr _ \<Rightarrow> Inr (as_dict info)
            | PDict _ \<Rightarrow> Inr (as_dict info)
            | v \<Rightarrow> Inl (TypeError (py_str v)))
      else Inr (as_dict info))"

definition resolve_youtube_source_name :: "(string \<Rightarrow> error + pyval) \<Rightarrow> string \<Rightarrow> error + string" where
  "resolve_youtube_source_name lookup url =
     (if py_strip url = [] then Inl (ValueError ''Missing YouTube URL'')
      else bind_result (lookup (py_strip url)) (\<lambda>info.
        if truthy info \<and> is_dict info
        then bind_result (info_entry info) (\<lambda>entry.
          let names = filter (\<lambda>s. s \<noteq> []) (map (\<lambda>k. py_strip (str_or_empty (dget entry k)))
                        [''channel'', ''uploader'', ''uploader_id'', ''title'']) in
          Inr (case names of [] \<Rightarrow> ''youtube-single'' | n # _ \<Rightarrow> sanitize_channel_name n))
        else Inr ''youtube-single''))"

section \<open>The request\<close>

record fetch_request =
  rq_url :: string
  rq_source :: source_type
  rq_name :: string

definition download_request_from_payload :: "(string \<Rightarrow> error + pyval) \<Rightarrow> pydict \<Rightarrow> fetch_request option" where
  "download_request_from_payload lookup payload =
     (let url = py_strip (str_or_empty (py_or (py_or (dget payload ''media_url'') (dget payload ''item_url''))
                  (dget payload ''url'')));
          source = (case parse_source_type (dget payload ''source_type'') of None \<Rightarrow> YOUTUBE | Some s \<Rightarrow> s);
          given = py_strip (str_or_empty (dget payload ''source_name''));
          resolved = (if given = [] \<and> source = YOUTUBE
                      then (case resolve_youtube_source_name lookup url of Inl e \<Rightarrow> [] | Inr n \<Rightarrow> n) else given);
          name = or_else resolved (py_strip (or_else (str_or_empty (dget payload ''source_type'')) ''GetOffline''));
          uid = py_strip (str_or_empty (dget payload ''item_uid''))
      in if url = [] then None
         else if source = YOUTUBE \<and> \<not> is_youtube_video_url url
         then (if length uid \<noteq> 11 then None
               else Some \<lparr>rq_url = ''https://www.youtube.com/watch?v='' @ uid, rq_source = source, rq_name = name\<rparr>)
         else Some \<lparr>rq_url = url, rq_source = source, rq_name = name\<rparr>)"

section \<open>The downloader's options\<close>

record ydl_options =
  yo_outtmpl :: string
  yo_verbose :: bool
  yo_fixed :: pydict
  yo_format :: "string option"
  yo_ffmpeg_location :: "string option"
  yo_ignoreerrors :: bool
  yo_match_filter :: "(pydict \<Rightarrow> string option) option"
  yo_extractor_args :: pydict
  yo_js_runtime :: "string option"
  yo_remote_components :: "string list"

record ydl_event =
  ev_status :: string
  ev_filename :: string
  ev_title :: string
  ev_time :: time
  ev_files :: file_system

datatype ydl_outcome = YdlInfo pyval | YdlError string string

record ydl_run =
  yr_events :: "ydl_event list"
  yr_outcome :: ydl_outcome
  yr_prepared :: string
  yr_files :: file_system

record fetch_env =
  fv_transcripts :: transcript_env
  fv_lookup :: "string \<Rightarrow> error + pyval"
  fv_run :: "string \<Rightarrow> ydl_options \<Rightarrow> file_system \<Rightarrow> ydl_run"
  fv_expand :: "path \<Rightarrow> path"
  fv_executable :: "string \<Rightarrow> bool"
  fv_which :: "string \<Rightarrow> string option"
  fv_verbose :: bool

abbreviation fv_media :: "fetch_env \<Rightarrow> media_env" where
  "fv_media env \<equiv> tr_media (fv_transcripts env)"

abbreviation fv_now :: "fetch_env \<Rightarrow> time" where
  "fv_now env \<equiv> tr_now (fv_transcripts env)"

text \<open>\<open>f"%(title).160B [%(id).48B].%(ext)s"\<close>: a name too long for one component is cut.\<close>

definition yt_dlp_download_outtmpl :: "path \<Rightarrow> string" where
  "yt_dlp_download_outtmpl dir =
     path_str (path_join dir (path_of ''%(title).160B [%(id).48B].%(ext)s''))"

definition resolve_quickjs_binary :: "fetch_env \<Rightarrow> string \<Rightarrow> file_system \<Rightarrow> string option" where
  "resolve_quickjs_binary env js fs =
     (let candidate = or_else (py_strip (or_else js ''qjs'')) ''qjs''; p = fv_expand env (path_of candidate) in
      if CHR ''/'' \<in> set candidate
      then (if is_file fs (path_str p) \<and> fv_executable env (path_str p)
            then Some (path_str (md_resolve (fv_media env) p)) else None)
      else fv_which env candidate)"

definition enable_quickjs :: "fetch_env \<Rightarrow> string \<Rightarrow> file_system \<Rightarrow> ydl_options \<Rightarrow> ydl_options" where
  "enable_quickjs env js fs opts =
     (case resolve_quickjs_binary env js fs of
        None \<Rightarrow> opts
      | Some binary \<Rightarrow> opts\<lparr>yo_js_runtime := Some binary,
          yo_remote_components := (if ''ejs:github'' \<in> set (yo_remote_components opts) then yo_remote_components opts
                                   else yo_remote_components opts @ [''ejs:github''])\<rparr>)"

definition player_js_workaround :: "ydl_options \<Rightarrow> ydl_options" where
  "player_js_workaround opts =
     opts\<lparr>yo_extractor_args := AList.update ''youtube''
       (PDict (AList.update ''player_js_variant'' (PList [PStr ''main''])
          (as_dict (dget (yo_extractor_args opts) ''youtube'')))) (yo_extractor_args opts)\<rparr>"

definition unwanted_entry :: "pydict \<Rightarrow> pydict \<Rightarrow> string option" where
  "unwanted_entry payload entry =
     (if \<not> truthy (dget_default payload ''include_livestreams'' (PBool False)) \<and> is_youtube_livestream_entry entry
      then Some ''Skipping YouTube livestream entry from source.''
      else if \<not> truthy (dget_default payload ''include_shorts'' (PBool False)) \<and> is_youtube_short_entry entry
      then Some ''Skipping YouTube Shorts entry from source.''
      else None)"

definition configure_youtube_filters ::
    "fetch_env \<Rightarrow> database \<Rightarrow> file_system \<Rightarrow> string \<Rightarrow> pydict \<Rightarrow> ydl_options \<Rightarrow> ydl_options" where
  "configure_youtube_filters env d fs profile payload opts =
     (let o1 = opts\<lparr>yo_match_filter := Some (unwanted_entry payload)\<rparr>;
          o2 = (if truthy (dget_default payload ''include_shorts'' (PBool False)) then o1
                else o1\<lparr>yo_extractor_args := [(''youtube'', PDict [(''skip'', PList [PStr ''shorts''])])]\<rparr>)
      in player_js_workaround (enable_quickjs env (profile_setting d profile ''js_runtime_path'' ''qjs'') fs o2))"

definition requested_media_type :: "source_type \<Rightarrow> pydict \<Rightarrow> string" where
  "requested_media_type source payload =
     py_lower (py_strip (or_else (str_or_empty (dget payload ''media_type''))
       (if source = PODCAST then ''audio'' else ''video'')))"

definition base_options :: "fetch_env \<Rightarrow> string \<Rightarrow> ydl_options" where
  "base_options env outtmpl =
     \<lparr>yo_outtmpl = outtmpl, yo_verbose = fv_verbose env,
      yo_fixed = [(''quiet'', PBool False), (''no_warnings'', PBool False), (''continuedl'', PBool True),
        (''retries'', PInt 3), (''fragment_retries'', PInt 3), (''noplaylist'', PBool True),
        (''playlist_items'', PStr ''1''), (''playlistend'', PInt 1)],
      yo_format = None, yo_ffmpeg_location = None, yo_ignoreerrors = False, yo_match_filter = None,
      yo_extractor_args = [], yo_js_runtime = None, yo_remote_components = []\<rparr>"

definition download_format :: "string \<Rightarrow> string" where
  "download_format h = ''bv*[height<='' @ h @ '']+ba/b[height<='' @ h @ '']/best[height<='' @ h @ '']/best''"

definition yt_dlp_options ::
    "fetch_env \<Rightarrow> database \<Rightarrow> file_system \<Rightarrow> string \<Rightarrow> pydict \<Rightarrow> source_type \<Rightarrow> string \<Rightarrow> ydl_options" where
  "yt_dlp_options env d fs profile payload source outtmpl =
     (let max_height = py_strip (profile_setting d profile ''ytdlp_video_max_height'' ''720'');
          o1 = base_options env outtmpl;
          o2 = (if source = YOUTUBE \<and> requested_media_type source payload \<noteq> ''audio'' \<and> py_isdigit max_height
                then o1\<lparr>yo_format := Some (download_format max_height),
                        yo_ffmpeg_location := Some ''/usr/bin/ffmpeg'', yo_ignoreerrors := True\<rparr>
                else o1)
      in if source = YOUTUBE then configure_youtube_filters env d fs profile payload o2 else o2)"

section \<open>The files it left\<close>

definition add_found :: "media_env \<Rightarrow> file_system \<Rightarrow> string \<Rightarrow> path list \<Rightarrow> path list" where
  "add_found env fs candidate found =
     (let p = md_resolve env (path_of candidate) in
      if candidate \<noteq> [] \<and> path_exists fs candidate \<and> p \<notin> set found then found @ [p] else found)"

definition candidate_text :: "pyval \<Rightarrow> string" where
  "candidate_text v = (case v of PStr s \<Rightarrow> s | _ \<Rightarrow> [])"

definition list_items :: "pyval \<Rightarrow> pyval list" where
  "list_items v = (case v of PList xs \<Rightarrow> xs | _ \<Rightarrow> [])"

definition file_candidates :: "pydict \<Rightarrow> string \<Rightarrow> string list" where
  "file_candidates info prepared =
     map (\<lambda>v. candidate_text (py_or (dget (as_dict v) ''filepath'') (dget (as_dict v) ''filename'')))
       (filter is_dict (list_items (dget info ''requested_downloads'') @ list_items (dget info ''requested_formats'')))
     @ map candidate_text (list_items (dget info ''__files_to_merge''))
     @ map (\<lambda>k. candidate_text (dget info k)) [''filepath'', ''_filename'', ''filename''] @ [prepared]"

definition find_downloaded_files :: "media_env \<Rightarrow> file_system \<Rightarrow> pydict \<Rightarrow> string \<Rightarrow> path list" where
  "find_downloaded_files env fs info prepared = fold (add_found env fs) (file_candidates info prepared) []"

fun watch_events ::
    "media_env \<Rightarrow> pydict \<Rightarrow> string \<Rightarrow> ydl_event list \<Rightarrow> job \<times> database \<times> path list \<Rightarrow> job \<times> database \<times> path list" where
  "watch_events env payload url [] st = st"
| "watch_events env payload url (e # es) (j, d, found) =
     (let title = py_strip (first_nonempty [ev_title e, str_or_empty (dget payload ''title''), url]);
          (j1, d1) = (if ev_status e = ''downloading'' then touch_active_job (ev_time e) ''downloading'' title j d
                      else (j, d));
          found1 = (if ev_status e = ''finished'' then add_found env (ev_files e) (ev_filename e) found else found)
      in watch_events env payload url es (j1, d1, found1))"

definition is_expected_download_error :: "string \<Rightarrow> string \<Rightarrow> bool" where
  "is_expected_download_error kind message \<longleftrightarrow> kind \<in> {''DownloadError'', ''ExtractorError''}
     \<and> list_ex (\<lambda>f. contains_sub f (py_lower message))
         [''video unavailable'', ''has been removed'', ''removed by the uploader'', ''private video'',
          ''this video is unavailable'', ''this video is private'', ''this video has been deleted'',
          ''account associated with this video has been terminated'']"

section \<open>The row and what follows\<close>

fun before_sub :: "string \<Rightarrow> string \<Rightarrow> string" where
  "before_sub sep [] = []"
| "before_sub sep (c # s) = (if prefix sep (c # s) then [] else c # before_sub sep s)"

definition size_value :: "file_system \<Rightarrow> path \<Rightarrow> pyval" where
  "size_value fs p = (case fs (path_str p) of Some (RegularFile n) \<Rightarrow> PInt n | _ \<Rightarrow> PNone)"

definition download_defaults ::
    "fetch_request \<Rightarrow> pydict \<Rightarrow> pydict \<Rightarrow> path \<Rightarrow> path \<Rightarrow> file_system \<Rightarrow> string \<Rightarrow> error + pydict" where
  "download_defaults rq payload info f base fs uid =
     (let url = PStr (rq_url rq); duration = dget info ''duration'' in
      bind_result (if truthy duration
                   then (case py_int_val duration of None \<Rightarrow> Inl (int_error duration) | Some n \<Rightarrow> Inr (PInt n))
                   else Inr PNone) (\<lambda>seconds_value.
        Inr [(''source_url'', py_or (dget payload ''source_url'') url),
             (''item_id'', PStr (take 255 (or_else (str_or_empty (dget info ''id'')) uid))),
             (''item_url'', py_or (py_or (dget payload ''item_url'') (dget info ''webpage_url'')) url),
             (''media_url'', url),
             (''title'', PStr (first_nonempty [str_or_empty (dget payload ''title''), str_or_empty (dget info ''title''),
                path_stem f])),
             (''description'', dget info ''description''), (''uploader'', dget info ''uploader''),
             (''channel'', dget info ''channel''),
             (''upload_date'', PStr (str_or_empty (py_or (dget payload ''published'') (dget info ''upload_date'')))),
             (''duration_seconds'', seconds_value), (''file_path'', PStr (path_str f)),
             (''file_path_relative'', opt_text (relative_text f base)),
             (''file_ext'', PStr (lstrip_dots (path_suffix f))), (''file_size_bytes'', size_value fs f),
             (''download_status'', PStr ''downloaded'')]))"

definition stamped :: "time \<Rightarrow> pydict \<Rightarrow> pydict" where
  "stamped now defaults =
     defaults @ [(''last_seen_at'', PStr (iso_format now)), (''completed_at'', PStr (iso_format now))]"

definition subtitle_options :: "pydict \<Rightarrow> pydict" where
  "subtitle_options payload =
     [(''subtitles'', dget_default payload ''subtitles'' (PBool True)),
      (''subtitle_offset_seconds'', dget payload ''subtitle_offset_seconds'')]"

definition merged_target :: "path \<Rightarrow> string \<Rightarrow> path \<Rightarrow> string \<Rightarrow> nat \<Rightarrow> string" where
  "merged_target dir kind f ext inputs =
     (if kind = ''video'' \<and> (inputs > 1 \<or> py_lower (lstrip_dots (path_suffix f)) \<noteq> ext)
      then path_str (path_join dir (path_of (before_sub ''.f'' (path_stem f) @ ''.'' @ ext))) else [])"

definition transcode_payload ::
    "source_type \<Rightarrow> pydict \<Rightarrow> string \<Rightarrow> path \<Rightarrow> path list \<Rightarrow> string \<Rightarrow> path \<Rightarrow> string \<Rightarrow> pydict" where
  "transcode_payload source payload kind f inputs target base uid =
     [(''source_file_path'', PStr (path_str f)),
      (''source_file_paths'', PList (map (\<lambda>p. PStr (path_str p)) inputs)), (''target_file_path'', PStr target),
      (''output_root'', PStr (path_str base)), (''media_type'', PStr kind)] @ subtitle_options payload
     @ [(''source_type'', PStr (source_type_value source)), (''recent_download'', PBool True),
        (''delete_explicit_content'', PBool (delete_explicit_set payload)), (''item_uid'', PStr uid)]"

datatype fetched = NothingFetched | SavedRow download | NeedsTranscode pydict

definition ffmpeg_inputs :: "string \<Rightarrow> file_system \<Rightarrow> path list \<Rightarrow> path \<Rightarrow> path list" where
  "ffmpeg_inputs kind fs found f =
     (let existing = filter (\<lambda>p. path_exists fs (path_str p)) found in
      if kind = ''audio'' then [f] else if length existing > 1 then existing else [f])"

definition save_row ::
    "time \<Rightarrow> download_lookup \<Rightarrow> pydict \<Rightarrow> media_store \<Rightarrow> (error + download) \<times> media_store" where
  "save_row now l defaults ms =
     (case upsert_download now l (stamped now defaults) (ms_db ms) of
        Inl e \<Rightarrow> (Inl e, ms) | Inr (r, d) \<Rightarrow> (Inr r, with_database (\<lambda>_. d) ms))"

definition store_fetched ::
    "fetch_env \<Rightarrow> job \<Rightarrow> pydict \<Rightarrow> fetch_request \<Rightarrow> pydict \<Rightarrow> path \<Rightarrow> path \<Rightarrow> path list \<Rightarrow> path \<Rightarrow> media_store \<Rightarrow>
     (error + fetched) \<times> media_store" where
  "store_fetched env j payload rq info base dir found f ms =
     (let profile = job_profile_id j; fs = ms_files ms;
          uid = take 255 (first_nonempty [str_or_empty (dget payload ''item_uid''), str_or_empty (dget info ''id''),
                  rq_url rq]);
          l = \<lparr>lk_profile = profile, lk_source_type = source_type_value (rq_source rq), lk_source_name = rq_name rq,
               lk_uid = uid\<rparr>;
          kind = requested_media_type (rq_source rq) payload;
          inputs = ffmpeg_inputs kind fs found f;
          (needed, ext) = downloaded_media_requires_ffmpeg (ms_db ms) profile kind (lstrip_dots (path_suffix f))
                            (length inputs)
      in case download_defaults rq payload info f base fs uid of
           Inl e \<Rightarrow> (Inl e, ms)
         | Inr defaults \<Rightarrow>
             if needed
             then (let p = transcode_payload (rq_source rq) payload kind f inputs
                             (merged_target dir kind f ext (length inputs)) base uid in
                   if kind = ''video'' \<and> \<not> delete_explicit_set payload
                   then (case save_row (fv_now env) l defaults ms of
                           (Inl e, ms1) \<Rightarrow> (Inl e, ms1)
                         | (Inr r, ms1) \<Rightarrow> (Inr (NeedsTranscode (p @ [(''download_id'', PInt (dl_id r))])), ms1))
                   else (Inr (NeedsTranscode (p @ [(''download_lookup'', PDict (lookup_dict l)),
                                                  (''download_defaults'', PDict defaults)])), ms))
             else if kind = ''video'' \<and> delete_explicit_set payload
             then (case screen_deferred_video (fv_transcripts env) profile f l (stamped (fv_now env) defaults) payload ms of
                     (Inl e, ms1) \<Rightarrow> (Inl e, ms1)
                   | (Inr None, ms1) \<Rightarrow> (Inr NothingFetched, ms1)
                   | (Inr (Some r), ms1) \<Rightarrow> (Inr (SavedRow r), ms1))
             else (case save_row (fv_now env) l defaults ms of
                     (Inl e, ms1) \<Rightarrow> (Inl e, ms1)
                   | (Inr r, ms1) \<Rightarrow> (Inr (SavedRow r), ms1)))"

definition download_with_yt_dlp ::
    "fetch_env \<Rightarrow> job \<Rightarrow> pydict \<Rightarrow> media_store \<Rightarrow> (error + fetched) \<times> media_store" where
  "download_with_yt_dlp env j payload ms =
     (case download_request_from_payload (fv_lookup env) payload of
        None \<Rightarrow> (Inr NothingFetched, ms)
      | Some rq \<Rightarrow>
          (let menv = fv_media env; profile = job_profile_id j;
               base = download_output_root menv (ms_db ms) profile;
               dir = path_join base (path_of (sanitize_channel_name (rq_name rq))) in
           case make_dirs (ancestors dir) (ms_files ms) of
             Inl e \<Rightarrow> (Inl e, ms)
           | Inr fs \<Rightarrow>
               (let opts = yt_dlp_options env (ms_db ms) fs profile payload (rq_source rq) (yt_dlp_download_outtmpl dir);
                    run = fv_run env (rq_url rq) opts fs;
                    (j1, d1, hooked) = watch_events menv payload (rq_url rq) (yr_events run) (j, ms_db ms, []);
                    ms1 = with_files (\<lambda>_. yr_files run) (with_database (\<lambda>_. d1) ms) in
                case yr_outcome run of
                  YdlError kind message \<Rightarrow>
                    (if is_expected_download_error kind message then (Inr NothingFetched, ms1)
                     else (Inl (RuntimeError message), ms1))
                | YdlInfo v \<Rightarrow>
                    (let info = as_dict (py_or v (PDict []));
                         found = (if truthy v \<and> \<not> is_dict v then []
                                  else (\<lambda>xs. xs @ filter (\<lambda>p. p \<notin> set xs) hooked)
                                         (find_downloaded_files menv (yr_files run) info (yr_prepared run)))
                     in case found of
                          [] \<Rightarrow> (Inr NothingFetched, ms1)
                        | f # _ \<Rightarrow> store_fetched env j1 payload rq info base dir found f ms1))))"

section \<open>The job\<close>

definition on_world :: "(world \<Rightarrow> 'a \<times> world) \<Rightarrow> media_store \<Rightarrow> 'a \<times> media_store" where
  "on_world f ms = (case f (ms_world ms) of (x, w) \<Rightarrow> (x, ms\<lparr>ms_world := w\<rparr>))"

definition queue_child :: "time \<Rightarrow> string \<Rightarrow> string \<Rightarrow> pydict \<Rightarrow> string \<Rightarrow> media_store \<Rightarrow> error option \<times> media_store" where
  "queue_child now profile kind payload key ms =
     (case on_world (create_and_publish now profile kind (PDict payload) (Some key)) ms of
        (Inl e, ms1) \<Rightarrow> (Some e, ms1) | (Inr _, ms1) \<Rightarrow> (None, ms1))"

definition enqueue_transcode_job :: "fetch_env \<Rightarrow> string \<Rightarrow> pydict \<Rightarrow> media_store \<Rightarrow> error option \<times> media_store" where
  "enqueue_transcode_job env profile payload ms =
     queue_child (fv_now env) profile ''transcode_media'' payload
       (transcode_idempotency_key (fv_media env) profile payload) ms"

definition transcript_job_key :: "string \<Rightarrow> pyval \<Rightarrow> string" where
  "transcript_job_key profile n = ''generate_transcript:'' @ profile @ '':'' @ py_str n"

definition next_stage_payload :: "download \<Rightarrow> pydict \<Rightarrow> pyval \<Rightarrow> string \<Rightarrow> pydict" where
  "next_stage_payload r payload n kind =
     (''download_id'', n) # subtitle_options payload
     @ [(''source_type'', PStr (dl_source_type r)), (''media_type'', PStr kind), (''recent_download'', PBool True),
        (''delete_explicit_content'', PBool (delete_explicit_set payload))]"

definition ffmpeg_stage_payload :: "download \<Rightarrow> pydict \<Rightarrow> pyval \<Rightarrow> string \<Rightarrow> pydict" where
  "ffmpeg_stage_payload r payload n kind =
     [(''download_id'', n), (''media_type'', PStr kind)] @ subtitle_options payload
     @ [(''source_type'', PStr (dl_source_type r)), (''recent_download'', PBool True),
        (''delete_explicit_content'', PBool (delete_explicit_set payload))]"

definition after_download ::
    "fetch_env \<Rightarrow> string \<Rightarrow> pydict \<Rightarrow> pyval \<Rightarrow> media_store \<Rightarrow> error option \<times> media_store" where
  "after_download env profile payload n ms =
     (case find_by_id profile n (ms_db ms) of
        Inl e \<Rightarrow> (Some e, ms)
      | Inr None \<Rightarrow> (None, ms)
      | Inr (Some r) \<Rightarrow>
          (let rq = download_requires_ffmpeg (ms_db ms) r payload in
           if fr_required rq
           then enqueue_transcode_job env profile (ffmpeg_stage_payload r payload n (fr_kind rq)) ms
           else queue_child (fv_now env) profile ''generate_transcript''
                  (next_stage_payload r payload n (fr_kind rq)) (transcript_job_key profile n) ms))"

definition download_episode :: "fetch_env \<Rightarrow> job \<Rightarrow> media_store \<Rightarrow> error option \<times> media_store" where
  "download_episode env j ms =
     (let payload = as_dict (job_payload j); profile = job_profile_id j; n = dget payload ''download_id'' in
      if truthy n then after_download env profile payload n ms
      else (case download_with_yt_dlp env j payload ms of
          (Inl e, ms1) \<Rightarrow> (Some e, ms1)
        | (Inr NothingFetched, ms1) \<Rightarrow> (None, ms1)
        | (Inr (NeedsTranscode p), ms1) \<Rightarrow> enqueue_transcode_job env profile p ms1
        | (Inr (SavedRow r), ms1) \<Rightarrow> after_download env profile payload (PInt (dl_id r)) ms1))"

definition download_single :: "fetch_env \<Rightarrow> job \<Rightarrow> media_store \<Rightarrow> error option \<times> media_store" where
  "download_single env j ms = download_episode env j ms"

section \<open>Facts\<close>

lemma transcode_key_nonempty [simp]: "transcode_idempotency_key env profile payload \<noteq> []"
  by (simp add: transcode_idempotency_key_def Let_def)

lemma transcript_job_key_nonempty [simp]: "transcript_job_key profile n \<noteq> []"
  by (simp add: transcript_job_key_def)

lemma queue_child_published:
  assumes "key \<noteq> []"
  obtains k ms' where "queue_child now profile kind payload key ms = (None, ms')"
    and "job_published (ms_world ms') k" and "grows (ms_world ms) (ms_world ms')" and "ms_files ms' = ms_files ms"
    and "downloads (ms_db ms') = downloads (ms_db ms)" and "ms_text ms' = ms_text ms"
proof -
  obtain j w' where c: "create_and_publish now profile kind (PDict payload) (Some key) (ms_world ms) = (Inr j, w')"
    "job_published w' (job_id j)" "grows (ms_world ms) w'" "files w' = ms_files ms"
    "downloads (db w') = downloads (ms_db ms)" "next_download_id (db w') = next_download_id (ms_db ms)"
    by (rule create_and_publish_published [OF assms])
  show thesis
    by (rule that [of "ms\<lparr>ms_world := w'\<rparr>" "job_id j"]) (use c in \<open>simp_all add: queue_child_def on_world_def\<close>)
qed

lemma after_download_continues:
  assumes "find_by_id profile n (ms_db ms) = Inr (Some r)"
  obtains k ms' where "after_download env profile payload n ms = (None, ms')"
    and "job_published (ms_world ms') k" and "grows (ms_world ms) (ms_world ms')"
    and "ms_files ms' = ms_files ms" and "downloads (ms_db ms') = downloads (ms_db ms)"
proof (cases "fr_required (download_requires_ffmpeg (ms_db ms) r payload)")
  case True
  let ?p = "ffmpeg_stage_payload r payload n (fr_kind (download_requires_ffmpeg (ms_db ms) r payload))"
  obtain k ms' where "queue_child (fv_now env) profile ''transcode_media'' ?p
      (transcode_idempotency_key (fv_media env) profile ?p) ms = (None, ms')"
    "job_published (ms_world ms') k" "grows (ms_world ms) (ms_world ms')" "ms_files ms' = ms_files ms"
    "downloads (ms_db ms') = downloads (ms_db ms)" by (rule queue_child_published [OF transcode_key_nonempty])
  then show thesis using that assms True by (simp add: after_download_def enqueue_transcode_job_def Let_def)
next
  case False
  obtain k ms' where "queue_child (fv_now env) profile ''generate_transcript''
      (next_stage_payload r payload n (fr_kind (download_requires_ffmpeg (ms_db ms) r payload)))
      (transcript_job_key profile n) ms = (None, ms')"
    "job_published (ms_world ms') k" "grows (ms_world ms) (ms_world ms')" "ms_files ms' = ms_files ms"
    "downloads (ms_db ms') = downloads (ms_db ms)" by (rule queue_child_published [OF transcript_job_key_nonempty])
  then show thesis using that assms False by (simp add: after_download_def Let_def)
qed

section \<open>Properties\<close>

text \<open>The downloader skips exactly what the discovery skips: on the payload the episode check queues, its
  filter gives every entry the reason the source's own settings give it.\<close>

theorem filters_agree:
  "unwanted_entry (episode_payload env n s c) entry = youtube_source_skip_reason s entry"
  by (simp add: unwanted_entry_def youtube_source_skip_reason_def episode_payload_def dget_default_def)

lemma or_else_nonempty: "x \<noteq> [] \<Longrightarrow> or_else x y = x"
  by (simp add: or_else_def)

text \<open>What the episode check queues is what the download worker fetches: the request read from the queued
  payload has the candidate's media URL and the source's kind and name, and no name has to be looked up.\<close>

theorem queued_candidate_requested:
  assumes "source_config_type s = Some k" and "py_strip (src_name s) \<noteq> []"
    and "py_strip (or_else (cd_media_url c) (cd_url c)) \<noteq> []"
    and "k = YOUTUBE \<Longrightarrow> is_youtube_video_url (py_strip (or_else (cd_media_url c) (cd_url c)))"
  shows "download_request_from_payload lookup (episode_payload env n s c)
    = Some \<lparr>rq_url = py_strip (or_else (cd_media_url c) (cd_url c)), rq_source = k, rq_name = py_strip (src_name s)\<rparr>"
proof -
  have ne: "or_else (cd_media_url c) (cd_url c) \<noteq> []" using assms(3) by (auto simp: py_strip_def strip_chars_def rstrip_chars_def)
  have "py_or (py_or (dget (episode_payload env n s c) ''media_url'') (dget (episode_payload env n s c) ''item_url''))
      (dget (episode_payload env n s c) ''url'') = PStr (or_else (cd_media_url c) (cd_url c))"
    using ne by (simp add: episode_payload_def py_or_def)
  moreover have "parse_source_type (dget (episode_payload env n s c) ''source_type'') = Some k"
    using assms(1) by (simp add: episode_payload_def source_config_type_def)
  moreover have "dget (episode_payload env n s c) ''source_name'' = PStr (src_name s)"
    by (simp add: episode_payload_def)
  moreover have "\<not> (k = YOUTUBE \<and> \<not> is_youtube_video_url (py_strip (or_else (cd_media_url c) (cd_url c))))"
    using assms(4) by blast
  ultimately show ?thesis
    using assms(2,3) by (simp only: download_request_from_payload_def Let_def or_else_nonempty option.case
        str_or_empty_simps if_False simp_thms fetch_request.simps)
qed

theorem queued_candidate_requested_witness:
  "download_request_from_payload (\<lambda>_. Inl (OSError []))
     (episode_payload sample_discovery 5 news_source \<lparr>cd_uid = ''one'', cd_url = ''https://a.example/1.mp3'',
        cd_media_url = [], cd_title = ''One'', cd_published = []\<rparr>)
   = Some \<lparr>rq_url = ''https://a.example/1.mp3'', rq_source = PODCAST, rq_name = ''News''\<rparr>"
proof -
  let ?c = "\<lparr>cd_uid = ''one'', cd_url = ''https://a.example/1.mp3'', cd_media_url = [], cd_title = ''One'',
    cd_published = []\<rparr>"
  have "source_config_type news_source = Some PODCAST" "py_strip (src_name news_source) = ''News''"
    "py_strip (or_else (cd_media_url ?c) (cd_url ?c)) = ''https://a.example/1.mp3''" by code_simp+
  then show ?thesis using queued_candidate_requested [of news_source PODCAST ?c] by simp
qed


definition sample_fetch :: fetch_env where
  "sample_fetch = \<lparr>fv_transcripts = strict_transcripts, fv_lookup = (\<lambda>_. Inl (OSError [])),
     fv_run = (\<lambda>_ _ fs. \<lparr>yr_events = [], yr_outcome = YdlInfo PNone, yr_prepared = [], yr_files = fs\<rparr>),
     fv_expand = id, fv_executable = (\<lambda>_. False), fv_which = (\<lambda>_. None), fv_verbose = False\<rparr>"


text \<open>
  The name of a merged video is the stem up to its first \<open>.f\<close>, meant to cut the stream's number: a
  title that has these characters is cut there as well, and two episodes of a channel whose titles
  start alike get the same target file.
\<close>

theorem merged_targets_collide:
  "merged_target (path_of ''/d/News'') ''video'' (path_of ''/d/News/Vol.first part [aaaaaaaaaaa].f137.mp4'') ''mp4'' 2
   = merged_target (path_of ''/d/News'') ''video'' (path_of ''/d/News/Vol.final part [bbbbbbbbbbb].f137.mp4'') ''mp4'' 2"
  by code_simp

end
