(* ===== verification/TranscodeLock.thy ===== *)
theory TranscodeLock
  imports Media IsoTime
begin

text \<open>
  The lease that keeps two FFmpeg runs off one target (\<open>_transcode_execution_lock\<close> in
  \<open>src/src/workers/handlers.py\<close>): a row of the application settings holds the owner and the end of
  its lease as text, and every step reads and rewrites it in one transaction. A step is one
  transaction at one instant; the loop around the first sleeps a second between its attempts.
\<close>

section \<open>The row\<close>

definition lock_bar :: char where
  "lock_bar = CHR ''|''"

definition ensure_app_config_row :: "time \<Rightarrow> string \<Rightarrow> database \<Rightarrow> database" where
  "ensure_app_config_row now key d =
     (if exists_row (\<lambda>r. app_key r = key) (app_config d) then d
      else d\<lparr>app_config := app_config d @ [\<lparr>app_key = key, app_value = [], app_updated_at = now\<rparr>]\<rparr>)"

definition set_lock :: "time \<Rightarrow> string \<Rightarrow> string \<Rightarrow> database \<Rightarrow> database" where
  "set_lock now key v d =
     d\<lparr>app_config := update_where (\<lambda>r. app_key r = key)
         (\<lambda>r. r\<lparr>app_value := v, app_updated_at := now\<rparr>) (app_config d)\<rparr>"

definition lock_value :: "string \<Rightarrow> database \<Rightarrow> string" where
  "lock_value key d = text_of (app_value_of d key)"

definition lock_owner :: "string \<Rightarrow> database \<Rightarrow> string" where
  "lock_owner key d = fst (py_partition lock_bar (lock_value key d))"

definition lock_expiry :: "time \<Rightarrow> string \<Rightarrow> database \<Rightarrow> time" where
  "lock_expiry now key d =
     (let shown = snd (snd (py_partition lock_bar (lock_value key d))) in
      if shown = [] then now - seconds 1
      else case iso_parse shown of None \<Rightarrow> now - seconds 1 | Some t \<Rightarrow> t)"

definition lease_text :: "string \<Rightarrow> time \<Rightarrow> string" where
  "lease_text owner expiry = owner @ lock_bar # iso_format expiry"

section \<open>The steps\<close>

definition lock_try :: "time \<Rightarrow> time \<Rightarrow> string \<Rightarrow> string \<Rightarrow> database \<Rightarrow> bool \<times> database" where
  "lock_try lease now key owner d0 =
     (let d = ensure_app_config_row now key d0; current = lock_owner key d in
      if current = [] \<or> current = owner \<or> lock_expiry now key d \<le> now
      then (True, set_lock now key (lease_text owner (now + lease)) d) else (False, d))"

definition lock_renew :: "time \<Rightarrow> time \<Rightarrow> string \<Rightarrow> string \<Rightarrow> database \<Rightarrow> database" where
  "lock_renew lease now key owner d =
     (if lock_owner key d = owner then set_lock now key (lease_text owner (now + lease)) d else d)"

definition lock_release :: "time \<Rightarrow> string \<Rightarrow> string \<Rightarrow> database \<Rightarrow> database" where
  "lock_release now key owner d = (if lock_owner key d = owner then set_lock now key [] d else d)"

text \<open>
  The waiting loop over the instants of its attempts and what other workers do between them;
  without an attempt that succeeds it is still waiting.
\<close>

fun lock_wait ::
    "time \<Rightarrow> string \<Rightarrow> string \<Rightarrow> (time \<times> (database \<Rightarrow> database)) list \<Rightarrow> database \<Rightarrow> bool \<times> database" where
  "lock_wait lease key owner [] d = (False, d)"
| "lock_wait lease key owner ((now, others) # polls) d =
     (case lock_try lease now key owner d of
        (True, d1) \<Rightarrow> (True, d1)
      | (False, d1) \<Rightarrow> lock_wait lease key owner polls (others d1))"

section \<open>Interleavings\<close>

datatype lock_op = Try string | Renew string | Release string

fun lock_step :: "time \<Rightarrow> string \<Rightarrow> time \<times> lock_op \<Rightarrow> database \<Rightarrow> bool \<times> database" where
  "lock_step lease key (now, Try owner) d = lock_try lease now key owner d"
| "lock_step lease key (now, Renew owner) d = (True, lock_renew lease now key owner d)"
| "lock_step lease key (now, Release owner) d = (True, lock_release now key owner d)"

fun lock_run :: "time \<Rightarrow> string \<Rightarrow> (time \<times> lock_op) list \<Rightarrow> database \<Rightarrow> bool list \<times> database" where
  "lock_run lease key [] d = ([], d)"
| "lock_run lease key (oper # ops) d =
     (let (r, d1) = lock_step lease key oper d; (rs, d2) = lock_run lease key ops d1 in (r # rs, d2))"

definition holds_lock :: "string \<Rightarrow> string \<Rightarrow> time \<Rightarrow> database \<Rightarrow> bool" where
  "holds_lock key owner expiry d \<longleftrightarrow> app_value_of d key = Some (lease_text owner expiry)"

definition datable :: "time \<Rightarrow> bool" where
  "datable t \<longleftrightarrow> (let y = cv_year (civil_of_days (t div microseconds_per_day)) in 0 \<le> y \<and> y < 10000)"

text \<open>
  Steps during which an owner's lease never lapses: each comes before the end the lease has then,
  and the owner does not release it.
\<close>

fun lease_covers :: "time \<Rightarrow> string \<Rightarrow> time \<Rightarrow> (time \<times> lock_op) list \<Rightarrow> bool" where
  "lease_covers lease owner expiry [] = datable expiry"
| "lease_covers lease owner expiry ((now, oper) # ops) \<longleftrightarrow>
     datable expiry \<and> now < expiry \<and> oper \<noteq> Release owner
     \<and> lease_covers lease owner (if oper = Try owner \<or> oper = Renew owner then now + lease else expiry) ops"

fun foreign_try :: "string \<Rightarrow> time \<times> lock_op \<Rightarrow> bool" where
  "foreign_try owner (now, Try other) = (other \<noteq> owner)"
| "foreign_try owner (now, Renew other) = False"
| "foreign_try owner (now, Release other) = False"

section \<open>Facts\<close>

lemma partition_lease:
  assumes "lock_bar \<notin> set owner"
  shows "py_partition lock_bar (lease_text owner expiry) = (owner, [lock_bar], iso_format expiry)"
proof -
  have "takeWhile (\<lambda>x. x \<noteq> lock_bar) (owner @ lock_bar # s) = owner"
    "dropWhile (\<lambda>x. x \<noteq> lock_bar) (owner @ lock_bar # s) = lock_bar # s" for s
    using assms by (auto simp: takeWhile_append dropWhile_append)
  then show ?thesis by (simp add: py_partition_def lease_text_def)
qed

lemma holds_lock_reads:
  assumes "holds_lock key owner expiry d" and "lock_bar \<notin> set owner"
  shows "lock_owner key d = owner" and "datable expiry \<Longrightarrow> lock_expiry now key d = expiry"
proof -
  have v: "py_partition lock_bar (lock_value key d) = (owner, [lock_bar], iso_format expiry)"
    using assms partition_lease by (simp add: lock_value_def holds_lock_def)
  show "lock_owner key d = owner" by (simp add: lock_owner_def v)
  assume "datable expiry"
  then have "iso_parse (iso_format expiry) = Some expiry" by (simp add: datable_def Let_def iso_roundtrip)
  moreover have "iso_format expiry \<noteq> []" by (simp add: iso_format_def Let_def)
  ultimately show "lock_expiry now key d = expiry" by (simp add: lock_expiry_def v)
qed

lemma app_value_set_lock:
  "app_value_of (set_lock now key v d) k = (if k = key then map_option (\<lambda>_. v) (app_value_of d k) else app_value_of d k)"
  by (simp add: app_value_of_def set_lock_def row_at_update_key map_option.compositionality comp_def)

lemma ensure_app_config_row_value:
  "app_value_of (ensure_app_config_row now key d) k
    = (if k = key \<and> app_value_of d k = None then Some [] else app_value_of d k)"
  by (auto simp: app_value_of_def ensure_app_config_row_def row_at_append exists_row_at_key split: option.split)

lemma ensure_holds: "holds_lock key owner expiry d \<Longrightarrow> ensure_app_config_row now key d = d"
  by (auto simp: holds_lock_def ensure_app_config_row_def app_value_of_def exists_row_at_key)

lemma set_lock_holds:
  "app_value_of d key \<noteq> None \<Longrightarrow> holds_lock key owner expiry (set_lock now key (lease_text owner expiry) d)"
  by (auto simp: holds_lock_def app_value_set_lock)

lemma lock_step_covered:
  assumes "holds_lock key owner expiry d" and "lock_bar \<notin> set owner" and "owner \<noteq> []" and "datable expiry"
    and "now < expiry" and "oper \<noteq> Release owner"
  shows "holds_lock key owner (if oper = Try owner \<or> oper = Renew owner then now + lease else expiry)
        (snd (lock_step lease key (now, oper) d))
    \<and> (foreign_try owner (now, oper) \<longrightarrow> lock_step lease key (now, oper) d = (False, d))"
proof -
  note r = holds_lock_reads [OF assms(1,2)]
  have some: "app_value_of d key \<noteq> None" using assms(1) by (simp add: holds_lock_def)
  show ?thesis
    using assms(1,3,5,6) r(1) r(2) [OF assms(4)] some
    by (cases oper)
      (auto simp: lock_try_def lock_renew_def lock_release_def ensure_holds [OF assms(1)] Let_def intro: set_lock_holds)
qed

lemma lock_try_holds:
  assumes "lock_try lease now key owner d = (True, d1)"
  shows "holds_lock key owner (now + lease) d1"
proof -
  let ?d = "ensure_app_config_row now key d"
  have "d1 = set_lock now key (lease_text owner (now + lease)) ?d"
    using assms by (simp add: lock_try_def Let_def split: if_splits)
  moreover have "app_value_of ?d key \<noteq> None" by (simp add: ensure_app_config_row_value)
  ultimately show ?thesis using set_lock_holds by simp
qed

lemma lock_release_free:
  assumes "holds_lock key owner expiry d" and "lock_bar \<notin> set owner"
  shows "lock_owner key (lock_release now key owner d) = []"
  using holds_lock_reads(1) [OF assms] assms(1)
  by (simp add: lock_release_def lock_owner_def lock_value_def app_value_set_lock holds_lock_def py_partition_def)

lemma lock_owner_ensure: "lock_owner key (ensure_app_config_row now key d) = lock_owner key d"
  by (auto simp: lock_owner_def lock_value_def ensure_app_config_row_value)

section \<open>Properties\<close>

text \<open>C10: While a worker's lease runs, no other worker enters: however attempts, renewals and releases
  of all workers are interleaved, as long as each comes before the lease's end at that time and the
  owner does not release it, every attempt of another worker is refused, and the owner still holds
  the lock in the end.\<close>

theorem lock_excludes_others:
  assumes "holds_lock key owner expiry d" and "lock_bar \<notin> set owner" and "owner \<noteq> []"
    and "lease_covers lease owner expiry ops"
  shows "(\<forall>i < length ops. foreign_try owner (ops ! i) \<longrightarrow> \<not> fst (lock_run lease key ops d) ! i)
    \<and> (\<exists>e. holds_lock key owner e (snd (lock_run lease key ops d)))"
  using assms
proof (induction ops arbitrary: expiry d)
  case (Cons x ops)
  obtain now oper where x: "x = (now, oper)" by (cases x)
  let ?e = "if oper = Try owner \<or> oper = Renew owner then now + lease else expiry"
  have c: "datable expiry" "now < expiry" "oper \<noteq> Release owner" "lease_covers lease owner ?e ops"
    using Cons.prems(4) by (simp_all add: x)
  obtain r d1 where s: "lock_step lease key (now, oper) d = (r, d1)" by fastforce
  note one = lock_step_covered [OF Cons.prems(1-3) c(1-3), of lease, unfolded s]
  note ih = Cons.IH [OF _ Cons.prems(2,3) c(4)]
  show ?case
    using one ih [of d1] by (auto simp: x s less_Suc_eq_0_disj split: prod.split)
qed auto

theorem lock_excludes_others_witness:
  "fst (lock_run 300000000 ''k'' [(1, Try ''8''), (2, Renew ''7''), (3, Try ''9'')]
     (snd (lock_try 300000000 0 ''k'' ''7'' empty_database))) ! 2 = False"
proof -
  let ?ops = "[(1 :: time, Try ''8''), (2, Renew ''7''), (3, Try ''9'')]"
  obtain r d where t: "lock_try 300000000 0 ''k'' ''7'' empty_database = (r, d)" by fastforce
  have "fst (lock_try 300000000 0 ''k'' ''7'' empty_database)" by code_simp
  then have "holds_lock ''k'' ''7'' 300000000 d" using lock_try_holds [of 300000000 0 "''k''" "''7''"] t by simp
  moreover have "lock_bar \<notin> set ''7''" "''7'' \<noteq> []" by (simp_all add: lock_bar_def)
  moreover have "lease_covers 300000000 ''7'' 300000000 ?ops" by code_simp
  ultimately have "\<forall>i < length ?ops. foreign_try ''7'' (?ops ! i) \<longrightarrow> \<not> fst (lock_run 300000000 ''k'' ?ops d) ! i"
    using lock_excludes_others by blast
  then have "\<not> fst (lock_run 300000000 ''k'' ?ops d) ! 2" by (elim allE [of _ 2]) simp
  then show ?thesis by (simp add: t)
qed

text \<open>The lock is never lost for good: after a release, or once the lease has lapsed, the next
  attempt of any worker takes it. In the second case the former owner is not stopped: its renewals
  leave the new owner's lease alone and report nothing, so two conversions of one target run at the
  same time.\<close>

theorem lock_handover:
  assumes "holds_lock key owner expiry d" and "lock_bar \<notin> set owner" and "lock_bar \<notin> set other"
    and "datable expiry" and "other \<noteq> owner"
  shows "fst (lock_try lease now key other (lock_release t key owner d))
    \<and> (expiry \<le> now \<longrightarrow> (\<exists>d1. lock_try lease now key other d = (True, d1)
      \<and> holds_lock key other (now + lease) d1 \<and> lock_renew lease t key owner d1 = d1))"
proof (intro conjI impI)
  show "fst (lock_try lease now key other (lock_release t key owner d))"
    using lock_release_free [OF assms(1,2)] by (simp add: lock_try_def lock_owner_ensure Let_def)
  assume "expiry \<le> now"
  then obtain d1 where t: "lock_try lease now key other d = (True, d1)"
    using holds_lock_reads [OF assms(1,2)] assms(4) by (auto simp: lock_try_def ensure_holds [OF assms(1)] Let_def)
  note h = lock_try_holds [OF t]
  have "lock_renew lease t key owner d1 = d1"
    using holds_lock_reads(1) [OF h assms(3)] assms(5) by (simp add: lock_renew_def)
  then show "\<exists>d1. lock_try lease now key other d = (True, d1)
      \<and> holds_lock key other (now + lease) d1 \<and> lock_renew lease t key owner d1 = d1"
    using t h by blast
qed

theorem lock_handover_witness:
  "fst (lock_try 300000000 300000000 ''k'' ''8'' (snd (lock_try 300000000 0 ''k'' ''7'' empty_database)))"
proof -
  obtain r d where t: "lock_try 300000000 0 ''k'' ''7'' empty_database = (r, d)" by fastforce
  have "fst (lock_try 300000000 0 ''k'' ''7'' empty_database)" by code_simp
  then have "holds_lock ''k'' ''7'' 300000000 d" using lock_try_holds [of 300000000 0 "''k''" "''7''"] t by simp
  moreover have "lock_bar \<notin> set ''7''" "lock_bar \<notin> set ''8''" "''8'' \<noteq> ''7''" by (simp_all add: lock_bar_def)
  moreover have "datable 300000000" by code_simp
  ultimately have "\<exists>d1. lock_try 300000000 300000000 ''k'' ''8'' d = (True, d1)"
    using lock_handover [of "''k''" "''7''" 300000000 d "''8''" 300000000 300000000] by auto
  then show ?thesis by (auto simp: t)
qed

end
