(* ===== verification/Conversion.thy ===== *)
theory Conversion
  imports Fetching TranscodeLock
begin

text \<open>
  The FFmpeg worker (\<open>_postprocess_download_with_ffmpeg\<close> and \<open>transcode_media\<close> in
  \<open>src/src/workers/handlers.py\<close>): from a job's payload to the inputs and the target, the wait for the
  target's lock, the run of FFmpeg, the row that then names the new file, and the removal of the
  inputs. FFmpeg is an argument: given its command line and the files, it answers the error that
  \<open>subprocess.run\<close> raises, if any, and the files it left. What other workers do to the lock while this
  one waits, the instants of its attempts and those of its heartbeat are arguments too. \<open>None\<close> is a run that
  does not return.
\<close>

record convert_env =
  cv_transcripts :: transcript_env
  cv_ffmpeg :: "string list \<Rightarrow> file_system \<Rightarrow> error option \<times> file_system"
  cv_dir_size :: "string \<Rightarrow> int"
  cv_polls :: "(time \<times> (time \<times> lock_op) list) list"
  cv_beats :: "time list"

abbreviation cv_media :: "convert_env \<Rightarrow> media_env" where
  "cv_media env \<equiv> tr_media (cv_transcripts env)"

abbreviation cv_now :: "convert_env \<Rightarrow> time" where
  "cv_now env \<equiv> tr_now (cv_transcripts env)"

type_synonym 'a convert_result = "((error + 'a) \<times> media_store) option"

section \<open>Inputs and target\<close>

definition conversion_inputs :: "media_env \<Rightarrow> download option \<Rightarrow> pydict \<Rightarrow> path list" where
  "conversion_inputs env dl payload =
     (case dget payload ''source_file_paths'' of
        PList (v # vs) \<Rightarrow> map (\<lambda>x. md_absolute env (path_of (py_str x))) (v # vs)
      | _ \<Rightarrow> [md_absolute env (path_of (case dl of
                 None \<Rightarrow> py_str (dget payload ''source_file_path'')
               | Some r \<Rightarrow> py_str (opt_text (dl_file_path r))))])"

definition conversion_kind :: "database \<Rightarrow> download option \<Rightarrow> pydict \<Rightarrow> string" where
  "conversion_kind d dl payload =
     (case dl of
        Some r \<Rightarrow> preferred_media_kind d r payload
      | None \<Rightarrow> py_str (py_or (dget payload ''media_type'') (PStr ''video'')))"

definition conversion_ext :: "database \<Rightarrow> string \<Rightarrow> string \<Rightarrow> string" where
  "conversion_ext d profile kind = (if kind = ''audio'' then ''mp3'' else preferred_target_ext d profile kind)"

definition conversion_target ::
    "media_env \<Rightarrow> file_system \<Rightarrow> download option \<Rightarrow> pydict \<Rightarrow> path \<Rightarrow> string \<Rightarrow> (error + path) option" where
  "conversion_target env fs dl payload source ext =
     (let given = dget payload ''target_file_path''; p = path_of (py_str given);
          settle = (\<lambda>t. if dl = None then t else md_resolve env t) in
      if truthy given then Some (Inr (settle (if dl = None then md_absolute env p else md_resolve env p)))
      else map_option (map_sum id settle) (target_path fs source ext))"

definition missing_paths :: "file_system \<Rightarrow> path list \<Rightarrow> path list" where
  "missing_paths fs ps = filter (\<lambda>p. \<not> path_exists fs (path_str p)) ps"

fun fetch_inputs ::
    "fetch_settings \<Rightarrow> time \<Rightarrow> download \<Rightarrow> path list \<Rightarrow> media_store \<Rightarrow> (error + path list) \<times> media_store" where
  "fetch_inputs env now r [] ms = (Inr [], ms)"
| "fetch_inputs env now r (p # ps) ms =
     (case (if is_file (ms_files ms) (path_str p) then (Inr p, ms) else ensure_local_media env now r p ms) of
        (Inl e, ms1) \<Rightarrow> (Inl e, ms1)
      | (Inr q, ms1) \<Rightarrow> (case fetch_inputs env now r ps ms1 of
            (Inl e, ms2) \<Rightarrow> (Inl e, ms2) | (Inr qs, ms2) \<Rightarrow> (Inr (q # qs), ms2)))"

text \<open>The inputs, the target and what is still missing, once the missing inputs were fetched.\<close>

definition gather_inputs ::
    "convert_env \<Rightarrow> pydict \<Rightarrow> download option \<Rightarrow> path list \<Rightarrow> path \<Rightarrow> string \<Rightarrow> media_store \<Rightarrow>
     (path list \<times> path \<times> path list) convert_result" where
  "gather_inputs env payload dl sources target ext ms =
     (let missing = missing_paths (ms_files ms) sources in
      case dl of
        None \<Rightarrow> Some (Inr (sources, target, missing), ms)
      | Some r \<Rightarrow>
          if missing = [] then Some (Inr (sources, target, []), ms)
          else (case fetch_inputs (tr_fetch (cv_transcripts env)) (cv_now env) r sources ms of
              (Inl e, ms1) \<Rightarrow> Some (Inl e, ms1)
            | (Inr found, ms1) \<Rightarrow>
                (let absent = filter (\<lambda>p. \<not> is_file (ms_files ms1) (path_str p)) found in
                 if truthy (dget payload ''target_file_path'') then Some (Inr (found, target, absent), ms1)
                 else map_option (\<lambda>t. (map_sum id (\<lambda>t. (found, t, absent)) t, ms1))
                        (target_path (ms_files ms1) (hd found) ext))))"

section \<open>The command\<close>

definition conversion_command :: "database \<Rightarrow> string \<Rightarrow> string \<Rightarrow> string \<Rightarrow> path list \<Rightarrow> path \<Rightarrow> string list" where
  "conversion_command d profile kind ext sources target =
     (let threads = ffmpeg_thread_count d profile in
      [profile_setting d profile ''ffmpeg_path'' ''ffmpeg'', ''-y'', ''-filter_threads'', threads,
       ''-filter_complex_threads'', threads]
      @ concat (map (\<lambda>p. [''-threads'', threads, ''-i'', path_str p]) sources)
      @ (if kind = ''audio'' then ffmpeg_audio_args d profile ext
         else ffmpeg_video_args d profile ext (length sources))
      @ [path_str target])"

definition stat_size :: "convert_env \<Rightarrow> file_system \<Rightarrow> path \<Rightarrow> int" where
  "stat_size env fs p =
     (case fs (path_str p) of Some (RegularFile n) \<Rightarrow> n | _ \<Rightarrow> cv_dir_size env (path_str p))"

section \<open>The row\<close>

definition conversion_root :: "media_env \<Rightarrow> database \<Rightarrow> string \<Rightarrow> pydict \<Rightarrow> path" where
  "conversion_root env d profile payload =
     (let given = dget payload ''output_root'' in
      if truthy given then md_absolute env (path_of (py_str given))
      else md_absolute env (download_output_root env d profile))"

definition converted_defaults :: "convert_env \<Rightarrow> path \<Rightarrow> path \<Rightarrow> int \<Rightarrow> pydict \<Rightarrow> pydict" where
  "converted_defaults env base target bytes defaults =
     dict_update defaults [(''file_path'', PStr (path_str target)),
       (''file_path_relative'', opt_text (relative_text target base)),
       (''file_ext'', PStr (lstrip_dots (path_suffix target))), (''file_size_bytes'', PInt bytes),
       (''download_status'', PStr ''downloaded''), (''completed_at'', PStr (iso_format (cv_now env))),
       (''last_seen_at'', PStr (iso_format (cv_now env)))]"

definition converted_row :: "time \<Rightarrow> path \<Rightarrow> path \<Rightarrow> int \<Rightarrow> download \<Rightarrow> download" where
  "converted_row now base target bytes r =
     r\<lparr>dl_file_path := Some (path_str target), dl_file_path_relative := relative_text target base,
       dl_file_ext := Some (lstrip_dots (path_suffix target)), dl_file_size_bytes := Some bytes,
       dl_status := DOWNLOADED, dl_completed_at := Some now, dl_last_seen_at := now\<rparr>"

text \<open>\<open>save(update_fields=\<dots>)\<close> raises when its row is gone.\<close>

definition save_converted ::
    "convert_env \<Rightarrow> path \<Rightarrow> path \<Rightarrow> int \<Rightarrow> pydict \<Rightarrow> download option \<Rightarrow> database \<Rightarrow> error + download \<times> database" where
  "save_converted env base target bytes payload dl d =
     (case dl of
        None \<Rightarrow>
          bind_result (read_lookup (as_dict (dget payload ''download_lookup''))) (\<lambda>l.
            upsert_download (cv_now env) l
              (converted_defaults env base target bytes (as_dict (dget payload ''download_defaults''))) d)
      | Some r \<Rightarrow>
          if exists_row (\<lambda>x. dl_id x = dl_id r) (downloads d)
          then Inr (converted_row (cv_now env) base target bytes r,
                    update_download (dl_id r) (converted_row (cv_now env) base target bytes) d)
          else Inl (DatabaseError ''Save with update_fields did not affect any rows.''))"

definition screening_payload ::
    "convert_env \<Rightarrow> path \<Rightarrow> path list \<Rightarrow> path \<Rightarrow> int \<Rightarrow> string \<Rightarrow> pydict \<Rightarrow> pydict" where
  "screening_payload env base sources target bytes kind payload =
     (let l = as_dict (dget payload ''download_lookup'') in
      [(''deferred_download_lookup'', PDict l),
       (''deferred_download_defaults'',
          PDict (converted_defaults env base target bytes (as_dict (dget payload ''download_defaults'')))),
       (''deferred_media_path'', PStr (path_str target)),
       (''ffmpeg_source_file_paths'', PList (map (\<lambda>p. PStr (path_str p)) sources))]
      @ subtitle_options payload
      @ [(''source_type'', dget l ''source_type''), (''media_type'', PStr kind), (''recent_download'', PBool True),
         (''delete_explicit_content'', PBool True)])"

definition screening_key :: "string \<Rightarrow> pydict \<Rightarrow> string" where
  "screening_key profile l =
     ''generate_transcript:'' @ profile @ '':deferred:'' @ py_str (dget l ''source_type'') @ '':''
       @ py_str (dget l ''source_name'') @ '':'' @ py_str (dget l ''item_uid'')"

section \<open>The conversion\<close>

definition finish_conversion ::
    "convert_env \<Rightarrow> string \<Rightarrow> pydict \<Rightarrow> download option \<Rightarrow> path list \<Rightarrow> path \<Rightarrow> string \<Rightarrow> media_store \<Rightarrow>
     (error + download option) \<times> media_store" where
  "finish_conversion env profile payload dl sources target kind ms =
     (let bytes = stat_size env (ms_files ms) target;
          base = conversion_root (cv_media env) (ms_db ms) profile payload in
      if dl = None \<and> kind = ''video'' \<and> delete_explicit_set payload
      then (case queue_child (cv_now env) profile ''generate_transcript''
                   (screening_payload env base sources target bytes kind payload)
                   (screening_key profile (as_dict (dget payload ''download_lookup''))) ms of
              (Some e, ms1) \<Rightarrow> (Inl e, ms1) | (None, ms1) \<Rightarrow> (Inr None, ms1))
      else (case save_converted env base target bytes payload dl (ms_db ms) of
              Inl e \<Rightarrow> (Inl e, ms)
            | Inr (r, d) \<Rightarrow>
                (Inr (Some r), with_files (\<lambda>fs. snd (delete_ffmpeg_source_files (cv_media env) sources target fs))
                   (with_database (\<lambda>_. d) ms))))"

definition run_conversion ::
    "convert_env \<Rightarrow> string \<Rightarrow> pydict \<Rightarrow> download option \<Rightarrow> path list \<Rightarrow> path \<Rightarrow> string \<Rightarrow> string \<Rightarrow> media_store \<Rightarrow>
     (error + download option) \<times> media_store" where
  "run_conversion env profile payload dl sources target kind ext ms =
     (case cv_ffmpeg env (conversion_command (ms_db ms) profile kind ext sources target) (ms_files ms) of
        (Some e, fs) \<Rightarrow> (Inl e, with_files (\<lambda>_. fs) ms)
      | (None, fs) \<Rightarrow>
          (let ms1 = with_files (\<lambda>_. fs) ms in
           if \<not> path_exists fs (path_str target)
           then (Inl (FileNotFound (''FFmpeg output file was not created: '' @ path_str target)), ms1)
           else finish_conversion env profile payload dl sources target kind ms1))"

text \<open>The row, read again under the lock, already names the target and the target is there.\<close>

definition already_current ::
    "convert_env \<Rightarrow> string \<Rightarrow> pydict \<Rightarrow> path \<Rightarrow> media_store \<Rightarrow> error + download option" where
  "already_current env profile payload target ms =
     (let n = dget payload ''download_id'' in
      if \<not> truthy n then Inr None
      else bind_result (find_by_id profile n (ms_db ms)) (\<lambda>found. Inr (case found of
          None \<Rightarrow> None
        | Some r \<Rightarrow> if md_resolve (cv_media env) (path_of (text_of (dl_file_path r))) = target
                        \<and> path_exists (ms_files ms) (path_str target) then Some r else None)))"

definition convert_locked ::
    "convert_env \<Rightarrow> string \<Rightarrow> pydict \<Rightarrow> download option \<Rightarrow> path list \<Rightarrow> path \<Rightarrow> string \<Rightarrow> string \<Rightarrow> media_store \<Rightarrow>
     download option convert_result" where
  "convert_locked env profile payload dl sources target kind ext ms =
     (case already_current env profile payload target ms of
        Inl e \<Rightarrow> Some (Inl e, ms)
      | Inr (Some r) \<Rightarrow> Some (Inr (Some r), ms)
      | Inr None \<Rightarrow>
          if missing_paths (ms_files ms) sources \<noteq> [] \<and> path_exists (ms_files ms) (path_str target) \<and> dl \<noteq> None
          then Some (Inr dl, ms)
          else (case gather_inputs env payload dl sources target ext ms of
              None \<Rightarrow> None
            | Some (Inl e, ms1) \<Rightarrow> Some (Inl e, ms1)
            | Some (Inr (found, t, p # ps), ms1) \<Rightarrow>
                Some (Inl (FileNotFound (''Downloaded file is missing: '' @ path_str p)), ms1)
            | Some (Inr (found, t, []), ms1) \<Rightarrow> Some (run_conversion env profile payload dl found t kind ext ms1)))"

definition transcode_lease :: time where
  "transcode_lease = seconds 300"

definition lock_polls ::
    "convert_env \<Rightarrow> string \<Rightarrow> (time \<times> (database \<Rightarrow> database)) list" where
  "lock_polls env key =
     map (\<lambda>(t, moves). (t, \<lambda>d. snd (lock_run transcode_lease key moves d))) (cv_polls env)"

definition with_transcode_lock ::
    "convert_env \<Rightarrow> string \<Rightarrow> pydict \<Rightarrow> string \<Rightarrow> (media_store \<Rightarrow> 'a convert_result) \<Rightarrow> media_store \<Rightarrow>
     'a convert_result" where
  "with_transcode_lock env profile payload owner body ms =
     (let key = transcode_lock_key (cv_media env) profile payload in
      case lock_wait transcode_lease key owner (lock_polls env key) (ms_db ms) of
        (False, d) \<Rightarrow> None
      | (True, d) \<Rightarrow>
          map_option (\<lambda>(r, ms1). (r, with_database (\<lambda>d1. lock_release (cv_now env) key owner
              (fold (\<lambda>t. lock_renew transcode_lease t key owner) (cv_beats env) d1)) ms1))
            (body (with_database (\<lambda>_. d) ms)))"

definition postprocess_download_with_ffmpeg ::
    "convert_env \<Rightarrow> string \<Rightarrow> pydict \<Rightarrow> string \<Rightarrow> media_store \<Rightarrow> download option convert_result" where
  "postprocess_download_with_ffmpeg env profile payload owner ms =
     (let n = dget payload ''download_id'' in
      case (if truthy n then find_by_id profile n (ms_db ms) else Inr None) of
        Inl e \<Rightarrow> Some (Inl e, ms)
      | Inr dl \<Rightarrow>
          if dl = None \<and> \<not> (as_dict (dget payload ''download_lookup'') \<noteq> []
              \<and> as_dict (dget payload ''download_defaults'') \<noteq> [] \<and> truthy (dget payload ''source_file_path''))
          then Some (Inr None, ms)
          else (let sources = conversion_inputs (cv_media env) dl payload;
                    kind = conversion_kind (ms_db ms) dl payload; ext = conversion_ext (ms_db ms) profile kind in
                case conversion_target (cv_media env) (ms_files ms) dl payload (hd sources) ext of
                  None \<Rightarrow> None
                | Some (Inl e) \<Rightarrow> Some (Inl e, ms)
                | Some (Inr target) \<Rightarrow>
                    with_transcode_lock env profile payload owner
                      (convert_locked env profile payload dl sources target kind ext) ms))"

definition transcode_media :: "convert_env \<Rightarrow> job \<Rightarrow> media_store \<Rightarrow> (error option \<times> media_store) option" where
  "transcode_media env j ms =
     (let payload = as_dict (job_payload j); profile = job_profile_id j;
          ms1 = touch_job (cv_now env) ''ffmpeg_conversion'' [] j ms in
      map_option (\<lambda>res. case res of
          (Inl e, ms2) \<Rightarrow> (Some e, ms2)
        | (Inr None, ms2) \<Rightarrow> (None, ms2)
        | (Inr (Some r), ms2) \<Rightarrow>
            (let kind = py_lower (py_strip (py_str (py_or (dget payload ''media_type'')
                          (PStr (preferred_media_kind (ms_db ms2) r payload))))) in
             queue_child (cv_now env) profile ''generate_transcript''
               (next_stage_payload r payload (PInt (dl_id r)) kind)
               (transcript_job_key profile (PInt (dl_id r))) ms2))
        (postprocess_download_with_ffmpeg env profile payload (str_of_int (job_id j)) ms1))"

section \<open>Facts\<close>

text \<open>FFmpeg writes its last argument and no other file, as it is called here.\<close>

definition writes_only_output :: "(string list \<Rightarrow> file_system \<Rightarrow> error option \<times> file_system) \<Rightarrow> bool" where
  "writes_only_output run \<longleftrightarrow> (\<forall>cmd fs q. q \<noteq> last cmd \<longrightarrow> snd (run cmd fs) q = fs q)"

text \<open>A path with the text of a resolved path resolves to it.\<close>

definition resolves_once :: "media_env \<Rightarrow> bool" where
  "resolves_once env \<longleftrightarrow>
     (\<forall>p q. path_str q = path_str (md_resolve env p) \<longrightarrow> md_resolve env q = md_resolve env p)"

definition keeps_regular :: "string set \<Rightarrow> file_system \<Rightarrow> file_system \<Rightarrow> bool" where
  "keeps_regular except fs fs' \<longleftrightarrow> (\<forall>q. is_file fs q \<and> q \<notin> except \<longrightarrow> fs' q = fs q)"

lemma keeps_regular_refl [simp]: "keeps_regular X fs fs"
  by (simp add: keeps_regular_def)

lemma keeps_regular_trans:
  "keeps_regular X a b \<Longrightarrow> keeps_regular X b c \<Longrightarrow> keeps_regular X a c"
  by (simp add: keeps_regular_def is_file_def)

lemma keeps_regular_mono: "keeps_regular X a b \<Longrightarrow> X \<subseteq> Y \<Longrightarrow> keeps_regular Y a b"
  by (auto simp: keeps_regular_def)

lemma make_dirs_regular: "make_dirs ps fs = Inr fs' \<Longrightarrow> keeps_regular {} fs fs'"
  using make_dirs_keeps [of ps fs fs'] by (auto simp: keeps_regular_def is_file_def split: option.splits)

lemma keeps_regular_write:
  "keeps_regular {} fs fs' \<Longrightarrow> \<not> is_file fs q \<Longrightarrow> keeps_regular {} fs (fs'(q \<mapsto> v))"
  by (auto simp: keeps_regular_def)

lemma download_from_api_files:
  assumes "download_from_api env now r dest ms = (res, ms')"
  obtains "ms_files ms' = ms_files ms"
  | fs where "make_dirs (ancestors (path_parent dest)) (ms_files ms) = Inr fs" and "ms_files ms' = fs"
  | fs n where "make_dirs (ancestors (path_parent dest)) (ms_files ms) = Inr fs"
      and "ms_files ms' = fs(path_str dest \<mapsto> RegularFile n)"
proof (cases "py_strip (fs_token env) = []")
  case True
  then show thesis using assms that(1) by (simp add: download_from_api_def)
next
  case False
  show thesis
  proof (cases "make_dirs (ancestors (path_parent dest)) (ms_files ms)")
    case (Inl e)
    then show thesis using assms that(1) False by (simp add: download_from_api_def)
  next
    case (Inr fs)
    then have "ms_files ms' = fs \<or> (\<exists>n. ms_files ms' = fs(path_str dest \<mapsto> RegularFile n))"
      using assms False Inr by (auto simp: download_from_api_def Let_def fun_upd_def cong: if_cong split: sum.splits if_splits)
    then show thesis using that(2,3) Inr by blast
  qed
qed

lemma ensure_local_media_files:
  assumes "ensure_local_media env now r p ms = (res, ms')"
  shows "keeps_regular {} (ms_files ms) (ms_files ms') \<and> (finite (dom (ms_files ms)) \<longrightarrow> finite (dom (ms_files ms')))"
proof (cases "is_file (ms_files ms) (path_str (fs_expand env p)) \<or> is_file (ms_files ms) (path_str (cache_path env r))")
  case True
  then have "ms' = ms" using assms by (auto simp: ensure_local_media_def Let_def split: if_splits)
  then show ?thesis by simp
next
  case False
  let ?dest = "cache_path env r"
  have "download_from_api env now r ?dest ms = (res, ms')"
    using assms False by (simp add: ensure_local_media_def Let_def)
  then show ?thesis
  proof (cases rule: download_from_api_files)
    case (2 fs)
    then show ?thesis using make_dirs_keeps [OF 2(1)] make_dirs_regular [OF 2(1)] by simp
  next
    case (3 fs n)
    then show ?thesis using make_dirs_keeps [OF 3(1)] keeps_regular_write [OF make_dirs_regular [OF 3(1)]] False by simp
  qed simp
qed

lemma fetch_inputs_frame:
  assumes "fetch_inputs env now r ps ms = (res, ms')"
  shows "ms_db ms' = ms_db ms \<and> keeps_regular {} (ms_files ms) (ms_files ms')
    \<and> (finite (dom (ms_files ms)) \<longrightarrow> finite (dom (ms_files ms')))
    \<and> (\<forall>qs. res = Inr qs \<longrightarrow> length qs = length ps)"
  using assms
proof (induction ps arbitrary: ms res ms')
  case (Cons p ps)
  obtain one ms1 where one: "(if is_file (ms_files ms) (path_str p) then (Inr p, ms) else ensure_local_media env now r p ms)
      = (one, ms1)" by fastforce
  have f: "ms_db ms1 = ms_db ms" "keeps_regular {} (ms_files ms) (ms_files ms1)"
    "finite (dom (ms_files ms)) \<Longrightarrow> finite (dom (ms_files ms1))"
    using one ensure_local_media_files ensure_local_media_db(1) by (auto split: if_splits)
  show ?case
  proof (cases one)
    case (Inl e)
    then show ?thesis using Cons.prems one f by auto
  next
    case (Inr q)
    obtain rest ms2 where rest: "fetch_inputs env now r ps ms1 = (rest, ms2)" by fastforce
    note ih = Cons.IH [OF rest]
    have "ms' = ms2" "\<And>qs. res = Inr qs \<Longrightarrow> length qs = Suc (length ps)"
      using Cons.prems one Inr rest ih by (auto split: sum.splits)
    then show ?thesis using ih f keeps_regular_trans [OF f(2)] by auto
  qed
qed simp

lemma gather_inputs_frame:
  assumes "gather_inputs env payload dl sources target ext ms = Some (res, ms')"
  shows "ms_db ms' = ms_db ms \<and> keeps_regular {} (ms_files ms) (ms_files ms')"
  using assms fetch_inputs_frame
  by (fastforce simp: gather_inputs_def Let_def split: option.splits if_splits prod.splits sum.splits)

lemma free_target_free:
  assumes "free_target fs source ext k = Some p"
  shows "fs (path_str p) = None"
proof (rule free_target.raw_induct [of "\<lambda>fs source ext k p. fs (path_str p) = None", OF _ assms])
  fix rec :: "file_system \<Rightarrow> path \<Rightarrow> string \<Rightarrow> nat \<Rightarrow> path option" and fs source ext k p
  assume "\<And>fs source ext k p. rec fs source ext k = Some p \<Longrightarrow> fs (path_str p) = None"
    and "(let p = with_name source (converted_name source ext k) in
        if path_exists fs (path_str p) \<and> p \<noteq> source then rec fs source ext (Suc k) else Some p) = Some p"
  then show "fs (path_str p) = None"
    using converted_path_other by (auto simp: Let_def path_exists_def split: if_splits)
qed

lemma target_path_new: "target_path fs source ext = Some (Inr t) \<Longrightarrow> fs (path_str t) = None"
  by (auto simp: target_path_def Let_def dest!: free_target_free split: sum.splits)

lemma map_sum_Inr: "map_sum f g z = Inr y \<longleftrightarrow> (\<exists>x. z = Inr x \<and> y = g x)"
  by (cases z) auto

lemma gather_inputs_target:
  assumes "gather_inputs env payload dl sources target ext ms = Some (Inr (found, t, absent), ms')"
  shows "t = target \<or> \<not> is_file (ms_files ms') (path_str t)"
proof (cases "t = target")
  case False
  then obtain found' where "target_path (ms_files ms') (hd found') ext = Some (Inr t)"
    using assms
    by (auto simp: gather_inputs_def Let_def map_sum_Inr split: option.splits if_splits prod.splits sum.splits)
  then have "ms_files ms' (path_str t) = None" by (rule target_path_new)
  then show ?thesis by (simp add: is_file_def)
qed simp

lemma delete_sources_target:
  assumes "resolves_once env" and "path_exists fs (path_str t)"
  shows "path_exists (snd (delete_ffmpeg_source_files env ss t fs)) (path_str t)"
proof (rule ccontr)
  obtain ds fs' where run: "delete_ffmpeg_source_files env ss t fs = (ds, fs')" by fastforce
  assume "\<not> ?thesis"
  then have "fs' (path_str t) \<noteq> fs (path_str t)" using run assms(2) by (auto simp: path_exists_def)
  then obtain s where s: "path_str t = path_str (md_resolve env s)" "md_resolve env s \<noteq> md_resolve env t"
    using delete_sources_confined [OF run] by blast
  then show False using assms(1) unfolding resolves_once_def by metis
qed

lemma apply_defaults_file:
  "apply_defaults kvs r = Inr r' \<Longrightarrow> distinct (map fst kvs) \<Longrightarrow> map_of kvs ''file_path'' = Some (PStr p) \<Longrightarrow>
   dl_file_path r' = Some p"
proof (induction kvs r rule: apply_defaults.induct)
  case (2 k v kvs r)
  obtain r1 where r1: "set_download_field k v r = Inr r1" "apply_defaults kvs r1 = Inr r'"
    using "2.prems"(1) by (auto simp: bind_result_Inr)
  show ?case
  proof (cases "k = ''file_path''")
    case True
    then have "dl_file_path r1 = Some p"
      using r1(1) "2.prems"(3) by (auto simp: set_download_field_def text_field_def)
    then show ?thesis using apply_defaults_other(2) [OF r1(2)] "2.prems"(2) True by auto
  next
    case False
    then show ?thesis using "2.IH" [OF r1(2)] "2.prems" by auto
  qed
qed simp

definition row_names_file :: "media_store \<Rightarrow> download \<Rightarrow> path \<Rightarrow> bool" where
  "row_names_file ms r t \<longleftrightarrow> path_exists (ms_files ms) (path_str t)
     \<and> list_ex (\<lambda>x. dl_id x = dl_id r \<and> dl_file_path x = Some (path_str t) \<and> dl_status x = DOWNLOADED)
         (downloads (ms_db ms))"

lemma save_converted_row:
  assumes "save_converted env base target bytes payload dl d = Inr (r, d')"
    and "distinct (map fst (as_dict (dget payload ''download_defaults'')))"
  shows "\<exists>x \<in> set (downloads d'). dl_id x = dl_id r \<and> dl_file_path x = Some (path_str target) \<and> dl_status x = DOWNLOADED"
proof (cases dl)
  case None
  let ?defs = "converted_defaults env base target bytes (as_dict (dget payload ''download_defaults''))"
  obtain l where "upsert_download (cv_now env) l ?defs d = Inr (r, d')"
    using assms(1) None by (auto simp: save_converted_def bind_result_Inr)
  note rows = upsert_download_rows [OF this]
  have dist: "distinct (map fst ?defs)"
    unfolding converted_defaults_def using assms(2) by (rule distinct_dict_update)
  have "map_of ?defs ''download_status'' = Some (PStr (download_status_value DOWNLOADED))"
    "map_of ?defs ''file_path'' = Some (PStr (path_str target))"
    by (simp_all add: converted_defaults_def map_of_dict_update)
  then show ?thesis
    using rows apply_defaults_status [OF _ dist] apply_defaults_file [OF _ dist] by blast
next
  case (Some r0)
  then obtain x where x: "x \<in> set (downloads d)" "dl_id x = dl_id r0"
    using assms(1) by (auto simp: save_converted_def exists_row_def list_ex_iff split: if_splits)
  have "r = converted_row (cv_now env) base target bytes r0"
    "downloads d' = update_where (\<lambda>y. dl_id y = dl_id r0) (converted_row (cv_now env) base target bytes) (downloads d)"
    using assms(1) Some by (auto simp: save_converted_def split: if_splits)
  then have "converted_row (cv_now env) base target bytes x \<in> set (downloads d')" "dl_id r = dl_id r0"
    using x by (auto simp: set_update_where converted_row_def)
  then show ?thesis using x by (intro bexI) (auto simp: converted_row_def)
qed

lemma queue_child_files:
  assumes "queue_child now profile kind payload key ms = (err, ms')" and "key \<noteq> []"
  shows "err = None \<and> ms_files ms' = ms_files ms"
  using queue_child_published [OF assms(2), of now profile kind payload ms] assms(1) by auto

lemma finish_conversion_files:
  assumes "finish_conversion env profile payload dl sources target kind ms = (res, ms')"
    and "resolves_once (cv_media env)" and "path_exists (ms_files ms) (path_str target)"
    and "distinct (map fst (as_dict (dget payload ''download_defaults'')))"
  shows "ms_files ms' = ms_files ms \<or> (\<exists>r. res = Inr (Some r) \<and> row_names_file ms' r target)"
proof (cases "dl = None \<and> kind = ''video'' \<and> delete_explicit_set payload")
  case True
  have "screening_key profile (as_dict (dget payload ''download_lookup'')) \<noteq> []" by (simp add: screening_key_def)
  then show ?thesis
    using assms(1) True queue_child_files by (fastforce simp: finish_conversion_def Let_def split: prod.splits option.splits)
next
  case False
  let ?save = "save_converted env (conversion_root (cv_media env) (ms_db ms) profile payload) target
      (stat_size env (ms_files ms) target) payload dl (ms_db ms)"
  show ?thesis
  proof (cases ?save)
    case (Inl e)
    then show ?thesis using assms(1) False by (auto simp: finish_conversion_def Let_def)
  next
    case (Inr x)
    obtain r d where x: "x = (r, d)" by (cases x)
    have "res = Inr (Some r)" "ms_db ms' = d"
      "ms_files ms' = snd (delete_ffmpeg_source_files (cv_media env) sources target (ms_files ms))"
      using assms(1) False Inr x by (auto simp: finish_conversion_def Let_def)
    then show ?thesis
      using save_converted_row [OF Inr [unfolded x] assms(4)] delete_sources_target [OF assms(2,3)]
      by (auto simp: row_names_file_def list_ex_iff)
  qed
qed

lemma conversion_command_last [simp]: "last (conversion_command d profile kind ext sources target) = path_str target"
  by (simp add: conversion_command_def Let_def)

lemma run_conversion_files:
  assumes "run_conversion env profile payload dl sources target kind ext ms = (res, ms')"
    and "writes_only_output (cv_ffmpeg env)" and "resolves_once (cv_media env)"
    and "distinct (map fst (as_dict (dget payload ''download_defaults'')))"
    and "q \<noteq> path_str target" and "ms_files ms' q \<noteq> ms_files ms q"
  shows "\<exists>r. res = Inr (Some r) \<and> row_names_file ms' r target"
proof -
  obtain err fs where f: "cv_ffmpeg env (conversion_command (ms_db ms) profile kind ext sources target) (ms_files ms)
      = (err, fs)" by fastforce
  have same: "fs q = ms_files ms q"
    using assms(2,5) f unfolding writes_only_output_def by (metis conversion_command_last snd_conv)
  then have "err = None" "path_exists fs (path_str target)"
    "finish_conversion env profile payload dl sources target kind (with_files (\<lambda>_. fs) ms) = (res, ms')"
    using assms(1,6) f by (auto simp: run_conversion_def Let_def split: option.splits if_splits)
  then show ?thesis using finish_conversion_files [OF _ assms(3) _ assms(4)] assms(6) same by fastforce
qed

lemma target_path_total:
  assumes "finite (dom fs)"
  shows "target_path fs source ext \<noteq> None"
proof -
  let ?e = "or_else (lstrip_dots (py_lower ext)) (lstrip_dots (path_suffix source))"
  let ?p = "\<lambda>k. path_str (with_name source (converted_name source ?e k))"
  have "inj ?p"
    using converted_name_inject path_str_snoc_inject by (intro injI) (metis with_name_def)
  then obtain k where "fs (?p k) = None" "\<forall>j < k. fs (?p j) \<noteq> None"
    using assms by (rule first_free)
  then have "free_target fs source ?e 0 \<noteq> None" using free_target_from [of fs source ?e k 0] by simp
  then show ?thesis by (auto simp: target_path_def Let_def split: sum.split)
qed

lemma convert_locked_total:
  assumes "finite (dom (ms_files ms))"
  shows "convert_locked env profile payload dl sources target kind ext ms \<noteq> None"
proof -
  have "gather_inputs env payload dl sources target ext ms \<noteq> None"
    using assms fetch_inputs_frame target_path_total
    by (fastforce simp: gather_inputs_def Let_def split: option.splits prod.splits sum.splits)
  then show ?thesis by (auto simp: convert_locked_def split: sum.split option.split list.split)
qed

lemma lock_wait_free:
  assumes "polls = (now, others) # rest" and "lock_owner key d = []"
  shows "\<exists>d1. lock_wait lease key owner polls d = (True, d1)"
  using assms by (simp add: lock_try_def lock_owner_ensure Let_def)

lemma postprocess_total:
  assumes "finite (dom (ms_files ms))" and "cv_polls env \<noteq> []"
    and "lock_owner (transcode_lock_key (cv_media env) profile payload) (ms_db ms) = []"
  shows "postprocess_download_with_ffmpeg env profile payload owner ms \<noteq> None"
proof -
  let ?key = "transcode_lock_key (cv_media env) profile payload"
  obtain now moves rest where "cv_polls env = (now, moves) # rest"
    using assms(2) by (metis list.exhaust surj_pair)
  then have "lock_polls env ?key = (now, \<lambda>d. snd (lock_run transcode_lease ?key moves d))
      # map (\<lambda>(t, moves). (t, \<lambda>d. snd (lock_run transcode_lease ?key moves d))) rest" by (simp add: lock_polls_def)
  from lock_wait_free [OF this assms(3)]
  obtain d1 where "lock_wait transcode_lease ?key owner (lock_polls env ?key) (ms_db ms) = (True, d1)" by blast
  then have lock: "with_transcode_lock env profile payload owner body ms \<noteq> None"
    if "\<And>m. ms_files m = ms_files ms \<Longrightarrow> body m \<noteq> None" for body :: "media_store \<Rightarrow> 'a convert_result"
    using that [of "with_database (\<lambda>_. d1) ms"] by (auto simp: with_transcode_lock_def Let_def)
  have locked: "with_transcode_lock env profile payload owner
      (convert_locked env profile payload dl sources target kind ext) ms \<noteq> None" for dl sources target kind ext
    by (rule lock) (simp add: convert_locked_total assms(1))
  have target: "conversion_target (cv_media env) (ms_files ms) dl payload source ext \<noteq> None" for dl source ext
    using target_path_total [OF assms(1)] by (auto simp: conversion_target_def Let_def)
  show ?thesis
    using locked target
    by (auto simp: postprocess_download_with_ffmpeg_def Let_def simp del: not_None_eq split: sum.split option.split)
qed

lemma lock_owner_touch: "lock_owner key (ms_db (touch_job now label title j ms)) = lock_owner key (ms_db ms)"
  by (simp add: lock_owner_def lock_value_def app_value_of_def touch_job_def touch_active_job_def update_job_def Let_def)

section \<open>Properties\<close>

text \<open>C5: A conversion never loses media: a file that was there and is changed or gone afterwards is either
  the target FFmpeg was told to overwrite, or the conversion succeeded and the episode's row is
  saved, is marked downloaded and names a file that exists. Whatever fails, FFmpeg, a missing output,
  a missing input or the database, no file is touched besides the target.\<close>

theorem conversion_keeps_media:
  assumes "convert_locked env profile payload dl sources target kind ext ms = Some (res, ms')"
    and "writes_only_output (cv_ffmpeg env)" and "resolves_once (cv_media env)"
    and "distinct (map fst (as_dict (dget payload ''download_defaults'')))"
    and "is_file (ms_files ms) q" and "ms_files ms' q \<noteq> ms_files ms q"
  shows "q = path_str target \<or> (\<exists>r t. res = Inr (Some r) \<and> row_names_file ms' r t)"
proof -
  obtain g ms1 where g: "gather_inputs env payload dl sources target ext ms = Some (g, ms1)"
    using assms(1,6) by (auto simp: convert_locked_def split: sum.splits option.splits if_splits)
  have same: "ms_files ms1 q = ms_files ms q"
    using gather_inputs_frame [OF g] assms(5) by (auto simp: keeps_regular_def)
  then obtain found t where t: "g = Inr (found, t, [])"
    and run: "run_conversion env profile payload dl found t kind ext ms1 = (res, ms')"
    using assms(1,6) g by (auto simp: convert_locked_def split: sum.splits option.splits if_splits list.splits)
  show ?thesis
  proof (cases "q = path_str t")
    case True
    then show ?thesis using gather_inputs_target [OF g [unfolded t]] assms(5) same by (auto simp: is_file_def)
  next
    case False
    then show ?thesis using run_conversion_files [OF run assms(2-4)] assms(6) same by fastforce
  qed
qed

definition text_media_env :: media_env where
  "text_media_env = plain_media_env\<lparr>md_resolve := (\<lambda>p. path_of (path_str p))\<rparr>"

definition sample_convert :: convert_env where
  "sample_convert = \<lparr>cv_transcripts = strict_transcripts\<lparr>tr_whisper := whisper_sample\<lparr>wh_media := text_media_env\<rparr>\<rparr>,
     cv_ffmpeg = (\<lambda>cmd fs. (None, fs(last cmd \<mapsto> RegularFile 7))), cv_dir_size = (\<lambda>_. 0),
     cv_polls = [(5, [])], cv_beats = []\<rparr>"

definition webm_store :: media_store where
  "webm_store = with_files (\<lambda>_. [''/m/a.webm'' \<mapsto> RegularFile 3])
     (with_database (\<lambda>d. d\<lparr>downloads := [talk_row]\<rparr>) talk_store)"

lemma split_on_parts: "p \<in> set (split_on c s) \<Longrightarrow> c \<notin> set p"
  by (induction s arbitrary: p) (auto split: if_splits list.splits)

lemma resolves_once_text: "resolves_once text_media_env"
proof -
  have "path_of (path_str (path_of s)) = path_of s" for s
    by (rule path_of_str) (auto simp: path_of_def good_part_def dest: split_on_parts)
  then show ?thesis by (simp add: resolves_once_def text_media_env_def)
qed

theorem conversion_keeps_media_witness:
  "\<exists>r ms' t. convert_locked sample_convert ''default'' [] (Some talk_row) [path_of ''/m/a.webm''] (path_of ''/m/a.mp4'')
       ''video'' ''mp4'' webm_store = Some (Inr (Some r), ms') \<and> row_names_file ms' r t"
proof -
  let ?run = "convert_locked sample_convert ''default'' [] (Some talk_row) [path_of ''/m/a.webm''] (path_of ''/m/a.mp4'')
       ''video'' ''mp4'' webm_store"
  have "?run \<noteq> None" by code_simp
  then obtain res ms' where run: "?run = Some (res, ms')" by auto
  have "ms_files (snd (the ?run)) ''/m/a.webm'' = None" by code_simp
  then have gone: "ms_files ms' ''/m/a.webm'' = None" by (simp add: run)
  have "writes_only_output (cv_ffmpeg sample_convert)" by (simp add: writes_only_output_def sample_convert_def)
  moreover have "resolves_once (cv_media sample_convert)" using resolves_once_text by (simp add: sample_convert_def)
  moreover have "is_file (ms_files webm_store) ''/m/a.webm''" by code_simp
  moreover have "ms_files webm_store ''/m/a.webm'' = Some (RegularFile 3)" by code_simp
  moreover have "path_str (path_of ''/m/a.mp4'') = ''/m/a.mp4''" by code_simp
  ultimately show ?thesis using conversion_keeps_media [OF run, of "''/m/a.webm''"] gone run by auto
qed

text \<open>C16: A conversion job always comes to an end: with finitely many files on the disk and a lock nobody
  holds, the search for a target's name and the wait for the lock stop, whatever the payload, the
  rows, the API and FFmpeg answer.\<close>

theorem transcode_media_returns:
  assumes "finite (dom (ms_files ms))" and "cv_polls env \<noteq> []"
    and "lock_owner (transcode_lock_key (cv_media env) (job_profile_id j) (as_dict (job_payload j))) (ms_db ms) = []"
  shows "\<exists>err ms'. transcode_media env j ms = Some (err, ms')"
proof -
  let ?ms1 = "touch_job (cv_now env) ''ffmpeg_conversion'' [] j ms"
  have "postprocess_download_with_ffmpeg env (job_profile_id j) (as_dict (job_payload j)) (str_of_int (job_id j)) ?ms1
      \<noteq> None" using assms by (intro postprocess_total) (simp_all add: lock_owner_touch)
  then show ?thesis by (auto simp: transcode_media_def Let_def)
qed

theorem transcode_media_returns_witness:
  "\<exists>err ms'. transcode_media sample_convert talk_job webm_store = Some (err, ms')"
proof (rule transcode_media_returns)
  show "finite (dom (ms_files webm_store))" 
    by (rule finite_subset [of _ "{''/m/a.webm''}"]) (auto simp: webm_store_def split: if_splits)
  show "cv_polls sample_convert \<noteq> []" by (simp add: sample_convert_def)
  have "app_config (ms_db webm_store) = []" by (simp add: webm_store_def talk_store_def empty_database_def)
  then show "lock_owner (transcode_lock_key (cv_media sample_convert) (job_profile_id talk_job)
      (as_dict (job_payload talk_job))) (ms_db webm_store) = []"
    by (simp add: lock_owner_def lock_value_def app_value_of_def py_partition_def)
qed

text \<open>A converted episode goes on to its transcript: when the conversion yields a row, the job ends without
  error and a transcript job for the row is active, with its message published.\<close>

theorem transcode_media_continues:
  assumes "postprocess_download_with_ffmpeg env (job_profile_id j) (as_dict (job_payload j)) (str_of_int (job_id j))
      (touch_job (cv_now env) ''ffmpeg_conversion'' [] j ms) = Some (Inr (Some r), ms2)"
  shows "\<exists>ms' k. transcode_media env j ms = Some (None, ms') \<and> job_published (ms_world ms') k
    \<and> grows (ms_world ms2) (ms_world ms') \<and> ms_files ms' = ms_files ms2 \<and> downloads (ms_db ms') = downloads (ms_db ms2)"
proof -
  let ?p = "as_dict (job_payload j)"
  let ?kind = "py_lower (py_strip (py_str (py_or (dget ?p ''media_type'') (PStr (preferred_media_kind (ms_db ms2) r ?p)))))"
  obtain k ms' where "queue_child (cv_now env) (job_profile_id j) ''generate_transcript''
      (next_stage_payload r ?p (PInt (dl_id r)) ?kind) (transcript_job_key (job_profile_id j) (PInt (dl_id r))) ms2 = (None, ms')"
    "job_published (ms_world ms') k" "grows (ms_world ms2) (ms_world ms')" "ms_files ms' = ms_files ms2"
    "downloads (ms_db ms') = downloads (ms_db ms2)" by (rule queue_child_published [OF transcript_job_key_nonempty])
  then show ?thesis using assms by (intro exI [of _ ms'] exI [of _ k]) (simp add: transcode_media_def Let_def)
qed

end
