(* ===== verification/Ocr.thy ===== *)
theory Ocr
  imports Transcripts
begin

text \<open>
  The searchable text of a PDF (\<open>src/src/workers/pdf_ocr.py\<close> and \<open>ocr_pdf\<close> in
  \<open>src/src/workers/handlers.py\<close>): the text of each page is cleaned and cut into sentences, and every
  sentence becomes a segment whose virtual time is its page. Reading the native text of the pages and
  running Tesseract on one are arguments. Of the quotation marks and bullets the patterns name,
  those of Latin-1 are modelled.
\<close>

section \<open>Clean text\<close>

fun unify_breaks :: "string \<Rightarrow> string" where
  "unify_breaks [] = []"
| "unify_breaks (c # s) =
     (if c = CHR 0x0D then CHR 0x0A # unify_breaks (if take 1 s = [CHR 0x0A] then drop 1 s else s)
      else c # unify_breaks s)"

definition is_blank :: "char \<Rightarrow> bool" where
  "is_blank c \<longleftrightarrow> c \<in> {CHR 0x20, CHR 0x09, CHR 0x0C, CHR 0x0B}"

fun collapse_blanks :: "string \<Rightarrow> string" where
  "collapse_blanks [] = []"
| "collapse_blanks (c # s) =
     (if is_blank c then (case s of [] \<Rightarrow> '' '' | d # _ \<Rightarrow> if is_blank d then collapse_blanks s else CHR '' '' # collapse_blanks s)
      else c # collapse_blanks s)"

text \<open>\<open>re.sub(r" *\n *", "\n", text)\<close>: the spaces next to a newline go.\<close>

definition trim_breaks :: "string \<Rightarrow> string" where
  "trim_breaks s =
     (let space = (\<lambda>c. c = CHR '' ''); pieces = split_on newline s in
      case pieces of
        [] \<Rightarrow> []
      | [p] \<Rightarrow> p
      | p # ps \<Rightarrow> join_with [newline]
          (rstrip_chars space p # map (strip_chars space) (butlast ps) @ [dropWhile space (last ps)]))"

definition clean_text :: "string \<Rightarrow> string" where
  "clean_text value = py_strip (trim_breaks (collapse_blanks (unify_breaks value)))"

section \<open>Sentences\<close>

definition MAX_SENTENCE_CHARS :: nat where
  "MAX_SENTENCE_CHARS = 800"

definition MIN_NATIVE_TEXT_LENGTH :: nat where
  "MIN_NATIVE_TEXT_LENGTH = 40"

definition ascii_upper :: "char \<Rightarrow> bool" where
  "ascii_upper c \<longleftrightarrow> 65 \<le> ord c \<and> ord c \<le> 90"

definition ends_sentence :: "char \<Rightarrow> bool" where
  "ends_sentence c \<longleftrightarrow> c \<in> set ''.!?''"

text \<open>A line that begins an item of a list.\<close>

definition hard_line_start :: "string \<Rightarrow> bool" where
  "hard_line_start s =
     (let number = takeWhile is_decimal s; after = (\<lambda>t. t \<noteq> [] \<and> is_space (hd t));
          label = (\<lambda>t. t \<noteq> [] \<and> hd t \<in> set ''.)'' \<and> after (tl t)) in
      s \<noteq> [] \<and> (hd s \<in> set ''-*'' \<and> after (tl s)
                \<or> number \<noteq> [] \<and> label (drop (length number) s)
                \<or> ascii_upper (hd s) \<and> label (tl s)))"

text \<open>The lines of a group are joined by blanks; \<open>n\<close> is the length of the group so far.\<close>

fun group_lines :: "string list \<Rightarrow> nat \<Rightarrow> string list \<Rightarrow> string list" where
  "group_lines cur n [] = (if cur = [] then [] else [join_with '' '' cur])"
| "group_lines cur n (l # ls) =
     (let flush = cur \<noteq> [] \<and> (hard_line_start l \<or> n + length l + 1 > MAX_SENTENCE_CHARS);
          cur1 = (if flush then [] else cur); n1 = (if flush then 0 else n);
          cur2 = cur1 @ [l]; n2 = n1 + length l + (if n1 \<noteq> 0 then 1 else 0);
          rest = (if l \<noteq> [] \<and> ends_sentence (last l) then join_with '' '' cur2 # group_lines [] 0 ls
                  else group_lines cur2 n2 ls)
      in if flush then join_with '' '' cur # rest else rest)"

text \<open>A sentence starts behind: closing quotes, at least one space, opening quotes, a capital or digit.\<close>

definition sentence_ahead :: "string \<Rightarrow> bool" where
  "sentence_ahead s =
     (let a = dropWhile (\<lambda>c. c \<in> {CHR 0x22, CHR 0x27, CHR 0xBB, CHR '')''}) s;
          b = dropWhile is_space a;
          t = dropWhile (\<lambda>c. c \<in> {CHR 0x22, CHR 0x27, CHR 0xAB, CHR ''('', CHR ''[''}) b
      in a \<noteq> [] \<and> is_space (hd a) \<and> t \<noteq> [] \<and> (ascii_upper (hd t) \<or> is_decimal (hd t)))"

fun split_at_boundaries :: "string \<Rightarrow> string \<Rightarrow> string list" where
  "split_at_boundaries acc [] = [rev acc]"
| "split_at_boundaries acc (c # s) =
     (if acc \<noteq> [] \<and> ends_sentence (hd acc) \<and> sentence_ahead (c # s) then rev acc # split_at_boundaries [c] s
      else split_at_boundaries (c # acc) s)"

definition stripped_nonempty :: "string list \<Rightarrow> string list" where
  "stripped_nonempty xs = filter (\<lambda>s. s \<noteq> []) (map py_strip xs)"

definition split_sentences :: "string \<Rightarrow> string list" where
  "split_sentences text =
     (let cleaned = clean_text text in
      if cleaned = [] then []
      else concat (map (\<lambda>g. stripped_nonempty (split_at_boundaries [] g))
             (group_lines [] 0 (stripped_nonempty (split_lines cleaned)))))"

section \<open>Pages\<close>

record pdf_ocr_page =
  pg_number :: nat
  pg_text :: string
  pg_used_ocr :: bool

record ocr_env =
  oc_transcripts :: transcript_env
  oc_pages :: "string \<Rightarrow> error + string list"
  oc_tesseract :: "string \<Rightarrow> nat \<Rightarrow> error + string"

fun read_pages :: "ocr_env \<Rightarrow> string \<Rightarrow> nat \<Rightarrow> string list \<Rightarrow> error + pdf_ocr_page list" where
  "read_pages env pdf k [] = Inr []"
| "read_pages env pdf k (t # ts) =
     (let native = clean_text t in
      if length native \<ge> MIN_NATIVE_TEXT_LENGTH
      then bind_result (read_pages env pdf (Suc k) ts) (\<lambda>ps.
             Inr (\<lparr>pg_number = k, pg_text = native, pg_used_ocr = False\<rparr> # ps))
      else bind_result (oc_tesseract env pdf k) (\<lambda>raw.
             let found = clean_text raw; page_text = or_else found native in
             bind_result (read_pages env pdf (Suc k) ts) (\<lambda>ps.
               Inr ((if page_text \<noteq> [] then [\<lparr>pg_number = k, pg_text = page_text, pg_used_ocr = (found \<noteq> [])\<rparr>]
                     else []) @ ps))))"

definition extract_pdf_pages :: "ocr_env \<Rightarrow> path \<Rightarrow> error + pdf_ocr_page list" where
  "extract_pdf_pages env p = bind_result (oc_pages env (path_str p)) (read_pages env (path_str p) 1)"

section \<open>The job\<close>

text \<open>A page is a virtual second, and the millionth parts keep the order of its sentences.\<close>

definition page_segment :: "int \<Rightarrow> nat \<Rightarrow> nat \<times> string \<Rightarrow> transcript_segment" where
  "page_segment n page = (\<lambda>(i, sentence).
     \<lparr>seg_download = n,
      seg_subtitle_path = ''ocr://download/'' @ str_of_int n @ ''/page/'' @ str_of_nat page,
      seg_start_seconds = Fin (of_nat page - 1 + of_nat i / 1000000), seg_end_seconds = Some (Fin (of_nat page)),
      seg_text = sentence\<rparr>)"

definition page_segments :: "int \<Rightarrow> pdf_ocr_page \<Rightarrow> transcript_segment list" where
  "page_segments n p = map (page_segment n (pg_number p)) (List.enumerate 0 (split_sentences (pg_text p)))"

definition store_ocr :: "int \<Rightarrow> pdf_ocr_page list \<Rightarrow> database \<Rightarrow> database" where
  "store_ocr n pages d = add_segments (concat (map (page_segments n) pages)) (delete_segments n d)"

definition recognise ::
    "ocr_env \<Rightarrow> job \<Rightarrow> download \<Rightarrow> path \<Rightarrow> media_store \<Rightarrow> error option \<times> media_store" where
  "recognise env j r p ms =
     (if \<not> is_file (ms_files ms) (path_str p) then (None, ms)
      else (let ms1 = touch_job (tr_now (oc_transcripts env)) ''pdf_ocr'' (or_else (text_of (dl_title r)) (path_name p)) j ms in
            case extract_pdf_pages env p of
              Inl e \<Rightarrow> (Some e, ms1)
            | Inr pages \<Rightarrow> (None, with_database (store_ocr (dl_id r) pages) ms1)))"

definition is_pdf_download :: "download \<Rightarrow> bool" where
  "is_pdf_download r \<longleftrightarrow> py_lower (text_of (dl_file_ext r)) = ''pdf''"

definition ocr_pdf :: "ocr_env \<Rightarrow> job \<Rightarrow> media_store \<Rightarrow> error option \<times> media_store" where
  "ocr_pdf env j ms =
     (let tr = oc_transcripts env; n = dget (as_dict (job_payload j)) ''download_id'' in
      if \<not> truthy n then (None, ms)
      else (case py_int_val n of
          None \<Rightarrow> (Some (int_error n), ms)
        | Some i \<Rightarrow>
            (case first_row (\<lambda>r. dl_id r = i \<and> dl_profile_id r = job_profile_id j \<and> is_pdf_download r) (downloads (ms_db ms)) of
               None \<Rightarrow> (None, ms)
             | Some r \<Rightarrow>
                 (let p = md_resolve (tr_media tr) (path_of (text_of (dl_file_path r))) in
                  if is_file (ms_files ms) (path_str p) then recognise env j r p ms
                  else (case ensure_local_media (tr_fetch tr) (tr_now tr) r p ms of
                      (Inr q, ms1) \<Rightarrow> recognise env j r q ms1
                    | (Inl (FileNotFound m), ms1) \<Rightarrow> (None, ms1)
                    | (Inl (OSError m), ms1) \<Rightarrow> (None, ms1)
                    | (Inl e, ms1) \<Rightarrow> (Some e, ms1))))))"

section \<open>Facts\<close>

abbreviation visible :: "string \<Rightarrow> string" where
  "visible s \<equiv> filter (\<lambda>c. \<not> is_space c) s"

lemma visible_dropWhile: "(\<And>c. P c \<Longrightarrow> is_space c) \<Longrightarrow> visible (dropWhile P s) = visible s"
  by (induction s) auto

lemma visible_rstrip: "(\<And>c. P c \<Longrightarrow> is_space c) \<Longrightarrow> visible (rstrip_chars P s) = visible s"
  using visible_dropWhile [of P "rev s"] by (simp add: rstrip_chars_def rev_filter [symmetric])

lemma visible_strip: "(\<And>c. P c \<Longrightarrow> is_space c) \<Longrightarrow> visible (strip_chars P s) = visible s"
  by (simp add: strip_chars_def visible_rstrip visible_dropWhile)

lemma visible_py_strip [simp]: "visible (py_strip s) = visible s"
  by (simp add: py_strip_def visible_strip)

lemma space_chars [simp]: "is_space (CHR 0x0A)" "is_space (CHR 0x0D)" "is_space (CHR 0x20)"
  by (simp_all add: is_space_def)

lemma visible_unify [simp]: "visible (unify_breaks s) = visible s"
proof (induction s rule: unify_breaks.induct)
  case (2 c s)
  have "visible (drop 1 s) = visible s" if "take 1 s = [CHR 0x0A]" using that by (cases s) auto
  then show ?case using 2 by (simp split del: if_split) (auto split: if_splits)
qed simp

lemma is_blank_space: "is_blank c \<Longrightarrow> is_space c"
  by (auto simp: is_blank_def is_space_def)

lemma visible_collapse [simp]: "visible (collapse_blanks s) = visible s"
proof (induction s rule: collapse_blanks.induct)
  case (2 c s)
  then show ?case using is_blank_space [of c] by (cases s) auto
qed simp

lemma visible_concat: "visible (concat xs) = concat (map visible xs)"
  by (induction xs) auto

lemma visible_join: "visible sep = [] \<Longrightarrow> visible (join_with sep xs) = concat (map visible xs)"
  by (induction sep xs rule: join_with.induct) auto

lemma visible_split_on: "is_space c \<Longrightarrow> concat (map visible (split_on c s)) = visible s"
  by (induction s) (auto split: list.splits)

lemma visible_trim [simp]: "visible (trim_breaks s) = visible s"
proof -
  let ?space = "\<lambda>c. c = CHR '' ''"
  have sp: "visible (rstrip_chars ?space t) = visible t" "visible (strip_chars ?space t) = visible t"
    "visible (dropWhile ?space t) = visible t" for t
    by (auto intro: visible_rstrip visible_strip visible_dropWhile)
  have v: "concat (map visible (split_on newline s)) = visible s"
    by (rule visible_split_on) (simp add: newline_def)
  show ?thesis
  proof (cases "split_on newline s" rule: remdups_adj.cases)
    case (3 p q ps)
    have "concat (map visible (map (strip_chars ?space) (butlast (q # ps)))) @ visible (last (q # ps))
        = concat (map visible (butlast (q # ps) @ [last (q # ps)]))"
      unfolding map_append concat_append by (simp add: sp comp_def)
    also have "\<dots> = concat (map visible (q # ps))" by (simp only: append_butlast_last_id list.distinct not_False_eq_True)
    finally have tail: "concat (map visible (map (strip_chars ?space) (butlast (q # ps)))) @ visible (last (q # ps))
        = visible q @ concat (map visible ps)" by simp
    have "trim_breaks s = join_with [newline]
        (rstrip_chars ?space p # map (strip_chars ?space) (butlast (q # ps)) @ [dropWhile ?space (last (q # ps))])"
      by (simp add: trim_breaks_def Let_def 3)
    then have "visible (trim_breaks s)
        = visible p @ concat (map visible (map (strip_chars ?space) (butlast (q # ps)))) @ visible (last (q # ps))"
      by (simp only: visible_join [of "[newline]"] newline_def) (simp add: sp visible_join)
    then show ?thesis using v 3 tail by simp
  qed (use v in \<open>simp_all add: trim_breaks_def\<close>)
qed

lemma visible_clean [simp]: "visible (clean_text s) = visible s"
  by (simp add: clean_text_def)

lemma is_line_break_space: "is_line_break c \<Longrightarrow> is_space c"
  by (auto simp: is_line_break_def is_space_def Let_def)

lemma visible_split_lines_from: "concat (map visible (split_lines_from acc s)) = visible (rev acc) @ visible s"
proof (induction acc s rule: split_lines_from.induct)
  case (3 acc c d s)
  have "is_space d" if "of_char d = (10 :: nat)" using that by (simp add: is_space_def)
  then show ?case using 3 is_line_break_space [of c] by (auto simp: rev_filter)
qed (auto dest: is_line_break_space)

lemma visible_stripped [simp]: "concat (map visible (stripped_nonempty xs)) = concat (map visible xs)"
proof (induction xs)
  case (Cons x xs)
  have "visible x = []" if "py_strip x = []" using that visible_py_strip [of x] by simp
  then show ?case using Cons by (auto simp: stripped_nonempty_def)
qed (simp add: stripped_nonempty_def)

lemma visible_group: "concat (map visible (group_lines cur n ls)) = concat (map visible cur) @ concat (map visible ls)"
  by (induction ls arbitrary: cur n) (auto simp: visible_join Let_def)

lemma visible_boundaries: "concat (map visible (split_at_boundaries acc s)) = visible (rev acc) @ visible s"
  by (induction acc s rule: split_at_boundaries.induct) auto

text \<open>Lengths: a group of several lines fits the limit.\<close>

lemma length_join_snoc:
  "xs \<noteq> [] \<Longrightarrow> length (join_with '' '' (xs @ [x])) = length (join_with '' '' xs) + 1 + length x"
  by (induction "'' ''" xs rule: join_with.induct) auto

lemma join_nonempty: "xs \<noteq> [] \<Longrightarrow> hd xs \<noteq> [] \<Longrightarrow> join_with '' '' xs \<noteq> []"
  by (cases xs rule: remdups_adj.cases) auto

lemma group_lines_bound:
  assumes "\<forall>l \<in> set ls. l \<noteq> [] \<and> length l \<le> MAX_SENTENCE_CHARS"
    and "n = length (join_with '' '' cur)" and "cur \<noteq> [] \<longrightarrow> n \<noteq> 0 \<and> n \<le> MAX_SENTENCE_CHARS"
    and "g \<in> set (group_lines cur n ls)"
  shows "length g \<le> MAX_SENTENCE_CHARS"
  using assms
proof (induction ls arbitrary: cur n)
  case Nil
  then show ?case by (auto split: if_splits)
next
  case (Cons l ls)
  let ?flush = "cur \<noteq> [] \<and> (hard_line_start l \<or> n + length l + 1 > MAX_SENTENCE_CHARS)"
  let ?cur2 = "(if ?flush then [] else cur) @ [l]" and ?n1 = "if ?flush then 0 else n"
  let ?n2 = "?n1 + length l + (if ?n1 \<noteq> 0 then 1 else 0)"
  have l: "l \<noteq> []" "length l \<le> MAX_SENTENCE_CHARS" using Cons.prems(1) by auto
  have n2: "?n2 = length (join_with '' '' ?cur2)" "?n2 \<noteq> 0" "?n2 \<le> MAX_SENTENCE_CHARS"
    using Cons.prems(2,3) l length_join_snoc [of cur l] by (cases "cur = []"; auto)+
  have rest: "length g \<le> MAX_SENTENCE_CHARS" if "g \<in> set (group_lines ?cur2 ?n2 ls)"
    using Cons.IH [OF _ n2(1) _ that] Cons.prems(1) n2 by simp
  have fresh: "length g \<le> MAX_SENTENCE_CHARS" if "g \<in> set (group_lines [] 0 ls)"
    using Cons.IH [OF _ _ _ that] Cons.prems(1) by simp
  have "g = join_with '' '' cur \<and> cur \<noteq> [] \<or> g = join_with '' '' ?cur2 \<or> g \<in> set (group_lines ?cur2 ?n2 ls)
      \<or> g \<in> set (group_lines [] 0 ls)"
    using Cons.prems(4) by (auto simp: Let_def split: if_splits)
  then show ?case using rest fresh n2 Cons.prems(2,3) by auto
qed

lemma split_at_boundaries_length: "t \<in> set (split_at_boundaries acc s) \<Longrightarrow> length t \<le> length acc + length s"
  by (induction acc s rule: split_at_boundaries.induct) (fastforce split: if_splits)+

lemma length_rstrip: "length (rstrip_chars P s) \<le> length s"
  by (metis length_rev length_dropWhile_le rstrip_chars_def)

lemma length_py_strip: "length (py_strip s) \<le> length s"
  by (metis length_rstrip length_dropWhile_le le_trans py_strip_def strip_chars_def)

lemma stripped_nonempty_mem: "t \<in> set (stripped_nonempty xs) \<Longrightarrow> t \<noteq> [] \<and> py_strip t = t \<and> (\<exists>x \<in> set xs. length t \<le> length x)"
  using length_py_strip by (auto simp: stripped_nonempty_def)

section \<open>Properties\<close>

text \<open>Cutting a page into sentences loses nothing that can be seen: the sentences, one after the other,
  have exactly the page's characters in its order, blanks aside; and no sentence is empty or has a
  blank at either end.\<close>

theorem split_sentences_complete:
  "filter (\<lambda>c. \<not> is_space c) (concat (split_sentences text)) = filter (\<lambda>c. \<not> is_space c) text
   \<and> list_all (\<lambda>s. s \<noteq> [] \<and> py_strip s = s) (split_sentences text)"
proof (cases "clean_text text = []")
  case True
  then show ?thesis using visible_clean [of "text"] by (simp add: split_sentences_def)
next
  case False
  let ?lines = "stripped_nonempty (split_lines (clean_text text))"
  let ?pieces = "map (\<lambda>g. stripped_nonempty (split_at_boundaries [] g)) (group_lines [] 0 ?lines)"
  have s: "split_sentences text = concat ?pieces" using False by (simp add: split_sentences_def)
  have one: "visible (concat (stripped_nonempty (split_at_boundaries [] g))) = visible g" for g
    by (simp add: visible_concat visible_boundaries)
  have "visible (concat (concat (map (\<lambda>g. stripped_nonempty (split_at_boundaries [] g)) gs))) = concat (map visible gs)"
    for gs by (induction gs) (simp_all add: one)
  then have "visible (concat (concat ?pieces)) = concat (map visible (group_lines [] 0 ?lines))" .
  also have "\<dots> = visible text"
    using visible_split_lines_from [of "[]" "clean_text text"] by (simp add: visible_group split_lines_def)
  finally show ?thesis using stripped_nonempty_mem by (fastforce simp: s list_all_iff)
qed

text \<open>A sentence of the index has at most 800 characters whenever no line of the page is longer: lines
  are joined only while they fit.\<close>

theorem sentences_bounded:
  assumes "\<forall>l \<in> set (split_lines (clean_text text)). length l \<le> 800"
    and "t \<in> set (split_sentences text)"
  shows "length t \<le> 800"
proof -
  let ?lines = "stripped_nonempty (split_lines (clean_text text))"
  obtain g where g: "g \<in> set (group_lines [] 0 ?lines)" "t \<in> set (stripped_nonempty (split_at_boundaries [] g))"
    using assms(2) by (auto simp: split_sentences_def Let_def split: if_splits)
  have "\<forall>l \<in> set ?lines. l \<noteq> [] \<and> length l \<le> MAX_SENTENCE_CHARS"
    using assms(1) stripped_nonempty_mem by (fastforce simp: MAX_SENTENCE_CHARS_def)
  then have "length g \<le> MAX_SENTENCE_CHARS" using group_lines_bound [of ?lines 0 "[]"] g(1) by simp
  moreover obtain x where "x \<in> set (split_at_boundaries [] g)" "length t \<le> length x"
    using stripped_nonempty_mem [OF g(2)] by blast
  moreover have "length x \<le> length g" using split_at_boundaries_length [OF \<open>x \<in> _\<close>] by simp
  ultimately show ?thesis by (simp add: MAX_SENTENCE_CHARS_def)
qed

theorem sentences_bounded_witness:
  "list_all (\<lambda>t. length t \<le> 800) (split_sentences ''One two. Three four!'')"
proof -
  have "split_lines (clean_text ''One two. Three four!'') = [''One two. Three four!'']" by code_simp
  then show ?thesis using sentences_bounded [of "''One two. Three four!''"] by (simp add: list_all_iff)
qed

text \<open>The text recognition of a PDF replaces its segments and nothing else: when the job ends without
  error and its file was there, the episode's segments are the sentences of its pages, in the order
  of the pages and within a page; every other segment, every row and every file stays as it was.\<close>

theorem ocr_replaces_segments:
  assumes "recognise env j r p ms = (None, ms')" and "is_file (ms_files ms) (path_str p)"
  shows "\<exists>pages. extract_pdf_pages env p = Inr pages
    \<and> filter (\<lambda>s. seg_download s = dl_id r) (transcript_segments (ms_db ms')) = concat (map (page_segments (dl_id r)) pages)
    \<and> filter (\<lambda>s. seg_download s \<noteq> dl_id r) (transcript_segments (ms_db ms'))
      = filter (\<lambda>s. seg_download s \<noteq> dl_id r) (transcript_segments (ms_db ms))
    \<and> map seg_text (concat (map (page_segments (dl_id r)) pages)) = concat (map (\<lambda>pg. split_sentences (pg_text pg)) pages)
    \<and> downloads (ms_db ms') = downloads (ms_db ms) \<and> ms_files ms' = ms_files ms"
proof -
  obtain pages where pages: "extract_pdf_pages env p = Inr pages"
    and ms': "ms' = with_database (store_ocr (dl_id r) pages) (touch_job (tr_now (oc_transcripts env)) ''pdf_ocr''
      (or_else (text_of (dl_title r)) (path_name p)) j ms)"
    using assms by (auto simp: recognise_def Let_def split: sum.splits)
  have own: "seg_download s = dl_id r" if "s \<in> set (page_segments (dl_id r) pg)" for s pg
    using that by (auto simp: page_segments_def page_segment_def)
  let ?new = "concat (map (page_segments (dl_id r)) pages)"
  have "filter (\<lambda>s. seg_download s = dl_id r) ?new = ?new" "filter (\<lambda>s. seg_download s \<noteq> dl_id r) ?new = []"
    using own by (auto simp: filter_id_conv filter_empty_conv)
  moreover have "map seg_text (page_segments n pg) = split_sentences (pg_text pg)" for n pg
  proof -
    have "seg_text \<circ> page_segment n k = snd" for k by (auto simp: page_segment_def)
    then show ?thesis by (simp add: page_segments_def)
  qed
  ultimately show ?thesis
    by (simp add: pages ms' store_ocr_def delete_where_def map_concat comp_def)
qed

definition sample_ocr :: ocr_env where
  "sample_ocr = \<lparr>oc_transcripts = strict_transcripts, oc_pages = (\<lambda>_. Inr [''A page. Of two sentences with enough text on it.'', '' '']),
     oc_tesseract = (\<lambda>_ _. Inr ''Seen.'')\<rparr>"

theorem ocr_replaces_segments_witness:
  "downloads (ms_db (snd (recognise sample_ocr talk_job talk_row (path_of ''/m/Talk.mp3'') talk_store)))
   = downloads (ms_db talk_store)"
proof -
  let ?run = "recognise sample_ocr talk_job talk_row (path_of ''/m/Talk.mp3'') talk_store"
  have "fst ?run = None" by code_simp
  then obtain ms' where run: "?run = (None, ms')" by (metis prod.collapse)
  have "is_file (ms_files talk_store) (path_str (path_of ''/m/Talk.mp3''))" by code_simp
  then show ?thesis using ocr_replaces_segments [OF run] unfolding run snd_conv by blast
qed

end
