(* ===== verification/Retention.thy ===== *)
theory Retention
  imports Transcripts "HOL-Library.Option_ord"
begin

text \<open>
  The cleanup worker (\<open>retention_cleanup\<close> in \<open>src/src/workers/handlers.py\<close>): rows whose file is gone
  become missing, and files older than the profile's limit are deleted and their rows marked, unless
  the episode is a favourite or was uploaded by hand. The rows are read once, and the run goes
  through them in the order of their dates; the database sorts an absent date first. Whether a file
  can be removed is an argument.
\<close>

section \<open>One row\<close>

definition retention_days :: "database \<Rightarrow> job \<Rightarrow> int" where
  "retention_days d j =
     (let v = py_or (py_or (dget (as_dict (job_payload j)) ''retention_days'')
                (opt_text (profile_value d (job_profile_id j) ''auto_delete_content_days''))) (PInt 0)
      in case py_int_val v of None \<Rightarrow> 0 | Some n \<Rightarrow> n)"

text \<open>\<open>Path(str(...)).expanduser()\<close>; an empty path and no path are the same.\<close>

definition retained_path :: "(path \<Rightarrow> path) \<Rightarrow> download \<Rightarrow> path option" where
  "retained_path expanduser r =
     (case dl_file_path r of None \<Rightarrow> None | Some p \<Rightarrow> if p = [] then None else Some (expanduser (path_of p)))"

definition content_date :: "download \<Rightarrow> time" where
  "content_date r = (case dl_completed_at r of Some t \<Rightarrow> t | None \<Rightarrow> dl_first_seen_at r)"

definition mark_row :: "time \<Rightarrow> download_status \<Rightarrow> int \<Rightarrow> database \<Rightarrow> database" where
  "mark_row now st n d = update_download n (\<lambda>r. r\<lparr>dl_status := st, dl_last_seen_at := now\<rparr>) d"

datatype retention_verdict = MarkMissing | KeepFavorite | KeepRecent | KeepUndeletable | DeleteFile path

definition retention_verdict_of ::
    "(path \<Rightarrow> path) \<Rightarrow> (string \<Rightarrow> bool) \<Rightarrow> time \<Rightarrow> download \<Rightarrow> file_system \<Rightarrow> retention_verdict" where
  "retention_verdict_of expanduser locked_file cutoff r fs =
     (case retained_path expanduser r of
        None \<Rightarrow> MarkMissing
      | Some p \<Rightarrow>
          if \<not> is_file fs (path_str p) then MarkMissing
          else if dl_favorite r then KeepFavorite
          else if content_date r > cutoff then KeepRecent
          else if locked_file (path_str p) then KeepUndeletable
          else DeleteFile p)"

definition retention_step ::
    "(path \<Rightarrow> path) \<Rightarrow> (string \<Rightarrow> bool) \<Rightarrow> time \<Rightarrow> time \<Rightarrow> download \<Rightarrow> file_system \<times> database \<Rightarrow> file_system \<times> database" where
  "retention_step expanduser locked_file now cutoff r st =
     (case st of (fs, d) \<Rightarrow> case retention_verdict_of expanduser locked_file cutoff r fs of
        MarkMissing \<Rightarrow> (fs, mark_row now MISSING (dl_id r) d)
      | DeleteFile p \<Rightarrow> (fs(path_str p := None), mark_row now RETENTION_DELETED (dl_id r) d)
      | _ \<Rightarrow> (fs, d))"

section \<open>The job\<close>

definition retention_rows :: "string \<Rightarrow> database \<Rightarrow> download list" where
  "retention_rows profile d =
     sort_key (\<lambda>r. (dl_completed_at r, dl_first_seen_at r, dl_id r))
       (filter (\<lambda>r. dl_profile_id r = profile \<and> dl_status r = DOWNLOADED \<and> dl_source_type r \<noteq> ''manual'') (downloads d))"

definition retention_cleanup ::
    "(path \<Rightarrow> path) \<Rightarrow> (string \<Rightarrow> bool) \<Rightarrow> time \<Rightarrow> job \<Rightarrow> media_store \<Rightarrow> error option \<times> media_store" where
  "retention_cleanup expanduser locked_file now j ms =
     (let days = retention_days (ms_db ms) j; cutoff = now - days * microseconds_per_day in
      if days \<le> 0 then (None, ms)
      else let (fs, d) = fold (retention_step expanduser locked_file now cutoff) (retention_rows (job_profile_id j) (ms_db ms))
                           (ms_files ms, ms_db ms)
           in (None, with_files (\<lambda>_. fs) (with_database (\<lambda>_. d) ms)))"

section \<open>Facts\<close>

definition expired_row :: "string \<Rightarrow> time \<Rightarrow> download \<Rightarrow> bool" where
  "expired_row profile cutoff r \<longleftrightarrow> dl_profile_id r = profile \<and> dl_status r = DOWNLOADED \<and> dl_source_type r \<noteq> ''manual''
     \<and> \<not> dl_favorite r \<and> content_date r \<le> cutoff"

definition names_file :: "(path \<Rightarrow> path) \<Rightarrow> download \<Rightarrow> string \<Rightarrow> bool" where
  "names_file expanduser r q \<longleftrightarrow> map_option path_str (retained_path expanduser r) = Some q"

text \<open>A row as the run leaves it.\<close>

definition retired :: "time \<Rightarrow> download \<Rightarrow> download \<Rightarrow> bool" where
  "retired now x y \<longleftrightarrow> y = x \<or> y = x\<lparr>dl_status := MISSING, dl_last_seen_at := now\<rparr>
     \<or> y = x\<lparr>dl_status := RETENTION_DELETED, dl_last_seen_at := now\<rparr>"

definition retired_rows :: "time \<Rightarrow> int set \<Rightarrow> download list \<Rightarrow> download list \<Rightarrow> bool" where
  "retired_rows now ids = list_all2 (\<lambda>x y. retired now x y \<and> (dl_id x \<notin> ids \<longrightarrow> y = x))"

lemma retired_trans: "retired now x y \<Longrightarrow> retired now y z \<Longrightarrow> retired now x z"
  by (auto simp: retired_def)

lemma retired_rows_trans:
  assumes "retired_rows now ids a b" and "retired_rows now ids b c"
  shows "retired_rows now ids a c"
proof -
  have "dl_id y = dl_id x" if "retired now x y" for x y using that by (auto simp: retired_def)
  then have "retired now x z \<and> (dl_id x \<notin> ids \<longrightarrow> z = x)"
    if "retired now x y \<and> (dl_id x \<notin> ids \<longrightarrow> y = x)" "retired now y z \<and> (dl_id y \<notin> ids \<longrightarrow> z = y)" for x y z
    using that retired_trans by blast
  then show ?thesis using assms unfolding retired_rows_def by (rule list_all2_trans)
qed

lemma retired_rows_refl: "retired_rows now ids a a"
  by (simp add: retired_rows_def retired_def list_all2_refl)

lemma retired_rows_mark:
  assumes "st = MISSING \<or> st = RETENTION_DELETED" and "n \<in> ids"
  shows "retired_rows now ids (downloads d) (downloads (mark_row now st n d))"
  using assms by (auto simp: retired_rows_def mark_row_def update_where_def list_all2_map2 retired_def intro!: list_all2_refl)

lemma retention_step_cases:
  assumes "retention_step expanduser locked_file now cutoff r (fs, d) = (fs', d')" and "dl_id r \<in> ids"
  shows "retired_rows now ids (downloads d) (downloads d')
    \<and> (fs' = fs \<or> (\<exists>q. fs' = fs(q := None) \<and> names_file expanduser r q \<and> is_file fs q \<and> \<not> dl_favorite r \<and> content_date r \<le> cutoff))
    \<and> (\<forall>q. names_file expanduser r q \<and> \<not> dl_favorite r \<and> content_date r \<le> cutoff \<and> \<not> locked_file q \<longrightarrow> \<not> is_file fs' q)"
  using assms
  by (auto simp: retention_step_def retention_verdict_of_def names_file_def retired_rows_refl retired_rows_mark is_file_def
      split: option.splits if_splits)

lemma retention_fold:
  assumes "fold (retention_step expanduser locked_file now cutoff) rs (fs, d) = (fs', d')" and "dl_id ` set rs \<subseteq> ids"
  shows "retired_rows now ids (downloads d) (downloads d')
    \<and> (\<forall>q. fs' q \<noteq> fs q \<longrightarrow> fs' q = None \<and> is_file fs q
          \<and> (\<exists>r \<in> set rs. names_file expanduser r q \<and> \<not> dl_favorite r \<and> content_date r \<le> cutoff))
    \<and> (\<forall>q. \<forall>r \<in> set rs. names_file expanduser r q \<and> \<not> dl_favorite r \<and> content_date r \<le> cutoff \<and> \<not> locked_file q
          \<longrightarrow> \<not> is_file fs' q)"
  using assms
proof (induction rs arbitrary: fs d)
  case (Cons r rs)
  obtain fs1 d1 where one: "retention_step expanduser locked_file now cutoff r (fs, d) = (fs1, d1)" by fastforce
  have rest: "fold (retention_step expanduser locked_file now cutoff) rs (fs1, d1) = (fs', d')" using Cons.prems(1) one by simp
  have ids: "dl_id r \<in> ids" "dl_id ` set rs \<subseteq> ids" using Cons.prems(2) by auto
  note s = retention_step_cases [OF one ids(1)]
  note ih = Cons.IH [OF rest ids(2)]
  have gone: "is_file fs' q \<Longrightarrow> is_file fs1 q" for q using ih by (cases "fs' q = fs1 q") (auto simp: is_file_def)
  have "fs' q = None \<and> is_file fs q
      \<and> (\<exists>x \<in> set (r # rs). names_file expanduser x q \<and> \<not> dl_favorite x \<and> content_date x \<le> cutoff)"
    if q: "fs' q \<noteq> fs q" for q
  proof (cases "fs1 q = fs q")
    case True
    then have "fs' q \<noteq> fs1 q" "is_file fs1 q = is_file fs q" using q by (simp_all add: is_file_def)
    then show ?thesis using ih by auto
  next
    case False
    then have "fs1 = fs(q := None)" "names_file expanduser r q" "is_file fs q" "\<not> dl_favorite r" "content_date r \<le> cutoff"
      using s by (auto split: if_splits)
    moreover have "fs' q = None" using ih \<open>fs1 = _\<close> by (metis fun_upd_same)
    ultimately show ?thesis by auto
  qed
  moreover have "retired_rows now ids (downloads d) (downloads d')" using s ih retired_rows_trans by blast
  moreover have "\<not> is_file fs' q"
    if "x \<in> set (r # rs)" "names_file expanduser x q \<and> \<not> dl_favorite x \<and> content_date x \<le> cutoff \<and> \<not> locked_file q" for q x
    using that s ih gone by auto
  ultimately show ?case by blast
qed (simp add: retired_rows_refl)

section \<open>Properties\<close>

text \<open>C9: The retention run deletes exactly what has expired. A file it removes is named by a downloaded row
  of the profile that is no favourite, was not uploaded by hand and is older than the limit; every
  such file that can be removed is gone afterwards; and of the rows only the status and the date it
  was seen change, and only for the profile's downloaded rows that were not uploaded by hand.\<close>

theorem retention_deletes_expired:
  assumes "retention_cleanup expanduser locked_file now j ms = (err, ms')"
    and "cutoff = now - retention_days (ms_db ms) j * microseconds_per_day"
    and "ids = dl_id ` set (retention_rows (job_profile_id j) (ms_db ms))"
  shows "(\<forall>q. ms_files ms' q \<noteq> ms_files ms q \<longrightarrow> ms_files ms' q = None
        \<and> (\<exists>r \<in> set (downloads (ms_db ms)). expired_row (job_profile_id j) cutoff r \<and> names_file expanduser r q))
    \<and> (0 < retention_days (ms_db ms) j \<longrightarrow>
        (\<forall>q. \<forall>r \<in> set (downloads (ms_db ms)). expired_row (job_profile_id j) cutoff r \<and> names_file expanduser r q
          \<and> \<not> locked_file q \<longrightarrow> \<not> is_file (ms_files ms') q))
    \<and> retired_rows now ids (downloads (ms_db ms)) (downloads (ms_db ms'))"
proof (cases "retention_days (ms_db ms) j \<le> 0")
  case True
  then show ?thesis using assms(1) by (simp add: retention_cleanup_def Let_def retired_rows_refl)
next
  case False
  let ?rows = "retention_rows (job_profile_id j) (ms_db ms)"
  obtain fs d where run: "fold (retention_step expanduser locked_file now cutoff) ?rows (ms_files ms, ms_db ms) = (fs, d)"
    by fastforce
  then have "ms_files ms' = fs" "ms_db ms' = d"
    using assms(1,2) False by (auto simp: retention_cleanup_def Let_def)
  moreover have "r \<in> set ?rows \<and> \<not> dl_favorite r \<and> content_date r \<le> cutoff
      \<longleftrightarrow> r \<in> set (downloads (ms_db ms)) \<and> expired_row (job_profile_id j) cutoff r" for r
    by (auto simp: retention_rows_def expired_row_def)
  ultimately show ?thesis using retention_fold [OF run, of ids] assms(3) by blast
qed

definition old_row :: download where
  "old_row = talk_row\<lparr>dl_status := DOWNLOADED, dl_source_type := ''youtube'', dl_favorite := False, dl_completed_at := Some 0\<rparr>"

definition loved_row :: download where
  "loved_row = old_row\<lparr>dl_id := 2, dl_favorite := True, dl_file_path := Some ''/m/Kept.mp3''\<rparr>"

definition retention_store :: media_store where
  "retention_store = with_files (\<lambda>_. [''/m/Talk.mp3'' \<mapsto> RegularFile 3, ''/m/Kept.mp3'' \<mapsto> RegularFile 4])
     (with_database (\<lambda>d. d\<lparr>downloads := [old_row, loved_row]\<rparr>) talk_store)"

definition retention_job :: job where
  "retention_job = talk_job\<lparr>job_payload := PDict [(''retention_days'', PInt 1)]\<rparr>"

theorem retention_deletes_expired_witness:
  "\<not> is_file (ms_files (snd (retention_cleanup id (\<lambda>_. False) 86400000000 retention_job retention_store))) ''/m/Talk.mp3''"
proof -
  obtain err ms' where run: "retention_cleanup id (\<lambda>_. False) 86400000000 retention_job retention_store = (err, ms')"
    by fastforce
  have days: "retention_days (ms_db retention_store) retention_job = 1" by code_simp
  have "expired_row (job_profile_id retention_job) 0 old_row" by code_simp
  moreover have "names_file id old_row ''/m/Talk.mp3''" by code_simp
  moreover have "old_row \<in> set (downloads (ms_db retention_store))" by (simp add: retention_store_def)
  ultimately show ?thesis
    using retention_deletes_expired [OF run _ refl, of 0] days by (auto simp: run)
qed

end
