(* ===== verification/Handlers.thy ===== *)
theory Handlers
  imports Conversion Ocr Retention Runner
begin

text \<open>
  The table of handlers (\<open>HANDLERS\<close> in \<open>src/src/workers/handlers.py\<close>): the handlers of the other
  theories, brought to the runner's interface, and the proof that each meets what the runner asks of
  a handler. What a handler reads besides the world, the texts and times of the files among it, is
  in a \<open>worker_env\<close>.
\<close>

record worker_env =
  we_now :: time
  we_discovery :: discovery_env
  we_fetch :: fetch_env
  we_convert :: convert_env
  we_ocr :: ocr_env
  we_expanduser :: "path \<Rightarrow> path"
  we_locked_file :: "string \<Rightarrow> bool"
  we_text :: "string \<Rightarrow> string"
  we_mtime :: "string \<Rightarrow> time"

definition on_store ::
    "worker_env \<Rightarrow> (job \<Rightarrow> media_store \<Rightarrow> (error option \<times> media_store) option) \<Rightarrow> handler" where
  "on_store env f j w =
     map_option (map_prod id ms_world) (f j \<lparr>ms_world = w, ms_text = we_text env, ms_mtime = we_mtime env\<rparr>)"

definition update_downloads :: "discovery_env \<Rightarrow> time \<Rightarrow> world \<Rightarrow> error option \<times> world" where
  "update_downloads env now w = check_for_episodes env now w"

definition HANDLERS :: "worker_env \<Rightarrow> (string \<times> handler) list" where
  "HANDLERS env =
     [(''check_for_episodes'', \<lambda>j w. Some (check_for_episodes (we_discovery env) (we_now env) w)),
      (''update_downloads'', \<lambda>j w. Some (update_downloads (we_discovery env) (we_now env) w)),
      (''download_episode'', on_store env (\<lambda>j ms. Some (download_episode (we_fetch env) j ms))),
      (''download_single'', on_store env (\<lambda>j ms. Some (download_single (we_fetch env) j ms))),
      (''transcode_media'', on_store env (transcode_media (we_convert env))),
      (''generate_transcript'', on_store env (\<lambda>j ms. Some (generate_transcript (fv_transcripts (we_fetch env)) j ms))),
      (''generate_ocr'', on_store env (\<lambda>j ms. Some (ocr_pdf (we_ocr env) j ms))),
      (''retention_cleanup'', on_store env (\<lambda>j ms. Some
         (retention_cleanup (we_expanduser env) (we_locked_file env) (we_now env) j ms)))]"

section \<open>The job table\<close>

definition same_jobs :: "database \<Rightarrow> database \<Rightarrow> bool" where
  "same_jobs d d' \<longleftrightarrow> jobs d' = jobs d \<and> next_job_id d' = next_job_id d"

lemma same_jobs_refl [simp]: "same_jobs d d"
  by (simp add: same_jobs_def)

lemma same_jobs_trans: "same_jobs a b \<Longrightarrow> same_jobs b c \<Longrightarrow> same_jobs a c"
  by (simp add: same_jobs_def)

lemma same_jobs_kept: "same_jobs d d' \<Longrightarrow> jobs_kept d d'"
  by (simp add: same_jobs_def jobs_kept_same)

lemma jobs_kept_same_trans: "jobs_kept a b \<Longrightarrow> same_jobs b c \<Longrightarrow> jobs_kept a c"
  using jobs_kept_trans same_jobs_kept by blast

lemma jobs_kept_create: "jobs_kept d (snd (create_job now p k v key d))"
  unfolding jobs_kept_def
  by (auto simp: jobs_wf_create) (auto simp: create_job_def create_insert_def insert_job_def Let_def split: option.split)

lemma create_and_publish_kept:
  assumes "create_and_publish now profile kind payload key w = (res, w')"
  shows "jobs_kept (db w) (db w')"
proof -
  have "db w' = db w \<or> db w' = snd (create_job now profile kind payload key (db w))"
    using assms by (auto simp: create_and_publish_def publish_job_def Let_def split: sum.splits prod.splits option.splits if_splits)
  then show ?thesis using jobs_kept_create by auto
qed

lemma queue_child_kept:
  assumes "queue_child now profile kind payload key ms = (err, ms')"
  shows "jobs_kept (ms_db ms) (ms_db ms')"
  using assms create_and_publish_kept
  by (fastforce simp: queue_child_def on_world_def split: prod.splits sum.splits)

lemma touch_active_job_kept:
  assumes "touch_active_job now label title j d = (j', d')"
  shows "jobs_kept d d'"
  using assms by (auto simp: touch_active_job_def Let_def job_identity_def intro!: jobs_kept_update_job split: if_splits)

lemma touch_job_kept: "jobs_kept (ms_db ms) (ms_db (touch_job now label title j ms))"
  using touch_active_job_kept [of now label title j "ms_db ms"] by (simp add: touch_job_def) (metis prod.collapse)

section \<open>Discovery\<close>

lemma queue_episode_kept:
  assumes "queue_episode env now profile n s c w = (err, w')"
  shows "jobs_kept (db w) (db w')"
proof (cases "active_download_job (episode_key env profile s c) (db w)")
  case None
  then show ?thesis
    using assms create_and_publish_kept by (fastforce simp: queue_episode_def split: prod.splits sum.splits)
next
  case (Some j)
  show ?thesis
  proof (cases "make_stale_job_queued (dv_stale env) now j (db w)")
    case (Inl e)
    then show ?thesis using assms Some by (simp add: queue_episode_def)
  next
    case (Inr t)
    obtain b j2 d1 where t: "t = (b, j2, d1)" by (cases t)
    have "db w' = d1"
      using assms Some Inr t
      by (auto simp: queue_episode_def Let_def publish_created_job_def publish_job_def
          split: sum.splits prod.splits if_splits option.splits)
    then show ?thesis using make_stale_cases [OF Inr [unfolded t]] jobs_kept_update_job by (auto simp: job_identity_def)
  qed
qed

lemma check_candidates_kept:
  "check_candidates env now profile n s cs q w = (err, k, w') \<Longrightarrow> jobs_kept (db w) (db w')"
proof (induction cs arbitrary: q w)
  case (Cons c cs)
  show ?case
  proof (cases "n \<le> q \<or> episode_was_downloaded profile s c (db w)")
    case True
    then show ?thesis using Cons by (auto split: if_splits)
  next
    case False
    obtain e wa where q: "queue_episode env now profile n s c w = (e, wa)" by fastforce
    then show ?thesis
      using Cons.IH Cons.prems False q queue_episode_kept [OF q] jobs_kept_trans [OF queue_episode_kept [OF q]]
      by (cases e) auto
  qed
qed simp

lemma check_sources_kept: "check_sources env now ss w = (err, w') \<Longrightarrow> jobs_kept (db w) (db w')"
proof (induction env now ss w rule: check_sources.induct)
  case (2 env now profile s rest w)
  obtain e wa where one: "check_source env now profile s w = (e, wa)" by fastforce
  have "jobs_kept (db w) (db wa)"
    using one check_candidates_kept by (fastforce simp: check_source_def split: sum.splits prod.splits option.splits)
  then show ?case using "2.IH" [OF one [symmetric]] "2.prems" one jobs_kept_trans [of "db w" "db wa" "db w'"]
    by (cases e) auto
qed simp

section \<open>Downloads\<close>

lemma upsert_download_same: "upsert_download now l defaults d = Inr (r, d') \<Longrightarrow> same_jobs d d'"
  by (auto simp: upsert_download_def same_jobs_def bind_result_Inr update_downloads_where_def split: list.splits)

lemma screen_deferred_video_same:
  assumes "screen_deferred_video env profile media l defaults payload ms = (res, ms')"
  shows "same_jobs (ms_db ms) (ms_db ms')"
proof (cases "payload_offset payload")
  case (Inl e)
  then show ?thesis using assms by (simp add: screen_deferred_video_def)
next
  case (Inr offset)
  obtain sub ms1 where cs: "create_subtitles (tr_whisper env) media offset True ms = (sub, ms1)" by fastforce
  note db1 = create_subtitles_db(1) [OF cs]
  have seg: "same_jobs d d' \<Longrightarrow> same_jobs d (add_segments segs d')" for segs d d'
    by (simp add: same_jobs_def add_segments_def)
  show ?thesis
  proof (cases sub)
    case None
    then show ?thesis using assms Inr cs db1 by (auto simp: screen_deferred_video_def)
  next
    case (Some p)
    note run = assms [unfolded screen_deferred_video_def Inr sum.case cs Some prod.case option.case]
    show ?thesis
    proof (cases "screen_transcript (tr_profane env) p ms1")
      case (Inl e)
      then show ?thesis using run db1 by auto
    next
      case (Inr m)
      then show ?thesis
        using run db1 by (cases m) (auto simp: Let_def split: sum.splits intro!: seg intro: upsert_download_same)
    qed
  qed
qed

lemma save_row_same: "save_row now l defaults ms = (res, ms') \<Longrightarrow> same_jobs (ms_db ms) (ms_db ms')"
  by (auto simp: save_row_def split: sum.splits intro: upsert_download_same)

lemma store_fetched_same:
  assumes "store_fetched env j payload rq info base dir found f ms = (res, ms')"
  shows "same_jobs (ms_db ms) (ms_db ms')"
  using assms
  by (auto simp: store_fetched_def Let_def split: sum.splits prod.splits if_splits option.splits
      dest: save_row_same screen_deferred_video_same)

lemma watch_events_kept: "watch_events env payload url es (j, d, found) = (j', d', found') \<Longrightarrow> jobs_kept d d'"
proof (induction es arbitrary: j d found)
  case (Cons e es)
  obtain j1 d1 where one: "(if ev_status e = ''downloading''
      then touch_active_job (ev_time e) ''downloading''
        (py_strip (first_nonempty [ev_title e, str_or_empty (dget payload ''title''), url])) j d else (j, d)) = (j1, d1)"
    by fastforce
  have k: "jobs_kept d d1" using one touch_active_job_kept by (auto split: if_splits)
  obtain found1 where "watch_events env payload url es (j1, d1, found1) = (j', d', found')"
    using Cons.prems one unfolding watch_events.simps Let_def by (simp del: first_nonempty.simps)
  from Cons.IH [OF this] show ?case by (rule jobs_kept_trans [OF k])
qed simp

lemma download_with_yt_dlp_kept:
  assumes "download_with_yt_dlp env j payload ms = (res, ms')"
  shows "jobs_kept (ms_db ms) (ms_db ms')"
proof (cases "download_request_from_payload (fv_lookup env) payload")
  case None
  then show ?thesis using assms by (simp add: download_with_yt_dlp_def)
next
  case (Some rq)
  let ?base = "download_output_root (fv_media env) (ms_db ms) (job_profile_id j)"
  let ?dir = "path_join ?base (path_of (sanitize_channel_name (rq_name rq)))"
  show ?thesis
  proof (cases "make_dirs (ancestors ?dir) (ms_files ms)")
    case (Inl e)
    then show ?thesis using assms Some by (simp add: download_with_yt_dlp_def Let_def)
  next
    case (Inr fs)
    let ?run = "fv_run env (rq_url rq) (yt_dlp_options env (ms_db ms) fs (job_profile_id j) payload (rq_source rq)
        (yt_dlp_download_outtmpl ?dir)) fs"
    obtain j1 d1 hooked where w: "watch_events (fv_media env) payload (rq_url rq) (yr_events ?run) (j, ms_db ms, [])
        = (j1, d1, hooked)" by (metis prod_cases3)
    let ?ms1 = "with_files (\<lambda>_. yr_files ?run) (with_database (\<lambda>_. d1) ms)"
    note k = watch_events_kept [OF w]
    have "ms' = ?ms1 \<or> (\<exists>info found f. store_fetched env j1 payload rq info ?base ?dir found f ?ms1 = (res, ms'))"
      using assms Some Inr w
      by (cases "yr_outcome ?run") (auto simp: download_with_yt_dlp_def Let_def split: list.splits if_splits)
    then show ?thesis using k store_fetched_same jobs_kept_same_trans [OF k] by fastforce
  qed
qed

lemma after_download_kept:
  assumes "after_download env profile payload n ms = (err, ms')"
  shows "jobs_kept (ms_db ms) (ms_db ms')"
  using assms queue_child_kept
  by (auto simp: after_download_def enqueue_transcode_job_def Let_def split: sum.splits option.splits if_splits)

lemma download_episode_kept:
  assumes "download_episode env j ms = (err, ms')"
  shows "jobs_kept (ms_db ms) (ms_db ms')"
proof (cases "truthy (dget (as_dict (job_payload j)) ''download_id'')")
  case True
  then show ?thesis using assms after_download_kept by (auto simp: download_episode_def Let_def)
next
  case False
  obtain res ms1 where d: "download_with_yt_dlp env j (as_dict (job_payload j)) ms = (res, ms1)" by fastforce
  note k = download_with_yt_dlp_kept [OF d]
  show ?thesis
  proof (cases res)
    case (Inl e)
    then show ?thesis using assms False d k by (simp add: download_episode_def Let_def)
  next
    case (Inr x)
    then have "jobs_kept (ms_db ms1) (ms_db ms')"
      using assms False d after_download_kept queue_child_kept
      by (cases x) (auto simp: download_episode_def enqueue_transcode_job_def Let_def)
    then show ?thesis by (rule jobs_kept_trans [OF k])
  qed
qed

section \<open>Transcripts, text recognition and retention\<close>

lemma rows_same:
  "same_jobs d (add_segments segs d') = same_jobs d d'" "same_jobs d (delete_segments n d') = same_jobs d d'"
  "same_jobs d (update_download n f d') = same_jobs d d'" "same_jobs d (mark_filtered now n d') = same_jobs d d'"
  by (simp_all add: same_jobs_def add_segments_def delete_segments_def update_download_def mark_filtered_def
      update_downloads_where_def)

lemma save_subtitle_same [simp]: "same_jobs d (ms_db (save_subtitle env profile r sub ms)) = same_jobs d (ms_db ms)"
  by (simp add: save_subtitle_def rows_same)

lemma screen_saved_same: "same_jobs d (ms_db ms) \<Longrightarrow> same_jobs d (ms_db (screen_saved env r media sub ms))"
  by (auto simp: screen_saved_def rows_same split: sum.split option.split)

lemma transcribe_download_same:
  assumes "transcribe_download env profile r payload media ms = (err, ms')"
  shows "same_jobs (ms_db ms) (ms_db ms')"
proof -
  have "same_jobs (ms_db ms) (ms_db ms1)" if "create_subtitles wenv m off en ms = (sub, ms1)" for wenv m off en sub ms1
    using create_subtitles_db(1) [OF that] by simp
  then show ?thesis
    using assms
    by (auto simp: transcribe_download_def rows_same Let_def intro!: screen_saved_same
        split: if_splits sum.splits prod.splits option.splits)
qed

lemma generate_deferred_screening_kept:
  assumes "generate_deferred_screening env j payload ms = (err, ms')"
  shows "jobs_kept (ms_db ms) (ms_db ms')"
proof -
  let ?t = "touch_job (tr_now env) ''deferred_transcript_screening''
      (or_else (str_or_empty (dget (as_dict (dget payload ''deferred_download_defaults'')) ''title''))
        (path_name (md_resolve (tr_media env) (path_of (py_str (dget payload ''deferred_media_path'')))))) j ms"
  have "ms' = ms \<or> same_jobs (ms_db ?t) (ms_db ms')"
    using assms screen_deferred_video_same
    by (fastforce simp: generate_deferred_screening_def Let_def split: if_splits sum.splits prod.splits)
  then show ?thesis using jobs_kept_same_trans [OF touch_job_kept] by auto
qed

lemma generate_transcript_kept:
  assumes "generate_transcript env j ms = (err, ms')"
  shows "jobs_kept (ms_db ms) (ms_db ms')"
proof (cases "truthy (dget (as_dict (job_payload j)) ''download_id'')")
  case False
  then show ?thesis
    using assms generate_deferred_screening_kept by (auto simp: generate_transcript_def Let_def split: if_splits)
next
  case True
  show ?thesis
  proof (cases "find_by_id (job_profile_id j) (dget (as_dict (job_payload j)) ''download_id'') (ms_db ms)")
    case (Inr found)
    show ?thesis
    proof (cases found)
      case (Some r)
      let ?t = "touch_job (tr_now env) ''transcript_generation'' (py_strip (text_of (dl_title r))) j ms"
      let ?media = "md_resolve (tr_media env) (path_of (text_of (dl_file_path r)))"
      obtain res ms2 where l: "ensure_local_media (tr_fetch env) (tr_now env) r ?media ?t = (res, ms2)" by fastforce
      have "same_jobs (ms_db ?t) (ms_db ms')"
        using assms True Inr Some l ensure_local_media_db(1) [OF l] transcribe_download_same
        by (cases res) (fastforce simp: generate_transcript_def Let_def split: if_splits)+
      then show ?thesis by (rule jobs_kept_same_trans [OF touch_job_kept])
    qed (use assms True Inr in \<open>simp add: generate_transcript_def Let_def\<close>)
  qed (use assms True in \<open>simp add: generate_transcript_def Let_def\<close>)
qed

lemma recognise_kept:
  assumes "recognise env j r p ms = (err, ms')"
  shows "jobs_kept (ms_db ms) (ms_db ms')"
proof -
  let ?t = "touch_job (tr_now (oc_transcripts env)) ''pdf_ocr'' (or_else (text_of (dl_title r)) (path_name p)) j ms"
  have "ms' = ms \<or> same_jobs (ms_db ?t) (ms_db ms')"
    using assms by (auto simp: recognise_def store_ocr_def rows_same Let_def split: if_splits sum.splits)
  then show ?thesis using jobs_kept_same_trans [OF touch_job_kept] by auto
qed

lemma ocr_pdf_kept:
  assumes "ocr_pdf env j ms = (err, ms')"
  shows "jobs_kept (ms_db ms) (ms_db ms')"
proof (cases "\<exists>r. recognise env j r (md_resolve (tr_media (oc_transcripts env)) (path_of (text_of (dl_file_path r)))) ms = (err, ms')")
  case True
  then show ?thesis using recognise_kept by blast
next
  case False
  have k: "jobs_kept (ms_db ms) (ms_db ms1)" if "ensure_local_media fenv now r p ms = (res, ms1)" for fenv now r p res ms1
    using ensure_local_media_db(1) [OF that] by simp
  have "jobs_kept (ms_db ms) (ms_db ms')"
    if "ensure_local_media fenv now r p ms = (res, ms1)" "recognise env j r q ms1 = (err, ms')" for fenv now r p q res ms1
    using jobs_kept_trans [OF k [OF that(1)] recognise_kept [OF that(2)]] .
  then show ?thesis
    using assms False k
    by (auto simp: ocr_pdf_def Let_def split: if_splits option.splits prod.splits sum.splits error.splits)
qed

lemma retention_step_same: "same_jobs d (snd (retention_step ex lf now cutoff r (fs, d')) ) = same_jobs d d'"
  by (simp add: retention_step_def mark_row_def rows_same split: retention_verdict.split)

lemma retention_cleanup_kept:
  assumes "retention_cleanup ex lf now j ms = (err, ms')"
  shows "jobs_kept (ms_db ms) (ms_db ms')"
proof -
  have "same_jobs d (snd (fold (retention_step ex lf now cutoff) rs (fs, d'))) = same_jobs d d'" for d cutoff rs fs d'
    by (induction rs arbitrary: fs d') (simp_all, metis prod.collapse retention_step_same)
  then have "same_jobs (ms_db ms) (ms_db ms')"
    using assms by (auto simp: retention_cleanup_def Let_def split: if_splits prod.splits) (metis same_jobs_refl snd_conv)
  then show ?thesis by (rule same_jobs_kept)
qed

section \<open>Conversion\<close>

lemma set_lock_same: "same_jobs d (set_lock now key v d')= same_jobs d d'"
  by (simp add: same_jobs_def set_lock_def)

lemma ensure_row_same: "same_jobs d (ensure_app_config_row now key d') = same_jobs d d'"
  by (simp add: same_jobs_def ensure_app_config_row_def)

lemma lock_step_same: "same_jobs d (snd (lock_step lease key oper d')) = same_jobs d d'"
proof -
  obtain now moved where oper: "oper = (now, moved)" by (cases oper)
  show ?thesis
    unfolding oper
    by (cases moved) (simp_all add: lock_try_def lock_renew_def lock_release_def set_lock_same ensure_row_same Let_def)
qed

lemma lock_run_same: "same_jobs d (snd (lock_run lease key ops d')) = same_jobs d d'"
proof (induction ops arbitrary: d')
  case (Cons x ops)
  obtain r d1 where one: "lock_step lease key x d' = (r, d1)" by fastforce
  have "same_jobs d d1 = same_jobs d d'" using lock_step_same [of d lease key x d'] one by simp
  then show ?case using Cons.IH [of d1] one by (auto simp: case_prod_beta)
qed simp

lemma lock_wait_same:
  "lock_wait lease key owner polls d' = (ok, d2) \<Longrightarrow> \<forall>(t, f) \<in> set polls. \<forall>x. same_jobs d (f x) = same_jobs d x \<Longrightarrow>
   same_jobs d d2 = same_jobs d d'"
proof (induction lease key owner polls d' rule: lock_wait.induct)
  case (2 lease key owner now others polls d')
  obtain r d1 where one: "lock_try lease now key owner d' = (r, d1)" by fastforce
  have s: "same_jobs d d1 = same_jobs d d'"
    using lock_step_same [of d lease key "(now, Try owner)" d'] one by simp
  show ?case
  proof (cases r)
    case True
    then show ?thesis using 2 one s by simp
  next
    case False
    then show ?thesis using 2 one s by auto
  qed
qed simp

lemma fold_renew_same: "same_jobs d (fold (\<lambda>t. lock_renew lease t key owner) beats d') = same_jobs d d'"
proof (induction beats arbitrary: d')
  case (Cons t beats)
  then show ?case using lock_step_same [of d lease key "(t, Renew owner)" d'] by simp
qed simp

lemma with_transcode_lock_kept:
  assumes "with_transcode_lock env profile payload owner body ms = Some (res, ms')"
    and "\<And>m r m'. body m = Some (r, m') \<Longrightarrow> jobs_kept (ms_db m) (ms_db m')"
  shows "jobs_kept (ms_db ms) (ms_db ms')"
proof -
  let ?key = "transcode_lock_key (cv_media env) profile payload"
  obtain d where w: "lock_wait transcode_lease ?key owner (lock_polls env ?key) (ms_db ms) = (True, d)"
    using assms(1) by (auto simp: with_transcode_lock_def Let_def split: prod.splits bool.splits)
  have "same_jobs (ms_db ms) d"
    using lock_wait_same [OF w, of "ms_db ms"] by (force simp: lock_polls_def lock_run_same)
  moreover obtain ms1 where b: "body (with_database (\<lambda>_. d) ms) = Some (res, ms1)"
    and ms': "ms' = with_database (\<lambda>d1. lock_release (cv_now env) ?key owner
        (fold (\<lambda>t. lock_renew transcode_lease t ?key owner) (cv_beats env) d1)) ms1"
    using assms(1) w by (auto simp: with_transcode_lock_def Let_def)
  moreover have "same_jobs (ms_db ms1) (ms_db ms')"
    using lock_step_same [of "ms_db ms1" transcode_lease ?key "(cv_now env, Release owner)"
        "fold (\<lambda>t. lock_renew transcode_lease t ?key owner) (cv_beats env) (ms_db ms1)"]
    by (simp add: ms' fold_renew_same)
  ultimately show ?thesis
    using assms(2) [OF b] jobs_kept_trans [OF same_jobs_kept] jobs_kept_same_trans by fastforce
qed

lemma save_converted_same: "save_converted env base target bytes payload dl d = Inr (r, d') \<Longrightarrow> same_jobs d d'"
  by (auto simp: save_converted_def bind_result_Inr rows_same split: option.splits if_splits intro: upsert_download_same)

lemma run_conversion_kept:
  assumes "run_conversion env profile payload dl sources target kind ext ms = (res, ms')"
  shows "jobs_kept (ms_db ms) (ms_db ms')"
proof -
  have "jobs_kept (ms_db m) (ms_db m')"
    if "finish_conversion env profile payload dl sources target kind m = (res, m')" for m m'
    using that queue_child_kept save_converted_same same_jobs_kept
    by (auto simp: finish_conversion_def Let_def split: if_splits prod.splits option.splits sum.splits)
  from this [of "with_files (\<lambda>_. snd (cv_ffmpeg env (conversion_command (ms_db ms) profile kind ext sources target)
      (ms_files ms))) ms"] show ?thesis
    using assms by (auto simp: run_conversion_def Let_def split: prod.splits option.splits if_splits)
qed

lemma convert_locked_kept:
  assumes "convert_locked env profile payload dl sources target kind ext ms = Some (res, ms')"
  shows "jobs_kept (ms_db ms) (ms_db ms')"
proof -
  have k: "jobs_kept (ms_db ms) (ms_db ms1)"
    if "gather_inputs env payload dl sources target ext ms = Some (g, ms1)" for g ms1
    using gather_inputs_frame [OF that] by simp
  then have "jobs_kept (ms_db ms) (ms_db m')"
    if "gather_inputs env payload dl sources target ext ms = Some (g, ms1)"
      "run_conversion env profile payload dl found t kind ext ms1 = (res, m')" for g ms1 found t m'
    using that run_conversion_kept jobs_kept_trans by blast
  then show ?thesis
    using assms k by (auto simp: convert_locked_def split: sum.splits option.splits if_splits list.splits)
qed

lemma postprocess_kept:
  assumes "postprocess_download_with_ffmpeg env profile payload owner ms = Some (res, ms')"
  shows "jobs_kept (ms_db ms) (ms_db ms')"
  using assms with_transcode_lock_kept convert_locked_kept
  by (fastforce simp: postprocess_download_with_ffmpeg_def Let_def split: sum.splits option.splits if_splits)

lemma transcode_media_kept:
  assumes "transcode_media env j ms = Some (err, ms')"
  shows "jobs_kept (ms_db ms) (ms_db ms')"
proof -
  let ?t = "touch_job (cv_now env) ''ffmpeg_conversion'' [] j ms"
  obtain res ms2 where p: "postprocess_download_with_ffmpeg env (job_profile_id j) (as_dict (job_payload j))
      (str_of_int (job_id j)) ?t = Some (res, ms2)"
    using assms by (auto simp: transcode_media_def Let_def)
  have "ms' = ms2 \<or> jobs_kept (ms_db ms2) (ms_db ms')"
    using assms p queue_child_kept by (auto simp: transcode_media_def Let_def split: sum.splits option.splits)
  then show ?thesis
    using jobs_kept_trans [OF touch_job_kept [of ms] postprocess_kept [OF p]] jobs_kept_trans by blast
qed

section \<open>Every handler meets the contract\<close>

lemma on_store_kept:
  assumes "on_store env f j w = Some (err, w')"
    and "\<And>j ms err ms'. f j ms = Some (err, ms') \<Longrightarrow> jobs_kept (ms_db ms) (ms_db ms')"
  shows "jobs_kept (db w) (db w')"
  using assms(1) assms(2) by (fastforce simp: on_store_def)

interpretation discovery_handler: job_handler "\<lambda>j w. Some (check_for_episodes (we_discovery env) (we_now env) w)"
  by unfold_locales (auto simp: check_for_episodes_def dest: check_sources_kept)

interpretation download_handler: job_handler "on_store env (\<lambda>j ms. Some (download_episode (we_fetch env) j ms))"
  by unfold_locales (auto elim!: on_store_kept dest: download_episode_kept)

interpretation conversion_handler: job_handler "on_store env (transcode_media (we_convert env))"
  by unfold_locales (auto elim!: on_store_kept dest: transcode_media_kept)

interpretation transcript_handler:
  job_handler "on_store env (\<lambda>j ms. Some (generate_transcript (fv_transcripts (we_fetch env)) j ms))"
  by unfold_locales (auto elim!: on_store_kept dest: generate_transcript_kept)

interpretation ocr_handler: job_handler "on_store env (\<lambda>j ms. Some (ocr_pdf (we_ocr env) j ms))"
  by unfold_locales (auto elim!: on_store_kept dest: ocr_pdf_kept)

interpretation retention_handler: job_handler "on_store env (\<lambda>j ms. Some
    (retention_cleanup (we_expanduser env) (we_locked_file env) (we_now env) j ms))"
  by unfold_locales (auto elim!: on_store_kept dest: retention_cleanup_kept)

lemma handlers_kept:
  assumes "map_of (HANDLERS env) kind = Some h" and "h j w = Some (err, w')"
  shows "jobs_kept (db w) (db w')"
  using assms discovery_handler.kept download_handler.kept conversion_handler.kept transcript_handler.kept
    ocr_handler.kept retention_handler.kept
  by (fastforce simp: HANDLERS_def update_downloads_def download_single_def split: if_splits)

lemma handlers_keep:
  assumes "map_of (HANDLERS env) kind = Some h"
  shows "keeps_job n h"
  using assms discovery_handler.keeps download_handler.keeps conversion_handler.keeps transcript_handler.keeps
    ocr_handler.keeps retention_handler.keeps
  by (auto simp: HANDLERS_def update_downloads_def download_single_def split: if_splits)

section \<open>Properties\<close>

text \<open>No message of a worker meets a missing handler: the types of job the workers take are exactly
  the types the handler table has, each once.\<close>

theorem handlers_cover_workers:
  "fst ` set (HANDLERS env) = job_type_value ` set (concat (map snd JOB_TYPES_BY_WORKER))
   \<and> distinct (map fst (HANDLERS env))"
  by (auto simp: HANDLERS_def JOB_TYPES_BY_WORKER_def)

text \<open>C3: A worker with the program's own handlers settles every job it takes: whatever the handler of the
  job's type does, downloads, conversions, transcripts, text recognition, retention or discovery, a
  queued job ends succeeded when the handler returned and failed when it raised, and a second
  delivery of its message runs nothing and changes nothing.\<close>

theorem worker_settles_job:
  assumes "process_queued_job_message (renv\<lparr>re_handlers := map_of (HANDLERS env)\<rparr>) n w = Some (err, w')"
    and "jobs_wf (db w)" and "status_of (db w) n = Some QUEUED"
  shows "status_of (db w') n = Some (case err of None \<Rightarrow> SUCCEEDED | Some _ \<Rightarrow> FAILED)
    \<and> process_queued_job_message (renv\<lparr>re_handlers := map_of (HANDLERS env)\<rparr>) n w' = Some (None, w')"
proof -
  let ?renv = "renv\<lparr>re_handlers := map_of (HANDLERS env)\<rparr>"
  have keep: "re_handlers ?renv kind = Some h \<Longrightarrow> keeps_job n h" for kind h
    using handlers_keep by simp
  have p: "jobs_wf (db w')"
    "status_of (db w') n = Some (case err of None \<Rightarrow> SUCCEEDED | Some _ \<Rightarrow> FAILED)"
    using process_claimed [OF assms keep] by simp_all
  then have "status_of (db w') n \<noteq> Some QUEUED" by (simp split: option.split)
  then show ?thesis using p process_skips by simp
qed

definition sample_worker :: worker_env where
  "sample_worker = \<lparr>we_now = 7, we_discovery = sample_discovery, we_fetch = sample_fetch, we_convert = sample_convert,
     we_ocr = sample_ocr, we_expanduser = id, we_locked_file = (\<lambda>_. False), we_text = (\<lambda>_. []), we_mtime = (\<lambda>_. 0)\<rparr>"

definition cleanup_world :: world where
  "cleanup_world = \<lparr>db = snd (create_job 0 ''default'' ''retention_cleanup'' (PDict []) None empty_database),
     broker = [], files = (\<lambda>_. None)\<rparr>"

lemma cleanup_world_db: "jobs_wf (db cleanup_world)" "status_of (db cleanup_world) 1 = Some QUEUED"
  by (simp_all add: cleanup_world_def create_job_def create_lookup_def create_insert_def insert_job_def
      new_job_def jobs_wf_def status_of_def empty_database_def Let_def)

theorem worker_settles_job_witness:
  "\<exists>err w'. process_queued_job_message (sample_env\<lparr>re_handlers := map_of (HANDLERS sample_worker)\<rparr>) 1 cleanup_world
       = Some (err, w') \<and> status_of (db w') 1 \<in> {Some SUCCEEDED, Some FAILED}"
proof -
  let ?env = "sample_env\<lparr>re_handlers := map_of (HANDLERS sample_worker)\<rparr>"
  have run: "\<exists>err w'. run_claimed_job ?env j w = Some (err, w')" if "job_kind j = ''retention_cleanup''" for j w
    using that by (auto simp: run_claimed_job_def HANDLERS_def on_store_def HEAVY_JOB_TYPES_def)
  obtain j d1 where c: "claim_job (re_claim_time ?env) 1 (db cleanup_world) = (Some j, d1)"
    and k: "job_kind j = ''retention_cleanup''"
    by (auto simp: cleanup_world_def create_job_def create_lookup_def create_insert_def insert_job_def new_job_def
        empty_database_def claim_job_def sample_env_def Let_def)
  have "\<exists>err w'. process_queued_job_message ?env 1 cleanup_world = Some (err, w')"
    using run [OF k, of "cleanup_world\<lparr>db := d1\<rparr>"] c by (auto simp: process_queued_job_message_def split: option.split)
  then obtain err w' where r: "process_queued_job_message ?env 1 cleanup_world = Some (err, w')" by blast
  from worker_settles_job [OF r cleanup_world_db] show ?thesis using r by (auto split: option.splits)
qed

end
