(* ===== verification/Lifecycle.thy ===== *)
theory Lifecycle
  imports Enqueue Handlers
begin

text \<open>
  A job's way through the whole system: asked for on the dashboard (\<open>Enqueue\<close>), stored and published
  (\<open>Jobs\<close>, \<open>Routing\<close>), delivered to the worker of its queue (\<open>Runner\<close>), run by the program's own handlers
  (\<open>Handlers\<close>), and asked about again by the dashboard.
\<close>

section \<open>From the queue to the worker\<close>

lemma worker_of_queue_accepts:
  assumes q: "map_option queue_value (map_of QUEUE_BY_WORKER worker) = Some (queue_for_job j)"
    and k: "parse_job_type (PStr (job_kind j)) \<noteq> None"
    and row: "row_at job_id n (jobs d) = Some j"
  shows "worker_accepts_job worker n d"
proof (cases "worker \<in> set DOWNLOADER_WORKERS")
  case True
  then have w: "worker = ''downloader-youtube'' \<or> worker = ''downloader-podcast''"
    by (simp add: DOWNLOADER_WORKERS_def)
  obtain t where t: "parse_job_type (PStr (job_kind j)) = Some t" using k by blast
  have "queue_for_job j = queue_value (download_queue_name (job_payload j))"
    using w q t by (cases t) (auto simp: queue_for_job_def queue_name_def QUEUE_BY_WORKER_def)
  then show ?thesis
    using q w row unfolding worker_accepts_job_def download_queue_source
    by (cases "source_type_for_downloader_job j") (auto simp: QUEUE_BY_WORKER_def)
qed (simp add: worker_accepts_job_def)

lemma published_job:
  assumes new: "create_lookup key (db w) = None" and "jobs_wf (db w)" and "0 < next_job_id (db w)"
  obtains m where "create_and_publish now profile kind payload key w
      = (Inr (new_job now profile kind payload key (db w)),
         w\<lparr>db := insert_job (new_job now profile kind payload key (db w)) (db w), broker := broker w @ [m]\<rparr>)"
    and "message_job_id (Some (PDict (pub_body m))) = Inr (next_job_id (db w))"
    and "pub_routing_key m = queue_for_job (new_job now profile kind payload key (db w))"
    and "row_at job_id (next_job_id (db w)) (jobs (insert_job (new_job now profile kind payload key (db w)) (db w)))
      = Some (new_job now profile kind payload key (db w))"
proof -
  let ?j = "new_job now profile kind payload key (db w)"
  let ?w = "w\<lparr>db := insert_job ?j (db w)\<rparr>"
  have c: "create_job now profile kind payload key (db w) = (?j, insert_job ?j (db w))"
    using new by (simp add: create_job_def create_insert_def Let_def)
  have none: "row_at job_id (next_job_id (db w)) (jobs (db w)) = None"
    using assms(2) by (auto simp: first_row_None jobs_wf_def)
  then have row: "row_at job_id (next_job_id (db w)) (jobs (insert_job ?j (db w))) = Some ?j"
    by (simp add: insert_job_def row_at_append new_job_def)
  obtain m where m: "publish_job (job_message ?j) ?w = Inr (?w\<lparr>broker := broker ?w @ [m]\<rparr>)"
      "map_of (pub_body m) ''job_id'' = Some (PInt (job_id ?j))"
      "\<forall>v. job_id ?j \<noteq> 0 \<and> stored_payload (db ?w) (job_id ?j) = Some v \<longrightarrow> pub_routing_key m = queue_name (job_kind ?j) v"
    by (rule publish_job_message [of ?j ?w]) blast
  show thesis
  proof (rule that [of m])
    show "create_and_publish now profile kind payload key w
        = (Inr ?j, w\<lparr>db := insert_job ?j (db w), broker := broker w @ [m]\<rparr>)"
      using m(1) c by (simp add: create_and_publish_def Let_def)
    show "message_job_id (Some (PDict (pub_body m))) = Inr (next_job_id (db w))"
      using m(2) by (simp add: message_job_id_def new_job_def)
    have "stored_payload (db ?w) (job_id ?j) = Some (job_payload ?j)"
      using row by (simp add: stored_payload_def new_job_def)
    then show "pub_routing_key m = queue_for_job ?j"
      using m(3) assms(3) by (simp add: queue_for_job_def new_job_def)
  qed (rule row)
qed

section \<open>From the delivery to the outcome\<close>

text \<open>The row of a job, told by its identity and its state.\<close>

lemma row_by_identity:
  assumes wf: "jobs_wf d" and i: "(n, p, k) \<in> job_identity ` set (jobs d)" and st: "status_of d n = Some st"
  obtains j where "first_row (\<lambda>j. job_profile_id j = p \<and> job_id j = n) (jobs d) = Some j" "job_state j = st"
proof -
  obtain j where j: "j \<in> set (jobs d)" "job_id j = n" "job_profile_id j = p"
    using i by (auto simp: job_identity_def)
  have one: "x = j" if "x \<in> set (jobs d)" "job_id x = n" for x
    using wf j that by (auto simp: jobs_wf_def distinct_map inj_on_def)
  have "first_row (\<lambda>j. job_profile_id j = p \<and> job_id j = n) (jobs d) \<noteq> None"
    using j first_row_None [of "\<lambda>j. job_profile_id j = p \<and> job_id j = n" "jobs d"] by auto
  then obtain x where x: "first_row (\<lambda>j. job_profile_id j = p \<and> job_id j = n) (jobs d) = Some x" by blast
  have "x = j" using first_row_Some [OF x] one by blast
  moreover obtain y where y: "row_at job_id n (jobs d) = Some y" "job_state y = st" using st by (auto simp: status_of_def)
  moreover have "y = j" using first_row_Some [OF y(1)] one by blast
  ultimately show thesis using that x by blast
qed

lemma status_by_id:
  assumes "first_row (\<lambda>j. job_profile_id j = p \<and> job_id j = n) (jobs d) = Some j"
  shows "worker_message_status p [] (str_of_int n) d = Done (job_status_reply j)"
proof -
  have "py_int (py_strip (str_of_int n)) = Some n" using py_int_str_of_int [of n] by (simp add: py_int_def)
  moreover from this have "py_strip (str_of_int n) \<noteq> []" by (metis py_int_Nil option.distinct(1))
  moreover have "py_strip [] = []" by (simp add: py_strip_def strip_chars_def rstrip_chars_def)
  ultimately show ?thesis using assms by (simp add: worker_message_status_def)
qed

lemma delivered_job:
  assumes run: "handle_delivery config tag body renv w = r" and id: "message_job_id body = Inr n"
    and handlers: "re_handlers renv = map_of (HANDLERS env)"
    and accepts: "worker_accepts_job (wc_worker_type config) n (db w)"
    and wf: "jobs_wf (db w)" and queued: "status_of (db w) n = Some QUEUED"
    and i: "(n, p, k) \<in> job_identity ` set (jobs (db w))"
  shows "\<exists>out. r = Inr out \<and> (\<forall>c action w'. out = Some (c, action, w') \<longrightarrow> c = 1 \<and> jobs_wf (db w')
     \<and> (n, p, k) \<in> job_identity ` set (jobs (db w'))
     \<and> (action = Ack tag \<and> status_of (db w') n = Some SUCCEEDED
        \<or> action = NackDrop tag \<and> status_of (db w') n = Some FAILED))"
proof -
  have r: "r = Inr (process_delivery tag renv n w)"
    using run id accepts by (auto simp: handle_delivery_def)
  have "jobs_wf (db w') \<and> (n, p, k) \<in> job_identity ` set (jobs (db w')) \<and>
      status_of (db w') n = Some (case err of None \<Rightarrow> SUCCEEDED | Some _ \<Rightarrow> FAILED)"
    if p: "process_queued_job_message renv n w = Some (err, w')" for err w'
  proof -
    have "jobs_kept (db w) (db w')" by (rule process_keeps_rows [OF p]) (simp add: handlers handlers_kept)
    moreover have "re_handlers renv kind = Some h \<Longrightarrow> keeps_job n h" for kind h
      using handlers handlers_keep by simp
    ultimately show ?thesis using process_claimed [OF p wf queued] i by (auto simp: jobs_kept_def)
  qed
  then show ?thesis
    unfolding r process_delivery_def by (fastforce split: option.splits prod.splits)
qed

lemma settled_delivery:
  assumes "message_job_id body = Inr n" and "jobs_wf (db w)" and "status_of (db w) n \<noteq> Some QUEUED"
  shows "\<exists>c action. handle_delivery config tag body renv w = Inr (Some (c, action, w))"
  using assms process_skips [of w n renv] by (simp add: handle_delivery_def process_delivery_def)

section \<open>Properties\<close>

lemma enqueued_job:
  assumes request: "enqueue_job now token profile post w = (Done a, w1)"
    and "jobs_wf (db w)" and "0 < next_job_id (db w)"
    and "create_lookup (Some (enqueue_key token (py_strip (post_text post ''job_type'')) profile post)) (db w) = None"
  obtains j where "row_at job_id (eq_job_id a) (jobs (db w1)) = Some j" and "job_profile_id j = profile"
    and "job_state j = QUEUED" and "job_error_message j = None"
    and "parse_job_type (PStr (job_kind j)) \<noteq> None"
    and "message_job_id (Some (PDict (pub_body (last (broker w1))))) = Inr (eq_job_id a)"
    and "pub_routing_key (last (broker w1)) = queue_for_job j"
proof -
  let ?kind = "py_strip (post_text post ''job_type'')"
  let ?payload = "PDict (enqueue_payload token ?kind post)"
  let ?key = "Some (enqueue_key token ?kind profile post)"
  let ?j = "new_job now profile ?kind ?payload ?key (db w)"
  obtain m where m: "create_and_publish now profile ?kind ?payload ?key w
      = (Inr ?j, w\<lparr>db := insert_job ?j (db w), broker := broker w @ [m]\<rparr>)"
      "message_job_id (Some (PDict (pub_body m))) = Inr (next_job_id (db w))"
      "pub_routing_key m = queue_for_job ?j"
      "row_at job_id (next_job_id (db w)) (jobs (insert_job ?j (db w))) = Some ?j"
    by (rule published_job [OF assms(4,2,3)])
  have kind: "?kind \<in> set ALLOWED_JOB_TYPES"
    using request by (auto simp: enqueue_job_def Let_def split: if_splits)
  then have "eq_job_id a = next_job_id (db w)" "w1 = w\<lparr>db := insert_job ?j (db w), broker := broker w @ [m]\<rparr>"
    using request m(1) by (auto simp: enqueue_job_def Let_def new_job_def)
  moreover have "parse_job_type (PStr ?kind) \<noteq> None"
    using kind parse_values(3) [of UPDATE_DOWNLOADS] parse_values(3) [of DOWNLOAD_SINGLE]
    by (auto simp: ALLOWED_JOB_TYPES_def)
  ultimately show thesis using m that [of ?j] by (simp add: new_job_def)
qed

text \<open>C2: A job asked for on the dashboard is carried through: its request is answered with the number of a
  queued job and publishes a message that the worker of its queue, whichever it is, accepts; when
  that worker has taken it, whatever happened before and whatever the handler did, the message is
  acknowledged exactly if the status the dashboard then reads is succeeded, and rejected exactly if
  it is failed; and the same message delivered again, to any worker, changes nothing.\<close>

theorem requested_job_settled:
  assumes request: "enqueue_job now token profile post w = (Done a, w1)"
    and fresh: "jobs_wf (db w)" "0 < next_job_id (db w)"
      "create_lookup (Some (enqueue_key token (py_strip (post_text post ''job_type'')) profile post)) (db w) = None"
    and later: "jobs_wf (db w2)" "row_at job_id (eq_job_id a) (jobs (db w2)) = row_at job_id (eq_job_id a) (jobs (db w1))"
    and worker: "map_option queue_value (map_of QUEUE_BY_WORKER (wc_worker_type config)) = Some (pub_routing_key (last (broker w1)))"
    and handlers: "re_handlers renv = map_of (HANDLERS env)"
  defines "body \<equiv> Some (PDict (pub_body (last (broker w1))))"
    and "answer \<equiv> \<lambda>d. worker_message_status profile [] (str_of_int (eq_job_id a)) d"
  shows "answer (db w2) = Done \<lparr>st_finished = False, st_ok = True, st_status = Some ''queued'', st_error = Some []\<rparr>
    \<and> (\<exists>out. handle_delivery config tag body renv w2 = Inr out
        \<and> (\<forall>c action w3. out = Some (c, action, w3) \<longrightarrow>
             (\<exists>s. answer (db w3) = Done s \<and> st_finished s \<and>
                (action = Ack tag \<and> st_status s = Some ''succeeded'' \<or> action = NackDrop tag \<and> st_status s = Some ''failed''))
             \<and> (\<exists>c2 action2. handle_delivery config2 tag2 body renv2 w3 = Inr (Some (c2, action2, w3)))))"
proof -
  let ?n = "eq_job_id a"
  obtain j where j: "row_at job_id ?n (jobs (db w1)) = Some j" "job_profile_id j = profile"
      "job_state j = QUEUED" "job_error_message j = None" "parse_job_type (PStr (job_kind j)) \<noteq> None"
      "message_job_id body = Inr ?n" "pub_routing_key (last (broker w1)) = queue_for_job j"
    using enqueued_job [OF request fresh] unfolding body_def by blast
  have row: "row_at job_id ?n (jobs (db w2)) = Some j" using later(2) j(1) by simp
  then have mem: "j \<in> set (jobs (db w2))" "job_id j = ?n" by (auto dest: first_row_Some)
  have identity: "(?n, profile, job_kind j) \<in> job_identity ` set (jobs (db w2))"
    using mem j(2) by (force simp: job_identity_def)
  have queued: "status_of (db w2) ?n = Some QUEUED" using row j(3) by (simp add: status_of_def)
  have accepts: "worker_accepts_job (wc_worker_type config) ?n (db w2)"
    using worker_of_queue_accepts [OF _ j(5) row] worker j(7) by simp
  have pending: "answer (db w2) = Done \<lparr>st_finished = False, st_ok = True, st_status = Some ''queued'', st_error = Some []\<rparr>"
  proof -
    obtain x where x: "first_row (\<lambda>r. job_profile_id r = profile \<and> job_id r = ?n) (jobs (db w2)) = Some x"
      using row_by_identity [OF later(1) identity queued] by metis
    have "x = j" using first_row_Some [OF x] mem later(1) by (auto simp: jobs_wf_def distinct_map inj_on_def)
    then show ?thesis using status_by_id [OF x] j(3,4) by (simp add: answer_def job_status_reply_def)
  qed
  obtain out where out: "handle_delivery config tag body renv w2 = Inr out"
      "\<forall>c action w3. out = Some (c, action, w3) \<longrightarrow> c = 1 \<and> jobs_wf (db w3)
         \<and> (?n, profile, job_kind j) \<in> job_identity ` set (jobs (db w3))
         \<and> (action = Ack tag \<and> status_of (db w3) ?n = Some SUCCEEDED
            \<or> action = NackDrop tag \<and> status_of (db w3) ?n = Some FAILED)"
    using delivered_job [OF refl j(6) handlers accepts later(1) queued identity] by blast
  have "(\<exists>s. answer (db w3) = Done s \<and> st_finished s \<and>
          (action = Ack tag \<and> st_status s = Some ''succeeded'' \<or> action = NackDrop tag \<and> st_status s = Some ''failed''))
      \<and> (\<exists>c2 action2. handle_delivery config2 tag2 body renv2 w3 = Inr (Some (c2, action2, w3)))"
    if "out = Some (c, action, w3)" for c action w3
  proof -
    have w3: "jobs_wf (db w3)" "(?n, profile, job_kind j) \<in> job_identity ` set (jobs (db w3))"
        "action = Ack tag \<and> status_of (db w3) ?n = Some SUCCEEDED \<or> action = NackDrop tag \<and> status_of (db w3) ?n = Some FAILED"
      using out(2) that by blast+
    then obtain st where st: "status_of (db w3) ?n = Some st" "st \<in> {SUCCEEDED, FAILED}" by auto
    obtain x where x: "first_row (\<lambda>r. job_profile_id r = profile \<and> job_id r = ?n) (jobs (db w3)) = Some x" "job_state x = st"
      by (rule row_by_identity [OF w3(1,2) st(1)])
    have "answer (db w3) = Done (job_status_reply x)" using status_by_id [OF x(1)] by (simp add: answer_def)
    moreover obtain y where y: "row_at job_id ?n (jobs (db w3)) = Some y" using st(1) by (auto simp: status_of_def)
    have "y = x" using first_row_Some [OF x(1)] first_row_Some [OF y] w3(1)
      by (auto simp: jobs_wf_def distinct_map inj_on_def)
    moreover have "\<exists>c2 action2. handle_delivery config2 tag2 body renv2 w3 = Inr (Some (c2, action2, w3))"
      using settled_delivery [OF j(6) w3(1)] st by auto
    ultimately show ?thesis using w3(3) st x(2) by (auto simp: job_status_reply_def)
  qed
  then show ?thesis using pending out(1) by blast
qed

text \<open>A request for an update on an empty installation, and the worker of updates that takes it.\<close>

definition update_form :: form where
  "update_form = [(''job_type'', ''update_downloads'')]"

definition update_request :: "enqueue_reply reply \<times> world" where
  "update_request = enqueue_job 3 ''tok'' ''ann'' update_form \<lparr>db = empty_database, broker = [], files = Map.empty\<rparr>"

definition updates_worker :: worker_config where
  "updates_worker = \<lparr>wc_worker_type = ''updates'', wc_queue = queue_value SERIAL_EPISODE_CHECK_QUEUE,
     wc_prefetch_count = 1, wc_max_messages = 1\<rparr>"

definition updates_run :: run_env where
  "updates_run = sample_env\<lparr>re_handlers := map_of (HANDLERS sample_worker)\<rparr>"

definition update_reply :: enqueue_reply where
  "update_reply = \<lparr>eq_job_id = 1, eq_status = ''queued'', eq_params = [(''profile_id'', ''ann''), (''token'', ''tok'')]\<rparr>"

lemma update_sample:
  "fst update_request = Done update_reply"
  "map_option queue_value (map_of QUEUE_BY_WORKER (wc_worker_type updates_worker))
    = Some (pub_routing_key (last (broker (snd update_request))))"
  "map job_id (jobs (db (snd update_request))) = [1]"
  "next_job_id (db (snd update_request)) = 2"
  by code_simp+

lemma update_delivery_ends:
  "case handle_delivery updates_worker 7 (Some (PDict (pub_body (last (broker (snd update_request)))))) updates_run (snd update_request) of
     Inr (Some (c, action, w3)) \<Rightarrow> action = Ack 7 | _ \<Rightarrow> False"
  by code_simp

theorem requested_job_settled_witness:
  "\<exists>w3 s. handle_delivery updates_worker 7 (Some (PDict (pub_body (last (broker (snd update_request)))))) updates_run (snd update_request)
      = Inr (Some (1, Ack 7, w3))
    \<and> worker_message_status ''ann'' [] (str_of_int 1) (db w3) = Done s \<and> st_finished s \<and> st_status s = Some ''succeeded''"
proof -
  let ?w1 = "snd update_request"
  have request: "enqueue_job 3 ''tok'' ''ann'' update_form \<lparr>db = empty_database, broker = [], files = Map.empty\<rparr>
      = (Done update_reply, ?w1)"
    using update_sample(1) by (simp add: update_request_def prod_eq_iff)
  have fresh: "jobs_wf (db \<lparr>db = empty_database, broker = [], files = Map.empty\<rparr>)"
      "0 < next_job_id (db \<lparr>db = empty_database, broker = [], files = Map.empty\<rparr>)"
      "create_lookup (Some (enqueue_key ''tok'' (py_strip (post_text update_form ''job_type'')) ''ann'' update_form))
        (db \<lparr>db = empty_database, broker = [], files = Map.empty\<rparr>) = None"
    by (simp_all add: jobs_wf_def empty_database_def create_lookup_def)
  have wf: "jobs_wf (db ?w1)" using update_sample(3,4) by (auto simp: jobs_wf_def)
  have handlers: "re_handlers updates_run = map_of (HANDLERS sample_worker)" by (simp add: updates_run_def)
  note all = requested_job_settled [OF request fresh wf refl update_sample(2) handlers, of 7]
  obtain c action w3 where run: "handle_delivery updates_worker 7 (Some (PDict (pub_body (last (broker ?w1))))) updates_run ?w1
      = Inr (Some (c, action, w3))" "action = Ack 7"
    using update_delivery_ends by (auto split: sum.splits option.splits prod.splits)
  have id: "eq_job_id update_reply = 1" by (simp add: update_reply_def)
  have "\<exists>s. worker_message_status ''ann'' [] (str_of_int 1) (db w3) = Done s \<and> st_finished s \<and> st_status s = Some ''succeeded''"
    using all run by (auto simp: id)
  moreover have "c = 1"
    using run by (auto simp: handle_delivery_def bind_result_Inr process_delivery_def split: if_splits option.splits)
  ultimately show ?thesis using run by blast
qed

end
