(* ===== verification/Tools.thy ===== *)
theory Tools
  imports Ocr Discovery ConsoleFiles
begin

text \<open>
  Helpers beside the pipeline: normalised names of media files and the exclusion terms of titles
  (\<open>src/src/workers/utils.py\<close>), the download limit of a source (\<open>src/src/workers/handlers.py\<close>), the counting
  logger of yt-dlp (\<open>src/src/workers/ytdlp_helpers.py\<close>), the clean-up of a folder's sidecars
  (\<open>src/src/workers/subtitles.py\<close>), the command line of the content filter
  (\<open>src/src/workers/content_filter.py\<close>) and the external programs that read a scanned page
  (\<open>src/src/workers/pdf_ocr.py\<close>).
\<close>

section \<open>Names of media files\<close>

definition normalized_stem :: "string \<Rightarrow> string" where
  "normalized_stem stem = or_else (rstrip_chars (\<lambda>c. c \<in> set ''. '') (squeeze_dots stem)) ''item''"

definition media_name :: "string \<Rightarrow> string \<Rightarrow> nat \<Rightarrow> string" where
  "media_name stem suf k = stem @ (if k = 0 then [] else ''_'' @ str_of_nat k) @ suf"

text \<open>The loop over the numbered names; \<open>None\<close> is a loop that does not end.\<close>

partial_function (option) free_media_path :: "file_system \<Rightarrow> path \<Rightarrow> string \<Rightarrow> nat \<Rightarrow> path option" where
  "free_media_path fs p stem k =
     (let q = with_name p (media_name stem (path_suffix p) k) in
      if path_exists fs (path_str q) then free_media_path fs p stem (Suc k) else Some q)"

text \<open>\<open>p.rename(q)\<close> to a name that is free; a directory takes what it holds along.\<close>

definition rename_path :: "media_env \<Rightarrow> path \<Rightarrow> path \<Rightarrow> file_system \<Rightarrow> error + file_system" where
  "rename_path env p q fs =
     (let a = path_str p; b = path_str q in
      if md_denied env a then Inl (OSError a)
      else case fs a of
        None \<Rightarrow> Inl (FileNotFound a)
      | Some (RegularFile n) \<Rightarrow> Inr (fs(a := None, b := Some (RegularFile n)))
      | Some Directory \<Rightarrow>
          Inr (\<lambda>x. if x = b \<or> prefix (b @ ''/'') x then fs (a @ drop (length b) x)
                   else if x = a \<or> prefix (a @ ''/'') x then None else fs x))"

definition normalize_media_filename ::
    "media_env \<Rightarrow> path \<Rightarrow> file_system \<Rightarrow> (error + path \<times> file_system) option" where
  "normalize_media_filename env p fs =
     (let stem = normalized_stem (path_stem p) in
      case named_sibling p (media_name stem (path_suffix p) 0) of
        Inl e \<Rightarrow> Some (Inl e)
      | Inr q \<Rightarrow>
          if q = p then Some (Inr (p, fs))
          else map_option (\<lambda>c. map_sum id (Pair c) (rename_path env p c fs)) (free_media_path fs p stem 0))"

section \<open>Exclusion terms\<close>

text \<open>
  \<open>casefold\<close> on the modelled characters; the micro sign, which it maps outside of them, stands for
  its own image.
\<close>

definition casefold :: "string \<Rightarrow> string" where
  "casefold s = concat (map (\<lambda>c. if ord c = 223 then ''ss'' else [lower_char c]) s)"

text \<open>A run of separators is one separator; the empty terms between them are dropped either way.\<close>

definition split_title_filter_terms :: "pyval \<Rightarrow> string list" where
  "split_title_filter_terms v =
     map (casefold \<circ> py_strip)
       (filter (\<lambda>t. py_strip t \<noteq> []) (split_by (\<lambda>c. c \<in> {CHR '','', CHR 0x0A, CHR 0x0D}) (str_or_empty v)))"

definition title_matches_filter :: "pyval \<Rightarrow> string list \<Rightarrow> string" where
  "title_matches_filter title terms =
     (let t = casefold (str_or_empty title) in
      if t = [] then []
      else case List.find (\<lambda>term. term \<noteq> [] \<and> contains_sub term t) terms of None \<Rightarrow> [] | Some term \<Rightarrow> term)"

section \<open>The download limit of a source\<close>

text \<open>A \<open>source_id\<close> that is no number names no source; the \<open>OverflowError\<close> of an infinite one is not caught.\<close>

definition infinite_value :: "pyval \<Rightarrow> bool" where
  "infinite_value v = (case v of PFloat s \<Rightarrow> py_float s \<in> {Some PosInf, Some NegInf} | _ \<Rightarrow> False)"

definition source_from_payload :: "database \<Rightarrow> pydict \<Rightarrow> error + source_config option" where
  "source_from_payload d payload =
     (let v = dget payload ''source_id'' in
      if \<not> truthy v then Inr None
      else case py_int_val v of
        Some n \<Rightarrow> Inr (first_row (\<lambda>s. src_id s = n) (source_configs d))
      | None \<Rightarrow> if infinite_value v then Inl (OverflowError (py_str v)) else Inr None)"

definition downloaded_count_for_source :: "string \<Rightarrow> source_config \<Rightarrow> database \<Rightarrow> nat" where
  "downloaded_count_for_source profile s d =
     count_rows (\<lambda>r. dl_profile_id r = profile \<and> dl_source_type r = src_source_type s \<and> dl_source_name r = src_name s
        \<and> dl_status r = DOWNLOADED) (downloads d)"

definition source_download_limit_reached :: "string \<Rightarrow> pydict \<Rightarrow> database \<Rightarrow> error + bool" where
  "source_download_limit_reached profile payload d =
     bind_result (source_from_payload d payload) (\<lambda>found.
       case found of
         None \<Rightarrow> Inr False
       | Some s \<Rightarrow> bind_result (source_limit d s) (\<lambda>limit.
           Inr (int (downloaded_count_for_source profile s d) \<ge> limit)))"

section \<open>The logger handed to yt-dlp\<close>

type_synonym run_stats = "(string \<times> int) list"

definition normalize_ytdlp_message :: "string \<Rightarrow> string" where
  "normalize_ytdlp_message m =
     (let t = py_strip m in if prefix ''[youtube] '' t then py_strip (drop 10 t) else t)"

definition count_key :: "string \<Rightarrow> run_stats \<Rightarrow> run_stats" where
  "count_key key stats = AList.update key ((case map_of stats key of None \<Rightarrow> 0 | Some n \<Rightarrow> n) + 1) stats"

definition count_if :: "bool \<Rightarrow> string \<Rightarrow> run_stats \<Rightarrow> run_stats" where
  "count_if b key stats = (if b then count_key key stats else stats)"

definition record_message :: "string \<Rightarrow> run_stats \<Rightarrow> run_stats" where
  "record_message m stats =
     (let has = (\<lambda>needle. contains_sub needle (py_lower m));
          stats = count_if (has ''[download] downloading item '') ''playlist_item_announced'' stats;
          stats = count_if (has ''unavailable'') ''messages_unavailable'' stats;
          stats = count_if (has ''private'') ''messages_private'' stats
      in count_if (has ''sign in'' \<or> has ''age-restricted'') ''messages_auth'' stats)"

text \<open>The messages of \<open>debug\<close> are only recorded; those of the others count as such, too.\<close>

definition logged :: "string option \<Rightarrow> string \<Rightarrow> run_stats \<Rightarrow> run_stats" where
  "logged level m stats =
     (let t = normalize_ytdlp_message m in
      if m = [] \<or> t = [] then stats
      else case level of None \<Rightarrow> record_message t stats | Some key \<Rightarrow> count_key key (record_message t stats))"

definition logger_debug :: "string \<Rightarrow> run_stats \<Rightarrow> run_stats" where
  "logger_debug = logged None"

definition logger_warning :: "string \<Rightarrow> run_stats \<Rightarrow> run_stats" where
  "logger_warning = logged (Some ''warnings'')"

definition logger_error :: "string \<Rightarrow> run_stats \<Rightarrow> run_stats" where
  "logger_error = logged (Some ''errors'')"

text \<open>The symbols that are taken out of a title lie outside the modelled characters.\<close>

definition clean_log_title :: "string \<Rightarrow> string" where
  "clean_log_title v = or_else (join_with '' '' (words_of (py_strip v))) ''unknown title''"

section \<open>The sidecars of a folder\<close>

definition folder_media_suffixes :: "string list" where
  "folder_media_suffixes = [''.mp3'', ''.mp4'', ''.m4a'', ''.webm'', ''.wav'', ''.flac'', ''.ogg'', ''.opus'']"

text \<open>\<open>entries\<close> is what \<open>iterdir\<close> yields.\<close>

definition cleanup_subtitle_sidecars_for_folder ::
    "media_env \<Rightarrow> path \<Rightarrow> path list \<Rightarrow> file_system \<Rightarrow> error + file_system" where
  "cleanup_subtitle_sidecars_for_folder env folder entries fs =
     (case fs (path_str folder) of
        None \<Rightarrow> Inr fs
      | Some (RegularFile _) \<Rightarrow> Inl (OSError (path_str folder))
      | Some Directory \<Rightarrow>
          Inr (fold (\<lambda>p fs. if is_file fs (path_str p) \<and> py_lower (path_suffix p) \<in> set folder_media_suffixes
                             then snd (normalize_existing_sidecars env p fs) else fs) entries fs))"

section \<open>The command line of the content filter\<close>

datatype filter_input = CheckModel | ScreenText string | ScreenFile string

definition predict_profanity :: "(string \<Rightarrow> error + bool) \<Rightarrow> string list \<Rightarrow> error + bool list option" where
  "predict_profanity profane texts = map_sum id Some (traverse profane texts)"

definition screen_text_or_file ::
    "(string \<Rightarrow> error + bool) \<Rightarrow> media_store \<Rightarrow> filter_input \<Rightarrow> error + explicit_match option" where
  "screen_text_or_file profane ms input =
     (case input of
        ScreenText t \<Rightarrow> find_explicit_content profane t
      | ScreenFile f \<Rightarrow> screen_transcript profane (path_of f) ms
      | CheckModel \<Rightarrow> screen_transcript profane (path_of ''None'') ms)"

text \<open>The exit status and the lines printed.\<close>

definition content_filter_main ::
    "(string \<Rightarrow> error + bool) \<Rightarrow> media_store \<Rightarrow> filter_input \<Rightarrow> bool \<Rightarrow> error + int \<times> string list" where
  "content_filter_main profane ms input fail_on_match =
     (if input = CheckModel then
        bind_result (predict_profanity profane [''plain words'']) (\<lambda>predictions.
          if predictions = None then Inr (2, [''model=fallback error=unavailable''])
          else Inr (0, [''model=profanityfilter'']))
      else bind_result (screen_text_or_file profane ms input) (\<lambda>found.
        case found of
          None \<Rightarrow> Inr (0, [''clean''])
        | Some m \<Rightarrow>
            Inr (if fail_on_match then 1 else 0,
              [''matched category='' @ em_category m @ '' term='' @ py_repr (PStr (em_term m))]
              @ (if em_sentence m \<noteq> [] then [''sentence='' @ em_sentence m] else []))))"

section \<open>Reading a scanned page\<close>

definition OCR_DPI :: nat where
  "OCR_DPI = 200"

definition render_arguments :: "path \<Rightarrow> path \<Rightarrow> nat \<Rightarrow> string list" where
  "render_arguments temp pdf page =
     [''pdftoppm'', ''-f'', str_of_nat page, ''-l'', str_of_nat page, ''-r'', str_of_nat OCR_DPI, ''-png'', ''-singlefile'',
      path_str pdf, path_str (path_join temp (path_of ''page''))]"

definition tesseract_arguments :: "path \<Rightarrow> string list" where
  "tesseract_arguments temp =
     [''tesseract'', path_str (with_suffix (path_join temp (path_of ''page'')) ''.png''), ''stdout'', ''--psm'', ''3'']"

text \<open>\<open>run\<close> runs a program by its list of arguments, without a shell, and gives its output; a status that
  is not zero and a time that runs out raise.\<close>

definition page_output :: "(string list \<Rightarrow> error + string) \<Rightarrow> path \<Rightarrow> path \<Rightarrow> nat \<Rightarrow> error + string" where
  "page_output run temp pdf page =
     bind_result (run (render_arguments temp pdf page)) (\<lambda>_. run (tesseract_arguments temp))"

definition ocr_page :: "(string list \<Rightarrow> error + string) \<Rightarrow> path \<Rightarrow> path \<Rightarrow> nat \<Rightarrow> error + string" where
  "ocr_page run temp pdf page = map_sum id clean_text (page_output run temp pdf page)"

section \<open>A normalised name is free and stays normalised\<close>

lemma with_name_inject: "with_name p a = with_name p b \<longleftrightarrow> a = b"
  by (simp add: with_name_def)

lemma media_name_inject: "media_name stem suf i = media_name stem suf j \<Longrightarrow> i = j"
  by (cases "i = 0"; cases "j = 0") (auto simp: media_name_def dest: str_of_nat_inject)

lemma sibling_str_inject: "path_str (with_name p a) = path_str (with_name p b) \<Longrightarrow> a = b"
  unfolding with_name_def by (rule path_str_snoc_inject)

lemma free_media_path_from:
  "path_exists fs (path_str (with_name p (media_name stem (path_suffix p) j))) \<Longrightarrow> j < k \<Longrightarrow>
   (\<And>i. j < i \<Longrightarrow> i < k \<Longrightarrow> path_exists fs (path_str (with_name p (media_name stem (path_suffix p) i)))) \<Longrightarrow>
   free_media_path fs p stem j = free_media_path fs p stem k"
proof (induction "k - j" arbitrary: j)
  case (Suc n)
  have step: "free_media_path fs p stem j = free_media_path fs p stem (Suc j)"
    using Suc.prems(1) by (subst free_media_path.simps) simp
  show ?case
  proof (cases "Suc j = k")
    case False
    then have "free_media_path fs p stem (Suc j) = free_media_path fs p stem k"
      using Suc.hyps(2) Suc.prems by (intro Suc.hyps(1)) auto
    then show ?thesis using step by simp
  qed (use step in simp)
qed simp

lemma free_media_path_ends:
  assumes "finite (dom fs)"
  obtains k where "free_media_path fs p stem 0 = Some (with_name p (media_name stem (path_suffix p) k))"
    and "fs (path_str (with_name p (media_name stem (path_suffix p) k))) = None"
    and "\<forall>j < k. fs (path_str (with_name p (media_name stem (path_suffix p) j))) \<noteq> None"
proof -
  let ?at = "\<lambda>k. path_str (with_name p (media_name stem (path_suffix p) k))"
  have "inj ?at" using sibling_str_inject media_name_inject by (fastforce intro!: injI)
  then obtain k where k: "fs (?at k) = None" "\<forall>j < k. fs (?at j) \<noteq> None" using assms by (rule first_free)
  have "free_media_path fs p stem 0 = free_media_path fs p stem k"
    using k(2) free_media_path_from [of fs p stem 0 k] by (cases "k = 0") (auto simp: path_exists_def)
  moreover have "free_media_path fs p stem k = Some (with_name p (media_name stem (path_suffix p) k))"
    using k(1) by (subst free_media_path.simps) (simp add: path_exists_def)
  ultimately show thesis using that k by simp
qed

definition tidy_stem :: "string \<Rightarrow> bool" where
  "tidy_stem s \<longleftrightarrow> s \<noteq> [] \<and> \<not> two_dots s \<and> last s \<notin> set ''. ''"

lemma rstrip_two_dots: "\<not> two_dots s \<Longrightarrow> \<not> two_dots (rstrip_chars P s)"
proof -
  assume "\<not> two_dots s"
  moreover have "s = rstrip_chars P s @ rev (takeWhile P (rev s))"
    unfolding rstrip_chars_def by (metis rev_append rev_rev_ident takeWhile_dropWhile_id)
  ultimately show ?thesis using two_dots_append by metis
qed

lemma rstrip_last: "rstrip_chars P s \<noteq> [] \<Longrightarrow> \<not> P (last (rstrip_chars P s))"
  using hd_dropWhile [of P "rev s"] by (auto simp: rstrip_chars_def last_rev)

lemma normalized_stem_tidy: "tidy_stem (normalized_stem s)"
  using rstrip_last [of "\<lambda>c. c \<in> set ''. ''" "squeeze_dots s"] rstrip_two_dots [OF two_dots_squeeze, of "\<lambda>c. c \<in> set ''. ''" s]
  by (auto simp: normalized_stem_def or_else_def tidy_stem_def)

lemma tidy_stem_kept: "tidy_stem s \<Longrightarrow> normalized_stem s = s"
  by (cases s rule: rev_cases) (auto simp: normalized_stem_def or_else_def tidy_stem_def squeeze_dots_id rstrip_chars_def)

lemma two_dots_join: "\<not> two_dots s \<Longrightarrow> CHR ''.'' \<notin> set t \<Longrightarrow> \<not> two_dots (s @ t)"
proof (induction s)
  case Nil
  then show ?case by (induction t) (auto simp: two_dots_Cons)
next
  case (Cons c s)
  then show ?case by (cases s; cases t) (auto simp: two_dots_Cons)
qed

lemma dot_split_again:
  assumes "stem \<noteq> []" and "snd (dot_split name) = suf" and "suf \<noteq> []"
  shows "dot_split (stem @ suf) = (stem, suf)"
proof -
  obtain e where e: "suf = CHR ''.'' # e" "CHR ''.'' \<notin> set e" using dot_split_suffix [of name] assms(2,3) by auto
  have "e \<noteq> []" using assms(2) e(1) by (auto simp: dot_split_def Let_def split: if_splits)
  moreover have "takeWhile (\<lambda>c. c \<noteq> CHR ''.'') (rev e @ CHR ''.'' # rev stem) = rev e"
      "dropWhile (\<lambda>c. c \<noteq> CHR ''.'') (rev e @ CHR ''.'' # rev stem) = CHR ''.'' # rev stem"
    using e(2) by (simp_all add: takeWhile_append dropWhile_append)
  ultimately show ?thesis using assms(1) e(1) by (simp add: dot_split_def)
qed

lemma numbered_tidy: "tidy_stem s \<Longrightarrow> tidy_stem (s @ (if k = 0 then [] else ''_'' @ str_of_nat k))"
proof (cases "k = 0")
  case False
  assume s: "tidy_stem s"
  have d: "is_decimal c" if "c \<in> set (str_of_nat k)" for c using that str_of_nat_decimal by blast
  have "str_of_nat k \<noteq> []" by (subst str_of_nat.simps) simp
  then have "last (str_of_nat k) \<in> set (str_of_nat k)" by simp
  then have "last (str_of_nat k) \<notin> set ''. ''" using d by (fastforce simp: is_decimal_def)
  moreover have "CHR ''.'' \<notin> set (''_'' @ str_of_nat k)" using d by (fastforce simp: is_decimal_def)
  ultimately show ?thesis using s False two_dots_join [of s "''_'' @ str_of_nat k"] \<open>str_of_nat k \<noteq> []\<close>
    by (simp add: tidy_stem_def)
qed simp

lemma normalized_again:
  assumes "q = with_name p (media_name (normalized_stem (path_stem p)) (path_suffix p) k)" and "path_suffix p \<noteq> []"
  shows "path_suffix q = path_suffix p \<and> tidy_stem (path_stem q)"
proof -
  let ?stem = "normalized_stem (path_stem p) @ (if k = 0 then [] else ''_'' @ str_of_nat k)"
  have t: "tidy_stem ?stem" by (rule numbered_tidy [OF normalized_stem_tidy])
  then have "dot_split (path_name q) = (?stem, path_suffix p)"
    using dot_split_again [of ?stem "path_name p" "path_suffix p"] assms
    by (simp add: media_name_def with_name_def path_name_def path_suffix_def tidy_stem_def)
  then show ?thesis using t by (simp add: path_suffix_def path_stem_def)
qed

lemma normalized_kept:
  assumes "path_parts q \<noteq> []" and "CHR ''/'' \<notin> set (path_name q)" and "tidy_stem (path_stem q)"
  shows "normalize_media_filename env q fs = Some (Inr (q, fs))"
proof -
  have n: "media_name (normalized_stem (path_stem q)) (path_suffix q) 0 = path_name q"
    using tidy_stem_kept [OF assms(3)] dot_split_concat by (simp add: media_name_def path_stem_def path_suffix_def)
  have "with_name q (path_name q) = q" using assms(1) by (cases q) (simp add: with_name_def path_name_def)
  then show ?thesis using assms(1,2) n by (simp add: normalize_media_filename_def named_sibling_def Let_def)
qed

lemma stem_chars: "set (normalized_stem s) \<subseteq> set s \<union> set ''item''"
proof -
  have "set (rstrip_chars P t) \<subseteq> set t" for P t using set_dropWhileD by (fastforce simp: rstrip_chars_def)
  then show ?thesis using set_squeeze_dots [of s] by (auto simp: normalized_stem_def or_else_def)
qed

lemma name_chars: "set (path_name p) = set (path_stem p) \<union> set (path_suffix p)"
  using arg_cong [OF dot_split_concat, of set "path_name p"] by (simp add: path_stem_def path_suffix_def)

text \<open>Normalising the name of a media file returns for every finite disk, keeps the file beside where it was with
  its content and touches no other file; a name that is taken is never used. A name with a suffix
  keeps it and gets a stem without runs of dots and without a dot or blank at its end, and normalising it
  again changes nothing.\<close>

theorem media_filename_normalized:
  assumes "path_parts p \<noteq> []" and "CHR ''/'' \<notin> set (path_name p)" and "fs (path_str p) = Some (RegularFile n)"
    and "finite (dom fs)" and "\<not> md_denied env (path_str p)"
  shows "\<exists>q fs'. normalize_media_filename env p fs = Some (Inr (q, fs'))
    \<and> path_parent q = path_parent p \<and> fs' (path_str q) = Some (RegularFile n)
    \<and> (\<forall>x. x \<noteq> path_str p \<and> x \<noteq> path_str q \<longrightarrow> fs' x = fs x)
    \<and> (q \<noteq> p \<longrightarrow> fs (path_str q) = None \<and> fs' (path_str p) = None)
    \<and> (path_suffix p \<noteq> [] \<longrightarrow> path_suffix q = path_suffix p \<and> tidy_stem (path_stem q)
         \<and> normalize_media_filename env q fs' = Some (Inr (q, fs')))"
proof -
  let ?stem = "normalized_stem (path_stem p)"
  let ?q = "\<lambda>k. with_name p (media_name ?stem (path_suffix p) k)"
  have noslash: "CHR ''/'' \<notin> set (path_name (?q k))" for k
    using assms(2) stem_chars [of "path_stem p"] name_chars [of p] str_of_nat_decimal [of "CHR ''/''" k]
    by (auto simp: path_name_def with_name_def media_name_def is_decimal_def)
  have first: "named_sibling p (media_name ?stem (path_suffix p) 0) = Inr (?q 0)"
    using assms(1) noslash [of 0] by (simp add: named_sibling_def with_name_def path_name_def)
  have par: "path_parent (?q k) = path_parent p" "path_parts (?q k) \<noteq> []" for k by (simp_all add: path_parent_def with_name_def)
  have again: "path_suffix (?q k) = path_suffix p \<and> tidy_stem (path_stem (?q k))
      \<and> normalize_media_filename env (?q k) fs' = Some (Inr (?q k, fs'))" if "path_suffix p \<noteq> []" for k fs'
    using normalized_again [OF refl that, of k] normalized_kept [OF par(2) noslash] by blast
  show ?thesis
  proof (cases "?q 0 = p")
    case True
    then have "normalize_media_filename env p fs = Some (Inr (p, fs))"
      using first by (simp add: normalize_media_filename_def Let_def)
    moreover have "path_suffix p \<noteq> [] \<Longrightarrow> tidy_stem (path_stem p)" using again [of 0 fs] True by metis
    ultimately show ?thesis using assms(3) by (intro exI [of _ p] exI [of _ fs]) simp
  next
    case False
    obtain k where k: "free_media_path fs p ?stem 0 = Some (?q k)" "fs (path_str (?q k)) = None"
      using free_media_path_ends [OF assms(4)] by blast
    let ?fs = "fs(path_str p := None, path_str (?q k) := Some (RegularFile n))"
    have ne: "path_str (?q k) \<noteq> path_str p" using k(2) assms(3) by auto
    have "normalize_media_filename env p fs = Some (Inr (?q k, ?fs))"
      using first False k(1) assms(3,5) by (simp add: normalize_media_filename_def rename_path_def Let_def)
    then show ?thesis using again [of k ?fs] par(1) [of k] k(2) ne by (intro exI [of _ "?q k"] exI [of _ ?fs]) simp
  qed
qed

theorem media_filename_normalized_witness:
  "\<exists>q fs'. normalize_media_filename plain_media_env (path_of ''/m/a.. .mp3'') [''/m/a.. .mp3'' \<mapsto> RegularFile 3, ''/m/a.mp3'' \<mapsto> RegularFile 4]
       = Some (Inr (q, fs')) \<and> path_str q = ''/m/a_1.mp3'' \<and> fs' (path_str q) = Some (RegularFile 3)
     \<and> fs' ''/m/a.mp3'' = Some (RegularFile 4)"
proof -
  let ?p = "path_of ''/m/a.. .mp3''"
  let ?fs = "[''/m/a.. .mp3'' \<mapsto> RegularFile 3, ''/m/a.mp3'' \<mapsto> RegularFile 4] :: file_system"
  have c: "path_parts ?p \<noteq> []" "CHR ''/'' \<notin> set (path_name ?p)" "path_str ?p = ''/m/a.. .mp3''"
      "named_sibling ?p (media_name (normalized_stem (path_stem ?p)) (path_suffix ?p) 0) = Inr (path_of ''/m/a.mp3'')"
      "path_of ''/m/a.mp3'' \<noteq> ?p"
      "path_str (with_name ?p (media_name (normalized_stem (path_stem ?p)) (path_suffix ?p) 0)) = ''/m/a.mp3''"
      "path_str (with_name ?p (media_name (normalized_stem (path_stem ?p)) (path_suffix ?p) 1)) = ''/m/a_1.mp3''"
    by code_simp+
  have "free_media_path ?fs ?p (normalized_stem (path_stem ?p)) 1 = Some (with_name ?p (media_name (normalized_stem (path_stem ?p)) (path_suffix ?p) 1))"
    using c(7) by (subst free_media_path.simps) (simp add: path_exists_def)
  then have "free_media_path ?fs ?p (normalized_stem (path_stem ?p)) 0 = Some (with_name ?p (media_name (normalized_stem (path_stem ?p)) (path_suffix ?p) 1))"
    using c(6) by (subst free_media_path.simps) (simp add: path_exists_def)
  then have run: "\<exists>fs'. normalize_media_filename plain_media_env ?p ?fs
      = Some (Inr (with_name ?p (media_name (normalized_stem (path_stem ?p)) (path_suffix ?p) 1), fs'))"
    using c(3-5) by (simp add: normalize_media_filename_def rename_path_def plain_media_env_def Let_def)
  have pre: "?fs (path_str ?p) = Some (RegularFile 3)" "finite (dom ?fs)" "\<not> md_denied plain_media_env (path_str ?p)"
    using c(3) by (simp_all add: plain_media_env_def)
  from media_filename_normalized [OF c(1,2) pre] obtain q fs' where
      q: "normalize_media_filename plain_media_env ?p ?fs = Some (Inr (q, fs'))"
      "fs' (path_str q) = Some (RegularFile 3)" "\<forall>x. x \<noteq> path_str ?p \<and> x \<noteq> path_str q \<longrightarrow> fs' x = ?fs x" by blast
  then have "path_str q = ''/m/a_1.mp3''" using run c(7) by auto
  then show ?thesis using q c(3) by auto
qed

text \<open>Without a suffix a second pass may go on: the dots at the end hide that the rest is a stem and a suffix.\<close>

lemma second_pass_changes:
  "path_suffix (path_of ''a .b..'') = [] \<and> media_name (normalized_stem (path_stem (path_of ''a .b..''))) [] 0 = ''a .b''
   \<and> media_name (normalized_stem (path_stem (path_of ''a .b''))) (path_suffix (path_of ''a .b'')) 0 = ''a.b''"
  by code_simp

section \<open>Facts about the helpers\<close>

lemma casefold_lower [simp]: "casefold (py_lower s) = casefold s"
proof -
  have "(ord (lower_char c) = 223) = (ord c = 223)" for c by (auto simp: lower_char_def Let_def)
  then show ?thesis by (simp add: casefold_def py_lower_def comp_def cong: map_cong if_cong)
qed

text \<open>A title matches a term exactly when the term is in it, whatever the case of the title's letters, and the
  answer is one of the terms.\<close>

lemma title_match_iff:
  "title_matches_filter (PStr t) terms \<noteq> [] \<longleftrightarrow> (\<exists>w \<in> set terms. w \<noteq> [] \<and> contains_sub w (casefold t))"
  "title_matches_filter (PStr t) terms \<noteq> [] \<Longrightarrow> title_matches_filter (PStr t) terms \<in> set terms"
  "title_matches_filter (PStr (py_lower t)) terms = title_matches_filter (PStr t) terms"
proof -
  have empty: "casefold t = [] \<Longrightarrow> \<not> (w \<noteq> [] \<and> contains_sub w (casefold t))" for w by simp
  show "title_matches_filter (PStr t) terms \<noteq> [] \<longleftrightarrow> (\<exists>w \<in> set terms. w \<noteq> [] \<and> contains_sub w (casefold t))"
    using empty by (auto simp: title_matches_filter_def Let_def find_None_iff find_Some_iff split: option.split)
  assume ne: "title_matches_filter (PStr t) terms \<noteq> []"
  then obtain w where w: "List.find (\<lambda>w. w \<noteq> [] \<and> contains_sub w (casefold t)) terms = Some w"
    by (auto simp: title_matches_filter_def Let_def split: if_splits option.splits)
  then have "title_matches_filter (PStr t) terms = w" using ne by (auto simp: title_matches_filter_def Let_def split: if_splits)
  moreover have "w \<in> set terms" using w by (auto simp: find_Some_iff)
  ultimately show "title_matches_filter (PStr t) terms \<in> set terms" by simp
qed (simp add: title_matches_filter_def)

lemma filter_terms_normal:
  "w \<in> set (split_title_filter_terms v) \<Longrightarrow> \<exists>t. w = casefold (py_strip t) \<and> py_strip t \<noteq> []"
  by (auto simp: split_title_filter_terms_def)

text \<open>The limit stands while fewer rows of the source are downloaded; every limit is at least one, so a source
  without downloads never reaches it.\<close>

lemma limit_reached_iff:
  assumes "source_from_payload d payload = Inr (Some s)" and "source_limit d s = Inr limit"
  shows "source_download_limit_reached profile payload d = Inr (limit \<le> int (downloaded_count_for_source profile s d))"
    and "downloaded_count_for_source profile s d = 0 \<Longrightarrow> source_download_limit_reached profile payload d = Inr False"
  using assms source_limit_pos [OF assms(2)] by (simp_all add: source_download_limit_reached_def)

lemma unknown_source_unlimited:
  "source_from_payload d payload = Inr None \<Longrightarrow> source_download_limit_reached profile payload d = Inr False"
  by (simp add: source_download_limit_reached_def)

lemma count_if_other: "key \<noteq> k \<Longrightarrow> map_of (count_if b key stats) k = map_of stats k"
  by (simp add: count_if_def count_key_def)

text \<open>An error message is counted once as an error, whatever else it says, and nothing else of the tally is.\<close>

lemma error_counted_once:
  assumes "normalize_ytdlp_message m \<noteq> []"
  shows "map_of (logger_error m stats) ''errors'' = Some ((case map_of stats ''errors'' of None \<Rightarrow> 0 | Some n \<Rightarrow> n) + 1)"
    and "map_of (logger_error m stats) ''warnings'' = map_of stats ''warnings''"
    and "map_of (logger_debug m stats) ''errors'' = map_of stats ''errors''"
proof -
  have "m \<noteq> []" using assms by (auto simp: normalize_ytdlp_message_def Let_def py_strip_def strip_chars_def rstrip_chars_def)
  then show "map_of (logger_error m stats) ''errors'' = Some ((case map_of stats ''errors'' of None \<Rightarrow> 0 | Some n \<Rightarrow> n) + 1)"
      and "map_of (logger_error m stats) ''warnings'' = map_of stats ''warnings''"
      and "map_of (logger_debug m stats) ''errors'' = map_of stats ''errors''"
    using assms by (simp_all add: logger_error_def logger_debug_def logged_def record_message_def Let_def count_if_other count_key_def)
qed

text \<open>The clean-up of a folder only takes sidecars: what it deletes is a file with a subtitle's suffix, a child of
  the folder of a media file whose stem begins its name.\<close>

lemma normalize_sidecars_deletes:
  assumes "snd (normalize_existing_sidecars env media fs) q \<noteq> fs q"
  shows "snd (normalize_existing_sidecars env media fs) q = None \<and> is_file fs q
    \<and> py_lower (path_suffix (path_of q)) \<in> set SUBTITLE_SIDECAR_SUFFIXES \<and> prefix (path_stem media @ ''.'') (path_name (path_of q))"
  using assms cleanup_changes [of env media "with_suffix media ''.srt''" fs q]
  by (auto simp: normalize_existing_sidecars_def Let_def extra_sidecar_def split: if_splits)

lemma folder_cleanup_deletes_sidecars:
  assumes "cleanup_subtitle_sidecars_for_folder env folder entries fs = Inr fs'" and "fs' q \<noteq> fs q"
  shows "fs' q = None \<and> is_file fs q \<and> py_lower (path_suffix (path_of q)) \<in> set SUBTITLE_SIDECAR_SUFFIXES
    \<and> (\<exists>media \<in> set entries. prefix (path_stem media @ ''.'') (path_name (path_of q)))"
proof -
  let ?step = "\<lambda>p fs. if is_file fs (path_str p) \<and> py_lower (path_suffix p) \<in> set folder_media_suffixes
                       then snd (normalize_existing_sidecars env p fs) else fs"
  have "fold ?step entries fs q = fs q \<or> (fold ?step entries fs q = None \<and> is_file fs q
      \<and> py_lower (path_suffix (path_of q)) \<in> set SUBTITLE_SIDECAR_SUFFIXES
      \<and> (\<exists>media \<in> set entries. prefix (path_stem media @ ''.'') (path_name (path_of q))))"
  proof (induction entries arbitrary: fs)
    case (Cons p ps)
    have one: "?step p fs q = fs q \<or> (?step p fs q = None \<and> is_file fs q
      \<and> py_lower (path_suffix (path_of q)) \<in> set SUBTITLE_SIDECAR_SUFFIXES \<and> prefix (path_stem p @ ''.'') (path_name (path_of q)))"
      using normalize_sidecars_deletes [of env p fs q] by auto
    show ?case
    proof (cases "?step p fs q = fs q")
      case True
      then have "is_file (?step p fs) q = is_file fs q" by (simp add: is_file_def)
      then show ?thesis using Cons.IH [of "?step p fs"] True by auto
    next
      case False
      then have "?step p fs q = None" using one by blast
      then have "fold ?step ps (?step p fs) q = None" using Cons.IH [of "?step p fs"] by (auto simp: is_file_def)
      then show ?thesis using one False by simp
    qed
  qed simp
  moreover have "fs' = fs \<or> fs' = fold ?step entries fs"
    using assms(1) by (auto simp: cleanup_subtitle_sidecars_for_folder_def split: option.splits file_node.splits)
  ultimately show ?thesis using assms(2) by auto
qed

text \<open>The exit status is 1 exactly for a match that was asked to fail. The status 2, the answer for a model that
  could not be loaded, is never given: the predictions are always a list.\<close>

lemma predictions_always_list: "predict_profanity profane texts \<noteq> Inr None"
  by (cases "traverse profane texts") (simp_all add: predict_profanity_def)

lemma filter_exit_status:
  assumes "content_filter_main profane ms input fail_on_match = Inr (status, printed)"
  shows "status \<in> {0, 1}"
    and "status = 1 \<longleftrightarrow> input \<noteq> CheckModel \<and> fail_on_match \<and> screen_text_or_file profane ms input \<noteq> Inr None"
  using assms predictions_always_list [of profane "[''plain words'']"]
  by (auto simp: content_filter_main_def bind_result_Inr split: if_splits option.splits)

text \<open>A page with little native text is read by the two programs; their cleaned output wins over the native text.\<close>

lemma scanned_page_read:
  assumes "length (clean_text t) < MIN_NATIVE_TEXT_LENGTH" and "oc_tesseract env pdf k = page_output run temp (path_of pdf) k"
    and "ocr_page run temp (path_of pdf) k = Inr found" and "found \<noteq> []"
  shows "read_pages env pdf k [t] = Inr [\<lparr>pg_number = k, pg_text = found, pg_used_ocr = True\<rparr>]"
proof -
  obtain raw where "page_output run temp (path_of pdf) k = Inr raw" "clean_text raw = found"
    using assms(3) by (cases "page_output run temp (path_of pdf) k") (auto simp: ocr_page_def)
  then show ?thesis using assms by (simp add: Let_def or_else_def)
qed

end
