(* ===== verification/Spec2Isabelle.thy ===== *)
theory Spec2Isabelle
  imports ScheduledJobs ConsoleRun Syncing Commands WorkerLife Copies Views Lifecycle Tools
begin

text \<open>
  A verification development of GetOffline, the self-hosted media library under \<open>src/\<close>: a web
  front end and API, a scheduler, and workers that discover episodes, download them, convert them
  with FFmpeg, transcribe and screen them, index PDFs and delete what has expired, and a console client
  that talks to the API through an SDK. The parts share a database and a message broker, and every
  effect on them is modelled.

  \<^bold>\<open>How the parts work together.\<close> The dashboard (\<open>src/src/api\<close>) and the scheduler
  (\<open>src/src/models/scheduler.py\<close>) write jobs into the job table (\<open>src/src/models/jobs.py\<close>) and publish a
  message naming each (\<open>src/src/frontend/queue.py\<close>, \<open>routing.py\<close>). A worker process
  (\<open>src/src/workers/runner.py\<close>) takes messages from its queue, claims the job, runs the handler of its
  type (\<open>HANDLERS\<close> in \<open>src/src/workers/handlers.py\<close>), heavy ones inside a CPU slot
  (\<open>src/src/workers/scheduler.py\<close>), and records the outcome. Handlers queue the next stage: discovery
  queues downloads, a download queues a conversion or a transcript, a conversion a transcript. The console
  (\<open>src/src/cli/app.py\<close>) lists episodes over HTTP (\<open>src/src/packages/getoffline_sdk\<close>), passes the API's
  gate (\<open>src/src/api/auth.py\<close>), fetches a file, plays it and reports how far it got. Beside them stand the
  management commands of the operator and a cron script that copies the library into a flat directory.

  \<^bold>\<open>Theories, bottom up.\<close>
  \<^item> \<open>Prelude\<close>: errors, results, tables as lists of rows and their lemmas. \<open>PyText\<close> and \<open>PyValue\<close>: the
    strings, numbers and JSON values of the language, as far as the code uses them. \<open>DateTime\<close>,
    \<open>IsoTime\<close>: instants, calendar dates and their ISO text, with the round trip of writing and reading.
  \<^item> \<open>Domain\<close>, \<open>Models\<close>: the enumerations of \<open>models/domain.py\<close> and the rows of \<open>models/models.py\<close>;
    \<open>database\<close> is the record of all tables, \<open>world\<close> adds the broker's messages and the files.
  \<^item> \<open>Jobs\<close>: \<open>create_job\<close>, \<open>claim_job\<close>, \<open>finish_job\<close> and the resets of stale jobs; a job is claimed at
    most once, and the idempotency key gives one active job. The locale \<open>job_table\<close> states what the
    other theories rely on.
  \<^item> \<open>Routing\<close>: queue names, priorities and message bodies (\<open>frontend/routing.py\<close>, \<open>frontend/queue.py\<close>).
  \<^item> \<open>CpuSlots\<close>: both slot backends of \<open>workers/scheduler.py\<close> refine one abstract table of leases (the
    locale \<open>slot_backend\<close>); the capacity is an invariant of every interleaving.
  \<^item> \<open>Runner\<close>: one worker process; the locale \<open>job_handler\<close> is what it asks of a handler.
  \<^item> \<open>WorkerLife\<close>: the process around it, from the connection to its end (\<open>run_worker\<close>, \<open>main\<close>), and the life
    of a lease in \<open>GlobalSlotScheduler\<close>: its polls, heartbeats and release.
  \<^item> \<open>ScheduledJobs\<close>: the pass over due schedules of \<open>models/scheduler.py\<close> and the catch-up of missed runs.
  \<^item> \<open>Paths\<close>, \<open>Settings\<close>: lexical paths and the settings of a profile (\<open>api/services/settings.py\<close>).
  \<^item> \<open>Library\<close>, \<open>Streaming\<close>, \<open>Playlists\<close>: listings, playback, byte ranges and the JSON views
    (\<open>api/services/library.py\<close>, \<open>api/playback\<close>, \<open>api/streaming/media.py\<close>, \<open>api/views.py\<close>).
  \<^item> \<open>Sources\<close>, \<open>ConfigForm\<close>, \<open>Pipeline\<close>, \<open>Episodes\<close>, \<open>Uploads\<close>, \<open>Enqueue\<close>: the handlers of the dashboard in
    \<open>api/services/dashboard_actions.py\<close>, by subject. \<open>SettingsPage\<close>: the settings page, the database lock around
    its form, and small helpers.
  \<^item> \<open>Discovery\<close>: \<open>check_for_episodes\<close>, from feeds and listings to queued downloads.
  \<^item> \<open>Media\<close>, \<open>TranscodeLock\<close>, \<open>Subtitles\<close>, \<open>Sidecars\<close>, \<open>WorkerRows\<close>: what the media handlers share, the
    names and kinds of files, the lease on a target, subtitle files and screening, the rows they write.
  \<^item> \<open>Fetching\<close>, \<open>Conversion\<close>, \<open>Transcripts\<close>, \<open>Ocr\<close>, \<open>Retention\<close>: the handlers themselves.
  \<^item> \<open>Handlers\<close>: the table \<open>HANDLERS\<close>; every handler is interpreted as a \<open>job_handler\<close>, so that the
    runner's theorems hold with the program's own handlers.
  \<^item> \<open>Lifecycle\<close>: from a request on the dashboard through the queue, the worker and its handler to the status the
    dashboard reads; the theories above composed.
  \<^item> \<open>Transcriber\<close>: \<open>workers/transcription.py\<close>, the chunks of long recordings and the caches; it provides
    the recognition \<open>Sidecars\<close> takes as an argument.
  \<^item> \<open>Sdk\<close>: both transports and the client of \<open>packages/getoffline_sdk\<close>. \<open>Auth\<close>: Basic authentication, the
    gates, sessions, streams and hosts (\<open>api/auth.py\<close>, \<open>api/views.py\<close>, \<open>frontend/middleware.py\<close>).
  \<^item> \<open>Views\<close>: the views of \<open>api/views.py\<close> that only read and stand behind their gate alone: the library under its
    two names, the subtitles of an episode, the CSRF token.
  \<^item> \<open>Api\<close>: every address of \<open>api/urls.py\<close> with its gate, its methods and the view behind it, as steps on
    the shared world; the isolation of users is stated over all of them. \<open>Frontend\<close>: the pages and the
    proxy of \<open>frontend/views.py\<close>, and where a stranger is sent. \<open>Copies\<close>: the copies of the library's routines in
    \<open>dashboard_actions.py\<close> and \<open>frontend/views.py\<close> and the older pages on them, compared with the originals.
  \<^item> \<open>ConsoleFiles\<close>, \<open>Playback\<close>, \<open>Console\<close>: \<open>cli/app.py\<close>, its credentials and downloads, the two playback
    backends behind the locale \<open>playback_backend\<close>, and the console itself as a step relation over its
    keys and turns. \<open>ConsoleRun\<close>: the program around it, \<open>main\<close> and \<open>run\<close> as functions on the rounds of the
    loop, which take the steps of the relation.
  \<^item> \<open>Tools\<close>: helpers of the workers: normalised file names, exclusion terms, the limit of a source, the logger handed
    to yt-dlp, the clean-up of a folder's sidecars, the content filter's command and the programs that read a
    scanned page (\<open>workers/utils.py\<close>, \<open>ytdlp_helpers.py\<close>, \<open>subtitles.py\<close>, \<open>content_filter.py\<close>, \<open>pdf_ocr.py\<close>).
  \<^item> \<open>Commands\<close>: the management commands (\<open>models/management/commands\<close>): accounts, the scheduler process, the
    import of a directory, the completion of the schema. \<open>Syncing\<close>: \<open>crons/sync_media_downloads.py\<close>, over a disk
    whose system calls may fail at any point.

  \<^bold>\<open>What is proved.\<close> Claiming and settling of jobs, with the real handlers, from the request to the status
  read afterwards; exactly the messages a
  worker accepts are routed to it; the slot capacity and the refinement of the slot backends; the
  scheduler's pass; bounds and idempotence of discovery; a download, conversion or upload never loses
  a file and always queues the next stage; the conversion lock excludes other workers while its
  lease runs, and hands over afterwards; a screened video gets no row unless its transcript was clean;
  jobs touch their own episode only; retention deletes exactly what has expired; cutting a PDF page
  into sentences loses no visible character; invariants of playlists and sources; pages cover the
  library; byte ranges and subtitle paths stay in their bounds; round trips of subtitle times; nothing
  behind the API's gate runs for a stranger, and a request leaves the rows of other users alone; a page
  sends a stranger to the login and back, and the proxy hands an answer on unchanged; a request announces the bytes it sends; the chunks of a
  recording tile it and come back in order; the console acts on the episode it shows, and
  a session, whatever ends it, stops the playback and loses no place unless its player cannot be stopped; a worker closes its connection whatever raises, and a
  slot is held while its job runs and given back; the sync script never harms what is on the disk; the
  commands touch the account or profile they name; the second copies agree with the originals; on MySQL no
  settings can be saved, because the name of their lock is too long for it. A property is preceded by a text block with its number and is followed by a witness that applies it
  at a concrete input, where it has hypotheses.

  \<^bold>\<open>How state and effects are read.\<close>
  \<^item> Every function, and every database transaction of the locks, is one atomic step; the worlds it
    takes and leaves are explicit. Interleavings are modelled where the code is built for them: slots,
    the conversion lock, claims of a job and deliveries of a message are sequences of such steps.
  \<^item> An exception is an \<open>error\<close> value, and every raise and early return is a branch. Replies of views are
    a datatype of done, refused, not found and raised.
  \<^item> An instant is an integer of microseconds; the clock's readings are arguments. Integers are
    unbounded, as in Python. Finite floats are exact rationals, so rounding of sums is not modelled.
  \<^item> A string is a list of characters, one for each code point below 256; blanks, case and digits are
    those of Latin-1, and marks outside it that only decorate output are left out. A JSON object is an
    association list in the order of its keys. The database sorts by code points.
  \<^item> A file system maps path texts to regular files with a size or directories; a \<open>media_store\<close> adds
    texts and times of modification. Symbolic links are not modelled; expanding and resolving a path
    are arguments of the model.
  \<^item> The broker is the list of published messages; deliveries are a list of events, acknowledgements a
    list of actions.

  \<^bold>\<open>Arguments of the model.\<close> Hash functions, feed reader, yt-dlp, FFmpeg, Whisper, the profanity model,
  pypdf and Tesseract, HTTP requests, processes and signals, the guess of a media type, the
  representation of a float, Django's resolver, user table, normal form of names, CSRF check, redirect check
  and host parser, the listing of directories, the calls of the system that fail and the files that
  cannot be removed. The laws used are hypotheses of the theorem that needs them:
  FFmpeg writes only its output (\<open>writes_only_output\<close>) and a resolved path resolves to itself
  (\<open>resolves_once\<close>) in the property of conversions; FFprobe judges a file by its content in that of a second
  synchronisation; MySQL refuses names of locks beyond 64 characters, as its manual says, in that of the settings.

  \<^bold>\<open>Loops.\<close> A search for a free file name is a \<open>partial_function\<close>, and its end is proved for a disk with
  finitely many files. A wait for a slot or for the conversion lock takes the instants of its polls;
  without a poll that succeeds it is \<open>None\<close>, and with the lock free the conversion job is proved to
  return. All other loops are structural or have a measure; no fuel is used.

  \<^bold>\<open>Not modelled.\<close> Log lines; the text of templates; the summaries table of the media, but for its
  clean-up in a purge; the yt-dlp progress text; curses, the parsing of arguments and prompts; the fake of yt-dlp
  for tests and the profiling scripts; \<open>extract_youtube_video_id\<close>, which only they call. An ISO time is
  read only as the code writes it, and a pattern of file names holds no double star, as a title that ends in
  a star would make one. The overflow of dates beyond year 9999 is left out. A row of a running job and a
  lock row are never deleted.
\<close>

end
